(* ===== verification/Go_Prelude.thy ===== *)
theory Go_Prelude
  imports Main "HOL-Library.Word" "HOL-Library.Multiset"
begin

text \<open>
  The prelude of the development: what the Go language and its standard library give the program,
  as executable functions, and the lemmas about them that the component theories share.

  A Go \<open>string\<close> and a Go \<open>[]byte\<close> are both finite sequences of bytes; both are HOL's
  \<open>string\<close> (a list of \<open>char\<close>, and a HOL \<open>char\<close> is one byte).  A nil slice and an empty
  slice are the same list: where the source tells them apart, the model uses an option.
  A Go \<open>int\<close>, \<open>int64\<close> or \<open>time.Duration\<close> is an \<open>int\<close>, with a range check where the code
  makes one; unsigned fields that wrap are \<open>word\<close>s.  A pointer that may be nil is an option.
  A run-time panic (index out of range, nil dereference, call of a nil function) is the value
  \<open>Panic\<close> of the type \<open>exec\<close>, so that it is a branch of the model and not an unspecified term.
\<close>

named_theorems go_defs \<open>definitions of the standard library functions, for evaluation\<close>
named_theorems go_len \<open>length facts about byte strings\<close>

type_synonym bytes = string
type_synonym duration = int

datatype panic =
    IndexOutOfRange | SliceBounds | NilDereference | NilFunc | NilMap | DivideByZero | NonPositiveInterval | TypeAssertion
  | MakeSlice | CallOfPanic
  | Diverges \<comment> \<open>not a panic: the outcome of a loop that never ends\<close>

datatype 'a exec = Panic panic | Done 'a

fun bind_exec :: "'a exec \<Rightarrow> ('a \<Rightarrow> 'b exec) \<Rightarrow> 'b exec" where
  "bind_exec (Panic p) f = Panic p"
| "bind_exec (Done x) f = f x"

fun map_exec :: "('a \<Rightarrow> 'b exec) \<Rightarrow> 'a list \<Rightarrow> 'b list exec" where
  "map_exec f [] = Done []"
| "map_exec f (x # xs) =
     bind_exec (f x) (\<lambda>y. bind_exec (map_exec f xs) (\<lambda>ys. Done (y # ys)))"

fun deref :: "'a option \<Rightarrow> 'a exec" where
  "deref None = Panic NilDereference"
| "deref (Some x) = Done x"

text \<open>Integer division truncates towards zero and panics on a zero divisor.\<close>

definition go_div :: "int \<Rightarrow> int \<Rightarrow> int exec" where
  "go_div a b = (if b = 0 then Panic DivideByZero else Done (sgn a * sgn b * (\<bar>a\<bar> div \<bar>b\<bar>)))"

definition MaxInt64 :: int where
  "MaxInt64 = 2 ^ 63 - 1"

section \<open>Package strings and package bytes\<close>

definition HasPrefix :: "bytes \<Rightarrow> bytes \<Rightarrow> bool" where
  "HasPrefix s p \<longleftrightarrow> take (length p) s = p"

definition HasSuffix :: "bytes \<Rightarrow> bytes \<Rightarrow> bool" where
  "HasSuffix s p \<longleftrightarrow> length p \<le> length s \<and> drop (length s - length p) s = p"

definition TrimPrefix :: "bytes \<Rightarrow> bytes \<Rightarrow> bytes" where
  "TrimPrefix s p = (if HasPrefix s p then drop (length p) s else s)"

definition TrimSuffix :: "bytes \<Rightarrow> bytes \<Rightarrow> bytes" where
  "TrimSuffix s p = (if HasSuffix s p then take (length s - length p) s else s)"

definition TrimLeft :: "bytes \<Rightarrow> char set \<Rightarrow> bytes" where
  "TrimLeft s cutset = dropWhile (\<lambda>c. c \<in> cutset) s"

definition TrimRight :: "bytes \<Rightarrow> char set \<Rightarrow> bytes" where
  "TrimRight s cutset = rev (dropWhile (\<lambda>c. c \<in> cutset) (rev s))"

definition Trim :: "bytes \<Rightarrow> char set \<Rightarrow> bytes" where
  "Trim s cutset = TrimRight (TrimLeft s cutset) cutset"

text \<open>The white space of \<open>strings.TrimSpace\<close> among the ASCII bytes.\<close>

definition ascii_space :: "char set" where
  "ascii_space = {CHR '' '', CHR 0x09, CHR 0x0A, CHR 0x0B, CHR 0x0C, CHR 0x0D}"

definition TrimSpace :: "bytes \<Rightarrow> bytes" where
  "TrimSpace s = Trim s ascii_space"

fun Contains :: "bytes \<Rightarrow> bytes \<Rightarrow> bool" where
  "Contains [] sub = (sub = [])"
| "Contains (c # cs) sub = (HasPrefix (c # cs) sub \<or> Contains cs sub)"

text \<open>
  \<open>ReplaceAll\<close> replaces the non-overlapping occurrences of \<open>old\<close> from left to right.  The
  program never calls it with an empty \<open>old\<close>; the equations leave the text as it is there.
\<close>

function ReplaceAll :: "bytes \<Rightarrow> bytes \<Rightarrow> bytes \<Rightarrow> bytes" where
  "ReplaceAll [] old new = []"
| "ReplaceAll (c # cs) old new =
     (if old \<noteq> [] \<and> HasPrefix (c # cs) old
      then new @ ReplaceAll (drop (length old) (c # cs)) old new
      else c # ReplaceAll cs old new)"
  by pat_completeness auto
termination
  by (relation "measure (\<lambda>(s, old, new). length s)") auto

text \<open>\<open>LastIndexByte\<close>: \<open>-1\<close> when the byte does not occur.\<close>

fun LastIndexByte :: "bytes \<Rightarrow> char \<Rightarrow> int" where
  "LastIndexByte [] c = -1"
| "LastIndexByte (x # xs) c =
     (let i = LastIndexByte xs c in if i \<ge> 0 then i + 1 else if x = c then 0 else -1)"

text \<open>\<open>strings.Split\<close> with a one-byte separator: always at least one part.\<close>

fun Split :: "bytes \<Rightarrow> char \<Rightarrow> bytes list" where
  "Split [] sep = [[]]"
| "Split (c # cs) sep =
     (if c = sep then [] # Split cs sep
      else (case Split cs sep of [] \<Rightarrow> [[c]] | p # ps \<Rightarrow> (c # p) # ps))"

fun Join :: "bytes list \<Rightarrow> bytes \<Rightarrow> bytes" where
  "Join [] sep = []"
| "Join [x] sep = x"
| "Join (x # y # ys) sep = x @ sep @ Join (y # ys) sep"

definition ToLower_char :: "char \<Rightarrow> char" where
  "ToLower_char c = (let n = (of_char c :: nat) in if 65 \<le> n \<and> n \<le> 90 then char_of (n + 32) else c)"

definition ToUpper_char :: "char \<Rightarrow> char" where
  "ToUpper_char c = (let n = (of_char c :: nat) in if 97 \<le> n \<and> n \<le> 122 then char_of (n - 32) else c)"

text \<open>Case conversion on the ASCII letters, which are the only ones the program compares against.\<close>

definition ToLower :: "bytes \<Rightarrow> bytes" where
  "ToLower = map ToLower_char"

definition ToUpper :: "bytes \<Rightarrow> bytes" where
  "ToUpper = map ToUpper_char"

definition EqualFold :: "bytes \<Rightarrow> bytes \<Rightarrow> bool" where
  "EqualFold a b \<longleftrightarrow> ToLower a = ToLower b"

section \<open>Package strconv\<close>

definition digit_char :: "nat \<Rightarrow> char" where
  "digit_char d = char_of (48 + d)"

definition char_digit :: "char \<Rightarrow> nat option" where
  "char_digit c = (let n = (of_char c :: nat) in if 48 \<le> n \<and> n \<le> 57 then Some (n - 48) else None)"

fun format_nat :: "nat \<Rightarrow> bytes" where
  "format_nat n = (if n < 10 then [digit_char n] else format_nat (n div 10) @ [digit_char (n mod 10)])"

declare format_nat.simps [simp del]

definition FormatInt :: "int \<Rightarrow> bytes" where
  "FormatInt i = (if i < 0 then CHR ''-'' # format_nat (nat (- i)) else format_nat (nat i))"

definition FormatBool :: "bool \<Rightarrow> bytes" where
  "FormatBool b = (if b then ''true'' else ''false'')"

fun parse_digits :: "nat \<Rightarrow> bytes \<Rightarrow> nat option" where
  "parse_digits acc [] = Some acc"
| "parse_digits acc (c # cs) =
     (case char_digit c of None \<Rightarrow> None | Some d \<Rightarrow> parse_digits (10 * acc + d) cs)"

definition parse_nat :: "bytes \<Rightarrow> nat option" where
  "parse_nat s = (if s = [] then None else parse_digits 0 s)"

text \<open>
  \<open>strconv.ParseInt(s, 10, 64)\<close>: an optional sign, at least one decimal digit, and the range of
  \<open>int64\<close>.  \<open>None\<close> is either of its errors (ErrSyntax, ErrRange): no caller tells them apart.
\<close>

definition ParseInt :: "bytes \<Rightarrow> int option" where
  "ParseInt s =
     (let neg = HasPrefix s ''-'';
          body = (if neg \<or> HasPrefix s ''+'' then tl s else s)
      in case parse_nat body of
           None \<Rightarrow> None
         | Some n \<Rightarrow>
             (let v = (if neg then - int n else int n)
              in if - (2 ^ 63) \<le> v \<and> v < 2 ^ 63 then Some v else None))"

definition ParseBool :: "bytes \<Rightarrow> bool option" where
  "ParseBool s =
     (if s \<in> {''1'', ''t'', ''T'', ''TRUE'', ''true'', ''True''} then Some True
      else if s \<in> {''0'', ''f'', ''F'', ''FALSE'', ''false'', ''False''} then Some False
      else None)"

section \<open>Package encoding/hex\<close>

definition hex_digit :: "nat \<Rightarrow> char" where
  "hex_digit n = (if n < 10 then char_of (48 + n) else char_of (87 + n))"

definition hex_val :: "char \<Rightarrow> nat option" where
  "hex_val c =
     (let n = (of_char c :: nat)
      in if 48 \<le> n \<and> n \<le> 57 then Some (n - 48)
         else if 97 \<le> n \<and> n \<le> 102 then Some (n - 87)
         else if 65 \<le> n \<and> n \<le> 70 then Some (n - 55)
         else None)"

fun EncodeToString :: "bytes \<Rightarrow> bytes" where
  "EncodeToString [] = []"
| "EncodeToString (c # cs) =
     (let n = (of_char c :: nat) in hex_digit (n div 16) # hex_digit (n mod 16) # EncodeToString cs)"

text \<open>\<open>hex.DecodeString\<close>: \<open>None\<close> for an odd length or a byte that is not a hex digit.\<close>

fun DecodeString :: "bytes \<Rightarrow> bytes option" where
  "DecodeString [] = Some []"
| "DecodeString [c] = None"
| "DecodeString (a # b # cs) =
     (case hex_val a of None \<Rightarrow> None | Some x \<Rightarrow>
     (case hex_val b of None \<Rightarrow> None | Some y \<Rightarrow>
     (case DecodeString cs of None \<Rightarrow> None | Some r \<Rightarrow> Some (char_of (16 * x + y) # r))))"

section \<open>The built-in copy\<close>

text \<open>\<open>copy(dst, src)\<close> overwrites the first \<open>min (len dst) (len src)\<close> elements of \<open>dst\<close>.\<close>

definition go_copy :: "'a list \<Rightarrow> 'a list \<Rightarrow> 'a list" where
  "go_copy dst src = take (length dst) src @ drop (length src) dst"

lemmas go_string_defs [go_defs] =
  HasPrefix_def HasSuffix_def TrimPrefix_def TrimSuffix_def TrimLeft_def TrimRight_def Trim_def
  TrimSpace_def ascii_space_def ToLower_def ToUpper_def ToLower_char_def ToUpper_char_def
  EqualFold_def FormatInt_def FormatBool_def parse_nat_def ParseInt_def ParseBool_def
  digit_char_def char_digit_def hex_digit_def hex_val_def go_copy_def

section \<open>Package net/http: headers\<close>

text \<open>
  A header maps canonical keys to the values added under them.  \<open>CanonicalMIMEHeaderKey\<close> upper-cases the
  first letter and every letter after a hyphen and lower-cases the others.
\<close>

type_synonym http_Header = "bytes \<rightharpoonup> bytes list"

fun canonical_from :: "bool \<Rightarrow> bytes \<Rightarrow> bytes" where
  "canonical_from up [] = []"
| "canonical_from up (c # cs) =
     (if up then ToUpper_char c else ToLower_char c) # canonical_from (c = CHR ''-'') cs"

definition CanonicalHeaderKey :: "bytes \<Rightarrow> bytes" where
  "CanonicalHeaderKey k = canonical_from True k"

definition Header_Get :: "http_Header \<Rightarrow> bytes \<Rightarrow> bytes" where
  "Header_Get h k = (case h (CanonicalHeaderKey k) of Some (v # _) \<Rightarrow> v | _ \<Rightarrow> [])"

definition Header_Set :: "bytes \<Rightarrow> bytes \<Rightarrow> http_Header \<Rightarrow> http_Header" where
  "Header_Set k v h = h(CanonicalHeaderKey k \<mapsto> [v])"

definition Header_Add :: "bytes \<Rightarrow> bytes \<Rightarrow> http_Header \<Rightarrow> http_Header" where
  "Header_Add k v h =
     (let key = CanonicalHeaderKey k in h(key \<mapsto> (case h key of None \<Rightarrow> [] | Some vs \<Rightarrow> vs) @ [v]))"

definition Header_Del :: "bytes \<Rightarrow> http_Header \<Rightarrow> http_Header" where
  "Header_Del k h = h(CanonicalHeaderKey k := None)"

section \<open>Package net/url\<close>

definition upper_hex :: "nat \<Rightarrow> char" where
  "upper_hex n = (if n < 10 then char_of (48 + n) else char_of (55 + n))"

definition url_unreserved :: "char \<Rightarrow> bool" where
  "url_unreserved c \<longleftrightarrow>
     (let n = (of_char c :: nat)
      in 65 \<le> n \<and> n \<le> 90 \<or> 97 \<le> n \<and> n \<le> 122 \<or> 48 \<le> n \<and> n \<le> 57) \<or>
     c \<in> {CHR ''-'', CHR ''_'', CHR ''.'', CHR ''~''}"

fun QueryEscape :: "bytes \<Rightarrow> bytes" where
  "QueryEscape [] = []"
| "QueryEscape (c # cs) =
     (if url_unreserved c then [c]
      else if c = CHR '' '' then ''+''
      else let n = (of_char c :: nat) in [CHR ''%'', upper_hex (n div 16), upper_hex (n mod 16)]) @ QueryEscape cs"

section \<open>Lemmas\<close>

subsection \<open>Outcomes\<close>

lemma bind_exec_Done_iff [simp]:
  "bind_exec m f = Done y \<longleftrightarrow> (\<exists>x. m = Done x \<and> f x = Done y)"
  by (cases m) auto

lemma bind_exec_assoc [simp]: "bind_exec (bind_exec m f) g = bind_exec m (\<lambda>x. bind_exec (f x) g)"
  by (cases m) simp_all

lemma deref_Done_iff [simp]: "deref m = Done x \<longleftrightarrow> m = Some x"
  by (cases m) auto

lemma map_exec_Done_length: "map_exec f xs = Done ys \<Longrightarrow> length ys = length xs"
  by (induction xs arbitrary: ys) auto

lemma go_div_pos [simp]: "0 \<le> a \<Longrightarrow> 0 < b \<Longrightarrow> go_div a b = Done (a div b)"
  by (cases "a = 0") (simp_all add: go_div_def)

subsection \<open>Headers\<close>

lemma Header_Get_Set [simp]: "Header_Get (Header_Set k v h) k = v"
  by (simp add: Header_Get_def Header_Set_def)

lemma Header_Get_Set_other [simp]:
  "CanonicalHeaderKey k \<noteq> CanonicalHeaderKey k' \<Longrightarrow> Header_Get (Header_Set k v h) k' = Header_Get h k'"
  by (simp add: Header_Get_def Header_Set_def)

lemma Header_Get_Del [simp]: "Header_Get (Header_Del k h) k = []"
  by (simp add: Header_Get_def Header_Del_def)

lemma Header_Get_Add_other [simp]:
  "CanonicalHeaderKey k \<noteq> CanonicalHeaderKey k' \<Longrightarrow> Header_Get (Header_Add k v h) k' = Header_Get h k'"
  by (simp add: Header_Get_def Header_Add_def Let_def)

lemma Header_Get_Add_new: "h (CanonicalHeaderKey k) = None \<Longrightarrow> Header_Get (Header_Add k v h) k = v"
  by (simp add: Header_Get_def Header_Add_def)

subsection \<open>Prefixes, suffixes and substrings\<close>

lemma HasPrefix_append [simp]: "HasPrefix (p @ s) p"
  by (simp add: HasPrefix_def)

lemma HasPrefix_iff: "HasPrefix s p \<longleftrightarrow> (\<exists>r. s = p @ r)"
  unfolding HasPrefix_def by (metis append_eq_conv_conj append_take_drop_id)

lemma HasPrefix_length [go_len]: "HasPrefix s p \<Longrightarrow> length p \<le> length s"
  by (auto simp: HasPrefix_iff)

lemma HasPrefix_Nil [simp]: "HasPrefix s []"
  by (simp add: HasPrefix_def)

lemma Contains_Nil [simp]: "Contains s []"
  by (cases s) simp_all

lemma Contains_iff: "Contains s sub \<longleftrightarrow> (\<exists>a b. s = a @ sub @ b)"
proof (induction s)
  case Nil
  show ?case by auto
next
  case (Cons c cs)
  show ?case
  proof
    assume "Contains (c # cs) sub"
    then consider r where "c # cs = sub @ r" | a b where "cs = a @ sub @ b"
      using Cons.IH by (auto simp: HasPrefix_iff)
    then show "\<exists>a b. c # cs = a @ sub @ b"
      by cases (metis append_Nil, metis append_Cons)
  next
    assume "\<exists>a b. c # cs = a @ sub @ b"
    then obtain a b where eq: "c # cs = a @ sub @ b" by blast
    show "Contains (c # cs) sub"
    proof (cases a)
      case Nil
      with eq have "HasPrefix (c # cs) sub" by (simp add: HasPrefix_iff)
      then show ?thesis by simp
    next
      case (Cons x a')
      with eq have "cs = a' @ sub @ b" by simp
      with Cons.IH show ?thesis by auto
    qed
  qed
qed

lemma Contains_shorter: "length s < length sub \<Longrightarrow> \<not> Contains s sub"
  by (auto simp: Contains_iff)

lemma ReplaceAll_absent: "\<not> Contains s old \<Longrightarrow> ReplaceAll s old new = s"
  by (induction s old new rule: ReplaceAll.induct) auto

lemma LastIndexByte_bounds: "-1 \<le> LastIndexByte s c \<and> LastIndexByte s c < int (length s)"
  by (induction s) (auto simp: Let_def)

lemma LastIndexByte_neg_iff: "LastIndexByte s c < 0 \<longleftrightarrow> c \<notin> set s"
  by (induction s) (auto simp: Let_def)

lemma LastIndexByte_snoc [simp]: "LastIndexByte (s @ [c]) c = int (length s)"
  by (induction s) (auto simp: Let_def)

lemma Split_ne [simp]: "Split s sep \<noteq> []"
  by (cases s) (auto split: list.splits)

lemma Split_no_sep: "p \<in> set (Split s sep) \<Longrightarrow> sep \<notin> set p"
proof (induction s arbitrary: p)
  case Nil
  then show ?case by simp
next
  case (Cons c cs)
  then show ?case
    by (cases "Split cs sep") (auto split: if_splits)
qed

lemma Join_Split: "Join (Split s sep) [sep] = s"
proof (induction s)
  case Nil
  show ?case by simp
next
  case (Cons c cs)
  obtain p ps where eq: "Split cs sep = p # ps"
    by (cases "Split cs sep") auto
  with Cons.IH show ?case
    by (cases ps) auto
qed

lemma Join_Cons: "Join (x # xs) sep = x @ (if xs = [] then [] else sep @ Join xs sep)"
  by (cases xs) simp_all

lemma Join_ne: "xs \<noteq> [] \<Longrightarrow> hd xs \<noteq> [] \<Longrightarrow> Join xs sep \<noteq> []"
  by (cases xs) (simp_all add: Join_Cons)

lemma set_Join: "set (Join xs sep) \<subseteq> \<Union> (set ` set xs) \<union> set sep"
  by (induction xs sep rule: Join.induct) auto

lemma Split_append: "sep \<notin> set x \<Longrightarrow> Split (x @ sep # r) sep = x # Split r sep"
  by (induction x) auto

lemma Split_none: "sep \<notin> set x \<Longrightarrow> Split x sep = [x]"
  by (induction x) auto

lemma Split_Join: "xs \<noteq> [] \<Longrightarrow> \<forall>x \<in> set xs. sep \<notin> set x \<Longrightarrow> Split (Join xs [sep]) sep = xs"
  by (induction xs) (auto simp: Join_Cons Split_append Split_none)

lemma ReplaceAll_no_char: "c \<notin> set s \<Longrightarrow> ReplaceAll s (c # cs) new = s"
  by (induction s) (auto simp: HasPrefix_def)

subsection \<open>Numbers as text\<close>

lemma char_digit_digit_char [simp]: "d < 10 \<Longrightarrow> char_digit (digit_char d) = Some d"
  by (simp add: char_digit_def digit_char_def)

lemma format_nat_ne [simp]: "format_nat n \<noteq> []"
  by (simp add: format_nat.simps [of n])

lemma parse_digits_append:
  "parse_digits acc (s @ t) =
     (case parse_digits acc s of None \<Rightarrow> None | Some m \<Rightarrow> parse_digits m t)"
  by (induction acc s rule: parse_digits.induct) (auto split: option.splits)

lemma parse_digits_format_nat: "parse_digits 0 (format_nat n) = Some n"
proof (induction n rule: format_nat.induct)
  case (1 n)
  show ?case
  proof (cases "n < 10")
    case True
    then show ?thesis by (simp add: format_nat.simps [of n])
  next
    case False
    with 1 have "parse_digits 0 (format_nat (n div 10)) = Some (n div 10)" by simp
    with False show ?thesis
      by (simp add: format_nat.simps [of n] parse_digits_append)
  qed
qed

lemma digit_char_not_sign: "d < 10 \<Longrightarrow> digit_char d \<noteq> CHR ''-'' \<and> digit_char d \<noteq> CHR ''+'' \<and> digit_char d \<noteq> CHR 0x22"
  using char_digit_digit_char [of d] by (auto simp: char_digit_def)

lemma set_format_nat: "c \<in> set (format_nat n) \<Longrightarrow> \<exists>d < 10. c = digit_char d"
proof (induction n arbitrary: c rule: format_nat.induct)
  case (1 n)
  have "\<exists>d < 10. digit_char (n mod 10) = digit_char d"
    by (intro exI [of _ "n mod 10"]) simp
  with 1 show ?case
    by (cases "n < 10") (auto simp: format_nat.simps [of n])
qed

lemma format_nat_not_sign:
  "c \<in> set (format_nat n) \<Longrightarrow> c \<noteq> CHR ''-'' \<and> c \<noteq> CHR ''+'' \<and> c \<noteq> CHR 0x22"
  using digit_char_not_sign by (auto dest!: set_format_nat)

lemma parse_nat_format_nat [simp]: "parse_nat (format_nat n) = Some n"
  by (simp add: parse_nat_def parse_digits_format_nat)

lemma format_nat_head: "\<not> HasPrefix (format_nat n) [CHR ''-''] \<and> \<not> HasPrefix (format_nat n) [CHR ''+'']"
  using format_nat_not_sign [of "CHR ''-''" n] format_nat_not_sign [of "CHR ''+''" n]
  by (auto simp: HasPrefix_iff)

lemma ParseInt_FormatInt:
  assumes "- (2 ^ 63) \<le> i" "i < 2 ^ 63"
  shows "ParseInt (FormatInt i) = Some i"
  using assms format_nat_head [of "nat i"]
  by (auto simp: ParseInt_def FormatInt_def HasPrefix_iff Let_def)

lemma set_FormatInt_quote: "CHR 0x22 \<notin> set (FormatInt i)"
  using format_nat_not_sign [of "CHR 0x22" "nat i"] format_nat_not_sign [of "CHR 0x22" "nat (- i)"]
  by (auto simp: FormatInt_def)

lemma FormatInt_ne [simp]: "FormatInt i \<noteq> []"
  by (simp add: FormatInt_def)

subsection \<open>Hexadecimal text\<close>

lemma hex_val_hex_digit [simp]: "n < 16 \<Longrightarrow> hex_val (hex_digit n) = Some n"
  by (simp add: hex_val_def hex_digit_def)

lemma of_char_less [simp]: "(of_char (c :: char) :: nat) < 256"
  by (metis of_char_of range_nat_of_char atLeastLessThan_iff rangeI)

lemma DecodeString_EncodeToString [simp]: "DecodeString (EncodeToString s) = Some s"
proof (induction s)
  case Nil
  show ?case by simp
next
  case (Cons c cs)
  have "(of_char c :: nat) div 16 < 16"
    using of_char_less [of c] by (simp add: less_mult_imp_div_less)
  with Cons.IH show ?case by (simp add: Let_def)
qed

lemma length_EncodeToString [simp, go_len]: "length (EncodeToString s) = 2 * length s"
  by (induction s) (simp_all add: Let_def)

subsection \<open>copy\<close>

lemma length_go_copy [simp, go_len]: "length (go_copy dst src) = length dst"
  by (auto simp: go_copy_def)

lemma go_copy_same_length [simp]: "length src = length dst \<Longrightarrow> go_copy dst src = src"
  by (simp add: go_copy_def)

end
