(* ===== verification/Go_Float.thy ===== *)
theory Go_Float
  imports Go_Prelude Complex_Main
begin

text \<open>
  Go's \<open>float64\<close> as far as the program uses it: comparisons, the conversion from \<open>int64\<close> and the
  \<open>%f\<close> format.  A value is a NaN, an infinity, the negative zero or a finite rational number.
  Comparisons follow IEEE 754: every comparison with a NaN is false and the two zeros are equal.
  The conversion from an integer rounds to 53 significant bits, ties to even.
\<close>

datatype f64 = FNaN | FInf bool | FNegZero | FFin rat

fun f64_rank :: "f64 \<Rightarrow> (int \<times> rat) option" where
  "f64_rank FNaN = None"
| "f64_rank (FInf neg) = Some (if neg then -1 else 1, 0)"
| "f64_rank FNegZero = Some (0, 0)"
| "f64_rank (FFin r) = Some (0, r)"

definition f64_lt :: "f64 \<Rightarrow> f64 \<Rightarrow> bool" where
  "f64_lt x y \<longleftrightarrow>
     (case (f64_rank x, f64_rank y) of
        (Some (a, r), Some (b, q)) \<Rightarrow> a < b \<or> (a = b \<and> r < q)
      | _ \<Rightarrow> False)"

definition f64_le :: "f64 \<Rightarrow> f64 \<Rightarrow> bool" where
  "f64_le x y \<longleftrightarrow>
     (case (f64_rank x, f64_rank y) of
        (Some (a, r), Some (b, q)) \<Rightarrow> a < b \<or> (a = b \<and> r \<le> q)
      | _ \<Rightarrow> False)"

definition f64_eq :: "f64 \<Rightarrow> f64 \<Rightarrow> bool" where
  "f64_eq x y \<longleftrightarrow> f64_rank x \<noteq> None \<and> f64_rank x = f64_rank y"

fun bit_length :: "nat \<Rightarrow> nat" where
  "bit_length n = (if n = 0 then 0 else Suc (bit_length (n div 2)))"

declare bit_length.simps [simp del]

text \<open>Rounding a natural number to 53 significant bits, ties to even.\<close>

definition round53 :: "nat \<Rightarrow> nat" where
  "round53 n =
     (if n < 2 ^ 53 then n
      else let e = bit_length n - 53; q = n div 2 ^ e; r = n mod 2 ^ e; half = 2 ^ (e - 1)
           in (if r > half \<or> (r = half \<and> odd q) then q + 1 else q) * 2 ^ e)"

definition f64_of_int :: "int \<Rightarrow> f64" where
  "f64_of_int i = FFin (of_int (sgn i * int (round53 (nat \<bar>i\<bar>))))"

text \<open>\<open>fmt.Sprintf("%f", x)\<close>: six decimals, ties to even.\<close>

definition round_half_even :: "rat \<Rightarrow> int" where
  "round_half_even r =
     (let q = \<lfloor>r\<rfloor>; d = r - of_int q
      in if d > 1 / 2 \<or> (d = 1 / 2 \<and> odd q) then q + 1 else q)"

definition pad_zeros :: "nat \<Rightarrow> bytes \<Rightarrow> bytes" where
  "pad_zeros w s = replicate (w - length s) CHR ''0'' @ s"

definition format_micro :: "nat \<Rightarrow> bytes" where
  "format_micro n = format_nat (n div 1000000) @ ''.'' @ pad_zeros 6 (format_nat (n mod 1000000))"

fun Sprintf_f :: "f64 \<Rightarrow> bytes" where
  "Sprintf_f FNaN = ''NaN''"
| "Sprintf_f (FInf neg) = (if neg then ''-Inf'' else ''+Inf'')"
| "Sprintf_f FNegZero = ''-0.000000''"
| "Sprintf_f (FFin r) =
     (if r < 0 then ''-'' @ format_micro (nat (round_half_even (- r) ))
      else format_micro (nat (round_half_even r)))"

section \<open>Lemmas\<close>

lemma f64_cmp_Fin [simp]:
  "f64_lt (FFin a) (FFin b) = (a < b)"
  "f64_le (FFin a) (FFin b) = (a \<le> b)"
  "f64_eq (FFin a) (FFin b) = (a = b)"
  by (simp_all add: f64_lt_def f64_le_def f64_eq_def)

lemma f64_cmp_NaN [simp]:
  "\<not> f64_lt FNaN y" "\<not> f64_lt x FNaN" "\<not> f64_le FNaN y" "\<not> f64_le x FNaN" "\<not> f64_eq FNaN y" "\<not> f64_eq x FNaN"
  by (auto simp: f64_lt_def f64_le_def f64_eq_def split: option.splits)

lemma f64_le_trans: "f64_le x y \<Longrightarrow> f64_le y z \<Longrightarrow> f64_le x z"
  by (auto simp: f64_le_def split: option.splits)

lemma f64_le_iff: "x \<noteq> FNaN \<Longrightarrow> y \<noteq> FNaN \<Longrightarrow> f64_le x y \<longleftrightarrow> \<not> f64_lt y x"
  by (cases x; cases y) (auto simp: f64_le_def f64_lt_def)

lemma f64_of_int_exact: "\<bar>i\<bar> < 2 ^ 53 \<Longrightarrow> f64_of_int i = FFin (of_int i)"
proof -
  assume "\<bar>i\<bar> < 2 ^ 53"
  then have "nat \<bar>i\<bar> < 2 ^ 53" by (simp add: nat_less_iff)
  then have "round53 (nat \<bar>i\<bar>) = nat \<bar>i\<bar>" by (simp add: round53_def)
  then show ?thesis by (simp add: f64_of_int_def sgn_mult_abs)
qed

lemma f64_of_int_not_NaN [simp]: "f64_of_int i \<noteq> FNaN"
  by (simp add: f64_of_int_def)

end
