(* ===== verification/Transit_Model.thy ===== *)
theory Transit_Model
  imports Go_Float
begin

text \<open>
  The data model of \<^verbatim>\<open>sdk/transit\<close>: the structs that travel between connectors, the agent and
  GroundWork, their setters and conversions, and the JSON form of timestamps.

  An embedded struct is a field of the embedding record (\<open>BaseInfo\<close> of \<open>BaseResource\<close> and so on).
  A Go map is a map; a pointer field is an option; a \<open>time.Time\<close> is its number of nanoseconds since
  the UNIX epoch (the location does not take part in anything the program computes).  The string
  types (\<open>MonitorStatus\<close>, \<open>ValueType\<close>, \<open>ResourceType\<close> \<dots>) stay strings, because decoded payloads can
  carry any string.
\<close>

section \<open>Constants\<close>

definition ModelVersion :: bytes where "ModelVersion = ''1.0.0''"

definition IntegerType :: bytes where "IntegerType = ''IntegerType''"
definition DoubleType :: bytes where "DoubleType = ''DoubleType''"
definition StringType :: bytes where "StringType = ''StringType''"
definition BooleanType :: bytes where "BooleanType = ''BooleanType''"
definition TimeType :: bytes where "TimeType = ''TimeType''"

definition ServiceOk :: bytes where "ServiceOk = ''SERVICE_OK''"
definition ServiceWarning :: bytes where "ServiceWarning = ''SERVICE_WARNING''"
definition ServiceUnscheduledCritical :: bytes where
  "ServiceUnscheduledCritical = ''SERVICE_UNSCHEDULED_CRITICAL''"
definition ServicePending :: bytes where "ServicePending = ''SERVICE_PENDING''"
definition ServiceScheduledCritical :: bytes where "ServiceScheduledCritical = ''SERVICE_SCHEDULED_CRITICAL''"
definition ServiceUnknown :: bytes where "ServiceUnknown = ''SERVICE_UNKNOWN''"
definition HostUp :: bytes where "HostUp = ''HOST_UP''"
definition HostUnchanged :: bytes where "HostUnchanged = ''HOST_UNCHANGED''"

definition ResourceTypeHost :: bytes where "ResourceTypeHost = ''host''"
definition ResourceTypeService :: bytes where "ResourceTypeService = ''service''"

definition SampleValue :: bytes where "SampleValue = ''Value''"
definition SampleWarning :: bytes where "SampleWarning = ''Warning''"
definition SampleCritical :: bytes where "SampleCritical = ''Critical''"

lemmas status_defs = ServiceOk_def ServiceWarning_def ServiceUnscheduledCritical_def ServicePending_def
  ServiceScheduledCritical_def ServiceUnknown_def HostUp_def HostUnchanged_def
lemmas value_type_defs = IntegerType_def DoubleType_def StringType_def BooleanType_def TimeType_def

section \<open>Timestamps\<close>

type_synonym timestamp = int

definition UnixMilli :: "timestamp \<Rightarrow> int" where
  "UnixMilli t = t div 1000000"

definition Timestamp_Add :: "timestamp \<Rightarrow> duration \<Rightarrow> timestamp" where
  "Timestamp_Add t d = t + d"

definition Timestamp_MarshalJSON :: "timestamp \<Rightarrow> bytes" where
  "Timestamp_MarshalJSON t = [CHR 0x22] @ FormatInt (UnixMilli t) @ [CHR 0x22]"

definition Timestamp_String :: "timestamp \<Rightarrow> bytes" where
  "Timestamp_String t = FormatInt (UnixMilli t)"

text \<open>\<open>None\<close> is the error of \<open>strconv.ParseInt\<close>; the receiver is then left as it was.\<close>

definition Timestamp_UnmarshalJSON :: "bytes \<Rightarrow> timestamp option" where
  "Timestamp_UnmarshalJSON input =
     (case ParseInt (Trim input {CHR 0x22}) of None \<Rightarrow> None | Some i \<Rightarrow> Some (i * 1000000))"

text \<open>The \<open>%s\<close> format of a timestamp pointer prints \<open><nil>\<close> for nil; calling \<open>String\<close> on nil panics.\<close>

fun fmt_timestamp :: "timestamp option \<Rightarrow> bytes" where
  "fmt_timestamp None = ''<nil>''"
| "fmt_timestamp (Some t) = Timestamp_String t"

section \<open>Typed values\<close>

record TypedValue =
  tv_ValueType :: bytes
  tv_BoolValue :: "bool option"
  tv_DoubleValue :: "f64 option"
  tv_IntegerValue :: "int option"
  tv_StringValue :: "bytes option"
  tv_TimeValue :: "timestamp option"

definition zero_TypedValue :: TypedValue where
  "zero_TypedValue =
     \<lparr>tv_ValueType = [], tv_BoolValue = None, tv_DoubleValue = None, tv_IntegerValue = None,
      tv_StringValue = None, tv_TimeValue = None\<rparr>"

definition TypedValue_String :: "TypedValue \<Rightarrow> bytes exec" where
  "TypedValue_String value =
     (if tv_ValueType value = IntegerType then
        bind_exec (deref (tv_IntegerValue value)) (\<lambda>i. Done (FormatInt i))
      else if tv_ValueType value = StringType then deref (tv_StringValue value)
      else if tv_ValueType value = DoubleType then
        bind_exec (deref (tv_DoubleValue value)) (\<lambda>d. Done (Sprintf_f d))
      else if tv_ValueType value = BooleanType then
        bind_exec (deref (tv_BoolValue value)) (\<lambda>b. Done (FormatBool b))
      else if tv_ValueType value = TimeType then
        bind_exec (deref (tv_TimeValue value)) (\<lambda>t. Done (Timestamp_String t))
      else Done [])"

text \<open>
  The dynamic types \<open>NewTypedValue\<close> switches on.  Machine integers are words of their width; each
  pointer case carries an option, nil being \<open>None\<close>; \<open>A_other\<close> is any other type.
\<close>

datatype go_any =
    A_bool bool | A_pbool "bool option"
  | A_float32 f64 | A_pfloat32 "f64 option" | A_float64 f64 | A_pfloat64 "f64 option"
  | A_int "64 word" | A_pint "64 word option" | A_int8 "8 word" | A_pint8 "8 word option"
  | A_int16 "16 word" | A_pint16 "16 word option" | A_int32 "32 word" | A_pint32 "32 word option"
  | A_int64 "64 word" | A_pint64 "64 word option"
  | A_uint "64 word" | A_puint "64 word option" | A_uint8 "8 word" | A_puint8 "8 word option"
  | A_uint16 "16 word" | A_puint16 "16 word option" | A_uint32 "32 word" | A_puint32 "32 word option"
  | A_uint64 "64 word" | A_puint64 "64 word option"
  | A_string bytes | A_pstring "bytes option"
  | A_Timestamp timestamp | A_pTimestamp "timestamp option"
  | A_TypedValue TypedValue | A_pTypedValue "TypedValue option"
  | A_other

definition tv_bool :: "bool \<Rightarrow> TypedValue" where
  "tv_bool b = zero_TypedValue\<lparr>tv_ValueType := BooleanType, tv_BoolValue := Some b\<rparr>"
definition tv_double :: "f64 \<Rightarrow> TypedValue" where
  "tv_double d = zero_TypedValue\<lparr>tv_ValueType := DoubleType, tv_DoubleValue := Some d\<rparr>"
definition tv_integer :: "int \<Rightarrow> TypedValue" where
  "tv_integer i = zero_TypedValue\<lparr>tv_ValueType := IntegerType, tv_IntegerValue := Some i\<rparr>"
definition tv_string :: "bytes \<Rightarrow> TypedValue" where
  "tv_string s = zero_TypedValue\<lparr>tv_ValueType := StringType, tv_StringValue := Some s\<rparr>"
definition tv_time :: "timestamp \<Rightarrow> TypedValue" where
  "tv_time t = zero_TypedValue\<lparr>tv_ValueType := TimeType, tv_TimeValue := Some t\<rparr>"

definition via :: "('a \<Rightarrow> TypedValue) \<Rightarrow> 'a option \<Rightarrow> TypedValue option exec" where
  "via f p = bind_exec (deref p) (\<lambda>x. Done (Some (f x)))"

text \<open>
  \<open>int64(v)\<close> of a signed value keeps it; of a narrower unsigned value keeps it; of a \<open>uint\<close> or
  \<open>uint64\<close> reads its 64 bits as two's complement.
\<close>

fun NewTypedValue :: "go_any \<Rightarrow> TypedValue option exec" where
  "NewTypedValue (A_bool v) = Done (Some (tv_bool v))"
| "NewTypedValue (A_pbool v) = via tv_bool v"
| "NewTypedValue (A_float32 v) = Done (Some (tv_double v))"
| "NewTypedValue (A_pfloat32 v) = via tv_double v"
| "NewTypedValue (A_float64 v) = Done (Some (tv_double v))"
| "NewTypedValue (A_pfloat64 v) = via tv_double v"
| "NewTypedValue (A_int v) = Done (Some (tv_integer (sint v)))"
| "NewTypedValue (A_pint v) = via (\<lambda>x. tv_integer (sint x)) v"
| "NewTypedValue (A_int8 v) = Done (Some (tv_integer (sint v)))"
| "NewTypedValue (A_pint8 v) = via (\<lambda>x. tv_integer (sint x)) v"
| "NewTypedValue (A_int16 v) = Done (Some (tv_integer (sint v)))"
| "NewTypedValue (A_pint16 v) = via (\<lambda>x. tv_integer (sint x)) v"
| "NewTypedValue (A_int32 v) = Done (Some (tv_integer (sint v)))"
| "NewTypedValue (A_pint32 v) = via (\<lambda>x. tv_integer (sint x)) v"
| "NewTypedValue (A_int64 v) = Done (Some (tv_integer (sint v)))"
| "NewTypedValue (A_pint64 v) = via (\<lambda>x. tv_integer (sint x)) v"
| "NewTypedValue (A_uint v) = Done (Some (tv_integer (sint v)))"
| "NewTypedValue (A_puint v) = via (\<lambda>x. tv_integer (sint x)) v"
| "NewTypedValue (A_uint8 v) = Done (Some (tv_integer (uint v)))"
| "NewTypedValue (A_puint8 v) = via (\<lambda>x. tv_integer (uint x)) v"
| "NewTypedValue (A_uint16 v) = Done (Some (tv_integer (uint v)))"
| "NewTypedValue (A_puint16 v) = via (\<lambda>x. tv_integer (uint x)) v"
| "NewTypedValue (A_uint32 v) = Done (Some (tv_integer (uint v)))"
| "NewTypedValue (A_puint32 v) = via (\<lambda>x. tv_integer (uint x)) v"
| "NewTypedValue (A_uint64 v) = Done (Some (tv_integer (sint v)))"
| "NewTypedValue (A_puint64 v) = via (\<lambda>x. tv_integer (sint x)) v"
| "NewTypedValue (A_string v) = Done (Some (tv_string v))"
| "NewTypedValue (A_pstring v) = via tv_string v"
| "NewTypedValue (A_Timestamp v) = Done (Some (tv_time v))"
| "NewTypedValue (A_pTimestamp v) = via tv_time v"
| "NewTypedValue (A_TypedValue v) = Done (Some v)"
| "NewTypedValue (A_pTypedValue v) = via id v"
| "NewTypedValue A_other = Done None"

section \<open>Time series and thresholds\<close>

record TimeInterval =
  ti_EndTime :: "timestamp option"
  ti_StartTime :: "timestamp option"

definition TimeInterval_String :: "TimeInterval \<Rightarrow> bytes" where
  "TimeInterval_String v = ''['' @ fmt_timestamp (ti_EndTime v) @ '', '' @ fmt_timestamp (ti_StartTime v) @ '']''"

record ThresholdValue =
  th_SampleType :: bytes
  th_Label :: bytes
  th_Value :: "TypedValue option"

definition ThresholdValue_SetValue :: "ThresholdValue \<Rightarrow> go_any \<Rightarrow> ThresholdValue exec" where
  "ThresholdValue_SetValue p v = bind_exec (NewTypedValue v) (\<lambda>t. Done (p\<lparr>th_Value := t\<rparr>))"

definition ThresholdValue_String :: "ThresholdValue \<Rightarrow> bytes exec" where
  "ThresholdValue_String p =
     bind_exec (deref (th_Value p)) (\<lambda>v. bind_exec (TypedValue_String v) (\<lambda>s.
       Done (''['' @ th_SampleType p @ '', '' @ th_Label p @ '', '' @ s @ '']'')))"

record TimeSeries =
  ts_MetricName :: bytes
  ts_SampleType :: bytes
  ts_Interval :: "TimeInterval option"
  ts_Value :: "TypedValue option"
  ts_Tags :: "bytes \<rightharpoonup> bytes"
  ts_Unit :: bytes
  ts_Thresholds :: "ThresholdValue list"
  ts_MetricComputeType :: bytes
  ts_MetricExpression :: bytes

definition AddThreshold :: "TimeSeries \<Rightarrow> ThresholdValue \<Rightarrow> TimeSeries" where
  "AddThreshold p t = p\<lparr>ts_Thresholds := ts_Thresholds p @ [t]\<rparr>"

definition TimeSeries_SetName :: "TimeSeries \<Rightarrow> bytes \<Rightarrow> TimeSeries" where
  "TimeSeries_SetName p s = p\<lparr>ts_MetricName := s\<rparr>"

definition SetSampleType :: "TimeSeries \<Rightarrow> bytes \<Rightarrow> TimeSeries" where
  "SetSampleType p s = p\<lparr>ts_SampleType := s\<rparr>"

definition new_interval :: "TimeSeries \<Rightarrow> TimeInterval" where
  "new_interval p = (case ts_Interval p of None \<Rightarrow> \<lparr>ti_EndTime = None, ti_StartTime = None\<rparr> | Some i \<Rightarrow> i)"

definition SetIntervalEnd :: "TimeSeries \<Rightarrow> timestamp option \<Rightarrow> TimeSeries" where
  "SetIntervalEnd p t = p\<lparr>ts_Interval := Some ((new_interval p)\<lparr>ti_EndTime := t\<rparr>)\<rparr>"

definition SetIntervalStart :: "TimeSeries \<Rightarrow> timestamp option \<Rightarrow> TimeSeries" where
  "SetIntervalStart p t = p\<lparr>ts_Interval := Some ((new_interval p)\<lparr>ti_StartTime := t\<rparr>)\<rparr>"

definition TimeSeries_SetValue :: "TimeSeries \<Rightarrow> go_any \<Rightarrow> TimeSeries exec" where
  "TimeSeries_SetValue p v = bind_exec (NewTypedValue v) (\<lambda>t. Done (p\<lparr>ts_Value := t\<rparr>))"

definition SetTag :: "TimeSeries \<Rightarrow> bytes \<Rightarrow> bytes \<Rightarrow> TimeSeries" where
  "SetTag p k v = p\<lparr>ts_Tags := (ts_Tags p)(k \<mapsto> v)\<rparr>"

definition SetUnit :: "TimeSeries \<Rightarrow> bytes \<Rightarrow> TimeSeries" where
  "SetUnit p s = p\<lparr>ts_Unit := s\<rparr>"

section \<open>Small descriptors\<close>

record LabelDescriptor =
  ld_Description :: bytes
  ld_Key :: bytes
  ld_ValueType :: bytes

definition LabelDescriptor_String :: "LabelDescriptor \<Rightarrow> bytes" where
  "LabelDescriptor_String d = ''['' @ ld_Description d @ '', '' @ ld_Key d @ '', '' @ ld_ValueType d @ '']''"

record ThresholdDescriptor =
  td_Key :: bytes
  td_Value :: int

definition ThresholdDescriptor_String :: "ThresholdDescriptor \<Rightarrow> bytes" where
  "ThresholdDescriptor_String d = ''['' @ td_Key d @ '', '' @ FormatInt (td_Value d) @ '']''"

record OperationResult =
  or_Entity :: bytes
  or_Status :: bytes
  or_Message :: bytes
  or_Location :: bytes
  or_EntityID :: int

definition OperationResult_String :: "OperationResult \<Rightarrow> bytes" where
  "OperationResult_String r =
     ''['' @ or_Entity r @ '', '' @ or_Status r @ '', '' @ or_Message r @ '', '' @ or_Location r @ '', '' @
     FormatInt (or_EntityID r) @ '']''"

record AgentIdentity =
  ai_AgentID :: bytes
  ai_AppName :: bytes
  ai_AppType :: bytes

section \<open>Tracer context\<close>

record TracerContext =
  tc_AppType :: bytes
  tc_AgentID :: bytes
  tc_TraceToken :: bytes
  tc_TimeStamp :: "timestamp option"
  tc_Version :: bytes

definition zero_TracerContext :: TracerContext where
  "zero_TracerContext =
     \<lparr>tc_AppType = [], tc_AgentID = [], tc_TraceToken = [], tc_TimeStamp = None, tc_Version = []\<rparr>"

text \<open>\<open>SetContext\<close> sets values if not empty; the pointed-to time is copied, not the pointer.\<close>

definition TracerContext_SetContext :: "TracerContext \<Rightarrow> TracerContext \<Rightarrow> TracerContext" where
  "TracerContext_SetContext p c =
     (let p = (if tc_AgentID c \<noteq> [] then p\<lparr>tc_AgentID := tc_AgentID c\<rparr> else p);
          p = (if tc_AppType c \<noteq> [] then p\<lparr>tc_AppType := tc_AppType c\<rparr> else p);
          p = (if tc_TraceToken c \<noteq> [] then p\<lparr>tc_TraceToken := tc_TraceToken c\<rparr> else p);
          p = (if tc_Version c \<noteq> [] then p\<lparr>tc_Version := tc_Version c\<rparr> else p)
      in case tc_TimeStamp c of None \<Rightarrow> p | Some t \<Rightarrow> p\<lparr>tc_TimeStamp := Some t\<rparr>)"

definition TracerContext_String :: "TracerContext \<Rightarrow> bytes" where
  "TracerContext_String p =
     ''['' @ tc_AppType p @ '', '' @ tc_AgentID p @ '', '' @ tc_TraceToken p @ '', '' @
     fmt_timestamp (tc_TimeStamp p) @ '', '' @ tc_Version p @ '']''"

section \<open>Inventory\<close>

record BaseInfo =
  bi_Name :: bytes
  bi_Type :: bytes
  bi_Owner :: bytes
  bi_Category :: bytes
  bi_Description :: bytes
  bi_Properties :: "bytes \<rightharpoonup> TypedValue"

definition SetName :: "BaseInfo \<Rightarrow> bytes \<Rightarrow> BaseInfo" where "SetName p s = p\<lparr>bi_Name := s\<rparr>"
definition SetType :: "BaseInfo \<Rightarrow> bytes \<Rightarrow> BaseInfo" where "SetType p s = p\<lparr>bi_Type := s\<rparr>"
definition SetOwner :: "BaseInfo \<Rightarrow> bytes \<Rightarrow> BaseInfo" where "SetOwner p s = p\<lparr>bi_Owner := s\<rparr>"
definition SetCategory :: "BaseInfo \<Rightarrow> bytes \<Rightarrow> BaseInfo" where "SetCategory p s = p\<lparr>bi_Category := s\<rparr>"
definition SetDescription :: "BaseInfo \<Rightarrow> bytes \<Rightarrow> BaseInfo" where "SetDescription p s = p\<lparr>bi_Description := s\<rparr>"

text \<open>A value of an unsupported type leaves the properties as they are (the code only logs it).\<close>

definition SetProperty :: "BaseInfo \<Rightarrow> bytes \<Rightarrow> go_any \<Rightarrow> BaseInfo exec" where
  "SetProperty p k v =
     bind_exec (NewTypedValue v) (\<lambda>t.
       case t of None \<Rightarrow> Done p | Some tv \<Rightarrow> Done (p\<lparr>bi_Properties := (bi_Properties p)(k \<mapsto> tv)\<rparr>))"

text \<open>The loop over a Go map: the list is the map's entries in the order the runtime visits them.\<close>

fun CreateProperties :: "BaseInfo \<Rightarrow> (bytes \<times> go_any) list \<Rightarrow> BaseInfo exec" where
  "CreateProperties p [] = Done p"
| "CreateProperties p ((k, v) # rest) = bind_exec (SetProperty p k v) (\<lambda>p'. CreateProperties p' rest)"

record BaseResource =
  br_BaseInfo :: BaseInfo
  br_Device :: bytes

definition SetDevice :: "BaseResource \<Rightarrow> bytes \<Rightarrow> BaseResource" where
  "SetDevice p s = p\<lparr>br_Device := s\<rparr>"

record ResourceRef =
  rr_Name :: bytes
  rr_Type :: bytes
  rr_Owner :: bytes

definition ResourceRef_String :: "ResourceRef \<Rightarrow> bytes" where
  "ResourceRef_String p = ''['' @ rr_Name p @ '', '' @ rr_Type p @ '', '' @ rr_Owner p @ '']''"

definition ToResourceRef :: "BaseResource \<Rightarrow> ResourceRef" where
  "ToResourceRef p =
     \<lparr>rr_Name = bi_Name (br_BaseInfo p), rr_Type = bi_Type (br_BaseInfo p), rr_Owner = bi_Owner (br_BaseInfo p)\<rparr>"

record InventoryService =
  is_BaseInfo :: BaseInfo

record InventoryResource =
  ir_BaseResource :: BaseResource
  ir_Services :: "InventoryService list"

definition InventoryResource_AddService :: "InventoryResource \<Rightarrow> InventoryService \<Rightarrow> InventoryResource" where
  "InventoryResource_AddService p svc = p\<lparr>ir_Services := ir_Services p @ [svc]\<rparr>"

record ResourceGroup =
  rg_GroupName :: bytes
  rg_Type :: bytes
  rg_Description :: bytes
  rg_Resources :: "ResourceRef list"

definition ResourceGroup_AddResource :: "ResourceGroup \<Rightarrow> ResourceRef \<Rightarrow> ResourceGroup" where
  "ResourceGroup_AddResource p r = p\<lparr>rg_Resources := rg_Resources p @ [r]\<rparr>"
definition ResourceGroup_SetName :: "ResourceGroup \<Rightarrow> bytes \<Rightarrow> ResourceGroup" where
  "ResourceGroup_SetName p s = p\<lparr>rg_GroupName := s\<rparr>"
definition ResourceGroup_SetType :: "ResourceGroup \<Rightarrow> bytes \<Rightarrow> ResourceGroup" where
  "ResourceGroup_SetType p s = p\<lparr>rg_Type := s\<rparr>"
definition ResourceGroup_SetDescription :: "ResourceGroup \<Rightarrow> bytes \<Rightarrow> ResourceGroup" where
  "ResourceGroup_SetDescription p s = p\<lparr>rg_Description := s\<rparr>"

record InventoryRequest =
  iq_Context :: TracerContext
  iq_OwnershipType :: bytes
  iq_Resources :: "InventoryResource list"
  iq_Groups :: "ResourceGroup list"

definition InventoryRequest_AddResource :: "InventoryRequest \<Rightarrow> InventoryResource \<Rightarrow> InventoryRequest" where
  "InventoryRequest_AddResource p r = p\<lparr>iq_Resources := iq_Resources p @ [r]\<rparr>"
definition InventoryRequest_AddResourceGroup :: "InventoryRequest \<Rightarrow> ResourceGroup \<Rightarrow> InventoryRequest" where
  "InventoryRequest_AddResourceGroup p g = p\<lparr>iq_Groups := iq_Groups p @ [g]\<rparr>"
definition InventoryRequest_SetContext :: "InventoryRequest \<Rightarrow> TracerContext \<Rightarrow> InventoryRequest" where
  "InventoryRequest_SetContext p c = p\<lparr>iq_Context := TracerContext_SetContext (iq_Context p) c\<rparr>"

section \<open>Monitored resources\<close>

record MonitoredInfo =
  mi_Status :: bytes
  mi_LastCheckTime :: "timestamp option"
  mi_NextCheckTime :: "timestamp option"
  mi_LastPluginOutput :: bytes

definition SetStatus :: "MonitoredInfo \<Rightarrow> bytes \<Rightarrow> MonitoredInfo" where
  "SetStatus p s = p\<lparr>mi_Status := s\<rparr>"
definition SetLastPluginOutput :: "MonitoredInfo \<Rightarrow> bytes \<Rightarrow> MonitoredInfo" where
  "SetLastPluginOutput p s = p\<lparr>mi_LastPluginOutput := s\<rparr>"
definition SetLastCheckTime :: "MonitoredInfo \<Rightarrow> timestamp option \<Rightarrow> MonitoredInfo" where
  "SetLastCheckTime p t = p\<lparr>mi_LastCheckTime := t\<rparr>"
definition SetNextCheckTime :: "MonitoredInfo \<Rightarrow> timestamp option \<Rightarrow> MonitoredInfo" where
  "SetNextCheckTime p t = p\<lparr>mi_NextCheckTime := t\<rparr>"

record MonitoredService =
  ms_BaseInfo :: BaseInfo
  ms_MonitoredInfo :: MonitoredInfo
  ms_Metrics :: "TimeSeries list"

definition AddMetric :: "MonitoredService \<Rightarrow> TimeSeries \<Rightarrow> MonitoredService" where
  "AddMetric p t = p\<lparr>ms_Metrics := ms_Metrics p @ [t]\<rparr>"

definition ToInventoryService :: "MonitoredService \<Rightarrow> InventoryService" where
  "ToInventoryService p = \<lparr>is_BaseInfo = ms_BaseInfo p\<rparr>"

record MonitoredResource =
  mr_BaseResource :: BaseResource
  mr_MonitoredInfo :: MonitoredInfo
  mr_Services :: "MonitoredService list"

definition MonitoredResource_AddService :: "MonitoredResource \<Rightarrow> MonitoredService \<Rightarrow> MonitoredResource" where
  "MonitoredResource_AddService p svc = p\<lparr>mr_Services := mr_Services p @ [svc]\<rparr>"

fun to_inventory_services :: "MonitoredService list \<Rightarrow> InventoryService list \<Rightarrow> InventoryService list" where
  "to_inventory_services [] acc = acc"
| "to_inventory_services (svc # svcs) acc = to_inventory_services svcs (acc @ [ToInventoryService svc])"

definition ToInventoryResource :: "MonitoredResource \<Rightarrow> InventoryResource" where
  "ToInventoryResource p =
     \<lparr>ir_BaseResource = mr_BaseResource p, ir_Services = to_inventory_services (mr_Services p) []\<rparr>"

record ResourcesWithServicesRequest =
  rq_Context :: TracerContext
  rq_Resources :: "MonitoredResource list"
  rq_Groups :: "ResourceGroup list"

definition zero_ResourcesWithServicesRequest :: ResourcesWithServicesRequest where
  "zero_ResourcesWithServicesRequest = \<lparr>rq_Context = zero_TracerContext, rq_Resources = [], rq_Groups = []\<rparr>"

definition RWS_AddResource :: "ResourcesWithServicesRequest \<Rightarrow> MonitoredResource \<Rightarrow> ResourcesWithServicesRequest" where
  "RWS_AddResource p r = p\<lparr>rq_Resources := rq_Resources p @ [r]\<rparr>"
definition RWS_AddResourceGroup :: "ResourcesWithServicesRequest \<Rightarrow> ResourceGroup \<Rightarrow> ResourcesWithServicesRequest" where
  "RWS_AddResourceGroup p g = p\<lparr>rq_Groups := rq_Groups p @ [g]\<rparr>"
definition RWS_SetContext :: "ResourcesWithServicesRequest \<Rightarrow> TracerContext \<Rightarrow> ResourcesWithServicesRequest" where
  "RWS_SetContext p c = p\<lparr>rq_Context := TracerContext_SetContext (rq_Context p) c\<rparr>"

section \<open>Downtimes and events\<close>

record Downtime =
  dt_EntityType :: bytes
  dt_EntityName :: bytes
  dt_HostName :: bytes
  dt_ServiceDescription :: bytes
  dt_ScheduledDowntimeDepth :: int

record Downtimes =
  dts_BizHostServiceInDowntimes :: "Downtime list"

record IncidentAlert =
  al_IncidentID :: bytes
  al_ResourceName :: bytes
  al_Status :: bytes
  al_StartedAt :: "timestamp option"
  al_EndedAt :: "timestamp option"
  al_ConditionName :: bytes
  al_URL :: bytes
  al_Summary :: bytes

definition IncidentAlert_String :: "IncidentAlert \<Rightarrow> bytes exec" where
  "IncidentAlert_String p =
     bind_exec (deref (al_StartedAt p)) (\<lambda>t0. bind_exec (deref (al_EndedAt p)) (\<lambda>t1.
       Done (''['' @ Join [al_IncidentID p, al_ResourceName p, al_Status p, Timestamp_String t0,
              Timestamp_String t1, al_ConditionName p, al_URL p, al_Summary p] '', '' @ '']'')))"

record GroundworkEvent =
  ev_AppType :: bytes
  ev_Device :: bytes
  ev_Host :: bytes
  ev_Service :: bytes
  ev_OperationStatus :: bytes
  ev_MonitorStatus :: bytes
  ev_Severity :: bytes
  ev_ApplicationSeverity :: bytes
  ev_Component :: bytes
  ev_SubComponent :: bytes
  ev_Priority :: bytes
  ev_TypeRule :: bytes
  ev_TextMessage :: bytes
  ev_LastInsertDate :: "timestamp option"
  ev_ReportDate :: "timestamp option"
  ev_ApplicationName :: bytes
  ev_ConsolidationName :: bytes
  ev_ErrorType :: bytes
  ev_LoggerName :: bytes
  ev_LogType :: bytes
  ev_MonitorServer :: bytes

definition GroundworkEvent_String :: "GroundworkEvent \<Rightarrow> bytes exec" where
  "GroundworkEvent_String p =
     bind_exec (deref (ev_LastInsertDate p)) (\<lambda>t0. bind_exec (deref (ev_ReportDate p)) (\<lambda>t1.
       Done (''['' @ Join [ev_AppType p, ev_Device p, ev_Host p, ev_Service p,
              ev_OperationStatus p, ev_MonitorStatus p, ev_Severity p, ev_ApplicationSeverity p,
              ev_Component p, ev_SubComponent p, ev_Priority p, ev_TypeRule p,
              ev_TextMessage p, Timestamp_String t0, Timestamp_String t1,
              ev_ApplicationName p, ev_ConsolidationName p, ev_ErrorType p,
              ev_LoggerName p, ev_LogType p, ev_MonitorServer p] '', '' @ '']'')))"

record GroundworkEventsRequest =
  er_Events :: "GroundworkEvent list"

definition zero_GroundworkEventsRequest :: GroundworkEventsRequest where
  "zero_GroundworkEventsRequest = \<lparr>er_Events = []\<rparr>"

record GroundworkEventAck =
  ack_AppType :: bytes
  ack_Host :: bytes
  ack_Service :: bytes
  ack_AcknowledgedBy :: bytes
  ack_AcknowledgeComment :: bytes

definition GroundworkEventAck_String :: "GroundworkEventAck \<Rightarrow> bytes" where
  "GroundworkEventAck_String p =
     ''['' @ Join [ack_AppType p, ack_Host p, ack_Service p, ack_AcknowledgedBy p, ack_AcknowledgeComment p] '', '' @ '']''"

record GroundworkEventUnack =
  una_AppType :: bytes
  una_Host :: bytes
  una_Service :: bytes

definition GroundworkEventUnack_String :: "GroundworkEventUnack \<Rightarrow> bytes" where
  "GroundworkEventUnack_String p = ''['' @ Join [una_AppType p, una_Host p, una_Service p] '', '' @ '']''"

section \<open>Lemmas\<close>

lemma Trim_quotes:
  assumes "CHR 0x22 \<notin> set s" "s \<noteq> []"
  shows "Trim ([CHR 0x22] @ s @ [CHR 0x22]) {CHR 0x22} = s"
proof -
  have l: "TrimLeft ([CHR 0x22] @ s @ [CHR 0x22]) {CHR 0x22} = s @ [CHR 0x22]"
    using assms by (cases s) (auto simp: TrimLeft_def)
  have "dropWhile (\<lambda>c. c = CHR 0x22) (rev s) = rev s"
    using assms by (cases "rev s") (auto simp: dropWhile_eq_self_iff dest: arg_cong [of _ _ set])
  then show ?thesis
    using l by (simp add: Trim_def TrimRight_def)
qed

lemma Timestamp_roundtrip:
  assumes "- (2 ^ 63) \<le> UnixMilli t" "UnixMilli t < 2 ^ 63"
  shows "Timestamp_UnmarshalJSON (Timestamp_MarshalJSON t) = Some (t - t mod 1000000)"
proof -
  have "Trim (Timestamp_MarshalJSON t) {CHR 0x22} = FormatInt (UnixMilli t)"
    unfolding Timestamp_MarshalJSON_def using set_FormatInt_quote FormatInt_ne by (rule Trim_quotes)
  then show ?thesis
    using ParseInt_FormatInt [OF assms]
    by (simp add: Timestamp_UnmarshalJSON_def UnixMilli_def minus_mod_eq_div_mult)
qed

lemma to_inventory_services_map: "to_inventory_services svcs acc = acc @ map ToInventoryService svcs"
  by (induction svcs acc rule: to_inventory_services.induct) simp_all

lemma SetContext_fields:
  "tc_AgentID (TracerContext_SetContext p c) = (if tc_AgentID c = [] then tc_AgentID p else tc_AgentID c)"
  "tc_AppType (TracerContext_SetContext p c) = (if tc_AppType c = [] then tc_AppType p else tc_AppType c)"
  "tc_TraceToken (TracerContext_SetContext p c) = (if tc_TraceToken c = [] then tc_TraceToken p else tc_TraceToken c)"
  "tc_Version (TracerContext_SetContext p c) = (if tc_Version c = [] then tc_Version p else tc_Version c)"
  "tc_TimeStamp (TracerContext_SetContext p c) = (if tc_TimeStamp c = None then tc_TimeStamp p else tc_TimeStamp c)"
  by (auto simp: TracerContext_SetContext_def Let_def split: option.splits)

lemma SetContext_zero [simp]: "TracerContext_SetContext zero_TracerContext c = c"
  by (rule TracerContext.equality) (simp_all add: SetContext_fields zero_TracerContext_def)

lemma SetContext_idem [simp]:
  "TracerContext_SetContext (TracerContext_SetContext p c) c = TracerContext_SetContext p c"
  by (rule TracerContext.equality) (simp_all add: SetContext_fields)

lemma SetProperty_lookup:
  assumes "SetProperty p k v = Done p'" "NewTypedValue v = Done (Some tv)"
  shows "bi_Properties p' = (bi_Properties p)(k \<mapsto> tv)"
  using assms by (auto simp: SetProperty_def)

lemma CreateProperties_lookup:
  assumes "CreateProperties p kvs = Done p'" "distinct (map fst kvs)"
  shows "bi_Properties p' k =
    (case map_of kvs k of
       None \<Rightarrow> bi_Properties p k
     | Some v \<Rightarrow> (case NewTypedValue v of Done (Some tv) \<Rightarrow> Some tv | _ \<Rightarrow> bi_Properties p k))"
  using assms
proof (induction kvs arbitrary: p)
  case Nil
  then show ?case by simp
next
  case (Cons kv kvs)
  obtain k1 v1 where kv: "kv = (k1, v1)" by (cases kv)
  from Cons.prems kv obtain p1 where p1: "SetProperty p k1 v1 = Done p1" "CreateProperties p1 kvs = Done p'"
    by auto
  from p1(1) obtain t where t: "NewTypedValue v1 = Done t"
    "p1 = (case t of None \<Rightarrow> p | Some tv \<Rightarrow> p\<lparr>bi_Properties := (bi_Properties p)(k1 \<mapsto> tv)\<rparr>)"
    by (auto simp: SetProperty_def split: option.splits)
  have new: "bi_Properties p1 x = (if x = k1 then
      (case NewTypedValue v1 of Done (Some tv) \<Rightarrow> Some tv | _ \<Rightarrow> bi_Properties p x) else bi_Properties p x)" for x
    using t by (auto split: option.splits)
  have "map_of kvs k1 = None"
    using Cons.prems(2) kv by (auto simp: map_of_eq_None_iff)
  with Cons.IH [OF p1(2)] Cons.prems(2) kv new show ?case
    by (auto split: option.splits exec.splits)
qed

section \<open>Properties\<close>

text \<open>
  The JSON form of a timestamp keeps it to the millisecond: decoding what \<open>MarshalJSON\<close> writes
  gives the time with the part below a millisecond cut off (towards the past, also before 1970), and
  a second round trip changes nothing.
\<close>

theorem Timestamp_json_roundtrip:
  assumes "- (2 ^ 63) \<le> UnixMilli t" "UnixMilli t < 2 ^ 63"
  shows "\<exists>t'. Timestamp_UnmarshalJSON (Timestamp_MarshalJSON t) = Some t' \<and> t' \<le> t \<and> t - t' < 1000000 \<and>
    Timestamp_UnmarshalJSON (Timestamp_MarshalJSON t') = Some t'"
proof -
  let ?t' = "t - t mod 1000000"
  have same: "UnixMilli ?t' = UnixMilli t" by (simp add: UnixMilli_def minus_mod_eq_div_mult)
  have "Timestamp_UnmarshalJSON (Timestamp_MarshalJSON ?t') = Some ?t'"
    using Timestamp_roundtrip [of ?t'] assms same by (simp add: minus_mod_eq_div_mult)
  then show ?thesis
    using Timestamp_roundtrip [OF assms] pos_mod_bound [of 1000000 t] pos_mod_sign [of 1000000 t]
    by (intro exI [of _ ?t']) simp
qed

theorem Timestamp_json_roundtrip_witness:
  "\<exists>t'. Timestamp_UnmarshalJSON (Timestamp_MarshalJSON 1609372800123456789) = Some t' \<and> t' \<le> 1609372800123456789"
  using Timestamp_json_roundtrip [of 1609372800123456789] by (auto simp: UnixMilli_def)

text \<open>
  \<open>NewTypedValue\<close> on integers: a signed value of any width and an unsigned value narrower than 64
  bits keep their number; a \<open>uint64\<close> keeps it exactly when it is below \<open>2^63\<close>, and otherwise becomes
  the negative number \<open>2^64\<close> below it.
\<close>

theorem NewTypedValue_integers:
  "NewTypedValue (A_int32 i) = Done (Some (tv_integer (sint i))) \<and>
   NewTypedValue (A_uint32 u) = Done (Some (tv_integer (uint u))) \<and>
   NewTypedValue (A_uint64 x) =
     Done (Some (tv_integer (if uint x < 2 ^ 63 then uint x else uint x - 2 ^ 64)))"
proof -
  have "sint x = (if uint x < 2 ^ 63 then uint x else uint x - 2 ^ 64)"
  proof -
    have bounds: "0 \<le> uint x" "uint x < 2 ^ 64"
      using uint_lt2p [of x] by simp_all
    have shift: "sint x = (uint x + 2 ^ 63) mod 2 ^ 64 - 2 ^ 63"
      by (simp add: sint_uint signed_take_bit_eq_take_bit_shift take_bit_eq_mod)
    have "(uint x + 2 ^ 63) mod 2 ^ 64 = uint x - 2 ^ 63" if "\<not> uint x < 2 ^ 63"
    proof -
      have "(uint x + 2 ^ 63) mod 2 ^ 64 = (uint x - 2 ^ 63 + 2 ^ 64) mod 2 ^ 64"
        by (simp add: add.commute)
      also have "\<dots> = uint x - 2 ^ 63" using that bounds by (simp only: mod_add_self2) simp
      finally show ?thesis .
    qed
    then show ?thesis using bounds by (simp add: shift)
  qed
  then show ?thesis by simp
qed

end
