(* ===== verification/Transit_Status.thy ===== *)
theory Transit_Status
  imports Transit_Model
begin

text \<open>
  The status rules of \<^verbatim>\<open>sdk/transit/transit.go\<close>: \<open>CalculateStatus\<close> compares one value with its
  warning and critical thresholds, \<open>CalculateServiceStatus\<close> takes the worst status over the metrics
  of a service, by the weights of \<open>MonitorStatusWeightService\<close>.
\<close>

section \<open>Definitions\<close>

definition CalculateResourceStatus :: "MonitoredService list \<Rightarrow> bytes" where
  "CalculateResourceStatus services = HostUp"

text \<open>The weight of a status; a status that is not a key of the Go map weighs 0.\<close>

definition MonitorStatusWeightService :: "bytes \<Rightarrow> int" where
  "MonitorStatusWeightService s =
     (if s = ServiceOk then 0
      else if s = ServicePending then 10
      else if s = ServiceUnknown then 20
      else if s = ServiceWarning then 30
      else if s = ServiceScheduledCritical then 50
      else if s = ServiceUnscheduledCritical then 100
      else 0)"

text \<open>The number a threshold stands for: 0 for a nil threshold or a value that is not a number.\<close>

definition threshold_number :: "TypedValue option \<Rightarrow> f64 exec" where
  "threshold_number th =
     (case th of
        None \<Rightarrow> Done (FFin 0)
      | Some t \<Rightarrow>
          if tv_ValueType t = IntegerType then bind_exec (deref (tv_IntegerValue t)) (\<lambda>i. Done (f64_of_int i))
          else if tv_ValueType t = DoubleType then deref (tv_DoubleValue t)
          else Done (FFin 0))"

abbreviation minus_one :: f64 where "minus_one \<equiv> FFin (-1)"

text \<open>The branch for integer values; \<open>w\<close> and \<open>c\<close> tell whether the thresholds are not nil.\<close>

definition integer_status :: "f64 \<Rightarrow> bool \<Rightarrow> f64 \<Rightarrow> bool \<Rightarrow> f64 \<Rightarrow> bytes" where
  "integer_status v w warningValue c criticalValue =
     (if \<not> w \<and> f64_eq criticalValue minus_one then
        (if f64_le criticalValue v then ServiceUnscheduledCritical else ServiceOk)
      else if \<not> c \<and> (w \<and> f64_eq warningValue minus_one) then
        (if f64_le warningValue v then ServiceWarning else ServiceOk)
      else if (w \<and> f64_eq warningValue minus_one) \<and> (c \<and> f64_eq criticalValue minus_one) then ServiceOk
      else if (w \<and> c) \<and> f64_lt criticalValue warningValue then
        (if f64_le v criticalValue then ServiceUnscheduledCritical
         else if f64_le v warningValue then ServiceWarning
         else ServiceOk)
      else if (w \<and> c) \<and> f64_le criticalValue v then ServiceUnscheduledCritical
      else if (w \<and> c) \<and> f64_le warningValue v then ServiceWarning
      else ServiceOk)"

definition double_status :: "f64 \<Rightarrow> bool \<Rightarrow> f64 \<Rightarrow> bool \<Rightarrow> f64 \<Rightarrow> bytes" where
  "double_status v w warningValue c criticalValue =
     (if \<not> w \<and> f64_eq criticalValue minus_one then
        (if f64_le criticalValue v then ServiceUnscheduledCritical else ServiceOk)
      else if \<not> c \<and> (w \<and> f64_eq warningValue minus_one) then
        (if f64_le warningValue v then ServiceWarning else ServiceOk)
      else if (w \<and> c) \<and> (f64_eq warningValue minus_one \<or> f64_eq criticalValue minus_one) then ServiceOk
      else if f64_lt criticalValue warningValue then
        (if f64_le v criticalValue then ServiceUnscheduledCritical
         else if f64_le v warningValue then ServiceWarning
         else ServiceOk)
      else if f64_le criticalValue v then ServiceUnscheduledCritical
      else if f64_le warningValue v then ServiceWarning
      else ServiceOk)"

definition CalculateStatus ::
  "TypedValue option \<Rightarrow> TypedValue option \<Rightarrow> TypedValue option \<Rightarrow> bytes exec" where
  "CalculateStatus value warning critical =
     (if warning = None \<and> critical = None then Done ServiceOk
      else
        bind_exec (threshold_number warning) (\<lambda>warningValue.
        bind_exec (threshold_number critical) (\<lambda>criticalValue.
        bind_exec (deref value) (\<lambda>v.
          if tv_ValueType v = IntegerType then
            bind_exec (deref (tv_IntegerValue v)) (\<lambda>i.
              Done (integer_status (f64_of_int i) (warning \<noteq> None) warningValue (critical \<noteq> None) criticalValue))
          else if tv_ValueType v = DoubleType then
            bind_exec (deref (tv_DoubleValue v)) (\<lambda>d.
              Done (double_status d (warning \<noteq> None) warningValue (critical \<noteq> None) criticalValue))
          else Done ServiceOk))))"

datatype status_error = UnsupportedThresholdSampleType

text \<open>The inner loop: the last warning and the last critical threshold; any other kind is an error.\<close>

fun pick_thresholds ::
  "ThresholdValue list \<Rightarrow> TypedValue option \<Rightarrow> TypedValue option \<Rightarrow>
   status_error + (TypedValue option \<times> TypedValue option)" where
  "pick_thresholds [] w c = Inr (w, c)"
| "pick_thresholds (t # ts) w c =
     (if th_SampleType t = SampleWarning then pick_thresholds ts (th_Value t) c
      else if th_SampleType t = SampleCritical then pick_thresholds ts w (th_Value t)
      else Inl UnsupportedThresholdSampleType)"

text \<open>
  The outer loop.  A decoded or built time series has a nil threshold slice exactly when it has no
  thresholds, and on an empty slice the body computes \<open>ServiceOk\<close>, so the empty list covers both.
\<close>

fun service_status_loop :: "bytes \<Rightarrow> TimeSeries list \<Rightarrow> (bytes \<times> status_error option) exec" where
  "service_status_loop prev [] = Done (prev, None)"
| "service_status_loop prev (m # ms) =
     (if ts_Thresholds m = [] then service_status_loop prev ms
      else
        (case pick_thresholds (ts_Thresholds m) None None of
           Inl e \<Rightarrow> Done (ServiceOk, Some e)
         | Inr (w, c) \<Rightarrow>
             bind_exec (CalculateStatus (ts_Value m) w c) (\<lambda>status.
               service_status_loop
                 (if MonitorStatusWeightService status > MonitorStatusWeightService prev then status else prev) ms)))"

definition CalculateServiceStatus :: "TimeSeries list option \<Rightarrow> (bytes \<times> status_error option) exec" where
  "CalculateServiceStatus metrics =
     (case metrics of
        None \<Rightarrow> Done (ServiceUnknown, None)
      | Some [] \<Rightarrow> Done (ServiceUnknown, None)
      | Some (m # ms) \<Rightarrow> service_status_loop ServiceOk (m # ms))"

section \<open>Lemmas\<close>

definition metric_status :: "TimeSeries \<Rightarrow> bytes exec" where
  "metric_status m =
     (case pick_thresholds (ts_Thresholds m) None None of
        Inl e \<Rightarrow> Done ServiceOk
      | Inr (w, c) \<Rightarrow> CalculateStatus (ts_Value m) w c)"

lemma weight_simps [simp]:
  "MonitorStatusWeightService ServiceOk = 0"
  "MonitorStatusWeightService ServiceWarning = 30"
  "MonitorStatusWeightService ServiceUnscheduledCritical = 100"
  by (simp_all add: MonitorStatusWeightService_def status_defs)

lemma three_statuses:
  "integer_status v w wv c cv \<in> {ServiceOk, ServiceWarning, ServiceUnscheduledCritical}"
  "double_status v w wv c cv \<in> {ServiceOk, ServiceWarning, ServiceUnscheduledCritical}"
  by (auto simp: integer_status_def double_status_def)

lemma CalculateStatus_range:
  "CalculateStatus v w c = Done s \<Longrightarrow> s \<in> {ServiceOk, ServiceWarning, ServiceUnscheduledCritical}"
  using three_statuses by (auto simp: CalculateStatus_def split: if_splits) blast+

lemma CalculateStatus_none [simp]: "CalculateStatus v None None = Done ServiceOk"
  by (simp add: CalculateStatus_def)

lemma service_status_loop_ok:
  assumes "service_status_loop prev ms = Done (s, None)"
  shows "(s = prev \<or> (\<exists>m \<in> set ms. metric_status m = Done s)) \<and>
    MonitorStatusWeightService prev \<le> MonitorStatusWeightService s \<and>
    (\<forall>m \<in> set ms. \<exists>x. metric_status m = Done x \<and>
       (ts_Thresholds m \<noteq> [] \<longrightarrow> MonitorStatusWeightService x \<le> MonitorStatusWeightService s))"
  using assms
proof (induction prev ms rule: service_status_loop.induct)
  case (1 prev)
  then show ?case by simp
next
  case (2 prev m ms)
  show ?case
  proof (cases "ts_Thresholds m = []")
    case True
    then show ?thesis using 2 by (auto simp: metric_status_def)
  next
    case False
    obtain w c where wc: "pick_thresholds (ts_Thresholds m) None None = Inr (w, c)"
      using 2(3) False by (auto split: sum.splits)
    obtain st where st: "CalculateStatus (ts_Value m) w c = Done st"
      using 2(3) False wc by auto
    have ms: "metric_status m = Done st" using wc st by (simp add: metric_status_def)
    define p where "p = (if MonitorStatusWeightService st > MonitorStatusWeightService prev then st else prev)"
    have "service_status_loop p ms = Done (s, None)"
      using 2(3) False wc st by (simp add: p_def)
    then have IH: "(s = p \<or> (\<exists>m \<in> set ms. metric_status m = Done s)) \<and>
        MonitorStatusWeightService p \<le> MonitorStatusWeightService s \<and>
        (\<forall>m \<in> set ms. \<exists>x. metric_status m = Done x \<and>
           (ts_Thresholds m \<noteq> [] \<longrightarrow> MonitorStatusWeightService x \<le> MonitorStatusWeightService s))"
      using "2.IH"(2) [OF False wc refl] by (simp add: p_def)
    have "p = st \<or> p = prev" "MonitorStatusWeightService prev \<le> MonitorStatusWeightService p"
      "MonitorStatusWeightService st \<le> MonitorStatusWeightService p"
      by (auto simp: p_def)
    then show ?thesis using IH ms by auto
  qed
qed

text \<open>A value or threshold that carries a number: its numeric reading.\<close>

definition number_of :: "TypedValue \<Rightarrow> f64 option" where
  "number_of t =
     (if tv_ValueType t = IntegerType then map_option f64_of_int (tv_IntegerValue t)
      else if tv_ValueType t = DoubleType then tv_DoubleValue t
      else None)"

lemma threshold_number_of: "number_of t = Some x \<Longrightarrow> threshold_number (Some t) = Done x"
  by (auto simp: number_of_def threshold_number_def split: if_splits)

text \<open>The rule two enabled thresholds implement, whatever numeric type the value has.\<close>

definition threshold_rule :: "f64 \<Rightarrow> f64 \<Rightarrow> f64 \<Rightarrow> bytes" where
  "threshold_rule v w c =
     (if f64_lt c w
      then (if f64_le v c then ServiceUnscheduledCritical else if f64_le v w then ServiceWarning else ServiceOk)
      else (if f64_le c v then ServiceUnscheduledCritical else if f64_le w v then ServiceWarning else ServiceOk))"

lemma CalculateStatus_numbers:
  assumes "number_of v = Some x" "number_of w = Some a" "number_of c = Some b"
    "\<not> f64_eq a minus_one" "\<not> f64_eq b minus_one"
  shows "CalculateStatus (Some v) (Some w) (Some c) = Done (threshold_rule x a b)"
proof (cases "tv_ValueType v = IntegerType")
  case True
  then obtain i where "tv_IntegerValue v = Some i" "x = f64_of_int i"
    using assms(1) by (auto simp: number_of_def)
  then show ?thesis
    using True assms by (simp add: CalculateStatus_def threshold_number_of integer_status_def threshold_rule_def)
next
  case False
  then have "tv_ValueType v = DoubleType" "tv_DoubleValue v = Some x"
    using assms(1) by (auto simp: number_of_def split: if_splits)
  then show ?thesis
    using False assms by (simp add: CalculateStatus_def threshold_number_of double_status_def threshold_rule_def)
qed

lemma threshold_rule_mono:
  assumes "f64_le x y" "f64_le a b" "a \<noteq> FNaN" "b \<noteq> FNaN"
  shows "MonitorStatusWeightService (threshold_rule x a b) \<le> MonitorStatusWeightService (threshold_rule y a b)"
proof -
  have nlt: "\<not> f64_lt b a" using assms(2-4) f64_le_iff by blast
  show ?thesis
    using nlt assms(1) f64_le_trans [of b x y] f64_le_trans [of a x y]
    by (auto simp: threshold_rule_def)
qed

section \<open>Properties\<close>


lemmas tv_defs = tv_integer_def tv_double_def zero_TypedValue_def value_type_defs


text \<open>
  C8. \<open>CalculateServiceStatus\<close> is the worst status of the service: when it reports no error on a
  non-empty list of metrics, its weight is at least the weight of the status of every metric that has
  thresholds, and it is \<open>ServiceOk\<close> or the status of one of the metrics.
\<close>

theorem CalculateServiceStatus_worst:
  assumes "CalculateServiceStatus (Some ms) = Done (s, None)" "ms \<noteq> []"
  shows "(s = ServiceOk \<or> (\<exists>m \<in> set ms. metric_status m = Done s)) \<and>
    (\<forall>m \<in> set ms. ts_Thresholds m \<noteq> [] \<longrightarrow>
       (\<exists>x. metric_status m = Done x \<and> MonitorStatusWeightService x \<le> MonitorStatusWeightService s))"
  using assms service_status_loop_ok [of ServiceOk ms s]
  by (cases ms) (auto simp: CalculateServiceStatus_def)

definition demo_metric :: "int \<Rightarrow> TimeSeries" where
  "demo_metric i =
     \<lparr>ts_MetricName = ''m'', ts_SampleType = SampleValue, ts_Interval = None, ts_Value = Some (tv_integer i),
      ts_Tags = Map.empty, ts_Unit = [],
      ts_Thresholds = [\<lparr>th_SampleType = SampleWarning, th_Label = [], th_Value = Some (tv_integer 80)\<rparr>,
                       \<lparr>th_SampleType = SampleCritical, th_Label = [], th_Value = Some (tv_integer 90)\<rparr>],
      ts_MetricComputeType = [], ts_MetricExpression = []\<rparr>"

lemma demo_metric_status:
  "metric_status (demo_metric 85) = Done ServiceWarning" "metric_status (demo_metric 10) = Done ServiceOk"
  by (simp_all add: metric_status_def demo_metric_def SampleWarning_def SampleCritical_def CalculateStatus_def
      threshold_number_def integer_status_def tv_defs f64_of_int_exact)

theorem CalculateServiceStatus_worst_witness:
  "CalculateServiceStatus (Some [demo_metric 10, demo_metric 85]) = Done (ServiceWarning, None) \<and>
   (\<exists>x. metric_status (demo_metric 85) = Done x \<and> MonitorStatusWeightService x \<le> 30)"
proof -
  have run: "CalculateServiceStatus (Some [demo_metric 10, demo_metric 85]) = Done (ServiceWarning, None)"
    by (simp add: CalculateServiceStatus_def demo_metric_def SampleWarning_def SampleCritical_def CalculateStatus_def
        threshold_number_def integer_status_def tv_defs f64_of_int_exact)
  have "ts_Thresholds (demo_metric 85) \<noteq> []" by (simp add: demo_metric_def)
  with CalculateServiceStatus_worst [OF run] run show ?thesis by auto
qed

text \<open>
  Integer and double values are not judged alike.  With the warning threshold set to the "none"
  value -1 and critical 90, the integer 5 is reported as a warning while the double 5 is ok; with only
  a critical threshold of 90, the integer 95 is ok while the double 95 is critical and the double 5
  is a warning.
\<close>

theorem integer_double_status_differ:
  "CalculateStatus (Some (tv_integer 5)) (Some (tv_integer (-1))) (Some (tv_integer 90)) = Done ServiceWarning \<and>
   CalculateStatus (Some (tv_double (FFin 5))) (Some (tv_integer (-1))) (Some (tv_integer 90)) = Done ServiceOk \<and>
   CalculateStatus (Some (tv_integer 95)) None (Some (tv_integer 90)) = Done ServiceOk \<and>
   CalculateStatus (Some (tv_double (FFin 95))) None (Some (tv_integer 90)) = Done ServiceUnscheduledCritical \<and>
   CalculateStatus (Some (tv_double (FFin 5))) None (Some (tv_integer 90)) = Done ServiceWarning"
  by (simp add: CalculateStatus_def threshold_number_def integer_status_def double_status_def tv_defs
      f64_of_int_exact)

end
