(* ===== verification/Sdk_Errors.thy ===== *)
theory Sdk_Errors
  imports Go_Prelude
begin

text \<open>
  The error values of \<^verbatim>\<open>sdk/errors/errors.go\<close> and their classification.  The package-level errors are
  compared by identity, so each is a constructor of its own; \<open>fmt.Errorf\<close> with \<open>%w\<close> makes a new error
  that unwraps to its argument.  The errors of other packages are seen through what \<open>errors.Is\<close> and
  \<open>errors.As\<close> find in their chain: an errno, a DNS error, or only a text.
\<close>

datatype sentinel =
    ErrPermanent | ErrTransient
  | ErrGateway | ErrSynchronizer
  | ErrUnauthorized | ErrUndecided
  | ErrNotConfigured | ErrNotFound
  | ErrNATS | ErrDispatcher | ErrPayloadLim \<comment> \<open>package nats\<close>
  | ContextCanceled | ContextDeadlineExceeded \<comment> \<open>package context of the standard library\<close>

datatype error =
    Sentinel sentinel
  | Wrapped error bytes \<comment> \<open>an error with its own text that unwraps to another one\<close>
  | Errno int
  | DNSError bool bytes \<comment> \<open>\<open>IsNotFound\<close> and the text\<close>
  | Other bytes

text \<open>What a package-level error made by \<open>fmt.Errorf("%w: ...")\<close> wraps, and its text.\<close>

fun sentinel_wraps :: "sentinel \<Rightarrow> sentinel option" where
  "sentinel_wraps ErrGateway = Some ErrTransient"
| "sentinel_wraps ErrSynchronizer = Some ErrTransient"
| "sentinel_wraps ErrUnauthorized = Some ErrPermanent"
| "sentinel_wraps ErrUndecided = Some ErrPermanent"
| "sentinel_wraps ErrNotConfigured = Some ErrPermanent"
| "sentinel_wraps ErrNotFound = Some ErrPermanent"
| "sentinel_wraps ErrDispatcher = Some ErrNATS"
| "sentinel_wraps ErrPayloadLim = Some ErrNATS"
| "sentinel_wraps _ = None"

fun sentinel_text :: "sentinel \<Rightarrow> bytes" where
  "sentinel_text ErrPermanent = ''permanent error''"
| "sentinel_text ErrTransient = ''transient error''"
| "sentinel_text ErrGateway = ''transient error: gateway error''"
| "sentinel_text ErrSynchronizer = ''transient error: synchronizer error''"
| "sentinel_text ErrUnauthorized = ''permanent error: unauthorized''"
| "sentinel_text ErrUndecided = ''permanent error: undecided error''"
| "sentinel_text ErrNotConfigured = ''permanent error: connector is not configured''"
| "sentinel_text ErrNotFound = ''permanent error: not found''"
| "sentinel_text ErrNATS = ''nats error''"
| "sentinel_text ErrDispatcher = ''nats error: dispatcher''"
| "sentinel_text ErrPayloadLim = ''nats error: payload oversized limit''"
| "sentinel_text ContextCanceled = ''context canceled''"
| "sentinel_text ContextDeadlineExceeded = ''context deadline exceeded''"

text \<open>The text of an errno is the operating system's; it does not depend on the program.\<close>

fun error_text :: "(int \<Rightarrow> bytes) \<Rightarrow> error \<Rightarrow> bytes" where
  "error_text strerror (Sentinel s) = sentinel_text s"
| "error_text strerror (Wrapped e t) = t"
| "error_text strerror (Errno n) = strerror n"
| "error_text strerror (DNSError nf t) = t"
| "error_text strerror (Other t) = t"

text \<open>\<open>errors.Is\<close> against a package-level error and against an errno: equal, or found by unwrapping.\<close>

fun errors_Is :: "error \<Rightarrow> sentinel \<Rightarrow> bool" where
  "errors_Is (Sentinel s) t \<longleftrightarrow> s = t \<or> sentinel_wraps s = Some t"
| "errors_Is (Wrapped e txt) t \<longleftrightarrow> errors_Is e t"
| "errors_Is _ t \<longleftrightarrow> False"

fun errors_IsErrno :: "error \<Rightarrow> int \<Rightarrow> bool" where
  "errors_IsErrno (Errno n) m \<longleftrightarrow> n = m"
| "errors_IsErrno (Wrapped e txt) m \<longleftrightarrow> errors_IsErrno e m"
| "errors_IsErrno _ m \<longleftrightarrow> False"

fun errors_AsDNS :: "error \<Rightarrow> bool option" where
  "errors_AsDNS (DNSError nf txt) = Some nf"
| "errors_AsDNS (Wrapped e txt) = errors_AsDNS e"
| "errors_AsDNS _ = None"

definition WSAEADDRINUSE :: int where "WSAEADDRINUSE = 10048"
definition WSAECONNABORTED :: int where "WSAECONNABORTED = 10053"
definition WSAECONNRESET :: int where "WSAECONNRESET = 10054"
definition WSAECONNREFUSED :: int where "WSAECONNREFUSED = 10061"
definition WSAETIMEDOUT :: int where "WSAETIMEDOUT = 10060"

text \<open>The errno constants of package syscall on Linux.\<close>

definition EADDRINUSE :: int where "EADDRINUSE = 98"
definition ECONNABORTED :: int where "ECONNABORTED = 103"
definition ECONNRESET :: int where "ECONNRESET = 104"
definition ETIMEDOUT :: int where "ETIMEDOUT = 110"
definition ECONNREFUSED :: int where "ECONNREFUSED = 111"

definition IsErrorAddressInUse :: "bytes \<Rightarrow> error \<Rightarrow> bool" where
  "IsErrorAddressInUse GOOS err =
     (if GOOS = ''windows'' then errors_IsErrno err WSAEADDRINUSE else errors_IsErrno err EADDRINUSE)"

definition IsErrorConnectionAborted :: "bytes \<Rightarrow> error \<Rightarrow> bool" where
  "IsErrorConnectionAborted GOOS err =
     (if GOOS = ''windows'' then errors_IsErrno err WSAECONNABORTED else errors_IsErrno err ECONNABORTED)"

definition IsErrorConnectionRefused :: "bytes \<Rightarrow> error \<Rightarrow> bool" where
  "IsErrorConnectionRefused GOOS err =
     (if GOOS = ''windows'' then errors_IsErrno err WSAECONNREFUSED else errors_IsErrno err ECONNREFUSED)"

definition IsErrorConnectionReset :: "bytes \<Rightarrow> error \<Rightarrow> bool" where
  "IsErrorConnectionReset GOOS err =
     (if GOOS = ''windows'' then errors_IsErrno err WSAECONNRESET else errors_IsErrno err ECONNRESET)"

definition IsErrorConnection :: "bytes \<Rightarrow> error \<Rightarrow> bool" where
  "IsErrorConnection GOOS err \<longleftrightarrow>
     IsErrorConnectionAborted GOOS err \<or> IsErrorConnectionRefused GOOS err \<or> IsErrorConnectionReset GOOS err"

definition IsErrorTimedOut :: "(int \<Rightarrow> bytes) \<Rightarrow> bytes \<Rightarrow> error \<Rightarrow> bool" where
  "IsErrorTimedOut strerror GOOS err \<longleftrightarrow>
     (if GOOS = ''windows'' then errors_IsErrno err WSAETIMEDOUT else errors_IsErrno err ETIMEDOUT) \<or>
     (let s = ToLower (error_text strerror err) in Contains s ''deadline'' \<or> Contains s ''timeout'')"

definition IsErrorDNS :: "error \<Rightarrow> bool" where
  "IsErrorDNS err = (case errors_AsDNS err of Some _ \<Rightarrow> True | None \<Rightarrow> False)"

definition IsErrorNoSuchHost :: "error \<Rightarrow> bool" where
  "IsErrorNoSuchHost err = (case errors_AsDNS err of Some nf \<Rightarrow> nf | None \<Rightarrow> False)"

subsection \<open>Lemmas\<close>

lemma IsErrorNoSuchHost_DNS: "IsErrorNoSuchHost err \<Longrightarrow> IsErrorDNS err"
  by (auto simp: IsErrorNoSuchHost_def IsErrorDNS_def split: option.splits)

text \<open>An error is never to be retried and final at once: the dispatcher's decision is unambiguous.\<close>

lemma not_transient_and_permanent: "\<not> (errors_Is e ErrTransient \<and> errors_Is e ErrPermanent)"
proof (induction e)
  case (Sentinel s)
  then show ?case by (cases s) simp_all
qed simp_all

lemma Unauthorized_not_transient: "errors_Is e ErrUnauthorized \<Longrightarrow> \<not> errors_Is e ErrTransient"
proof (induction e)
  case (Sentinel s)
  then show ?case by (cases s) simp_all
qed simp_all

end
