(* ===== verification/Http_Client.thy ===== *)
theory Http_Client
  imports Sdk_Errors
begin

text \<open>
  The HTTP layer of \<^verbatim>\<open>sdk/clients/request.go\<close> and \<^verbatim>\<open>sdk/clients/header.go\<close>.  The network is outside: a
  function from its state and a request to the new state and either an error or the status and the body.
  That an URL cannot be parsed, that the exchange fails and that the body cannot be read are all answers
  \<open>Inl\<close>, since \<open>SendWithContext\<close> treats them alike.  Logging is left out.
\<close>

subsection \<open>Requests\<close>

datatype http_body = NoBody | FormBody "(bytes \<times> bytes) list" | BytesBody bytes

record http_request =
  hr_Method :: bytes
  hr_URL :: bytes
  hr_Header :: http_Header
  hr_Body :: http_body

type_synonym 'w http = "'w \<Rightarrow> http_request \<Rightarrow> 'w \<times> (error + int \<times> bytes)"

text \<open>
  Maps of the source that are only built from literals and ranged over are association lists; a nil map or
  a nil slice is \<open>None\<close>.
\<close>

record Req =
  hq_Err :: "error option"
  hq_Form :: "(bytes \<times> bytes) list option"
  hq_Headers :: "(bytes \<times> bytes) list"
  hq_Method :: bytes
  hq_Payload :: "bytes option"
  hq_Response :: bytes
  hq_Status :: int
  hq_URL :: bytes

definition zero_Req :: Req where
  "zero_Req = \<lparr>hq_Err = None, hq_Form = None, hq_Headers = [], hq_Method = [], hq_Payload = None, hq_Response = [],
     hq_Status = 0, hq_URL = []\<rparr>"

text \<open>What the process environment and the operating system give: keep-alive, the platform, errno texts.\<close>

record sys_env =
  sys_keepAlive :: bool
  sys_GOOS :: bytes
  sys_strerror :: "int \<Rightarrow> bytes"

fun add_headers :: "(bytes \<times> bytes) list \<Rightarrow> http_Header \<Rightarrow> http_Header" where
  "add_headers [] h = h"
| "add_headers ((k, v) # kvs) h = add_headers kvs (Header_Add k v h)"

definition make_request :: "sys_env \<Rightarrow> http_Header option \<Rightarrow> Req \<Rightarrow> http_request" where
  "make_request sys ctx q =
     (let h0 = (case ctx of None \<Rightarrow> Map.empty | Some h \<Rightarrow> h);
          h1 = (if \<not> sys_keepAlive sys then Header_Set ''Connection'' ''close'' h0 else h0)
      in \<lparr>hr_Method = hq_Method q, hr_URL = hq_URL q, hr_Header = add_headers (hq_Headers q) h1,
          hr_Body = (case hq_Form q of
                       Some form \<Rightarrow> FormBody form
                     | None \<Rightarrow> (case hq_Payload q of Some p \<Rightarrow> BytesBody p | None \<Rightarrow> NoBody))\<rparr>)"

text \<open>The context carries the header of \<open>CtxWithHeader\<close>, if any.\<close>

definition SendWithContext :: "sys_env \<Rightarrow> 'w http \<Rightarrow> http_Header option \<Rightarrow> Req \<Rightarrow> 'w \<Rightarrow> 'w \<times> Req \<times> error option" where
  "SendWithContext sys http ctx q w =
     (case http w (make_request sys ctx q) of
        (w', Inl err) \<Rightarrow> (w', q\<lparr>hq_Status := -1, hq_Err := Some err\<rparr>, Some err)
      | (w', Inr (st, body)) \<Rightarrow> (w', q\<lparr>hq_Status := st, hq_Response := body\<rparr>, None))"

definition SendRequestWithContext :: "sys_env \<Rightarrow> 'w http \<Rightarrow> http_Header option \<Rightarrow> bytes \<Rightarrow> bytes \<Rightarrow> (bytes \<times> bytes) list
    \<Rightarrow> (bytes \<times> bytes) list option \<Rightarrow> bytes option \<Rightarrow> 'w \<Rightarrow> 'w \<times> int \<times> bytes \<times> error option" where
  "SendRequestWithContext sys http ctx httpMethod requestURL headers formValues body w =
     (case SendWithContext sys http ctx
             (zero_Req\<lparr>hq_URL := requestURL, hq_Method := httpMethod, hq_Headers := headers, hq_Form := formValues,
                       hq_Payload := body\<rparr>) w of
        (w', q, _) \<Rightarrow> (w', hq_Status q, hq_Response q, hq_Err q))"

subsection \<open>Payload checks and query strings\<close>

definition IsGZipped :: "bytes \<Rightarrow> bool" where
  "IsGZipped p \<longleftrightarrow> length p > 2 \<and> (of_char (p ! 0) :: nat) = 31 \<and> (of_char (p ! 1) :: nat) = 139"

definition IsJSON :: "bytes \<Rightarrow> bool" where
  "IsJSON s \<longleftrightarrow> length s \<ge> 2 \<and>
     (hd s = CHR ''{'' \<and> last s = CHR ''}'' \<or> hd s = CHR ''['' \<and> last s = CHR '']'')"

definition appendSeparator :: "bytes \<Rightarrow> bytes" where
  "appendSeparator params = (if params \<noteq> [] then params @ ''&'' else ''?'')"

text \<open>The parameters are in the order in which the map is visited.\<close>

fun build_query :: "bytes \<Rightarrow> (bytes \<times> bytes) list \<Rightarrow> bytes" where
  "build_query query [] = query"
| "build_query query ((k, v) # kvs) = build_query (appendSeparator query @ QueryEscape k @ ''='' @ QueryEscape v) kvs"

definition BuildQueryParams :: "(bytes \<times> bytes) list \<Rightarrow> bytes" where
  "BuildQueryParams params = build_query [] params"

subsection \<open>Headers in the context\<close>

definition HdrCompressed :: bytes where "HdrCompressed = ''Compressed''"
definition HdrPayloadLen :: bytes where "HdrPayloadLen = ''Payload-Length''"
definition HdrPayloadType :: bytes where "HdrPayloadType = ''Payload-Type''"
definition HdrSpanSpanID :: bytes where "HdrSpanSpanID = ''Span-Span-Id''"
definition HdrSpanTraceID :: bytes where "HdrSpanTraceID = ''Span-Trace-Id''"
definition HdrSpanTraceFlags :: bytes where "HdrSpanTraceFlags = ''Span-Trace-Flags''"
definition HdrTodoTracerCtx :: bytes where "HdrTodoTracerCtx = ''Todo-Tracer-Ctx''"

lemmas header_names [go_defs] = HdrCompressed_def HdrPayloadLen_def HdrPayloadType_def HdrSpanSpanID_def
  HdrSpanTraceID_def HdrSpanTraceFlags_def HdrTodoTracerCtx_def

text \<open>A header that is already there is extended in place, so the result is the map both contexts hold.\<close>

definition CtxWithHeader :: "http_Header option \<Rightarrow> http_Header \<Rightarrow> http_Header option" where
  "CtxWithHeader ctx header = (case ctx of Some h \<Rightarrow> Some (h ++ header) | None \<Rightarrow> Some header)"

definition HeaderFromCtx :: "http_Header option \<Rightarrow> http_Header option" where
  "HeaderFromCtx ctx = ctx"

subsection \<open>Lemmas\<close>

text \<open>The comment of \<^verbatim>\<open>header.go\<close>: the names are canonical, so that lookups by map and by \<open>Get\<close> agree.\<close>

lemma header_names_canonical:
  "CanonicalHeaderKey HdrCompressed = HdrCompressed" "CanonicalHeaderKey HdrPayloadLen = HdrPayloadLen"
  "CanonicalHeaderKey HdrPayloadType = HdrPayloadType" "CanonicalHeaderKey HdrSpanSpanID = HdrSpanSpanID"
  "CanonicalHeaderKey HdrSpanTraceID = HdrSpanTraceID" "CanonicalHeaderKey HdrSpanTraceFlags = HdrSpanTraceFlags"
  "CanonicalHeaderKey HdrTodoTracerCtx = HdrTodoTracerCtx"
  by (simp_all add: CanonicalHeaderKey_def ToUpper_char_def ToLower_char_def header_names Let_def)

lemma header_names_ne:
  "HdrCompressed \<noteq> HdrPayloadLen" "HdrCompressed \<noteq> HdrPayloadType" "HdrCompressed \<noteq> HdrSpanSpanID"
  "HdrCompressed \<noteq> HdrSpanTraceID" "HdrCompressed \<noteq> HdrSpanTraceFlags" "HdrCompressed \<noteq> HdrTodoTracerCtx"
  "HdrPayloadLen \<noteq> HdrPayloadType" "HdrPayloadLen \<noteq> HdrSpanSpanID" "HdrPayloadLen \<noteq> HdrSpanTraceID"
  "HdrPayloadLen \<noteq> HdrSpanTraceFlags" "HdrPayloadLen \<noteq> HdrTodoTracerCtx" "HdrPayloadType \<noteq> HdrSpanSpanID"
  "HdrPayloadType \<noteq> HdrSpanTraceID" "HdrPayloadType \<noteq> HdrSpanTraceFlags" "HdrPayloadType \<noteq> HdrTodoTracerCtx"
  "HdrSpanSpanID \<noteq> HdrSpanTraceID" "HdrSpanSpanID \<noteq> HdrSpanTraceFlags" "HdrSpanSpanID \<noteq> HdrTodoTracerCtx"
  "HdrSpanTraceID \<noteq> HdrSpanTraceFlags" "HdrSpanTraceID \<noteq> HdrTodoTracerCtx" "HdrSpanTraceFlags \<noteq> HdrTodoTracerCtx"
  by (simp_all add: header_names)

lemmas header_names_neq = header_names_ne header_names_ne [symmetric]

lemma SendWithContext_error:
  assumes "SendWithContext sys http ctx q w = (w', q', Some e)"
  shows "hq_Status q' = -1 \<and> hq_Err q' = Some e"
  using assms by (auto simp: SendWithContext_def split: prod.splits sum.splits)

lemma SendWithContext_fields:
  assumes "SendWithContext sys http ctx q w = (w', q', e)"
  shows "hq_Headers q' = hq_Headers q \<and> hq_URL q' = hq_URL q \<and> hq_Method q' = hq_Method q \<and>
    hq_Payload q' = hq_Payload q \<and> hq_Form q' = hq_Form q"
  using assms by (auto simp: SendWithContext_def split: prod.splits sum.splits)

lemma SendWithContext_world: "fst (SendWithContext sys http ctx q w) = fst (http w (make_request sys ctx q))"
  by (simp add: SendWithContext_def split: prod.splits sum.splits)

end
