(* ===== verification/Gw_Client.thy ===== *)
theory Gw_Client
  imports Http_Client "HOL-Library.AList"
begin

text \<open>
  The clients of the Groundwork and the DalekServices APIs, \<^verbatim>\<open>sdk/clients/gwClient.go\<close> and
  \<^verbatim>\<open>sdk/clients/dsClient.go\<close>.  The tokens are shared by all instances and live in the state \<open>net\<close> beside
  the state of the network.  The fourteen URIs that a client caches at its first request are functions of
  its host name, which no operation changes, so they are computed where they are used.  Compression and the
  JSON of the login request and response are fields of the environment.
\<close>

subsection \<open>Connections and clients\<close>

record GWConnection =
  gw_ID :: int
  gw_HostName :: bytes
  gw_UserName :: bytes
  gw_Password :: bytes
  gw_Enabled :: bool
  gw_IsChild :: bool
  gw_DisplayName :: bytes
  gw_MergeHosts :: bool
  gw_LocalConnection :: bool
  gw_DeferOwnership :: bytes
  gw_PrefixResourceNames :: bool
  gw_ResourceNamePrefix :: bytes
  gw_SendAllInventory :: bool
  gw_IsDynamicInventory :: bool
  gw_HTTPEncode :: bool

record GWClient =
  gc_AppName :: bytes
  gc_AppType :: bytes
  gc_GWConnection :: GWConnection

definition GWEntrypointAuthenticate :: bytes where "GWEntrypointAuthenticate = ''/api/users/authenticatePassword''"
definition GWEntrypointConnect :: bytes where "GWEntrypointConnect = ''/api/auth/login''"
definition GWEntrypointDisconnect :: bytes where "GWEntrypointDisconnect = ''/api/auth/logout''"
definition GWEntrypointClearInDowntime :: bytes where "GWEntrypointClearInDowntime = ''/api/biz/clearindowntime''"
definition GWEntrypointSetInDowntime :: bytes where "GWEntrypointSetInDowntime = ''/api/biz/setindowntime''"
definition GWEntrypointEvents :: bytes where "GWEntrypointEvents = ''/api/events''"
definition GWEntrypointEventsAck :: bytes where "GWEntrypointEventsAck = ''/api/events/ack''"
definition GWEntrypointEventsUnack :: bytes where "GWEntrypointEventsUnack = ''/api/events/unack''"
definition GWEntrypointMonitoring :: bytes where "GWEntrypointMonitoring = ''/api/monitoring''"
definition GWEntrypointMonitoringDyn :: bytes where "GWEntrypointMonitoringDyn = ''/api/monitoring?dynamic=true''"
definition GWEntrypointSynchronizer :: bytes where "GWEntrypointSynchronizer = ''/api/synchronizer''"
definition GWEntrypointServices :: bytes where "GWEntrypointServices = ''/api/services''"
definition GWEntrypointHostgroups :: bytes where "GWEntrypointHostgroups = ''/api/hostgroups''"
definition GWEntrypointValidateToken :: bytes where "GWEntrypointValidateToken = ''/api/auth/validatetoken''"

definition buildURI :: "bytes \<Rightarrow> bytes \<Rightarrow> bytes" where
  "buildURI hostname entrypoint =
     (if \<not> HasPrefix hostname ''http'' then ''https://'' else []) @
     TrimSuffix (TrimRight hostname {CHR ''/''}) ''/api'' @ ''/'' @ TrimLeft entrypoint {CHR ''/''}"

subsection \<open>Environment and state\<close>

record 'w net_env =
  env_sys :: sys_env
  env_http :: "'w http"
  env_GZip :: "bytes \<Rightarrow> error + bytes"
  env_login_body :: "bytes \<Rightarrow> bytes \<Rightarrow> bytes" \<comment> \<open>\<open>json.Marshal\<close> of name and password\<close>
  env_login_token :: "bytes \<Rightarrow> error + bytes" \<comment> \<open>\<open>json.Unmarshal\<close> of the user response: its access token\<close>

record 'w net =
  net_world :: 'w
  net_tokens :: "bytes \<rightharpoonup> bytes"

definition tokenKey :: "GWClient \<Rightarrow> bytes" where
  "tokenKey c = gc_AppName c @ '';'' @ gw_UserName (gc_GWConnection c) @ '';'' @ gw_HostName (gc_GWConnection c)"

definition token :: "GWClient \<Rightarrow> 'w net \<Rightarrow> bytes" where
  "token c st = (case net_tokens st (tokenKey c) of Some v \<Rightarrow> v | None \<Rightarrow> [])"

subsection \<open>Requests and their errors\<close>

definition doReq :: "'w net_env \<Rightarrow> GWClient \<Rightarrow> http_Header option \<Rightarrow> bytes \<Rightarrow> bytes \<Rightarrow> bytes \<Rightarrow> (bytes \<times> bytes) list
    \<Rightarrow> (bytes \<times> bytes) list option \<Rightarrow> bytes option \<Rightarrow> 'w net \<Rightarrow> 'w net \<times> Req \<times> error option" where
  "doReq env c ctx httpMethod entrypoint queryStr headers form payload st =
     (case SendWithContext (env_sys env) (env_http env) ctx
             (zero_Req\<lparr>hq_URL := buildURI (gw_HostName (gc_GWConnection c)) entrypoint @ queryStr, hq_Method := httpMethod,
                       hq_Headers := headers, hq_Form := form, hq_Payload := payload\<rparr>) (net_world st) of
        (w, q, err) \<Rightarrow> (st\<lparr>net_world := w\<rparr>, q, err))"

definition Errorf :: "sentinel \<Rightarrow> bytes \<Rightarrow> error" where
  "Errorf s txt = Wrapped (Sentinel s) (sentinel_text s @ '': '' @ txt)"

definition net_failure :: "sys_env \<Rightarrow> error \<Rightarrow> bool" where
  "net_failure sys err \<longleftrightarrow> IsErrorDNS err \<or> IsErrorConnection (sys_GOOS sys) err \<or>
     IsErrorTimedOut (sys_strerror sys) (sys_GOOS sys) err"

text \<open>The first case of the switches: a failed exchange.\<close>

definition exchange_error :: "sys_env \<Rightarrow> error \<Rightarrow> error" where
  "exchange_error sys err = (if net_failure sys err then Errorf ErrTransient (error_text (sys_strerror sys) err) else err)"

text \<open>The other cases: the status of the response; logins also take a 404 about the password as unauthorized.\<close>

definition status_error :: "bool \<Rightarrow> Req \<Rightarrow> error option" where
  "status_error login req =
     (if hq_Status req = 401 \<or> login \<and> hq_Status req = 404 \<and> Contains (hq_Response req) ''password''
      then Some (Errorf ErrUnauthorized (hq_Response req))
      else if hq_Status req = 404 then Some (Errorf ErrNotFound (hq_Response req))
      else if hq_Status req = 502 \<or> hq_Status req = 504 then Some (Errorf ErrGateway (hq_Response req))
      else if hq_Status req = 503 then Some (Errorf ErrSynchronizer (hq_Response req))
      else if hq_Status req \<noteq> 200 then Some (Errorf ErrUndecided (hq_Response req))
      else None)"

definition form_headers :: "(bytes \<times> bytes) list" where
  "form_headers = [(''Accept'', ''text/plain''), (''Content-Type'', ''application/x-www-form-urlencoded'')]"

subsection \<open>Login\<close>

definition connectLocal :: "'w net_env \<Rightarrow> GWClient \<Rightarrow> 'w net \<Rightarrow> 'w net \<times> (error + bytes)" where
  "connectLocal env c st =
     (case doReq env c None ''POST'' GWEntrypointConnect [] form_headers
             (Some [(''gwos-app-name'', gc_AppName c), (''user'', gw_UserName (gc_GWConnection c)),
                    (''password'', gw_Password (gc_GWConnection c))]) None st of
        (st', req, Some err) \<Rightarrow> (st', Inl (exchange_error (env_sys env) err))
      | (st', req, None) \<Rightarrow>
          (st', case status_error True req of Some e \<Rightarrow> Inl e | None \<Rightarrow> Inr (hq_Response req)))"

definition AuthenticatePassword :: "'w net_env \<Rightarrow> GWClient \<Rightarrow> bytes \<Rightarrow> bytes \<Rightarrow> 'w net \<Rightarrow> 'w net \<times> (error + bytes)" where
  "AuthenticatePassword env c username password st =
     (case doReq env c None ''PUT'' GWEntrypointAuthenticate []
             [(''Accept'', ''application/json''), (''Content-Type'', ''application/json''), (''GWOS-APP-NAME'', gc_AppName c)]
             None (Some (env_login_body env username password)) st of
        (st', req, Some err) \<Rightarrow> (st', Inl (exchange_error (env_sys env) err))
      | (st', req, None) \<Rightarrow>
          (st', case status_error True req of
                  Some e \<Rightarrow> Inl e
                | None \<Rightarrow>
                    (case env_login_token env (hq_Response req) of
                       Inl err \<Rightarrow> Inl (Errorf ErrUndecided (error_text (sys_strerror (env_sys env)) err))
                     | Inr tok \<Rightarrow> Inr tok)))"

definition login :: "'w net_env \<Rightarrow> GWClient \<Rightarrow> 'w net \<Rightarrow> 'w net \<times> (error + bytes)" where
  "login env c st =
     (if gw_LocalConnection (gc_GWConnection c) then connectLocal env c st
      else AuthenticatePassword env c (gw_UserName (gc_GWConnection c)) (gw_Password (gc_GWConnection c)) st)"

text \<open>
  \<open>Connect\<close> reads the token, waits for the mutex of the token key, and logs in only if the token did not
  change meanwhile.  \<open>Connect_locked\<close> is the part under the mutex.
\<close>

definition Connect_locked :: "'w net_env \<Rightarrow> GWClient \<Rightarrow> bytes \<Rightarrow> 'w net \<Rightarrow> 'w net \<times> error option" where
  "Connect_locked env c prevToken st =
     (if prevToken \<noteq> token c st then (st, None)
      else case login env c st of
        (st', Inl err) \<Rightarrow> (st', Some err)
      | (st', Inr tok) \<Rightarrow> (st'\<lparr>net_tokens := (net_tokens st')(tokenKey c \<mapsto> tok)\<rparr>, None))"

definition Connect :: "'w net_env \<Rightarrow> GWClient \<Rightarrow> 'w net \<Rightarrow> 'w net \<times> error option" where
  "Connect env c st = Connect_locked env c (token c st) st"

definition Disconnect :: "'w net_env \<Rightarrow> GWClient \<Rightarrow> 'w net \<Rightarrow> 'w net \<times> error option" where
  "Disconnect env c st =
     (case doReq env c None ''POST'' GWEntrypointDisconnect [] form_headers
             (Some [(''gwos-app-name'', gc_AppName c), (''gwos-api-token'', token c st)]) None st of
        (st', req, Some err) \<Rightarrow> (st', Some (exchange_error (env_sys env) err))
      | (st', req, None) \<Rightarrow> (st', status_error False req))"

definition ValidateToken :: "'w net_env \<Rightarrow> GWClient \<Rightarrow> bytes \<Rightarrow> bytes \<Rightarrow> 'w net \<Rightarrow> 'w net \<times> error option" where
  "ValidateToken env c appName apiToken st =
     (case doReq env c None ''POST'' GWEntrypointValidateToken [] form_headers
             (Some [(''gwos-app-name'', appName), (''gwos-api-token'', apiToken)]) None st of
        (st', req, Some err) \<Rightarrow> (st', Some (exchange_error (env_sys env) err))
      | (st', req, None) \<Rightarrow>
          (st', if hq_Status req = 200
                then (if ParseBool (hq_Response req) = Some True then None
                      else Some (Errorf ErrUnauthorized ''invalid gwos-app-name or gwos-api-token''))
                else Some (Errorf ErrUndecided (hq_Response req))))"

subsection \<open>Sending\<close>

fun add_pairs :: "bytes list \<Rightarrow> (bytes \<times> bytes) list \<Rightarrow> (bytes \<times> bytes) list" where
  "add_pairs (k # v # r) hs = add_pairs r (AList.update k v hs)"
| "add_pairs _ hs = hs"

definition SendRequest :: "'w net_env \<Rightarrow> GWClient \<Rightarrow> http_Header option \<Rightarrow> bytes \<Rightarrow> bytes \<Rightarrow> bytes \<Rightarrow> bytes option \<Rightarrow> bytes list
    \<Rightarrow> 'w net \<Rightarrow> 'w net \<times> (error + bytes)" where
  "SendRequest env c ctx httpMethod entrypoint queryStr payload additionalHeaders st =
     (let headers = add_pairs additionalHeaders
            [(''Accept'', ''application/json''), (''Content-Type'', ''application/json''),
             (''GWOS-APP-NAME'', gc_AppName c), (''GWOS-API-TOKEN'', token c st)];
          finish = (\<lambda>(st', req, err).
            (st', case err of
                    Some e \<Rightarrow>
                      Inl (if errors_Is e ContextCanceled \<or> errors_Is e ContextDeadlineExceeded \<or> net_failure (env_sys env) e
                           then Errorf ErrTransient (error_text (sys_strerror (env_sys env)) e) else e)
                  | None \<Rightarrow> (case status_error False req of Some e \<Rightarrow> Inl e | None \<Rightarrow> Inr (hq_Response req))))
      in case doReq env c ctx httpMethod entrypoint queryStr headers None payload st of
           (st1, req, err) \<Rightarrow>
             if err = None \<and> hq_Status req = 401
             then (case Connect env c st1 of
                     (st2, Some e) \<Rightarrow> (st2, Inl e)
                   | (st2, None) \<Rightarrow>
                       finish
                         (case SendWithContext (env_sys env) (env_http env) ctx
                                 (req\<lparr>hq_Headers := AList.update ''GWOS-API-TOKEN'' (token c st2) (hq_Headers req)\<rparr>) (net_world st2) of
                            (w, req', err') \<Rightarrow> (st2\<lparr>net_world := w\<rparr>, req', err')))
             else finish (st1, req, err))"

definition prefix_headers :: "GWClient \<Rightarrow> bytes list" where
  "prefix_headers c =
     (if gw_PrefixResourceNames (gc_GWConnection c) \<and> gw_ResourceNamePrefix (gc_GWConnection c) \<noteq> []
      then [''HostNamePrefix'', gw_ResourceNamePrefix (gc_GWConnection c)] else [])"

text \<open>The common part of the two operations that compress: the payload and the encoding header.\<close>

definition encode_payload :: "'w net_env \<Rightarrow> GWClient \<Rightarrow> bytes \<Rightarrow> error + bytes \<times> bytes list" where
  "encode_payload env c payload =
     (if IsGZipped payload then Inr (payload, [''Content-Encoding'', ''gzip''])
      else if gw_HTTPEncode (gc_GWConnection c)
      then (case env_GZip env payload of
              Inl err \<Rightarrow> Inl err
            | Inr z \<Rightarrow> Inr (z, [''Content-Encoding'', ''gzip'']))
      else Inr (payload, []))"

definition SynchronizeInventory :: "'w net_env \<Rightarrow> GWClient \<Rightarrow> http_Header option \<Rightarrow> bytes \<Rightarrow> 'w net \<Rightarrow> 'w net \<times> (error + bytes)" where
  "SynchronizeInventory env c ctx payload st =
     (case encode_payload env c payload of
        Inl err \<Rightarrow> (st, Inl err)
      | Inr (p, hs) \<Rightarrow>
          SendRequest env c ctx ''POST'' GWEntrypointSynchronizer
            (BuildQueryParams [(''merge'', FormatBool (gw_MergeHosts (gc_GWConnection c)))]) (Some p) (hs @ prefix_headers c) st)"

definition SendResourcesWithMetrics :: "'w net_env \<Rightarrow> GWClient \<Rightarrow> http_Header option \<Rightarrow> bytes \<Rightarrow> 'w net \<Rightarrow> 'w net \<times> (error + bytes)" where
  "SendResourcesWithMetrics env c ctx payload st =
     (case encode_payload env c payload of
        Inl err \<Rightarrow> (st, Inl err)
      | Inr (p, hs) \<Rightarrow>
          SendRequest env c ctx ''POST''
            (if gw_IsDynamicInventory (gc_GWConnection c) then GWEntrypointMonitoringDyn else GWEntrypointMonitoring)
            [] (Some p) (hs @ prefix_headers c) st)"

definition ClearInDowntime :: "'w net_env \<Rightarrow> GWClient \<Rightarrow> http_Header option \<Rightarrow> bytes \<Rightarrow> 'w net \<Rightarrow> 'w net \<times> (error + bytes)" where
  "ClearInDowntime env c ctx payload st =
     SendRequest env c ctx ''POST'' GWEntrypointClearInDowntime [] (Some payload) (prefix_headers c) st"

definition SetInDowntime :: "'w net_env \<Rightarrow> GWClient \<Rightarrow> http_Header option \<Rightarrow> bytes \<Rightarrow> 'w net \<Rightarrow> 'w net \<times> (error + bytes)" where
  "SetInDowntime env c ctx payload st =
     SendRequest env c ctx ''POST'' GWEntrypointSetInDowntime [] (Some payload) (prefix_headers c) st"

definition SendEvents :: "'w net_env \<Rightarrow> GWClient \<Rightarrow> http_Header option \<Rightarrow> bytes \<Rightarrow> 'w net \<Rightarrow> 'w net \<times> (error + bytes)" where
  "SendEvents env c ctx payload st =
     SendRequest env c ctx ''POST'' GWEntrypointEvents [] (Some payload) (prefix_headers c) st"

definition SendEventsAck :: "'w net_env \<Rightarrow> GWClient \<Rightarrow> http_Header option \<Rightarrow> bytes \<Rightarrow> 'w net \<Rightarrow> 'w net \<times> (error + bytes)" where
  "SendEventsAck env c ctx payload st =
     SendRequest env c ctx ''POST'' GWEntrypointEventsAck [] (Some payload) (prefix_headers c) st"

definition SendEventsUnack :: "'w net_env \<Rightarrow> GWClient \<Rightarrow> http_Header option \<Rightarrow> bytes \<Rightarrow> 'w net \<Rightarrow> 'w net \<times> (error + bytes)" where
  "SendEventsUnack env c ctx payload st =
     SendRequest env c ctx ''POST'' GWEntrypointEventsUnack [] (Some payload) (prefix_headers c) st"

text \<open>\<open>um\<close> decodes the response.\<close>

definition GetServicesByAgent :: "'w net_env \<Rightarrow> (bytes \<Rightarrow> error + 'r) \<Rightarrow> GWClient \<Rightarrow> bytes \<Rightarrow> 'w net \<Rightarrow> 'w net \<times> (error + 'r)" where
  "GetServicesByAgent env um c agentID st =
     (case SendRequest env c None ''GET'' GWEntrypointServices
             (BuildQueryParams [(''query'', ''agentid='' @ [CHR 0x27] @ agentID @ [CHR 0x27]), (''depth'', ''Shallow'')]) None [] st of
        (st', Inl err) \<Rightarrow> (st', Inl err)
      | (st', Inr response) \<Rightarrow> (st', um response))"

fun quote_names :: "bytes list \<Rightarrow> bytes" where
  "quote_names [] = []"
| "quote_names [n] = [CHR 0x27] @ n @ [CHR 0x27] @ '')''"
| "quote_names (n # ns) = [CHR 0x27] @ n @ [CHR 0x27] @ '','' @ quote_names ns"

definition GetHostGroupsByAppTypeAndHostNames :: "'w net_env \<Rightarrow> (bytes \<Rightarrow> error + 'r) \<Rightarrow> GWClient \<Rightarrow> bytes \<Rightarrow> bytes list
    \<Rightarrow> 'w net \<Rightarrow> 'w net \<times> (error + 'r)" where
  "GetHostGroupsByAppTypeAndHostNames env um c appType hostNames st =
     (if length hostNames = 0
      then (st, Inl (Other ''unable to get host groups of host: host names are not provided''))
      else case SendRequest env c None ''GET'' GWEntrypointHostgroups
                  (BuildQueryParams
                     [(''query'', ''( hosts.hostName in ('' @ quote_names hostNames @ '' ) and appType = '' @
                        [CHR 0x27] @ appType @ [CHR 0x27]), (''depth'', ''Shallow'')]) None [] st of
             (st', Inl err) \<Rightarrow> (st', Inl err)
           | (st', Inr response) \<Rightarrow> (st', um response))"

subsection \<open>DalekServices\<close>

definition DSEntrypointReload :: bytes where "DSEntrypointReload = ''/dalekservices/connectors/reload/:agentID''"
definition DSEntrypointValidateToken :: bytes where "DSEntrypointValidateToken = ''/dalekservices/validate-token''"

definition makeDalekServicesScheme :: "bytes \<Rightarrow> bytes" where
  "makeDalekServicesScheme hostName = (if HasPrefix hostName ''dalekservices'' then ''http'' else ''https'')"

text \<open>\<open>urlString\<close> is \<open>url.URL.String\<close> on a scheme, a host and a path.\<close>

definition DS_ValidateToken :: "'w net_env \<Rightarrow> (bytes \<Rightarrow> bytes \<Rightarrow> bytes \<Rightarrow> bytes) \<Rightarrow> bytes \<Rightarrow> bytes \<Rightarrow> bytes \<Rightarrow> 'w net \<Rightarrow> 'w net \<times> error option" where
  "DS_ValidateToken env urlString hostName appName apiToken st =
     (if length hostName = 0 then (st, None)
      else case SendWithContext (env_sys env) (env_http env) None
                  (zero_Req\<lparr>hq_URL := urlString (makeDalekServicesScheme hostName) hostName DSEntrypointValidateToken,
                            hq_Method := ''POST'', hq_Headers := form_headers,
                            hq_Form := Some [(''gwos-app-name'', appName), (''gwos-api-token'', apiToken)]\<rparr>) (net_world st) of
             (w, req, Some err) \<Rightarrow> (st\<lparr>net_world := w\<rparr>, Some err)
           | (w, req, None) \<Rightarrow>
               (st\<lparr>net_world := w\<rparr>,
                if hq_Status req = 201
                then (if ParseBool (hq_Response req) = Some True then None
                      else Some (Errorf ErrUnauthorized ''invalid gwos-app-name or gwos-api-token''))
                else Some (Errorf ErrUndecided (hq_Response req))))"

definition DS_Reload :: "'w net_env \<Rightarrow> (bytes \<Rightarrow> bytes \<Rightarrow> bytes \<Rightarrow> bytes) \<Rightarrow> bytes \<Rightarrow> bytes \<Rightarrow> 'w net \<Rightarrow> 'w net \<times> error option" where
  "DS_Reload env urlString hostName agentID st =
     (if length hostName = 0 then (st, None)
      else case SendWithContext (env_sys env) (env_http env) None
                  (zero_Req\<lparr>hq_URL := urlString (makeDalekServicesScheme hostName) hostName
                              (ReplaceAll DSEntrypointReload '':agentID'' agentID),
                            hq_Method := ''POST'',
                            hq_Headers := [(''Accept'', ''application/json''), (''Content-Type'', ''application/json'')]\<rparr>) (net_world st) of
             (w, req, Some err) \<Rightarrow> (st\<lparr>net_world := w\<rparr>, Some err)
           | (w, req, None) \<Rightarrow>
               (st\<lparr>net_world := w\<rparr>,
                if hq_Status req = 201 then None
                else if hq_Status req = 404 then Some (Errorf ErrNotFound (hq_Response req))
                else Some (Errorf ErrUndecided (hq_Response req))))"

subsection \<open>Errors and retries\<close>

lemma errors_Is_Errorf [simp]: "errors_Is (Errorf s txt) t \<longleftrightarrow> s = t \<or> sentinel_wraps s = Some t"
  by (simp add: Errorf_def)

text \<open>What the status of a response means to the dispatcher that retries.\<close>

lemma status_error_classes:
  "status_error lg req = None \<longleftrightarrow> hq_Status req = 200"
  "status_error lg req = Some e \<Longrightarrow> errors_Is e ErrTransient \<longleftrightarrow> hq_Status req \<in> {502, 503, 504}"
  "status_error lg req = Some e \<Longrightarrow> errors_Is e ErrPermanent \<longleftrightarrow> hq_Status req \<notin> {200, 502, 503, 504}"
  by (auto simp: status_error_def split: if_splits)

lemma exchange_error_transient: "net_failure sys err \<Longrightarrow> errors_Is (exchange_error sys err) ErrTransient"
  by (simp add: exchange_error_def)

text \<open>The request that \<open>SendRequest\<close> makes first.\<close>

definition send_headers :: "GWClient \<Rightarrow> bytes list \<Rightarrow> 'w net \<Rightarrow> (bytes \<times> bytes) list" where
  "send_headers c additionalHeaders st = add_pairs additionalHeaders
     [(''Accept'', ''application/json''), (''Content-Type'', ''application/json''),
      (''GWOS-APP-NAME'', gc_AppName c), (''GWOS-API-TOKEN'', token c st)]"

definition first_request :: "'w net_env \<Rightarrow> GWClient \<Rightarrow> http_Header option \<Rightarrow> bytes \<Rightarrow> bytes \<Rightarrow> bytes \<Rightarrow> bytes option \<Rightarrow> bytes list
    \<Rightarrow> 'w net \<Rightarrow> http_request" where
  "first_request env c ctx m ep qs payload hs st =
     make_request (env_sys env) ctx
       (zero_Req\<lparr>hq_URL := buildURI (gw_HostName (gc_GWConnection c)) ep @ qs, hq_Method := m,
                 hq_Headers := send_headers c hs st, hq_Form := None, hq_Payload := payload\<rparr>)"

lemma SendRequest_answered:
  assumes "env_http env (net_world st) (first_request env c ctx m ep qs payload hs st) = (w, Inr (code, body))" "code \<noteq> 401"
  shows "SendRequest env c ctx m ep qs payload hs st =
    (st\<lparr>net_world := w\<rparr>,
     case status_error False (zero_Req\<lparr>hq_Status := code, hq_Response := body\<rparr>) of Some e \<Rightarrow> Inl e | None \<Rightarrow> Inr body)"
  using assms
  by (simp add: SendRequest_def doReq_def SendWithContext_def first_request_def send_headers_def Let_def status_error_def)

lemma SendRequest_failed:
  assumes "env_http env (net_world st) (first_request env c ctx m ep qs payload hs st) = (w, Inl e)"
  shows "SendRequest env c ctx m ep qs payload hs st =
    (st\<lparr>net_world := w\<rparr>,
     Inl (if errors_Is e ContextCanceled \<or> errors_Is e ContextDeadlineExceeded \<or> net_failure (env_sys env) e
          then Errorf ErrTransient (error_text (sys_strerror (env_sys env)) e) else e))"
  using assms
  by (simp add: SendRequest_def doReq_def SendWithContext_def first_request_def send_headers_def Let_def)

subsection \<open>The number of requests\<close>

text \<open>The network with a log of the requests.\<close>

definition log_http :: "'w http \<Rightarrow> ('w \<times> http_request list) http" where
  "log_http h wl req = (case h (fst wl) req of (w', ans) \<Rightarrow> ((w', snd wl @ [req]), ans))"

abbreviation net_log :: "('w \<times> http_request list) net \<Rightarrow> http_request list" where
  "net_log st \<equiv> snd (net_world st)"

lemma SendWithContext_log:
  assumes "SendWithContext sys (log_http h) ctx q w = (w', q', e)"
  shows "snd w' = snd w @ [make_request sys ctx q]"
  using assms by (auto simp: SendWithContext_def log_http_def split: prod.splits sum.splits)

lemma doReq_log:
  assumes "env_http env = log_http h" "doReq env c ctx m ep qs hs form payload st = (st', req, e)"
  shows "(\<exists>r. net_log st' = net_log st @ [r]) \<and> net_tokens st' = net_tokens st"
  using assms SendWithContext_log by (fastforce simp: doReq_def split: prod.splits)

lemma login_log:
  assumes "env_http env = log_http h" "login env c st = (st', r)"
  shows "(\<exists>q. net_log st' = net_log st @ [q]) \<and> net_tokens st' = net_tokens st"
  using assms doReq_log [OF assms(1)]
  by (fastforce simp: login_def connectLocal_def AuthenticatePassword_def split: if_splits prod.splits option.splits sum.splits)

lemma Connect_log:
  assumes "env_http env = log_http h" "Connect env c st = (st', e)"
  shows "(\<exists>q. net_log st' = net_log st @ [q]) \<and> (\<forall>k. k \<noteq> tokenKey c \<longrightarrow> net_tokens st' k = net_tokens st k) \<and>
    (e \<noteq> None \<longrightarrow> net_tokens st' = net_tokens st)"
proof -
  obtain st1 r where l: "login env c st = (st1, r)" by fastforce
  then show ?thesis
    using login_log [OF assms(1) l] assms(2)
    by (cases r) (auto simp: Connect_def Connect_locked_def)
qed

subsection \<open>URIs\<close>

lemma TrimRight_id: "s = [] \<or> last s \<notin> cutset \<Longrightarrow> TrimRight s cutset = s"
  by (cases s rule: rev_cases) (auto simp: TrimRight_def)

lemma TrimRight_replicate: "c \<in> cutset \<Longrightarrow> TrimRight (s @ replicate n c) cutset = TrimRight s cutset"
proof -
  assume "c \<in> cutset"
  then have "dropWhile (\<lambda>c. c \<in> cutset) (replicate n c @ rev s) = dropWhile (\<lambda>c. c \<in> cutset) (rev s)"
    by (induction n) simp_all
  then show ?thesis by (simp add: TrimRight_def)
qed

lemma HasPrefix_http_slash: "HasPrefix (s @ CHR ''/'' # r) ''http'' \<longleftrightarrow> HasPrefix s ''http''"
proof (cases "length s \<ge> 4")
  case True
  then show ?thesis by (simp add: HasPrefix_def)
next
  case False
  then consider "s = []" | a where "s = [a]" | a b where "s = [a, b]" | a b d where "s = [a, b, d]"
    by (cases s; cases "tl s"; cases "tl (tl s)"; cases "tl (tl (tl s))") auto
  then show ?thesis by cases (simp_all add: HasPrefix_def)
qed

subsection \<open>Properties\<close>

text \<open>
  C31. What the dispatcher may retry: when the first answer to a request is not a 401, the request succeeds
  exactly for status 200; a gateway or synchronizer status (502, 503, 504) and a failure of the network or
  of the context give an error that is transient; every other status gives one that is permanent, and other
  failures are passed on as they are.
\<close>

theorem SendRequest_retry_classes:
  assumes "env_http env (net_world st) (first_request env c ctx m ep qs payload hs st) = (w, ans)"
    and "SendRequest env c ctx m ep qs payload hs st = (st', r)" "\<forall>body. ans \<noteq> Inr (401, body)"
  shows "(\<forall>body. ans = Inr (200, body) \<longrightarrow> r = Inr body) \<and>
    (\<forall>code body. ans = Inr (code, body) \<and> code \<in> {502, 503, 504} \<longrightarrow> (\<exists>e. r = Inl e \<and> errors_Is e ErrTransient)) \<and>
    (\<forall>code body. ans = Inr (code, body) \<and> code \<notin> {200, 502, 503, 504} \<longrightarrow> (\<exists>e. r = Inl e \<and> errors_Is e ErrPermanent)) \<and>
    (\<forall>e. ans = Inl e \<and> net_failure (env_sys env) e \<longrightarrow> (\<exists>e'. r = Inl e' \<and> errors_Is e' ErrTransient)) \<and>
    (\<forall>e. ans = Inl e \<longrightarrow> r = Inl e \<or> (\<exists>e'. r = Inl e' \<and> errors_Is e' ErrTransient))"
proof (cases ans)
  case (Inl e)
  then show ?thesis using SendRequest_failed assms(1,2) by fastforce
next
  case (Inr cb)
  obtain code body where cb: "cb = (code, body)" by fastforce
  then have "code \<noteq> 401" using assms(3) Inr by blast
  let ?q = "zero_Req\<lparr>hq_Status := code, hq_Response := body\<rparr>"
  have r: "r = (case status_error False ?q of Some e \<Rightarrow> Inl e | None \<Rightarrow> Inr body)"
    using SendRequest_answered [OF _ \<open>code \<noteq> 401\<close>] assms(1,2) Inr cb by fastforce
  show ?thesis
  proof (cases "status_error False ?q")
    case None
    then have "code = 200" using status_error_classes(1) [of False ?q] by simp
    then show ?thesis using r None Inr cb by simp
  next
    case (Some e)
    then have "code \<noteq> 200" "errors_Is e ErrTransient \<longleftrightarrow> code \<in> {502, 503, 504}"
        "errors_Is e ErrPermanent \<longleftrightarrow> code \<notin> {200, 502, 503, 504}"
      using status_error_classes(1) [of False ?q] status_error_classes(2,3) [OF Some] by simp_all
    then show ?thesis using r Some Inr cb by auto
  qed
qed

text \<open>
  Sending of a request ends after one, two or three exchanges with the server (the request, a login
  after a 401, the repeated request), whatever the server answers, and changes no token but that of the
  client's application, user and host.
\<close>

theorem SendRequest_bounded:
  assumes "env_http env = log_http h" "SendRequest env c ctx m ep qs payload hs st = (st', r)"
  shows "(\<exists>rs. net_log st' = net_log st @ rs \<and> 1 \<le> length rs \<and> length rs \<le> 3) \<and>
    (\<forall>k. k \<noteq> tokenKey c \<longrightarrow> net_tokens st' k = net_tokens st k)"
proof -
  obtain st1 req e where d: "doReq env c ctx m ep qs (send_headers c hs st) None payload st = (st1, req, e)"
    by (metis prod_cases3)
  obtain q1 where l1: "net_log st1 = net_log st @ [q1]" "net_tokens st1 = net_tokens st"
    using doReq_log [OF assms(1) d] by blast
  show ?thesis
  proof (cases "e = None \<and> hq_Status req = 401")
    case False
    then have "st' = st1" using assms(2) d by (auto simp: SendRequest_def send_headers_def Let_def)
    then show ?thesis using l1 by auto
  next
    case True
    obtain st2 ce where c: "Connect env c st1 = (st2, ce)" by fastforce
    obtain q2 where l2: "net_log st2 = net_log st1 @ [q2]" "\<forall>k. k \<noteq> tokenKey c \<longrightarrow> net_tokens st2 k = net_tokens st1 k"
      using Connect_log [OF assms(1) c] by blast
    let ?req = "req\<lparr>hq_Headers := AList.update ''GWOS-API-TOKEN'' (token c st2) (hq_Headers req)\<rparr>"
    obtain w req' e' where s: "SendWithContext (env_sys env) (env_http env) ctx ?req (net_world st2) = (w, req', e')"
      by (metis prod_cases3)
    have "snd w = net_log st2 @ [make_request (env_sys env) ctx ?req]"
      using SendWithContext_log s unfolding assms(1) by blast
    moreover have "st' = st2 \<or> st' = st2\<lparr>net_world := w\<rparr>"
      using assms(2) d True c s by (auto simp: SendRequest_def send_headers_def Let_def split: option.splits)
    ultimately show ?thesis using l1 l2 by auto
  qed
qed


text \<open>
  A host name may be configured with trailing slashes or with the suffix /api: the URI of every entry
  point is the same.
\<close>

theorem buildURI_normalises:
  assumes "host \<noteq> []" "last host \<noteq> CHR ''/''" "\<not> HasSuffix host ''/api''"
  shows "buildURI (host @ replicate n CHR ''/'') ep = buildURI host ep \<and>
    buildURI (host @ ''/api'' @ replicate n CHR ''/'') ep = buildURI host ep"
proof -
  have p: "HasPrefix (host @ replicate n CHR ''/'') ''http'' \<longleftrightarrow> HasPrefix host ''http''"
    using HasPrefix_http_slash by (cases n) simp_all
  have t: "TrimRight host {CHR ''/''} = host" using assms by (intro TrimRight_id) simp
  have "TrimRight (host @ ''/api'') {CHR ''/''} = host @ ''/api''" by (intro TrimRight_id) simp
  then have "TrimRight (host @ ''/api'' @ replicate n CHR ''/'') {CHR ''/''} = host @ ''/api''"
    using TrimRight_replicate [of "CHR ''/''" "{CHR ''/''}" "host @ ''/api''" n] by simp
  moreover have "TrimSuffix (host @ ''/api'') ''/api'' = host" by (simp add: TrimSuffix_def HasSuffix_def)
  ultimately show ?thesis
    using p t HasPrefix_http_slash [of host "''api'' @ replicate n CHR ''/''"] assms(3)
    by (simp add: buildURI_def TrimRight_replicate TrimSuffix_def)
qed

text \<open>
  Payloads are compressed at most once and announced as such exactly when they are: the body that is sent
  starts like a gzip stream if and only if the encoding header goes with it, and a payload that already is
  one is sent as it is.
\<close>

theorem encode_payload_announced:
  assumes "\<forall>p z. env_GZip env p = Inr z \<longrightarrow> IsGZipped z" "encode_payload env c payload = Inr (body, hs)"
  shows "(hs = [''Content-Encoding'', ''gzip''] \<longleftrightarrow> IsGZipped body) \<and> (hs = [] \<longleftrightarrow> \<not> IsGZipped body) \<and>
    (IsGZipped payload \<longrightarrow> body = payload) \<and> (\<not> gw_HTTPEncode (gc_GWConnection c) \<longrightarrow> body = payload)"
  using assms by (auto simp: encode_payload_def split: if_splits sum.splits)

subsection \<open>Concrete exchanges\<close>

definition demo_client :: GWClient where
  "demo_client = \<lparr>gc_AppName = ''gw8'', gc_AppType = ''NAGIOS'',
     gc_GWConnection = \<lparr>gw_ID = 1, gw_HostName = ''localhost'', gw_UserName = ''api'', gw_Password = ''pw'', gw_Enabled = True,
       gw_IsChild = False, gw_DisplayName = '''', gw_MergeHosts = True, gw_LocalConnection = True, gw_DeferOwnership = '''',
       gw_PrefixResourceNames = False, gw_ResourceNamePrefix = '''', gw_SendAllInventory = False,
       gw_IsDynamicInventory = False, gw_HTTPEncode = False\<rparr>\<rparr>"

text \<open>A server that gives the same answer to every request.\<close>

definition demo_http :: "int \<Rightarrow> unit http" where
  "demo_http code w req = (w, Inr (code, ''tok''))"

definition demo_env :: "'w http \<Rightarrow> 'w net_env" where
  "demo_env h = \<lparr>env_sys = \<lparr>sys_keepAlive = True, sys_GOOS = ''linux'', sys_strerror = (\<lambda>_. '''')\<rparr>, env_http = h,
     env_GZip = (\<lambda>p. Inr [CHR 0x1F, CHR 0x8B, CHR 0x08]), env_login_body = (\<lambda>u p. u @ p), env_login_token = (\<lambda>b. Inr b)\<rparr>"

definition demo_net :: "'w \<Rightarrow> 'w net" where
  "demo_net w = \<lparr>net_world = w, net_tokens = Map.empty\<rparr>"

lemma demo_send:
  "SendRequest (demo_env (demo_http 503)) demo_client None ''POST'' GWEntrypointEvents [] (Some ''{}'') [] (demo_net ()) =
     (demo_net (), Inl (Errorf ErrSynchronizer ''tok''))"
  using SendRequest_answered [of "demo_env (demo_http 503)" "demo_net ()" demo_client None "''POST''" GWEntrypointEvents "[]"
      "Some ''{}''" "[]" "()" 503 "''tok''"]
  by (simp add: demo_env_def demo_http_def demo_net_def status_error_def)

theorem SendRequest_retry_classes_witness: "errors_Is (Errorf ErrSynchronizer ''tok'') ErrTransient"
  using SendRequest_retry_classes [OF _ demo_send, of "()" "Inr (503, ''tok'')"]
  by (simp add: demo_env_def demo_http_def)

definition demo_log_net :: "(unit \<times> http_request list) net" where
  "demo_log_net = demo_net ((), [])"

theorem SendRequest_bounded_witness:
  "\<exists>rs. net_log (fst (SendRequest (demo_env (log_http (demo_http 401))) demo_client None ''POST'' GWEntrypointEvents [] (Some ''{}'') []
      demo_log_net)) = net_log demo_log_net @ rs \<and> 1 \<le> length rs \<and> length rs \<le> 3"
proof -
  have "env_http (demo_env (log_http (demo_http 401))) = log_http (demo_http 401)" by (simp add: demo_env_def)
  from SendRequest_bounded [OF this prod.collapse [symmetric]] show ?thesis by blast
qed


theorem buildURI_normalises_witness:
  "buildURI (''gw.example.com'' @ replicate 2 CHR ''/'') GWEntrypointEvents = buildURI ''gw.example.com'' GWEntrypointEvents \<and>
   buildURI (''gw.example.com'' @ ''/api'' @ replicate 2 CHR ''/'') GWEntrypointEvents = buildURI ''gw.example.com'' GWEntrypointEvents"
  by (rule buildURI_normalises) (simp_all add: HasSuffix_def)

theorem encode_payload_announced_witness:
  "\<exists>body. encode_payload (demo_env (demo_http 200)) (demo_client\<lparr>gc_GWConnection := (gc_GWConnection demo_client)\<lparr>gw_HTTPEncode := True\<rparr>\<rparr>) ''{}'' =
     Inr (body, [''Content-Encoding'', ''gzip'']) \<and> IsGZipped body"
proof -
  let ?c = "demo_client\<lparr>gc_GWConnection := (gc_GWConnection demo_client)\<lparr>gw_HTTPEncode := True\<rparr>\<rparr>"
  have "encode_payload (demo_env (demo_http 200)) ?c ''{}'' = Inr ([CHR 0x1F, CHR 0x8B, CHR 0x08], [''Content-Encoding'', ''gzip''])"
    by (simp add: encode_payload_def demo_env_def IsGZipped_def)
  moreover have "\<forall>p z. env_GZip (demo_env (demo_http 200)) p = Inr z \<longrightarrow> IsGZipped z"
    by (simp add: demo_env_def IsGZipped_def)
  ultimately show ?thesis using encode_payload_announced by blast
qed

end
