(* ===== verification/Config.thy ===== *)
theory Config
  imports Gw_Client Transit_Model
begin

text \<open>
  The configuration, \<^verbatim>\<open>config/config.go\<close> and \<^verbatim>\<open>config/crypt.go\<close>.  Outside are: the YAML codec and the
  configuration file (\<open>file_overlay\<close> is the effect of the file on the defaults, \<open>write_ok\<close> whether the new
  content can be prepared), the overlay of environment variables (\<open>env_overlay\<close>), the JSON decoding of
  the pushed configuration, the variables read by name (\<open>getenv\<close>), and the NaCl box.
\<close>

subsection \<open>Data\<close>

record NatsCfg =
  n_NatsAckWait :: duration
  n_NatsMaxInflight :: int
  n_NatsMaxPubAcksInflight :: int
  n_NatsMaxPayload :: int
  n_NatsMonitorPort :: int
  n_NatsStoreDir :: bytes
  n_NatsStoreType :: bytes
  n_NatsStoreMaxAge :: duration
  n_NatsStoreMaxBytes :: int
  n_NatsStoreMaxMsgs :: int
  n_NatsServerConfigFile :: bytes

record Connector =
  c_AgentID :: bytes
  c_AppName :: bytes
  c_AppType :: bytes
  c_BatchEvents :: duration
  c_BatchMetrics :: duration
  c_BatchMaxBytes :: int
  c_ControllerAddr :: bytes
  c_ControllerCertFile :: bytes
  c_ControllerKeyFile :: bytes
  c_ControllerPin :: bytes
  c_ControllerReadTimeout :: duration
  c_ControllerWriteTimeout :: duration
  c_ControllerStartTimeout :: duration
  c_ControllerStopTimeout :: duration
  c_Enabled :: bool
  c_InstallationMode :: bytes
  c_IsDynamicInventory :: bool
  c_GWEncode :: bytes
  c_LogCondense :: duration
  c_LogFile :: bytes
  c_LogFileMaxSize :: int
  c_LogFileRotate :: int
  c_LogLevel :: int
  c_LogColors :: bool
  c_LogTimeFormat :: bytes
  c_Nats :: NatsCfg
  c_RetryDelays :: "duration list"
  c_TransportStartRndDelay :: int
  c_ExportProm :: bool
  c_ExportTransitDir :: bytes

record ConnectorDTO =
  dto_AgentID :: bytes
  dto_AppName :: bytes
  dto_AppType :: bytes
  dto_TcgURL :: bytes
  dto_LogLevel :: int
  dto_Enabled :: bool
  dto_DSHostName :: bytes
  dto_GWConnections :: "GWConnection list"

record Config =
  cfg_Connector :: Connector
  cfg_DSHostName :: bytes
  cfg_GWConnections :: "GWConnection list"

definition zero_GWConnection :: GWConnection where
  "zero_GWConnection = \<lparr>gw_ID = 0, gw_HostName = [], gw_UserName = [], gw_Password = [], gw_Enabled = False, gw_IsChild = False,
     gw_DisplayName = [], gw_MergeHosts = False, gw_LocalConnection = False, gw_DeferOwnership = [],
     gw_PrefixResourceNames = False, gw_ResourceNamePrefix = [], gw_SendAllInventory = False,
     gw_IsDynamicInventory = False, gw_HTTPEncode = False\<rparr>"

text \<open>Durations are in nanoseconds.\<close>

definition Second :: duration where "Second = 1000000000"

definition default_nats :: NatsCfg where
  "default_nats = \<lparr>n_NatsAckWait = 30 * Second, n_NatsMaxInflight = 4, n_NatsMaxPubAcksInflight = 4,
     n_NatsMaxPayload = 1024 * 1024 * 8, n_NatsMonitorPort = 0, n_NatsStoreDir = ''natsstore'', n_NatsStoreType = ''FILE'',
     n_NatsStoreMaxAge = 60 * 60 * Second * 24 * 10, n_NatsStoreMaxBytes = 1024 * 1024 * 1024 * 20,
     n_NatsStoreMaxMsgs = 1000000, n_NatsServerConfigFile = []\<rparr>"

definition defaults :: Config where
  "defaults = \<lparr>cfg_Connector = \<lparr>c_AgentID = [], c_AppName = [], c_AppType = [], c_BatchEvents = 0, c_BatchMetrics = 0,
       c_BatchMaxBytes = 1024 * 1024, c_ControllerAddr = '':8099'', c_ControllerCertFile = [], c_ControllerKeyFile = [],
       c_ControllerPin = [], c_ControllerReadTimeout = Second * 10, c_ControllerWriteTimeout = Second * 20,
       c_ControllerStartTimeout = Second * 4, c_ControllerStopTimeout = Second * 4, c_Enabled = False,
       c_InstallationMode = [], c_IsDynamicInventory = False, c_GWEncode = [], c_LogCondense = 0, c_LogFile = [],
       c_LogFileMaxSize = 1024 * 1024 * 10, c_LogFileRotate = 5, c_LogLevel = 1, c_LogColors = False,
       c_LogTimeFormat = ''2006-01-02T15:04:05Z07:00'', c_Nats = default_nats,
       c_RetryDelays = replicate 8 (Second * 30) @ [60 * Second, 5 * 60 * Second, 20 * 60 * Second],
       c_TransportStartRndDelay = 60, c_ExportProm = False, c_ExportTransitDir = []\<rparr>,
     cfg_DSHostName = [], cfg_GWConnections = replicate 4 zero_GWConnection\<rparr>"

definition InstallationModeEnv :: bytes where "InstallationModeEnv = ''INSTALLATION_MODE''"
definition InstallationModePMC :: bytes where "InstallationModePMC = ''PARENT_MANAGED_CHILD''"
definition ParentInstanceNameEnv :: bytes where "ParentInstanceNameEnv = ''PARENT_INSTANCE_NAME''"
definition SecVerPrefix :: bytes where "SecVerPrefix = ''_v1_''"

subsection \<open>Passwords in the configuration file\<close>

text \<open>\<open>seal nonce key message\<close> and \<open>open_box nonce key box\<close> are secretbox with the hashed secret.\<close>

type_synonym seal_fn = "bytes \<Rightarrow> bytes \<Rightarrow> bytes \<Rightarrow> bytes"
type_synonym open_fn = "bytes \<Rightarrow> bytes \<Rightarrow> bytes \<Rightarrow> bytes option"

datatype cfg_error = DecryptionError | SecKeyEmpty | BadScan | BadDTO | BadAdvanced | RandomError

definition Decrypt :: "open_fn \<Rightarrow> bytes \<Rightarrow> bytes \<Rightarrow> (cfg_error + bytes) exec" where
  "Decrypt open_box message secret =
     (if length message < 24 then Panic SliceBounds
      else Done (case open_box (go_copy (replicate 24 (char_of (0::nat))) (take 24 message)) secret (drop 24 message) of
                   None \<Rightarrow> Inl DecryptionError
                 | Some m \<Rightarrow> Inr m))"

text \<open>The random nonce is an argument, \<open>None\<close> when no random bytes can be had.\<close>

definition Encrypt :: "seal_fn \<Rightarrow> bytes option \<Rightarrow> bytes \<Rightarrow> bytes \<Rightarrow> cfg_error + bytes" where
  "Encrypt seal nonce message secret =
     (case nonce of None \<Rightarrow> Inl RandomError | Some n \<Rightarrow> Inr (n @ seal n secret message))"

definition GWConnection_MarshalYAML :: "seal_fn \<Rightarrow> bytes option \<Rightarrow> bytes \<Rightarrow> GWConnection \<Rightarrow> cfg_error + GWConnection" where
  "GWConnection_MarshalYAML seal nonce secret c =
     (if secret \<noteq> []
      then (case Encrypt seal nonce (gw_Password c) secret of
              Inl e \<Rightarrow> Inl e
            | Inr encrypted \<Rightarrow> Inr (c\<lparr>gw_Password := SecVerPrefix @ EncodeToString encrypted\<rparr>))
      else Inr c)"

text \<open>
  \<open>fmt.Sscanf\<close> with \<open>%x\<close> into a byte slice: pairs of hex digits up to the first other byte; an odd digit
  and an empty result are errors.
\<close>

fun scan_hex :: "bytes \<Rightarrow> bytes option" where
  "scan_hex [] = Some []"
| "scan_hex [a] = (case hex_val a of None \<Rightarrow> Some [] | Some _ \<Rightarrow> None)"
| "scan_hex (a # b # cs) =
     (case hex_val a of
        None \<Rightarrow> Some []
      | Some x \<Rightarrow>
          (case hex_val b of
             None \<Rightarrow> None
           | Some y \<Rightarrow> map_option (\<lambda>r. char_of (16 * x + y) # r) (scan_hex cs)))"

definition GWConnection_UnmarshalYAML :: "open_fn \<Rightarrow> bytes \<Rightarrow> GWConnection \<Rightarrow> (cfg_error + GWConnection) exec" where
  "GWConnection_UnmarshalYAML open_box secret c =
     (if HasPrefix (gw_Password c) SecVerPrefix
      then if secret = [] then Done (Inl SecKeyEmpty)
           else case scan_hex (drop (length SecVerPrefix) (gw_Password c)) of
             None \<Rightarrow> Done (Inl BadScan)
           | Some encrypted \<Rightarrow>
               if encrypted = [] then Done (Inl BadScan)
               else bind_exec (Decrypt open_box encrypted secret) (\<lambda>r.
                      Done (case r of Inl e \<Rightarrow> Inl e | Inr decrypted \<Rightarrow> Inr (c\<lparr>gw_Password := decrypted\<rparr>)))
      else Done (Inr c))"

subsection \<open>Loading\<close>

definition loadConnector :: "(bytes \<Rightarrow> ConnectorDTO option) \<Rightarrow> bytes \<Rightarrow> Config \<Rightarrow> (Config \<times> ConnectorDTO) option" where
  "loadConnector um_dto data cfg =
     (case um_dto data of
        None \<Rightarrow> None
      | Some dto \<Rightarrow>
          (let con = (cfg_Connector cfg)\<lparr>c_AgentID := dto_AgentID dto, c_AppName := dto_AppName dto, c_AppType := dto_AppType dto,
                 c_LogLevel := dto_LogLevel dto, c_Enabled := dto_Enabled dto\<rparr>;
               cfg1 = cfg\<lparr>cfg_Connector := con, cfg_GWConnections := dto_GWConnections dto\<rparr>
           in Some (if length (dto_DSHostName dto) \<noteq> 0 then cfg1\<lparr>cfg_DSHostName := dto_DSHostName dto\<rparr> else cfg1, dto)))"

fun apply_prefixes :: "(int \<times> bytes) list \<Rightarrow> GWConnection \<Rightarrow> GWConnection" where
  "apply_prefixes [] c = c"
| "apply_prefixes ((i, p) # ps) c =
     apply_prefixes ps
       (if gw_ID c = i \<and> p \<noteq> [] then c\<lparr>gw_PrefixResourceNames := True, gw_ResourceNamePrefix := p\<rparr> else c)"

definition loadAdvancedPrefixes :: "(bytes \<Rightarrow> (int \<times> bytes) list option) \<Rightarrow> bytes \<Rightarrow> Config \<Rightarrow> Config option" where
  "loadAdvancedPrefixes um_adv data cfg =
     (case um_adv data of
        None \<Rightarrow> None
      | Some ps \<Rightarrow>
          Some (cfg\<lparr>cfg_GWConnections :=
            map (\<lambda>c. apply_prefixes ps (c\<lparr>gw_PrefixResourceNames := False, gw_ResourceNamePrefix := []\<rparr>)) (cfg_GWConnections cfg)\<rparr>))"

definition loadDynamicInventoryFlag :: "Config \<Rightarrow> Config" where
  "loadDynamicInventoryFlag cfg =
     cfg\<lparr>cfg_Connector := (cfg_Connector cfg)
       \<lparr>c_IsDynamicInventory := c_AppType (cfg_Connector cfg) \<in> {''CHECKER'', ''APM'', ''EVENTS'', ''TCGAZURE'', ''ORACLE''}\<rparr>\<rparr>"

definition IsPMC :: "(bytes \<Rightarrow> bytes) \<Rightarrow> bool" where
  "IsPMC getenv \<longleftrightarrow> getenv InstallationModeEnv = InstallationModePMC"

definition process_PMC :: "(bytes \<Rightarrow> bytes) \<Rightarrow> Config \<Rightarrow> Config" where
  "process_PMC getenv cfg =
     (if IsPMC getenv
      then cfg\<lparr>cfg_Connector := (cfg_Connector cfg)\<lparr>c_InstallationMode := InstallationModePMC\<rparr>,
               cfg_DSHostName := getenv ParentInstanceNameEnv\<rparr>
      else cfg)"

definition prepare_gwConnections :: "Config \<Rightarrow> Config" where
  "prepare_gwConnections cfg =
     (let gwEncode = ToLower (c_GWEncode (cfg_Connector cfg))
      in cfg\<lparr>cfg_GWConnections :=
           map (\<lambda>c. c\<lparr>gw_IsDynamicInventory := c_IsDynamicInventory (cfg_Connector cfg),
                      gw_HTTPEncode := gwEncode = ''force'' \<or> gwEncode \<noteq> ''off'' \<and> gw_IsChild c\<rparr>) (cfg_GWConnections cfg)\<rparr>)"

text \<open>
  The level and the condensing that \<open>initLogger\<close> applies; the level indexes an array of five.  Zerolog's
  DebugLevel is 0.
\<close>

definition initLogger :: "Config \<Rightarrow> (int \<times> duration) exec" where
  "initLogger cfg =
     (let l = (if c_LogLevel (cfg_Connector cfg) > 4 then 4 else c_LogLevel (cfg_Connector cfg))
      in if l < 0 then Panic IndexOutOfRange
         else let lvl = [3, 2, 1, 0, -1] ! nat l
              in Done (lvl, if lvl \<le> 0 then 0 else c_LogCondense (cfg_Connector cfg)))"

record cfg_env =
  ce_getenv :: "bytes \<Rightarrow> bytes"
  ce_file_overlay :: "Config \<Rightarrow> Config" \<comment> \<open>reading the file over the defaults\<close>
  ce_marshal :: "Config \<Rightarrow> bytes option" \<comment> \<open>\<open>yaml.Marshal\<close>\<close>
  ce_env_overlay :: "Config \<Rightarrow> Config" \<comment> \<open>\<open>applyEnv\<close>\<close>
  ce_um_dto :: "bytes \<Rightarrow> ConnectorDTO option"
  ce_um_adv :: "bytes \<Rightarrow> (int \<times> bytes) list option"

text \<open>\<open>GetConfig\<close>: defaults, file, environment, then the derived fields.\<close>

definition GetConfig :: "cfg_env \<Rightarrow> Config exec" where
  "GetConfig env =
     (let cfg = prepare_gwConnections (process_PMC (ce_getenv env) (ce_env_overlay env (ce_file_overlay env defaults)))
      in bind_exec (initLogger cfg) (\<lambda>_. Done cfg))"

text \<open>
  \<open>LoadConnectorDTO\<close>.  The result is the configuration afterwards, what was written to the file (if
  anything), and the error or the decoded object.
\<close>

definition LoadConnectorDTO :: "cfg_env \<Rightarrow> bytes \<Rightarrow> Config \<Rightarrow> (Config \<times> bytes option \<times> (cfg_error + ConnectorDTO)) exec" where
  "LoadConnectorDTO env data cfg =
     (case loadConnector (ce_um_dto env) data (ce_file_overlay env defaults) of
        None \<Rightarrow> Done (cfg, None, Inl BadDTO)
      | Some (cfg1, dto) \<Rightarrow>
          (case loadAdvancedPrefixes (ce_um_adv env) data cfg1 of
             None \<Rightarrow> Done (cfg, None, Inl BadAdvanced)
           | Some cfg2 \<Rightarrow>
               (let cfg3 = loadDynamicInventoryFlag cfg2;
                    output = ce_marshal env cfg3;
                    cfg4 = (case output of None \<Rightarrow> cfg3 | Some _ \<Rightarrow> ce_env_overlay env cfg3);
                    cfg5 = prepare_gwConnections (process_PMC (ce_getenv env) cfg4)
                in bind_exec (initLogger cfg5) (\<lambda>_. Done (cfg5, output, Inr dto)))))"

subsection \<open>Lemmas\<close>

lemma scan_hex_Encode: "scan_hex (EncodeToString s) = Some s"
proof (induction s)
  case (Cons c s)
  have "(of_char c :: nat) div 16 < 16" using of_char_less [of c] by (simp add: less_mult_imp_div_less)
  then show ?case using Cons by (simp add: Let_def)
qed simp

lemma apply_prefixes_fields:
  "gw_ID (apply_prefixes ps c) = gw_ID c \<and> gw_IsChild (apply_prefixes ps c) = gw_IsChild c \<and>
   gw_HostName (apply_prefixes ps c) = gw_HostName c \<and> gw_Enabled (apply_prefixes ps c) = gw_Enabled c"
  by (induction ps c rule: apply_prefixes.induct) auto

text \<open>The last non-empty prefix given for the connection counts.\<close>

lemma apply_prefixes_last:
  "apply_prefixes ps c =
     (case filter (\<lambda>ip. fst ip = gw_ID c \<and> snd ip \<noteq> []) ps of
        [] \<Rightarrow> c
      | qs \<Rightarrow> c\<lparr>gw_PrefixResourceNames := True, gw_ResourceNamePrefix := snd (last qs)\<rparr>)"
  by (induction ps c rule: apply_prefixes.induct) (auto split: list.splits)

lemma LoadConnectorDTO_cases:
  assumes "LoadConnectorDTO env data cfg = Done (cfg', out, r)"
  obtains (bad) e where "r = Inl e" "cfg' = cfg" "out = None"
  | (ok) dto cfg4 where "r = Inr dto" "ce_um_dto env data = Some dto" "cfg' = prepare_gwConnections (process_PMC (ce_getenv env) cfg4)"
  using assms by (auto simp: LoadConnectorDTO_def loadConnector_def Let_def split: option.splits)

subsection \<open>Properties\<close>

text \<open>
  C35. A password that is written to the configuration file under a secret is read back from it under the
  same secret, whatever bytes it has (also when it looks like an encrypted one).
\<close>

theorem password_roundtrip:
  assumes "\<forall>n k m. open_box n k (seal n k m) = Some m" "secret \<noteq> []" "length nonce = 24"
  shows "\<exists>y. GWConnection_MarshalYAML seal (Some nonce) secret c = Inr y \<and> HasPrefix (gw_Password y) SecVerPrefix \<and>
    GWConnection_UnmarshalYAML open_box secret y = Done (Inr c)"
proof -
  let ?box = "nonce @ seal nonce secret (gw_Password c)"
  have "nonce \<noteq> []" using assms(3) by auto
  moreover have "go_copy (replicate 24 (char_of (0::nat))) nonce = nonce" using assms(3) by simp
  ultimately show ?thesis
    using assms
    by (simp add: GWConnection_MarshalYAML_def GWConnection_UnmarshalYAML_def Encrypt_def Decrypt_def scan_hex_Encode)
qed

text \<open>
  C37. Loading of a pushed configuration either fails, and then changes neither the configuration nor the
  file, or succeeds, and then every connection has the inventory flag of the connector and is sent
  compressed exactly when the encoding is forced, or not switched off and the connection is to a child.
\<close>

theorem LoadConnectorDTO_atomic:
  assumes "LoadConnectorDTO env data cfg = Done (cfg', out, r)"
  shows "(\<forall>e. r = Inl e \<longrightarrow> cfg' = cfg \<and> out = None) \<and>
    (\<forall>dto. r = Inr dto \<longrightarrow> ce_um_dto env data = Some dto \<and>
       (\<forall>c\<in>set (cfg_GWConnections cfg'). gw_IsDynamicInventory c = c_IsDynamicInventory (cfg_Connector cfg') \<and>
          gw_HTTPEncode c = (ToLower (c_GWEncode (cfg_Connector cfg')) = ''force'' \<or>
            ToLower (c_GWEncode (cfg_Connector cfg')) \<noteq> ''off'' \<and> gw_IsChild c)))"
  using assms
proof (cases rule: LoadConnectorDTO_cases)
  case (ok dto cfg4)
  then show ?thesis by (auto simp: prepare_gwConnections_def Let_def)
qed auto

text \<open>
  A pushed configuration with a negative log level makes the program panic (an index below zero), and
  it does so after the file was overwritten: reading the configuration at the next start panics again.
\<close>

theorem negative_log_level_panics:
  assumes "ce_um_dto env data = Some dto" "dto_LogLevel dto < 0" "ce_um_adv env data = Some ps"
    and "\<forall>x. ce_env_overlay env x = x"
  shows "LoadConnectorDTO env data cfg = Panic IndexOutOfRange \<and>
    (\<forall>env'. c_LogLevel (cfg_Connector (ce_env_overlay env' (ce_file_overlay env' defaults))) = dto_LogLevel dto \<longrightarrow>
       GetConfig env' = Panic IndexOutOfRange)"
proof -
  have i: "initLogger cfg = Panic IndexOutOfRange" if "c_LogLevel (cfg_Connector cfg) < 0" for cfg
    using that by (simp add: initLogger_def Let_def)
  have l: "c_LogLevel (cfg_Connector (prepare_gwConnections (process_PMC g x))) = c_LogLevel (cfg_Connector x)" for g x
    by (simp add: prepare_gwConnections_def process_PMC_def Let_def)
  have "LoadConnectorDTO env data cfg = Panic IndexOutOfRange"
    using assms i l
    by (auto simp: LoadConnectorDTO_def loadConnector_def loadAdvancedPrefixes_def loadDynamicInventoryFlag_def Let_def
        split: option.splits)
  moreover have "GetConfig env' = Panic IndexOutOfRange"
    if "c_LogLevel (cfg_Connector (ce_env_overlay env' (ce_file_overlay env' defaults))) = dto_LogLevel dto" for env'
    using that assms(2) i l by (simp add: GetConfig_def Let_def)
  ultimately show ?thesis by blast
qed

subsection \<open>Concrete inputs\<close>

definition demo_dto :: "int \<Rightarrow> ConnectorDTO" where
  "demo_dto l = \<lparr>dto_AgentID = ''a1'', dto_AppName = ''app'', dto_AppType = ''APM'', dto_TcgURL = [], dto_LogLevel = l,
     dto_Enabled = True, dto_DSHostName = ''ds'', dto_GWConnections = [zero_GWConnection\<lparr>gw_IsChild := True\<rparr>]\<rparr>"

definition demo_cfg_env :: "int \<Rightarrow> cfg_env" where
  "demo_cfg_env l = \<lparr>ce_getenv = (\<lambda>_. []), ce_file_overlay = id, ce_marshal = (\<lambda>_. Some ''yaml''), ce_env_overlay = id,
     ce_um_dto = (\<lambda>_. Some (demo_dto l)), ce_um_adv = (\<lambda>_. Some [])\<rparr>"

theorem password_roundtrip_witness:
  "\<exists>y. GWConnection_MarshalYAML (\<lambda>n k m. rev m) (Some (replicate 24 CHR ''n'')) ''s3cret'' (zero_GWConnection\<lparr>gw_Password := ''_v1_''\<rparr>) = Inr y \<and>
     HasPrefix (gw_Password y) SecVerPrefix \<and>
     GWConnection_UnmarshalYAML (\<lambda>n k b. Some (rev b)) ''s3cret'' y = Done (Inr (zero_GWConnection\<lparr>gw_Password := ''_v1_''\<rparr>))"
  by (rule password_roundtrip) simp_all

lemma demo_load: "\<exists>cfg'. LoadConnectorDTO (demo_cfg_env 2) ''{}'' defaults = Done (cfg', Some ''yaml'', Inr (demo_dto 2))"
  by (simp add: LoadConnectorDTO_def demo_cfg_env_def loadConnector_def loadAdvancedPrefixes_def loadDynamicInventoryFlag_def
      initLogger_def prepare_gwConnections_def process_PMC_def IsPMC_def InstallationModePMC_def demo_dto_def Let_def)

theorem LoadConnectorDTO_atomic_witness: "\<exists>cfg'. LoadConnectorDTO (demo_cfg_env 2) ''{}'' defaults = Done (cfg', Some ''yaml'', Inr (demo_dto 2)) \<and>
    (\<forall>c\<in>set (cfg_GWConnections cfg'). gw_IsDynamicInventory c = c_IsDynamicInventory (cfg_Connector cfg'))"
proof -
  obtain cfg' where l: "LoadConnectorDTO (demo_cfg_env 2) ''{}'' defaults = Done (cfg', Some ''yaml'', Inr (demo_dto 2))"
    using demo_load by blast
  from LoadConnectorDTO_atomic [OF l] l show ?thesis by blast
qed

theorem negative_log_level_panics_witness: "LoadConnectorDTO (demo_cfg_env (- 1)) ''{}'' defaults = Panic IndexOutOfRange"
  using negative_log_level_panics [of "demo_cfg_env (- 1)" "''{}''" "demo_dto (- 1)" "[]" defaults]
  by (simp add: demo_cfg_env_def demo_dto_def)

end
