(* ===== verification/Nats_Dispatcher.thy ===== *)
theory Nats_Dispatcher
  imports Sdk_Errors Transit_Model
begin

text \<open>
  The dispatcher of \<^verbatim>\<open>nats/dispatcher.go\<close>: it fetches small batches of messages of a durable consumer,
  passes them to a handler, acknowledges what is done and delays the next fetch after a transient error.

  The two caches are maps from the name of the durable to a value.  \<open>duraSeqs\<close> never expires; an entry of
  \<open>retries\<close> disappears thirty minutes after it was set, which is the step \<open>expire_retry\<close> of the
  environment.  What JetStream delivers (the batch, the metadata of a message) and the time are arguments.
  Log lines and the exported statistics are left out.
\<close>

subsection \<open>Messages and state\<close>

record Msg =
  msg_Subject :: bytes
  msg_Data :: bytes
  msg_Headers :: "http_Header option" \<comment> \<open>a nil map is \<open>None\<close>\<close>
  msg_Stream :: "64 word option" \<comment> \<open>the stream sequence of the metadata; \<open>None\<close> when they cannot be read\<close>

record dispatcherRetry =
  dr_Timestamp :: timestamp
  dr_LastError :: "error option"
  dr_Retry :: int

definition zero_dispatcherRetry :: dispatcherRetry where
  "zero_dispatcherRetry = \<lparr>dr_Timestamp = 0, dr_LastError = None, dr_Retry = 0\<rparr>"

record natsDispatcher =
  d_duraSeqs :: "bytes \<rightharpoonup> 64 word"
  d_retries :: "bytes \<rightharpoonup> dispatcherRetry"

definition getDispatcher :: natsDispatcher where
  "getDispatcher = \<lparr>d_duraSeqs = Map.empty, d_retries = Map.empty\<rparr>"

definition Flush :: "natsDispatcher \<Rightarrow> natsDispatcher" where
  "Flush d = d\<lparr>d_duraSeqs := Map.empty, d_retries := Map.empty\<rparr>"

definition expire_retry :: "bytes \<Rightarrow> natsDispatcher \<Rightarrow> natsDispatcher" where
  "expire_retry durable d = d\<lparr>d_retries := (d_retries d)(durable := None)\<rparr>"

type_synonym 's Handler = "'s \<Rightarrow> Msg \<Rightarrow> ('s \<times> error option) exec"

subsection \<open>One message\<close>

text \<open>The last component of the result is \<open>done\<close>; \<open>retry\<close> is the record the caller passes by reference.\<close>

definition processMsg :: "duration list \<Rightarrow> 's Handler \<Rightarrow> bytes \<Rightarrow> timestamp \<Rightarrow> Msg \<Rightarrow> dispatcherRetry \<Rightarrow> natsDispatcher \<Rightarrow> 's
    \<Rightarrow> (natsDispatcher \<times> 's \<times> dispatcherRetry \<times> bool) exec" where
  "processMsg RetryDelays h durable now msg retry d st =
     (case msg_Stream msg of
        None \<Rightarrow> Done (d, st, retry, True)
      | Some seq \<Rightarrow>
          bind_exec (h st msg) (\<lambda>(st', err).
            case err of
              None \<Rightarrow> Done (d\<lparr>d_duraSeqs := (d_duraSeqs d)(durable \<mapsto> seq)\<rparr>, st', retry, True)
            | Some e \<Rightarrow>
                if \<not> errors_Is e ErrTransient then Done (d, st', retry, True)
                else
                  let n = (case d_retries d durable of None \<Rightarrow> 0 | Some prev \<Rightarrow> dr_Retry prev + 1);
                      retry' = \<lparr>dr_Timestamp = now, dr_LastError = Some e, dr_Retry = n\<rparr>
                  in if n \<ge> int (length RetryDelays)
                     then Done (d\<lparr>d_retries := (d_retries d)(durable := None)\<rparr>, st', retry', True)
                     else Done (d\<lparr>d_retries := (d_retries d)(durable \<mapsto> retry')\<rparr>, st', retry', False)))"

subsection \<open>One batch\<close>

datatype ack = Ack | Nak

fun fetch_loop :: "duration list \<Rightarrow> 's Handler \<Rightarrow> bytes \<Rightarrow> timestamp \<Rightarrow> Msg list \<Rightarrow> dispatcherRetry \<Rightarrow> bool \<Rightarrow> natsDispatcher \<Rightarrow> 's
    \<Rightarrow> (ack list \<times> natsDispatcher \<times> 's \<times> dispatcherRetry \<times> bool) exec" where
  "fetch_loop delays h durable now [] retry dn d st = Done ([], d, st, retry, dn)"
| "fetch_loop delays h durable now (m # ms) retry dn d st =
     (if \<not> dn
      then bind_exec (fetch_loop delays h durable now ms retry dn d st) (\<lambda>(acks, r). Done (Nak # acks, r))
      else bind_exec (processMsg delays h durable now m retry d st) (\<lambda>(d', st', retry', dn').
             bind_exec (fetch_loop delays h durable now ms retry' dn' d' st') (\<lambda>(acks, r).
               Done ((if \<not> dn' then Nak else Ack) # acks, r))))"

text \<open>
  One turn of the loop of \<open>fetch\<close>.  \<open>Fetch\<close> gives a batch and an error; errors other than a cancelled or
  expired context start the next turn.  The result tells how the messages were acknowledged and how long
  the next turn is delayed (\<open>RetryDelays[delayRetry.Retry]\<close>, an index expression that can panic).
\<close>

datatype fetch_error = Canceled | DeadlineExceeded | FetchError

definition delay_at :: "duration list \<Rightarrow> int \<Rightarrow> duration exec" where
  "delay_at delays i = (if 0 \<le> i \<and> i < int (length delays) then Done (delays ! nat i) else Panic IndexOutOfRange)"

definition fetch_turn :: "duration list \<Rightarrow> 's Handler \<Rightarrow> bytes \<Rightarrow> timestamp \<Rightarrow> Msg list option \<Rightarrow> fetch_error option \<Rightarrow> natsDispatcher \<Rightarrow> 's
    \<Rightarrow> (ack list \<times> natsDispatcher \<times> 's \<times> duration option) exec" where
  "fetch_turn delays h durable now batch err d st =
     (if err = Some FetchError then Done ([], d, st, None)
      else bind_exec (deref batch) (\<lambda>msgs.
           bind_exec (fetch_loop delays h durable now msgs zero_dispatcherRetry True d st) (\<lambda>(acks, d', st', retry, dn).
             if \<not> dn then bind_exec (delay_at delays (dr_Retry retry)) (\<lambda>dl. Done (acks, d', st', Some dl))
             else Done (acks, d', st', None))))"

subsection \<open>Specification\<close>

text \<open>The retry counters that are stored are valid indices of the delays.\<close>

definition retries_ok :: "duration list \<Rightarrow> natsDispatcher \<Rightarrow> bool" where
  "retries_ok delays d \<longleftrightarrow> (\<forall>r\<in>ran (d_retries d). 0 \<le> dr_Retry r \<and> dr_Retry r < int (length delays))"

lemma retries_ok_get: "retries_ok delays d \<Longrightarrow> d_retries d k = Some r \<Longrightarrow> 0 \<le> dr_Retry r \<and> dr_Retry r < int (length delays)"
  by (auto simp: retries_ok_def ran_def)

lemma retries_ok_simps [simp]:
  "retries_ok delays getDispatcher" "retries_ok delays (Flush d)"
  "retries_ok delays (d\<lparr>d_duraSeqs := x\<rparr>) = retries_ok delays d"
  by (simp_all add: retries_ok_def getDispatcher_def Flush_def)

lemma retries_ok_delete [simp]: "retries_ok delays d \<Longrightarrow> retries_ok delays (d\<lparr>d_retries := (d_retries d)(k := None)\<rparr>)"
  by (auto simp: retries_ok_def ran_def)

lemma retries_ok_set [simp]:
  "retries_ok delays d \<Longrightarrow> 0 \<le> dr_Retry r \<Longrightarrow> dr_Retry r < int (length delays) \<Longrightarrow>
     retries_ok delays (d\<lparr>d_retries := (d_retries d)(k \<mapsto> r)\<rparr>)"
  by (auto simp: retries_ok_def ran_def)

text \<open>What is to happen to a message: the handler runs unless the metadata are missing.\<close>

definition handle_one :: "'s Handler \<Rightarrow> Msg \<Rightarrow> 's \<Rightarrow> ('s \<times> error option) exec" where
  "handle_one h m st = (case msg_Stream m of None \<Rightarrow> Done (st, None) | Some _ \<Rightarrow> h st m)"

fun handle_all :: "'s Handler \<Rightarrow> Msg list \<Rightarrow> 's \<Rightarrow> 's exec" where
  "handle_all h [] st = Done st"
| "handle_all h (m # ms) st = bind_exec (handle_one h m st) (\<lambda>(st', _). handle_all h ms st')"

lemma processMsg_spec:
  assumes "processMsg delays h durable now m retry d st = Done (d', st', retry', dn)" "retries_ok delays d"
  shows "\<exists>e. handle_one h m st = Done (st', e) \<and> retries_ok delays d' \<and>
    (\<not> dn \<longrightarrow> (\<exists>x. e = Some x \<and> errors_Is x ErrTransient) \<and> 0 \<le> dr_Retry retry' \<and> dr_Retry retry' < int (length delays))"
proof (cases "msg_Stream m")
  case None
  then show ?thesis using assms by (simp add: processMsg_def handle_one_def)
next
  case (Some seq)
  obtain st1 e where h: "h st m = Done (st1, e)" using assms(1) Some by (auto simp: processMsg_def)
  define n where "n = (case d_retries d durable of None \<Rightarrow> 0 | Some prev \<Rightarrow> dr_Retry prev + 1)"
  have n: "0 \<le> n" using retries_ok_get [OF assms(2)] by (auto simp: n_def split: option.splits)
  show ?thesis
  proof (cases "\<exists>x. e = Some x \<and> errors_Is x ErrTransient")
    case False
    then show ?thesis using assms Some h by (auto simp: processMsg_def handle_one_def split: option.splits)
  next
    case True
    then show ?thesis
      using assms Some h n
      by (auto simp: processMsg_def handle_one_def n_def [symmetric] Let_def split: if_splits)
  qed
qed

lemma fetch_loop_skip:
  "fetch_loop delays h durable now ms retry False d st = Done (replicate (length ms) Nak, d, st, retry, False)"
  by (induction ms) auto

text \<open>
  The shape of a processed batch: a prefix of the messages is done and acknowledged; if a message is to be
  retried, it and all later ones are given back, and no later one reaches the handler.
\<close>

lemma fetch_loop_spec:
  assumes "fetch_loop delays h durable now ms retry True d st = Done (acks, d', st', retry', dn)" "retries_ok delays d"
  shows "retries_ok delays d' \<and> (\<exists>k \<le> length ms. acks = replicate k Ack @ replicate (length ms - k) Nak \<and>
    dn = (k = length ms) \<and> handle_all h (take (Suc k) ms) st = Done st' \<and>
    (k < length ms \<longrightarrow> 0 \<le> dr_Retry retry' \<and> dr_Retry retry' < int (length delays) \<and>
       (\<exists>st0 e. handle_all h (take k ms) st = Done st0 \<and> handle_one h (ms ! k) st0 = Done (st', Some e) \<and> errors_Is e ErrTransient)))"
  using assms
proof (induction ms arbitrary: retry d st acks)
  case Nil
  then show ?case by simp
next
  case (Cons m ms)
  obtain d1 st1 retry1 dn1 where p: "processMsg delays h durable now m retry d st = Done (d1, st1, retry1, dn1)"
    using Cons.prems(1) by auto
  obtain e where e: "handle_one h m st = Done (st1, e)" "retries_ok delays d1"
      "\<not> dn1 \<longrightarrow> (\<exists>x. e = Some x \<and> errors_Is x ErrTransient) \<and> 0 \<le> dr_Retry retry1 \<and> dr_Retry retry1 < int (length delays)"
    using processMsg_spec [OF p Cons.prems(2)] by blast
  show ?case
  proof (cases dn1)
    case False
    then have "acks = replicate (length (m # ms)) Nak" "d' = d1" "st' = st1" "retry' = retry1" "\<not> dn"
      using Cons.prems(1) p by (auto simp: fetch_loop_skip)
    then show ?thesis using e False by (intro conjI exI [of _ 0]) auto
  next
    case True
    then obtain acks1 where a: "fetch_loop delays h durable now ms retry1 True d1 st1 = Done (acks1, d', st', retry', dn)"
        "acks = Ack # acks1"
      using Cons.prems(1) p by auto
    obtain k where k: "k \<le> length ms" "acks1 = replicate k Ack @ replicate (length ms - k) Nak" "dn = (k = length ms)"
        "handle_all h (take (Suc k) ms) st1 = Done st'" "retries_ok delays d'"
        "k < length ms \<longrightarrow> 0 \<le> dr_Retry retry' \<and> dr_Retry retry' < int (length delays) \<and>
          (\<exists>st0 e. handle_all h (take k ms) st1 = Done st0 \<and> handle_one h (ms ! k) st0 = Done (st', Some e) \<and> errors_Is e ErrTransient)"
      using Cons.IH [OF a(1) e(2)] by blast
    then show ?thesis using e(1) a(2) by (intro conjI exI [of _ "Suc k"]) auto
  qed
qed

subsection \<open>The interface of the handlers\<close>

text \<open>
  What the dispatcher relies on: in a state that satisfies its invariant, and for the messages it can
  read, the handler returns (with or without an error) and keeps its invariant.
\<close>

locale durable_handler =
  fixes h :: "'s Handler"
    and inv :: "'s \<Rightarrow> bool"
    and readable :: "Msg \<Rightarrow> bool"
  assumes handler_returns: "inv st \<Longrightarrow> readable m \<Longrightarrow> \<exists>st' e. h st m = Done (st', e) \<and> inv st'"
begin

lemma processMsg_returns:
  assumes "inv st" "readable m"
  shows "\<exists>d' st' retry' dn. processMsg delays h durable now m retry d st = Done (d', st', retry', dn) \<and> inv st'"
proof -
  obtain st' e where "h st m = Done (st', e)" "inv st'" using handler_returns assms by blast
  then show ?thesis using assms(1) by (auto simp: processMsg_def Let_def split: option.splits)
qed

lemma fetch_loop_returns:
  assumes "inv st" "\<forall>m\<in>set ms. readable m"
  shows "\<exists>acks d' st' retry' dn'. fetch_loop delays h durable now ms retry dn d st = Done (acks, d', st', retry', dn') \<and> inv st'"
  using assms
proof (induction ms arbitrary: retry dn d st)
  case Nil
  then show ?case by simp
next
  case (Cons m ms)
  show ?case
  proof (cases dn)
    case True
    obtain d' st' retry' dn' where "processMsg delays h durable now m retry d st = Done (d', st', retry', dn')" "inv st'"
      using processMsg_returns [of st m delays durable now retry d] Cons.prems by auto
    then show ?thesis using True Cons.IH [of st' retry' dn' d'] Cons.prems(2) by auto
  next
    case False
    then show ?thesis using Cons.prems(1) by (auto simp: fetch_loop_skip)
  qed
qed

lemma fetch_turn_returns:
  assumes "inv st" "\<forall>m\<in>set ms. readable m" "retries_ok delays d"
  shows "\<exists>acks d' st' dl. fetch_turn delays h durable now (Some ms) None d st = Done (acks, d', st', dl) \<and>
    inv st' \<and> retries_ok delays d'"
proof -
  obtain acks d' st' retry dn where r:
      "fetch_loop delays h durable now ms zero_dispatcherRetry True d st = Done (acks, d', st', retry, dn)" "inv st'"
    using fetch_loop_returns [OF assms(1,2)] by blast
  have "retries_ok delays d'" "\<not> dn \<longrightarrow> 0 \<le> dr_Retry retry \<and> dr_Retry retry < int (length delays)"
    using fetch_loop_spec [OF r(1) assms(3)] by (blast, metis le_neq_implies_less)
  then show ?thesis using r by (auto simp: fetch_turn_def delay_at_def)
qed

end

subsection \<open>Redelivery\<close>

text \<open>
  A message that is not done is delivered again.  \<open>redeliver\<close> counts the deliveries until it is done;
  \<open>fuel\<close> bounds them.
\<close>

fun redeliver :: "nat \<Rightarrow> duration list \<Rightarrow> 's Handler \<Rightarrow> bytes \<Rightarrow> timestamp \<Rightarrow> Msg \<Rightarrow> natsDispatcher \<Rightarrow> 's \<Rightarrow> (nat \<times> natsDispatcher) option" where
  "redeliver 0 delays h durable now m d st = None"
| "redeliver (Suc f) delays h durable now m d st =
     (case processMsg delays h durable now m zero_dispatcherRetry d st of
        Panic _ \<Rightarrow> None
      | Done (d', st', retry, dn) \<Rightarrow>
          if dn then Some (1, d')
          else map_option (\<lambda>(n, d''). (Suc n, d'')) (redeliver f delays h durable now m d' st'))"

text \<open>The number of the next retry of a durable.\<close>

definition next_retry :: "natsDispatcher \<Rightarrow> bytes \<Rightarrow> nat" where
  "next_retry d durable = (case d_retries d durable of None \<Rightarrow> 0 | Some r \<Rightarrow> nat (dr_Retry r + 1))"

definition always_transient :: "'s Handler \<Rightarrow> bool" where
  "always_transient h \<longleftrightarrow> (\<forall>st m. \<exists>st' e. h st m = Done (st', Some e) \<and> errors_Is e ErrTransient)"

lemma next_retry_int:
  assumes "retries_ok delays d"
  shows "(case d_retries d durable of None \<Rightarrow> 0 | Some prev \<Rightarrow> dr_Retry prev + 1) = int (next_retry d durable)"
    and "next_retry d durable \<le> length delays"
  using retries_ok_get [OF assms, of durable] by (auto simp: next_retry_def split: option.splits)

lemma redeliver_transient:
  assumes "always_transient h" "msg_Stream m = Some seq" "retries_ok delays d"
    and "next_retry d durable + f = length delays"
  shows "\<exists>d'. redeliver (Suc f) delays h durable now m d st = Some (Suc f, d') \<and> d_retries d' durable = None"
  using assms(3,4)
proof (induction f arbitrary: d st)
  case 0
  obtain st' e where "h st m = Done (st', Some e)" "errors_Is e ErrTransient"
    using assms(1) unfolding always_transient_def by blast
  then show ?case using 0 assms(2) next_retry_int [OF 0(1), of durable] by (simp add: processMsg_def Let_def)
next
  case (Suc f)
  obtain st' e where h: "h st m = Done (st', Some e)" "errors_Is e ErrTransient"
    using assms(1) unfolding always_transient_def by blast
  define r where "r = \<lparr>dr_Timestamp = now, dr_LastError = Some e, dr_Retry = int (next_retry d durable)\<rparr>"
  define d' where "d' = d\<lparr>d_retries := (d_retries d)(durable \<mapsto> r)\<rparr>"
  have p: "processMsg delays h durable now m zero_dispatcherRetry d st = Done (d', st', r, False)"
    using h assms(2) Suc.prems(2) next_retry_int [OF Suc.prems(1), of durable]
    by (simp add: processMsg_def Let_def d'_def r_def)
  have "retries_ok delays d'" "next_retry d' durable + f = length delays"
    using Suc.prems by (auto simp: d'_def r_def next_retry_def)
  then obtain d2 where "redeliver (Suc f) delays h durable now m d' st' = Some (Suc f, d2)" "d_retries d2 durable = None"
    using Suc.IH by blast
  then show ?case by (subst redeliver.simps(2)) (simp add: p del: redeliver.simps)
qed

lemma redeliver_more:
  "redeliver f delays h durable now m d st = Some x \<Longrightarrow> f \<le> g \<Longrightarrow> redeliver g delays h durable now m d st = Some x"
proof (induction f arbitrary: g d st x)
  case (Suc f)
  from Suc.prems(2) obtain g' where g: "g = Suc g'" "f \<le> g'" by (cases g) auto
  show ?case
  proof (cases "processMsg delays h durable now m zero_dispatcherRetry d st")
    case (Panic p)
    then show ?thesis using Suc.prems(1) by simp
  next
    case (Done r)
    obtain d' st' retry dn where r: "r = (d', st', retry, dn)" by (cases r) auto
    then show ?thesis using Suc.prems(1) Suc.IH [OF _ g(2), of d' st'] g(1) Done by (cases dn) auto
  qed
qed simp

subsection \<open>Properties\<close>



text \<open>
  A delivery that succeeds does not reset the retry counter of the durable: if the counter stands at the
  last delay when a message is delivered, the next message is given up at its first transient error, without
  any retry.
\<close>

theorem dispatcher_retry_carried_over:
  assumes "d_retries d durable = Some r" "dr_Retry r + 1 = int (length delays)"
    and "msg_Stream m1 = Some s1" "h st m1 = Done (st1, None)"
    and "msg_Stream m2 = Some s2" "h st1 m2 = Done (st2, Some e)" "errors_Is e ErrTransient"
  shows "\<exists>d'. fetch_turn delays h durable now (Some [m1, m2]) None d st = Done ([Ack, Ack], d', st2, None)"
  using assms by (simp add: fetch_turn_def processMsg_def Let_def)

subsection \<open>Concrete runs\<close>

definition demo_msg :: "bytes \<Rightarrow> 64 word \<Rightarrow> Msg" where
  "demo_msg s n = \<lparr>msg_Subject = ''tcg.events'', msg_Data = s, msg_Headers = Some Map.empty, msg_Stream = Some n\<rparr>"

text \<open>A handler that records the data and fails on one of them with a gateway error.\<close>

definition demo_handler :: "bytes \<Rightarrow> bytes list Handler" where
  "demo_handler bad st m = Done (st @ [msg_Data m], if msg_Data m = bad then Some (Sentinel ErrGateway) else None)"

definition demo_retry :: dispatcherRetry where
  "demo_retry = \<lparr>dr_Timestamp = 0, dr_LastError = None, dr_Retry = 0\<rparr>"

definition demo_batch :: "Msg list" where
  "demo_batch = [demo_msg ''a'' 1, demo_msg ''b'' 2, demo_msg ''c'' 3]"

lemma demo_turn:
  "\<exists>d'. fetch_turn [30, 60] (demo_handler ''b'') ''#gw#'' 0 (Some demo_batch) None getDispatcher [] =
      Done ([Ack, Nak, Nak], d', [''a'', ''b''], Some 30)"
  by (simp add: fetch_turn_def processMsg_def demo_handler_def demo_msg_def demo_batch_def getDispatcher_def
      delay_at_def Let_def)


lemma demo_always_transient: "always_transient (\<lambda>st m. Done (st, Some (Sentinel ErrGateway)))"
  by (simp add: always_transient_def)


theorem dispatcher_retry_carried_over_witness:
  "\<exists>d'. fetch_turn [30] (demo_handler ''b'') ''#gw#'' 0 (Some [demo_msg ''a'' 1, demo_msg ''b'' 2]) None
     (getDispatcher\<lparr>d_retries := [''#gw#'' \<mapsto> demo_retry]\<rparr>) [] = Done ([Ack, Ack], d', [''a'', ''b''], None)"
  by (rule dispatcher_retry_carried_over [where r = demo_retry and e = "Sentinel ErrGateway"])
    (simp_all add: demo_retry_def demo_msg_def demo_handler_def)

end
