(* ===== verification/Nats_Server.thy ===== *)
theory Nats_Server
  imports Nats_Dispatcher
begin

text \<open>
  The embedded server and its connections, \<^verbatim>\<open>nats/nats.go\<close>, and \<open>OpenDurable\<close> of
  \<^verbatim>\<open>nats/dispatcher.go\<close>.  The NATS packages, the file system and the disk usage are outside: what they
  answer in a call is an argument (\<open>server_env\<close>, \<open>stream_env\<close>).  A connection and a context are numbers;
  the goroutines that were started are kept with the context that ends them.
\<close>

subsection \<open>State\<close>

record NatsConfig =
  nc_AckWait :: duration
  nc_MaxPayload :: int
  nc_MonitorPort :: int
  nc_StoreDir :: bytes
  nc_StoreType :: bytes
  nc_StoreMaxAge :: duration
  nc_StoreMaxBytes :: int
  nc_StoreMaxMsgs :: int
  nc_ConfigFile :: bytes

record nats_state =
  ns_config :: NatsConfig
  ns_server :: "bytes option" \<comment> \<open>the running server, known by its client URL\<close>
  ns_ncDispatcher :: "nat option"
  ns_ncPublisher :: "nat option"
  ns_cancel :: "nat option" \<comment> \<open>the context the cancel function ends\<close>
  ns_d_cancel :: "nat option" \<comment> \<open>the same field of the dispatcher\<close>
  ns_dispatcher :: natsDispatcher
  ns_next :: nat \<comment> \<open>fresh numbers\<close>
  ns_publishers :: "nat list" \<comment> \<open>contexts of the running \<open>handlePubchan\<close> goroutines\<close>
  ns_fetchers :: "(nat \<times> bytes) list" \<comment> \<open>contexts and durables of the running \<open>fetch\<close> goroutines\<close>

subsection \<open>The stream\<close>

datatype StorageType = FileStorage | MemoryStorage

record StreamConfig =
  sc_Storage :: StorageType
  sc_MaxAge :: duration
  sc_MaxBytes :: int
  sc_MaxMsgs :: int

datatype js_call = UpdateStream StreamConfig | CreateStream StreamConfig

text \<open>Errors of the NATS client that the code looks into: a missing stream, an API error with its code.\<close>

datatype js_error = ErrStreamNotFound | APIError int | JSOther error

definition isJSStorageErr :: "js_error \<Rightarrow> bool" where
  "isJSStorageErr err = (case err of APIError code \<Rightarrow> code \<in> {10023, 10047} | _ \<Rightarrow> False)"

definition equalStreamConfig :: "StreamConfig \<Rightarrow> StreamConfig \<Rightarrow> bool" where
  "equalStreamConfig c1 c2 \<longleftrightarrow>
     sc_MaxAge c1 = sc_MaxAge c2 \<and> sc_MaxBytes c1 = sc_MaxBytes c2 \<and>
     sc_MaxMsgs c1 = sc_MaxMsgs c2 \<and> sc_Storage c1 = sc_Storage c2"

record stream_env =
  se_New :: "js_error option" \<comment> \<open>\<open>jetstream.New\<close>\<close>
  se_Stream :: "js_error option" \<comment> \<open>\<open>js.Stream\<close>\<close>
  se_Info :: "js_error + StreamConfig" \<comment> \<open>\<open>stream.Info\<close>\<close>
  se_Call :: "js_call \<Rightarrow> js_error option" \<comment> \<open>\<open>js.UpdateStream\<close> and \<open>js.CreateStream\<close>\<close>
  se_Free :: "64 word option" \<comment> \<open>\<open>disk.Usage\<close>: free bytes, \<open>None\<close> for an error\<close>

definition storage_type :: "bytes \<Rightarrow> StorageType" where
  "storage_type s = (if ToUpper s = ''MEMORY'' then MemoryStorage else FileStorage)"

text \<open>\<open>int64(u.Free) / 8 * 5\<close>, with the conversion and the truncation of Go.\<close>

definition reduced_bytes :: "64 word \<Rightarrow> int" where
  "reduced_bytes free = (let i = sint free in (if i < 0 then - ((- i) div 8) else i div 8) * 5)"

text \<open>
  The result of \<open>defineStream\<close> and the calls it made, in order.  The second half, after \<open>fn\<close> was chosen, is
  \<open>define_with\<close>.
\<close>

definition define_with :: "stream_env \<Rightarrow> (StreamConfig \<Rightarrow> js_call) \<Rightarrow> StreamConfig \<Rightarrow> js_error option \<times> js_call list" where
  "define_with env fn sc =
     (case se_Call env (fn sc) of
        None \<Rightarrow> (None, [fn sc])
      | Some err \<Rightarrow>
          if \<not> isJSStorageErr err \<or> sc_Storage sc \<noteq> FileStorage then (Some err, [fn sc])
          else case se_Free env of
            None \<Rightarrow> (Some err, [fn sc])
          | Some free \<Rightarrow>
              if free div 8 * 5 > word_of_int (sc_MaxBytes sc) then (Some err, [fn sc])
              else if free < 1024 * 1024 then (Some err, [fn sc])
              else let sc' = sc\<lparr>sc_MaxBytes := reduced_bytes free\<rparr>
                   in (se_Call env (fn sc'), [fn sc, fn sc']))"

definition defineStream :: "stream_env \<Rightarrow> NatsConfig \<Rightarrow> js_error option \<times> js_call list" where
  "defineStream env cfg =
     (let sc = \<lparr>sc_Storage = storage_type (nc_StoreType cfg), sc_MaxAge = nc_StoreMaxAge cfg,
                sc_MaxBytes = nc_StoreMaxBytes cfg, sc_MaxMsgs = nc_StoreMaxMsgs cfg\<rparr>
      in case se_New env of
           Some err \<Rightarrow> (Some err, [])
         | None \<Rightarrow>
             (case se_Stream env of
                None \<Rightarrow>
                  (case se_Info env of
                     Inr cur \<Rightarrow> if equalStreamConfig sc cur then (None, []) else define_with env UpdateStream sc
                   | Inl err \<Rightarrow> (Some err, []))
              | Some err \<Rightarrow> if err = ErrStreamNotFound then define_with env CreateStream sc else (Some err, [])))"

subsection \<open>Starting and stopping the server\<close>

datatype nats_error = InvalidConfigPath | LibError error | JSError js_error | Unavailable | PayloadLim

record server_env =
  sv_Open :: bool \<comment> \<open>\<open>os.Open\<close> of the configuration file succeeds\<close>
  sv_ProcessConfigFile :: "error option"
  sv_NewServer :: "error + bytes"
  sv_Connect :: "error option"
  sv_stream :: stream_env

definition cancel_ctx :: "nat \<Rightarrow> nats_state \<Rightarrow> nats_state" where
  "cancel_ctx c s = s\<lparr>ns_publishers := filter (\<lambda>x. x \<noteq> c) (ns_publishers s),
     ns_fetchers := filter (\<lambda>x. fst x \<noteq> c) (ns_fetchers s)\<rparr>"

text \<open>The second test of \<open>s.server\<close>, under the lock, finds what the first one found: one goroutine starts the server.\<close>

definition StartServer :: "server_env \<Rightarrow> NatsConfig \<Rightarrow> nats_state \<Rightarrow> nats_state \<times> nats_error option" where
  "StartServer env config s =
     (if ns_server s \<noteq> None then (s, None)
      else if nc_ConfigFile config \<noteq> [] \<and> \<not> sv_Open env then (s, Some InvalidConfigPath)
      else case (if nc_ConfigFile config \<noteq> [] then sv_ProcessConfigFile env else None) of
        Some err \<Rightarrow> (s, Some (LibError err))
      | None \<Rightarrow>
          (let s1 = s\<lparr>ns_config := config\<rparr> in
           case sv_NewServer env of
             Inl err \<Rightarrow> (s1, Some (LibError err))
           | Inr url \<Rightarrow>
               (let s2 = s1\<lparr>ns_server := Some url\<rparr> in
                case sv_Connect env of
                  Some err \<Rightarrow> (s2, Some (LibError err))
                | None \<Rightarrow>
                    (let nc = ns_next s2; ctx = ns_next s2 + 1;
                         s3 = s2\<lparr>ns_ncPublisher := Some nc, ns_cancel := Some ctx, ns_next := ns_next s2 + 2\<rparr> in
                     case fst (defineStream (sv_stream env) config) of
                       Some err \<Rightarrow> (s3, Some (JSError err))
                     | None \<Rightarrow> (s3\<lparr>ns_publishers := ns_publishers s3 @ [ctx]\<rparr>, None)))))"

text \<open>\<open>s.cancel()\<close> calls the stored function, which is nil until a start got to its end.\<close>

definition StopServer :: "nats_state \<Rightarrow> nats_state exec" where
  "StopServer s =
     (case ns_cancel s of
        None \<Rightarrow> Panic NilFunc
      | Some c \<Rightarrow>
          Done ((cancel_ctx c s)\<lparr>ns_ncPublisher := None, ns_ncDispatcher := None, ns_server := None\<rparr>))"

subsection \<open>The dispatcher\<close>

definition StopDispatcher :: "nats_state \<Rightarrow> nats_state" where
  "StopDispatcher s =
     (let s1 = (case ns_d_cancel s of None \<Rightarrow> s | Some c \<Rightarrow> (cancel_ctx c s)\<lparr>ns_d_cancel := None\<rparr>)
      in s1\<lparr>ns_ncDispatcher := None\<rparr>)"

text \<open>\<open>consumer\<close> tells whether the consumer of a durable could be created.\<close>

definition OpenDurable :: "(bytes \<Rightarrow> bool) \<Rightarrow> nat \<Rightarrow> bytes \<Rightarrow> nats_state \<Rightarrow> nats_state" where
  "OpenDurable consumer ctx durable s =
     (if consumer durable then s\<lparr>ns_fetchers := ns_fetchers s @ [(ctx, durable)]\<rparr> else s)"

definition StartDispatcher :: "error option \<Rightarrow> (bytes \<Rightarrow> bool) \<Rightarrow> bytes list \<Rightarrow> nats_state \<Rightarrow> nats_state \<times> nats_error option" where
  "StartDispatcher connect consumer options s =
     (let s1 = StopDispatcher s in
      if ns_server s1 = None then (s1, Some Unavailable)
      else case (if ns_ncDispatcher s1 = None then connect else None) of
        Some err \<Rightarrow> (s1, Some (LibError err))
      | None \<Rightarrow>
          (let s2 = (if ns_ncDispatcher s1 = None
                     then s1\<lparr>ns_ncDispatcher := Some (ns_next s1), ns_next := ns_next s1 + 1\<rparr> else s1);
               ctx = ns_next s2;
               s3 = s2\<lparr>ns_dispatcher := Flush (ns_dispatcher s2), ns_d_cancel := Some ctx, ns_next := ns_next s2 + 1\<rparr>
           in (fold (OpenDurable consumer ctx) options s3, None)))"

definition IsStartedDispatcher :: "nats_state \<Rightarrow> bool" where
  "IsStartedDispatcher s \<longleftrightarrow> ns_ncDispatcher s \<noteq> None"

definition IsStartedServer :: "nats_state \<Rightarrow> bool" where
  "IsStartedServer s \<longleftrightarrow> ns_server s \<noteq> None"

subsection \<open>Publishing\<close>

record nats_Msg =
  nm_Subject :: bytes
  nm_Data :: bytes
  nm_Header :: http_Header

text \<open>
  \<open>Pub\<close> starts a goroutine that sends the message on the channel \<open>s.pub\<close> (capacity 2000).  \<open>pc_waiting\<close>
  are the messages of the goroutines that have not sent yet, in no order; \<open>pc_queue\<close> is the channel.
\<close>

record pub_chan =
  pc_waiting :: "nats_Msg list"
  pc_queue :: "nats_Msg list"
  pc_sent :: "nats_Msg list" \<comment> \<open>messages given to the server\<close>
  pc_failed :: "nats_Msg list" \<comment> \<open>messages that could not be published\<close>

definition Pub :: "nats_state \<Rightarrow> bytes \<Rightarrow> bytes \<Rightarrow> http_Header \<Rightarrow> pub_chan \<Rightarrow> pub_chan \<times> nats_error option" where
  "Pub s subj data header pc =
     (if int (length data) > nc_MaxPayload (ns_config s) then (pc, Some PayloadLim)
      else (pc\<lparr>pc_waiting := pc_waiting pc @ [\<lparr>nm_Subject = subj, nm_Data = data, nm_Header = Map.empty ++ header\<rparr>]\<rparr>, None))"

definition Publish :: "error option \<Rightarrow> (nat \<Rightarrow> nats_Msg \<Rightarrow> error option) \<Rightarrow> nats_state \<Rightarrow> bytes \<Rightarrow> bytes \<Rightarrow> http_Header
    \<Rightarrow> nats_state \<times> nats_error option" where
  "Publish connect publish s subj data header =
     (if int (length data) > nc_MaxPayload (ns_config s) then (s, Some PayloadLim)
      else if ns_server s = None then (s, Some Unavailable)
      else case (if ns_ncPublisher s = None then connect else None) of
        Some err \<Rightarrow> (s, Some (LibError err))
      | None \<Rightarrow>
          (let nc = (case ns_ncPublisher s of None \<Rightarrow> ns_next s | Some c \<Rightarrow> c);
               s' = (if ns_ncPublisher s = None then s\<lparr>ns_ncPublisher := Some nc, ns_next := ns_next s + 1\<rparr> else s)
           in (s', map_option LibError (publish nc \<lparr>nm_Subject = subj, nm_Data = data, nm_Header = Map.empty ++ header\<rparr>))))"

text \<open>
  One turn of \<open>handlePubchan\<close> on a received message: publish on the current connection (a nil connection
  fails), and after a failure reconnect and publish once more.
\<close>

definition handlePubchan_msg :: "error option \<Rightarrow> (nat \<Rightarrow> nats_Msg \<Rightarrow> error option) \<Rightarrow> nats_Msg \<Rightarrow> nats_state \<times> pub_chan
    \<Rightarrow> (nats_state \<times> pub_chan) exec" where
  "handlePubchan_msg connect publish msg sp =
     (case sp of (s, pc) \<Rightarrow>
        if (case ns_ncPublisher s of None \<Rightarrow> False | Some nc \<Rightarrow> publish nc msg = None)
        then Done (s, pc\<lparr>pc_sent := pc_sent pc @ [msg]\<rparr>)
        else bind_exec (deref (ns_server s)) (\<lambda>url.
               case connect of
                 Some _ \<Rightarrow> Done (s, pc\<lparr>pc_failed := pc_failed pc @ [msg]\<rparr>)
               | None \<Rightarrow>
                   (let s' = s\<lparr>ns_ncPublisher := Some (ns_next s), ns_next := ns_next s + 1\<rparr>
                    in if publish (ns_next s) msg = None
                       then Done (s', pc\<lparr>pc_sent := pc_sent pc @ [msg]\<rparr>)
                       else Done (s', pc\<lparr>pc_failed := pc_failed pc @ [msg]\<rparr>))))"

text \<open>Calls of \<open>Pub\<close>, the sends of its goroutines and the publishing loop; the last component records the accepted messages.\<close>

type_synonym pub_sys = "nats_state \<times> pub_chan \<times> nats_Msg list"

inductive pub_step :: "pub_sys \<Rightarrow> pub_sys \<Rightarrow> bool" where
  pub: "Pub s subj data header pc = (pc', None) \<Longrightarrow>
     pub_step (s, pc, acc) (s, pc', acc @ [\<lparr>nm_Subject = subj, nm_Data = data, nm_Header = header\<rparr>])"
| send: "pc_waiting pc = ws @ [m] @ us \<Longrightarrow> length (pc_queue pc) < 2000 \<Longrightarrow>
     pub_step (s, pc, acc) (s, pc\<lparr>pc_waiting := ws @ us, pc_queue := pc_queue pc @ [m]\<rparr>, acc)"
| handle: "pc_queue pc = m # q \<Longrightarrow> ns_publishers s \<noteq> [] \<Longrightarrow>
     handlePubchan_msg connect publish m (s, pc\<lparr>pc_queue := q\<rparr>) = Done (s', pc') \<Longrightarrow>
     pub_step (s, pc, acc) (s', pc', acc)"

inductive pub_reach :: "pub_sys \<Rightarrow> pub_sys \<Rightarrow> bool" for s0 where
  start: "pub_reach s0 s0"
| step: "pub_reach s0 s \<Longrightarrow> pub_step s t \<Longrightarrow> pub_reach s0 t"

subsection \<open>The invariant of the server\<close>

text \<open>
  At most one publishing goroutine runs, only beside a server, and the stored cancel function ends it;
  every fetching goroutine belongs to the context the dispatcher can cancel.
\<close>

definition ns_ok :: "nats_state \<Rightarrow> bool" where
  "ns_ok s \<longleftrightarrow>
     (ns_publishers s = [] \<or> ns_server s \<noteq> None \<and> (\<exists>c. ns_cancel s = Some c \<and> ns_publishers s = [c])) \<and>
     (\<forall>x\<in>set (ns_fetchers s). ns_d_cancel s = Some (fst x)) \<and>
     (\<forall>c. ns_cancel s = Some c \<longrightarrow> c < ns_next s \<and> ns_d_cancel s \<noteq> Some c) \<and>
     (\<forall>c. ns_d_cancel s = Some c \<longrightarrow> c < ns_next s)"

definition init_nats :: "NatsConfig \<Rightarrow> nats_state" where
  "init_nats cfg = \<lparr>ns_config = cfg, ns_server = None, ns_ncDispatcher = None, ns_ncPublisher = None,
     ns_cancel = None, ns_d_cancel = None, ns_dispatcher = getDispatcher, ns_next = 0, ns_publishers = [], ns_fetchers = []\<rparr>"

lemma ns_ok_init [simp]: "ns_ok (init_nats cfg)"
  by (simp add: ns_ok_def init_nats_def)

lemma ns_ok_simps [simp]:
  "ns_ok (s\<lparr>ns_config := x\<rparr>) = ns_ok s" "ns_ok (s\<lparr>ns_ncDispatcher := y\<rparr>) = ns_ok s"
  "ns_ok (s\<lparr>ns_ncPublisher := y\<rparr>) = ns_ok s" "ns_ok (s\<lparr>ns_dispatcher := z\<rparr>) = ns_ok s"
  by (simp_all add: ns_ok_def)

lemma ns_ok_next [simp]: "ns_ok s \<Longrightarrow> ns_ok (s\<lparr>ns_next := ns_next s + k\<rparr>)"
  unfolding ns_ok_def by (simp add: trans_less_add1)

lemma ns_ok_server [simp]: "ns_ok s \<Longrightarrow> ns_ok (s\<lparr>ns_server := Some u\<rparr>)"
  by (auto simp: ns_ok_def)

text \<open>The outcomes of a start.\<close>

lemma StartServer_cases:
  assumes "StartServer env config s = (s', r)"
  obtains (running) "ns_server s \<noteq> None" "s' = s" "r = None"
  | (config) "ns_server s = None" "r \<noteq> None" "s' = s \<or> s' = s\<lparr>ns_config := config\<rparr>"
  | (connect) u where "ns_server s = None" "r \<noteq> None" "s' = s\<lparr>ns_config := config, ns_server := Some u\<rparr>"
  | (stream) u where "ns_server s = None" "r \<noteq> None"
      "s' = s\<lparr>ns_config := config, ns_server := Some u, ns_ncPublisher := Some (ns_next s),
              ns_cancel := Some (ns_next s + 1), ns_next := ns_next s + 2\<rparr>"
  | (started) u where "ns_server s = None" "r = None"
      "s' = s\<lparr>ns_config := config, ns_server := Some u, ns_ncPublisher := Some (ns_next s),
              ns_cancel := Some (ns_next s + 1), ns_next := ns_next s + 2,
              ns_publishers := ns_publishers s @ [ns_next s + 1]\<rparr>"
  using assms by (auto simp: StartServer_def Let_def split: if_splits option.splits sum.splits)

lemma ns_ok_StartServer:
  assumes "ns_ok s" "StartServer env config s = (s', r)"
  shows "ns_ok s'"
  using assms(2)
proof (cases rule: StartServer_cases)
  case (stream u)
  then show ?thesis using assms(1) unfolding ns_ok_def by fastforce
next
  case (started u)
  then show ?thesis using assms(1) unfolding ns_ok_def by fastforce
qed (use assms(1) in auto)

lemma ns_ok_StopServer:
  assumes "ns_ok s" "StopServer s = Done s'"
  shows "ns_ok s' \<and> ns_server s' = None \<and> ns_publishers s' = [] \<and> ns_ncPublisher s' = None \<and> ns_ncDispatcher s' = None"
  using assms by (auto simp: StopServer_def cancel_ctx_def ns_ok_def split: option.splits)

lemma StopDispatcher_spec:
  assumes "ns_ok s"
  shows "ns_ok (StopDispatcher s) \<and> ns_fetchers (StopDispatcher s) = [] \<and> ns_d_cancel (StopDispatcher s) = None \<and>
    ns_ncDispatcher (StopDispatcher s) = None \<and> ns_server (StopDispatcher s) = ns_server s \<and>
    ns_publishers (StopDispatcher s) = ns_publishers s"
proof (cases "ns_d_cancel s")
  case None
  then have "ns_fetchers s = []" using assms by (cases "ns_fetchers s") (auto simp: ns_ok_def)
  then show ?thesis using None assms by (simp add: StopDispatcher_def)
next
  case (Some c)
  then have "\<forall>x\<in>set (ns_fetchers s). fst x = c" "\<forall>x\<in>set (ns_publishers s). x \<noteq> c"
    using assms by (auto simp: ns_ok_def)
  then have "filter (\<lambda>x. fst x \<noteq> c) (ns_fetchers s) = []" "filter (\<lambda>x. x \<noteq> c) (ns_publishers s) = ns_publishers s"
    by simp_all
  then show ?thesis using Some assms by (simp add: StopDispatcher_def cancel_ctx_def ns_ok_def)
qed

lemma fold_OpenDurable:
  "fold (OpenDurable consumer ctx) options s =
     s\<lparr>ns_fetchers := ns_fetchers s @ map (Pair ctx) (filter consumer options)\<rparr>"
  by (induction options arbitrary: s) (simp_all add: OpenDurable_def)

lemma StartDispatcher_spec:
  assumes "ns_ok s" "StartDispatcher connect consumer options s = (s', r)"
  shows "ns_ok s' \<and> ns_publishers s' = ns_publishers s \<and>
    (r = None \<longleftrightarrow> ns_server s \<noteq> None \<and> connect = None) \<and>
    (r = None \<longrightarrow> map snd (ns_fetchers s') = filter consumer options \<and> IsStartedDispatcher s' \<and>
       d_retries (ns_dispatcher s') = Map.empty) \<and>
    (r \<noteq> None \<longrightarrow> ns_fetchers s' = [] \<and> \<not> IsStartedDispatcher s')"
proof -
  define s1 where "s1 = StopDispatcher s"
  have s1: "ns_ok s1" "ns_fetchers s1 = []" "ns_d_cancel s1 = None" "ns_ncDispatcher s1 = None"
      "ns_server s1 = ns_server s" "ns_publishers s1 = ns_publishers s"
    using StopDispatcher_spec [OF assms(1)] by (auto simp: s1_def)
  show ?thesis
  proof (cases "ns_server s = None \<or> connect \<noteq> None")
    case True
    then have "s' = s1" "r \<noteq> None"
      using assms(2) s1 by (auto simp: StartDispatcher_def s1_def [symmetric] Let_def split: option.splits if_splits)
    then show ?thesis using True s1 by (auto simp: IsStartedDispatcher_def)
  next
    case False
    then have s': "s' = s1\<lparr>ns_ncDispatcher := Some (ns_next s1), ns_next := ns_next s1 + 1 + 1,
        ns_dispatcher := Flush (ns_dispatcher s1), ns_d_cancel := Some (ns_next s1 + 1),
        ns_fetchers := map (Pair (ns_next s1 + 1)) (filter consumer options)\<rparr>" "r = None"
      using assms(2) s1 by (auto simp: StartDispatcher_def s1_def [symmetric] Let_def fold_OpenDurable)
    have "ns_ok s'" using s1(1) unfolding s'(1) ns_ok_def by fastforce
    then show ?thesis using False s1 s' by (simp add: IsStartedDispatcher_def Flush_def o_def)
  qed
qed

text \<open>Any sequence of these operations.\<close>

inductive ns_step :: "nats_state \<Rightarrow> nats_state \<Rightarrow> bool" where
  "StartServer env config s = (s', r) \<Longrightarrow> ns_step s s'"
| "StopServer s = Done s' \<Longrightarrow> ns_step s s'"
| "StartDispatcher connect consumer options s = (s', r) \<Longrightarrow> ns_step s s'"
| "ns_step s (StopDispatcher s)"
| "Publish connect publish s subj data header = (s', r) \<Longrightarrow> ns_step s s'"

inductive ns_reach :: "nats_state \<Rightarrow> nats_state \<Rightarrow> bool" for s0 where
  start: "ns_reach s0 s0"
| step: "ns_reach s0 s \<Longrightarrow> ns_step s t \<Longrightarrow> ns_reach s0 t"

lemma ns_ok_Publish: "ns_ok s \<Longrightarrow> Publish connect publish s subj data header = (s', r) \<Longrightarrow> ns_ok s'"
  using ns_ok_next [of "s\<lparr>ns_ncPublisher := Some (ns_next s)\<rparr>" 1]
  by (auto simp: Publish_def Let_def split: if_splits option.splits)

lemma ns_ok_step: "ns_step s t \<Longrightarrow> ns_ok s \<Longrightarrow> ns_ok t"
proof (induction rule: ns_step.induct)
  case (2 s s')
  then show ?case using ns_ok_StopServer by blast
next
  case (3 connect consumer options s s' r)
  then show ?case using StartDispatcher_spec by blast
qed (use ns_ok_StartServer StopDispatcher_spec ns_ok_Publish in blast)+

subsection \<open>Reducing the storage\<close>

lemma reduced_bytes_eq: "uint free < 2 ^ 63 \<Longrightarrow> reduced_bytes free = uint free div 8 * 5"
  by (simp add: reduced_bytes_def sint_uint signed_take_bit_eq_if_positive take_bit_int_eq_self Let_def
      not_le bit_iff_odd)

lemma define_with_calls:
  assumes "define_with env fn sc = (r, calls)" "se_Free env = Some free" "uint free < 2 ^ 63"
    and "0 \<le> sc_MaxBytes sc" "sc_MaxBytes sc < 2 ^ 63"
  shows "length calls \<le> 2 \<and> (\<forall>c1 c2. calls = [c1, c2] \<longrightarrow>
    (\<exists>e. c1 = fn sc \<and> se_Call env c1 = Some e \<and> isJSStorageErr e \<and> sc_Storage sc = FileStorage \<and>
       c2 = fn (sc\<lparr>sc_MaxBytes := uint free div 8 * 5\<rparr>) \<and> uint free div 8 * 5 \<le> sc_MaxBytes sc \<and> r = se_Call env c2))"
proof -
  have "uint (word_of_int (sc_MaxBytes sc) :: 64 word) = sc_MaxBytes sc"
    using assms(4,5) by (simp add: uint_word_of_int)
  moreover have "0 \<le> uint free div 8 * 5" "uint free div 8 * 5 < 2 ^ 64"
    using assms(3) by (simp_all add: pos_imp_zdiv_nonneg_iff)
  then have "uint (free div 8 * 5) = uint free div 8 * 5"
    by (simp add: uint_word_ariths uint_div)
  ultimately have le: "\<not> free div 8 * 5 > word_of_int (sc_MaxBytes sc) \<longleftrightarrow> uint free div 8 * 5 \<le> sc_MaxBytes sc"
    by (simp add: word_less_def not_less)
  show ?thesis
    using assms(1,2) le reduced_bytes_eq [OF assms(3)]
    by (auto simp: define_with_def Let_def split: option.splits if_splits)
qed

subsection \<open>The publishing channel\<close>

definition pc_msgs :: "pub_chan \<Rightarrow> nats_Msg list" where
  "pc_msgs pc = pc_waiting pc @ pc_queue pc @ pc_sent pc @ pc_failed pc"

lemma handlePubchan_msgs:
  assumes "handlePubchan_msg connect publish m (s, pc) = Done (s', pc')"
  shows "mset (pc_msgs pc') = add_mset m (mset (pc_msgs pc)) \<and> ns_config s' = ns_config s"
  using assms by (auto simp: handlePubchan_msg_def pc_msgs_def Let_def split: if_splits option.splits)

lemma pub_step_msgs:
  assumes "pub_step sp tp" "sp = (s, pc, acc)" "tp = (s', pc', acc')" "mset acc = mset (pc_msgs pc)"
    and "\<forall>m\<in>set acc. int (length (nm_Data m)) \<le> nc_MaxPayload (ns_config s)"
  shows "ns_config s' = ns_config s \<and> mset acc' = mset (pc_msgs pc') \<and>
    (\<forall>m\<in>set acc'. int (length (nm_Data m)) \<le> nc_MaxPayload (ns_config s))"
  using assms
proof (induction rule: pub_step.induct)
  case (handle pc0 m q s0 connect publish s1 pc1 acc0)
  then show ?case using handlePubchan_msgs [OF handle(3)] by (auto simp: pc_msgs_def)
qed (auto simp: Pub_def pc_msgs_def split: if_splits)

subsection \<open>Properties\<close>


text \<open>
  Starting of the dispatcher succeeds exactly when the server runs and the connection can be made; then
  there is one fetching goroutine for each durable whose consumer could be created, in order, and none of an
  earlier start, and the retry counters are empty.  After a failure no goroutine fetches.
\<close>

theorem StartDispatcher_exact:
  assumes "ns_reach (init_nats cfg) s" "StartDispatcher connect consumer options s = (s', r)"
  shows "(r = None \<longleftrightarrow> ns_server s \<noteq> None \<and> connect = None) \<and>
    (r = None \<longrightarrow> map snd (ns_fetchers s') = filter consumer options \<and> IsStartedDispatcher s' \<and>
       d_retries (ns_dispatcher s') = Map.empty) \<and>
    (r \<noteq> None \<longrightarrow> ns_fetchers s' = [] \<and> \<not> IsStartedDispatcher s')"
proof -
  have "ns_ok s" using assms(1) by (induction rule: ns_reach.induct) (auto intro: ns_ok_step)
  from StartDispatcher_spec [OF this assms(2)] show ?thesis by blast
qed

text \<open>
  When the connection to a server that was just created fails, the start reports the error but leaves
  the server registered: a later start reports success although no goroutine takes messages from the
  publishing channel, and stopping the server calls a nil function.
\<close>

theorem failed_connect_leaves_server:
  assumes "nc_ConfigFile config = []" "sv_NewServer env = Inr url" "sv_Connect env = Some err"
  shows "\<exists>s. StartServer env config (init_nats cfg) = (s, Some (LibError err)) \<and> IsStartedServer s \<and>
    StopServer s = Panic NilFunc \<and> (\<forall>env' config'. StartServer env' config' s = (s, None)) \<and> ns_publishers s = []"
  using assms by (simp add: StartServer_def init_nats_def IsStartedServer_def StopServer_def)

text \<open>
  The stream is defined with at most two calls.  A second call is made only for file storage, after the
  first was refused for lack of storage, and differs from it only in the size limit, which is then 5/8 of the
  free bytes (so below the 3/4 the server allows) and not above the configured one.
\<close>

theorem defineStream_retry_bound:
  assumes "defineStream env cfg = (r, calls)" "se_Free env = Some free" "uint free < 2 ^ 63"
    and "0 \<le> nc_StoreMaxBytes cfg" "nc_StoreMaxBytes cfg < 2 ^ 63"
  shows "length calls \<le> 2 \<and> (\<forall>c1 c2. calls = [c1, c2] \<longrightarrow>
    (\<exists>fn sc e. (fn = UpdateStream \<or> fn = CreateStream) \<and> c1 = fn sc \<and> se_Call env c1 = Some e \<and> isJSStorageErr e \<and>
       sc_Storage sc = FileStorage \<and> sc_MaxBytes sc = nc_StoreMaxBytes cfg \<and>
       c2 = fn (sc\<lparr>sc_MaxBytes := uint free div 8 * 5\<rparr>) \<and>
       uint free div 8 * 5 \<le> nc_StoreMaxBytes cfg \<and> r = se_Call env c2))"
proof -
  let ?sc = "\<lparr>sc_Storage = storage_type (nc_StoreType cfg), sc_MaxAge = nc_StoreMaxAge cfg,
    sc_MaxBytes = nc_StoreMaxBytes cfg, sc_MaxMsgs = nc_StoreMaxMsgs cfg\<rparr>"
  consider "calls = []" | fn where "fn = UpdateStream \<or> fn = CreateStream" "define_with env fn ?sc = (r, calls)"
    using assms(1) by (auto simp: defineStream_def Let_def split: option.splits sum.splits if_splits)
  then show ?thesis
  proof cases
    case (2 fn)
    have H: "length calls \<le> 2 \<and> (\<forall>c1 c2. calls = [c1, c2] \<longrightarrow>
      (\<exists>e. c1 = fn ?sc \<and> se_Call env c1 = Some e \<and> isJSStorageErr e \<and> sc_Storage ?sc = FileStorage \<and>
         c2 = fn (?sc\<lparr>sc_MaxBytes := uint free div 8 * 5\<rparr>) \<and> uint free div 8 * 5 \<le> sc_MaxBytes ?sc \<and> r = se_Call env c2))"
      by (rule define_with_calls [OF 2(2) assms(2,3)]) (use assms(4,5) in simp_all)
    show ?thesis
    proof (intro conjI allI impI)
      fix c1 c2
      assume "calls = [c1, c2]"
      then obtain e where "c1 = fn ?sc" "se_Call env c1 = Some e" "isJSStorageErr e" "sc_Storage ?sc = FileStorage"
          "c2 = fn (?sc\<lparr>sc_MaxBytes := uint free div 8 * 5\<rparr>)" "uint free div 8 * 5 \<le> sc_MaxBytes ?sc" "r = se_Call env c2"
        using H by blast
      then show "\<exists>fn sc e. (fn = UpdateStream \<or> fn = CreateStream) \<and> c1 = fn sc \<and> se_Call env c1 = Some e \<and> isJSStorageErr e \<and>
          sc_Storage sc = FileStorage \<and> sc_MaxBytes sc = nc_StoreMaxBytes cfg \<and>
          c2 = fn (sc\<lparr>sc_MaxBytes := uint free div 8 * 5\<rparr>) \<and>
          uint free div 8 * 5 \<le> nc_StoreMaxBytes cfg \<and> r = se_Call env c2"
        using 2(1) by (intro exI [of _ fn] exI [of _ ?sc] exI [of _ e]) simp
    qed (use H in blast)
  qed simp
qed

text \<open>
  C15. Publishing loses no message and none is published twice, however the goroutines of \<open>Pub\<close> and the
  publishing loop interleave: each message that \<open>Pub\<close> accepted is waiting, in the channel, given to the
  server, or was refused by it on the old and on a new connection; and \<open>Pub\<close> accepts none over the limit.
\<close>

theorem pub_conserves:
  assumes "pub_reach (s0, pc0, []) (s, pc, acc)"
    and "pc_waiting pc0 = []" "pc_queue pc0 = []" "pc_sent pc0 = []" "pc_failed pc0 = []"
  shows "mset acc = mset (pc_waiting pc) + mset (pc_queue pc) + mset (pc_sent pc) + mset (pc_failed pc) \<and>
    (\<forall>m\<in>set acc. int (length (nm_Data m)) \<le> nc_MaxPayload (ns_config s0))"
proof -
  have "ns_config s = ns_config s0 \<and> mset acc = mset (pc_msgs pc) \<and>
      (\<forall>m\<in>set acc. int (length (nm_Data m)) \<le> nc_MaxPayload (ns_config s0))"
    using assms(1)
  proof (induction "(s, pc, acc)" arbitrary: s pc acc rule: pub_reach.induct)
    case start
    then show ?case using assms(2-5) by (simp add: pc_msgs_def)
  next
    case (step sp)
    obtain s1 pc1 acc1 where sp: "sp = (s1, pc1, acc1)" by (cases sp) auto
    then show ?case using step(2) [OF sp] pub_step_msgs [OF step(3) sp refl] by simp
  qed
  then show ?thesis by (simp add: pc_msgs_def ac_simps)
qed

text \<open>
  Publishing does not keep the order of the calls: each \<open>Pub\<close> sends from a goroutine of its own, so of two
  messages that were accepted one after the other the second can be given to the server first.
\<close>

theorem pub_may_reorder:
  assumes "ns_publishers s \<noteq> []" "ns_ncPublisher s = Some nc"
    and "int (length (nm_Data m1)) \<le> nc_MaxPayload (ns_config s)" "int (length (nm_Data m2)) \<le> nc_MaxPayload (ns_config s)"
  shows "\<exists>pc. pub_reach (s, \<lparr>pc_waiting = [], pc_queue = [], pc_sent = [], pc_failed = []\<rparr>, []) (s, pc, [m1, m2]) \<and> pc_sent pc = [m2, m1]"
proof -
  let ?pc = "\<lambda>w q t. \<lparr>pc_waiting = w, pc_queue = q, pc_sent = t, pc_failed = []\<rparr>"
  let ?S = "\<lambda>w q t acc. (s, ?pc w q t, acc)"
  have pub: "pub_step (?S w [] [] acc) (?S (w @ [m]) [] [] (acc @ [m]))"
    if "int (length (nm_Data m)) \<le> nc_MaxPayload (ns_config s)" for m w acc
    using pub_step.pub [of s "nm_Subject m" "nm_Data m" "nm_Header m" "?pc w [] []" "?pc (w @ [m]) [] []" acc] that
    by (cases m) (simp add: Pub_def)
  have send: "pub_step (?S (w @ [m]) q [] acc) (?S w (q @ [m]) [] acc)" if "length q < 2000" for m w q acc
    using pub_step.send [of "?pc (w @ [m]) q []" w m "[]" s acc] that by simp
  have handle: "pub_step (?S [] (m # q) t acc) (?S [] q (t @ [m]) acc)" for m q t acc
    using pub_step.handle [of "?pc [] (m # q) t" m q s None "\<lambda>_ _. None" s "?pc [] q (t @ [m])" acc] assms(1,2)
    by (simp add: handlePubchan_msg_def)
  have "pub_reach (?S [] [] [] []) (?S [m1] [] [] [m1])"
    using pub_reach.step [OF pub_reach.start pub [of m1 "[]" "[]"]] assms(3) by simp
  then have "pub_reach (?S [] [] [] []) (?S [m1, m2] [] [] [m1, m2])"
    using pub_reach.step [OF _ pub [of m2 "[m1]" "[m1]"]] assms(4) by simp
  then have "pub_reach (?S [] [] [] []) (?S [m1] [m2] [] [m1, m2])"
    using pub_reach.step [OF _ send [of "[]" "[m1]" m2 "[m1, m2]"]] by simp
  then have "pub_reach (?S [] [] [] []) (?S [] [m2, m1] [] [m1, m2])"
    using pub_reach.step [OF _ send [of "[m2]" "[]" m1 "[m1, m2]"]] by simp
  then have "pub_reach (?S [] [] [] []) (?S [] [] [m2, m1] [m1, m2])"
    using pub_reach.step [OF pub_reach.step [OF _ handle [of m2 "[m1]" "[]" "[m1, m2]"]] handle [of m1 "[]" "[] @ [m2]" "[m1, m2]"]] by simp
  then show ?thesis by (intro exI [of _ "?pc [] [] [m2, m1]"] conjI) auto
qed

subsection \<open>Concrete runs\<close>

definition demo_config :: NatsConfig where
  "demo_config = \<lparr>nc_AckWait = 30, nc_MaxPayload = 8, nc_MonitorPort = 0, nc_StoreDir = ''natsstore'', nc_StoreType = ''FILE'',
     nc_StoreMaxAge = 10, nc_StoreMaxBytes = 53687091200, nc_StoreMaxMsgs = 1000000, nc_ConfigFile = ''''\<rparr>"

text \<open>A disk with 8 MiB left refuses the configured 50 GiB for lack of storage and accepts less.\<close>

definition demo_stream_env :: stream_env where
  "demo_stream_env = \<lparr>se_New = None, se_Stream = Some ErrStreamNotFound, se_Info = Inl ErrStreamNotFound,
     se_Call = (\<lambda>c. case c of CreateStream sc \<Rightarrow> if sc_MaxBytes sc > 8388608 then Some (APIError 10047) else None
                            | UpdateStream sc \<Rightarrow> Some ErrStreamNotFound),
     se_Free = Some 8388608\<rparr>"

definition demo_server_env :: "error option \<Rightarrow> server_env" where
  "demo_server_env c = \<lparr>sv_Open = True, sv_ProcessConfigFile = None, sv_NewServer = Inr ''nats://127.0.0.1:4222'',
     sv_Connect = c, sv_stream = demo_stream_env\<rparr>"

definition demo_stream_config :: "int \<Rightarrow> StreamConfig" where
  "demo_stream_config n = \<lparr>sc_Storage = FileStorage, sc_MaxAge = 10, sc_MaxBytes = n, sc_MaxMsgs = 1000000\<rparr>"

lemma demo_defineStream: "defineStream demo_stream_env demo_config =
    (None, [CreateStream (demo_stream_config 53687091200), CreateStream (demo_stream_config 5242880)])"
  by code_simp

theorem defineStream_retry_bound_witness:
  "length [CreateStream (demo_stream_config 53687091200), CreateStream (demo_stream_config 5242880)] \<le> 2"
proof -
  have f: "se_Free demo_stream_env = Some 8388608" by (simp add: demo_stream_env_def)
  have b: "uint (8388608 :: 64 word) < 2 ^ 63" by simp
  have c: "0 \<le> nc_StoreMaxBytes demo_config" "nc_StoreMaxBytes demo_config < 2 ^ 63" by (simp_all add: demo_config_def)
  show ?thesis using defineStream_retry_bound [OF demo_defineStream f b c] by blast
qed

definition demo_started :: nats_state where
  "demo_started = fst (StartServer (demo_server_env None) demo_config (init_nats demo_config))"

lemma demo_started_reach: "ns_reach (init_nats demo_config) demo_started"
  unfolding demo_started_def
  by (rule ns_reach.step [OF ns_reach.start ns_step.intros(1)]) (rule prod.collapse [symmetric])


definition demo_dispatching :: nats_state where
  "demo_dispatching = fst (StartDispatcher None (\<lambda>_. True) [''gw1'', ''gw2''] demo_started)"

lemma demo_dispatching_eq: "StartDispatcher None (\<lambda>_. True) [''gw1'', ''gw2''] demo_started = (demo_dispatching, None)"
proof -
  have "snd (StartDispatcher None (\<lambda>_. True) [''gw1'', ''gw2''] demo_started) = None" by code_simp
  then show ?thesis unfolding demo_dispatching_def by (metis prod.collapse)
qed

theorem StartDispatcher_exact_witness: "map snd (ns_fetchers demo_dispatching) = [''gw1'', ''gw2'']"
  using StartDispatcher_exact [OF demo_started_reach demo_dispatching_eq] by simp

theorem failed_connect_leaves_server_witness:
  "\<exists>s. StartServer (demo_server_env (Some (Other ''refused''))) demo_config (init_nats demo_config) = (s, Some (LibError (Other ''refused''))) \<and>
     IsStartedServer s \<and> StopServer s = Panic NilFunc \<and> (\<forall>env' config'. StartServer env' config' s = (s, None)) \<and> ns_publishers s = []"
  by (rule failed_connect_leaves_server) (simp_all add: demo_config_def demo_server_env_def)

definition demo_pc :: pub_chan where
  "demo_pc = \<lparr>pc_waiting = [], pc_queue = [], pc_sent = [], pc_failed = []\<rparr>"

definition demo_nm :: nats_Msg where
  "demo_nm = \<lparr>nm_Subject = ''tcg.x'', nm_Data = ''abc'', nm_Header = Map.empty\<rparr>"

lemma demo_pub_reach: "pub_reach (demo_started, demo_pc, []) (demo_started, demo_pc\<lparr>pc_queue := [demo_nm]\<rparr>, [demo_nm])"
proof -
  have cfg: "ns_config demo_started = demo_config" by code_simp
  have 1: "pub_step (demo_started, demo_pc, []) (demo_started, demo_pc\<lparr>pc_waiting := [demo_nm]\<rparr>, [] @ [demo_nm])"
    unfolding demo_nm_def by (rule pub_step.pub) (simp add: Pub_def cfg demo_config_def demo_pc_def)
  have 2: "pub_step (demo_started, demo_pc\<lparr>pc_waiting := [demo_nm]\<rparr>, [] @ [demo_nm])
      (demo_started, (demo_pc\<lparr>pc_waiting := [demo_nm]\<rparr>)\<lparr>pc_waiting := [] @ [], pc_queue := pc_queue (demo_pc\<lparr>pc_waiting := [demo_nm]\<rparr>) @ [demo_nm]\<rparr>, [] @ [demo_nm])"
    by (rule pub_step.send) (simp_all add: demo_pc_def)
  show ?thesis using pub_reach.step [OF pub_reach.step [OF pub_reach.start 1] 2] by (simp add: demo_pc_def)
qed

theorem pub_conserves_witness:
  "mset [demo_nm] = mset (pc_waiting (demo_pc\<lparr>pc_queue := [demo_nm]\<rparr>)) + mset (pc_queue (demo_pc\<lparr>pc_queue := [demo_nm]\<rparr>)) +
     mset (pc_sent (demo_pc\<lparr>pc_queue := [demo_nm]\<rparr>)) + mset (pc_failed (demo_pc\<lparr>pc_queue := [demo_nm]\<rparr>))"
  using pub_conserves [OF demo_pub_reach] by (simp add: demo_pc_def)

theorem pub_may_reorder_witness:
  "\<exists>pc. pub_reach (demo_started, demo_pc, []) (demo_started, pc, [demo_nm, demo_nm\<lparr>nm_Data := ''late''\<rparr>]) \<and>
     pc_sent pc = [demo_nm\<lparr>nm_Data := ''late''\<rparr>, demo_nm]"
proof -
  have 1: "ns_config demo_started = demo_config" by code_simp
  have 2: "ns_publishers demo_started \<noteq> []" by code_simp
  have 3: "ns_ncPublisher demo_started \<noteq> None" by code_simp
  then obtain nc where "ns_ncPublisher demo_started = Some nc" by blast
  from pub_may_reorder [OF 2 this, of demo_nm "demo_nm\<lparr>nm_Data := ''late''\<rparr>"] show ?thesis
    by (simp add: 1 demo_nm_def demo_config_def demo_pc_def)
qed

end
