(* ===== verification/Nats_Payload.thy ===== *)
theory Nats_Payload
  imports Go_Prelude
begin

text \<open>
  The wrapped payloads of \<^verbatim>\<open>services/services.go\<close> (lines 247 to 419): the payload types and the two wire
  formats of \<open>natsPayload\<close>.  The JSON decoding of the inner object of format 2 is the parameter \<open>um2\<close>;
  what is used of \<open>encoding/json\<close> is \<open>json_v2\<close> below.  The errors of the two hex decodings and of the
  JSON decoding are told apart only by their kind.
\<close>

subsection \<open>Payload types\<close>

type_synonym payloadType = "8 word"

definition typeEvents :: payloadType where "typeEvents = 1"
definition typeEventsAck :: payloadType where "typeEventsAck = 2"
definition typeEventsUnack :: payloadType where "typeEventsUnack = 3"
definition typeInventory :: payloadType where "typeInventory = 4"
definition typeMetrics :: payloadType where "typeMetrics = 5"
definition typeClearInDowntime :: payloadType where "typeClearInDowntime = 6"
definition typeSetInDowntime :: payloadType where "typeSetInDowntime = 7"

definition payloadType_all :: "bytes list" where
  "payloadType_all =
     [''undefined'', ''events'', ''eventsAck'', ''eventsUnack'', ''inventory'', ''metrics'',
      ''clearInDowntime'', ''setInDowntime'']"

definition payloadType_String :: "payloadType \<Rightarrow> bytes exec" where
  "payloadType_String t =
     (if unat t < length payloadType_all then Done (payloadType_all ! unat t) else Panic IndexOutOfRange)"

fun FromStr_loop :: "nat \<Rightarrow> bytes list \<Rightarrow> bytes \<Rightarrow> payloadType option" where
  "FromStr_loop i [] s = None"
| "FromStr_loop i (v # vs) s = (if s = v then Some (of_nat i) else FromStr_loop (Suc i) vs s)"

definition FromStr :: "bytes \<Rightarrow> payloadType option" where
  "FromStr s = FromStr_loop 0 payloadType_all s"

subsection \<open>The payload and its formats\<close>

record SpanContext =
  sc_SpanID :: bytes
  sc_TraceID :: bytes
  sc_TraceFlags :: "8 word"

record natsPayload =
  np_SpanContext :: SpanContext
  np_Payload :: bytes
  np_Type :: payloadType

definition zero_SpanContext :: SpanContext where
  "zero_SpanContext = \<lparr>sc_SpanID = replicate 8 (char_of (0::nat)), sc_TraceID = replicate 16 (char_of (0::nat)), sc_TraceFlags = 0\<rparr>"

definition zero_natsPayload :: natsPayload where
  "zero_natsPayload = \<lparr>np_SpanContext = zero_SpanContext, np_Payload = [], np_Type = 0\<rparr>"

datatype payload_err = EOF | UnknownFormat | BadJSON | BadHex | UnknownType

definition byte_char :: "8 word \<Rightarrow> char" where
  "byte_char w = char_of (unat w)"

definition char_byte :: "char \<Rightarrow> 8 word" where
  "char_byte c = of_nat (of_char c)"

definition marshalV1 :: "natsPayload \<Rightarrow> bytes" where
  "marshalV1 p =
     [byte_char (np_Type p)] @ sc_SpanID (np_SpanContext p) @ sc_TraceID (np_SpanContext p) @
     [byte_char (sc_TraceFlags (np_SpanContext p))] @ np_Payload p"

text \<open>
  \<open>bytes.Buffer\<close>: \<open>Next\<close> returns at most the requested bytes; \<open>Read\<close> into an array fails only when the
  buffer is empty, and otherwise overwrites as many elements as there are bytes.
\<close>

definition buf_Read :: "bytes \<Rightarrow> nat \<Rightarrow> (bytes \<times> bytes) option" where
  "buf_Read b n = (if b = [] then None else Some (go_copy (replicate n (char_of (0::nat))) b, drop n b))"

definition buf_Next1 :: "bytes \<Rightarrow> (char \<times> bytes) exec" where
  "buf_Next1 b = (case b of [] \<Rightarrow> Panic IndexOutOfRange | c # r \<Rightarrow> Done (c, r))"

definition unmarshalV1 :: "natsPayload \<Rightarrow> bytes \<Rightarrow> (natsPayload \<times> payload_err option) exec" where
  "unmarshalV1 p input =
     bind_exec (buf_Next1 input) (\<lambda>(t, b0).
       let p1 = p\<lparr>np_Type := char_byte t\<rparr> in
       case buf_Read b0 8 of
         None \<Rightarrow> Done (p1, Some EOF)
       | Some (spanID, b1) \<Rightarrow>
           (case buf_Read b1 16 of
              None \<Rightarrow> Done (p1, Some EOF)
            | Some (traceID, b2) \<Rightarrow>
                bind_exec (buf_Next1 b2) (\<lambda>(fl, b3).
                  Done (p1\<lparr>np_Payload := b3,
                           np_SpanContext := \<lparr>sc_SpanID = spanID, sc_TraceID = traceID, sc_TraceFlags = char_byte fl\<rparr>\<rparr>,
                        None))))"

record natsPayload2 =
  p2_Type :: bytes
  p2_Payload :: bytes
  p2_SpanID :: bytes
  p2_TraceID :: bytes
  p2_TraceFlags :: "8 word"

text \<open>A double quote, for the JSON literals.\<close>

abbreviation quote :: bytes where "quote \<equiv> [CHR 0x22]"

definition v2_prefix :: bytes where
  "v2_prefix = ''{'' @ quote @ ''v2'' @ quote @ '':''"

text \<open>The text of the inner object, as \<open>marshalV2\<close> writes it.\<close>

definition v2_object :: "natsPayload2 \<Rightarrow> bytes" where
  "v2_object p2 =
     ''{'' @ quote @ ''type'' @ quote @ '':'' @ quote @ p2_Type p2 @ quote @ '','' @ quote @ ''payload'' @ quote @ '':'' @
     p2_Payload p2 @ '','' @ quote @ ''spanID'' @ quote @ '':'' @ quote @ p2_SpanID p2 @ quote @ '','' @
     quote @ ''traceID'' @ quote @ '':'' @ quote @ p2_TraceID p2 @ quote @ '','' @
     quote @ ''traceFlags'' @ quote @ '':'' @ format_nat (unat (p2_TraceFlags p2)) @ ''}''"

definition marshalV2 :: "natsPayload \<Rightarrow> bytes exec" where
  "marshalV2 p =
     bind_exec (payloadType_String (np_Type p)) (\<lambda>t.
       Done (v2_prefix @
         v2_object \<lparr>p2_Type = t, p2_Payload = np_Payload p, p2_SpanID = EncodeToString (sc_SpanID (np_SpanContext p)),
           p2_TraceID = EncodeToString (sc_TraceID (np_SpanContext p)), p2_TraceFlags = sc_TraceFlags (np_SpanContext p)\<rparr> @
         ''}''))"

definition unmarshalV2 :: "(bytes \<Rightarrow> natsPayload2 option) \<Rightarrow> natsPayload \<Rightarrow> bytes \<Rightarrow> (natsPayload \<times> payload_err option) exec" where
  "unmarshalV2 um2 p input =
     (if length input < 7 then Panic SliceBounds
      else case um2 (butlast (drop 6 input)) of
        None \<Rightarrow> Done (p, Some BadJSON)
      | Some p2 \<Rightarrow>
          (case DecodeString (p2_SpanID p2) of
             None \<Rightarrow> Done (p, Some BadHex)
           | Some v \<Rightarrow>
               (case DecodeString (p2_TraceID p2) of
                  None \<Rightarrow> Done (p, Some BadHex)
                | Some w \<Rightarrow>
                    (case FromStr (p2_Type p2) of
                       None \<Rightarrow> Done (p, Some UnknownType)
                     | Some pt \<Rightarrow>
                         Done (\<lparr>np_SpanContext =
                                  \<lparr>sc_SpanID = go_copy (replicate 8 (char_of (0::nat))) v,
                                   sc_TraceID = go_copy (replicate 16 (char_of (0::nat))) w,
                                   sc_TraceFlags = p2_TraceFlags p2\<rparr>,
                                np_Payload = p2_Payload p2, np_Type = pt\<rparr>, None)))))"

definition natsPayload_Marshal :: "natsPayload \<Rightarrow> bytes exec" where
  "natsPayload_Marshal p = marshalV2 p"

definition natsPayload_Unmarshal :: "(bytes \<Rightarrow> natsPayload2 option) \<Rightarrow> natsPayload \<Rightarrow> bytes \<Rightarrow> (natsPayload \<times> payload_err option) exec" where
  "natsPayload_Unmarshal um2 p input =
     (case input of
        [] \<Rightarrow> Done (p, None)
      | c # _ \<Rightarrow>
          (if char_byte c < 8 then unmarshalV1 p input
           else if HasPrefix input v2_prefix then unmarshalV2 um2 p input
           else Done (p, Some UnknownFormat)))"

subsection \<open>What is used of encoding/json\<close>

text \<open>
  A JSON string literal without quote, backslash or control byte denotes its own bytes.  Decoding of an
  object with the five members into \<open>natsPayload2\<close> gives the members; a \<open>json.RawMessage\<close> receives the
  text of the value as it is.  \<open>valid\<close> holds of the texts that are a JSON value with no space around it.
\<close>

definition plain :: "bytes \<Rightarrow> bool" where
  "plain s \<longleftrightarrow> (\<forall>c\<in>set s. 32 \<le> (of_char c :: nat) \<and> (of_char c :: nat) < 128 \<and> c \<noteq> CHR 0x22 \<and> c \<noteq> CHR 0x5C)"

definition json_v2 :: "(bytes \<Rightarrow> bool) \<Rightarrow> (bytes \<Rightarrow> natsPayload2 option) \<Rightarrow> bool" where
  "json_v2 valid um2 \<longleftrightarrow>
     (\<forall>p2. plain (p2_Type p2) \<and> valid (p2_Payload p2) \<and> plain (p2_SpanID p2) \<and> plain (p2_TraceID p2) \<longrightarrow>
        um2 (v2_object p2) = Some p2)"

subsection \<open>Lemmas\<close>

lemma char_byte_byte_char [simp]: "char_byte (byte_char w) = w"
proof -
  have "unat w < 256" using unsigned_less [of w] by simp
  then show ?thesis by (simp add: char_byte_def byte_char_def of_char_of)
qed

lemma char_byte_less: "char_byte c < 8 \<longleftrightarrow> (of_char c :: nat) < 8"
proof -
  have "(of_char c :: nat) < 2 ^ LENGTH(8)" using of_char_less [of c] by simp
  then have "unat (char_byte c) = of_char c" unfolding char_byte_def by (simp add: unat_of_nat take_bit_eq_mod)
  then show ?thesis by (simp add: word_less_nat_alt)
qed

lemma length_payloadType_all [simp]: "length payloadType_all = 8"
  by (simp add: payloadType_all_def)

lemma distinct_payloadType_all: "distinct payloadType_all"
  by (simp add: payloadType_all_def)

lemma FromStr_loop_nth:
  "distinct vs \<Longrightarrow> k < length vs \<Longrightarrow> FromStr_loop i vs (vs ! k) = Some (of_nat (i + k))"
proof (induction vs arbitrary: i k)
  case (Cons v vs)
  then show ?case
  proof (cases k)
    case (Suc j)
    then have "vs ! j \<noteq> v" using Cons.prems by (metis distinct.simps(2) length_Cons not_less_eq nth_mem)
    then show ?thesis using Cons.IH [of j "Suc i"] Cons.prems Suc by simp
  qed simp
qed simp

lemma FromStr_String: "payloadType_String t = Done s \<Longrightarrow> FromStr s = Some t"
  using FromStr_loop_nth [OF distinct_payloadType_all, of "unat t" 0]
  by (auto simp: payloadType_String_def FromStr_def split: if_splits)

lemma payloadType_String_Done_iff: "(\<exists>s. payloadType_String t = Done s) \<longleftrightarrow> t < 8"
  by (auto simp: payloadType_String_def word_less_nat_alt split: if_splits)

lemma plain_hex_digit: "n < 16 \<Longrightarrow> plain [hex_digit n]"
  by (auto simp: plain_def hex_digit_def of_char_of split: if_splits dest: arg_cong [of _ _ "of_char :: char \<Rightarrow> nat"])

lemma plain_append [simp]: "plain (s @ t) \<longleftrightarrow> plain s \<and> plain t"
  by (auto simp: plain_def)

lemma plain_Cons: "plain (c # s) \<longleftrightarrow> plain [c] \<and> plain s"
  by (auto simp: plain_def)

lemma plain_EncodeToString: "plain (EncodeToString s)"
proof (induction s)
  case (Cons c s)
  have "(of_char c :: nat) div 16 < 16" using of_char_less [of c] by (simp add: less_mult_imp_div_less)
  then show ?case
    using Cons plain_hex_digit by (simp add: Let_def plain_Cons [of _ "_ # _"] plain_Cons [of _ "EncodeToString s"])
qed (simp add: plain_def)

lemma plain_payloadType: "s \<in> set payloadType_all \<Longrightarrow> plain s"
  by (auto simp: payloadType_all_def plain_def)

lemma buf_Next1_Cons [simp]: "buf_Next1 (c # r) = Done (c, r)" "buf_Next1 [] = Panic IndexOutOfRange"
  by (simp_all add: buf_Next1_def)

lemma buf_Read_exact: "length s = n \<Longrightarrow> 0 < n \<Longrightarrow> buf_Read (s @ r) n = Some (s, r)"
  by (auto simp: buf_Read_def go_copy_def)

lemma buf_Read_short: "b \<noteq> [] \<Longrightarrow> length b \<le> n \<Longrightarrow> \<exists>v. buf_Read b n = Some (v, [])"
  by (simp add: buf_Read_def)

lemma butlast_v2: "butlast (drop 6 (v2_prefix @ s @ ''}'')) = s"
  by (simp add: v2_prefix_def butlast_append)

definition sized :: "natsPayload \<Rightarrow> bool" where
  "sized p \<longleftrightarrow> length (sc_SpanID (np_SpanContext p)) = 8 \<and> length (sc_TraceID (np_SpanContext p)) = 16"

lemma unmarshalV1_marshalV1: "sized p \<Longrightarrow> unmarshalV1 q (marshalV1 p) = Done (p, None)"
  by (simp add: marshalV1_def unmarshalV1_def sized_def buf_Read_exact)

lemma unmarshalV2_marshalV2:
  assumes "json_v2 valid um2" "sized p" "np_Type p < 8" "valid (np_Payload p)"
  shows "\<exists>w. marshalV2 p = Done (v2_prefix @ w) \<and> unmarshalV2 um2 q (v2_prefix @ w) = Done (p, None)"
proof -
  obtain t where t: "payloadType_String (np_Type p) = Done t" using assms(3) payloadType_String_Done_iff by blast
  then have "t \<in> set payloadType_all" by (auto simp: payloadType_String_def split: if_splits)
  then have pt: "plain t" by (rule plain_payloadType)
  define p2 where "p2 = \<lparr>p2_Type = t, p2_Payload = np_Payload p, p2_SpanID = EncodeToString (sc_SpanID (np_SpanContext p)),
      p2_TraceID = EncodeToString (sc_TraceID (np_SpanContext p)), p2_TraceFlags = sc_TraceFlags (np_SpanContext p)\<rparr>"
  have um: "um2 (v2_object p2) = Some p2"
    using assms(1,4) pt plain_EncodeToString unfolding json_v2_def by (simp add: p2_def)
  have m: "marshalV2 p = Done (v2_prefix @ v2_object p2 @ ''}'')" using t by (simp add: marshalV2_def p2_def)
  have "\<not> length (v2_prefix @ v2_object p2 @ ''}'') < 7" by (simp add: v2_prefix_def)
  then have "unmarshalV2 um2 q (v2_prefix @ v2_object p2 @ ''}'') = Done (p, None)"
    using assms(2) FromStr_String [OF t] unfolding unmarshalV2_def butlast_v2 um by (simp add: p2_def sized_def)
  then show ?thesis using m by blast
qed

subsection \<open>Properties\<close>

text \<open>
  C34. A payload that is marshalled (format 2) and read back by the version-dispatching \<open>Unmarshal\<close> is the
  payload that was marshalled: type, span, trace, flags and body.
\<close>

theorem natsPayload_roundtrip:
  assumes "json_v2 valid um2" "sized p" "np_Type p < 8" "valid (np_Payload p)"
  shows "\<exists>w. natsPayload_Marshal p = Done w \<and> natsPayload_Unmarshal um2 q w = Done (p, None)"
proof -
  obtain w where "marshalV2 p = Done (v2_prefix @ w)" "unmarshalV2 um2 q (v2_prefix @ w) = Done (p, None)"
    using unmarshalV2_marshalV2 [OF assms] by blast
  then show ?thesis
    by (intro exI [of _ "v2_prefix @ w"])
      (simp add: natsPayload_Marshal_def natsPayload_Unmarshal_def v2_prefix_def char_byte_less HasPrefix_def)
qed

text \<open>
  The legacy binary format is still read: what \<open>marshalV1\<close> writes for a known type is recognised by its
  first byte and decoded to the same payload.
\<close>

theorem natsPayload_legacy_roundtrip:
  assumes "sized p" "np_Type p < 8"
  shows "natsPayload_Unmarshal um2 q (marshalV1 p) = Done (p, None)"
  using unmarshalV1_marshalV1 [OF assms(1)] assms(2)
  by (simp add: natsPayload_Unmarshal_def marshalV1_def)

text \<open>
  Reading of a payload can panic on short input: a text whose first byte is below 8 and that is 10 to 25
  bytes long (the flags byte is taken from an empty buffer), and the bare prefix of format 2.
\<close>

theorem natsPayload_Unmarshal_panics:
  "(\<forall>c rest. (of_char c :: nat) < 8 \<and> 9 \<le> length rest \<and> length rest \<le> 24 \<longrightarrow>
      natsPayload_Unmarshal um2 q (c # rest) = Panic IndexOutOfRange) \<and>
   natsPayload_Unmarshal um2 q v2_prefix = Panic SliceBounds"
proof (intro conjI allI impI)
  fix c :: char and rest :: bytes
  assume a: "(of_char c :: nat) < 8 \<and> 9 \<le> length rest \<and> length rest \<le> 24"
  have r1: "buf_Read rest 8 = Some (take 8 rest, drop 8 rest)"
    using a buf_Read_exact [of "take 8 rest" 8 "drop 8 rest"] by simp
  have l: "length rest - 8 \<le> 16" using a by linarith
  obtain v where "buf_Read (drop 8 rest) 16 = Some (v, [])"
    using a buf_Read_short [of "drop 8 rest" 16] l by auto
  then show "natsPayload_Unmarshal um2 q (c # rest) = Panic IndexOutOfRange"
    using a r1 by (simp add: natsPayload_Unmarshal_def char_byte_less unmarshalV1_def)
qed (simp add: natsPayload_Unmarshal_def v2_prefix_def char_byte_less HasPrefix_def unmarshalV2_def)

subsection \<open>A concrete decoder\<close>

text \<open>
  A decoder for the texts of \<open>v2_object\<close> whose payload is the empty object: it cuts the members out
  between the fixed parts.
\<close>

definition until_quote :: "bytes \<Rightarrow> bytes \<times> bytes" where
  "until_quote s = (let t = takeWhile (\<lambda>c. c \<noteq> CHR 0x22) s in (t, drop (length t) s))"

definition demo_um2 :: "bytes \<Rightarrow> natsPayload2 option" where
  "demo_um2 s =
     (case until_quote (drop 9 s) of (t, r1) \<Rightarrow>
      case until_quote (drop 25 r1) of (sp, r2) \<Rightarrow>
      case until_quote (drop 13 r2) of (tr, r3) \<Rightarrow>
        map_option (\<lambda>n. \<lparr>p2_Type = t, p2_Payload = ''{}'', p2_SpanID = sp, p2_TraceID = tr, p2_TraceFlags = of_nat n\<rparr>)
           (parse_nat (butlast (drop 15 r3))))"

lemma until_quote_plain: "plain s \<Longrightarrow> until_quote (s @ CHR 0x22 # r) = (s, CHR 0x22 # r)"
proof -
  assume "plain s"
  then have "takeWhile (\<lambda>c. c \<noteq> CHR 0x22) (s @ CHR 0x22 # r) = s"
    by (subst takeWhile_append2) (auto simp: plain_def)
  then show ?thesis by (simp add: until_quote_def)
qed

lemma demo_json_v2: "json_v2 (\<lambda>s. s = ''{}'') demo_um2"
proof -
  have "demo_um2 (v2_object p2) = Some p2"
    if p: "plain (p2_Type p2)" "p2_Payload p2 = ''{}''" "plain (p2_SpanID p2)" "plain (p2_TraceID p2)" for p2 :: natsPayload2
    using p by (simp add: demo_um2_def v2_object_def until_quote_plain butlast_append)
  then show ?thesis by (simp add: json_v2_def)
qed

definition demo_payload :: natsPayload where
  "demo_payload = \<lparr>np_SpanContext = \<lparr>sc_SpanID = ''abcdefgh'', sc_TraceID = ''0123456789abcdef'', sc_TraceFlags = 1\<rparr>,
     np_Payload = ''{}'', np_Type = typeMetrics\<rparr>"

theorem natsPayload_roundtrip_witness:
  "\<exists>w. natsPayload_Marshal demo_payload = Done w \<and> natsPayload_Unmarshal demo_um2 zero_natsPayload w = Done (demo_payload, None)"
  by (rule natsPayload_roundtrip [OF demo_json_v2]) (simp_all add: demo_payload_def sized_def typeMetrics_def)

theorem natsPayload_legacy_roundtrip_witness:
  "natsPayload_Unmarshal demo_um2 zero_natsPayload (marshalV1 demo_payload) = Done (demo_payload, None)"
  by (rule natsPayload_legacy_roundtrip) (simp_all add: demo_payload_def sized_def typeMetrics_def)

theorem natsPayload_Unmarshal_panics_witness:
  "natsPayload_Unmarshal demo_um2 zero_natsPayload (CHR 0x05 # ''123456789'') = Panic IndexOutOfRange"
  using natsPayload_Unmarshal_panics [of demo_um2 zero_natsPayload] by simp

end
