(* ===== verification/Batcher.thy ===== *)
theory Batcher
  imports Go_Prelude
begin

text \<open>
  The buffered batcher of \<^verbatim>\<open>batcher/batcher.go\<close>.  Payloads are collected under a lock, taken out as a
  whole (on a tick, on exit, on reset or when the buffer is over its soft limit), combined by a
  \<open>BatchBuilder\<close> and handed one by one to the batch handler.  A handler maps the state behind it and a
  payload to the new state and tells whether it failed; failures are only logged.

  Tracing, logging and the exported time of the last batch do not influence the payloads and are left
  out.  The interface \<open>BatchBuilder\<close> is the locale \<open>batch_builder\<close>: what is proved there of the batcher
  holds for each builder of the program.
\<close>

subsection \<open>State\<close>

record Batcher =
  bt_buf :: "bytes list"
  bt_bufSize :: int
  bt_maxBytes :: int
  bt_period :: duration
  bt_tickerExit :: nat \<comment> \<open>values in the exit channel, whose capacity is 1\<close>

type_synonym 's BatchHandler = "'s \<Rightarrow> bytes \<Rightarrow> 's \<times> bool"
type_synonym BatchBuild = "bytes list \<Rightarrow> int \<Rightarrow> bytes list exec"

text \<open>\<open>time.NewTicker\<close> and \<open>Ticker.Reset\<close> panic on a period that is not positive.\<close>

definition ticker_period :: "duration \<Rightarrow> duration exec" where
  "ticker_period d =
     (let d' = (if d = 0 then MaxInt64 else d)
      in if d' \<le> 0 then Panic NonPositiveInterval else Done d')"

definition NewBatcher :: "duration \<Rightarrow> int \<Rightarrow> Batcher exec" where
  "NewBatcher d maxBytes =
     bind_exec (ticker_period d) (\<lambda>d'.
       Done \<lparr>bt_buf = [], bt_bufSize = 0, bt_maxBytes = maxBytes, bt_period = d', bt_tickerExit = 0\<rparr>)"

subsection \<open>Operations\<close>

definition Add_locked :: "Batcher \<Rightarrow> bytes \<Rightarrow> Batcher" where
  "Add_locked bt p = bt\<lparr>bt_buf := bt_buf bt @ [p], bt_bufSize := bt_bufSize bt + int (length p)\<rparr>"

definition Batch_swap :: "Batcher \<Rightarrow> Batcher \<times> bytes list" where
  "Batch_swap bt = (bt\<lparr>bt_buf := [], bt_bufSize := 0\<rparr>, bt_buf bt)"

text \<open>The loop over the built payloads: empty ones are skipped, errors are counted and logged.\<close>

fun deliver :: "'s BatchHandler \<Rightarrow> 's \<Rightarrow> bytes list \<Rightarrow> 's" where
  "deliver h st [] = st"
| "deliver h st (p # ps) = deliver h (if length p > 0 then fst (h st p) else st) ps"

definition Batch_process :: "BatchBuild \<Rightarrow> 's BatchHandler \<Rightarrow> int \<Rightarrow> bytes list \<Rightarrow> 's \<Rightarrow> 's exec" where
  "Batch_process build h maxBytes buf st =
     (if length buf > 0 then bind_exec (build buf maxBytes) (\<lambda>out. Done (deliver h st out)) else Done st)"

definition Batch :: "BatchBuild \<Rightarrow> 's BatchHandler \<Rightarrow> Batcher \<Rightarrow> 's \<Rightarrow> (Batcher \<times> 's) exec" where
  "Batch build h bt st =
     (case Batch_swap bt of (bt', buf) \<Rightarrow>
        bind_exec (Batch_process build h (bt_maxBytes bt') buf st) (\<lambda>st'. Done (bt', st')))"

definition Add :: "BatchBuild \<Rightarrow> 's BatchHandler \<Rightarrow> Batcher \<Rightarrow> 's \<Rightarrow> bytes \<Rightarrow> (Batcher \<times> 's) exec" where
  "Add build h bt st p =
     (let bt' = Add_locked bt p
      in if bt_bufSize bt' > bt_maxBytes bt' then Batch build h bt' st else Done (bt', st))"

definition Clear :: "Batcher \<Rightarrow> Batcher" where
  "Clear bt = bt\<lparr>bt_buf := [], bt_bufSize := 0\<rparr>"

definition Reset :: "BatchBuild \<Rightarrow> 's BatchHandler \<Rightarrow> Batcher \<Rightarrow> 's \<Rightarrow> duration \<Rightarrow> int \<Rightarrow> (Batcher \<times> 's) exec" where
  "Reset build h bt st d maxBytes =
     bind_exec (Batch build h bt st) (\<lambda>(bt1, st1).
     bind_exec (ticker_period d) (\<lambda>d'.
       Done (bt1\<lparr>bt_maxBytes := maxBytes, bt_period := d'\<rparr>, st1)))"

text \<open>\<open>Exit\<close> sends on a channel of capacity 1: \<open>None\<close> when the send blocks.\<close>

definition Exit :: "Batcher \<Rightarrow> Batcher option" where
  "Exit bt = (if bt_tickerExit bt < 1 then Some (bt\<lparr>bt_tickerExit := bt_tickerExit bt + 1\<rparr>) else None)"

text \<open>
  One turn of the ticker goroutine: a tick batches; an exit signal batches and ends the goroutine (the
  boolean of the result).
\<close>

definition on_tick :: "BatchBuild \<Rightarrow> 's BatchHandler \<Rightarrow> Batcher \<Rightarrow> 's \<Rightarrow> (Batcher \<times> 's) exec" where
  "on_tick build h bt st = Batch build h bt st"

definition on_exit :: "BatchBuild \<Rightarrow> 's BatchHandler \<Rightarrow> Batcher \<Rightarrow> 's \<Rightarrow> (Batcher \<times> 's) exec" where
  "on_exit build h bt st = Batch build h (bt\<lparr>bt_tickerExit := bt_tickerExit bt - 1\<rparr>) st"

subsection \<open>The invariant\<close>

definition bt_ok :: "Batcher \<Rightarrow> bool" where
  "bt_ok bt \<longleftrightarrow> bt_bufSize bt = int (sum_list (map length (bt_buf bt)))"

lemma bt_ok_Add_locked [simp]: "bt_ok bt \<Longrightarrow> bt_ok (Add_locked bt p)"
  by (simp add: bt_ok_def Add_locked_def)

lemma bt_ok_empty [simp]: "bt_buf bt = [] \<Longrightarrow> bt_bufSize bt = 0 \<Longrightarrow> bt_ok bt"
  by (simp add: bt_ok_def)

lemma Batch_Done:
  "Batch build h bt st = Done (bt', st') \<longleftrightarrow>
     bt' = bt\<lparr>bt_buf := [], bt_bufSize := 0\<rparr> \<and> Batch_process build h (bt_maxBytes bt) (bt_buf bt) st = Done st'"
  by (auto simp: Batch_def Batch_swap_def)

lemma Batch_empties: "Batch build h bt st = Done (bt', st') \<Longrightarrow> bt_buf bt' = [] \<and> bt_bufSize bt' = 0"
  by (auto simp: Batch_Done)

subsection \<open>Concurrent use\<close>

text \<open>
  Any number of goroutines call \<open>Add\<close>, \<open>Batch\<close> and \<open>Clear\<close>; each critical section is one step, and
  building and delivering what was taken out is another step, so that payloads can arrive in between.
  The histories of the payloads added and dropped, and the payloads passed to the handler, are part of
  the state.
\<close>

record bt_sys =
  b_bt :: Batcher
  b_inflight :: "bytes list list"
  b_added :: "bytes list"
  b_dropped :: "bytes list"
  b_sent :: "bytes list"

definition init_bt :: "Batcher \<Rightarrow> bt_sys" where
  "init_bt bt = \<lparr>b_bt = bt, b_inflight = [], b_added = [], b_dropped = [], b_sent = []\<rparr>"

inductive bt_step :: "BatchBuild \<Rightarrow> bt_sys \<Rightarrow> bt_sys \<Rightarrow> bool" for build where
  add: "bt_step build s (s\<lparr>b_bt := Add_locked (b_bt s) p, b_added := b_added s @ [p]\<rparr>)"
| swap: "Batch_swap (b_bt s) = (bt', buf) \<Longrightarrow>
     bt_step build s (s\<lparr>b_bt := bt', b_inflight := b_inflight s @ [buf]\<rparr>)"
| process: "b_inflight s = fs @ [buf] @ gs \<Longrightarrow>
     Batch_process build (\<lambda>out p. (out @ [p], True)) (bt_maxBytes (b_bt s)) buf (b_sent s) = Done sent' \<Longrightarrow>
     bt_step build s (s\<lparr>b_inflight := fs @ gs, b_sent := sent'\<rparr>)"
| clear: "bt_step build s (s\<lparr>b_bt := Clear (b_bt s), b_dropped := b_dropped s @ bt_buf (b_bt s)\<rparr>)"

inductive bt_reach :: "BatchBuild \<Rightarrow> bt_sys \<Rightarrow> bt_sys \<Rightarrow> bool" for build s0 where
  start: "bt_reach build s0 s0"
| step: "bt_reach build s0 s \<Longrightarrow> bt_step build s t \<Longrightarrow> bt_reach build s0 t"

inductive_cases bt_stepE: "bt_step build s t"

lemma deliver_log: "deliver (\<lambda>out p. (out @ [p], True)) st out = st @ filter (\<lambda>p. p \<noteq> []) out"
  by (induction out arbitrary: st) auto

subsection \<open>The interface of the builders\<close>

text \<open>
  What the batcher relies on: for the size limits a builder supports, \<open>Build\<close> returns, and when all
  payloads are ones the builder conserves at that limit, what it returns carries the same items (events,
  or monitored resources) as the payloads it was given.  An empty payload carries none.
\<close>

locale batch_builder =
  fixes build :: BatchBuild
    and items :: "bytes \<Rightarrow> 'i multiset"
    and supported :: "int \<Rightarrow> bool"
    and fits :: "int \<Rightarrow> bytes \<Rightarrow> bool"
  assumes build_returns: "supported m \<Longrightarrow> \<exists>out. build buf m = Done out"
    and build_conserves: "supported m \<Longrightarrow> \<forall>p\<in>set buf. fits m p \<Longrightarrow> build buf m = Done out \<Longrightarrow>
      sum_list (map items out) = sum_list (map items buf)"
    and items_empty: "supported m \<Longrightarrow> items [] = {#}"
begin

definition items_of :: "bytes list \<Rightarrow> 'i multiset" where
  "items_of ps = sum_list (map items ps)"

lemma items_of_simps [simp]:
  "items_of [] = {#}" "items_of (ps @ qs) = items_of ps + items_of qs" "items_of (p # ps) = items p + items_of ps"
  by (simp_all add: items_of_def)

lemma items_of_filter: "items [] = {#} \<Longrightarrow> items_of (filter (\<lambda>p. p \<noteq> []) ps) = items_of ps"
  by (induction ps) auto

lemma process_conserves:
  assumes "supported m" "\<forall>p\<in>set buf. fits m p"
    and "Batch_process build (\<lambda>out p. (out @ [p], True)) m buf sent = Done sent'"
  shows "items_of sent' = items_of sent + items_of buf"
proof (cases "buf = []")
  case True
  then show ?thesis using assms by (simp add: Batch_process_def)
next
  case False
  then obtain out where "build buf m = Done out" "sent' = sent @ filter (\<lambda>p. p \<noteq> []) out"
    using assms by (auto simp: Batch_process_def deliver_log)
  then show ?thesis
    using build_conserves [OF assms(1,2)] items_of_filter [OF items_empty [OF assms(1)]]
    by (simp add: items_of_def)
qed

definition held :: "bt_sys \<Rightarrow> bytes set" where
  "held s = set (concat (b_inflight s)) \<union> set (bt_buf (b_bt s))"

definition conserved :: "bt_sys \<Rightarrow> bool" where
  "conserved s \<longleftrightarrow> held s \<subseteq> set (b_added s) \<and>
     items_of (b_added s) =
       items_of (b_sent s) + items_of (b_dropped s) + items_of (concat (b_inflight s)) + items_of (bt_buf (b_bt s))"

lemma step_added: "bt_step build s t \<Longrightarrow> set (b_added s) \<subseteq> set (b_added t)"
  by (cases rule: bt_step.cases) auto

lemma step_maxBytes: "bt_step build s t \<Longrightarrow> bt_maxBytes (b_bt t) = bt_maxBytes (b_bt s)"
  by (cases rule: bt_step.cases) (auto simp: Add_locked_def Batch_swap_def Clear_def)

lemma conserved_step:
  assumes "bt_step build s t" "supported (bt_maxBytes (b_bt s))"
    and "\<forall>p\<in>set (b_added s). fits (bt_maxBytes (b_bt s)) p" "conserved s"
  shows "conserved t"
  using assms
proof (cases rule: bt_step.cases)
  case (process fs buf gs sent')
  then have "\<forall>p\<in>set buf. fits (bt_maxBytes (b_bt s)) p"
    using assms(3,4) by (auto simp: conserved_def held_def)
  then show ?thesis
    using process assms(4) process_conserves [OF assms(2) _ process(3)] by (auto simp: conserved_def held_def)
qed (auto simp: conserved_def held_def Add_locked_def Batch_swap_def Clear_def ac_simps)

lemma conserved_reach:
  assumes "bt_reach build s0 s" "supported (bt_maxBytes (b_bt s0))"
    and "\<forall>p\<in>set (b_added s). fits (bt_maxBytes (b_bt s0)) p" "conserved s0"
  shows "conserved s \<and> bt_maxBytes (b_bt s) = bt_maxBytes (b_bt s0)"
  using assms
proof (induction rule: bt_reach.induct)
  case start
  then show ?case by simp
next
  case (step s t)
  then have "\<forall>p\<in>set (b_added s). fits (bt_maxBytes (b_bt s0)) p" using step_added by blast
  then have "conserved s" "bt_maxBytes (b_bt s) = bt_maxBytes (b_bt s0)" using step by auto
  then show ?case
    using step conserved_step [OF step(2)] step_maxBytes [OF step(2)] step_added [OF step(2)] by auto
qed

lemma reach_conserves:
  assumes "bt_reach build (init_bt bt) s" "supported (bt_maxBytes bt)" "bt_buf bt = []"
    and "\<forall>p\<in>set (b_added s). fits (bt_maxBytes bt) p"
  shows "items_of (b_added s) =
    items_of (b_sent s) + items_of (b_dropped s) + items_of (concat (b_inflight s)) + items_of (bt_buf (b_bt s))"
  using conserved_reach [OF assms(1)] assms(2-4) by (simp add: init_bt_def conserved_def held_def)

lemma Batch_returns:
  assumes "supported (bt_maxBytes bt)"
  shows "\<exists>st'. Batch build h bt st = Done (bt\<lparr>bt_buf := [], bt_bufSize := 0\<rparr>, st')"
  using build_returns [OF assms, of "bt_buf bt"]
  by (auto simp: Batch_def Batch_swap_def Batch_process_def)

lemma Add_returns:
  assumes "supported (bt_maxBytes bt)" "0 \<le> bt_maxBytes bt" "bt_ok bt"
  shows "\<exists>bt' st'. Add build h bt st p = Done (bt', st') \<and> bt_ok bt' \<and> bt_bufSize bt' \<le> bt_maxBytes bt'"
proof (cases "bt_bufSize (Add_locked bt p) > bt_maxBytes (Add_locked bt p)")
  case True
  have max: "bt_maxBytes (Add_locked bt p) = bt_maxBytes bt" by (simp add: Add_locked_def)
  obtain st' where "Batch build h (Add_locked bt p) st = Done ((Add_locked bt p)\<lparr>bt_buf := [], bt_bufSize := 0\<rparr>, st')"
    using Batch_returns [of "Add_locked bt p" h st] assms(1) max by auto
  then show ?thesis using True assms(2) max by (auto simp: Add_def Let_def)
next
  case False
  then show ?thesis using assms(3) by (auto simp: Add_def Let_def)
qed

end

end
