(* ===== verification/Events_Builder.thy ===== *)
theory Events_Builder
  imports Batcher Transit_Model
begin

text \<open>
  The builder of event batches, \<^verbatim>\<open>batcher/events/events.go\<close>.  The JSON text of a request is produced and
  read by two parameters: \<open>um\<close> is \<open>json.Unmarshal\<close> into a zero request (\<open>None\<close> for an error) and
  \<open>ma\<close> is \<open>json.Marshal\<close>.  What the theorems use of them is \<open>ev_codec\<close>: events that came out of the
  decoder can be encoded, in any grouping, to a non-empty text that decodes to the same events, and the
  empty text is not JSON.
\<close>

type_synonym ev_unmarshal = "bytes \<Rightarrow> GroundworkEventsRequest option"
type_synonym ev_marshal = "GroundworkEventsRequest \<Rightarrow> bytes option"

text \<open>
  The loop of \<open>xxl2qq\<close>: the events from \<open>i1\<close> up to \<open>i2\<close> (cut at the end) go into one request, both
  indices advance by \<open>limit\<close>.  A slice expression with crossed bounds panics; a step that is not positive
  never ends.
\<close>

function ev_split :: "GroundworkEvent list \<Rightarrow> int \<Rightarrow> int \<Rightarrow> int \<Rightarrow> GroundworkEventsRequest list exec" where
  "ev_split es limit i1 i2 =
     (if \<not> i1 < int (length es) then Done []
      else let i2' = (if i2 > int (length es) then int (length es) else i2)
           in if i1 < 0 \<or> i2' < i1 then Panic SliceBounds
              else if limit \<le> 0 then Panic Diverges
              else bind_exec (ev_split es limit (i1 + limit) (i2' + limit)) (\<lambda>rest.
                Done (\<lparr>er_Events = take (nat (i2' - i1)) (drop (nat i1) es)\<rparr> # rest)))"
  by pat_completeness auto
termination
  by (relation "measure (\<lambda>(es, limit, i1, i2). nat (int (length es) - i1))") auto

declare ev_split.simps [simp del]

definition ev_xxl2qq :: "ev_unmarshal \<Rightarrow> GroundworkEventsRequest list \<Rightarrow> bytes \<Rightarrow> int \<Rightarrow> GroundworkEventsRequest list exec" where
  "ev_xxl2qq um qq p maxBytes =
     (case um p of
        None \<Rightarrow> Done qq
      | Some q \<Rightarrow>
          (let cnt = int (length (er_Events q)) in
           bind_exec (go_div (int (length p)) maxBytes) (\<lambda>n.
           bind_exec (go_div cnt (n + 1)) (\<lambda>k.
             let limit = k + 1 in
             bind_exec (ev_split (er_Events q) limit 0 limit) (\<lambda>parts. Done (qq @ parts))))))"

text \<open>The loop over the buffer: the counter, the request being filled and the finished requests.\<close>

fun ev_collect :: "ev_unmarshal \<Rightarrow> int \<Rightarrow> bytes list \<Rightarrow> int \<Rightarrow> GroundworkEventsRequest \<Rightarrow> GroundworkEventsRequest list
    \<Rightarrow> (GroundworkEventsRequest \<times> GroundworkEventsRequest list) exec" where
  "ev_collect um maxBytes [] c bq qq = Done (bq, qq)"
| "ev_collect um maxBytes (p # ps) c bq qq =
     (if int (length p) > maxBytes
      then bind_exec (ev_xxl2qq um qq p maxBytes) (\<lambda>qq'. ev_collect um maxBytes ps c bq qq')
      else case um p of
             None \<Rightarrow> ev_collect um maxBytes ps c bq qq
           | Some q \<Rightarrow>
               (let bq' = bq\<lparr>er_Events := er_Events bq @ er_Events q\<rparr>;
                    c' = c + int (length p)
                in if c' \<ge> maxBytes
                   then ev_collect um maxBytes ps 0 zero_GroundworkEventsRequest (qq @ [bq'])
                   else ev_collect um maxBytes ps c' bq' qq))"

definition EventsBuild :: "ev_unmarshal \<Rightarrow> ev_marshal \<Rightarrow> BatchBuild" where
  "EventsBuild um ma buf maxBytes =
     bind_exec (ev_collect um maxBytes buf 0 zero_GroundworkEventsRequest []) (\<lambda>(bq, qq).
       let qq' = (if length (er_Events bq) > 0 then qq @ [bq] else qq)
       in Done (List.map_filter ma qq'))"

subsection \<open>What a payload carries\<close>

definition ev_items :: "ev_unmarshal \<Rightarrow> bytes \<Rightarrow> GroundworkEvent multiset" where
  "ev_items um p = (case um p of None \<Rightarrow> {#} | Some q \<Rightarrow> mset (er_Events q))"

definition ev_decoded :: "ev_unmarshal \<Rightarrow> GroundworkEvent \<Rightarrow> bool" where
  "ev_decoded um e \<longleftrightarrow> (\<exists>p q. um p = Some q \<and> e \<in> set (er_Events q))"

definition ev_codec :: "ev_unmarshal \<Rightarrow> ev_marshal \<Rightarrow> bool" where
  "ev_codec um ma \<longleftrightarrow> um [] = None \<and>
     (\<forall>q. (\<forall>e\<in>set (er_Events q). ev_decoded um e) \<longrightarrow> (\<exists>p. ma q = Some p \<and> um p = Some q))"

definition req_items :: "GroundworkEventsRequest list \<Rightarrow> GroundworkEvent multiset" where
  "req_items qq = mset (concat (map er_Events qq))"

lemma req_items_simps [simp]:
  "req_items [] = {#}" "req_items (q # qq) = mset (er_Events q) + req_items qq"
  "req_items (qq @ rr) = req_items qq + req_items rr"
  by (simp_all add: req_items_def)

subsection \<open>Splitting\<close>

lemma ev_split_covers:
  assumes "0 < limit" "0 \<le> i1" "i1 \<le> int (length es) \<longrightarrow> i2 \<ge> min (i1 + limit) (int (length es))" "i2 \<le> i1 + limit"
  shows "\<exists>parts. ev_split es limit i1 i2 = Done parts \<and> concat (map er_Events parts) = drop (nat i1) es \<and>
    (\<forall>r\<in>set parts. int (length (er_Events r)) \<le> limit)"
  using assms
proof (induction es limit i1 i2 rule: ev_split.induct)
  case (1 es limit i1 i2)
  show ?case
  proof (cases "i1 < int (length es)")
    case False
    then show ?thesis using 1(3) by (simp add: ev_split.simps)
  next
    case True
    define i2' where "i2' = (if i2 > int (length es) then int (length es) else i2)"
    have b: "i2' = min (i1 + limit) (int (length es))"
      using 1(2-5) True by (auto simp: i2'_def min_def split: if_splits)
    have ok: "\<not> (i1 < 0 \<or> i2' < i1)" "\<not> limit \<le> 0" using 1(2,3) True b by auto
    have "\<exists>parts. ev_split es limit (i1 + limit) (i2' + limit) = Done parts \<and>
        concat (map er_Events parts) = drop (nat (i1 + limit)) es \<and>
        (\<forall>r\<in>set parts. int (length (er_Events r)) \<le> limit)"
      by (rule 1(1) [OF _ i2'_def ok]) (use 1(2,3) True b in auto)
    then obtain parts where parts: "ev_split es limit (i1 + limit) (i2' + limit) = Done parts"
        "concat (map er_Events parts) = drop (nat (i1 + limit)) es"
        "\<forall>r\<in>set parts. int (length (er_Events r)) \<le> limit"
      by blast
    have "take (nat (i2' - i1)) (drop (nat i1) es) @ drop (nat (i1 + limit)) es = drop (nat i1) es"
    proof (cases "i1 + limit \<le> int (length es)")
      case True
      then have "nat (i1 + limit) = nat (i2' - i1) + nat i1" using b 1(2,3) by simp
      then show ?thesis by (metis append_take_drop_id drop_drop)
    next
      case False
      then show ?thesis using b by (simp add: nat_diff_distrib 1(3))
    qed
    moreover have "ev_split es limit i1 i2 = Done (\<lparr>er_Events = take (nat (i2' - i1)) (drop (nat i1) es)\<rparr> # parts)"
      using True ok parts(1) by (subst ev_split.simps) (simp add: i2'_def [symmetric] Let_def)
    ultimately show ?thesis using parts b 1(2) by auto
  qed
qed

lemma ev_split_all:
  assumes "0 < limit"
  shows "\<exists>parts. ev_split es limit 0 limit = Done parts \<and> concat (map er_Events parts) = es \<and>
    (\<forall>r\<in>set parts. int (length (er_Events r)) \<le> limit)"
  using ev_split_covers [of limit 0 es limit] assms by simp

lemma ev_xxl2qq_splits:
  assumes "0 < maxBytes"
  shows "\<exists>parts. ev_xxl2qq um qq p maxBytes = Done (qq @ parts) \<and> req_items parts = ev_items um p"
proof (cases "um p")
  case None
  then show ?thesis by (simp add: ev_xxl2qq_def ev_items_def)
next
  case (Some q)
  define limit where "limit = int (length (er_Events q)) div (int (length p) div maxBytes + 1) + 1"
  have n: "0 \<le> int (length p) div maxBytes" using assms by (simp add: pos_imp_zdiv_nonneg_iff)
  then have "0 < limit" by (simp add: limit_def add_nonneg_pos pos_imp_zdiv_nonneg_iff)
  then obtain parts where "ev_split (er_Events q) limit 0 limit = Done parts" "concat (map er_Events parts) = er_Events q"
    using ev_split_all by blast
  then show ?thesis
    using Some assms n by (simp add: ev_xxl2qq_def limit_def ev_items_def req_items_def Let_def)
qed

subsection \<open>Collecting and building\<close>

lemma ev_collect_conserves:
  assumes "0 < maxBytes"
  shows "\<exists>bq' qq'. ev_collect um maxBytes ps c bq qq = Done (bq', qq') \<and>
    req_items (qq' @ [bq']) = req_items (qq @ [bq]) + sum_list (map (ev_items um) ps)"
proof (induction ps arbitrary: c bq qq)
  case Nil
  then show ?case by simp
next
  case (Cons p ps)
  show ?case
  proof (cases "int (length p) > maxBytes")
    case True
    obtain parts where "ev_xxl2qq um qq p maxBytes = Done (qq @ parts)" "req_items parts = ev_items um p"
      using ev_xxl2qq_splits [OF assms] by blast
    then show ?thesis using True Cons [of c bq "qq @ parts"] by (auto simp: ac_simps)
  next
    case False
    then show ?thesis
    proof (cases "um p")
      case None
      then show ?thesis using False Cons [of c bq qq] by (simp add: ev_items_def)
    next
      case (Some q)
      define bq1 where "bq1 = bq\<lparr>er_Events := er_Events bq @ er_Events q\<rparr>"
      have "mset (er_Events bq1) = mset (er_Events bq) + ev_items um p"
        by (simp add: bq1_def Some ev_items_def)
      then show ?thesis
        using False Some Cons [of 0 zero_GroundworkEventsRequest "qq @ [bq1]"] Cons [of "c + int (length p)" bq1 qq]
        by (simp add: bq1_def [symmetric] Let_def zero_GroundworkEventsRequest_def ac_simps)
    qed
  qed
qed

lemma ev_items_decoded: "e \<in># ev_items um p \<Longrightarrow> ev_decoded um e"
  by (auto simp: ev_items_def ev_decoded_def split: option.splits)

lemma ev_items_sum_decoded: "e \<in># sum_list (map (ev_items um) ps) \<Longrightarrow> ev_decoded um e"
  by (induction ps) (auto dest: ev_items_decoded)

lemma ev_marshal_all:
  assumes "ev_codec um ma" "\<forall>e\<in>#req_items qq. ev_decoded um e"
  shows "sum_list (map (ev_items um) (List.map_filter ma qq)) = req_items qq"
  using assms(2)
proof (induction qq)
  case Nil
  then show ?case by (simp add: List.map_filter_def)
next
  case (Cons q qq)
  then obtain p where "ma q = Some p" "um p = Some q" using assms(1) by (auto simp: ev_codec_def)
  then show ?case using Cons by (simp add: List.map_filter_def ev_items_def)
qed

lemma EventsBuild_conserves:
  assumes "ev_codec um ma" "0 < maxBytes"
  shows "\<exists>out. EventsBuild um ma buf maxBytes = Done out \<and>
    sum_list (map (ev_items um) out) = sum_list (map (ev_items um) buf)"
proof -
  obtain bq qq where c: "ev_collect um maxBytes buf 0 zero_GroundworkEventsRequest [] = Done (bq, qq)"
    "req_items (qq @ [bq]) = sum_list (map (ev_items um) buf)"
    using ev_collect_conserves [OF assms(2), of um buf 0 zero_GroundworkEventsRequest "[]"]
    by (auto simp: zero_GroundworkEventsRequest_def)
  define rr where "rr = (if length (er_Events bq) > 0 then qq @ [bq] else qq)"
  have r: "req_items rr = sum_list (map (ev_items um) buf)" using c(2) by (auto simp: rr_def)
  then have "sum_list (map (ev_items um) (List.map_filter ma rr)) = req_items rr"
    using assms(1) ev_items_sum_decoded by (intro ev_marshal_all) auto
  then show ?thesis using c(1) r by (simp add: EventsBuild_def rr_def Let_def)
qed

interpretation ev: batch_builder "EventsBuild um ma" "ev_items um" "\<lambda>m. ev_codec um ma \<and> 0 < m"
  "\<lambda>m p. True" for um ma
proof
  fix m :: int and buf :: "bytes list"
  assume m: "ev_codec um ma \<and> 0 < m"
  then obtain out where o: "EventsBuild um ma buf m = Done out"
    "sum_list (map (ev_items um) out) = sum_list (map (ev_items um) buf)"
    using EventsBuild_conserves by blast
  then show "\<exists>out. EventsBuild um ma buf m = Done out" by blast
  show "ev_items um [] = {#}" using m by (simp add: ev_codec_def ev_items_def)
  fix out'
  assume "EventsBuild um ma buf m = Done out'"
  then show "sum_list (map (ev_items um) out') = sum_list (map (ev_items um) buf)" using o by simp
qed

subsection \<open>Properties\<close>

text \<open>
  C4. However adds, batches, deliveries and clears interleave, every event of the payloads that were
  added to the events batcher is in exactly one place: in a payload passed to the handler, in the
  payloads dropped by a clear, in a batch that is being built, or still in the buffer.  Splitting of
  payloads over the size limit and combining of small ones neither lose nor duplicate an event.
\<close>

theorem events_conserved:
  assumes "ev_codec um ma" "0 < bt_maxBytes bt" "bt_buf bt = []"
    and "bt_reach (EventsBuild um ma) (init_bt bt) s"
  shows "sum_list (map (ev_items um) (b_added s)) =
    sum_list (map (ev_items um) (b_sent s)) + sum_list (map (ev_items um) (b_dropped s)) +
    sum_list (map (ev_items um) (concat (b_inflight s))) + sum_list (map (ev_items um) (bt_buf (b_bt s)))"
  using ev.reach_conserves [OF assms(4)] assms(1-3) by (simp add: ev.items_of_def)

text \<open>
  With a positive size limit an add to the events batcher returns (the splitting loop ends and no
  slice or division panics), keeps the byte count of the buffer right and leaves at most the limit
  buffered.
\<close>

theorem events_Add_returns:
  assumes "ev_codec um ma" "0 < bt_maxBytes bt" "bt_ok bt"
  shows "\<exists>bt' st'. Add (EventsBuild um ma) h bt st p = Done (bt', st') \<and> bt_ok bt' \<and> bt_bufSize bt' \<le> bt_maxBytes bt'"
  using ev.Add_returns [of um ma bt h st p] assms by simp

subsection \<open>A concrete codec\<close>

text \<open>
  A codec for requests made of one fixed event: a text of \<open>n + 1\<close> bytes stands for \<open>n\<close> events.
\<close>

definition demo_event :: GroundworkEvent where
  "demo_event =
     \<lparr>ev_AppType = ''NAGIOS'', ev_Device = '''', ev_Host = ''h'', ev_Service = '''', ev_OperationStatus = '''',
      ev_MonitorStatus = ''OK'', ev_Severity = '''', ev_ApplicationSeverity = '''', ev_Component = '''',
      ev_SubComponent = '''', ev_Priority = '''', ev_TypeRule = '''', ev_TextMessage = '''',
      ev_LastInsertDate = None, ev_ReportDate = None, ev_ApplicationName = '''', ev_ConsolidationName = '''',
      ev_ErrorType = '''', ev_LoggerName = '''', ev_LogType = '''', ev_MonitorServer = ''''\<rparr>"

definition demo_um :: ev_unmarshal where
  "demo_um p = (case p of [] \<Rightarrow> None | _ # r \<Rightarrow> Some \<lparr>er_Events = replicate (length r) demo_event\<rparr>)"

definition demo_ma :: ev_marshal where
  "demo_ma q = Some (replicate (Suc (length (er_Events q))) CHR ''x'')"

lemma demo_decoded: "ev_decoded demo_um e \<Longrightarrow> e = demo_event"
  by (auto simp: ev_decoded_def demo_um_def neq_Nil_conv split: list.splits)

lemma demo_codec: "ev_codec demo_um demo_ma"
proof -
  have "demo_um (replicate (Suc (length (er_Events q))) CHR ''x'') = Some q"
    if "\<forall>e\<in>set (er_Events q). ev_decoded demo_um e" for q :: GroundworkEventsRequest
  proof -
    have "\<forall>e\<in>set (er_Events q). e = demo_event"
      using that demo_decoded by blast
    then have "replicate (length (er_Events q)) demo_event = er_Events q" by (simp add: replicate_length_same)
    then show ?thesis by (simp add: demo_um_def)
  qed
  then show ?thesis by (simp add: ev_codec_def demo_ma_def) (simp add: demo_um_def)
qed

definition demo_bt :: Batcher where
  "demo_bt = \<lparr>bt_buf = [], bt_bufSize = 0, bt_maxBytes = 4, bt_period = 1, bt_tickerExit = 0\<rparr>"

lemma demo_build: "EventsBuild demo_um demo_ma [''abcdefg''] 4 = Done [''xxxxx'', ''xxx'']"
  by code_simp

text \<open>A payload of six events over the limit is added, taken out, split in two and delivered.\<close>

definition demo_end :: bt_sys where
  "demo_end = \<lparr>b_bt = demo_bt, b_inflight = [], b_added = [''abcdefg''], b_dropped = [],
     b_sent = [''xxxxx'', ''xxx'']\<rparr>"

lemma demo_run: "bt_reach (EventsBuild demo_um demo_ma) (init_bt demo_bt) demo_end"
proof -
  let ?b = "EventsBuild demo_um demo_ma" and ?s0 = "init_bt demo_bt"
  let ?s1 = "?s0\<lparr>b_bt := Add_locked (b_bt ?s0) ''abcdefg'', b_added := b_added ?s0 @ [''abcdefg'']\<rparr>"
  let ?s2 = "?s1\<lparr>b_bt := demo_bt, b_inflight := b_inflight ?s1 @ [[''abcdefg'']]\<rparr>"
  have s1: "bt_step ?b ?s0 ?s1" by (rule bt_step.add)
  have s2: "bt_step ?b ?s1 ?s2"
    by (rule bt_step.swap) (simp add: Batch_swap_def Add_locked_def init_bt_def demo_bt_def)
  have s3: "bt_step ?b ?s2 (?s2\<lparr>b_inflight := [] @ [], b_sent := [''xxxxx'', ''xxx'']\<rparr>)"
    by (rule bt_step.process [where buf = "[''abcdefg'']"]) (simp_all add: init_bt_def demo_bt_def Batch_process_def demo_build)
  have "?s2\<lparr>b_inflight := [] @ [], b_sent := [''xxxxx'', ''xxx'']\<rparr> = demo_end"
    by (simp add: demo_end_def init_bt_def)
  then show ?thesis
    using bt_reach.step [OF bt_reach.step [OF bt_reach.step [OF bt_reach.start s1] s2] s3] by simp
qed

theorem events_conserved_witness:
  "sum_list (map (ev_items demo_um) [''abcdefg'']) = sum_list (map (ev_items demo_um) [''xxxxx'', ''xxx''])"
  using events_conserved [OF demo_codec _ _ demo_run] by (simp add: demo_bt_def demo_end_def)

theorem events_Add_returns_witness:
  "\<exists>bt' st'. Add (EventsBuild demo_um demo_ma) (\<lambda>out p. (out @ [p], True)) demo_bt [] ''abcdefg'' = Done (bt', st') \<and>
     bt_ok bt' \<and> bt_bufSize bt' \<le> bt_maxBytes bt'"
  by (rule events_Add_returns [OF demo_codec]) (simp_all add: demo_bt_def bt_ok_def)

end
