(* ===== verification/Metrics_Builder.thy ===== *)
theory Metrics_Builder
  imports Batcher Transit_Model "HOL-Library.AList"
begin

text \<open>
  The builder of metrics batches, \<^verbatim>\<open>batcher/metrics/metrics.go\<close>.  As for events, \<open>um\<close> and \<open>ma\<close> stand
  for \<open>json.Unmarshal\<close> into a zero request and \<open>json.Marshal\<close>; \<open>rq_codec\<close> states what the theorems
  use of them.  Go ranges over a map in an order of its own choosing: \<open>ord\<close> gives the order in which
  the keys of a map are visited, and the theorems hold for every order.
\<close>

type_synonym rq_unmarshal = "bytes \<Rightarrow> ResourcesWithServicesRequest option"
type_synonym rq_marshal = "ResourcesWithServicesRequest \<Rightarrow> bytes option"
type_synonym key_order = "bytes list \<Rightarrow> bytes list"

subsection \<open>Host status\<close>

fun hasStatus_loop :: "MonitoredResource list \<Rightarrow> bool" where
  "hasStatus_loop [] = False"
| "hasStatus_loop (res # rs) = (if mi_Status (mr_MonitoredInfo res) \<noteq> HostUnchanged then True else hasStatus_loop rs)"

definition hasStatus :: "ResourcesWithServicesRequest \<Rightarrow> bool" where
  "hasStatus q = hasStatus_loop (rq_Resources q)"

subsection \<open>Splitting a payload over the limit\<close>

text \<open>
  The inner loop over the services of one resource.  \<open>prs\<close> are the services of the local copy \<open>pr\<close>,
  \<open>c\<close> counts the services since the last finished request, \<open>x\<close> is the request being filled.  At the end
  of the loop \<open>pr\<close> goes out of scope.
\<close>

fun xxl_services :: "ResourcesWithServicesRequest \<Rightarrow> int \<Rightarrow> MonitoredResource \<Rightarrow> MonitoredService list \<Rightarrow> MonitoredService list
    \<Rightarrow> int \<Rightarrow> ResourcesWithServicesRequest \<Rightarrow> ResourcesWithServicesRequest list
    \<Rightarrow> int \<times> ResourcesWithServicesRequest \<times> ResourcesWithServicesRequest list" where
  "xxl_services q limit res [] prs c x qq = (c, x, qq)"
| "xxl_services q limit res (svc # svcs) prs c x qq =
     (let prs' = prs @ [svc]; c' = c + 1
      in if c' < limit then xxl_services q limit res svcs prs' c' x qq
         else let x' = RWS_SetContext (x\<lparr>rq_Resources := rq_Resources x @ [res\<lparr>mr_Services := prs'\<rparr>]\<rparr>) (rq_Context q)
              in xxl_services q limit res svcs [] 0
                   (zero_ResourcesWithServicesRequest\<lparr>rq_Groups := rq_Groups q\<rparr>) (qq @ [x']))"

fun xxl_resources :: "ResourcesWithServicesRequest \<Rightarrow> int \<Rightarrow> MonitoredResource list
    \<Rightarrow> int \<Rightarrow> ResourcesWithServicesRequest \<Rightarrow> ResourcesWithServicesRequest list
    \<Rightarrow> int \<times> ResourcesWithServicesRequest \<times> ResourcesWithServicesRequest list" where
  "xxl_resources q limit [] c x qq = (c, x, qq)"
| "xxl_resources q limit (res # rs) c x qq =
     (case xxl_services q limit res (mr_Services res) [] c x qq of
        (c', x', qq') \<Rightarrow> xxl_resources q limit rs c' x' qq')"

text \<open>\<open>fmt.Sprintf("%04d", i)\<close>\<close>

definition pad4 :: "nat \<Rightarrow> bytes" where
  "pad4 i = (let s = format_nat i in replicate (4 - length s) CHR ''0'' @ s)"

definition xxl_token :: "nat \<Rightarrow> bytes \<Rightarrow> bytes" where
  "xxl_token i t = (if length t > 14 then take 8 t @ ''-'' @ pad4 i @ ''-'' @ drop 14 t else t)"

definition retoken :: "nat \<Rightarrow> ResourcesWithServicesRequest \<Rightarrow> ResourcesWithServicesRequest" where
  "retoken i q = q\<lparr>rq_Context := (rq_Context q)\<lparr>tc_TraceToken := xxl_token i (tc_TraceToken (rq_Context q))\<rparr>\<rparr>"

fun retoken_all :: "nat \<Rightarrow> ResourcesWithServicesRequest list \<Rightarrow> ResourcesWithServicesRequest list" where
  "retoken_all i [] = []"
| "retoken_all i (q # qq) = retoken i q # retoken_all (Suc i) qq"

definition rq_xxl2qq :: "rq_unmarshal \<Rightarrow> ResourcesWithServicesRequest list \<Rightarrow> bytes \<Rightarrow> int
    \<Rightarrow> ResourcesWithServicesRequest list exec" where
  "rq_xxl2qq um qq p maxBytes =
     (case um p of
        None \<Rightarrow> Done qq
      | Some q \<Rightarrow>
          (let cnt = sum_list (map (\<lambda>res. int (length (mr_Services res))) (rq_Resources q)) in
           bind_exec (go_div (int (length p)) maxBytes) (\<lambda>n.
           bind_exec (go_div cnt (n + 1)) (\<lambda>k.
             case xxl_resources q (k + 1) (rq_Resources q) 0
                    (zero_ResourcesWithServicesRequest\<lparr>rq_Groups := rq_Groups q\<rparr>) qq of
               (c, x, qq') \<Rightarrow>
                 let qq'' = (if length (rq_Resources x) > 0 then qq' @ [RWS_SetContext x (rq_Context q)] else qq')
                 in Done (retoken_all 0 qq'')))))"

subsection \<open>Merging groups\<close>

definition group_key :: "ResourceGroup \<Rightarrow> bytes" where
  "group_key g = Join [rg_Type g, rg_GroupName g] '':''"

definition ref_key :: "ResourceRef \<Rightarrow> bytes" where
  "ref_key r = Join [rr_Type r, rr_Name r] '':''"

type_synonym RG = "ResourceGroup \<times> (bytes \<times> ResourceRef) list"

fun pack_refs :: "ResourceRef list \<Rightarrow> (bytes \<times> ResourceRef) list \<Rightarrow> (bytes \<times> ResourceRef) list" where
  "pack_refs [] m = m"
| "pack_refs (r # rs) m = pack_refs rs (AList.update (ref_key r) r m)"

fun pack_collect :: "ResourceGroup list \<Rightarrow> (bytes \<times> RG) list \<Rightarrow> (bytes \<times> RG) list" where
  "pack_collect [] m = m"
| "pack_collect (g # gs) m =
     (let gk = group_key g;
          rg = (case map_of m gk of None \<Rightarrow> (g, []) | Some rg \<Rightarrow> rg)
      in pack_collect gs (AList.update gk (fst rg, pack_refs (rg_Resources g) (snd rg)) m))"

definition map_values :: "key_order \<Rightarrow> (bytes \<times> 'v) list \<Rightarrow> 'v list" where
  "map_values ord m = List.map_filter (map_of m) (ord (map fst m))"

definition pack_group :: "key_order \<Rightarrow> RG \<Rightarrow> ResourceGroup" where
  "pack_group ord rg =
     (if length (snd rg) > 0 then (fst rg)\<lparr>rg_Resources := map_values ord (snd rg)\<rparr> else fst rg)"

definition packGroups :: "key_order \<Rightarrow> ResourceGroup list \<Rightarrow> ResourceGroup list" where
  "packGroups ord groups =
     (if length groups = 0 then groups
      else map (pack_group ord) (map_values ord (pack_collect groups [])))"

subsection \<open>Build\<close>

fun rq_collect :: "rq_unmarshal \<Rightarrow> int \<Rightarrow> bytes list \<Rightarrow> int \<Rightarrow> ResourcesWithServicesRequest \<Rightarrow> ResourcesWithServicesRequest list
    \<Rightarrow> (ResourcesWithServicesRequest \<times> ResourcesWithServicesRequest list) exec" where
  "rq_collect um maxBytes [] c bq qq = Done (bq, qq)"
| "rq_collect um maxBytes (p # ps) c bq qq =
     (if int (length p) > maxBytes
      then bind_exec (rq_xxl2qq um qq p maxBytes) (\<lambda>qq'. rq_collect um maxBytes ps c bq qq')
      else case um p of
             None \<Rightarrow> rq_collect um maxBytes ps c bq qq
           | Some q \<Rightarrow>
               (if hasStatus q
                then (if length (rq_Resources bq) > 0
                      then rq_collect um maxBytes ps 0 zero_ResourcesWithServicesRequest (qq @ [bq] @ [q])
                      else rq_collect um maxBytes ps c bq (qq @ [q]))
                else let bq1 = RWS_SetContext bq (rq_Context q);
                         bq2 = bq1\<lparr>rq_Groups := rq_Groups bq1 @ rq_Groups q\<rparr>;
                         bq3 = bq2\<lparr>rq_Resources := rq_Resources bq2 @ rq_Resources q\<rparr>;
                         c' = c + int (length p)
                     in if c' \<ge> maxBytes
                        then rq_collect um maxBytes ps 0 zero_ResourcesWithServicesRequest (qq @ [bq3])
                        else rq_collect um maxBytes ps c' bq3 qq))"

definition MetricsBuild :: "key_order \<Rightarrow> rq_unmarshal \<Rightarrow> rq_marshal \<Rightarrow> BatchBuild" where
  "MetricsBuild ord um ma buf maxBytes =
     bind_exec (rq_collect um maxBytes buf 0 zero_ResourcesWithServicesRequest []) (\<lambda>(bq, qq).
       let qq' = (if length (rq_Resources bq) > 0 then qq @ [bq] else qq)
       in Done (List.map_filter (\<lambda>q. ma (q\<lparr>rq_Groups := packGroups ord (rq_Groups q)\<rparr>)) qq'))"

subsection \<open>What a payload carries\<close>

definition rq_items :: "rq_unmarshal \<Rightarrow> bytes \<Rightarrow> MonitoredResource multiset" where
  "rq_items um p = (case um p of None \<Rightarrow> {#} | Some q \<Rightarrow> mset (rq_Resources q))"

definition res_decoded :: "rq_unmarshal \<Rightarrow> MonitoredResource \<Rightarrow> bool" where
  "res_decoded um r \<longleftrightarrow> (\<exists>p q. um p = Some q \<and> r \<in> set (rq_Resources q))"

text \<open>
  The text of a request decodes to the resources that were encoded, whenever these came out of the
  decoder: the strings and times of the context and of the groups can always be encoded.
\<close>

definition rq_codec :: "rq_unmarshal \<Rightarrow> rq_marshal \<Rightarrow> bool" where
  "rq_codec um ma \<longleftrightarrow> um [] = None \<and>
     (\<forall>q. (\<forall>r\<in>set (rq_Resources q). res_decoded um r) \<longrightarrow>
        (\<exists>p q'. ma q = Some p \<and> um p = Some q' \<and> rq_Resources q' = rq_Resources q))"

definition all_resources :: "ResourcesWithServicesRequest list \<Rightarrow> MonitoredResource multiset" where
  "all_resources qq = mset (concat (map rq_Resources qq))"

lemma all_resources_simps [simp]:
  "all_resources [] = {#}" "all_resources (q # qq) = mset (rq_Resources q) + all_resources qq"
  "all_resources (qq @ rr) = all_resources qq + all_resources rr"
  by (simp_all add: all_resources_def)

lemma RWS_SetContext_fields [simp]:
  "rq_Resources (RWS_SetContext q c) = rq_Resources q" "rq_Groups (RWS_SetContext q c) = rq_Groups q"
  by (simp_all add: RWS_SetContext_def)

lemma zero_request_fields [simp]:
  "rq_Resources zero_ResourcesWithServicesRequest = []" "rq_Groups zero_ResourcesWithServicesRequest = []"
  by (simp_all add: zero_ResourcesWithServicesRequest_def)

lemma hasStatus_iff: "hasStatus q \<longleftrightarrow> (\<exists>r\<in>set (rq_Resources q). mi_Status (mr_MonitoredInfo r) \<noteq> HostUnchanged)"
proof -
  have "hasStatus_loop rs \<longleftrightarrow> (\<exists>r\<in>set rs. mi_Status (mr_MonitoredInfo r) \<noteq> HostUnchanged)" for rs
    by (induction rs) auto
  then show ?thesis by (simp add: hasStatus_def)
qed

subsection \<open>Combining\<close>

lemma rq_collect_conserves:
  assumes "\<forall>p\<in>set ps. int (length p) \<le> maxBytes"
  shows "\<exists>bq' qq'. rq_collect um maxBytes ps c bq qq = Done (bq', qq') \<and>
    all_resources (qq' @ [bq']) = all_resources (qq @ [bq]) + sum_list (map (rq_items um) ps)"
  using assms
proof (induction ps arbitrary: c bq qq)
  case Nil
  then show ?case by simp
next
  case (Cons p ps)
  note IH = Cons.IH
  have small: "\<not> int (length p) > maxBytes" "\<forall>p\<in>set ps. int (length p) \<le> maxBytes" using Cons.prems by auto
  show ?case
  proof (cases "um p")
    case None
    then show ?thesis using IH [OF small(2), of c bq qq] small(1) by (simp add: rq_items_def)
  next
    case (Some q)
    define bq3 where "bq3 = (RWS_SetContext bq (rq_Context q))
      \<lparr>rq_Groups := rq_Groups bq @ rq_Groups q, rq_Resources := rq_Resources bq @ rq_Resources q\<rparr>"
    have m: "mset (rq_Resources bq3) = mset (rq_Resources bq) + rq_items um p"
        "mset (rq_Resources q) = rq_items um p"
      by (simp_all add: bq3_def Some rq_items_def)
    have eq: "rq_collect um maxBytes (p # ps) c bq qq =
        (if hasStatus q
         then (if length (rq_Resources bq) > 0
               then rq_collect um maxBytes ps 0 zero_ResourcesWithServicesRequest (qq @ [bq] @ [q])
               else rq_collect um maxBytes ps c bq (qq @ [q]))
         else if c + int (length p) \<ge> maxBytes
              then rq_collect um maxBytes ps 0 zero_ResourcesWithServicesRequest (qq @ [bq3])
              else rq_collect um maxBytes ps (c + int (length p)) bq3 qq)"
      using small(1) Some by (simp add: bq3_def Let_def)
    show ?thesis
      unfolding eq using m
        IH [OF small(2), of 0 zero_ResourcesWithServicesRequest "qq @ [bq] @ [q]"] IH [OF small(2), of c bq "qq @ [q]"]
        IH [OF small(2), of 0 zero_ResourcesWithServicesRequest "qq @ [bq3]"] IH [OF small(2), of "c + int (length p)" bq3 qq]
      by (cases "rq_Resources bq = []") (simp_all add: ac_simps)
  qed
qed

lemma rq_items_decoded: "r \<in># sum_list (map (rq_items um) ps) \<Longrightarrow> res_decoded um r"
  by (induction ps) (auto simp: rq_items_def res_decoded_def split: option.splits)

lemma rq_marshal_all:
  assumes "rq_codec um ma" "\<forall>r\<in>#all_resources qq. res_decoded um r"
  shows "sum_list (map (rq_items um) (List.map_filter (\<lambda>q. ma (q\<lparr>rq_Groups := f (rq_Groups q)\<rparr>)) qq)) = all_resources qq"
  using assms(2)
proof (induction qq)
  case Nil
  then show ?case by (simp add: List.map_filter_def)
next
  case (Cons q qq)
  let ?q = "q\<lparr>rq_Groups := f (rq_Groups q)\<rparr>"
  have "\<forall>r\<in>set (rq_Resources ?q). res_decoded um r" using Cons.prems by auto
  then obtain p q' where "ma ?q = Some p" "um p = Some q'" "rq_Resources q' = rq_Resources ?q"
    using assms(1) unfolding rq_codec_def by blast
  then show ?case using Cons by (simp add: List.map_filter_def rq_items_def)
qed

lemma MetricsBuild_conserves:
  assumes "rq_codec um ma" "\<forall>p\<in>set buf. int (length p) \<le> maxBytes"
  shows "\<exists>out. MetricsBuild ord um ma buf maxBytes = Done out \<and>
    sum_list (map (rq_items um) out) = sum_list (map (rq_items um) buf)"
proof -
  obtain bq qq where c: "rq_collect um maxBytes buf 0 zero_ResourcesWithServicesRequest [] = Done (bq, qq)"
    "all_resources (qq @ [bq]) = sum_list (map (rq_items um) buf)"
    using rq_collect_conserves [OF assms(2), of um 0 zero_ResourcesWithServicesRequest "[]"] by auto
  define rr where "rr = (if length (rq_Resources bq) > 0 then qq @ [bq] else qq)"
  have r: "all_resources rr = sum_list (map (rq_items um) buf)" using c(2) by (auto simp: rr_def)
  then have "sum_list (map (rq_items um) (List.map_filter (\<lambda>q. ma (q\<lparr>rq_Groups := packGroups ord (rq_Groups q)\<rparr>)) rr)) =
      all_resources rr"
    using assms(1) rq_items_decoded by (intro rq_marshal_all) auto
  then show ?thesis using c(1) r by (simp add: MetricsBuild_def rr_def Let_def)
qed

definition service_count :: "ResourcesWithServicesRequest \<Rightarrow> int" where
  "service_count q = sum_list (map (\<lambda>res. int (length (mr_Services res))) (rq_Resources q))"

lemma service_count_nonneg: "0 \<le> sum_list (map (\<lambda>res. int (length (mr_Services res))) rs)"
  by (intro sum_list_nonneg) auto

lemma rq_xxl2qq_returns:
  assumes "0 < maxBytes"
  shows "\<exists>qq'. rq_xxl2qq um qq p maxBytes = Done qq'"
proof (cases "um p")
  case None
  then show ?thesis by (simp add: rq_xxl2qq_def)
next
  case (Some q)
  have n: "0 \<le> int (length p) div maxBytes" using assms by (simp add: pos_imp_zdiv_nonneg_iff)
  obtain c x qq' where "xxl_resources q (service_count q div (int (length p) div maxBytes + 1) + 1) (rq_Resources q) 0
      (zero_ResourcesWithServicesRequest\<lparr>rq_Groups := rq_Groups q\<rparr>) qq = (c, x, qq')"
    by (metis prod_cases3)
  then show ?thesis
    using Some assms n service_count_nonneg [of "rq_Resources q"] by (simp add: rq_xxl2qq_def service_count_def Let_def)
qed

lemma rq_collect_returns:
  assumes "0 < maxBytes"
  shows "\<exists>r. rq_collect um maxBytes ps c bq qq = Done r"
proof (induction ps arbitrary: c bq qq)
  case Nil
  then show ?case by simp
next
  case (Cons p ps)
  obtain qq' where "rq_xxl2qq um qq p maxBytes = Done qq'" using rq_xxl2qq_returns [OF assms] by blast
  then show ?case using Cons by (auto simp: Let_def split: option.splits)
qed

interpretation rq: batch_builder "MetricsBuild ord um ma" "rq_items um" "\<lambda>m. rq_codec um ma \<and> 0 < m"
  "\<lambda>m p. int (length p) \<le> m" for ord um ma
proof
  fix m :: int and buf out :: "bytes list"
  assume m: "rq_codec um ma \<and> 0 < m"
  obtain r where "rq_collect um m buf 0 zero_ResourcesWithServicesRequest [] = Done r"
    using rq_collect_returns m by blast
  then show "\<exists>out. MetricsBuild ord um ma buf m = Done out"
    by (cases r) (simp add: MetricsBuild_def Let_def)
  show "rq_items um [] = {#}" using m by (simp add: rq_codec_def rq_items_def)
  assume "\<forall>p\<in>set buf. int (length p) \<le> m" "MetricsBuild ord um ma buf m = Done out"
  then show "sum_list (map (rq_items um) out) = sum_list (map (rq_items um) buf)"
    using MetricsBuild_conserves [of um ma buf m ord] m by auto
qed

subsection \<open>Splitting\<close>

definition services_of :: "ResourcesWithServicesRequest list \<Rightarrow> MonitoredService list" where
  "services_of qq = concat (map mr_Services (concat (map rq_Resources qq)))"

lemma services_of_simps [simp]:
  "services_of [] = []" "services_of (qq @ rr) = services_of qq @ services_of rr"
  "services_of (q # qq) = concat (map mr_Services (rq_Resources q)) @ services_of qq"
  by (simp_all add: services_of_def)

definition chunk_ok :: "int \<Rightarrow> ResourcesWithServicesRequest \<Rightarrow> bool" where
  "chunk_ok limit q \<longleftrightarrow> (\<exists>r. rq_Resources q = [r] \<and> mr_Services r \<noteq> [] \<and> int (length (mr_Services r)) \<le> limit)"

lemma xxl_services_spec:
  assumes "rq_Resources x = []" "int (length prs) \<le> c" "c < limit"
  shows "\<exists>c' x' new. xxl_services q limit res svcs prs c x qq = (c', x', qq @ new) \<and>
    rq_Resources x' = [] \<and> 0 \<le> c' \<and> c' < limit \<and> mset (services_of new) \<subseteq># mset prs + mset svcs \<and>
    (\<forall>r\<in>set new. chunk_ok limit r)"
  using assms
proof (induction q limit res svcs prs c x qq rule: xxl_services.induct)
  case (1 q limit res prs c x qq)
  then show ?case by simp
next
  case (2 q limit res svc svcs prs c x qq)
  define x1 where "x1 = RWS_SetContext (x\<lparr>rq_Resources := rq_Resources x @ [res\<lparr>mr_Services := prs @ [svc]\<rparr>]\<rparr>) (rq_Context q)"
  show ?case
  proof (cases "c + 1 < limit")
    case True
    have "\<exists>c' x' new. xxl_services q limit res svcs (prs @ [svc]) (c + 1) x qq = (c', x', qq @ new) \<and>
        rq_Resources x' = [] \<and> 0 \<le> c' \<and> c' < limit \<and> mset (services_of new) \<subseteq># mset (prs @ [svc]) + mset svcs \<and>
        (\<forall>r\<in>set new. chunk_ok limit r)"
      using 2(1) [OF refl refl True] 2(3-5) True by simp
    then show ?thesis using True by (auto simp: Let_def)
  next
    case False
    have "\<exists>c' x' new. xxl_services q limit res svcs [] 0
          (zero_ResourcesWithServicesRequest\<lparr>rq_Groups := rq_Groups q\<rparr>) (qq @ [x1]) = (c', x', (qq @ [x1]) @ new) \<and>
        rq_Resources x' = [] \<and> 0 \<le> c' \<and> c' < limit \<and> mset (services_of new) \<subseteq># mset [] + mset svcs \<and>
        (\<forall>r\<in>set new. chunk_ok limit r)"
      using 2(2) [OF refl refl False x1_def] 2(3-5) by simp
    then obtain c' x' new where r: "xxl_services q limit res svcs [] 0
          (zero_ResourcesWithServicesRequest\<lparr>rq_Groups := rq_Groups q\<rparr>) (qq @ [x1]) = (c', x', qq @ [x1] @ new)"
        "rq_Resources x' = []" "0 \<le> c'" "c' < limit" "mset (services_of new) \<subseteq># mset svcs"
        "\<forall>r\<in>set new. chunk_ok limit r"
      by auto
    have "chunk_ok limit x1" "services_of [x1] = prs @ [svc]"
      using 2(3-5) False by (simp_all add: x1_def chunk_ok_def)
    then show ?thesis
      using r False by (intro exI [of _ c'] exI [of _ x'] exI [of _ "x1 # new"])
        (simp add: x1_def [symmetric] Let_def)
  qed
qed

lemma xxl_resources_spec:
  assumes "rq_Resources x = []" "0 \<le> c" "c < limit"
  shows "\<exists>c' x' new. xxl_resources q limit rs c x qq = (c', x', qq @ new) \<and>
    rq_Resources x' = [] \<and> mset (services_of new) \<subseteq># mset (concat (map mr_Services rs)) \<and>
    (\<forall>r\<in>set new. chunk_ok limit r)"
  using assms
proof (induction rs arbitrary: c x qq)
  case Nil
  then show ?case by simp
next
  case (Cons res rs)
  obtain c1 x1 new1 where s: "xxl_services q limit res (mr_Services res) [] c x qq = (c1, x1, qq @ new1)"
      "rq_Resources x1 = []" "0 \<le> c1" "c1 < limit" "mset (services_of new1) \<subseteq># mset (mr_Services res)"
      "\<forall>r\<in>set new1. chunk_ok limit r"
    using xxl_services_spec [of x "[]" c limit q res "mr_Services res" qq] Cons.prems by auto
  obtain c2 x2 new2 where t: "xxl_resources q limit rs c1 x1 (qq @ new1) = (c2, x2, (qq @ new1) @ new2)"
      "rq_Resources x2 = []" "mset (services_of new2) \<subseteq># mset (concat (map mr_Services rs))"
      "\<forall>r\<in>set new2. chunk_ok limit r"
    using Cons.IH [OF s(2-4), of "qq @ new1"] by blast
  have "mset (services_of (new1 @ new2)) \<subseteq># mset (concat (map mr_Services (res # rs)))"
    using s(5) t(3) by (simp add: subset_mset.add_mono)
  then show ?case using s(1,6) t(1,2,4) by (intro exI [of _ c2] exI [of _ x2] exI [of _ "new1 @ new2"]) auto
qed

lemma services_of_retoken [simp]: "services_of (retoken_all i qq) = services_of qq"
  by (induction qq arbitrary: i) (simp_all add: retoken_def)

lemma chunk_ok_retoken [simp]: "(\<forall>r\<in>set (retoken_all i qq). chunk_ok limit r) \<longleftrightarrow> (\<forall>r\<in>set qq. chunk_ok limit r)"
  by (induction qq arbitrary: i) (simp_all add: retoken_def chunk_ok_def)

definition xxl_limit :: "ResourcesWithServicesRequest \<Rightarrow> bytes \<Rightarrow> int \<Rightarrow> int" where
  "xxl_limit q p maxBytes = service_count q div (int (length p) div maxBytes + 1) + 1"

lemma xxl_limit_pos: "0 < maxBytes \<Longrightarrow> 0 < xxl_limit q p maxBytes"
  using service_count_nonneg [of "rq_Resources q"]
  by (simp add: xxl_limit_def service_count_def add_nonneg_pos pos_imp_zdiv_nonneg_iff)

lemma rq_xxl2qq_eq:
  assumes "0 < maxBytes" "um p = Some q"
    and "xxl_resources q (xxl_limit q p maxBytes) (rq_Resources q) 0
      (zero_ResourcesWithServicesRequest\<lparr>rq_Groups := rq_Groups q\<rparr>) qq = (c, x, qq')"
    and "rq_Resources x = []"
  shows "rq_xxl2qq um qq p maxBytes = Done (retoken_all 0 qq')"
proof -
  have "0 \<le> int (length p) div maxBytes" using assms(1) by (simp add: pos_imp_zdiv_nonneg_iff)
  then show ?thesis
    using assms service_count_nonneg [of "rq_Resources q"]
    by (simp add: rq_xxl2qq_def xxl_limit_def service_count_def Let_def)
qed

text \<open>One resource: only whole chunks of \<open>limit\<close> services leave the loop.\<close>

lemma xxl_services_chunks:
  assumes "rq_Resources x = []" "length prs < L"
  shows "\<exists>c' x' new. xxl_services q (int L) res svcs prs (int (length prs)) x qq = (c', x', qq @ new) \<and>
    rq_Resources x' = [] \<and> services_of new = take ((length prs + length svcs) div L * L) (prs @ svcs)"
  using assms
proof (induction svcs arbitrary: prs x qq)
  case Nil
  then show ?case by simp
next
  case (Cons svc svcs)
  define x1 where "x1 = RWS_SetContext (x\<lparr>rq_Resources := rq_Resources x @ [res\<lparr>mr_Services := prs @ [svc]\<rparr>]\<rparr>) (rq_Context q)"
  show ?case
  proof (cases "length (prs @ [svc]) < L")
    case True
    then have "int (length prs) + 1 < int L" by simp
    then show ?thesis using Cons.IH [OF Cons.prems(1) True, of qq] by (simp add: Let_def add.commute)
  next
    case False
    then have L: "L = length (prs @ [svc])" using Cons.prems(2) by simp
    obtain c' x' new where r: "xxl_services q (int L) res svcs [] 0
          (zero_ResourcesWithServicesRequest\<lparr>rq_Groups := rq_Groups q\<rparr>) (qq @ [x1]) = (c', x', (qq @ [x1]) @ new)"
        "rq_Resources x' = []" "services_of new = take (length svcs div L * L) svcs"
      using Cons.IH [of "zero_ResourcesWithServicesRequest\<lparr>rq_Groups := rq_Groups q\<rparr>" "[]" "qq @ [x1]"] Cons.prems(2)
      by auto
    have "(length prs + length (svc # svcs)) div L = Suc (length svcs div L)"
      using L div_add_self1 [of L "length svcs"] by simp
    then have t: "take ((length prs + length (svc # svcs)) div L * L) (prs @ svc # svcs) =
        prs @ svc # take (length svcs div L * L) svcs"
      using L by simp
    have "services_of [x1] = prs @ [svc]" using Cons.prems(1) by (simp add: x1_def)
    then have "services_of (x1 # new) = take ((length prs + length (svc # svcs)) div L * L) (prs @ svc # svcs)"
      using r(3) t by simp
    moreover have "\<not> int (length prs) + 1 < int L" using False by simp
    ultimately show ?thesis
      using r(1,2) by (intro exI [of _ c'] exI [of _ x'] exI [of _ "x1 # new"])
        (simp add: x1_def [symmetric] Let_def)
  qed
qed

subsection \<open>Merging groups\<close>

definition any_order :: "key_order \<Rightarrow> bool" where
  "any_order ord \<longleftrightarrow> (\<forall>ks. mset (ord ks) = mset ks)"

lemma map_filter_map_of:
  assumes "distinct (map fst m)" "set ks \<subseteq> set (map fst m)"
  shows "List.map_filter (map_of m) ks = map (\<lambda>k. the (map_of m k)) ks"
proof -
  have "map_of m k \<noteq> None" if "k \<in> set ks" for k using that assms(2) by (auto simp: map_of_eq_None_iff)
  then show ?thesis by (induction ks) (auto simp: List.map_filter_def)
qed

lemma mset_map_values:
  assumes "any_order ord" "distinct (map fst m)"
  shows "mset (map_values ord m) = mset (map snd m)"
proof -
  have s: "mset (ord (map fst m)) = mset (map fst m)" using assms(1) by (simp add: any_order_def)
  then have "set (ord (map fst m)) = set (map fst m)" by (metis set_mset_mset)
  then have "mset (map_values ord m) = image_mset (\<lambda>k. the (map_of m k)) (mset (map fst m))"
    using map_filter_map_of [OF assms(2), of "ord (map fst m)"] s by (simp add: map_values_def)
  also have "\<dots> = mset (map (\<lambda>kv. the (map_of m (fst kv))) m)" by (simp add: image_mset.compositionality o_def)
  also have "map (\<lambda>kv. the (map_of m (fst kv))) m = map snd m"
    using map_of_is_SomeI [OF assms(2)] by (intro map_cong) auto
  finally show ?thesis .
qed

lemma keys_update: "fst ` set (AList.update k v m) = insert k (fst ` set m)"
  by (induction m) auto

definition keyed :: "('v \<Rightarrow> bytes) \<Rightarrow> (bytes \<times> 'v) list \<Rightarrow> bool" where
  "keyed f m \<longleftrightarrow> distinct (map fst m) \<and> (\<forall>k v. map_of m k = Some v \<longrightarrow> f v = k)"

lemma keyed_Nil [simp]: "keyed f []"
  by (simp add: keyed_def)

lemma keyed_update [intro]: "keyed f m \<Longrightarrow> f v = k \<Longrightarrow> keyed f (AList.update k v m)"
  by (simp add: keyed_def distinct_update update_conv')

lemma keyed_values: "keyed f m \<Longrightarrow> map f (map snd m) = map fst m"
  by (auto simp: keyed_def intro: map_of_is_SomeI)

lemma pack_refs_spec: "keyed ref_key m \<Longrightarrow> keyed ref_key (pack_refs rs m) \<and>
    fst ` set (pack_refs rs m) = fst ` set m \<union> ref_key ` set rs"
proof (induction rs arbitrary: m)
  case (Cons r rs)
  then have "keyed ref_key (AList.update (ref_key r) r m)" by blast
  from Cons.IH [OF this] show ?case by (simp add: keys_update)
qed simp

text \<open>The invariant of the map of groups, and the resource keys collected under a group key.\<close>

definition rg_ok :: "RG \<Rightarrow> bool" where
  "rg_ok rg \<longleftrightarrow> keyed ref_key (snd rg) \<and> ref_key ` set (rg_Resources (fst rg)) \<subseteq> fst ` set (snd rg)"

definition under :: "(bytes \<times> RG) list \<Rightarrow> bytes \<Rightarrow> bytes set" where
  "under m gk = (case map_of m gk of None \<Rightarrow> {} | Some rg \<Rightarrow> fst ` set (snd rg))"

definition refs_in :: "ResourceGroup list \<Rightarrow> bytes \<Rightarrow> bytes set" where
  "refs_in gs gk = {ref_key r | g r. g \<in> set gs \<and> group_key g = gk \<and> r \<in> set (rg_Resources g)}"

lemma refs_in_simps [simp]:
  "refs_in [] gk = {}"
  "refs_in (g # gs) gk = (if group_key g = gk then ref_key ` set (rg_Resources g) else {}) \<union> refs_in gs gk"
  by (auto simp: refs_in_def)

lemma pack_collect_spec:
  assumes "keyed (group_key \<circ> fst) m" "\<forall>rg\<in>ran (map_of m). rg_ok rg"
  shows "keyed (group_key \<circ> fst) (pack_collect gs m) \<and> (\<forall>rg\<in>ran (map_of (pack_collect gs m)). rg_ok rg) \<and>
    fst ` set (pack_collect gs m) = fst ` set m \<union> group_key ` set gs \<and>
    (\<forall>gk. under (pack_collect gs m) gk = under m gk \<union> refs_in gs gk)"
  using assms
proof (induction gs arbitrary: m)
  case (Cons g gs)
  let ?gk = "group_key g"
  define rg where "rg = (case map_of m ?gk of None \<Rightarrow> (g, []) | Some rg \<Rightarrow> rg)"
  define rg' where "rg' = (fst rg, pack_refs (rg_Resources g) (snd rg))"
  let ?m = "AList.update ?gk rg' m"
  have rg: "keyed ref_key (snd rg)" "fst ` set (snd rg) = under m ?gk" "group_key (fst rg) = ?gk"
      "fst rg = g \<or> ref_key ` set (rg_Resources (fst rg)) \<subseteq> fst ` set (snd rg)"
    using Cons.prems
    by (auto simp: rg_def under_def rg_ok_def ran_def keyed_def simp del: map_of_eq_Some_iff split: option.splits)
      fastforce
  have p: "keyed ref_key (snd rg')" "fst ` set (snd rg') = under m ?gk \<union> ref_key ` set (rg_Resources g)"
    using pack_refs_spec [OF rg(1)] rg(2) by (simp_all add: rg'_def)
  have "rg_ok rg'" using p rg(2,4) by (auto simp: rg_ok_def rg'_def)
  then have ok: "\<forall>r\<in>ran (map_of ?m). rg_ok r"
    using Cons.prems(2) by (auto simp: ran_def update_conv' split: if_splits)
  have k: "keyed (group_key \<circ> fst) ?m" 
    by (rule keyed_update [OF Cons.prems(1)]) (simp add: rg'_def rg(3))
  have u: "under ?m gk = under m gk \<union> (if ?gk = gk then ref_key ` set (rg_Resources g) else {})" for gk
    using p(2) by (auto simp: under_def update_conv')
  have "pack_collect (g # gs) m = pack_collect gs ?m" by (simp add: rg_def rg'_def Let_def)
  then show ?case using Cons.IH [OF k ok] u by (simp add: keys_update Un_assoc)
qed simp

lemma pack_group_spec:
  assumes "any_order ord" "rg_ok rg"
  shows "group_key (pack_group ord rg) = group_key (fst rg) \<and>
    distinct (map ref_key (rg_Resources (pack_group ord rg))) \<and>
    ref_key ` set (rg_Resources (pack_group ord rg)) = fst ` set (snd rg)"
proof (cases "snd rg = []")
  case True
  then show ?thesis using assms(2) by (simp add: pack_group_def rg_ok_def)
next
  case False
  have k: "keyed ref_key (snd rg)" using assms(2) by (simp add: rg_ok_def)
  have m: "mset (map_values ord (snd rg)) = mset (map snd (snd rg))"
    using mset_map_values [OF assms(1), of "snd rg"] k unfolding keyed_def by blast
  then have "mset (map ref_key (map_values ord (snd rg))) = mset (map ref_key (map snd (snd rg)))"
    by (simp add: multiset.map_comp)
  then have "mset (map ref_key (map_values ord (snd rg))) = mset (map fst (snd rg))"
    unfolding keyed_values [OF k] .
  then have "distinct (map ref_key (map_values ord (snd rg))) \<and>
      ref_key ` set (map_values ord (snd rg)) = fst ` set (snd rg)"
    using k mset_eq_imp_distinct_iff mset_eq_setD unfolding keyed_def by (metis set_map)
  then show ?thesis using False by (simp add: pack_group_def group_key_def)
qed

subsection \<open>Properties\<close>


text \<open>
  Splitting of a metrics payload over the limit returns, invents and duplicates no service, and each
  request it makes has exactly one resource with at least one and at most \<open>limit\<close> services.
\<close>

theorem metrics_split_sound:
  assumes "0 < maxBytes" "um p = Some q"
  shows "\<exists>parts. rq_xxl2qq um [] p maxBytes = Done parts \<and>
    mset (services_of parts) \<subseteq># mset (services_of [q]) \<and>
    (\<forall>r\<in>set parts. chunk_ok (xxl_limit q p maxBytes) r)"
proof -
  obtain c x new where "xxl_resources q (xxl_limit q p maxBytes) (rq_Resources q) 0
        (zero_ResourcesWithServicesRequest\<lparr>rq_Groups := rq_Groups q\<rparr>) [] = (c, x, new)"
      "rq_Resources x = []" "mset (services_of new) \<subseteq># mset (services_of [q])"
      "\<forall>r\<in>set new. chunk_ok (xxl_limit q p maxBytes) r"
    using xxl_resources_spec [of "zero_ResourcesWithServicesRequest\<lparr>rq_Groups := rq_Groups q\<rparr>" 0
        "xxl_limit q p maxBytes" q "rq_Resources q" "[]"] xxl_limit_pos [OF assms(1)] by auto
  then show ?thesis using rq_xxl2qq_eq [where um = um, OF assms] by simp
qed


text \<open>
  Packing of groups, in whatever order Go visits its maps: exactly one group remains for each type and
  name, and it refers to exactly the resources (by type and name) that the groups with this type and name
  referred to, each once.
\<close>

theorem packGroups_merges:
  assumes "any_order ord"
  shows "distinct (map group_key (packGroups ord gs)) \<and>
    group_key ` set (packGroups ord gs) = group_key ` set gs \<and>
    (\<forall>g\<in>set (packGroups ord gs). distinct (map ref_key (rg_Resources g)) \<and>
       ref_key ` set (rg_Resources g) = refs_in gs (group_key g))"
proof (cases "gs = []")
  case True
  then show ?thesis by (simp add: packGroups_def)
next
  case False
  define m where "m = pack_collect gs []"
  have m: "keyed (group_key \<circ> fst) m" "\<forall>rg\<in>ran (map_of m). rg_ok rg" "fst ` set m = group_key ` set gs"
      "\<And>gk. under m gk = refs_in gs gk"
    using pack_collect_spec [of "[]" gs] by (simp_all add: m_def under_def)
  have d: "distinct (map fst m)" using m(1) by (simp add: keyed_def)
  have ms: "mset (map_values ord m) = mset (map snd m)" by (rule mset_map_values [OF assms d])
  have rg: "rg_ok rg" "map_of m (group_key (fst rg)) = Some rg" if "rg \<in> set (map_values ord m)" for rg
  proof -
    have "rg \<in> snd ` set m" using that arg_cong [OF ms, of set_mset] by simp
    then obtain k where "map_of m k = Some rg" using map_of_is_SomeI [OF d] by force
    then show "rg_ok rg" "map_of m (group_key (fst rg)) = Some rg"
      using m(1,2) unfolding keyed_def ran_def o_def by blast+
  qed
  have out: "packGroups ord gs = map (pack_group ord) (map_values ord m)" using False by (simp add: packGroups_def m_def)
  have k1: "map group_key (packGroups ord gs) = map (group_key \<circ> fst) (map_values ord m)"
    using pack_group_spec [OF assms] rg(1) by (simp add: out)
  have "mset (map (group_key \<circ> fst) (map_values ord m)) = mset (map (group_key \<circ> fst) (map snd m))"
    using ms by (simp add: multiset.map_comp)
  then have k: "mset (map group_key (packGroups ord gs)) = mset (map fst m)"
    unfolding k1 keyed_values [OF m(1)] .
  have "distinct (map group_key (packGroups ord gs))" using d mset_eq_imp_distinct_iff [OF k] by simp
  moreover have "group_key ` set (packGroups ord gs) = group_key ` set gs"
    using arg_cong [OF k, of set_mset] m(3) by simp
  moreover have "distinct (map ref_key (rg_Resources g)) \<and> ref_key ` set (rg_Resources g) = refs_in gs (group_key g)"
    if g: "g \<in> set (packGroups ord gs)" for g
  proof -
    obtain rg where r: "rg \<in> set (map_values ord m)" "g = pack_group ord rg"
      using g unfolding out by auto
    then show ?thesis
      using pack_group_spec [OF assms rg(1) [OF r(1)]] rg(2) [OF r(1)] m(4) [of "group_key (fst rg)"]
      by (simp add: under_def)
  qed
  ultimately show ?thesis by blast
qed

subsection \<open>Concrete inputs\<close>

definition demo_svc :: "bytes \<Rightarrow> MonitoredService" where
  "demo_svc n = \<lparr>ms_BaseInfo = \<lparr>bi_Name = n, bi_Type = ''service'', bi_Owner = ''h'', bi_Category = '''',
       bi_Description = '''', bi_Properties = Map.empty\<rparr>,
     ms_MonitoredInfo = \<lparr>mi_Status = ServiceOk, mi_LastCheckTime = None, mi_NextCheckTime = None,
       mi_LastPluginOutput = ''''\<rparr>, ms_Metrics = []\<rparr>"

definition demo_res :: MonitoredResource where
  "demo_res = \<lparr>mr_BaseResource = \<lparr>br_BaseInfo = \<lparr>bi_Name = ''h'', bi_Type = ''host'', bi_Owner = '''',
       bi_Category = '''', bi_Description = '''', bi_Properties = Map.empty\<rparr>, br_Device = ''''\<rparr>,
     mr_MonitoredInfo = \<lparr>mi_Status = HostUnchanged, mi_LastCheckTime = None, mi_NextCheckTime = None,
       mi_LastPluginOutput = ''''\<rparr>,
     mr_Services = [demo_svc ''cpu'', demo_svc ''disk'', demo_svc ''load'']\<rparr>"

text \<open>A codec for requests made of copies of one resource: \<open>n + 1\<close> bytes stand for \<open>n\<close> of them.\<close>

definition demo_rq_um :: rq_unmarshal where
  "demo_rq_um p = (case p of [] \<Rightarrow> None | _ # r \<Rightarrow>
     Some \<lparr>rq_Context = zero_TracerContext, rq_Resources = replicate (length r) demo_res, rq_Groups = []\<rparr>)"

definition demo_rq_ma :: rq_marshal where
  "demo_rq_ma q = Some (replicate (Suc (length (rq_Resources q))) CHR ''x'')"

lemma demo_res_decoded: "res_decoded demo_rq_um r \<Longrightarrow> r = demo_res"
  by (auto simp: res_decoded_def demo_rq_um_def neq_Nil_conv split: list.splits)

lemma demo_rq_codec: "rq_codec demo_rq_um demo_rq_ma"
proof -
  have "replicate (length (rq_Resources q)) demo_res = rq_Resources q"
    if "\<forall>r\<in>set (rq_Resources q). res_decoded demo_rq_um r" for q :: ResourcesWithServicesRequest
    using that demo_res_decoded by (intro replicate_length_same) blast
  then show ?thesis by (simp add: rq_codec_def demo_rq_ma_def demo_rq_um_def)
qed

definition demo_rq_bt :: Batcher where
  "demo_rq_bt = \<lparr>bt_buf = [], bt_bufSize = 0, bt_maxBytes = 9, bt_period = 1, bt_tickerExit = 0\<rparr>"

definition demo_rq_end :: bt_sys where
  "demo_rq_end = \<lparr>b_bt = demo_rq_bt, b_inflight = [], b_added = [''abc'', ''de''], b_dropped = [], b_sent = [''xxxx'']\<rparr>"

lemma demo_rq_build: "MetricsBuild id demo_rq_um demo_rq_ma [''abc'', ''de''] 9 = Done [''xxxx'']"
  by (simp add: MetricsBuild_def demo_rq_um_def demo_rq_ma_def hasStatus_def demo_res_def Let_def
      List.map_filter_def numeral_eq_Suc)

lemma demo_rq_run: "bt_reach (MetricsBuild id demo_rq_um demo_rq_ma) (init_bt demo_rq_bt) demo_rq_end"
proof -
  let ?b = "MetricsBuild id demo_rq_um demo_rq_ma" and ?s0 = "init_bt demo_rq_bt"
  let ?s1 = "?s0\<lparr>b_bt := Add_locked (b_bt ?s0) ''abc'', b_added := b_added ?s0 @ [''abc'']\<rparr>"
  let ?s2 = "?s1\<lparr>b_bt := Add_locked (b_bt ?s1) ''de'', b_added := b_added ?s1 @ [''de'']\<rparr>"
  let ?s3 = "?s2\<lparr>b_bt := demo_rq_bt, b_inflight := b_inflight ?s2 @ [[''abc'', ''de'']]\<rparr>"
  have s1: "bt_step ?b ?s0 ?s1" and s2: "bt_step ?b ?s1 ?s2" by (rule bt_step.add)+
  have s3: "bt_step ?b ?s2 ?s3"
    by (rule bt_step.swap) (simp add: Batch_swap_def Add_locked_def init_bt_def demo_rq_bt_def)
  have s4: "bt_step ?b ?s3 (?s3\<lparr>b_inflight := [] @ [], b_sent := [''xxxx'']\<rparr>)"
    by (rule bt_step.process [where buf = "[''abc'', ''de'']"])
      (simp_all add: init_bt_def demo_rq_bt_def Batch_process_def demo_rq_build)
  have "?s3\<lparr>b_inflight := [] @ [], b_sent := [''xxxx'']\<rparr> = demo_rq_end"
    by (simp add: demo_rq_end_def init_bt_def)
  then show ?thesis
    using bt_reach.step [OF bt_reach.step [OF bt_reach.step [OF bt_reach.step [OF bt_reach.start s1] s2] s3] s4]
    by simp
qed


definition demo_request :: ResourcesWithServicesRequest where
  "demo_request = \<lparr>rq_Context = zero_TracerContext, rq_Resources = [demo_res], rq_Groups = []\<rparr>"

theorem metrics_split_sound_witness:
  "\<exists>parts. rq_xxl2qq (\<lambda>_. Some demo_request) [] ''abcde'' 4 = Done parts \<and>
    mset (services_of parts) \<subseteq># mset (services_of [demo_request]) \<and>
    (\<forall>r\<in>set parts. chunk_ok (xxl_limit demo_request ''abcde'' 4) r)"
  by (rule metrics_split_sound) simp_all


theorem packGroups_merges_witness:
  "group_key ` set (packGroups rev
      [\<lparr>rg_GroupName = ''g'', rg_Type = ''HostGroup'', rg_Description = '''',
        rg_Resources = [\<lparr>rr_Name = ''h1'', rr_Type = ''host'', rr_Owner = ''''\<rparr>]\<rparr>,
       \<lparr>rg_GroupName = ''g'', rg_Type = ''HostGroup'', rg_Description = '''',
        rg_Resources = [\<lparr>rr_Name = ''h2'', rr_Type = ''host'', rr_Owner = ''''\<rparr>]\<rparr>]) = {''HostGroup:g''}"
  using packGroups_merges [of rev "[\<lparr>rg_GroupName = ''g'', rg_Type = ''HostGroup'', rg_Description = '''',
        rg_Resources = [\<lparr>rr_Name = ''h1'', rr_Type = ''host'', rr_Owner = ''''\<rparr>]\<rparr>,
       \<lparr>rg_GroupName = ''g'', rg_Type = ''HostGroup'', rg_Description = '''',
        rg_Resources = [\<lparr>rr_Name = ''h2'', rr_Type = ''host'', rr_Owner = ''''\<rparr>]\<rparr>]"]
  by (simp add: any_order_def group_key_def)

end
