(* ===== verification/Agent_State.thy ===== *)
theory Agent_State
  imports Config Nats_Server Nats_Payload Events_Builder Metrics_Builder
begin

text \<open>
  The state of the agent that the services share, and the tracer contexts of \<^verbatim>\<open>services/agent.go\<close>.
  Statistics, logging and OpenTelemetry spans are left out; the values the code takes from outside (the
  time, JSON texts, compression, the span identifiers) are fields of the environment \<open>svc_env\<close>.
\<close>

subsection \<open>Environment\<close>

record svc_env =
  sv_now :: timestamp
  sv_FormatUUID :: "bytes \<Rightarrow> bytes" \<comment> \<open>\<open>uuid.FormatUUID\<close>\<close>
  sv_ctxJSON :: "TracerContext \<Rightarrow> bytes option" \<comment> \<open>\<open>json.Marshal\<close> of a tracer context\<close>
  sv_GZip :: "bytes \<Rightarrow> error + bytes" \<comment> \<open>\<open>clients.GZip\<close>\<close>
  sv_span :: "bytes \<times> bytes \<times> bytes" \<comment> \<open>span id, trace id and trace flags of the span, as text\<close>
  sv_ev_um :: ev_unmarshal
  sv_ev_ma :: ev_marshal
  sv_rq_um :: rq_unmarshal
  sv_rq_ma :: rq_marshal
  sv_ord :: key_order

subsection \<open>State\<close>

record Suppress =
  sup_Downtimes :: bool
  sup_Events :: bool
  sup_Inventory :: bool
  sup_Metrics :: bool
  sup_States :: bool

record Agent =
  ag_cfg :: Config
  ag_suppress :: Suppress
  ag_nats :: nats_state
  ag_pub :: pub_chan
  ag_events :: Batcher
  ag_metrics :: Batcher
  ag_ds :: bytes \<comment> \<open>host name of the DalekServices client\<close>
  ag_gwClients :: "GWClient list"
  ag_tracerToken :: bytes
  ag_tokenInc :: "64 word" \<comment> \<open>the cached counter \<open>ckTraceToken\<close>\<close>
  ag_srv :: bool \<comment> \<open>the controller's HTTP server runs\<close>
  ag_authFlushes :: nat \<comment> \<open>how often the cache of credentials was flushed\<close>
  ag_quit :: nat \<comment> \<open>signals in \<open>quitChan\<close>, whose capacity is 1\<close>
  ag_hooks :: nat \<comment> \<open>nesting depth of \<open>clients.HookRequestContext\<close>\<close>
  ag_running :: bool \<comment> \<open>a task is being processed\<close>

abbreviation ag_con :: "Agent \<Rightarrow> Connector" where
  "ag_con a \<equiv> cfg_Connector (ag_cfg a)"

subsection \<open>Identity\<close>

definition traceOnDemandAgentID :: bytes where "traceOnDemandAgentID = ''#traceOnDemandAgentID#''"
definition traceOnDemandAppType :: bytes where "traceOnDemandAppType = ''#traceOnDemandAppType#''"
definition placeholderAgentID :: bytes where "placeholderAgentID = ''AGENT_ID''"

definition isConfiguredAgentID :: "bytes \<Rightarrow> bool" where
  "isConfiguredAgentID i \<longleftrightarrow> i \<noteq> [] \<and> i \<noteq> placeholderAgentID \<and> i \<noteq> traceOnDemandAgentID"

definition isConfiguredAppType :: "bytes \<Rightarrow> bool" where
  "isConfiguredAppType t \<longleftrightarrow> t \<noteq> [] \<and> t \<noteq> traceOnDemandAppType"

definition isConnectorConfigured :: "Agent \<Rightarrow> bool" where
  "isConnectorConfigured a \<longleftrightarrow> isConfiguredAgentID (c_AgentID (ag_con a)) \<and> isConfiguredAppType (c_AppType (ag_con a))"

subsection \<open>Tracer contexts\<close>

text \<open>\<open>binary.PutUvarint\<close>: seven bits a byte, low ones first, the high bit set on all but the last.\<close>

function uvarint :: "nat \<Rightarrow> bytes" where
  "uvarint x = (if x < 128 then [char_of x] else char_of (128 + x mod 128) # uvarint (x div 128))"
  by pat_completeness auto
termination
  by (relation "measure id") auto

declare uvarint.simps [simp del]

definition trace_token :: "(bytes \<Rightarrow> bytes) \<Rightarrow> bytes \<Rightarrow> nat \<Rightarrow> bytes" where
  "trace_token FormatUUID tracerToken inc =
     FormatUUID (go_copy (go_copy (replicate 16 (char_of (0::nat))) tracerToken) (uvarint inc))"

text \<open>The counter is never missing from its cache: it is set at the start and does not expire.\<close>

definition MakeTracerContext :: "svc_env \<Rightarrow> Agent \<Rightarrow> Agent \<times> TracerContext" where
  "MakeTracerContext env a =
     (let inc = ag_tokenInc a + 1;
          agentID = (if length (c_AgentID (ag_con a)) = 0 then traceOnDemandAgentID else c_AgentID (ag_con a));
          appType = (if length (c_AppType (ag_con a)) = 0 then traceOnDemandAppType else c_AppType (ag_con a))
      in (a\<lparr>ag_tokenInc := inc\<rparr>,
          \<lparr>tc_AppType = appType, tc_AgentID = agentID,
           tc_TraceToken = trace_token (sv_FormatUUID env) (ag_tracerToken a) (unat inc),
           tc_TimeStamp = Some (sv_now env), tc_Version = ModelVersion\<rparr>))"

definition context_key :: bytes where "context_key = quote @ ''context'' @ quote @ '':''"
definition traceToken_key :: bytes where "traceToken_key = quote @ ''traceToken'' @ quote @ '':''"

text \<open>The boolean of the result tells that placeholders are left to be replaced.\<close>

definition mixTracerContext :: "svc_env \<Rightarrow> Agent \<Rightarrow> bytes \<Rightarrow> (Agent \<times> bytes \<times> bool) exec" where
  "mixTracerContext env a payloadJSON =
     (if Contains payloadJSON context_key \<and> Contains payloadJSON traceToken_key
      then Done (a, payloadJSON, Contains payloadJSON traceOnDemandAgentID \<or> Contains payloadJSON traceOnDemandAppType)
      else case MakeTracerContext env a of (a', tc) \<Rightarrow>
        (case sv_ctxJSON env tc of
           None \<Rightarrow> Done (a', payloadJSON, False)
         | Some ctxJSON \<Rightarrow>
             (let l = LastIndexByte payloadJSON CHR ''}''
              in if l < 0 then Panic SliceBounds
                 else Done (a', take (nat l) payloadJSON @ '','' @ context_key @ ctxJSON @ ''}'',
                            tc_AgentID tc = traceOnDemandAgentID \<or> tc_AppType tc = traceOnDemandAppType))))"

definition fixTracerContext :: "Agent \<Rightarrow> bytes \<Rightarrow> bytes" where
  "fixTracerContext a payloadJSON =
     (if \<not> isConnectorConfigured a then payloadJSON
      else ReplaceAll (ReplaceAll payloadJSON traceOnDemandAppType (c_AppType (ag_con a)))
             traceOnDemandAgentID (c_AgentID (ag_con a)))"

text \<open>
  \<open>initTracerToken\<close>: sixteen random bytes, or the time written twice when there are none; \<open>varint\<close> is the
  text of \<open>binary.PutVarint\<close> for the time.
\<close>

definition initTracerToken :: "bytes option \<Rightarrow> bytes \<Rightarrow> bytes \<Rightarrow> Agent \<Rightarrow> Agent" where
  "initTracerToken randBuf varint1 varint2 a =
     (let t = (case randBuf of
                 Some r \<Rightarrow> go_copy ''aaaabbbbccccdddd'' r
               | None \<Rightarrow> (let t1 = go_copy ''aaaabbbbccccdddd'' varint1 in take 6 t1 @ go_copy (drop 6 t1) varint2))
      in a\<lparr>ag_tracerToken := t, ag_tokenInc := 1\<rparr>)"

subsection \<open>Lemmas\<close>

lemma uvarint_ne [simp]: "uvarint x \<noteq> []"
  by (simp add: uvarint.simps [of x])

lemma of_char_char_of_small: "n < 256 \<Longrightarrow> (of_char (char_of n) :: nat) = n"
  by (simp add: of_char_of)

text \<open>The code is prefix free: two numbers whose codes agree where both are defined are equal.\<close>

lemma uvarint_prefix_free:
  assumes "uvarint x @ r = uvarint y @ s"
  shows "x = y"
  using assms
proof (induction x arbitrary: y r s rule: uvarint.induct)
  case (1 x)
  have cx: "(of_char (hd (uvarint x)) :: nat) = (if x < 128 then x else 128 + x mod 128)"
    and cy: "(of_char (hd (uvarint y)) :: nat) = (if y < 128 then y else 128 + y mod 128)"
    by (simp_all add: uvarint.simps [of x] uvarint.simps [of y] of_char_char_of_small del: uvarint.simps)
  have "hd (uvarint x) = hd (uvarint y)" using 1(2) by (metis hd_append2 uvarint_ne)
  then have h: "(if x < 128 then x else 128 + x mod 128) = (if y < 128 then y else 128 + y mod 128)"
    using cx cy by simp
  show ?case
  proof (cases "x < 128")
    case True
    then show ?thesis using h by (auto split: if_splits)
  next
    case False
    then have y: "\<not> y < 128" "x mod 128 = y mod 128" using h by (auto split: if_splits)
    have "uvarint (x div 128) @ r = uvarint (y div 128) @ s"
      using 1(2) False y(1) by (simp add: uvarint.simps [of x] uvarint.simps [of y])
    then have "x div 128 = y div 128" using 1(1) False by blast
    then show ?thesis using y(2) by (metis div_mult_mod_eq)
  qed
qed

lemma length_uvarint: "x < 128 ^ Suc n \<Longrightarrow> length (uvarint x) \<le> Suc n"
proof (induction n arbitrary: x)
  case 0
  then show ?case by (simp add: uvarint.simps [of x])
next
  case (Suc n)
  then have "x div 128 < 128 ^ Suc n" by (simp add: less_mult_imp_div_less mult.commute)
  from Suc.IH [OF this] show ?case by (simp add: uvarint.simps [of x])
qed

lemma trace_token_inj:
  assumes "inj_on F {s. length s = 16}" "i < 2 ^ 64" "j < 2 ^ 64" "trace_token F tok i = trace_token F tok j"
  shows "i = j"
proof -
  let ?b = "go_copy (replicate 16 (char_of (0::nat))) tok"
  have p: "(2 :: nat) ^ 64 \<le> 128 ^ Suc 9" by (simp add: power_eq_if)
  have l: "length (uvarint i) \<le> 16" "length (uvarint j) \<le> 16"
    using length_uvarint [of i 9] length_uvarint [of j 9] assms(2,3) p by simp_all
  have b: "length ?b = 16" by simp
  have "go_copy ?b (uvarint i) = go_copy ?b (uvarint j)"
    using assms(1,4) b unfolding trace_token_def by (auto dest!: inj_onD)
  then have "uvarint i @ drop (length (uvarint i)) ?b = uvarint j @ drop (length (uvarint j)) ?b"
    using l b unfolding go_copy_def by simp
  then show ?thesis by (rule uvarint_prefix_free)
qed

lemma mixTracerContext_inserts:
  assumes "\<not> (Contains p context_key \<and> Contains p traceToken_key)" "MakeTracerContext env a = (a', tc)"
    and "sv_ctxJSON env tc = Some j" "0 \<le> LastIndexByte p CHR ''}''"
  shows "mixTracerContext env a p = Done (a', take (nat (LastIndexByte p CHR ''}'')) p @ '','' @ context_key @ j @ ''}'',
    tc_AgentID tc = traceOnDemandAgentID \<or> tc_AppType tc = traceOnDemandAppType)"
  using assms by (auto simp: mixTracerContext_def Let_def)

subsection \<open>Properties\<close>

text \<open>
  Trace tokens are unique: two contexts that an agent makes with different values of its counter (which
  is 64 bits wide and is increased for each context) carry different tokens, as long as different identifiers
  are formatted differently.
\<close>

theorem trace_tokens_unique:
  assumes "inj_on (sv_FormatUUID env) {s. length s = 16}" "ag_tracerToken a = ag_tracerToken b" "ag_tokenInc a \<noteq> ag_tokenInc b"
  shows "tc_TraceToken (snd (MakeTracerContext env a)) \<noteq> tc_TraceToken (snd (MakeTracerContext env b))"
proof
  let ?i = "unat (ag_tokenInc a + 1)" and ?j = "unat (ag_tokenInc b + 1)"
  assume "tc_TraceToken (snd (MakeTracerContext env a)) = tc_TraceToken (snd (MakeTracerContext env b))"
  then have t: "trace_token (sv_FormatUUID env) (ag_tracerToken a) ?i = trace_token (sv_FormatUUID env) (ag_tracerToken a) ?j"
    using assms(2) by (simp add: MakeTracerContext_def Let_def)
  have "?i < 2 ^ 64" "?j < 2 ^ 64"
    using unsigned_less [of "ag_tokenInc a + 1"] unsigned_less [of "ag_tokenInc b + 1"] by simp_all
  from trace_token_inj [OF assms(1) this t] have "ag_tokenInc a + 1 = ag_tokenInc b + 1" by (simp only: unsigned_word_eqI)
  then show False using assms(3) by simp
qed

text \<open>
  A metrics or inventory payload without a context gets one by insertion before its last closing brace.
  For the empty object this gives a text with a comma after the opening brace, which is not JSON, and a
  payload without a closing brace makes the program panic.
\<close>

theorem mixTracerContext_edge_cases:
  assumes "MakeTracerContext env a = (a', tc)" "sv_ctxJSON env tc = Some j"
  shows "(\<exists>todo. mixTracerContext env a ''{}'' = Done (a', ''{,'' @ context_key @ j @ ''}'', todo)) \<and>
    (\<forall>p. CHR ''}'' \<notin> set p \<and> \<not> (Contains p context_key \<and> Contains p traceToken_key) \<longrightarrow>
       mixTracerContext env a p = Panic SliceBounds)"
proof (intro conjI allI impI)
  have "\<not> Contains ''{}'' context_key" by (simp add: context_key_def HasPrefix_def)
  then show "\<exists>todo. mixTracerContext env a ''{}'' = Done (a', ''{,'' @ context_key @ j @ ''}'', todo)"
    using mixTracerContext_inserts [OF _ assms, of "''{}''"] by simp
next
  fix p
  assume p: "CHR ''}'' \<notin> set p \<and> \<not> (Contains p context_key \<and> Contains p traceToken_key)"
  then have "LastIndexByte p CHR ''}'' < 0" by (simp add: LastIndexByte_neg_iff)
  then show "mixTracerContext env a p = Panic SliceBounds"
    using p assms by (auto simp: mixTracerContext_def Let_def)
qed

subsection \<open>A concrete agent\<close>

definition demo_svc_env :: svc_env where
  "demo_svc_env = \<lparr>sv_now = 1700000000000000000, sv_FormatUUID = id, sv_ctxJSON = (\<lambda>tc. Some ''{}''),
     sv_GZip = (\<lambda>p. Inr [CHR 0x1F, CHR 0x8B, CHR 0x08]), sv_span = (''0102030405060708'', ''000102030405060708090a0b0c0d0e0f'', ''01''),
     sv_ev_um = demo_um, sv_ev_ma = demo_ma, sv_rq_um = demo_rq_um, sv_rq_ma = demo_rq_ma, sv_ord = id\<rparr>"

definition demo_agent :: Agent where
  "demo_agent = \<lparr>ag_cfg = defaults,
     ag_suppress = \<lparr>sup_Downtimes = False, sup_Events = False, sup_Inventory = False, sup_Metrics = False, sup_States = False\<rparr>,
     ag_nats = init_nats demo_config, ag_pub = demo_pc, ag_events = demo_bt, ag_metrics = demo_rq_bt, ag_ds = [],
     ag_gwClients = [], ag_tracerToken = ''aaaabbbbccccdddd'', ag_tokenInc = 1, ag_srv = False, ag_authFlushes = 0,
     ag_quit = 0, ag_hooks = 0, ag_running = False\<rparr>"

theorem trace_tokens_unique_witness:
  "tc_TraceToken (snd (MakeTracerContext demo_svc_env demo_agent)) \<noteq>
   tc_TraceToken (snd (MakeTracerContext demo_svc_env (fst (MakeTracerContext demo_svc_env demo_agent))))"
  by (rule trace_tokens_unique) (simp_all add: demo_svc_env_def MakeTracerContext_def demo_agent_def Let_def)

theorem mixTracerContext_edge_cases_witness:
  "mixTracerContext demo_svc_env demo_agent ''[1]'' = Panic SliceBounds"
proof -
  obtain a' tc where m: "MakeTracerContext demo_svc_env demo_agent = (a', tc)" by fastforce
  have j: "sv_ctxJSON demo_svc_env tc = Some ''{}''" by (simp add: demo_svc_env_def)
  have "\<not> Contains ''[1]'' context_key" by (simp add: context_key_def HasPrefix_def)
  then show ?thesis using mixTracerContext_edge_cases [OF m j] by simp
qed

end
