(* ===== verification/Transit_Service.thy ===== *)
theory Transit_Service
  imports Agent_State
begin

text \<open>
  The operations of \<^verbatim>\<open>services/transit.go\<close> and \<open>Put2Nats\<close> of \<^verbatim>\<open>services/nats.go\<close>: payloads are given a type
  and a context and are published, directly or through the batchers.  The debug copies of payloads on disk
  (\<open>exportTransit\<close>, the two inventory files) have no influence on what is sent, their errors are logged,
  and they are left out, like the statistics.

  A context is its header, as in \<open>Http_Client\<close>.  An error is \<open>Some\<close>; a panic is that of the type \<open>exec\<close>.
\<close>

definition subjDowntimes :: bytes where "subjDowntimes = ''tcg.downtimes''"
definition subjEvents :: bytes where "subjEvents = ''tcg.events''"
definition subjInventoryMetrics :: bytes where "subjInventoryMetrics = ''tcg.metrics''"

subsection \<open>Publishing\<close>

abbreviation NatsMaxPayload :: "Agent \<Rightarrow> int" where
  "NatsMaxPayload a \<equiv> n_NatsMaxPayload (c_Nats (ag_con a))"

definition nats_error_value :: "bytes \<Rightarrow> nats_error \<Rightarrow> error" where
  "nats_error_value subj e =
     (case e of
        InvalidConfigPath \<Rightarrow> Other ''invalid path to config file specified''
      | LibError x \<Rightarrow> x
      | JSError x \<Rightarrow> Other ''jetstream''
      | Unavailable \<Rightarrow> Errorf ErrNATS ''unavailable''
      | PayloadLim \<Rightarrow> Errorf ErrPayloadLim subj)"

definition pub_agent :: "bytes \<Rightarrow> bytes \<Rightarrow> http_Header \<Rightarrow> Agent \<Rightarrow> Agent \<times> error option" where
  "pub_agent subj data header a =
     (case Pub (ag_nats a) subj data header (ag_pub a) of
        (pc, e) \<Rightarrow> (a\<lparr>ag_pub := pc\<rparr>, map_option (nats_error_value subj) e))"

definition span_header :: "svc_env \<Rightarrow> http_Header \<Rightarrow> http_Header" where
  "span_header env h =
     (case sv_span env of (s, t, f) \<Rightarrow>
        Header_Set HdrSpanTraceFlags f (Header_Set HdrSpanTraceID t (Header_Set HdrSpanSpanID s h)))"

definition Put2Nats :: "svc_env \<Rightarrow> http_Header option \<Rightarrow> bytes \<Rightarrow> bytes \<Rightarrow> Agent \<Rightarrow> Agent \<times> error option" where
  "Put2Nats env ctx subj payload a =
     (let h1 = span_header env (case HeaderFromCtx ctx of Some h \<Rightarrow> Map.empty ++ h | None \<Rightarrow> Map.empty);
          n0 = int (length payload)
      in if n0 > NatsMaxPayload a
         then (case sv_GZip env payload of
                 Inl err \<Rightarrow> (a, Some err)
               | Inr z \<Rightarrow>
                   if int (length z) > NatsMaxPayload a then (a, Some (Errorf ErrPayloadLim subj))
                   else pub_agent subj z
                          (Header_Add HdrPayloadLen (FormatInt (int (length z)))
                            (Header_Set HdrPayloadLen (FormatInt n0) (Header_Set HdrCompressed ''gzip'' h1))) a)
         else pub_agent subj payload (Header_Add HdrPayloadLen (FormatInt n0) h1) a)"

text \<open>A fresh header with the payload type, merged into the context, and the publication.\<close>

definition put_typed :: "svc_env \<Rightarrow> http_Header option \<Rightarrow> payloadType \<Rightarrow> bool \<Rightarrow> bytes \<Rightarrow> bytes \<Rightarrow> Agent \<Rightarrow> (Agent \<times> error option) exec" where
  "put_typed env ctx t todoTracerCtx subj payload a =
     bind_exec (payloadType_String t) (\<lambda>s.
       let h1 = Header_Set HdrPayloadType s Map.empty;
           h2 = (if todoTracerCtx then Header_Set HdrTodoTracerCtx ''-'' h1 else h1)
       in Done (Put2Nats env (CtxWithHeader ctx h2) subj payload a))"

text \<open>The same after a tracer context was mixed in.\<close>

definition put_mixed :: "svc_env \<Rightarrow> http_Header option \<Rightarrow> payloadType \<Rightarrow> bytes \<Rightarrow> bytes \<Rightarrow> Agent \<Rightarrow> (Agent \<times> error option) exec" where
  "put_mixed env ctx t subj payload a =
     bind_exec (mixTracerContext env a payload) (\<lambda>(a1, payload', todo). put_typed env ctx t todo subj payload' a1)"

subsection \<open>Events and downtimes\<close>

definition TS_ClearInDowntime :: "svc_env \<Rightarrow> http_Header option \<Rightarrow> bytes \<Rightarrow> Agent \<Rightarrow> (Agent \<times> error option) exec" where
  "TS_ClearInDowntime env ctx payload a =
     (if sup_Downtimes (ag_suppress a) then Done (a, None)
      else put_typed env ctx typeClearInDowntime False subjDowntimes payload a)"

definition TS_SetInDowntime :: "svc_env \<Rightarrow> http_Header option \<Rightarrow> bytes \<Rightarrow> Agent \<Rightarrow> (Agent \<times> error option) exec" where
  "TS_SetInDowntime env ctx payload a =
     (if sup_Downtimes (ag_suppress a) then Done (a, None)
      else put_typed env ctx typeSetInDowntime False subjDowntimes payload a)"

definition sendEvents :: "svc_env \<Rightarrow> http_Header option \<Rightarrow> bytes \<Rightarrow> Agent \<Rightarrow> (Agent \<times> error option) exec" where
  "sendEvents env ctx payload a = put_typed env ctx typeEvents False subjEvents payload a"

definition sendMetrics :: "svc_env \<Rightarrow> http_Header option \<Rightarrow> bytes \<Rightarrow> Agent \<Rightarrow> (Agent \<times> error option) exec" where
  "sendMetrics env ctx payload a = put_mixed env ctx typeMetrics subjInventoryMetrics payload a"

text \<open>
  The handlers the batchers call.  A panic in a handler ends the process: the state behind the handler is
  then a panic, and stays one.
\<close>

definition batch_handler :: "(bytes \<Rightarrow> Agent \<Rightarrow> (Agent \<times> error option) exec) \<Rightarrow> Agent exec BatchHandler" where
  "batch_handler send st p =
     (case bind_exec st (send p) of
        Panic x \<Rightarrow> (Panic x, False)
      | Done (a, e) \<Rightarrow> (Done a, e = None))"

definition events_Batch :: "svc_env \<Rightarrow> Agent \<Rightarrow> Agent exec" where
  "events_Batch env a =
     bind_exec (Batch (EventsBuild (sv_ev_um env) (sv_ev_ma env)) (batch_handler (sendEvents env None)) (ag_events a) (Done a))
       (\<lambda>(bt, st). bind_exec st (\<lambda>a'. Done (a'\<lparr>ag_events := bt\<rparr>)))"

definition metrics_Batch :: "svc_env \<Rightarrow> Agent \<Rightarrow> Agent exec" where
  "metrics_Batch env a =
     bind_exec (Batch (MetricsBuild (sv_ord env) (sv_rq_um env) (sv_rq_ma env)) (batch_handler (sendMetrics env None)) (ag_metrics a) (Done a))
       (\<lambda>(bt, st). bind_exec st (\<lambda>a'. Done (a'\<lparr>ag_metrics := bt\<rparr>)))"

definition events_Add :: "svc_env \<Rightarrow> bytes \<Rightarrow> Agent \<Rightarrow> Agent exec" where
  "events_Add env p a =
     bind_exec (Add (EventsBuild (sv_ev_um env) (sv_ev_ma env)) (batch_handler (sendEvents env None)) (ag_events a) (Done a) p)
       (\<lambda>(bt, st). bind_exec st (\<lambda>a'. Done (a'\<lparr>ag_events := bt\<rparr>)))"

definition metrics_Add :: "svc_env \<Rightarrow> bytes \<Rightarrow> Agent \<Rightarrow> Agent exec" where
  "metrics_Add env p a =
     bind_exec (Add (MetricsBuild (sv_ord env) (sv_rq_um env) (sv_rq_ma env)) (batch_handler (sendMetrics env None)) (ag_metrics a) (Done a) p)
       (\<lambda>(bt, st). bind_exec st (\<lambda>a'. Done (a'\<lparr>ag_metrics := bt\<rparr>)))"

definition TS_SendEvents :: "svc_env \<Rightarrow> http_Header option \<Rightarrow> bytes \<Rightarrow> Agent \<Rightarrow> (Agent \<times> error option) exec" where
  "TS_SendEvents env ctx payload a =
     (if sup_Events (ag_suppress a) then Done (a, None)
      else if c_BatchEvents (ag_con a) = 0 then sendEvents env ctx payload a
      else bind_exec (events_Add env payload a) (\<lambda>a'. Done (a', None)))"

definition TS_SendEventsAck :: "svc_env \<Rightarrow> http_Header option \<Rightarrow> bytes \<Rightarrow> Agent \<Rightarrow> (Agent \<times> error option) exec" where
  "TS_SendEventsAck env ctx payload a =
     (if sup_Events (ag_suppress a) then Done (a, None)
      else put_typed env ctx typeEventsAck False subjEvents payload a)"

definition TS_SendEventsUnack :: "svc_env \<Rightarrow> http_Header option \<Rightarrow> bytes \<Rightarrow> Agent \<Rightarrow> (Agent \<times> error option) exec" where
  "TS_SendEventsUnack env ctx payload a =
     (if sup_Events (ag_suppress a) then Done (a, None)
      else put_typed env ctx typeEventsUnack False subjEvents payload a)"

subsection \<open>Metrics, states and inventory\<close>

definition TS_SendResourceWithMetrics :: "svc_env \<Rightarrow> http_Header option \<Rightarrow> bytes \<Rightarrow> Agent \<Rightarrow> (Agent \<times> error option) exec" where
  "TS_SendResourceWithMetrics env ctx payload a =
     (if sup_Metrics (ag_suppress a) then Done (a, None)
      else if c_BatchMetrics (ag_con a) = 0 then sendMetrics env ctx payload a
      else bind_exec (metrics_Add env payload a) (\<lambda>a'. Done (a', None)))"

text \<open>States and inventory flush the metrics batcher first, to keep the order.\<close>

definition flush_metrics :: "svc_env \<Rightarrow> Agent \<Rightarrow> Agent exec" where
  "flush_metrics env a = (if c_BatchMetrics (ag_con a) \<noteq> 0 then metrics_Batch env a else Done a)"

definition SendStates :: "svc_env \<Rightarrow> http_Header option \<Rightarrow> ResourcesWithServicesRequest \<Rightarrow> Agent \<Rightarrow> (Agent \<times> error option) exec" where
  "SendStates env ctx p a =
     (case sv_rq_ma env p of
        None \<Rightarrow> Done (a, Some (Other ''json: marshal''))
      | Some payload \<Rightarrow>
          if sup_States (ag_suppress a) then Done (a, None)
          else bind_exec (flush_metrics env a) (\<lambda>a1. put_mixed env ctx typeMetrics subjInventoryMetrics payload a1))"

definition TS_SynchronizeInventory :: "svc_env \<Rightarrow> http_Header option \<Rightarrow> bytes \<Rightarrow> Agent \<Rightarrow> (Agent \<times> error option) exec" where
  "TS_SynchronizeInventory env ctx payload a =
     (if sup_Inventory (ag_suppress a) then Done (a, None)
      else bind_exec (flush_metrics env a) (\<lambda>a1. put_mixed env ctx typeInventory subjInventoryMetrics payload a1))"

subsection \<open>Extended inventory\<close>

definition zero_MonitoredInfo :: MonitoredInfo where
  "zero_MonitoredInfo = \<lparr>mi_Status = [], mi_LastCheckTime = None, mi_NextCheckTime = None, mi_LastPluginOutput = []\<rparr>"

text \<open>
  The block that is the same for a resource and for a service: the monitored fields are taken out of the
  properties; the last component is the downtime depth, if there is one.
\<close>

type_synonym props = "bytes \<rightharpoonup> TypedValue"

definition take_string :: "bytes \<Rightarrow> (MonitoredInfo \<Rightarrow> bytes \<Rightarrow> MonitoredInfo) \<Rightarrow> MonitoredInfo \<times> props \<Rightarrow> (MonitoredInfo \<times> props) exec" where
  "take_string key upd im =
     (case im of (i, m) \<Rightarrow>
        (case m key of
           None \<Rightarrow> Done (i, m)
         | Some v \<Rightarrow> bind_exec (deref (tv_StringValue v)) (\<lambda>s. Done (upd i s, m(key := None)))))"

definition take_time :: "bytes \<Rightarrow> (MonitoredInfo \<Rightarrow> timestamp option \<Rightarrow> MonitoredInfo) \<Rightarrow> timestamp option \<Rightarrow> MonitoredInfo \<times> props
    \<Rightarrow> MonitoredInfo \<times> props" where
  "take_time key upd dflt im =
     (case im of (i, m) \<Rightarrow>
        (case m key of
           None \<Rightarrow> (if dflt = None then i else upd i dflt, m)
         | Some v \<Rightarrow> (upd i (tv_TimeValue v), m(key := None))))"

definition take_depth :: "MonitoredInfo \<times> props \<Rightarrow> (MonitoredInfo \<times> props \<times> int option) exec" where
  "take_depth im =
     (case im of (i, m) \<Rightarrow>
        (case m ''ScheduledDowntimeDepth'' of
           None \<Rightarrow> Done (i, m, None)
         | Some v \<Rightarrow> bind_exec (deref (tv_IntegerValue v)) (\<lambda>n. Done (i, m(''ScheduledDowntimeDepth'' := None), Some n))))"

definition ext_info :: "timestamp \<Rightarrow> props \<Rightarrow> (MonitoredInfo \<times> props \<times> int option) exec" where
  "ext_info now m0 =
     bind_exec (take_string ''MonitorStatus'' SetStatus (zero_MonitoredInfo, m0)) (\<lambda>im1.
     bind_exec (take_string ''LastPluginOutput'' SetLastPluginOutput im1) (\<lambda>im2.
       take_depth (take_time ''NextCheckTime'' SetNextCheckTime None (take_time ''LastCheckTime'' SetLastCheckTime (Some now) im2))))"

definition keep_props :: "bytes set \<Rightarrow> (bytes \<rightharpoonup> TypedValue) \<Rightarrow> (bytes \<rightharpoonup> TypedValue)" where
  "keep_props ks m = (\<lambda>k. if k \<in> ks then m k else None)"

definition filter_service :: "timestamp \<Rightarrow> bytes \<Rightarrow> InventoryService \<Rightarrow> (InventoryService \<times> MonitoredService \<times> Downtime list) exec" where
  "filter_service now hostName iSvc =
     (let b = is_BaseInfo iSvc in
      bind_exec (ext_info now (bi_Properties b)) (\<lambda>(info, props, depth).
        Done (\<lparr>is_BaseInfo = b\<lparr>bi_Properties := keep_props {''Notes''} (bi_Properties b)\<rparr>\<rparr>,
              \<lparr>ms_BaseInfo = b\<lparr>bi_Properties := props\<rparr>, ms_MonitoredInfo = info, ms_Metrics = []\<rparr>,
              case depth of
                None \<Rightarrow> []
              | Some n \<Rightarrow> [\<lparr>dt_EntityType = ''HOST'', dt_EntityName = hostName, dt_HostName = hostName,
                            dt_ServiceDescription = bi_Description b, dt_ScheduledDowntimeDepth = n\<rparr>])))"

definition filter_resource :: "timestamp \<Rightarrow> InventoryResource \<Rightarrow> (InventoryResource \<times> MonitoredResource \<times> Downtime list) exec" where
  "filter_resource now iRes =
     (let br = ir_BaseResource iRes; b = br_BaseInfo br in
      bind_exec (ext_info now (bi_Properties b)) (\<lambda>(info, props, depth).
      bind_exec (map_exec (filter_service now (bi_Name b)) (ir_Services iRes)) (\<lambda>rs.
        Done (\<lparr>ir_BaseResource = br\<lparr>br_BaseInfo := b\<lparr>bi_Properties := keep_props {''Alias'', ''Notes''} (bi_Properties b)\<rparr>\<rparr>,
               ir_Services = map fst rs\<rparr>,
              \<lparr>mr_BaseResource = br\<lparr>br_BaseInfo := b\<lparr>bi_Properties := props\<rparr>\<rparr>, mr_MonitoredInfo = info,
               mr_Services = map (fst \<circ> snd) rs\<rparr>,
              (case depth of
                 None \<Rightarrow> []
               | Some n \<Rightarrow> [\<lparr>dt_EntityType = ''HOST'', dt_EntityName = bi_Name b, dt_HostName = bi_Name b,
                             dt_ServiceDescription = [], dt_ScheduledDowntimeDepth = n\<rparr>]) @ concat (map (snd \<circ> snd) rs)))))"

definition filterExtInfo :: "timestamp \<Rightarrow> InventoryRequest \<Rightarrow> (InventoryRequest \<times> ResourcesWithServicesRequest \<times> Downtimes) exec" where
  "filterExtInfo now p =
     bind_exec (map_exec (filter_resource now) (iq_Resources p)) (\<lambda>rs.
       Done (p\<lparr>iq_Resources := map fst rs\<rparr>,
             zero_ResourcesWithServicesRequest\<lparr>rq_Resources := map (fst \<circ> snd) rs\<rparr>,
             \<lparr>dts_BizHostServiceInDowntimes = concat (map (snd \<circ> snd) rs)\<rparr>))"

text \<open>
  \<open>extEnv\<close> is the variable \<open>TCG_INVENTORY_EXT\<close>; \<open>um\<close> and \<open>ma\<close> are the JSON codec of inventory requests.
  The downtimes are only logged.  The contexts these two operations are called with carry no header (only the
  operations above and the dispatcher attach one), so the two publications of \<open>SyncExt\<close> share none.
\<close>

definition ext_disabled :: "bytes option \<Rightarrow> bool" where
  "ext_disabled extEnv = (case extEnv of None \<Rightarrow> False | Some v \<Rightarrow> ParseBool v = Some False)"

definition SyncExt :: "svc_env \<Rightarrow> bytes option \<Rightarrow> (InventoryRequest \<Rightarrow> bytes option) \<Rightarrow> InventoryRequest \<Rightarrow> Agent
    \<Rightarrow> (Agent \<times> error option) exec" where
  "SyncExt env extEnv ma p a =
     (if ext_disabled extEnv
      then (case ma p of
              None \<Rightarrow> Done (a, Some (Other ''json: marshal''))
            | Some payload \<Rightarrow> TS_SynchronizeInventory env None payload a)
      else bind_exec (filterExtInfo (sv_now env) p) (\<lambda>(p', mon, dt).
             case ma p' of
               None \<Rightarrow> Done (a, Some (Other ''json: marshal''))
             | Some payload \<Rightarrow>
                 bind_exec (TS_SynchronizeInventory env None payload a) (\<lambda>(a1, e).
                   case e of
                     Some _ \<Rightarrow> Done (a1, e)
                   | None \<Rightarrow>
                       if length (rq_Resources mon) > 0
                       then (case MakeTracerContext env a1 of (a2, tc) \<Rightarrow> SendStates env None (RWS_SetContext mon tc) a2)
                       else Done (a1, None))))"

definition SynchronizeInventoryExt :: "svc_env \<Rightarrow> bytes option \<Rightarrow> (bytes \<Rightarrow> InventoryRequest option) \<Rightarrow> (InventoryRequest \<Rightarrow> bytes option)
    \<Rightarrow> bytes \<Rightarrow> Agent \<Rightarrow> (Agent \<times> error option) exec" where
  "SynchronizeInventoryExt env extEnv um ma payload a =
     (if ext_disabled extEnv then TS_SynchronizeInventory env None payload a
      else case um payload of
        None \<Rightarrow> Done (a, Some (Other ''json: unmarshal''))
      | Some p \<Rightarrow> SyncExt env extEnv ma p a)"

subsection \<open>Lemmas\<close>

lemma pub_agent_cases:
  "pub_agent subj data h a = (a', e) \<Longrightarrow>
     (int (length data) \<le> nc_MaxPayload (ns_config (ag_nats a)) \<and> e = None \<and>
        a' = a\<lparr>ag_pub := (ag_pub a)\<lparr>pc_waiting := pc_waiting (ag_pub a) @ [\<lparr>nm_Subject = subj, nm_Data = data, nm_Header = h\<rparr>]\<rparr>\<rparr>) \<or>
     (int (length data) > nc_MaxPayload (ns_config (ag_nats a)) \<and> e = Some (Errorf ErrPayloadLim subj) \<and> a' = a)"
  by (auto simp: pub_agent_def Pub_def nats_error_value_def split: if_splits)

lemma span_header_Get_other:
  assumes "CanonicalHeaderKey k \<notin> {HdrSpanSpanID, HdrSpanTraceID, HdrSpanTraceFlags}"
  shows "Header_Get (span_header env h) k = Header_Get h k"
  using assms by (auto simp: span_header_def header_names_canonical split: prod.splits)

lemma span_header_at:
  assumes "k \<notin> {HdrSpanSpanID, HdrSpanTraceID, HdrSpanTraceFlags}"
  shows "span_header env h k = h k"
  using assms by (auto simp: span_header_def header_names_canonical Header_Set_def split: prod.splits)

definition ext_keys :: "bytes set" where
  "ext_keys = {''MonitorStatus'', ''LastPluginOutput'', ''LastCheckTime'', ''NextCheckTime'', ''ScheduledDowntimeDepth''}"

definition ext_values_ok :: "(bytes \<rightharpoonup> TypedValue) \<Rightarrow> bool" where
  "ext_values_ok m \<longleftrightarrow>
     (\<forall>v. m ''MonitorStatus'' = Some v \<longrightarrow> tv_StringValue v \<noteq> None) \<and>
     (\<forall>v. m ''LastPluginOutput'' = Some v \<longrightarrow> tv_StringValue v \<noteq> None) \<and>
     (\<forall>v. m ''ScheduledDowntimeDepth'' = Some v \<longrightarrow> tv_IntegerValue v \<noteq> None)"

lemma take_string_Done:
  assumes "take_string key upd (i, m) = Done (i', m')"
  shows "m' = m(key := None) \<and> (\<forall>v. m key = Some v \<longrightarrow> tv_StringValue v \<noteq> None)"
  using assms by (auto simp: take_string_def fun_upd_idem split: option.splits)

lemma take_string_returns:
  "(\<forall>v. m key = Some v \<longrightarrow> tv_StringValue v \<noteq> None) \<Longrightarrow> \<exists>i'. take_string key upd (i, m) = Done (i', m(key := None))"
  by (auto simp: take_string_def fun_upd_idem split: option.splits)

lemma take_time_snd [simp]: "snd (take_time key upd dflt (i, m)) = m(key := None)"
  by (auto simp: take_time_def fun_upd_idem split: option.splits)

lemma restrict_ext_keys:
  "m |` (- ext_keys) = m(''MonitorStatus'' := None, ''LastPluginOutput'' := None, ''LastCheckTime'' := None,
     ''NextCheckTime'' := None, ''ScheduledDowntimeDepth'' := None)"
  by (rule ext) (simp add: ext_keys_def restrict_map_def)

lemma take_depth_Done:
  assumes "take_depth im = Done (i', m', d)"
  shows "m' = (snd im)(''ScheduledDowntimeDepth'' := None) \<and> d = Option.bind (snd im ''ScheduledDowntimeDepth'') tv_IntegerValue \<and>
    (\<forall>v. snd im ''ScheduledDowntimeDepth'' = Some v \<longrightarrow> tv_IntegerValue v \<noteq> None)"
  using assms by (auto simp: take_depth_def fun_upd_idem split: option.splits prod.splits)

lemma take_depth_returns:
  "(\<forall>v. snd im ''ScheduledDowntimeDepth'' = Some v \<longrightarrow> tv_IntegerValue v \<noteq> None) \<Longrightarrow> \<exists>r. take_depth im = Done r"
  by (auto simp: take_depth_def split: option.splits prod.splits)

lemma take_times_snd:
  "snd (take_time ''NextCheckTime'' SetNextCheckTime None (take_time ''LastCheckTime'' SetLastCheckTime (Some now) (i, m))) =
     m(''LastCheckTime'' := None, ''NextCheckTime'' := None)"
  by (cases "take_time ''LastCheckTime'' SetLastCheckTime (Some now) (i, m)")
    (metis snd_conv take_time_snd)

lemma ext_info_props:
  assumes "ext_info now m = Done (info, props, depth)"
  shows "props = m |` (- ext_keys) \<and> depth = Option.bind (m ''ScheduledDowntimeDepth'') tv_IntegerValue \<and> ext_values_ok m"
proof -
  obtain i1 m1 i2 m2 where 1: "take_string ''MonitorStatus'' SetStatus (zero_MonitoredInfo, m) = Done (i1, m1)"
      "take_string ''LastPluginOutput'' SetLastPluginOutput (i1, m1) = Done (i2, m2)"
      "take_depth (take_time ''NextCheckTime'' SetNextCheckTime None (take_time ''LastCheckTime'' SetLastCheckTime (Some now) (i2, m2)))
         = Done (info, props, depth)"
    using assms by (auto simp: ext_info_def)
  show ?thesis
    using take_string_Done [OF 1(1)] take_string_Done [OF 1(2)] take_depth_Done [OF 1(3)]
    unfolding restrict_ext_keys ext_values_ok_def take_times_snd by simp
qed

lemma ext_info_returns:
  assumes "ext_values_ok m"
  shows "\<exists>r. ext_info now m = Done r"
proof -
  obtain i1 where 1: "take_string ''MonitorStatus'' SetStatus (zero_MonitoredInfo, m) = Done (i1, m(''MonitorStatus'' := None))"
    using take_string_returns assms unfolding ext_values_ok_def by blast
  have "\<forall>v. (m(''MonitorStatus'' := None)) ''LastPluginOutput'' = Some v \<longrightarrow> tv_StringValue v \<noteq> None"
    using assms unfolding ext_values_ok_def by simp
  then obtain i2 where 2: "take_string ''LastPluginOutput'' SetLastPluginOutput (i1, m(''MonitorStatus'' := None))
      = Done (i2, m(''MonitorStatus'' := None, ''LastPluginOutput'' := None))"
    using take_string_returns [of "m(''MonitorStatus'' := None)" "''LastPluginOutput''" SetLastPluginOutput i1] by blast
  show ?thesis
    unfolding ext_info_def 1 bind_exec.simps 2
    by (rule take_depth_returns) (use assms in \<open>simp add: take_times_snd ext_values_ok_def\<close>)
qed

text \<open>What \<open>filterExtInfo\<close> does to a service and to a resource: names stay, the properties are divided.\<close>

definition service_split :: "InventoryService \<Rightarrow> InventoryService \<times> MonitoredService \<times> 'd \<Rightarrow> bool" where
  "service_split i r \<longleftrightarrow>
     is_BaseInfo (fst r) = (is_BaseInfo i)\<lparr>bi_Properties := bi_Properties (is_BaseInfo i) |` {''Notes''}\<rparr> \<and>
     ms_BaseInfo (fst (snd r)) = (is_BaseInfo i)\<lparr>bi_Properties := bi_Properties (is_BaseInfo i) |` (- ext_keys)\<rparr> \<and>
     ms_Metrics (fst (snd r)) = []"

definition resource_split :: "InventoryResource \<Rightarrow> InventoryResource \<times> MonitoredResource \<times> 'd \<Rightarrow> bool" where
  "resource_split i r \<longleftrightarrow>
     (let b = ir_BaseResource i; bi = br_BaseInfo b; p = bi_Properties bi in
      ir_BaseResource (fst r) = b\<lparr>br_BaseInfo := bi\<lparr>bi_Properties := p |` {''Alias'', ''Notes''}\<rparr>\<rparr> \<and>
      mr_BaseResource (fst (snd r)) = b\<lparr>br_BaseInfo := bi\<lparr>bi_Properties := p |` (- ext_keys)\<rparr>\<rparr> \<and>
      list_all2 service_split (ir_Services i) (zip (ir_Services (fst r)) (map (\<lambda>s. (s, ())) (mr_Services (fst (snd r))))) \<and>
      length (ir_Services (fst r)) = length (ir_Services i) \<and> length (mr_Services (fst (snd r))) = length (ir_Services i))"

lemma keep_props_restrict: "keep_props ks m = m |` ks"
  by (simp add: keep_props_def restrict_map_def fun_eq_iff)

lemma map_exec_list_all2:
  "map_exec f xs = Done ys \<Longrightarrow> list_all2 (\<lambda>x y. f x = Done y) xs ys"
  by (induction xs arbitrary: ys) auto

lemma list_all2_left: "list_all2 P xs ys \<Longrightarrow> x \<in> set xs \<Longrightarrow> \<exists>y. P x y"
  by (induction rule: list_all2_induct) auto

lemma map_exec_returns: "(\<forall>x\<in>set xs. \<exists>y. f x = Done y) \<Longrightarrow> \<exists>ys. map_exec f xs = Done ys"
  by (induction xs) auto

lemma filter_service_split:
  assumes "filter_service now h i = Done r"
  shows "service_split i r \<and> ext_values_ok (bi_Properties (is_BaseInfo i))"
proof -
  obtain info props d where e: "ext_info now (bi_Properties (is_BaseInfo i)) = Done (info, props, d)"
    using assms by (auto simp: filter_service_def Let_def)
  then show ?thesis using assms ext_info_props [OF e]
    by (auto simp: filter_service_def Let_def service_split_def keep_props_restrict)
qed

lemma filter_service_returns:
  "ext_values_ok (bi_Properties (is_BaseInfo i)) \<Longrightarrow> \<exists>r. filter_service now h i = Done r"
  using ext_info_returns [of "bi_Properties (is_BaseInfo i)" now] by (auto simp: filter_service_def Let_def)

definition resource_values_ok :: "InventoryResource \<Rightarrow> bool" where
  "resource_values_ok i \<longleftrightarrow> ext_values_ok (bi_Properties (br_BaseInfo (ir_BaseResource i))) \<and>
     (\<forall>s\<in>set (ir_Services i). ext_values_ok (bi_Properties (is_BaseInfo s)))"

lemma list_all2_zip_units:
  assumes "list_all2 P xs rs" "\<And>x r. P x r \<Longrightarrow> Q x (fst r, fst (snd r), ())"
  shows "list_all2 Q xs (zip (map fst rs) (map (\<lambda>s. (s, ())) (map (fst \<circ> snd) rs)))"
  using assms by (induction rule: list_all2_induct) auto

lemma filter_resource_split:
  assumes "filter_resource now i = Done r"
  shows "resource_split i r \<and> resource_values_ok i"
proof -
  let ?bi = "br_BaseInfo (ir_BaseResource i)"
  obtain info props d rs dts where e: "ext_info now (bi_Properties ?bi) = Done (info, props, d)"
      "map_exec (filter_service now (bi_Name ?bi)) (ir_Services i) = Done rs"
      "r = (\<lparr>ir_BaseResource = (ir_BaseResource i)\<lparr>br_BaseInfo := ?bi\<lparr>bi_Properties := keep_props {''Alias'', ''Notes''} (bi_Properties ?bi)\<rparr>\<rparr>,
               ir_Services = map fst rs\<rparr>,
             \<lparr>mr_BaseResource = (ir_BaseResource i)\<lparr>br_BaseInfo := ?bi\<lparr>bi_Properties := props\<rparr>\<rparr>, mr_MonitoredInfo = info,
               mr_Services = map (fst \<circ> snd) rs\<rparr>, dts)"
    using assms by (auto simp: filter_resource_def Let_def)
  have l: "list_all2 (\<lambda>x y. filter_service now (bi_Name ?bi) x = Done y) (ir_Services i) rs"
    using e(2) by (rule map_exec_list_all2)
  have s: "list_all2 service_split (ir_Services i) (zip (map fst rs) (map (\<lambda>s. (s, ())) (map (fst \<circ> snd) rs)))"
    using l by (rule list_all2_zip_units) (use filter_service_split in \<open>fastforce simp: service_split_def\<close>)
  have "\<forall>x\<in>set (ir_Services i). ext_values_ok (bi_Properties (is_BaseInfo x))"
    using list_all2_left [OF l] filter_service_split by blast
  then show ?thesis
    using ext_info_props [OF e(1)] s list_all2_lengthD [OF l]
    unfolding e(3) by (simp add: resource_split_def resource_values_ok_def Let_def keep_props_restrict)
qed

lemma filter_resource_returns:
  assumes "resource_values_ok i"
  shows "\<exists>r. filter_resource now i = Done r"
proof -
  let ?bi = "br_BaseInfo (ir_BaseResource i)"
  obtain e where e: "ext_info now (bi_Properties ?bi) = Done e"
    using ext_info_returns assms unfolding resource_values_ok_def by blast
  obtain rs where "map_exec (filter_service now (bi_Name ?bi)) (ir_Services i) = Done rs"
    using map_exec_returns [of "ir_Services i" "filter_service now (bi_Name ?bi)"] assms filter_service_returns
    unfolding resource_values_ok_def by blast
  then show ?thesis using e by (cases e) (auto simp: filter_resource_def Let_def)
qed

subsection \<open>Properties\<close>


text \<open>
  Extended inventory is divided without loss: \<open>filterExtInfo\<close> returns exactly when the values under the
  keys it reads have the type it expects; then the inventory and the states name the same resources and
  services in the same order, the inventory keeps only \<open>Alias\<close> and \<open>Notes\<close>, and the states keep every
  property but the five keys that become fields.
\<close>

theorem filterExtInfo_splits:
  shows "(\<exists>q. filterExtInfo now p = Done q) = (\<forall>i\<in>set (iq_Resources p). resource_values_ok i) \<and>
    (\<forall>p' mon dt. filterExtInfo now p = Done (p', mon, dt) \<longrightarrow>
       length (iq_Resources p') = length (iq_Resources p) \<and> length (rq_Resources mon) = length (iq_Resources p) \<and>
       (\<forall>k<length (iq_Resources p). resource_split (iq_Resources p ! k) (iq_Resources p' ! k, rq_Resources mon ! k, ())))"
proof (intro conjI allI impI)
  let ?f = "filter_resource now"
  show "(\<exists>q. filterExtInfo now p = Done q) = (\<forall>i\<in>set (iq_Resources p). resource_values_ok i)"
  proof
    assume "\<exists>q. filterExtInfo now p = Done q"
    then obtain rs where "map_exec ?f (iq_Resources p) = Done rs" by (auto simp: filterExtInfo_def)
    from list_all2_left [OF map_exec_list_all2 [OF this]]
    show "\<forall>i\<in>set (iq_Resources p). resource_values_ok i" using filter_resource_split by blast
  next
    assume "\<forall>i\<in>set (iq_Resources p). resource_values_ok i"
    then have "\<forall>i\<in>set (iq_Resources p). \<exists>y. ?f i = Done y" using filter_resource_returns by blast
    then have "\<exists>rs. map_exec ?f (iq_Resources p) = Done rs" by (rule map_exec_returns)
    then show "\<exists>q. filterExtInfo now p = Done q" by (auto simp: filterExtInfo_def)
  qed
next
  fix p' mon dt
  assume "filterExtInfo now p = Done (p', mon, dt)"
  then obtain rs where rs: "map_exec (filter_resource now) (iq_Resources p) = Done rs"
      "iq_Resources p' = map fst rs" "rq_Resources mon = map (fst \<circ> snd) rs"
    by (auto simp: filterExtInfo_def)
  have l: "list_all2 (\<lambda>x y. filter_resource now x = Done y) (iq_Resources p) rs"
    using rs(1) by (rule map_exec_list_all2)
  show "length (iq_Resources p') = length (iq_Resources p)" "length (rq_Resources mon) = length (iq_Resources p)"
    using l rs by (auto dest: list_all2_lengthD)
  fix k
  assume k: "k < length (iq_Resources p)"
  then have "resource_split (iq_Resources p ! k) (rs ! k)"
    using filter_resource_split list_all2_nthD [OF l k] by blast
  then show "resource_split (iq_Resources p ! k) (iq_Resources p' ! k, rq_Resources mon ! k, ())"
    using k rs list_all2_lengthD [OF l] by (simp add: resource_split_def)
qed

subsection \<open>Concrete runs\<close>

definition demo_limited :: Agent where
  "demo_limited = demo_agent\<lparr>ag_cfg := defaults\<lparr>cfg_Connector := (cfg_Connector defaults)\<lparr>c_Nats := (c_Nats (cfg_Connector defaults))\<lparr>n_NatsMaxPayload := 8\<rparr>\<rparr>\<rparr>\<rparr>"


definition demo_props :: props where
  "demo_props = [''Alias'' \<mapsto> zero_TypedValue\<lparr>tv_StringValue := Some ''web''\<rparr>,
     ''MonitorStatus'' \<mapsto> zero_TypedValue\<lparr>tv_StringValue := Some ''HOST_UP''\<rparr>]"

definition demo_inventory :: InventoryRequest where
  "demo_inventory = \<lparr>iq_Context = snd (MakeTracerContext demo_svc_env demo_agent), iq_OwnershipType = [],
     iq_Resources = [\<lparr>ir_BaseResource = \<lparr>br_BaseInfo = \<lparr>bi_Name = ''host'', bi_Type = ''host'', bi_Owner = [], bi_Category = [],
        bi_Description = [], bi_Properties = demo_props\<rparr>, br_Device = []\<rparr>, ir_Services = []\<rparr>], iq_Groups = []\<rparr>"

theorem filterExtInfo_splits_witness:
  "\<exists>p' mon dt. filterExtInfo 7 demo_inventory = Done (p', mon, dt) \<and> length (rq_Resources mon) = 1 \<and>
     bi_Properties (br_BaseInfo (ir_BaseResource (iq_Resources p' ! 0))) ''Alias'' = demo_props ''Alias'' \<and>
     bi_Properties (br_BaseInfo (mr_BaseResource (rq_Resources mon ! 0))) ''MonitorStatus'' = None"
proof -
  have "\<forall>i\<in>set (iq_Resources demo_inventory). resource_values_ok i"
    by (simp add: demo_inventory_def resource_values_ok_def ext_values_ok_def demo_props_def zero_TypedValue_def)
  then obtain p' mon dt where r: "filterExtInfo 7 demo_inventory = Done (p', mon, dt)"
    using filterExtInfo_splits [of 7 demo_inventory] by auto
  then have "length (rq_Resources mon) = 1 \<and> resource_split (iq_Resources demo_inventory ! 0) (iq_Resources p' ! 0, rq_Resources mon ! 0, ())"
    using filterExtInfo_splits [of 7 demo_inventory] by (simp add: demo_inventory_def)
  then show ?thesis
    using r by (auto simp: resource_split_def demo_inventory_def Let_def ext_keys_def demo_props_def)
qed

end
