(* ===== verification/Nats_Handlers.thy ===== *)
theory Nats_Handlers
  imports Transit_Service Nats_Dispatcher
begin

text \<open>
  The handlers of the durables, \<^verbatim>\<open>services/nats.go\<close>: \<open>makeDurable\<close> wraps a message handler with the reading of
  legacy payloads, the span of the publisher and the reaction to errors; \<open>adaptClient\<close> sends a message to one
  Groundwork server; \<open>makeSubscriptions\<close> builds the handlers of all clients.

  The state behind a handler is the agent (only read), the network and the number of calls of
  \<open>StopTransport\<close>, which puts the task \<open>stopTransport\<close> into the queue of the agent.  The header of a message is
  one map that \<open>msg.Headers()\<close> returns again and again, so changes made by the wrapper are seen by the handler:
  the message is passed on with its new header.  Counters and spans are left out.
\<close>

record 'w handler_state =
  hs_agent :: Agent
  hs_net :: "'w net"
  hs_stops :: nat

subsection \<open>Headers that may be nil\<close>

definition hdr_Get :: "http_Header option \<Rightarrow> bytes \<Rightarrow> bytes" where
  "hdr_Get h k = (case h of None \<Rightarrow> [] | Some m \<Rightarrow> Header_Get m k)"

definition hdr_Set :: "bytes \<Rightarrow> bytes \<Rightarrow> http_Header option \<Rightarrow> http_Header option exec" where
  "hdr_Set k v h = (case h of None \<Rightarrow> Panic NilMap | Some m \<Rightarrow> Done (Some (Header_Set k v m)))"

definition hdr_Del :: "bytes \<Rightarrow> http_Header option \<Rightarrow> http_Header option" where
  "hdr_Del k h = map_option (Header_Del k) h"

subsection \<open>Sending to a client\<close>

definition client_fn :: "payloadType \<Rightarrow> ('w net_env \<Rightarrow> GWClient \<Rightarrow> http_Header option \<Rightarrow> bytes \<Rightarrow> 'w net \<Rightarrow> 'w net \<times> (error + bytes)) option" where
  "client_fn t =
     (if t = typeEvents then Some Gw_Client.SendEvents
      else if t = typeEventsAck then Some Gw_Client.SendEventsAck
      else if t = typeEventsUnack then Some Gw_Client.SendEventsUnack
      else if t = typeClearInDowntime then Some Gw_Client.ClearInDowntime
      else if t = typeSetInDowntime then Some Gw_Client.SetInDowntime
      else if t = typeInventory then Some Gw_Client.SynchronizeInventory
      else if t = typeMetrics then Some Gw_Client.SendResourcesWithMetrics
      else None)"

text \<open>The context of the dispatcher carries no header, so the header of the message becomes that of the request.\<close>

definition adaptClient :: "'w net_env \<Rightarrow> GWClient \<Rightarrow> 'w handler_state \<Rightarrow> Msg \<Rightarrow> 'w handler_state \<times> error option" where
  "adaptClient env gwClient st msg =
     (case FromStr (hdr_Get (msg_Headers msg) HdrPayloadType) of
        None \<Rightarrow> (st, Some (Other ''unknown payload type''))
      | Some pType \<Rightarrow>
          (let todo = hdr_Get (msg_Headers msg) HdrTodoTracerCtx \<noteq> [] \<and> hdr_Get (msg_Headers msg) HdrCompressed = [];
               data = (if todo then fixTracerContext (hs_agent st) (msg_Data msg) else msg_Data msg);
               header = (if todo then hdr_Del HdrTodoTracerCtx (msg_Headers msg) else msg_Headers msg);
               ctx = (case header of None \<Rightarrow> Some Map.empty | Some h \<Rightarrow> CtxWithHeader None h)
           in case client_fn pType of
                None \<Rightarrow> (st, Some (Errorf ErrDispatcher ''unknown payload type''))
              | Some fn \<Rightarrow>
                  (case fn env gwClient ctx data (hs_net st) of
                     (n, r) \<Rightarrow> (st\<lparr>hs_net := n\<rparr>, case r of Inl e \<Rightarrow> Some e | Inr _ \<Rightarrow> None))))"

subsection \<open>The wrapper\<close>

definition durable_name :: "bytes \<Rightarrow> bytes" where
  "durable_name durable = fold (\<lambda>s d. ReplaceAll d s []) [''/'', ''.'', ''*'', ''>''] durable"

text \<open>The span that the header describes; decoding failures leave zero bytes.\<close>

definition header_span :: "http_Header option \<Rightarrow> SpanContext option exec" where
  "header_span header =
     (let s = hdr_Get header HdrSpanSpanID; t = hdr_Get header HdrSpanTraceID; tf = hdr_Get header HdrSpanTraceFlags
      in if s = [] \<or> t = [] then Done None
         else bind_exec (case DecodeString tf of
                           None \<Rightarrow> Done 0
                         | Some [] \<Rightarrow> Panic IndexOutOfRange
                         | Some (b # _) \<Rightarrow> Done (char_byte b)) (\<lambda>flags.
                Done (Some \<lparr>sc_SpanID = (case DecodeString s of None \<Rightarrow> sc_SpanID zero_SpanContext
                                         | Some b \<Rightarrow> go_copy (sc_SpanID zero_SpanContext) b),
                            sc_TraceID = (case DecodeString t of None \<Rightarrow> sc_TraceID zero_SpanContext
                                         | Some b \<Rightarrow> go_copy (sc_TraceID zero_SpanContext) b),
                            sc_TraceFlags = flags\<rparr>)))"

text \<open>What is done before the handler is called: the span of the publisher and the message with its new header.\<close>

definition open_message :: "(bytes \<Rightarrow> natsPayload2 option) \<Rightarrow> Msg \<Rightarrow> (SpanContext option \<times> Msg) exec" where
  "open_message um2 msg =
     bind_exec (natsPayload_Unmarshal um2 zero_natsPayload (msg_Data msg)) (\<lambda>(p, err).
       if err = None
       then bind_exec (payloadType_String (np_Type p)) (\<lambda>pType.
              if hdr_Get (msg_Headers msg) HdrPayloadType = []
              then bind_exec (hdr_Set HdrPayloadType pType (msg_Headers msg)) (\<lambda>h.
                     Done (Some (np_SpanContext p), msg\<lparr>msg_Headers := h\<rparr>))
              else Done (Some (np_SpanContext p), msg))
       else bind_exec (header_span (msg_Headers msg)) (\<lambda>sc. Done (sc, msg)))"

definition react :: "error option \<Rightarrow> 'w handler_state \<Rightarrow> 'w handler_state" where
  "react err st =
     (case err of
        None \<Rightarrow> st
      | Some e \<Rightarrow>
          if errors_Is e ErrTransient then st
          else if errors_Is e ErrUnauthorized then st\<lparr>hs_stops := hs_stops st + 1\<rparr>
          else st)"

definition durable_handle :: "(bytes \<Rightarrow> natsPayload2 option) \<Rightarrow> ('w handler_state \<Rightarrow> Msg \<Rightarrow> 'w handler_state \<times> error option)
    \<Rightarrow> 'w handler_state Handler" where
  "durable_handle um2 handleWithCtx st msg =
     bind_exec (open_message um2 msg) (\<lambda>(span, msg').
       case handleWithCtx st msg' of (st', err) \<Rightarrow> Done (react err st', err))"

record 'w DurableCfg =
  dc_Durable :: bytes
  dc_Handler :: "'w handler_state Handler"

definition makeDurable :: "(bytes \<Rightarrow> natsPayload2 option) \<Rightarrow> bytes \<Rightarrow> ('w handler_state \<Rightarrow> Msg \<Rightarrow> 'w handler_state \<times> error option) \<Rightarrow> 'w DurableCfg" where
  "makeDurable um2 durable handleWithCtx =
     \<lparr>dc_Durable = durable_name durable, dc_Handler = durable_handle um2 handleWithCtx\<rparr>"

definition client_durable :: "GWClient \<Rightarrow> bytes" where
  "client_durable c = ''#'' @ gw_HostName (gc_GWConnection c) @ ''#''"

definition makeSubscriptions :: "(bytes \<Rightarrow> natsPayload2 option) \<Rightarrow> 'w net_env \<Rightarrow> GWClient list \<Rightarrow> 'w DurableCfg list" where
  "makeSubscriptions um2 env gwClients = map (\<lambda>c. makeDurable um2 (client_durable c) (adaptClient env c)) gwClients"

subsection \<open>When the wrapper returns\<close>

definition readable_msg :: "(bytes \<Rightarrow> natsPayload2 option) \<Rightarrow> Msg \<Rightarrow> bool" where
  "readable_msg um2 m \<longleftrightarrow>
     (case natsPayload_Unmarshal um2 zero_natsPayload (msg_Data m) of
        Panic _ \<Rightarrow> False
      | Done (p, None) \<Rightarrow> np_Type p < 8 \<and> (hdr_Get (msg_Headers m) HdrPayloadType = [] \<longrightarrow> msg_Headers m \<noteq> None)
      | Done (p, Some _) \<Rightarrow>
          hdr_Get (msg_Headers m) HdrSpanSpanID = [] \<or> hdr_Get (msg_Headers m) HdrSpanTraceID = [] \<or>
          DecodeString (hdr_Get (msg_Headers m) HdrSpanTraceFlags) \<noteq> Some [])"

lemma header_span_returns:
  "hdr_Get h HdrSpanSpanID = [] \<or> hdr_Get h HdrSpanTraceID = [] \<or> DecodeString (hdr_Get h HdrSpanTraceFlags) \<noteq> Some [] \<Longrightarrow>
     \<exists>sc. header_span h = Done sc"
  by (auto simp: header_span_def Let_def split: option.splits list.splits)

lemma hdr_Set_returns: "h \<noteq> None \<Longrightarrow> \<exists>h'. hdr_Set k v h = Done h'"
  by (auto simp: hdr_Set_def)

lemma open_message_returns:
  assumes "readable_msg um2 m"
  shows "\<exists>r. open_message um2 m = Done r"
proof -
  obtain p err where u: "natsPayload_Unmarshal um2 zero_natsPayload (msg_Data m) = Done (p, err)"
    using assms by (auto simp: readable_msg_def split: exec.splits)
  show ?thesis
  proof (cases err)
    case None
    then have "np_Type p < 8" "hdr_Get (msg_Headers m) HdrPayloadType = [] \<longrightarrow> msg_Headers m \<noteq> None"
      using assms u by (simp_all add: readable_msg_def)
    moreover obtain s where "payloadType_String (np_Type p) = Done s"
      using payloadType_String_Done_iff calculation(1) by blast
    ultimately show ?thesis
      using u None hdr_Set_returns [of "msg_Headers m" HdrPayloadType s] by (auto simp: open_message_def)
  next
    case (Some e)
    then show ?thesis
      using assms u header_span_returns [of "msg_Headers m"] by (auto simp: open_message_def readable_msg_def)
  qed
qed

lemma open_message_data: "open_message um2 m = Done (sc, m') \<Longrightarrow> msg_Data m' = msg_Data m \<and> msg_Stream m' = msg_Stream m"
  by (auto simp: open_message_def split: if_splits)

lemma react_simps [simp]: "hs_agent (react e st) = hs_agent st" "hs_net (react e st) = hs_net st"
  by (auto simp: react_def split: option.splits)

lemma adaptClient_frame:
  "hs_agent (fst (adaptClient env c st m)) = hs_agent st \<and> hs_stops (fst (adaptClient env c st m)) = hs_stops st"
  by (cases "FromStr (hdr_Get (msg_Headers m) HdrPayloadType)"; cases "client_fn (the (FromStr (hdr_Get (msg_Headers m) HdrPayloadType))) ::
      ('a net_env \<Rightarrow> GWClient \<Rightarrow> http_Header option \<Rightarrow> bytes \<Rightarrow> 'a net \<Rightarrow> 'a net \<times> (error + bytes)) option")
    (auto simp: adaptClient_def Let_def case_prod_beta)

lemmas adaptClient_agent [simp] = adaptClient_frame [THEN conjunct1] adaptClient_frame [THEN conjunct2]

interpretation dh: durable_handler "durable_handle um2 (adaptClient env c)" "\<lambda>st. hs_agent st = a" "readable_msg um2"
proof
  fix st :: "'a handler_state" and m
  assume st: "hs_agent st = a" and m: "readable_msg um2 m"
  obtain sc m' where o: "open_message um2 m = Done (sc, m')" using open_message_returns [OF m] by auto
  obtain st' e where r: "adaptClient env c st m' = (st', e)" by fastforce
  have "hs_agent st' = a" using st r adaptClient_agent(1) [of env c st m'] by simp
  then show "\<exists>st' e. durable_handle um2 (adaptClient env c) st m = Done (st', e) \<and> hs_agent st' = a"
    using o r by (simp add: durable_handle_def)
qed

subsection \<open>Delivery of published messages\<close>

lemma adaptClient_sends:
  assumes "FromStr (hdr_Get (Some h) HdrPayloadType) = Some t" "client_fn t = Some fn" "msg_Headers m = Some h"
    and "todo = (Header_Get h HdrTodoTracerCtx \<noteq> [] \<and> Header_Get h HdrCompressed = [])"
  shows "adaptClient env c st m =
    (case fn env c (Some (if todo then Header_Del HdrTodoTracerCtx h else h))
            (if todo then fixTracerContext (hs_agent st) (msg_Data m) else msg_Data m) (hs_net st) of
       (n, r) \<Rightarrow> (st\<lparr>hs_net := n\<rparr>, case r of Inl e \<Rightarrow> Some e | Inr _ \<Rightarrow> None))"
proof -
  have e: "(hdr_Get (msg_Headers m) HdrTodoTracerCtx \<noteq> [] \<and> hdr_Get (msg_Headers m) HdrCompressed = []) = todo"
    using assms(3,4) by (simp add: hdr_Get_def)
  show ?thesis
    unfolding adaptClient_def Let_def e using assms(1,2,3) by (cases todo) (simp_all add: hdr_Del_def CtxWithHeader_def)
qed

lemma JSON_not_legacy:
  "\<not> HasPrefix (CHR ''{'' # r) v2_prefix \<Longrightarrow> natsPayload_Unmarshal um2 p (CHR ''{'' # r) = Done (p, Some UnknownFormat)"
  by (simp add: natsPayload_Unmarshal_def char_byte_less)

lemma open_message_JSON:
  assumes "msg_Data m = CHR ''{'' # r" "\<not> HasPrefix (msg_Data m) v2_prefix" "msg_Headers m = Some h"
    and "DecodeString (Header_Get h HdrSpanTraceFlags) \<noteq> Some []"
  shows "\<exists>sc. open_message um2 m = Done (sc, m)"
proof -
  have u: "natsPayload_Unmarshal um2 zero_natsPayload (msg_Data m) = Done (zero_natsPayload, Some UnknownFormat)"
    using JSON_not_legacy assms(1,2) by simp
  obtain sc where "header_span (msg_Headers m) = Done sc"
    using header_span_returns [of "msg_Headers m"] assms(3,4) by (auto simp: hdr_Get_def)
  then show ?thesis using u by (auto simp: open_message_def)
qed

text \<open>The header under which \<open>put_typed\<close> publishes a payload that is not compressed.\<close>

lemma put_typed_publishes:
  assumes "put_typed env None t todo subj payload a = Done (a', None)" "int (length payload) \<le> NatsMaxPayload a"
  shows "\<exists>m s. pc_waiting (ag_pub a') = pc_waiting (ag_pub a) @ [m] \<and> payloadType_String t = Done s \<and>
    nm_Subject m = subj \<and> nm_Data m = payload \<and> Header_Get (nm_Header m) HdrPayloadType = s \<and>
    Header_Get (nm_Header m) HdrTodoTracerCtx = (if todo then ''-'' else []) \<and> Header_Get (nm_Header m) HdrCompressed = [] \<and>
    Header_Get (nm_Header m) HdrSpanTraceFlags = snd (snd (sv_span env))"
proof -
  obtain s where s: "payloadType_String t = Done s" using assms(1) by (auto simp: put_typed_def)
  let ?h1 = "Header_Set HdrPayloadType s Map.empty"
  let ?h2 = "if todo then Header_Set HdrTodoTracerCtx ''-'' ?h1 else ?h1"
  let ?h = "Header_Add HdrPayloadLen (FormatInt (int (length payload))) (span_header env ?h2)"
  have "pub_agent subj payload ?h a = (a', None)"
    using assms s by (simp add: put_typed_def Put2Nats_def HeaderFromCtx_def CtxWithHeader_def Let_def)
  then have w: "pc_waiting (ag_pub a') = pc_waiting (ag_pub a) @ [\<lparr>nm_Subject = subj, nm_Data = payload, nm_Header = ?h\<rparr>]"
    using pub_agent_cases [of subj payload ?h a a' None] by auto
  have "Header_Get ?h HdrPayloadType = s" "Header_Get ?h HdrTodoTracerCtx = (if todo then ''-'' else [])" "Header_Get ?h HdrCompressed = []"
    by (simp_all add: header_names_canonical header_names_neq span_header_at Header_Get_def Header_Add_def Header_Set_def)
  moreover have "Header_Get ?h HdrSpanTraceFlags = snd (snd (sv_span env))"
    by (simp add: header_names_canonical header_names_neq span_header_def split: prod.split)
  ultimately show ?thesis using w s by (intro exI [of _ "\<lparr>nm_Subject = subj, nm_Data = payload, nm_Header = ?h\<rparr>"] exI [of _ s]) simp
qed

subsection \<open>Properties\<close>

text \<open>Which operation of the API belongs to which type of payload.\<close>

definition api_operations ::
  "(payloadType \<times> ('w net_env \<Rightarrow> GWClient \<Rightarrow> http_Header option \<Rightarrow> bytes \<Rightarrow> 'w net \<Rightarrow> 'w net \<times> (error + bytes))) set" where
  "api_operations = {(typeEvents, Gw_Client.SendEvents), (typeEventsAck, Gw_Client.SendEventsAck), (typeEventsUnack, Gw_Client.SendEventsUnack),
     (typeInventory, Gw_Client.SynchronizeInventory), (typeMetrics, Gw_Client.SendResourcesWithMetrics),
     (typeClearInDowntime, Gw_Client.ClearInDowntime), (typeSetInDowntime, Gw_Client.SetInDowntime)}"

lemma client_fn_operation: "(t, fn) \<in> api_operations \<Longrightarrow> client_fn t = Some fn"
  by (auto simp: api_operations_def client_fn_def typeEvents_def typeEventsAck_def typeEventsUnack_def typeInventory_def typeMetrics_def
      typeClearInDowntime_def typeSetInDowntime_def)

text \<open>
  C1. End to end: a JSON payload that a service operation publishes under a type (uncompressed, in the queue of
  the publisher), delivered to the durable of a client, is passed to the API operation of this type with
  exactly its text, in which only the placeholders of an agent that was not configured yet are replaced; the result of the API call is
  the result of the handler.
\<close>

theorem published_is_sent:
  assumes "put_typed env None t todo subj payload a = Done (a', None)" "int (length payload) \<le> NatsMaxPayload a"
    and "payload = CHR ''{'' # r" "\<not> HasPrefix payload v2_prefix" "DecodeString (snd (snd (sv_span env))) \<noteq> Some []"
    and "(t, fn) \<in> api_operations"
  shows "\<exists>m. pc_waiting (ag_pub a') = pc_waiting (ag_pub a) @ [m] \<and> nm_Subject m = subj \<and>
    (\<forall>st seq. durable_handle um2 (adaptClient nenv c) st
         \<lparr>msg_Subject = subj, msg_Data = nm_Data m, msg_Headers = Some (nm_Header m), msg_Stream = seq\<rparr> =
       (case fn nenv c (Some (if todo then Header_Del HdrTodoTracerCtx (nm_Header m) else nm_Header m))
               (if todo then fixTracerContext (hs_agent st) payload else payload) (hs_net st) of
          (n, r) \<Rightarrow> let err = (case r of Inl e \<Rightarrow> Some e | Inr _ \<Rightarrow> None) in Done (react err (st\<lparr>hs_net := n\<rparr>), err)))"
proof -
  obtain m s where m: "pc_waiting (ag_pub a') = pc_waiting (ag_pub a) @ [m]" "payloadType_String t = Done s"
      "nm_Subject m = subj" "nm_Data m = payload" "Header_Get (nm_Header m) HdrPayloadType = s"
      "Header_Get (nm_Header m) HdrTodoTracerCtx = (if todo then ''-'' else [])" "Header_Get (nm_Header m) HdrCompressed = []"
      "Header_Get (nm_Header m) HdrSpanTraceFlags = snd (snd (sv_span env))"
    using put_typed_publishes [OF assms(1,2)] by blast
  have "durable_handle um2 (adaptClient nenv c) st
         \<lparr>msg_Subject = subj, msg_Data = nm_Data m, msg_Headers = Some (nm_Header m), msg_Stream = seq\<rparr> =
       (case fn nenv c (Some (if todo then Header_Del HdrTodoTracerCtx (nm_Header m) else nm_Header m))
               (if todo then fixTracerContext (hs_agent st) payload else payload) (hs_net st) of
          (n, r) \<Rightarrow> let err = (case r of Inl e \<Rightarrow> Some e | Inr _ \<Rightarrow> None) in Done (react err (st\<lparr>hs_net := n\<rparr>), err))" for st seq
  proof -
    let ?m = "\<lparr>msg_Subject = subj, msg_Data = nm_Data m, msg_Headers = Some (nm_Header m), msg_Stream = seq\<rparr>"
    obtain sc where o: "open_message um2 ?m = Done (sc, ?m)"
      using open_message_JSON [of ?m r "nm_Header m" um2] assms(3,4,5) m(4,8) by auto
    have "FromStr (hdr_Get (Some (nm_Header m)) HdrPayloadType) = Some t"
      using FromStr_String [OF m(2)] m(5) by (simp add: hdr_Get_def)
    from adaptClient_sends [OF this client_fn_operation [OF assms(6)], of ?m todo nenv c st] m(4,6,7) o
    show ?thesis by (simp add: durable_handle_def Let_def split: prod.split)
  qed
  then show ?thesis using m(1,3) by blast
qed


text \<open>
  A message that the server refuses as unauthorized asks for the stop of the transport exactly once, and is
  acknowledged all the same: it is not delivered again after the configuration was updated.
\<close>

theorem unauthorized_stops_and_drops:
  assumes "open_message um2 m = Done (sc, m')" "adaptClient env c st m' = (st1, Some e)" "errors_Is e ErrUnauthorized"
    and "msg_Stream m = Some seq"
  shows "\<exists>st'. fetch_turn delays (durable_handle um2 (adaptClient env c)) durable now (Some [m]) None d st = Done ([Ack], d, st', None) \<and>
    hs_stops st' = hs_stops st + 1"
proof -
  have "hs_stops st1 = hs_stops st" using assms(2) adaptClient_agent(2) [of env c st m'] by simp
  moreover
have "\<not> errors_Is e ErrTransient" by (rule Unauthorized_not_transient [OF assms(3)])
  moreover have "durable_handle um2 (adaptClient env c) st m = Done (react (Some e) st1, Some e)"
    using assms(1,2) by (simp add: durable_handle_def)
  ultimately show ?thesis using assms(3,4) by (simp add: fetch_turn_def processMsg_def react_def)
qed

text \<open>
  Two kinds of messages make the handlers panic: a legacy message without headers, as the legacy publisher
  sent them (the type is to be written into a nil map), and a message whose header names a span and a trace
  but no flags.
\<close>

theorem durable_handle_panics:
  assumes "sized p" "np_Type p < 8"
    and "Header_Get h HdrSpanSpanID \<noteq> []" "Header_Get h HdrSpanTraceID \<noteq> []" "Header_Get h HdrSpanTraceFlags = []"
    and "\<not> HasPrefix (CHR ''{'' # r) v2_prefix"
  shows "durable_handle um2 f st \<lparr>msg_Subject = subj, msg_Data = marshalV1 p, msg_Headers = None, msg_Stream = seq\<rparr> = Panic NilMap \<and>
    durable_handle um2 f st \<lparr>msg_Subject = subj, msg_Data = CHR ''{'' # r, msg_Headers = Some h, msg_Stream = seq\<rparr> = Panic IndexOutOfRange"
proof
  have u: "natsPayload_Unmarshal um2 zero_natsPayload (marshalV1 p) = Done (p, None)"
    using unmarshalV1_marshalV1 [OF assms(1)] assms(2) by (simp add: natsPayload_Unmarshal_def marshalV1_def)
  obtain s where "payloadType_String (np_Type p) = Done s" using assms(2) payloadType_String_Done_iff by blast
  then show "durable_handle um2 f st \<lparr>msg_Subject = subj, msg_Data = marshalV1 p, msg_Headers = None, msg_Stream = seq\<rparr> = Panic NilMap"
    using u by (simp add: durable_handle_def open_message_def hdr_Get_def hdr_Set_def)
next
  show "durable_handle um2 f st \<lparr>msg_Subject = subj, msg_Data = CHR ''{'' # r, msg_Headers = Some h, msg_Stream = seq\<rparr> = Panic IndexOutOfRange"
    using assms(3-6) JSON_not_legacy [of r um2 zero_natsPayload]
    by (simp add: durable_handle_def open_message_def header_span_def hdr_Get_def)
qed

text \<open>
  A legacy message that has a header is sent with its envelope: the API operation receives the whole wrapped
  text and not the payload that was unwrapped from it.
\<close>

theorem legacy_sent_wrapped:
  assumes "sized p" "np_Type p < 8" "client_fn (np_Type p) = Some fn" "h HdrPayloadType = None" "h HdrTodoTracerCtx = None"
  shows "durable_handle um2 (adaptClient env c) st \<lparr>msg_Subject = subj, msg_Data = marshalV1 p, msg_Headers = Some h, msg_Stream = seq\<rparr> =
    (case fn env c (Some (h(HdrPayloadType \<mapsto> [payloadType_all ! unat (np_Type p)]))) (marshalV1 p) (hs_net st) of
       (n, r) \<Rightarrow> let err = (case r of Inl e \<Rightarrow> Some e | Inr _ \<Rightarrow> None) in Done (react err (st\<lparr>hs_net := n\<rparr>), err))"
proof -
  have u: "natsPayload_Unmarshal um2 zero_natsPayload (marshalV1 p) = Done (p, None)"
    using unmarshalV1_marshalV1 [OF assms(1)] assms(2) by (simp add: natsPayload_Unmarshal_def marshalV1_def)
  obtain s where s: "payloadType_String (np_Type p) = Done s" using assms(2) payloadType_String_Done_iff by blast
  then have s': "s = payloadType_all ! unat (np_Type p)" by (auto simp: payloadType_String_def split: if_splits)
  let ?h = "h(HdrPayloadType \<mapsto> [s])"
  let ?m = "\<lparr>msg_Subject = subj, msg_Data = marshalV1 p, msg_Headers = Some ?h, msg_Stream = seq\<rparr>"
  have o: "open_message um2 \<lparr>msg_Subject = subj, msg_Data = marshalV1 p, msg_Headers = Some h, msg_Stream = seq\<rparr> =
      Done (Some (np_SpanContext p), ?m)"
    using u s assms(4) by (simp add: open_message_def hdr_Get_def hdr_Set_def Header_Get_def Header_Set_def header_names_canonical)
  have "FromStr (hdr_Get (Some ?h) HdrPayloadType) = Some (np_Type p)" "Header_Get ?h HdrTodoTracerCtx = []"
    using FromStr_String [OF s] assms(5) by (simp_all add: hdr_Get_def Header_Get_def header_names_canonical header_names_neq)
  from adaptClient_sends [OF this(1) assms(3), of ?m False env c st] this(2)
  show ?thesis unfolding durable_handle_def o s' by (simp add: Let_def split: prod.split)
qed

subsection \<open>Concrete runs\<close>

definition demo_hstate :: "unit handler_state" where
  "demo_hstate = \<lparr>hs_agent = demo_agent, hs_net = demo_net (), hs_stops = 0\<rparr>"

definition demo_json :: bytes where
  "demo_json = ''{}''"

definition demo_header :: http_Header where
  "demo_header = Map.empty(HdrPayloadType \<mapsto> [''events''])"

definition demo_event_msg :: Msg where
  "demo_event_msg = \<lparr>msg_Subject = subjEvents, msg_Data = demo_json, msg_Headers = Some demo_header, msg_Stream = Some 7\<rparr>"

lemma demo_json_simps: "demo_json = CHR ''{'' # ''}''" "\<not> HasPrefix demo_json v2_prefix"
  by (simp_all add: demo_json_def v2_prefix_def HasPrefix_def)

theorem published_is_sent_witness:
  "\<exists>a' m. put_typed demo_svc_env None typeEvents False subjEvents demo_json demo_agent = Done (a', None) \<and>
     pc_waiting (ag_pub a') = [m] \<and>
     durable_handle demo_um2 (adaptClient (demo_env (demo_http 200)) demo_client) demo_hstate
       \<lparr>msg_Subject = subjEvents, msg_Data = nm_Data m, msg_Headers = Some (nm_Header m), msg_Stream = Some 1\<rparr> =
     (case Gw_Client.SendEvents (demo_env (demo_http 200)) demo_client (Some (nm_Header m)) demo_json (hs_net demo_hstate) of
        (n, r) \<Rightarrow> let err = (case r of Inl e \<Rightarrow> Some e | Inr _ \<Rightarrow> None) in Done (react err (demo_hstate\<lparr>hs_net := n\<rparr>), err))"
proof -
  have lim: "NatsMaxPayload demo_agent = 8388608" "nc_MaxPayload (ns_config (ag_nats demo_agent)) = 8" "pc_waiting (ag_pub demo_agent) = []"
    by (simp_all add: demo_agent_def demo_config_def init_nats_def defaults_def default_nats_def demo_pc_def)
  have s: "payloadType_String typeEvents = Done ''events''" by (simp add: payloadType_String_def typeEvents_def payloadType_all_def)
  have l: "length demo_json = 2" by (simp add: demo_json_def)
  obtain a' where p: "put_typed demo_svc_env None typeEvents False subjEvents demo_json demo_agent = Done (a', None)"
    using s lim l by (simp add: put_typed_def Put2Nats_def pub_agent_def Pub_def Let_def)
  have f: "(typeEvents, Gw_Client.SendEvents) \<in> api_operations" by (simp add: api_operations_def)
  have fl: "DecodeString (snd (snd (sv_span demo_svc_env))) \<noteq> Some []" by (simp add: demo_svc_env_def hex_val_def)
  from published_is_sent [OF p _ demo_json_simps fl f, of demo_um2 "demo_env (demo_http 200)" demo_client] lim l p
  show ?thesis by fastforce
qed

lemma demo_open: "open_message demo_um2 demo_event_msg = Done (None, demo_event_msg)"
proof -
  have "natsPayload_Unmarshal demo_um2 zero_natsPayload demo_json = Done (zero_natsPayload, Some UnknownFormat)"
    using JSON_not_legacy [of "''}''" demo_um2 zero_natsPayload] demo_json_simps by simp
  moreover have "header_span (msg_Headers demo_event_msg) = Done None"
    by (simp add: demo_event_msg_def demo_header_def header_span_def hdr_Get_def Header_Get_def header_names_canonical header_names_neq)
  ultimately show ?thesis by (simp add: open_message_def demo_event_msg_def)
qed


lemma demo_unauthorized:
  "\<exists>st1. adaptClient (demo_env (demo_http 401)) demo_client demo_hstate demo_event_msg = (st1, Some (Errorf ErrUnauthorized ''tok''))"
proof -
  have t: "FromStr (hdr_Get (Some demo_header) HdrPayloadType) = Some typeEvents"
    by (simp add: demo_header_def hdr_Get_def Header_Get_def header_names_canonical FromStr_def payloadType_all_def typeEvents_def)
  have f: "client_fn typeEvents = Some Gw_Client.SendEvents" by (simp add: client_fn_def)
  have td: "False = (Header_Get demo_header HdrTodoTracerCtx \<noteq> [] \<and> Header_Get demo_header HdrCompressed = [])"
    by (simp add: demo_header_def Header_Get_def header_names_canonical header_names_neq)
  have e: "\<exists>n. Gw_Client.SendEvents (demo_env (demo_http 401)) demo_client (Some demo_header) demo_json (demo_net ()) = (n, Inl (Errorf ErrUnauthorized ''tok''))"
    by (simp add: SendEvents_def SendRequest_def doReq_def SendWithContext_def demo_env_def demo_http_def Let_def Connect_def
        Connect_locked_def login_def demo_client_def connectLocal_def status_error_def zero_Req_def token_def demo_net_def)
  have d: "msg_Headers demo_event_msg = Some demo_header" "msg_Data demo_event_msg = demo_json" "hs_net demo_hstate = demo_net ()"
    by (simp_all add: demo_event_msg_def demo_hstate_def)
  from e obtain n where "Gw_Client.SendEvents (demo_env (demo_http 401)) demo_client (Some demo_header) demo_json (demo_net ()) =
      (n, Inl (Errorf ErrUnauthorized ''tok''))" by blast
  then show ?thesis by (simp add: adaptClient_sends [OF t f d(1) td] d)
qed

theorem unauthorized_stops_and_drops_witness:
  "\<exists>st'. fetch_turn [30] (durable_handle demo_um2 (adaptClient (demo_env (demo_http 401)) demo_client)) ''#localhost#'' 0
     (Some [demo_event_msg]) None getDispatcher demo_hstate = Done ([Ack], getDispatcher, st', None) \<and> hs_stops st' = hs_stops demo_hstate + 1"
proof -
  obtain st1 where "adaptClient (demo_env (demo_http 401)) demo_client demo_hstate demo_event_msg = (st1, Some (Errorf ErrUnauthorized ''tok''))"
    using demo_unauthorized by blast
  from unauthorized_stops_and_drops [OF demo_open this] show ?thesis by (simp add: demo_event_msg_def)
qed

theorem durable_handle_panics_witness:
  "durable_handle demo_um2 (adaptClient (demo_env (demo_http 200)) demo_client) demo_hstate
     \<lparr>msg_Subject = subjEvents, msg_Data = marshalV1 demo_payload, msg_Headers = None, msg_Stream = Some 1\<rparr> = Panic NilMap"
proof -
  let ?h = "Map.empty(HdrSpanSpanID \<mapsto> [''01''], HdrSpanTraceID \<mapsto> [''02''])"
  have "Header_Get ?h HdrSpanSpanID \<noteq> []" "Header_Get ?h HdrSpanTraceID \<noteq> []" "Header_Get ?h HdrSpanTraceFlags = []"
    by (simp_all add: Header_Get_def header_names_canonical header_names_neq)
  moreover have "sized demo_payload" "np_Type demo_payload < 8" by (simp_all add: demo_payload_def sized_def typeMetrics_def)
  moreover have "\<not> HasPrefix (CHR ''{'' # ''}'') v2_prefix" using demo_json_simps by simp
  ultimately show ?thesis using durable_handle_panics by blast
qed

theorem legacy_sent_wrapped_witness:
  "durable_handle demo_um2 (adaptClient (demo_env (demo_http 200)) demo_client) demo_hstate
     \<lparr>msg_Subject = subjEvents, msg_Data = marshalV1 demo_payload, msg_Headers = Some Map.empty, msg_Stream = Some 1\<rparr> =
   (case Gw_Client.SendResourcesWithMetrics (demo_env (demo_http 200)) demo_client
           (Some (Map.empty(HdrPayloadType \<mapsto> [payloadType_all ! unat (np_Type demo_payload)]))) (marshalV1 demo_payload) (hs_net demo_hstate) of
      (n, r) \<Rightarrow> let err = (case r of Inl e \<Rightarrow> Some e | Inr _ \<Rightarrow> None) in Done (react err (demo_hstate\<lparr>hs_net := n\<rparr>), err))"
  by (rule legacy_sent_wrapped)
    (simp_all add: demo_payload_def sized_def typeMetrics_def client_fn_def typeEvents_def typeEventsAck_def typeEventsUnack_def
      typeClearInDowntime_def typeSetInDowntime_def typeInventory_def)

end
