(* ===== verification/Task_Queue.thy ===== *)
theory Task_Queue
  imports Go_Prelude
begin

text \<open>
  The task queue of \<^verbatim>\<open>taskqueue/taskqueue.go\<close>: a bounded FIFO of tasks, filled by any number of
  goroutines through \<open>PushAsync\<close> and emptied by the one worker goroutine \<open>runQueue\<close>.

  A \<open>Task\<close> carries its arguments, its one-byte index, its subject and the channel on which its
  result is reported (\<open>t_done\<close>, the number of that channel).  A handler maps a task and the service
  state to the new service state and the error it returns.  \<open>PushAsync\<close> builds the task before it
  takes the lock, so it is two definitions: \<open>PushAsync_prepare\<close> (what runs before the lock) and
  \<open>PushAsync_locked\<close> (the critical section); the sequential \<open>PushAsync\<close> composes them.  The step
  relation \<open>tq_step\<close> interleaves pushers with the worker.
\<close>

subsection \<open>Data\<close>

record ('k, 'a) Task =
  t_done :: nat
  t_Args :: "'a list"
  t_Idx :: "8 word"
  t_Subject :: 'k

type_synonym ('k, 'a, 's, 'e) Handler = "('k, 'a) Task \<Rightarrow> 's \<Rightarrow> 's \<times> 'e option"

datatype 'k tq_error = ErrTaskQueueCapacity "8 word" | ErrTaskQueueUndefined 'k

definition defaultCapacity :: "8 word" where
  "defaultCapacity = 8"

record ('k, 'a, 's, 'e) TaskQueue =
  tq_alarm :: duration
  tq_alarmHandler :: "(('k, 'a) Task \<Rightarrow> 'e option) option"
  tq_capacity :: "8 word"
  tq_debugger :: "(('k, 'a) Task list \<Rightarrow> unit) option"
  tq_handlers :: "'k \<rightharpoonup> ('k, 'a, 's, 'e) Handler"
  tq_idx :: "8 word"
  tq_queue :: "('k, 'a) Task list"
  tq_ring :: "('k, 'a) Task option list"

subsection \<open>Construction\<close>

definition WithAlarm ::
  "duration \<Rightarrow> (('k, 'a) Task \<Rightarrow> 'e option) \<Rightarrow> ('k, 'a, 's, 'e) TaskQueue \<Rightarrow> ('k, 'a, 's, 'e) TaskQueue" where
  "WithAlarm d h q = q\<lparr>tq_alarm := d, tq_alarmHandler := Some h\<rparr>"

definition WithCapacity :: "8 word \<Rightarrow> ('k, 'a, 's, 'e) TaskQueue \<Rightarrow> ('k, 'a, 's, 'e) TaskQueue" where
  "WithCapacity c q = q\<lparr>tq_capacity := c\<rparr>"

definition WithHandlers ::
  "('k \<rightharpoonup> ('k, 'a, 's, 'e) Handler) \<Rightarrow> ('k, 'a, 's, 'e) TaskQueue \<Rightarrow> ('k, 'a, 's, 'e) TaskQueue" where
  "WithHandlers m q = q\<lparr>tq_handlers := m\<rparr>"

definition WithDebugger ::
  "(('k, 'a) Task list \<Rightarrow> unit) \<Rightarrow> ('k, 'a, 's, 'e) TaskQueue \<Rightarrow> ('k, 'a, 's, 'e) TaskQueue" where
  "WithDebugger f q = q\<lparr>tq_debugger := Some f\<rparr>"

text \<open>The ring and the channel are made after the options ran, from the capacity they left.\<close>

definition NewTaskQueue ::
  "(('k, 'a, 's, 'e) TaskQueue \<Rightarrow> ('k, 'a, 's, 'e) TaskQueue) list \<Rightarrow> ('k, 'a, 's, 'e) TaskQueue" where
  "NewTaskQueue opts =
     (let q = fold (\<lambda>f q. f q) opts
                \<lparr>tq_alarm = 0, tq_alarmHandler = None, tq_capacity = defaultCapacity,
                 tq_debugger = None, tq_handlers = Map.empty, tq_idx = 0, tq_queue = [], tq_ring = []\<rparr>
      in q\<lparr>tq_ring := replicate (unat (tq_capacity q)) None, tq_queue := []\<rparr>)"

subsection \<open>Pushing\<close>

text \<open>
  The send of the \<open>select\<close> goes through when the channel's buffer has room; on a channel made with
  capacity 0 it goes through only when the worker is waiting to receive.
\<close>

definition can_send :: "('k, 'a, 's, 'e) TaskQueue \<Rightarrow> bool \<Rightarrow> bool" where
  "can_send q worker_waiting \<longleftrightarrow>
     (if tq_capacity q = 0 then worker_waiting \<and> tq_queue q = []
      else length (tq_queue q) < unat (tq_capacity q))"

definition PushAsync_prepare ::
  "('k, 'a, 's, 'e) TaskQueue \<Rightarrow> nat \<Rightarrow> 'k \<Rightarrow> 'a list \<Rightarrow> 'k tq_error + ('k, 'a) Task" where
  "PushAsync_prepare q ch subj args =
     (if tq_handlers q subj = None then Inl (ErrTaskQueueUndefined subj)
      else Inr \<lparr>t_done = ch, t_Args = args, t_Idx = tq_idx q + 1, t_Subject = subj\<rparr>)"

text \<open>
  The critical section.  On success the task is in the queue, the index is stored (and reset after
  255), and the task replaces the oldest entry of the debug ring; \<open>ring.New(0)\<close> is nil, so there the
  write to the ring panics.  On a full queue the tasks of the ring go to the debugger (the last
  component of the result) and the queue is unchanged.
\<close>

fun PushAsync_locked ::
  "('k, 'a, 's, 'e) TaskQueue \<Rightarrow> bool \<Rightarrow> ('k, 'a) Task \<Rightarrow>
   (('k, 'a, 's, 'e) TaskQueue \<times> ('k tq_error + ('k, 'a) Task) \<times> ('k, 'a) Task list option) exec" where
  "PushAsync_locked q w task =
     (if can_send q w then
        (let q1 = q\<lparr>tq_queue := tq_queue q @ [task],
                    tq_idx := (if t_Idx task > 255 - 1 then 0 else t_Idx task)\<rparr>
         in case tq_ring q1 of
              [] \<Rightarrow> Panic NilDereference
            | _ # rest \<Rightarrow> Done (q1\<lparr>tq_ring := rest @ [Some task]\<rparr>, Inr task, None))
      else
        (let lastTasks = (if tq_debugger q \<noteq> None then Some (List.map_filter id (tq_ring q)) else None)
         in Done (q, Inl (ErrTaskQueueCapacity (tq_capacity q)), lastTasks)))"

definition PushAsync ::
  "('k, 'a, 's, 'e) TaskQueue \<Rightarrow> bool \<Rightarrow> nat \<Rightarrow> 'k \<Rightarrow> 'a list \<Rightarrow>
   (('k, 'a, 's, 'e) TaskQueue \<times> ('k tq_error + ('k, 'a) Task)) exec" where
  "PushAsync q w ch subj args =
     (case PushAsync_prepare q ch subj args of
        Inl e \<Rightarrow> Done (q, Inl e)
      | Inr task \<Rightarrow> bind_exec (PushAsync_locked q w task) (\<lambda>(q', r, _). Done (q', r)))"

subsection \<open>The worker\<close>

text \<open>
  One iteration of \<open>runQueue\<close>: the handler of the task's subject runs on the service state, the
  alarm handler is invoked when the handler ran longer than the alarm, and the handler's error is
  what is sent on the task's channel.  A subject with no handler calls a nil function.
\<close>

definition runQueue_task ::
  "('k, 'a, 's, 'e) TaskQueue \<Rightarrow> duration \<Rightarrow> ('k, 'a) Task \<Rightarrow> 's \<Rightarrow> ('s \<times> 'e option \<times> bool) exec" where
  "runQueue_task q elapsed task st =
     (let alarmed = (tq_alarm q \<noteq> 0 \<and> tq_alarmHandler q \<noteq> None \<and> tq_alarm q < elapsed)
      in case tq_handlers q (t_Subject task) of
           None \<Rightarrow> Panic NilFunc
         | Some handler \<Rightarrow> (case handler task st of (st', err) \<Rightarrow> Done (st', err, alarmed)))"

text \<open>
  \<open>PushSync\<close> from a goroutine other than the worker, when nobody else pushes: the push, then the
  worker runs until the pushed task's result arrives.
\<close>

fun runQueue_list ::
  "('k, 'a, 's, 'e) TaskQueue \<Rightarrow> ('k, 'a) Task list \<Rightarrow> 's \<Rightarrow> ('s \<times> 'e option list) exec" where
  "runQueue_list q [] st = Done (st, [])"
| "runQueue_list q (t # ts) st =
     bind_exec (runQueue_task q 0 t st) (\<lambda>(st', err, _).
     bind_exec (runQueue_list q ts st') (\<lambda>(st'', errs). Done (st'', err # errs)))"

definition PushSync ::
  "('k, 'a, 's, 'e) TaskQueue \<Rightarrow> nat \<Rightarrow> 'k \<Rightarrow> 'a list \<Rightarrow> 's \<Rightarrow>
   (('k, 'a, 's, 'e) TaskQueue \<times> 's \<times> ('k tq_error + 'e option)) exec" where
  "PushSync q ch subj args st =
     bind_exec (PushAsync q True ch subj args) (\<lambda>(q1, r).
       case r of
         Inl e \<Rightarrow> Done (q1, st, Inl e)
       | Inr task \<Rightarrow>
           bind_exec (runQueue_list q1 (tq_queue q1) st) (\<lambda>(st', errs).
             Done (q1\<lparr>tq_queue := []\<rparr>, st', Inr (last errs))))"

subsection \<open>The concurrent system\<close>

text \<open>
  The whole system: the queue, the tasks built by pushers that have not entered the critical section
  yet, the task the worker is running, the result channels (their buffered values and whether they
  are closed), the service state, and two histories: the tasks accepted and the tasks finished.
\<close>

record ('k, 'a, 's, 'e) tq_sys =
  s_tq :: "('k, 'a, 's, 'e) TaskQueue"
  s_prepared :: "('k, 'a) Task list"
  s_current :: "('k, 'a) Task option"
  s_chans :: "nat \<rightharpoonup> 'e option list \<times> bool"
  s_next :: nat
  s_state :: 's
  s_accepted :: "('k, 'a) Task list"
  s_finished :: "(('k, 'a) Task \<times> 'e option) list"

definition init_sys :: "('k, 'a, 's, 'e) TaskQueue \<Rightarrow> 's \<Rightarrow> ('k, 'a, 's, 'e) tq_sys" where
  "init_sys q st =
     \<lparr>s_tq = q, s_prepared = [], s_current = None, s_chans = Map.empty, s_next = 0, s_state = st,
      s_accepted = [], s_finished = []\<rparr>"

definition sys_prepare ::
  "('k, 'a, 's, 'e) tq_sys \<Rightarrow> ('k, 'a) Task \<Rightarrow> ('k, 'a, 's, 'e) tq_sys" where
  "sys_prepare s task =
     s\<lparr>s_prepared := s_prepared s @ [task], s_chans := (s_chans s)(s_next s \<mapsto> ([], False)),
       s_next := Suc (s_next s)\<rparr>"

definition sys_accept ::
  "('k, 'a, 's, 'e) tq_sys \<Rightarrow> ('k, 'a, 's, 'e) TaskQueue \<Rightarrow> ('k, 'a) Task \<Rightarrow> ('k, 'a, 's, 'e) tq_sys" where
  "sys_accept s q task =
     s\<lparr>s_tq := q, s_prepared := remove1 task (s_prepared s), s_accepted := s_accepted s @ [task]\<rparr>"

definition sys_reject ::
  "('k, 'a, 's, 'e) tq_sys \<Rightarrow> ('k, 'a) Task \<Rightarrow> ('k, 'a, 's, 'e) tq_sys" where
  "sys_reject s task = s\<lparr>s_prepared := remove1 task (s_prepared s)\<rparr>"

text \<open>The worker's receive, and the end of its iteration: send the result, close the channel.\<close>

definition sys_take :: "('k, 'a, 's, 'e) tq_sys \<Rightarrow> ('k, 'a) Task \<Rightarrow> ('k, 'a) Task list \<Rightarrow> ('k, 'a, 's, 'e) tq_sys" where
  "sys_take s t ts = s\<lparr>s_current := Some t, s_tq := (s_tq s)\<lparr>tq_queue := ts\<rparr>\<rparr>"

definition sys_finish ::
  "('k, 'a, 's, 'e) tq_sys \<Rightarrow> ('k, 'a) Task \<Rightarrow> 's \<Rightarrow> 'e option \<Rightarrow> ('k, 'a, 's, 'e) tq_sys" where
  "sys_finish s t st' err =
     s\<lparr>s_current := None, s_state := st', s_chans := (s_chans s)(t_done t \<mapsto> ([err], True)),
       s_finished := s_finished s @ [(t, err)]\<rparr>"

inductive tq_step :: "('k, 'a, 's, 'e) tq_sys \<Rightarrow> ('k, 'a, 's, 'e) tq_sys \<Rightarrow> bool" where
  prepare: "PushAsync_prepare (s_tq s) (s_next s) subj args = Inr task \<Longrightarrow> tq_step s (sys_prepare s task)"
| accept: "task \<in> set (s_prepared s) \<Longrightarrow>
     PushAsync_locked (s_tq s) (s_current s = None) task = Done (q, Inr task, d) \<Longrightarrow>
     tq_step s (sys_accept s q task)"
| reject: "task \<in> set (s_prepared s) \<Longrightarrow>
     PushAsync_locked (s_tq s) (s_current s = None) task = Done (q, Inl e, d) \<Longrightarrow>
     tq_step s (sys_reject s task)"
| take: "s_current s = None \<Longrightarrow> tq_queue (s_tq s) = t # ts \<Longrightarrow> tq_step s (sys_take s t ts)"
| finish: "s_current s = Some t \<Longrightarrow>
     runQueue_task (s_tq s) elapsed t (s_state s) = Done (st', err, alarmed) \<Longrightarrow>
     tq_step s (sys_finish s t st' err)"

inductive tq_reach :: "('k, 'a, 's, 'e) tq_sys \<Rightarrow> ('k, 'a, 's, 'e) tq_sys \<Rightarrow> bool" for s0 where
  start: "tq_reach s0 s0"
| step: "tq_reach s0 s \<Longrightarrow> tq_step s t \<Longrightarrow> tq_reach s0 t"

text \<open>
  The invariant of the queue itself, and the invariant of the whole system: accepted tasks are in
  order the finished ones, the running one and the queued ones; a task's channel is open and empty
  until the task is finished, and then holds exactly the handler's error and is closed.
\<close>

definition tq_ok :: "('k, 'a, 's, 'e) TaskQueue \<Rightarrow> bool" where
  "tq_ok q \<longleftrightarrow>
     tq_idx q < 255 \<and>
     length (tq_queue q) \<le> max 1 (unat (tq_capacity q)) \<and>
     length (tq_ring q) = unat (tq_capacity q) \<and>
     (\<forall>t \<in> set (tq_queue q). t_Idx t \<noteq> 0 \<and> tq_handlers q (t_Subject t) \<noteq> None)"

definition unfinished :: "('k, 'a, 's, 'e) tq_sys \<Rightarrow> ('k, 'a) Task list" where
  "unfinished s = (case s_current s of None \<Rightarrow> [] | Some t \<Rightarrow> [t]) @ tq_queue (s_tq s)"

definition sys_ok :: "('k, 'a, 's, 'e) tq_sys \<Rightarrow> bool" where
  "sys_ok s \<longleftrightarrow>
     tq_ok (s_tq s) \<and>
     s_accepted s = map fst (s_finished s) @ unfinished s \<and>
     (\<forall>t \<in> set (s_prepared s @ unfinished s).
        t_Idx t \<noteq> 0 \<and> tq_handlers (s_tq s) (t_Subject t) \<noteq> None) \<and>
     distinct (map t_done (s_accepted s @ s_prepared s)) \<and>
     (\<forall>t \<in> set (s_accepted s @ s_prepared s). t_done t < s_next s) \<and>
     (\<forall>t \<in> set (s_prepared s @ unfinished s). s_chans s (t_done t) = Some ([], False)) \<and>
     (\<forall>(t, err) \<in> set (s_finished s). s_chans s (t_done t) = Some ([err], True))"

subsection \<open>The contract between the queue and the handlers\<close>

text \<open>
  What a client of the queue promises: every handler it registers keeps an invariant of the service
  state.  What it gets: the invariant holds whenever the worker is between tasks.
\<close>

locale task_handlers =
  fixes handlers :: "'k \<rightharpoonup> ('k, 'a, 's, 'e) Handler"
    and inv :: "'s \<Rightarrow> bool"
  assumes handler_keeps: "handlers k = Some h \<Longrightarrow> t_Subject t = k \<Longrightarrow> inv st \<Longrightarrow> inv (fst (h t st))"
begin

lemma runQueue_task_keeps:
  assumes "tq_handlers q = handlers" "inv st" "runQueue_task q d t st = Done (st', err, al)"
  shows "inv st'"
  using assms handler_keeps [of "t_Subject t" _ t st]
  by (auto simp: runQueue_task_def Let_def split: option.splits prod.splits)

lemma runQueue_list_keeps:
  assumes "tq_handlers q = handlers" "inv st" "runQueue_list q ts st = Done (st', errs)"
  shows "inv st'"
  using assms(2,3)
  by (induction ts arbitrary: st errs) (auto dest: runQueue_task_keeps [OF assms(1)])

lemma tq_step_keeps:
  assumes "tq_step s t" "tq_handlers (s_tq s) = handlers" "inv (s_state s)"
  shows "tq_handlers (s_tq t) = handlers \<and> inv (s_state t)"
  using assms
proof (cases rule: tq_step.cases)
  case (finish t elapsed st' err alarmed)
  then show ?thesis
    using assms runQueue_task_keeps by (fastforce simp: sys_finish_def)
qed (auto simp: sys_prepare_def sys_accept_def sys_reject_def sys_take_def Let_def
          split: if_splits list.splits)

lemma tq_reach_keeps:
  assumes "tq_reach s0 s" "tq_handlers (s_tq s0) = handlers" "inv (s_state s0)"
  shows "tq_handlers (s_tq s) = handlers \<and> inv (s_state s)"
  using assms
proof (induction rule: tq_reach.induct)
  case start
  then show ?case by simp
next
  case (step s t)
  then show ?case using tq_step_keeps by blast
qed

end

subsection \<open>Lemmas\<close>

lemmas sys_defs = sys_prepare_def sys_accept_def sys_reject_def sys_take_def sys_finish_def unfinished_def

inductive_cases tq_stepE: "tq_step s t"

fun_cases PushAsync_lockedE: "PushAsync_locked q w task = Done (q', r, d)"

lemma word8_Suc_nonzero: "(i :: 8 word) < 255 \<Longrightarrow> i + 1 \<noteq> 0"
proof
  assume "i < 255" "i + 1 = 0"
  then have "i = - 1" by (simp add: eq_neg_iff_add_eq_0)
  with \<open>i < 255\<close> show False by simp
qed

lemma word8_reset_less: "(if (i :: 8 word) > 255 - 1 then 0 else i) < 255"
  by unat_arith

text \<open>\<open>PushAsync_locked\<close> by cases: accepted, or refused with the queue as it was.\<close>

lemma PushAsync_locked_accept:
  "PushAsync_locked q w task = Done (q', Inr task', d) \<longleftrightarrow>
     can_send q w \<and> tq_ring q \<noteq> [] \<and> task' = task \<and> d = None \<and>
     q' = q\<lparr>tq_queue := tq_queue q @ [task], tq_idx := (if t_Idx task > 255 - 1 then 0 else t_Idx task),
            tq_ring := tl (tq_ring q) @ [Some task]\<rparr>"
  by (cases "tq_ring q") (auto simp: Let_def)

lemma PushAsync_locked_reject:
  "PushAsync_locked q w task = Done (q', Inl e, d) \<longleftrightarrow>
     \<not> can_send q w \<and> q' = q \<and> e = ErrTaskQueueCapacity (tq_capacity q) \<and>
     d = (if tq_debugger q \<noteq> None then Some (List.map_filter id (tq_ring q)) else None)"
  by (cases "tq_ring q") (auto simp: Let_def)

declare PushAsync_locked.simps [simp del]

lemma can_send_length: "can_send q w \<Longrightarrow> Suc (length (tq_queue q)) \<le> max 1 (unat (tq_capacity q))"
  by (auto simp: can_send_def split: if_splits)

lemma tq_ok_accept:
  assumes "tq_ok q" "PushAsync_locked q w task = Done (q', Inr task', d)"
    "t_Idx task \<noteq> 0" "tq_handlers q (t_Subject task) \<noteq> None"
  shows "tq_ok q'"
  using assms can_send_length [of q w] word8_reset_less [of "t_Idx task"]
  unfolding PushAsync_locked_accept tq_ok_def by (cases "tq_ring q") (auto simp: Suc_le_eq)

lemma sys_okD:
  assumes "sys_ok s"
  shows sys_ok_tq: "tq_ok (s_tq s)"
    and sys_ok_accepted: "s_accepted s = map fst (s_finished s) @ unfinished s"
    and sys_ok_tasks: "t \<in> set (s_prepared s @ unfinished s) \<Longrightarrow>
          t_Idx t \<noteq> 0 \<and> tq_handlers (s_tq s) (t_Subject t) \<noteq> None"
    and sys_ok_distinct: "distinct (map t_done (s_accepted s @ s_prepared s))"
    and sys_ok_less: "t \<in> set (s_accepted s @ s_prepared s) \<Longrightarrow> t_done t < s_next s"
    and sys_ok_open: "t \<in> set (s_prepared s @ unfinished s) \<Longrightarrow> s_chans s (t_done t) = Some ([], False)"
    and sys_ok_closed: "(t, err) \<in> set (s_finished s) \<Longrightarrow> s_chans s (t_done t) = Some ([err], True)"
  using assms unfolding sys_ok_def by blast+

lemma sys_okI:
  assumes "tq_ok (s_tq s)" "s_accepted s = map fst (s_finished s) @ unfinished s"
    "\<And>t. t \<in> set (s_prepared s @ unfinished s) \<Longrightarrow>
          t_Idx t \<noteq> 0 \<and> tq_handlers (s_tq s) (t_Subject t) \<noteq> None"
    "distinct (map t_done (s_accepted s @ s_prepared s))"
    "\<And>t. t \<in> set (s_accepted s @ s_prepared s) \<Longrightarrow> t_done t < s_next s"
    "\<And>t. t \<in> set (s_prepared s @ unfinished s) \<Longrightarrow> s_chans s (t_done t) = Some ([], False)"
    "\<And>t err. (t, err) \<in> set (s_finished s) \<Longrightarrow> s_chans s (t_done t) = Some ([err], True)"
  shows "sys_ok s"
  using assms unfolding sys_ok_def by blast

lemma finished_accepted:
  "sys_ok s \<Longrightarrow> (t, err) \<in> set (s_finished s) \<Longrightarrow> t \<in> set (s_accepted s)"
  by (force simp: sys_ok_accepted)

lemma unfinished_accepted: "sys_ok s \<Longrightarrow> t \<in> set (unfinished s) \<Longrightarrow> t \<in> set (s_accepted s)"
  by (simp add: sys_ok_accepted)

lemma sys_ok_prepare:
  assumes ok: "sys_ok s" and p: "PushAsync_prepare (s_tq s) (s_next s) subj args = Inr task"
  shows "sys_ok (sys_prepare s task)"
proof -
  from p have task: "t_done task = s_next s" "t_Idx task = tq_idx (s_tq s) + 1"
      "tq_handlers (s_tq s) (t_Subject task) \<noteq> None"
    by (auto simp: PushAsync_prepare_def split: if_splits)
  from ok have idx: "t_Idx task \<noteq> 0"
    using task(2) word8_Suc_nonzero sys_ok_tq by (fastforce simp: tq_ok_def)
  let ?s = "sys_prepare s task"
  have proj: "s_tq ?s = s_tq s" "s_accepted ?s = s_accepted s" "s_finished ?s = s_finished s"
    "unfinished ?s = unfinished s" "s_prepared ?s = s_prepared s @ [task]" "s_next ?s = Suc (s_next s)"
    "s_chans ?s = (s_chans s)(s_next s \<mapsto> ([], False))"
    by (simp_all add: sys_prepare_def unfinished_def)
  show ?thesis
  proof (rule sys_okI, unfold proj)
    have "s_next s \<notin> t_done ` set (s_accepted s @ s_prepared s)"
      using sys_ok_less [OF ok] by fastforce
    then show "distinct (map t_done (s_accepted s @ s_prepared s @ [task]))"
      using sys_ok_distinct [OF ok] task(1) by auto
    show "t_done t < Suc (s_next s)" if "t \<in> set (s_accepted s @ s_prepared s @ [task])" for t
      using that sys_ok_less [OF ok, of t] task(1) by auto
    show "((s_chans s)(s_next s \<mapsto> ([], False))) (t_done t) = Some ([], False)"
      if "t \<in> set ((s_prepared s @ [task]) @ unfinished s)" for t
      using that sys_ok_open [OF ok, of t] task(1) by auto
    show "((s_chans s)(s_next s \<mapsto> ([], False))) (t_done t) = Some ([err], True)"
      if "(t, err) \<in> set (s_finished s)" for t err
      using that sys_ok_closed [OF ok that] sys_ok_less [OF ok, of t] finished_accepted [OF ok that]
      by auto
  qed (use sys_ok_tq [OF ok] sys_ok_accepted [OF ok] sys_ok_tasks [OF ok] task idx in auto)
qed

lemma sys_ok_accept:
  assumes ok: "sys_ok s" and t: "task \<in> set (s_prepared s)"
    and p: "PushAsync_locked (s_tq s) w task = Done (q, Inr task, d)"
  shows "sys_ok (sys_accept s q task)"
proof -
  have perm: "mset (s_accepted s @ s_prepared s) = mset ((s_accepted s @ [task]) @ remove1 task (s_prepared s))"
    using t by simp
  have sub: "set (s_accepted s @ s_prepared s) = set ((s_accepted s @ [task]) @ remove1 task (s_prepared s))"
    using perm by (rule mset_eq_setD)
  have setp: "set (s_prepared s) = insert task (set (remove1 task (s_prepared s)))"
    using mset_eq_setD [of "s_prepared s" "task # remove1 task (s_prepared s)"] t by simp
  have q: "tq_queue q = tq_queue (s_tq s) @ [task]" "tq_handlers q = tq_handlers (s_tq s)"
    using p by (auto simp: PushAsync_locked_accept)
  let ?s = "sys_accept s q task"
  have proj: "s_tq ?s = q" "s_accepted ?s = s_accepted s @ [task]" "s_finished ?s = s_finished s"
    "unfinished ?s = unfinished s @ [task]" "s_prepared ?s = remove1 task (s_prepared s)"
    "s_next ?s = s_next s" "s_chans ?s = s_chans s"
    using q by (simp_all add: sys_accept_def unfinished_def)
  have same: "set (remove1 task (s_prepared s) @ unfinished s @ [task]) = set (s_prepared s @ unfinished s)"
    using setp by auto
  show ?thesis
  proof (rule sys_okI, unfold proj)
    show "tq_ok q"
      using tq_ok_accept [OF sys_ok_tq [OF ok] p] sys_ok_tasks [OF ok, of task] t by simp
    show "distinct (map t_done ((s_accepted s @ [task]) @ remove1 task (s_prepared s)))"
      using sys_ok_distinct [OF ok] perm by (metis mset_map mset_eq_imp_distinct_iff)
    show "t_Idx u \<noteq> 0 \<and> tq_handlers q (t_Subject u) \<noteq> None"
      if "u \<in> set (remove1 task (s_prepared s) @ unfinished s @ [task])" for u
      using that sys_ok_tasks [OF ok, of u] q(2) unfolding same by simp
    show "t_done u < s_next s" if "u \<in> set ((s_accepted s @ [task]) @ remove1 task (s_prepared s))" for u
      using that sys_ok_less [OF ok, of u] unfolding sub [symmetric] by simp
    show "s_chans s (t_done u) = Some ([], False)"
      if "u \<in> set (remove1 task (s_prepared s) @ unfinished s @ [task])" for u
      using that sys_ok_open [OF ok, of u] unfolding same by simp
  qed (use sys_ok_accepted [OF ok] sys_ok_closed [OF ok] in auto)
qed

lemma sys_ok_reject:
  assumes ok: "sys_ok s" and t: "task \<in> set (s_prepared s)"
  shows "sys_ok (sys_reject s task)"
proof -
  let ?s = "sys_reject s task"
  have sub: "set (remove1 task (s_prepared s)) \<subseteq> set (s_prepared s)"
    by (rule set_remove1_subset)
  have proj: "s_tq ?s = s_tq s" "s_accepted ?s = s_accepted s" "s_finished ?s = s_finished s"
    "unfinished ?s = unfinished s" "s_prepared ?s = remove1 task (s_prepared s)"
    "s_next ?s = s_next s" "s_chans ?s = s_chans s"
    by (simp_all add: sys_reject_def unfinished_def)
  show ?thesis
  proof (rule sys_okI, unfold proj)
    have "inj_on t_done (set (s_prepared s))" "distinct (s_prepared s)"
      "t_done ` set (s_accepted s) \<inter> t_done ` set (s_prepared s) = {}" "distinct (map t_done (s_accepted s))"
      using sys_ok_distinct [OF ok] by (simp_all add: distinct_map)
    then show "distinct (map t_done (s_accepted s @ remove1 task (s_prepared s)))"
      using sub by (auto simp: distinct_map intro: inj_on_subset)
  qed (use sys_ok_tq [OF ok] sys_ok_accepted [OF ok] sys_ok_tasks [OF ok] sys_ok_less [OF ok]
        sys_ok_open [OF ok] sys_ok_closed [OF ok] sub in auto)
qed

lemma sys_ok_take:
  assumes ok: "sys_ok s" and "s_current s = None" "tq_queue (s_tq s) = t # ts"
  shows "sys_ok (sys_take s t ts)"
proof -
  let ?s = "sys_take s t ts"
  have proj: "s_tq ?s = (s_tq s)\<lparr>tq_queue := ts\<rparr>" "s_accepted ?s = s_accepted s"
    "s_finished ?s = s_finished s" "unfinished ?s = unfinished s" "s_prepared ?s = s_prepared s"
    "s_next ?s = s_next s" "s_chans ?s = s_chans s"
    using assms by (simp_all add: sys_take_def unfinished_def)
  have "tq_ok ((s_tq s)\<lparr>tq_queue := ts\<rparr>)"
    using sys_ok_tq [OF ok] assms(3) by (auto simp: tq_ok_def)
  then show ?thesis
    by (intro sys_okI, unfold proj)
      (use sys_ok_accepted [OF ok] sys_ok_tasks [OF ok] sys_ok_less [OF ok] sys_ok_distinct [OF ok]
        sys_ok_open [OF ok] sys_ok_closed [OF ok] in auto)
qed

lemma sys_ok_finish:
  assumes ok: "sys_ok s" and cur: "s_current s = Some t"
  shows "sys_ok (sys_finish s t st' err)"
proof -
  let ?s = "sys_finish s t st' err"
  have unf: "unfinished s = t # tq_queue (s_tq s)"
    using cur by (simp add: unfinished_def)
  have proj: "s_tq ?s = s_tq s" "s_accepted ?s = s_accepted s"
    "s_finished ?s = s_finished s @ [(t, err)]" "unfinished ?s = tq_queue (s_tq s)"
    "s_prepared ?s = s_prepared s" "s_next ?s = s_next s"
    "s_chans ?s = (s_chans s)(t_done t \<mapsto> ([err], True))"
    by (simp_all add: sys_finish_def unfinished_def)
  have dist: "distinct (map t_done ((map fst (s_finished s) @ t # tq_queue (s_tq s)) @ s_prepared s))"
    using sys_ok_distinct [OF ok] by (simp add: sys_ok_accepted [OF ok] unf)
  show ?thesis
  proof (rule sys_okI, unfold proj)
    show "((s_chans s)(t_done t \<mapsto> ([err], True))) (t_done u) = Some ([], False)"
      if u: "u \<in> set (s_prepared s @ tq_queue (s_tq s))" for u
    proof -
      have "t_done u \<noteq> t_done t" using dist u by (auto simp: image_iff)
      then show ?thesis using u sys_ok_open [OF ok, of u] unf by auto
    qed
    show "((s_chans s)(t_done t \<mapsto> ([err], True))) (t_done u) = Some ([e], True)"
      if u: "(u, e) \<in> set (s_finished s @ [(t, err)])" for u e
    proof (cases "(u, e) \<in> set (s_finished s)")
      case True
      then have "t_done u \<noteq> t_done t" using dist by (fastforce simp: image_iff)
      then show ?thesis using True sys_ok_closed [OF ok True] by auto
    next
      case False
      then show ?thesis using u by simp
    qed
  qed (use sys_ok_tq [OF ok] sys_ok_accepted [OF ok] sys_ok_tasks [OF ok] sys_ok_less [OF ok]
        sys_ok_distinct [OF ok] unf in auto)
qed

lemma sys_ok_step: "tq_step s t \<Longrightarrow> sys_ok s \<Longrightarrow> sys_ok t"
  by (induction rule: tq_step.induct)
    (auto intro: sys_ok_prepare sys_ok_accept sys_ok_reject sys_ok_take sys_ok_finish)

lemma sys_ok_init: "tq_ok q \<Longrightarrow> tq_queue q = [] \<Longrightarrow> sys_ok (init_sys q st)"
  by (simp add: sys_ok_def init_sys_def unfinished_def)

lemma sys_ok_reach: "tq_reach s0 s \<Longrightarrow> sys_ok s0 \<Longrightarrow> sys_ok s"
  by (induction rule: tq_reach.induct) (auto dest: sys_ok_step)

lemma NewTaskQueue_ok:
  assumes "\<forall>f \<in> set opts. \<forall>q. tq_idx (f q) = tq_idx q"
  shows "tq_ok (NewTaskQueue opts) \<and> tq_queue (NewTaskQueue opts) = []"
proof -
  have idx: "tq_idx (fold (\<lambda>f q. f q) opts q) = tq_idx q" for q
    using assms by (induction opts arbitrary: q) auto
  then show ?thesis
    by (simp add: NewTaskQueue_def Let_def tq_ok_def)
qed

lemma PushAsync_ok_iff:
  "PushAsync q w ch subj args = Done (q', Inr task) \<longleftrightarrow>
     tq_handlers q subj \<noteq> None \<and> can_send q w \<and> tq_ring q \<noteq> [] \<and>
     task = \<lparr>t_done = ch, t_Args = args, t_Idx = tq_idx q + 1, t_Subject = subj\<rparr> \<and>
     q' = q\<lparr>tq_queue := tq_queue q @ [task], tq_idx := (if tq_idx q + 1 > 255 - 1 then 0 else tq_idx q + 1),
            tq_ring := tl (tq_ring q) @ [Some task]\<rparr>"
  by (auto simp: PushAsync_def PushAsync_prepare_def PushAsync_locked_accept split: sum.splits prod.splits)

lemma PushAsync_ok_keeps:
  assumes "tq_ok q" "PushAsync q w ch subj args = Done (q', r)"
  shows "tq_ok q'"
proof (cases r)
  case (Inl e)
  then show ?thesis
    using assms by (auto simp: PushAsync_def PushAsync_locked_reject split: sum.splits)
next
  case (Inr task)
  with assms have "PushAsync_locked q w task = Done (q', Inr task, None)" "t_Idx task \<noteq> 0"
    "tq_handlers q (t_Subject task) \<noteq> None"
    using word8_Suc_nonzero [of "tq_idx q"]
    by (auto simp: PushAsync_ok_iff PushAsync_locked_accept tq_ok_def)
  then show ?thesis using tq_ok_accept [OF assms(1)] by blast
qed

text \<open>A run of pushes by one goroutine, each accepted.\<close>

fun push_many ::
  "('k, 'a, 's, 'e) TaskQueue \<Rightarrow> ('k \<times> 'a list) list \<Rightarrow> (('k, 'a, 's, 'e) TaskQueue \<times> 8 word list) option" where
  "push_many q [] = Some (q, [])"
| "push_many q ((subj, args) # ps) =
     (case PushAsync q False 0 subj args of
        Done (q', Inr task) \<Rightarrow>
          (case push_many (q'\<lparr>tq_queue := []\<rparr>) ps of
             None \<Rightarrow> None | Some (q'', is) \<Rightarrow> Some (q'', t_Idx task # is))
      | _ \<Rightarrow> None)"

lemma index_cycle_step:
  assumes "unat (i :: 8 word) < 255"
  shows "unat (i + 1) = unat i + 1"
    and "unat (if i + 1 > 255 - 1 then 0 else i + 1 :: 8 word) = (unat i + 1) mod 255"
proof -
  show one: "unat (i + 1) = unat i + 1"
    using assms by (simp add: unat_word_ariths)
  have "i + 1 > (255 - 1 :: 8 word) \<longleftrightarrow> unat i + 1 > 254"
    using one by (simp add: word_less_nat_alt)
  then show "unat (if i + 1 > 255 - 1 then 0 else i + 1 :: 8 word) = (unat i + 1) mod 255"
    using one assms by (auto simp: mod_if)
qed

lemma push_many_indices:
  assumes "push_many q ps = Some (q', is)" "unat (tq_idx q) < 255"
  shows "length is = length ps \<and> (\<forall>j < length ps. unat (is ! j) = (unat (tq_idx q) + j) mod 255 + 1)"
  using assms
proof (induction ps arbitrary: q q' "is")
  case Nil
  then show ?case by simp
next
  case (Cons p ps)
  obtain subj args where p: "p = (subj, args)" by (cases p)
  from Cons.prems p obtain q1 task q2 js where
    push: "PushAsync q False 0 subj args = Done (q1, Inr task)" and
    rest: "push_many (q1\<lparr>tq_queue := []\<rparr>) ps = Some (q2, js)" and
    res: "q' = q2" "is = t_Idx task # js"
    by (auto split: exec.splits sum.splits option.splits)
  from push have idx: "unat (t_Idx task) = unat (tq_idx q) + 1"
    "unat (tq_idx q1) = (unat (tq_idx q) + 1) mod 255"
    using index_cycle_step [OF Cons.prems(2)] by (auto simp: PushAsync_ok_iff)
  have "unat (tq_idx (q1\<lparr>tq_queue := []\<rparr>)) < 255" using idx(2) by simp
  from Cons.IH [OF rest this] have len: "length js = length ps"
    and js: "\<forall>j < length ps. unat (js ! j) = (unat (tq_idx q1) + j) mod 255 + 1" by auto
  have "unat ((t_Idx task # js) ! j) = (unat (tq_idx q) + j) mod 255 + 1" if "j < Suc (length ps)" for j
    using that js idx Cons.prems(2) by (cases j) (simp_all add: mod_simps)
  then show ?case using res len by simp
qed

lemma word8_succ_gt_254: "(i :: 8 word) + 1 > 255 - 1 \<longleftrightarrow> i = 254"
proof -
  have "x > 254 \<longleftrightarrow> x = 255" for x :: "8 word"
  proof -
    have "unat x < 2 ^ LENGTH(8)" by (rule unsigned_less)
    then show ?thesis by (auto simp: word_less_nat_alt word_unat_eq_iff)
  qed
  then have "i + 1 > 255 - 1 \<longleftrightarrow> i + 1 = 254 + 1" by simp
  then show ?thesis by (simp only: add_right_cancel)
qed

text \<open>The effect of the tasks of a queue on the service state, as a fold.\<close>

definition task_effect :: "('k, 'a, 's, 'e) TaskQueue \<Rightarrow> ('k, 'a) Task \<Rightarrow> 's \<Rightarrow> 's" where
  "task_effect q t st = (case tq_handlers q (t_Subject t) of None \<Rightarrow> st | Some h \<Rightarrow> fst (h t st))"

lemma runQueue_list_total:
  assumes "\<forall>t \<in> set ts. tq_handlers q (t_Subject t) \<noteq> None"
  shows "\<exists>errs. runQueue_list q ts st = Done (fold (task_effect q) ts st, errs) \<and> length errs = length ts"
  using assms
proof (induction ts arbitrary: st)
  case Nil
  then show ?case by simp
next
  case (Cons t ts)
  then obtain h where h: "tq_handlers q (t_Subject t) = Some h" by auto
  obtain st' err where run: "h t st = (st', err)" by (cases "h t st")
  from Cons obtain errs where "runQueue_list q ts st' = Done (fold (task_effect q) ts st', errs)"
    "length errs = length ts" by auto
  with h run show ?case
    by (auto simp: runQueue_task_def task_effect_def [of q t] Let_def)
qed

lemma runQueue_list_append:
  "runQueue_list q (ts @ us) st =
     bind_exec (runQueue_list q ts st) (\<lambda>(st', errs).
     bind_exec (runQueue_list q us st') (\<lambda>(st'', errs'). Done (st'', errs @ errs')))"
proof (induction ts arbitrary: st)
  case Nil
  show ?case by (cases "runQueue_list q us st") auto
next
  case (Cons t ts)
  show ?case
  proof (cases "runQueue_task q 0 t st")
    case (Done r)
    obtain st' err al where r: "r = (st', err, al)" by (cases r) auto
    show ?thesis
      using Done r Cons.IH [of st']
      by (cases "runQueue_list q ts st'") (auto simp: case_prod_unfold)
  qed simp
qed

subsection \<open>A small concrete system\<close>

definition demo_q :: "(nat, nat, nat, nat) TaskQueue" where
  "demo_q = NewTaskQueue [WithCapacity 2, WithHandlers [7 \<mapsto> (\<lambda>t s. (s + 1, None))]]"

definition demo_t :: "nat \<Rightarrow> 8 word \<Rightarrow> (nat, nat) Task" where
  "demo_t ch i = \<lparr>t_done = ch, t_Args = [], t_Idx = i, t_Subject = 7\<rparr>"

definition demo_push :: "(nat, nat, nat, nat) TaskQueue \<Rightarrow> (nat, nat) Task \<Rightarrow> (nat, nat, nat, nat) TaskQueue" where
  "demo_push q t = q\<lparr>tq_queue := tq_queue q @ [t], tq_idx := 1, tq_ring := tl (tq_ring q) @ [Some t]\<rparr>"

definition demo_done :: "(nat, nat, nat, nat) tq_sys" where
  "demo_done =
     sys_finish (sys_take (sys_accept (sys_prepare (init_sys demo_q 0) (demo_t 0 1)) (demo_push demo_q (demo_t 0 1)) (demo_t 0 1))
       (demo_t 0 1) []) (demo_t 0 1) 1 None"

lemma replicate_two: "replicate 2 x = [x, x]"
  by (simp add: numeral_2_eq_2)

lemmas demo_defs = demo_q_def demo_t_def demo_push_def NewTaskQueue_def WithCapacity_def WithHandlers_def
  defaultCapacity_def init_sys_def sys_defs Let_def replicate_two

lemma demo_q_ok: "tq_ok demo_q \<and> tq_queue demo_q = []"
  by (simp add: demo_defs tq_ok_def)

lemma demo_done_reach: "tq_reach (init_sys demo_q 0) demo_done"
  unfolding demo_done_def
proof (rule tq_reach.step [OF tq_reach.step [OF tq_reach.step [OF tq_reach.step [OF tq_reach.start]]]])
  show "tq_step (init_sys demo_q 0) (sys_prepare (init_sys demo_q 0) (demo_t 0 1))"
    by (rule tq_step.prepare [of _ 7 "[]"]) (simp add: demo_defs PushAsync_prepare_def)
  show "tq_step (sys_prepare (init_sys demo_q 0) (demo_t 0 1))
     (sys_accept (sys_prepare (init_sys demo_q 0) (demo_t 0 1)) (demo_push demo_q (demo_t 0 1)) (demo_t 0 1))"
    by (rule tq_step.accept [of _ _ _ None])
      (simp_all add: demo_defs PushAsync_locked_accept can_send_def word_less_nat_alt)
  show "tq_step (sys_accept (sys_prepare (init_sys demo_q 0) (demo_t 0 1)) (demo_push demo_q (demo_t 0 1)) (demo_t 0 1))
     (sys_take (sys_accept (sys_prepare (init_sys demo_q 0) (demo_t 0 1)) (demo_push demo_q (demo_t 0 1)) (demo_t 0 1)) (demo_t 0 1) [])"
    by (rule tq_step.take) (simp_all add: demo_defs)
  show "tq_step (sys_take (sys_accept (sys_prepare (init_sys demo_q 0) (demo_t 0 1)) (demo_push demo_q (demo_t 0 1)) (demo_t 0 1)) (demo_t 0 1) [])
     (sys_finish (sys_take (sys_accept (sys_prepare (init_sys demo_q 0) (demo_t 0 1)) (demo_push demo_q (demo_t 0 1)) (demo_t 0 1)) (demo_t 0 1) []) (demo_t 0 1) 1 None)"
    by (rule tq_step.finish [where elapsed = 0 and alarmed = False])
      (simp_all add: demo_defs runQueue_task_def)
qed

subsection \<open>Properties\<close>

text \<open>
  C3. However pushers and the worker interleave, the tasks accepted by the queue are exactly the
  finished tasks, then the running one, then the queued ones, in the order of acceptance: the queue
  is first-in first-out and runs each accepted task once.  The buffer never exceeds its capacity (one
  task in hand-over when the capacity is 0), and every task that waits has a handler and a non-zero
  index.
\<close>

theorem task_queue_fifo:
  assumes "tq_ok q" "tq_queue q = []" "tq_reach (init_sys q st) s"
  shows "s_accepted s = map fst (s_finished s) @ (case s_current s of None \<Rightarrow> [] | Some t \<Rightarrow> [t]) @ tq_queue (s_tq s)
    \<and> length (tq_queue (s_tq s)) \<le> max 1 (unat (tq_capacity (s_tq s)))
    \<and> (\<forall>t \<in> set (tq_queue (s_tq s)). t_Idx t \<noteq> 0 \<and> tq_handlers (s_tq s) (t_Subject t) \<noteq> None)"
proof -
  have "sys_ok s" using sys_ok_reach [OF assms(3) sys_ok_init [OF assms(1,2)]] .
  then show ?thesis
    by (auto simp: sys_ok_accepted [unfolded unfinished_def] tq_ok_def dest: sys_ok_tq)
qed

theorem task_queue_fifo_witness:
  "s_accepted demo_done = [demo_t 0 1] \<and> map fst (s_finished demo_done) = [demo_t 0 1] \<and>
   length (tq_queue (s_tq demo_done)) \<le> 2"
proof -
  have "s_accepted demo_done = map fst (s_finished demo_done) @
      (case s_current demo_done of None \<Rightarrow> [] | Some t \<Rightarrow> [t]) @ tq_queue (s_tq demo_done)
    \<and> length (tq_queue (s_tq demo_done)) \<le> max 1 (unat (tq_capacity (s_tq demo_done)))"
    using task_queue_fifo [OF _ _ demo_done_reach] demo_q_ok by blast
  then show ?thesis by (simp add: demo_done_def demo_defs)
qed



text \<open>
  \<open>PushAsync\<close> on every branch: an unregistered subject is refused with ErrTaskQueueUndefined and a
  full queue with ErrTaskQueueCapacity, both leaving the queue as it was; otherwise the task is
  appended at the end with the next index, which is stored, and reset to 0 after 255.  With capacity
  0 an accepted push writes to a nil ring and panics.
\<close>

theorem PushAsync_cases:
  assumes "length (tq_ring q) = unat (tq_capacity q)"
  shows "PushAsync q w ch subj args =
    (if tq_handlers q subj = None then Done (q, Inl (ErrTaskQueueUndefined subj))
     else if tq_capacity q = 0 then
       (if w \<and> tq_queue q = [] then Panic NilDereference else Done (q, Inl (ErrTaskQueueCapacity 0)))
     else if unat (tq_capacity q) \<le> length (tq_queue q) then Done (q, Inl (ErrTaskQueueCapacity (tq_capacity q)))
     else (let task = \<lparr>t_done = ch, t_Args = args, t_Idx = tq_idx q + 1, t_Subject = subj\<rparr>
           in Done (q\<lparr>tq_queue := tq_queue q @ [task],
                      tq_idx := (if tq_idx q = 254 then 0 else tq_idx q + 1),
                      tq_ring := tl (tq_ring q) @ [Some task]\<rparr>, Inr task)))"
proof (cases "tq_capacity q = 0")
  case True
  then have "tq_ring q = []" using assms by simp
  with True show ?thesis
    by (auto simp: PushAsync_def PushAsync_prepare_def PushAsync_locked.simps can_send_def Let_def)
next
  case False
  then have "tq_ring q \<noteq> []" using assms by (auto simp: unat_eq_0)
  then obtain r rs where "tq_ring q = r # rs" by (cases "tq_ring q") auto
  with False show ?thesis
    using word8_succ_gt_254 [of "tq_idx q"]
    by (auto simp: PushAsync_def PushAsync_prepare_def PushAsync_locked.simps can_send_def Let_def)
qed

theorem PushAsync_cases_witness:
  "length (tq_ring demo_q) = unat (tq_capacity demo_q) \<and>
   PushAsync demo_q False 0 5 [] = Done (demo_q, Inl (ErrTaskQueueUndefined 5)) \<and>
   PushAsync demo_q False 0 7 [] = Done (demo_push demo_q (demo_t 0 1), Inr (demo_t 0 1))"
proof -
  have len: "length (tq_ring demo_q) = unat (tq_capacity demo_q)"
    using demo_q_ok by (simp add: tq_ok_def)
  show ?thesis
    using len PushAsync_cases [OF len, of False 0 5 "[]"] PushAsync_cases [OF len, of False 0 7 "[]"]
    by (simp add: demo_defs)
qed

text \<open>
  C39. \<open>PushSync\<close> returns: on a well-formed queue with room and a registered subject, the tasks
  already queued run first, in order, then the pushed task's handler runs once on the state they
  leave, its error is what \<open>PushSync\<close> returns, and the queue is empty again.
\<close>

theorem PushSync_runs:
  assumes "tq_ok q" "length (tq_queue q) < unat (tq_capacity q)" "tq_handlers q subj = Some h"
  shows "\<exists>q' st' err. PushSync q ch subj args st = Done (q', st', Inr err) \<and> tq_queue q' = [] \<and>
    (st', err) = h \<lparr>t_done = ch, t_Args = args, t_Idx = tq_idx q + 1, t_Subject = subj\<rparr>
                   (fold (task_effect q) (tq_queue q) st)"
proof -
  let ?t = "\<lparr>t_done = ch, t_Args = args, t_Idx = tq_idx q + 1, t_Subject = subj\<rparr>"
  have ring: "tq_ring q \<noteq> []" using assms(1,2) by (auto simp: tq_ok_def)
  have send: "can_send q True" using assms(2) by (auto simp: can_send_def)
  from ring obtain q1 where push: "PushAsync q True ch subj args = Done (q1, Inr ?t)"
    and q1: "tq_queue q1 = tq_queue q @ [?t]" "tq_handlers q1 = tq_handlers q"
    using assms(3) send by (auto simp: PushAsync_ok_iff)
  have eff: "task_effect q1 = task_effect q" using q1(2) by (simp add: task_effect_def fun_eq_iff)
  obtain errs where old: "runQueue_list q1 (tq_queue q) st = Done (fold (task_effect q) (tq_queue q) st, errs)"
    using runQueue_list_total [of "tq_queue q" q1 st] assms(1) q1(2) eff by (auto simp: tq_ok_def)
  obtain st' err where run: "h ?t (fold (task_effect q) (tq_queue q) st) = (st', err)"
    by (cases "h ?t (fold (task_effect q) (tq_queue q) st)")
  have "runQueue_list q1 (tq_queue q1) st = Done (st', errs @ [err])"
    using old run assms(3) q1 by (simp add: runQueue_list_append runQueue_task_def Let_def)
  then show ?thesis
    using push run by (simp add: PushSync_def)
qed

theorem PushSync_runs_witness:
  "\<exists>q' st' err. PushSync demo_q 0 7 [] 41 = Done (q', st', Inr err) \<and> tq_queue q' = [] \<and> (st', err) = (42, None)"
proof -
  have "length (tq_queue demo_q) < unat (tq_capacity demo_q)" "tq_handlers demo_q 7 = Some (\<lambda>t s. (s + 1, None))"
    by (simp_all add: demo_defs)
  from PushSync_runs [OF _ this, of 0 "[]" 41] demo_q_ok show ?thesis
    by (simp add: demo_defs)
qed

text \<open>
  Task indices: pushed one after the other on a fresh queue, the \<open>n\<close>-th accepted task (counting
  from 0) has index \<open>n mod 255 + 1\<close>.  So an index is never 0 (the value the status API uses for "no
  task"), and it repeats only after 255 tasks.
\<close>

theorem push_indices_cycle:
  assumes "push_many q ps = Some (q', is)" "tq_idx q = 0" "j < length ps"
  shows "length is = length ps \<and> unat (is ! j) = j mod 255 + 1"
  using push_many_indices [OF assms(1)] assms(2,3) by simp

theorem push_indices_cycle_witness:
  "map_option snd (push_many demo_q [(7, []), (7, []), (7, [])]) = Some [1, 2, 3] \<and> unat (3 :: 8 word) = 2 mod 255 + 1"
proof -
  obtain q' where run: "push_many demo_q [(7, []), (7, []), (7, [])] = Some (q', [1, 2, 3])"
    by (simp add: demo_defs PushAsync_def PushAsync_prepare_def PushAsync_locked.simps can_send_def word_less_nat_alt)
  have "tq_idx demo_q = 0" by (simp add: demo_defs)
  from push_indices_cycle [OF run this, of 2] run show ?thesis by simp
qed

text \<open>
  The index is read before the lock is taken, so concurrent pushes can give two queued tasks the
  same index: an interleaving that reaches such a state.
\<close>

theorem concurrent_push_same_index:
  "\<exists>s t u. tq_reach (init_sys demo_q 0) s \<and> tq_queue (s_tq s) = [t, u] \<and> t_Idx t = t_Idx u \<and> t_done t \<noteq> t_done u"
proof -
  let ?s0 = "init_sys demo_q 0"
  let ?s1 = "sys_prepare ?s0 (demo_t 0 1)"
  let ?s2 = "sys_prepare ?s1 (demo_t 1 1)"
  let ?q1 = "demo_push demo_q (demo_t 0 1)"
  let ?s3 = "sys_accept ?s2 ?q1 (demo_t 0 1)"
  let ?q2 = "demo_push ?q1 (demo_t 1 1)"
  let ?s4 = "sys_accept ?s3 ?q2 (demo_t 1 1)"
  have "tq_step ?s0 ?s1" by (rule tq_step.prepare [of _ 7 "[]"]) (simp add: demo_defs PushAsync_prepare_def)
  moreover have "tq_step ?s1 ?s2" by (rule tq_step.prepare [of _ 7 "[]"]) (simp add: demo_defs PushAsync_prepare_def)
  moreover have "tq_step ?s2 ?s3"
    by (rule tq_step.accept [of _ _ _ None])
      (simp_all add: demo_defs PushAsync_locked_accept can_send_def word_less_nat_alt)
  moreover have "tq_step ?s3 ?s4"
    by (rule tq_step.accept [of _ _ _ None])
      (simp_all add: demo_defs PushAsync_locked_accept can_send_def word_less_nat_alt)
  ultimately have "tq_reach ?s0 ?s4" by (meson tq_reach.intros)
  moreover have "tq_queue (s_tq ?s4) = [demo_t 0 1, demo_t 1 1]" by (simp add: demo_defs)
  ultimately show ?thesis by (intro exI conjI) (assumption | simp add: demo_t_def)+
qed

end
