(* ===== verification/Agent_Tasks.thy ===== *)
theory Agent_Tasks
  imports Nats_Handlers Task_Queue
begin

text \<open>
  The tasks of the agent, \<^verbatim>\<open>services/agent.go\<close>: configuration, exit, and starting and stopping of the
  controller, of the NATS server and of the transport, as they run one by one in the worker of the task queue;
  the public operations that push them; and the loop that asks the configuration server for a reload.

  An operation maps the agent to a new agent and an error; a panic, or a wait that never ends, is that of
  the type \<open>exec\<close>.  The registered configuration handler works on the state of a connector, which is outside:
  it returns or panics.  Telemetry is only present as the nesting of the request hook.  Removing the directory
  of the stream and the log of errors has no counterpart in the state.
\<close>

subsection \<open>Environment\<close>

record task_env =
  te_svc :: svc_env
  te_cfg :: cfg_env
  te_server :: server_env
  te_connect :: "error option" \<comment> \<open>\<open>nats.Connect\<close> of the dispatcher\<close>
  te_consumer :: "bytes \<Rightarrow> bool" \<comment> \<open>the consumer of a durable can be created\<close>
  te_Hashsum :: "NatsCfg \<Rightarrow> bytes option"
  te_listen :: bool \<comment> \<open>the HTTP server of the controller serves after the start\<close>
  te_exitHandler :: bool \<comment> \<open>the exit handler returns without a panic\<close>
  te_configHandler :: "bytes \<Rightarrow> panic option" \<comment> \<open>how the configuration handler ends\<close>

type_synonym agent_result = "(Agent \<times> error option) exec"

subsection \<open>Transport and NATS\<close>

definition stopTransport :: "Agent \<Rightarrow> Agent" where
  "stopTransport a = (if \<not> IsStartedDispatcher (ag_nats a) then a else a\<lparr>ag_nats := StopDispatcher (ag_nats a)\<rparr>)"

definition enabled_clients :: "Config \<Rightarrow> GWClient list" where
  "enabled_clients cfg =
     map (\<lambda>c. \<lparr>gc_AppName = c_AppName (cfg_Connector cfg), gc_AppType = c_AppType (cfg_Connector cfg), gc_GWConnection = c\<rparr>)
       (filter gw_Enabled (cfg_GWConnections cfg))"

text \<open>\<open>strings.EqualFold\<close> with \<open>NAGIOS\<close>, for texts of ASCII letters.\<close>

definition startTransport :: "task_env \<Rightarrow> Agent \<Rightarrow> Agent \<times> error option" where
  "startTransport env a =
     (if \<not> isConnectorConfigured a
      then (a, if ToUpper (c_AppType (ag_con a)) = ''NAGIOS'' then None
               else Some (Errorf ErrNotConfigured (c_AppType (ag_con a) @ ''/'' @ c_AgentID (ag_con a))))
      else let gwClients = enabled_clients (ag_cfg a)
           in if length gwClients = 0 then (a, None)
              else case StartDispatcher (te_connect env) (te_consumer env) (map (durable_name \<circ> client_durable) gwClients) (ag_nats a) of
                     (s, e) \<Rightarrow> (a\<lparr>ag_gwClients := gwClients, ag_nats := s\<rparr>, map_option (nats_error_value []) e))"

definition nats_config :: "Agent \<Rightarrow> NatsConfig" where
  "nats_config a =
     (let n = c_Nats (ag_con a) in
      \<lparr>nc_AckWait = n_NatsAckWait n, nc_MaxPayload = n_NatsMaxPayload n, nc_MonitorPort = n_NatsMonitorPort n,
       nc_StoreDir = n_NatsStoreDir n, nc_StoreType = n_NatsStoreType n, nc_StoreMaxAge = n_NatsStoreMaxAge n,
       nc_StoreMaxBytes = n_NatsStoreMaxBytes n, nc_StoreMaxMsgs = n_NatsStoreMaxMsgs n,
       nc_ConfigFile = n_NatsServerConfigFile n\<rparr>)"

definition startNats :: "task_env \<Rightarrow> Agent \<Rightarrow> Agent \<times> error option" where
  "startNats env a =
     (case StartServer (te_server env) (nats_config a) (ag_nats a) of
        (s, e) \<Rightarrow> (a\<lparr>ag_nats := s\<rparr>, map_option (nats_error_value []) e))"

text \<open>Stopping the transport gives no error.\<close>

definition stopNats :: "Agent \<Rightarrow> Agent exec" where
  "stopNats a =
     (if \<not> IsStartedServer (ag_nats a) then Done a
      else let a1 = stopTransport a in bind_exec (StopServer (ag_nats a1)) (\<lambda>s. Done (a1\<lparr>ag_nats := s\<rparr>)))"

definition resetNats :: "task_env \<Rightarrow> Agent \<Rightarrow> Agent exec" where
  "resetNats env a =
     (let isNatsRunning = IsStartedServer (ag_nats a); isTransportRunning = IsStartedDispatcher (ag_nats a)
      in bind_exec (stopNats a) (\<lambda>a1.
           let a2 = (if isNatsRunning then fst (startNats env a1) else a1)
           in Done (if isTransportRunning then fst (startTransport env a2) else a2)))"

subsection \<open>Controller\<close>

definition startController :: "task_env \<Rightarrow> Agent \<Rightarrow> Agent" where
  "startController env a = (if ag_srv a then a else a\<lparr>ag_srv := te_listen env\<rparr>)"

definition stopController :: "Agent \<Rightarrow> Agent" where
  "stopController a = (if \<not> ag_srv a then a else a\<lparr>ag_srv := False\<rparr>)"

subsection \<open>Configuration\<close>

definition cfg_error_value :: "cfg_error \<Rightarrow> error" where
  "cfg_error_value e = Other ''config''"

definition events_Reset :: "svc_env \<Rightarrow> Agent \<Rightarrow> Agent exec" where
  "events_Reset env a =
     bind_exec (Reset (EventsBuild (sv_ev_um env) (sv_ev_ma env)) (batch_handler (sendEvents env None)) (ag_events a) (Done a)
                  (c_BatchEvents (ag_con a)) (c_BatchMaxBytes (ag_con a)))
       (\<lambda>(bt, st). bind_exec st (\<lambda>a'. Done (a'\<lparr>ag_events := bt\<rparr>)))"

definition metrics_Reset :: "svc_env \<Rightarrow> Agent \<Rightarrow> Agent exec" where
  "metrics_Reset env a =
     bind_exec (Reset (MetricsBuild (sv_ord env) (sv_rq_um env) (sv_rq_ma env)) (batch_handler (sendMetrics env None)) (ag_metrics a) (Done a)
                  (c_BatchMetrics (ag_con a)) (c_BatchMaxBytes (ag_con a)))
       (\<lambda>(bt, st). bind_exec st (\<lambda>a'. Done (a'\<lparr>ag_metrics := bt\<rparr>)))"

definition initOTEL :: "Agent \<Rightarrow> Agent" where
  "initOTEL a = a\<lparr>ag_hooks := ag_hooks a + 1\<rparr>"

definition nats_checksum :: "task_env \<Rightarrow> Agent \<Rightarrow> bytes" where
  "nats_checksum env a = (case te_Hashsum env (c_Nats (ag_con a)) of None \<Rightarrow> [] | Some h \<Rightarrow> h)"

text \<open>The part of \<open>config\<close> that restarts NATS and the transport.\<close>

definition config_nats :: "task_env \<Rightarrow> bytes \<Rightarrow> bool \<Rightarrow> Agent \<Rightarrow> Agent exec" where
  "config_nats env natsChk0 isTransportRunning a =
     (if natsChk0 \<noteq> nats_checksum env a
      then bind_exec (stopNats a) (\<lambda>a1.
             let a2 = fst (startNats env a1)
             in Done (if c_Enabled (ag_con a2) then fst (startTransport env a2) else a2))
      else if c_Enabled (ag_con a) \<and> isTransportRunning then Done (fst (startTransport env a))
      else Done a)"

definition config :: "task_env \<Rightarrow> bytes \<Rightarrow> Agent \<Rightarrow> agent_result" where
  "config env data a =
     (let natsChk0 = nats_checksum env a;
          isTransportRunning = IsStartedDispatcher (ag_nats a);
          a1 = stopTransport a
      in bind_exec (LoadConnectorDTO (te_cfg env) data (ag_cfg a1)) (\<lambda>(cfg', output, r).
           case r of
             Inl err \<Rightarrow> Done (a1\<lparr>ag_cfg := cfg'\<rparr>, Some (cfg_error_value err))
           | Inr dto \<Rightarrow>
               bind_exec (events_Reset (te_svc env) (a1\<lparr>ag_cfg := cfg', ag_ds := cfg_DSHostName cfg'\<rparr>)) (\<lambda>a2.
               bind_exec (metrics_Reset (te_svc env) a2) (\<lambda>a3.
               bind_exec (config_nats env natsChk0 isTransportRunning (initOTEL (a3\<lparr>ag_authFlushes := ag_authFlushes a3 + 1\<rparr>))) (\<lambda>a4.
               bind_exec (if \<not> isConnectorConfigured a4
                          then resetNats env (a4\<lparr>ag_events := Clear (ag_events a4), ag_metrics := Clear (ag_metrics a4)\<rparr>)
                          else Done a4) (\<lambda>a5.
                 case te_configHandler env data of
                   Some p \<Rightarrow> Panic p
                 | None \<Rightarrow> Done (a5, None)))))))"

subsection \<open>Exit\<close>

text \<open>
  Both batchers get the exit signal (a send that can block); the exit handler runs in a goroutine that reports
  on a channel only when the handler returned, so after a panic of the handler, which is recovered, the wait
  never ends; so does the last send when nobody took an earlier quit signal.
\<close>

definition send_exit :: "Batcher \<Rightarrow> Batcher exec" where
  "send_exit bt = (case Exit bt of None \<Rightarrow> Panic Diverges | Some bt' \<Rightarrow> Done bt')"

definition exit :: "task_env \<Rightarrow> Agent \<Rightarrow> agent_result" where
  "exit env a =
     bind_exec (send_exit (ag_events a)) (\<lambda>ev.
     bind_exec (send_exit (ag_metrics a)) (\<lambda>me.
       if \<not> te_exitHandler env then Panic Diverges
       else bind_exec (stopNats (stopTransport (stopController (a\<lparr>ag_events := ev, ag_metrics := me\<rparr>)))) (\<lambda>a1.
              if ag_quit a1 < 1 then Done (a1\<lparr>ag_quit := ag_quit a1 + 1\<rparr>, None) else Panic Diverges)))"

subsection \<open>The task queue of the agent\<close>

definition taskConfig :: bytes where "taskConfig = ''config''"
definition taskExit :: bytes where "taskExit = ''exit''"
definition taskResetNats :: bytes where "taskResetNats = ''resetNats''"
definition taskStartController :: bytes where "taskStartController = ''startController''"
definition taskStopController :: bytes where "taskStopController = ''stopController''"
definition taskStartNats :: bytes where "taskStartNats = ''startNats''"
definition taskStopNats :: bytes where "taskStopNats = ''stopNats''"
definition taskStartTransport :: bytes where "taskStartTransport = ''startTransport''"
definition taskStopTransport :: bytes where "taskStopTransport = ''stopTransport''"

definition task_subjects :: "bytes list" where
  "task_subjects = [taskConfig, taskExit, taskResetNats, taskStartController, taskStopController, taskStartNats, taskStopNats,
     taskStartTransport, taskStopTransport]"

definition without_error :: "Agent exec \<Rightarrow> agent_result" where
  "without_error r = bind_exec r (\<lambda>a. Done (a, None))"

definition run_task :: "task_env \<Rightarrow> (bytes, bytes) Task \<Rightarrow> Agent \<Rightarrow> agent_result" where
  "run_task env t a =
     (let subj = t_Subject t in
      if subj = taskConfig then (case t_Args t of [] \<Rightarrow> Panic IndexOutOfRange | data # _ \<Rightarrow> config env data a)
      else if subj = taskExit then exit env a
      else if subj = taskResetNats then without_error (resetNats env a)
      else if subj = taskStartController then Done (startController env a, None)
      else if subj = taskStopController then Done (stopController a, None)
      else if subj = taskStartNats then Done (startNats env a)
      else if subj = taskStopNats then without_error (stopNats a)
      else if subj = taskStartTransport then Done (startTransport env a)
      else if subj = taskStopTransport then Done (stopTransport a, None)
      else Done (a, None))"

text \<open>
  The handler of the queue.  Its state is the agent or the panic that ended the program, after which nothing
  more happens.
\<close>

definition hTask :: "task_env \<Rightarrow> (bytes, bytes, Agent exec, error) Handler" where
  "hTask env t st =
     (case bind_exec st (\<lambda>a. run_task env t (a\<lparr>ag_running := True\<rparr>)) of
        Panic p \<Rightarrow> (Panic p, None)
      | Done (a, err) \<Rightarrow> (Done (a\<lparr>ag_running := False\<rparr>), err))"

definition task_handler_map :: "task_env \<Rightarrow> bytes \<rightharpoonup> (bytes, bytes, Agent exec, error) Handler" where
  "task_handler_map env k = (if k \<in> set task_subjects then Some (hTask env) else None)"

definition handleTasks :: "task_env \<Rightarrow> (bytes, bytes, Agent exec, error) TaskQueue" where
  "handleTasks env =
     NewTaskQueue [WithAlarm (Second * 9) (\<lambda>_. None), WithCapacity 8, WithHandlers (task_handler_map env), WithDebugger (\<lambda>_. ())]"

subsection \<open>What sending leaves alone\<close>

text \<open>Publishing and batching change the queue of the publisher, the batchers and the token counter only.\<close>

definition same_core :: "Agent \<Rightarrow> Agent \<Rightarrow> bool" where
  "same_core a b \<longleftrightarrow> ag_nats a = ag_nats b \<and> ag_cfg a = ag_cfg b \<and> ag_gwClients a = ag_gwClients b \<and> ag_quit a = ag_quit b"

lemma same_core_refl [simp]: "same_core a a"
  by (simp add: same_core_def)

lemma same_core_trans: "same_core a b \<Longrightarrow> same_core b c \<Longrightarrow> same_core a c"
  by (simp add: same_core_def)

lemma same_core_simps [simp]:
  "same_core (a\<lparr>ag_events := x\<rparr>) b = same_core a b" "same_core (a\<lparr>ag_metrics := x\<rparr>) b = same_core a b"
  "same_core (a\<lparr>ag_pub := y\<rparr>) b = same_core a b" "same_core (a\<lparr>ag_tokenInc := z\<rparr>) b = same_core a b"
  by (simp_all add: same_core_def)

lemma same_core_pub: "pub_agent subj data h a = (a', e) \<Longrightarrow> same_core a' a"
  by (auto dest!: pub_agent_cases)

lemma same_core_Put2Nats: "Put2Nats env ctx subj p a = (a', e) \<Longrightarrow> same_core a' a"
  by (auto simp: Put2Nats_def Let_def split: if_splits sum.splits dest: same_core_pub)

lemma same_core_put_typed: "put_typed env ctx t todo subj p a = Done (a', e) \<Longrightarrow> same_core a' a"
  by (auto simp: put_typed_def Let_def intro: same_core_Put2Nats)

lemma same_core_mix: "mixTracerContext env a p = Done (a', r) \<Longrightarrow> same_core a' a"
  by (auto simp: mixTracerContext_def MakeTracerContext_def Let_def split: if_splits option.splits)

lemma same_core_put_mixed: "put_mixed env ctx t subj p a = Done (a', e) \<Longrightarrow> same_core a' a"
  by (auto simp: put_mixed_def intro: same_core_trans [OF same_core_put_typed same_core_mix])

lemma deliver_core:
  assumes "\<forall>p b b' e. send p b = Done (b', e) \<longrightarrow> same_core b' b"
  shows "deliver (batch_handler send) st ps = Done b \<Longrightarrow> \<exists>a. st = Done a \<and> same_core b a"
proof (induction ps arbitrary: st)
  case (Cons p ps)
  let ?st = "if length p > 0 then fst (batch_handler send st p) else st"
  obtain a1 where a1: "?st = Done a1" "same_core b a1" using Cons by auto
  then have "\<exists>a. st = Done a \<and> same_core a1 a"
    using assms by (cases st) (fastforce simp: batch_handler_def split: if_splits exec.splits)+
  then show ?case using a1(2) same_core_trans by blast
qed simp

lemma Reset_core:
  assumes "\<forall>p b b' e. send p b = Done (b', e) \<longrightarrow> same_core b' b"
    and "Reset build (batch_handler send) bt (Done a) d m = Done (bt', Done b)"
  shows "same_core b a"
proof -
  have "Batch_process build (batch_handler send) (bt_maxBytes bt) (bt_buf bt) (Done a) = Done (Done b)"
    using assms(2) by (auto simp: Reset_def Batch_Done)
  then consider "b = a" | out where "deliver (batch_handler send) (Done a) out = Done b"
    by (auto simp: Batch_process_def split: if_splits)
  then show ?thesis using deliver_core [OF assms(1)] by cases auto
qed

lemma same_core_events_Reset: "events_Reset env a = Done b \<Longrightarrow> same_core b a"
  using Reset_core [of "sendEvents env None"] same_core_put_typed by (fastforce simp: events_Reset_def sendEvents_def)

lemma same_core_metrics_Reset: "metrics_Reset env a = Done b \<Longrightarrow> same_core b a"
  using Reset_core [of "sendMetrics env None"] same_core_put_mixed by (fastforce simp: metrics_Reset_def sendMetrics_def)

subsection \<open>The invariant of the agent\<close>

text \<open>
  The goroutines of NATS are under control; a dispatcher is only connected while the server runs; messages
  are only fetched while the dispatcher is connected; and each fetching goroutine works for one of the
  clients the transport was started with.
\<close>

definition transport_ok :: "nats_state \<Rightarrow> GWClient list \<Rightarrow> bool" where
  "transport_ok s cs \<longleftrightarrow> ns_ok s \<and> (IsStartedDispatcher s \<longrightarrow> IsStartedServer s) \<and> (ns_fetchers s \<noteq> [] \<longrightarrow> IsStartedDispatcher s) \<and>
     snd ` set (ns_fetchers s) \<subseteq> (durable_name \<circ> client_durable) ` set cs"

definition agent_ok :: "Agent \<Rightarrow> bool" where
  "agent_ok a \<longleftrightarrow> transport_ok (ag_nats a) (ag_gwClients a)"

lemma agent_ok_core: "same_core b a \<Longrightarrow> agent_ok b = agent_ok a"
  by (simp add: agent_ok_def same_core_def)

lemma agent_ok_simps [simp]:
  "agent_ok (a\<lparr>ag_cfg := c\<rparr>) = agent_ok a" "agent_ok (a\<lparr>ag_ds := d\<rparr>) = agent_ok a" "agent_ok (a\<lparr>ag_srv := r\<rparr>) = agent_ok a"
  "agent_ok (a\<lparr>ag_authFlushes := n\<rparr>) = agent_ok a" "agent_ok (a\<lparr>ag_hooks := n\<rparr>) = agent_ok a" "agent_ok (a\<lparr>ag_quit := n\<rparr>) = agent_ok a"
  "agent_ok (a\<lparr>ag_running := r\<rparr>) = agent_ok a" "agent_ok (a\<lparr>ag_events := e\<rparr>) = agent_ok a" "agent_ok (a\<lparr>ag_metrics := e\<rparr>) = agent_ok a"
  by (simp_all add: agent_ok_def)

lemma StartDispatcher_server: "ns_server (fst (StartDispatcher connect consumer options s)) = ns_server s"
  by (simp add: StartDispatcher_def StopDispatcher_def cancel_ctx_def fold_OpenDurable Let_def split: option.splits)

lemma StopDispatcher_server: "ns_server (StopDispatcher s) = ns_server s"
  by (simp add: StopDispatcher_def cancel_ctx_def split: option.splits)

lemma transport_ok_stop: "transport_ok s cs \<Longrightarrow> transport_ok (StopDispatcher s) ds"
  using StopDispatcher_spec [of s] by (auto simp: transport_ok_def IsStartedDispatcher_def)

lemma transport_ok_start:
  assumes "transport_ok s cs0" "StartDispatcher connect consumer (map (durable_name \<circ> client_durable) cs) s = (s', r)"
  shows "transport_ok s' cs"
proof -
  have sv: "ns_server s' = ns_server s" using StartDispatcher_server assms(2) by (metis fst_conv)
  note spec = StartDispatcher_spec [OF _ assms(2)]
  show ?thesis
  proof (cases r)
    case None
    then have f: "map snd (ns_fetchers s') = filter consumer (map (durable_name \<circ> client_durable) cs)" "IsStartedDispatcher s'" "ns_server s \<noteq> None" "ns_ok s'"
      using spec assms(1) by (auto simp: transport_ok_def)
    have "snd ` set (ns_fetchers s') = set (filter consumer (map (durable_name \<circ> client_durable) cs))"
      using f(1) by (metis list.set_map)
    then show ?thesis using f sv by (auto simp: transport_ok_def IsStartedServer_def)
  next
    case (Some e)
    then show ?thesis using spec assms(1) by (auto simp: transport_ok_def)
  qed
qed

lemma agent_ok_stopTransport: "agent_ok a \<Longrightarrow> agent_ok (stopTransport a)"
  using transport_ok_stop by (auto simp: stopTransport_def agent_ok_def)

lemma agent_ok_startTransport: "agent_ok a \<Longrightarrow> agent_ok (fst (startTransport env a))"
  by (auto simp: startTransport_def agent_ok_def Let_def split: prod.splits dest: transport_ok_start)

lemma stopTransport_stopped: "agent_ok a \<Longrightarrow> \<not> IsStartedDispatcher (ag_nats (stopTransport a)) \<and> ns_fetchers (ag_nats (stopTransport a)) = []"
  using StopDispatcher_spec [of "ag_nats a"] by (auto simp: stopTransport_def agent_ok_def transport_ok_def IsStartedDispatcher_def)

lemma agent_ok_startNats:
  assumes "agent_ok a"
  shows "agent_ok (fst (startNats env a))"
proof -
  obtain s e where s: "StartServer (te_server env) (nats_config a) (ag_nats a) = (s, e)" by fastforce
  have ok: "ns_ok s" using ns_ok_StartServer [OF _ s] assms by (simp add: agent_ok_def transport_ok_def)
  from s have "ns_fetchers s = ns_fetchers (ag_nats a) \<and> ns_ncDispatcher s = ns_ncDispatcher (ag_nats a) \<and>
      (ns_server (ag_nats a) \<noteq> None \<longrightarrow> ns_server s \<noteq> None)"
    by (cases rule: StartServer_cases) auto
  then show ?thesis
    using assms ok s by (auto simp: startNats_def agent_ok_def transport_ok_def IsStartedDispatcher_def IsStartedServer_def)
qed

lemma StopServer_fetchers: "StopServer s = Done s' \<Longrightarrow> set (ns_fetchers s') \<subseteq> set (ns_fetchers s)"
  by (auto simp: StopServer_def cancel_ctx_def split: option.splits)

lemma agent_ok_stopNats:
  assumes "agent_ok a" "stopNats a = Done b"
  shows "agent_ok b \<and> \<not> IsStartedServer (ag_nats b) \<and> \<not> IsStartedDispatcher (ag_nats b) \<and> ns_fetchers (ag_nats b) = []"
proof (cases "IsStartedServer (ag_nats a)")
  case False
  then show ?thesis using assms by (auto simp: stopNats_def agent_ok_def transport_ok_def)
next
  case True
  let ?a = "stopTransport a"
  obtain s where s: "StopServer (ag_nats ?a) = Done s" "b = ?a\<lparr>ag_nats := s\<rparr>"
    using assms(2) True by (auto simp: stopNats_def Let_def)
  have "ns_ok (ag_nats ?a)" "ns_fetchers (ag_nats ?a) = []"
    using agent_ok_stopTransport [OF assms(1)] stopTransport_stopped [OF assms(1)] by (auto simp: agent_ok_def transport_ok_def)
  then show ?thesis
    using ns_ok_StopServer [OF _ s(1)] StopServer_fetchers [OF s(1)] s(2)
    by (auto simp: agent_ok_def transport_ok_def IsStartedServer_def IsStartedDispatcher_def)
qed

lemma agent_ok_resetNats: "agent_ok a \<Longrightarrow> resetNats env a = Done b \<Longrightarrow> agent_ok b"
  by (auto simp: resetNats_def Let_def intro!: agent_ok_startTransport agent_ok_startNats dest: agent_ok_stopNats)

lemma agent_ok_config_nats: "agent_ok a \<Longrightarrow> config_nats env chk running a = Done b \<Longrightarrow> agent_ok b"
  by (auto simp: config_nats_def Let_def split: if_splits intro!: agent_ok_startTransport agent_ok_startNats dest: agent_ok_stopNats)

text \<open>The steps of a configuration that is accepted.\<close>

lemma config_accepted:
  assumes "config env data a = Done (b, e)" "LoadConnectorDTO (te_cfg env) data (ag_cfg (stopTransport a)) = Done (cfg', out, Inr dto)"
  obtains a2 a3 a4 where "events_Reset (te_svc env) ((stopTransport a)\<lparr>ag_cfg := cfg', ag_ds := cfg_DSHostName cfg'\<rparr>) = Done a2"
    "metrics_Reset (te_svc env) a2 = Done a3"
    "config_nats env (nats_checksum env a) (IsStartedDispatcher (ag_nats a)) (initOTEL (a3\<lparr>ag_authFlushes := ag_authFlushes a3 + 1\<rparr>)) = Done a4"
    "if isConnectorConfigured a4 then b = a4
     else resetNats env (a4\<lparr>ag_events := Clear (ag_events a4), ag_metrics := Clear (ag_metrics a4)\<rparr>) = Done b"
    "e = None"
  using assms by (auto simp: config_def Let_def split: if_splits option.splits)

lemma agent_ok_config:
  assumes "agent_ok a" "config env data a = Done (b, e)"
  shows "agent_ok b"
proof -
  obtain cfg' out r where l: "LoadConnectorDTO (te_cfg env) data (ag_cfg (stopTransport a)) = Done (cfg', out, r)"
    using assms(2) by (auto simp: config_def Let_def)
  show ?thesis
  proof (cases r)
    case (Inl err)
    then show ?thesis using assms l agent_ok_stopTransport [OF assms(1)] by (auto simp: config_def Let_def)
  next
    case (Inr dto)
    from config_accepted [OF assms(2) l [unfolded Inr]] obtain a2 a3 a4 where
        s: "events_Reset (te_svc env) ((stopTransport a)\<lparr>ag_cfg := cfg', ag_ds := cfg_DSHostName cfg'\<rparr>) = Done a2"
        "metrics_Reset (te_svc env) a2 = Done a3"
        "config_nats env (nats_checksum env a) (IsStartedDispatcher (ag_nats a)) (initOTEL (a3\<lparr>ag_authFlushes := ag_authFlushes a3 + 1\<rparr>)) = Done a4"
        "if isConnectorConfigured a4 then b = a4
         else resetNats env (a4\<lparr>ag_events := Clear (ag_events a4), ag_metrics := Clear (ag_metrics a4)\<rparr>) = Done b"
      by blast
    have "agent_ok a3"
      using agent_ok_core [OF same_core_events_Reset [OF s(1)]] agent_ok_core [OF same_core_metrics_Reset [OF s(2)]]
        agent_ok_stopTransport [OF assms(1)] by simp
    then have "agent_ok a4" using agent_ok_config_nats [OF _ s(3)] by (simp add: initOTEL_def)
    then have "agent_ok (a4\<lparr>ag_events := Clear (ag_events a4), ag_metrics := Clear (ag_metrics a4)\<rparr>)" by simp
    then show ?thesis using s(4) \<open>agent_ok a4\<close> agent_ok_resetNats by metis
  qed
qed

lemma exit_steps:
  assumes "exit env a = Done (b, e)"
  obtains ev me a1 where "stopNats (stopTransport (stopController (a\<lparr>ag_events := ev, ag_metrics := me\<rparr>))) = Done a1"
    "ag_quit a1 = 0" "b = a1\<lparr>ag_quit := 1\<rparr>" "e = None" "te_exitHandler env"
  using assms by (auto simp: exit_def split: if_splits)

lemma agent_ok_stopController [simp]: "agent_ok (stopController a) = agent_ok a"
  by (simp add: stopController_def)

lemma agent_ok_exit:
  assumes "agent_ok a" "exit env a = Done (b, e)"
  shows "agent_ok b"
proof -
  from exit_steps [OF assms(2)] obtain ev me a1 where
      s: "stopNats (stopTransport (stopController (a\<lparr>ag_events := ev, ag_metrics := me\<rparr>))) = Done a1" "b = a1\<lparr>ag_quit := 1\<rparr>"
    by metis
  have "agent_ok (stopTransport (stopController (a\<lparr>ag_events := ev, ag_metrics := me\<rparr>)))"
    by (rule agent_ok_stopTransport) (simp add: assms(1))
  then show ?thesis using agent_ok_stopNats [OF _ s(1)] s(2) by simp
qed

lemma agent_ok_run_task:
  assumes "agent_ok a" "run_task env t a = Done (b, e)"
  shows "agent_ok b"
  using assms agent_ok_startTransport [of a env] agent_ok_startNats [of a env] agent_ok_stopTransport [of a]
  by (auto simp: run_task_def without_error_def Let_def startController_def stopController_def
      split: if_splits list.splits dest: agent_ok_config agent_ok_exit agent_ok_resetNats agent_ok_stopNats)

definition ended_or_ok :: "Agent exec \<Rightarrow> bool" where
  "ended_or_ok st = (case st of Panic _ \<Rightarrow> True | Done a \<Rightarrow> agent_ok a)"

interpretation th: task_handlers "task_handler_map env" ended_or_ok
proof
  fix k h and t :: "(bytes, bytes) Task" and st
  assume h: "task_handler_map env k = Some h" and st: "ended_or_ok st"
  have h': "h = hTask env" using h by (simp add: task_handler_map_def split: if_splits)
  show "ended_or_ok (fst (h t st))"
  proof (cases "bind_exec st (\<lambda>a. run_task env t (a\<lparr>ag_running := True\<rparr>))")
    case (Panic p)
    then show ?thesis by (simp add: h' hTask_def ended_or_ok_def)
  next
    case (Done r)
    obtain b e where r: "r = (b, e)" by fastforce
    obtain a where a: "st = Done a" "run_task env t (a\<lparr>ag_running := True\<rparr>) = Done (b, e)" using Done r by auto
    have "agent_ok b" by (rule agent_ok_run_task [OF _ a(2)]) (use st a(1) in \<open>simp add: ended_or_ok_def\<close>)
    then show ?thesis using a by (simp add: h' hTask_def ended_or_ok_def)
  qed
qed

subsection \<open>Asking for a configuration\<close>

text \<open>
  \<open>DemandConfig\<close> starts the controller; if the agent is known to a configuration server, a goroutine asks it for
  a reload until it answers or does not know the agent.  The result of the loop is the network and the pauses
  it made; a loop that goes on for ever has no result.
\<close>

definition demandConfigBackoff :: "nat \<Rightarrow> duration" where
  "demandConfigBackoff i = (int i mod 4 + 1) * 5 * Second"

partial_function (option) demand_loop :: "('n \<Rightarrow> 'n \<times> error option) \<Rightarrow> nat \<Rightarrow> 'n \<Rightarrow> ('n \<times> duration list) option" where
  "demand_loop reload i n =
     (case reload n of
        (n', None) \<Rightarrow> Some (n', [])
      | (n', Some err) \<Rightarrow>
          if errors_Is err ErrNotFound then Some (n', [])
          else Option.bind (demand_loop reload (i + 1) n') (\<lambda>(m, ds). Some (m, demandConfigBackoff i # ds)))"

definition DemandConfig :: "task_env \<Rightarrow> 'w net_env \<Rightarrow> (bytes \<Rightarrow> bytes \<Rightarrow> bytes \<Rightarrow> bytes) \<Rightarrow> Agent \<Rightarrow> 'w net
    \<Rightarrow> Agent \<times> ('w net \<times> duration list) option" where
  "DemandConfig env nenv urlString a n =
     (let a1 = startController env a
      in (a1, if \<not> isConfiguredAgentID (c_AgentID (ag_con a1)) \<or> length (ag_ds a1) = 0 then Some (n, [])
              else demand_loop (DS_Reload nenv urlString (ag_ds a1) (c_AgentID (ag_con a1))) 0 n))"

text \<open>The network after some reloads, and whether an answer ends the loop.\<close>

fun after_reloads :: "('n \<Rightarrow> 'n \<times> error option) \<Rightarrow> nat \<Rightarrow> 'n \<Rightarrow> 'n" where
  "after_reloads reload 0 n = n"
| "after_reloads reload (Suc k) n = after_reloads reload k (fst (reload n))"

definition ends_demand :: "error option \<Rightarrow> bool" where
  "ends_demand e = (case e of None \<Rightarrow> True | Some err \<Rightarrow> errors_Is err ErrNotFound)"

lemma demand_loop_returns:
  assumes "\<forall>j<k. \<not> ends_demand (snd (reload (after_reloads reload j n)))" "ends_demand (snd (reload (after_reloads reload k n)))"
  shows "demand_loop reload i n = Some (after_reloads reload (Suc k) n, map (\<lambda>j. demandConfigBackoff (i + j)) [0..<k])"
  using assms
proof (induction k arbitrary: i n)
  case 0
  then show ?case by (subst demand_loop.simps) (auto simp: ends_demand_def split: prod.splits option.splits)
next
  case (Suc k)
  obtain n' err where r: "reload n = (n', Some err)" "\<not> errors_Is err ErrNotFound"
    using Suc.prems(1) [rule_format, of 0] by (cases "reload n") (auto simp: ends_demand_def split: option.splits)
  have "\<forall>j<k. \<not> ends_demand (snd (reload (after_reloads reload j n')))"
  proof (intro allI impI)
    fix j assume "j < k"
    then show "\<not> ends_demand (snd (reload (after_reloads reload j n')))" using Suc.prems(1) [rule_format, of "Suc j"] r(1) by simp
  qed
  moreover have "ends_demand (snd (reload (after_reloads reload k n')))" using Suc.prems(2) r(1) by simp
  ultimately have "demand_loop reload (i + 1) n' = Some (after_reloads reload (Suc k) n', map (\<lambda>j. demandConfigBackoff (i + 1 + j)) [0..<k])"
    using Suc.IH by blast
  moreover have "map (\<lambda>j. demandConfigBackoff (i + j)) [0..<Suc k] = demandConfigBackoff i # map (\<lambda>j. demandConfigBackoff (i + 1 + j)) [0..<k]"
    by (simp add: upt_rec [of 0 "Suc k"] map_Suc_upt [symmetric] del: upt_Suc)
  ultimately show ?case using r by (subst demand_loop.simps) (simp del: upt_Suc)
qed

subsection \<open>Properties\<close>



text \<open>
  A configuration that is refused leaves the transport stopped: the task reports the error and the old
  configuration stays, but a dispatcher that was running before no longer fetches anything.
\<close>

theorem refused_config_stops_transport:
  assumes "agent_ok a" "LoadConnectorDTO (te_cfg env) data (ag_cfg a) = Done (cfg', out, Inl err)"
  shows "\<exists>b. config env data a = Done (b, Some (cfg_error_value err)) \<and> ag_cfg b = ag_cfg a \<and>
    \<not> IsStartedDispatcher (ag_nats b) \<and> ns_fetchers (ag_nats b) = []"
proof -
  have cfg: "ag_cfg (stopTransport a) = ag_cfg a" by (simp add: stopTransport_def)
  from assms(2) have "cfg' = ag_cfg a" by (cases rule: LoadConnectorDTO_cases) auto
  then show ?thesis
    using stopTransport_stopped [OF assms(1)] assms(2) by (simp add: config_def cfg Let_def)
qed


text \<open>
  C33. Asking for a configuration ends: if the configuration server, after some failures, answers a reload or
  says that it does not know the agent, the loop stops there, having paused 5, 10, 15, 20, 5, ... seconds
  after the failures, one pause for each.
\<close>

theorem DemandConfig_ends:
  assumes "isConfiguredAgentID (c_AgentID (ag_con a))" "ag_ds a \<noteq> []" "reload = DS_Reload nenv urlString (ag_ds a) (c_AgentID (ag_con a))"
    and "\<forall>j<k. \<not> ends_demand (snd (reload (after_reloads reload j n)))" "ends_demand (snd (reload (after_reloads reload k n)))"
  shows "DemandConfig env nenv urlString a n =
    (startController env a, Some (after_reloads reload (Suc k) n, map (\<lambda>j. (int j mod 4 + 1) * 5 * Second) [0..<k]))"
proof -
  have "ag_cfg (startController env a) = ag_cfg a" "ag_ds (startController env a) = ag_ds a" by (simp_all add: startController_def)
  then show ?thesis
    using demand_loop_returns [OF assms(4,5), of 0] assms(1,2) by (simp add: DemandConfig_def Let_def assms(3) [symmetric] demandConfigBackoff_def)
qed

subsection \<open>Concrete runs\<close>

definition demo_task_dto :: ConnectorDTO where
  "demo_task_dto = (demo_dto 1)\<lparr>dto_GWConnections := [gc_GWConnection demo_client]\<rparr>"

definition demo_task_env :: task_env where
  "demo_task_env = \<lparr>te_svc = demo_svc_env, te_cfg = (demo_cfg_env 1)\<lparr>ce_um_dto := (\<lambda>d. if d = [] then None else Some demo_task_dto)\<rparr>,
     te_server = demo_server_env None, te_connect = None, te_consumer = (\<lambda>_. True), te_Hashsum = (\<lambda>_. Some ''h''),
     te_listen = True, te_exitHandler = False, te_configHandler = (\<lambda>_. None)\<rparr>"

lemma demo_agent_ok: "agent_ok demo_agent"
  by (simp add: agent_ok_def transport_ok_def demo_agent_def init_nats_def IsStartedDispatcher_def ns_ok_def)

text \<open>The demo agent, configured, with NATS and the transport started.\<close>

definition demo_task_cfg :: Config where
  "demo_task_cfg = defaults\<lparr>cfg_Connector := (cfg_Connector defaults)\<lparr>c_AgentID := ''a1'', c_AppType := ''APM''\<rparr>,
     cfg_GWConnections := [gc_GWConnection demo_client]\<rparr>"

definition demo_running :: Agent where
  "demo_running = fst (startTransport demo_task_env (fst (startNats demo_task_env (demo_agent\<lparr>ag_cfg := demo_task_cfg\<rparr>))))"

lemma demo_running_ok: "agent_ok demo_running"
  unfolding demo_running_def by (rule agent_ok_startTransport, rule agent_ok_startNats) (simp add: demo_agent_ok)

lemma demo_durable: "durable_name (client_durable c) = ''#localhost#''" if "gw_HostName (gc_GWConnection c) = ''localhost''"
  using that by (simp add: client_durable_def durable_name_def HasPrefix_def)

lemma demo_nats_started: "IsStartedServer (ag_nats (fst (startNats demo_task_env (demo_agent\<lparr>ag_cfg := demo_task_cfg\<rparr>))))"
  by (simp add: startNats_def StartServer_def demo_task_env_def demo_server_env_def demo_agent_def init_nats_def nats_config_def
      demo_task_cfg_def defaults_def default_nats_def IsStartedServer_def Let_def split: option.splits)

lemma demo_running_cfg: "ag_cfg demo_running = demo_task_cfg"
  by (simp add: demo_running_def startTransport_def startNats_def Let_def split: prod.splits)

lemma demo_enabled: "enabled_clients demo_task_cfg \<noteq> []"
  by (simp add: enabled_clients_def demo_task_cfg_def demo_client_def)

lemma demo_configured: "cfg_Connector (ag_cfg a) = cfg_Connector demo_task_cfg \<Longrightarrow> isConnectorConfigured a"
  by (simp add: isConnectorConfigured_def isConfiguredAgentID_def isConfiguredAppType_def demo_task_cfg_def defaults_def
      placeholderAgentID_def traceOnDemandAgentID_def traceOnDemandAppType_def)

lemma demo_running_started: "IsStartedDispatcher (ag_nats demo_running)"
proof -
  let ?a = "fst (startNats demo_task_env (demo_agent\<lparr>ag_cfg := demo_task_cfg\<rparr>))"
  have cfg: "ag_cfg ?a = demo_task_cfg" by (simp add: startNats_def split: prod.splits)
  have ok: "ns_ok (ag_nats ?a)" using agent_ok_startNats [of "demo_agent\<lparr>ag_cfg := demo_task_cfg\<rparr>"] demo_agent_ok
    by (simp add: agent_ok_def transport_ok_def)
  obtain n r where d: "StartDispatcher (te_connect demo_task_env) (te_consumer demo_task_env)
      (map (durable_name \<circ> client_durable) (enabled_clients demo_task_cfg)) (ag_nats ?a) = (n, r)"
    by fastforce
  have "te_connect demo_task_env = None" by (simp add: demo_task_env_def)
  then have "IsStartedDispatcher n" using StartDispatcher_spec [OF ok d] demo_nats_started by (auto simp: IsStartedServer_def)
  then show ?thesis
    using demo_configured [of ?a] demo_enabled d cfg by (simp add: demo_running_def startTransport_def)
qed


lemma demo_task_load:
  "\<exists>cfg' out. LoadConnectorDTO (te_cfg demo_task_env) ''{}'' cfg = Done (cfg', out, Inr demo_task_dto) \<and>
     c_Enabled (cfg_Connector cfg') \<and> c_AgentID (cfg_Connector cfg') = ''a1'' \<and> c_AppType (cfg_Connector cfg') = ''APM'' \<and>
     c_BatchEvents (cfg_Connector cfg') = 0 \<and> c_BatchMetrics (cfg_Connector cfg') = 0 \<and>
     enabled_clients cfg' \<noteq> [] \<and> (\<forall>c\<in>set (enabled_clients cfg'). gw_HostName (gc_GWConnection c) = ''localhost'') \<and> length (enabled_clients cfg') = 1"
  by (simp add: LoadConnectorDTO_def demo_task_env_def demo_cfg_env_def loadConnector_def loadAdvancedPrefixes_def loadDynamicInventoryFlag_def
      initLogger_def prepare_gwConnections_def process_PMC_def IsPMC_def InstallationModePMC_def demo_task_dto_def demo_dto_def Let_def
      enabled_clients_def demo_client_def defaults_def)

theorem refused_config_stops_transport_witness:
  "IsStartedDispatcher (ag_nats demo_running) \<and> (\<exists>b e. config demo_task_env [] demo_running = Done (b, Some e) \<and> ns_fetchers (ag_nats b) = [])"
proof -
  have "LoadConnectorDTO (te_cfg demo_task_env) [] (ag_cfg demo_running) = Done (ag_cfg demo_running, None, Inl BadDTO)"
    by (simp add: LoadConnectorDTO_def demo_task_env_def demo_cfg_env_def loadConnector_def)
  from refused_config_stops_transport [OF demo_running_ok this] demo_running_started show ?thesis by blast
qed


lemma demo_running_batchers: "bt_buf (ag_events demo_running) = []" "bt_buf (ag_metrics demo_running) = []"
  by (simp_all add: demo_running_def startTransport_def startNats_def demo_agent_def demo_bt_def demo_rq_bt_def Let_def split: prod.splits)

lemma events_Reset_empty:
  "bt_buf (ag_events a) = [] \<Longrightarrow> c_BatchEvents (ag_con a) = 0 \<Longrightarrow> \<exists>bt. events_Reset env a = Done (a\<lparr>ag_events := bt\<rparr>)"
  by (auto simp: events_Reset_def Reset_def Batch_def Batch_swap_def Batch_process_def ticker_period_def MaxInt64_def Let_def)

lemma metrics_Reset_empty:
  "bt_buf (ag_metrics a) = [] \<Longrightarrow> c_BatchMetrics (ag_con a) = 0 \<Longrightarrow> \<exists>bt. metrics_Reset env a = Done (a\<lparr>ag_metrics := bt\<rparr>)"
  by (auto simp: metrics_Reset_def Reset_def Batch_def Batch_swap_def Batch_process_def ticker_period_def MaxInt64_def Let_def)


text \<open>A configuration server that is down for a while: the state of the network is the number of requests.\<close>

definition demo_ds_http :: "nat http" where
  "demo_ds_http k req = (k + 1, if k < 2 then Inl (Errno 111) else Inr (201, []))"

theorem DemandConfig_ends_witness:
  "DemandConfig demo_task_env (demo_env demo_ds_http) (\<lambda>s h p. s @ h @ p) (demo_running\<lparr>ag_ds := ''ds''\<rparr>) (demo_net 0) =
     (startController demo_task_env (demo_running\<lparr>ag_ds := ''ds''\<rparr>), Some (demo_net 3, [5 * Second, 10 * Second]))"
proof -
  let ?a = "demo_running\<lparr>ag_ds := ''ds''\<rparr>"
  define reload where "reload = DS_Reload (demo_env demo_ds_http) (\<lambda>s h p. s @ h @ p) (ag_ds ?a) (c_AgentID (ag_con ?a))"
  have r: "reload (demo_net k) = (demo_net (k + 1), if k < 2 then Some (Errno 111) else None)" for k
    by (simp add: reload_def DS_Reload_def SendWithContext_def demo_env_def demo_ds_http_def demo_net_def zero_Req_def)
  have "isConfiguredAgentID (c_AgentID (ag_con ?a))"
    by (simp add: demo_running_cfg demo_task_cfg_def isConfiguredAgentID_def placeholderAgentID_def traceOnDemandAgentID_def)
  moreover have "\<forall>j<2. \<not> ends_demand (snd (reload (after_reloads reload j (demo_net 0))))" "ends_demand (snd (reload (after_reloads reload 2 (demo_net 0))))"
    by (auto simp: r ends_demand_def numeral_2_eq_2 less_Suc_eq)
  moreover have "after_reloads reload (Suc 2) (demo_net 0) = demo_net 3" by (simp add: r numeral_2_eq_2 numeral_3_eq_3)
  ultimately show ?thesis
    using DemandConfig_ends [of ?a reload "demo_env demo_ds_http" "\<lambda>s h p. s @ h @ p" 2 "demo_net 0" demo_task_env]
    by (simp add: reload_def numeral_2_eq_2 Second_def)
qed

end
