(* ===== verification/Controller.thy ===== *)
theory Controller
  imports Agent_Tasks
begin

text \<open>
  The HTTP API of the agent, \<^verbatim>\<open>services/controller.go\<close>: the routes, the check of credentials with its cache, and
  the handlers.  A request carries what the code reads of it: method, path, header, the user and password of
  basic authentication, and the body (\<open>None\<close> when it cannot be read).  A panic of a handler is recovered by the
  router and answered with status 500; it is that of the type \<open>exec\<close> here.  Entries of the cache of credentials
  expire after an hour, which is the step \<open>auth_expire\<close> of the environment.  The hash (blake2b-512, in hex) is
  a parameter.  Profiling, the swagger pages and the exported variables are left out.
\<close>

subsection \<open>State and requests\<close>

record http_in =
  in_Method :: bytes
  in_Path :: bytes
  in_Header :: http_Header
  in_BasicAuth :: "(bytes \<times> bytes) option"
  in_Body :: "bytes option"

datatype resp_body =
    NoContent
  | ErrorText error
  | TextBody bytes
  | StatusDTO bytes "8 word"
  | DataBody bytes
  | ConfigBody Config Suppress
  | IdentityBody bytes bytes bytes
  | OtherBody

type_synonym response = "int \<times> resp_body"

record 'w ctl =
  ct_agent :: Agent
  ct_queue :: "(bytes, bytes, Agent exec, error) TaskQueue"
  ct_task :: "(bytes, bytes) Task option" \<comment> \<open>the task that is being processed\<close>
  ct_auth :: "bytes list" \<comment> \<open>keys in the cache of credentials\<close>
  ct_net :: "'w net"
  ct_chan :: nat \<comment> \<open>number of the next result channel\<close>

text \<open>Additional entry points, registered by connectors; their handlers work on the state of the connector.\<close>

record Entrypoint =
  ep_URL :: bytes
  ep_Method :: bytes
  ep_Handler :: "http_in \<Rightarrow> response exec"

record 'w ctl_env =
  cl_svc :: svc_env
  cl_cfg :: cfg_env
  cl_net :: "'w net_env"
  cl_urlString :: "bytes \<Rightarrow> bytes \<Rightarrow> bytes \<Rightarrow> bytes"
  cl_hash :: "bytes \<Rightarrow> error + bytes" \<comment> \<open>the hash of a text, in hex\<close>
  cl_listMetrics :: "error + bytes" \<comment> \<open>the registered handler\<close>
  cl_entrypoints :: "Entrypoint list"

definition StatusRunning :: bytes where "StatusRunning = ''running''"
definition StatusProcessing :: bytes where "StatusProcessing = ''processing''"
definition StatusStopped :: bytes where "StatusStopped = ''stopped''"

subsection \<open>Credentials\<close>

definition hashFn :: "'w ctl_env \<Rightarrow> bytes list \<Rightarrow> error + bytes" where
  "hashFn env args = cl_hash env (concat args)"

definition auth_expire :: "bytes \<Rightarrow> 'w ctl \<Rightarrow> 'w ctl" where
  "auth_expire ck st = st\<lparr>ct_auth := filter (\<lambda>k. k \<noteq> ck) (ct_auth st)\<rparr>"

text \<open>\<open>authCache.Flush\<close>, called by the configuration task.\<close>

definition auth_flush :: "'w ctl \<Rightarrow> 'w ctl" where
  "auth_flush st = st\<lparr>ct_auth := []\<rparr>"

text \<open>The common part of both checks: look into the cache, ask the server, remember the answer.\<close>

definition cached_check :: "'w ctl_env \<Rightarrow> bytes \<Rightarrow> bytes \<Rightarrow> ('w net \<Rightarrow> 'w net \<times> error option) \<Rightarrow> 'w ctl \<Rightarrow> 'w ctl \<times> error option" where
  "cached_check env s1 s2 ask st =
     (case hashFn env [s1, s2] of
        Inl err \<Rightarrow> (st, Some err)
      | Inr ck \<Rightarrow>
          if ck \<in> set (ct_auth st) then (st, None)
          else case ask (ct_net st) of
            (n, Some err) \<Rightarrow> (st\<lparr>ct_net := n\<rparr>, Some err)
          | (n, None) \<Rightarrow> (st\<lparr>ct_net := n, ct_auth := ct_auth st @ [ck]\<rparr>, None))"

definition ask_basic :: "'w ctl_env \<Rightarrow> GWClient \<Rightarrow> bytes \<Rightarrow> bytes \<Rightarrow> 'w net \<Rightarrow> 'w net \<times> error option" where
  "ask_basic env c username password n =
     (case AuthenticatePassword (cl_net env) c username password n of
        (n', Inl err) \<Rightarrow> (n', Some err)
      | (n', Inr _) \<Rightarrow> (n', None))"

definition ask_gwos :: "'w ctl_env \<Rightarrow> bytes \<Rightarrow> bytes \<Rightarrow> bytes \<Rightarrow> 'w net \<Rightarrow> 'w net \<times> error option" where
  "ask_gwos env host appName apiToken n = DS_ValidateToken (cl_net env) (cl_urlString env) host appName apiToken n"

text \<open>\<open>None\<close>: the request passes.  \<open>Some\<close>: it is aborted with status 401.\<close>

definition checkAccess :: "'w ctl_env \<Rightarrow> http_in \<Rightarrow> 'w ctl \<Rightarrow> 'w ctl \<times> error option" where
  "checkAccess env r st =
     (let a = ct_agent st; pin = c_ControllerPin (ag_con a) in
      if length (ag_ds a) = 0 \<and> length (ag_gwClients a) = 0 then (st, None)
      else if length pin > 0 \<and> pin = Header_Get (in_Header r) ''X-PIN'' then (st, None)
      else case in_BasicAuth r of
        Some (username, password) \<Rightarrow>
          (case ag_gwClients a of
             [] \<Rightarrow> (st, Some (Other ''misconfigured BASIC auth''))
           | c # _ \<Rightarrow>
               if length username = 0 \<or> length password = 0 then (st, Some (Other ''misconfigured BASIC auth''))
               else cached_check env username password (ask_basic env c username password) st)
      | None \<Rightarrow>
          (let appName = Header_Get (in_Header r) ''GWOS-APP-NAME''; apiToken = Header_Get (in_Header r) ''GWOS-API-TOKEN'' in
           if length appName = 0 \<or> length apiToken = 0 \<or> length (ag_ds a) = 0
           then (st, Some (Other ''misconfigured GWOS auth''))
           else cached_check env appName apiToken (ask_gwos env (ag_ds a) appName apiToken) st))"

subsection \<open>Handlers\<close>

text \<open>A task is pushed; the answer carries its index.\<close>

definition tq_error_value :: "bytes tq_error \<Rightarrow> error" where
  "tq_error_value e = (case e of ErrTaskQueueCapacity c \<Rightarrow> Other ''task queue is over capacity'' | ErrTaskQueueUndefined s \<Rightarrow> Other (''undefined subject '' @ s))"

definition push_task :: "bytes \<Rightarrow> bytes list \<Rightarrow> 'w ctl \<Rightarrow> ('w ctl \<times> response) exec" where
  "push_task subj args st =
     bind_exec (PushAsync (ct_queue st) False (ct_chan st) subj args) (\<lambda>(q, r).
       let st' = st\<lparr>ct_queue := q, ct_chan := ct_chan st + 1\<rparr> in
       case r of
         Inl e \<Rightarrow> Done (st', 500, ErrorText (tq_error_value e))
       | Inr t \<Rightarrow> Done (st', 200, StatusDTO StatusProcessing (t_Idx t)))"

definition api_config :: "'w ctl_env \<Rightarrow> http_in \<Rightarrow> 'w ctl \<Rightarrow> ('w ctl \<times> response) exec" where
  "api_config env r st =
     (case in_Body r of
        None \<Rightarrow> Done (st, 400, ErrorText (Other ''body''))
      | Some payload \<Rightarrow>
          (case ce_um_dto (cl_cfg env) payload of
             None \<Rightarrow> Done (st, 400, TextBody ''could not unmarshal connector dto'')
           | Some dto \<Rightarrow>
               if IsPMC (ce_getenv (cl_cfg env)) \<and> dto_DSHostName dto \<noteq> ce_getenv (cl_cfg env) ParentInstanceNameEnv
               then Done (st, 400, TextBody ''wrong PMC connector config'')
               else push_task taskConfig [payload] st))"

text \<open>The handlers that pass the body to an operation of the transit service.\<close>

definition api_send :: "(bytes \<Rightarrow> Agent \<Rightarrow> (Agent \<times> error option) exec) \<Rightarrow> http_in \<Rightarrow> 'w ctl \<Rightarrow> ('w ctl \<times> response) exec" where
  "api_send op r st =
     (case in_Body r of
        None \<Rightarrow> Done (st, 400, ErrorText (Other ''body''))
      | Some payload \<Rightarrow>
          bind_exec (op payload (ct_agent st)) (\<lambda>(a, e).
            Done (st\<lparr>ct_agent := a\<rparr>, case e of Some err \<Rightarrow> (500, ErrorText err) | None \<Rightarrow> (200, NoContent))))"

definition api_clearInDowntime :: "'w ctl_env \<Rightarrow> http_in \<Rightarrow> 'w ctl \<Rightarrow> ('w ctl \<times> response) exec" where
  "api_clearInDowntime env r st = api_send (TS_ClearInDowntime (cl_svc env) None) r st"

definition api_setInDowntime :: "'w ctl_env \<Rightarrow> http_in \<Rightarrow> 'w ctl \<Rightarrow> ('w ctl \<times> response) exec" where
  "api_setInDowntime env r st = api_send (TS_SetInDowntime (cl_svc env) None) r st"

definition api_sendEvents :: "'w ctl_env \<Rightarrow> http_in \<Rightarrow> 'w ctl \<Rightarrow> ('w ctl \<times> response) exec" where
  "api_sendEvents env r st = api_send (TS_SendEvents (cl_svc env) None) r st"

definition api_sendEventsAck :: "'w ctl_env \<Rightarrow> http_in \<Rightarrow> 'w ctl \<Rightarrow> ('w ctl \<times> response) exec" where
  "api_sendEventsAck env r st = api_send (TS_SendEventsAck (cl_svc env) None) r st"

definition api_sendEventsUnack :: "'w ctl_env \<Rightarrow> http_in \<Rightarrow> 'w ctl \<Rightarrow> ('w ctl \<times> response) exec" where
  "api_sendEventsUnack env r st = api_send (TS_SendEventsUnack (cl_svc env) None) r st"

definition api_syncInventory :: "'w ctl_env \<Rightarrow> http_in \<Rightarrow> 'w ctl \<Rightarrow> ('w ctl \<times> response) exec" where
  "api_syncInventory env r st = api_send (TS_SynchronizeInventory (cl_svc env) None) r st"

definition api_sendMetrics :: "'w ctl_env \<Rightarrow> http_in \<Rightarrow> 'w ctl \<Rightarrow> ('w ctl \<times> response) exec" where
  "api_sendMetrics env r st = api_send (TS_SendResourceWithMetrics (cl_svc env) None) r st"

definition api_listMetrics :: "'w ctl_env \<Rightarrow> 'w ctl \<Rightarrow> 'w ctl \<times> response" where
  "api_listMetrics env st =
     (st, case cl_listMetrics env of Inl err \<Rightarrow> (500, ErrorText err) | Inr b \<Rightarrow> (200, DataBody b))"

definition api_resetNats :: "'w ctl \<Rightarrow> ('w ctl \<times> response) exec" where
  "api_resetNats st = push_task taskResetNats [] st"

definition api_start :: "'w ctl \<Rightarrow> ('w ctl \<times> response) exec" where
  "api_start st =
     (if IsStartedDispatcher (ag_nats (ct_agent st)) \<and> ct_task st = None then Done (st, 200, StatusDTO StatusRunning 0)
      else push_task taskStartTransport [] st)"

definition api_stop :: "'w ctl \<Rightarrow> ('w ctl \<times> response) exec" where
  "api_stop st =
     (if \<not> IsStartedDispatcher (ag_nats (ct_agent st)) \<and> ct_task st = None then Done (st, 200, StatusDTO StatusStopped 0)
      else push_task taskStopTransport [] st)"

definition api_status :: "'w ctl \<Rightarrow> 'w ctl \<times> response" where
  "api_status st =
     (st, 200, case ct_task st of
                 Some t \<Rightarrow> StatusDTO StatusProcessing (t_Idx t)
               | None \<Rightarrow> StatusDTO (if IsStartedDispatcher (ag_nats (ct_agent st)) then StatusRunning else StatusStopped) 0)"

definition api_identity :: "'w ctl \<Rightarrow> 'w ctl \<times> response" where
  "api_identity st =
     (let c = ag_con (ct_agent st) in (st, 200, IdentityBody (c_AgentID c) (c_AppName c) (c_AppType c)))"

definition api_debug_config :: "'w ctl \<Rightarrow> 'w ctl \<times> response" where
  "api_debug_config st = (st, 200, ConfigBody (ag_cfg (ct_agent st)) (ag_suppress (ct_agent st)))"

subsection \<open>Routes\<close>

datatype endpoint =
    Config_ep | DowntimeClear | DowntimeSet | Events_ep | EventsAck_ep | EventsUnack_ep | Inventory_ep | MetricsPost | MetricsGet
  | ResetNats_ep | Start_ep | Stop_ep
  | Identity_ep | Stats_ep | Status_ep | Version_ep | DebugConfig

definition private_routes :: "((bytes \<times> bytes) \<times> endpoint) list" where
  "private_routes =
     [((''POST'', ''/config''), Config_ep), ((''POST'', ''/downtime-clear''), DowntimeClear), ((''POST'', ''/downtime-set''), DowntimeSet),
      ((''POST'', ''/events''), Events_ep), ((''POST'', ''/events-ack''), EventsAck_ep), ((''POST'', ''/events-unack''), EventsUnack_ep),
      ((''POST'', ''/inventory''), Inventory_ep), ((''POST'', ''/metrics''), MetricsPost), ((''GET'', ''/metrics''), MetricsGet),
      ((''POST'', ''/reset-nats''), ResetNats_ep), ((''POST'', ''/start''), Start_ep), ((''POST'', ''/stop''), Stop_ep)]"

definition public_routes :: "((bytes \<times> bytes) \<times> endpoint) list" where
  "public_routes =
     [((''GET'', ''/identity''), Identity_ep), ((''GET'', ''/stats''), Stats_ep), ((''GET'', ''/status''), Status_ep),
      ((''GET'', ''/version''), Version_ep), ((''GET'', ''/debug/config''), DebugConfig)]"

definition run_endpoint :: "'w ctl_env \<Rightarrow> endpoint \<Rightarrow> http_in \<Rightarrow> 'w ctl \<Rightarrow> ('w ctl \<times> response) exec" where
  "run_endpoint env e r st =
     (case e of
        Config_ep \<Rightarrow> api_config env r st
      | DowntimeClear \<Rightarrow> api_clearInDowntime env r st
      | DowntimeSet \<Rightarrow> api_setInDowntime env r st
      | Events_ep \<Rightarrow> api_sendEvents env r st
      | EventsAck_ep \<Rightarrow> api_sendEventsAck env r st
      | EventsUnack_ep \<Rightarrow> api_sendEventsUnack env r st
      | Inventory_ep \<Rightarrow> api_syncInventory env r st
      | MetricsPost \<Rightarrow> api_sendMetrics env r st
      | MetricsGet \<Rightarrow> Done (api_listMetrics env st)
      | ResetNats_ep \<Rightarrow> api_resetNats st
      | Start_ep \<Rightarrow> api_start st
      | Stop_ep \<Rightarrow> api_stop st
      | Identity_ep \<Rightarrow> Done (api_identity st)
      | Stats_ep \<Rightarrow> Done (st, 200, OtherBody)
      | Status_ep \<Rightarrow> Done (api_status st)
      | Version_ep \<Rightarrow> Done (st, 200, OtherBody)
      | DebugConfig \<Rightarrow> Done (api_debug_config st))"

text \<open>
  \<open>registerAPI1\<close>: the private routes, those of connectors among them, pass the check first; paths are below
  \<open>/api/v1\<close>.
\<close>

definition entrypoint_for :: "'w ctl_env \<Rightarrow> http_in \<Rightarrow> Entrypoint option" where
  "entrypoint_for env r =
     List.find (\<lambda>ep. ep_Method ep \<in> {''GET'', ''POST'', ''PUT'', ''DELETE''} \<and> ep_Method ep = in_Method r \<and> ep_URL ep = in_Path r)
       (cl_entrypoints env)"

definition private_handler :: "'w ctl_env \<Rightarrow> http_in \<Rightarrow> ('w ctl \<Rightarrow> ('w ctl \<times> response) exec) option" where
  "private_handler env r =
     (case map_of private_routes (in_Method r, in_Path r) of
        Some e \<Rightarrow> Some (run_endpoint env e r)
      | None \<Rightarrow> map_option (\<lambda>ep st. bind_exec (ep_Handler ep r) (\<lambda>resp. Done (st, resp))) (entrypoint_for env r))"

definition serve :: "'w ctl_env \<Rightarrow> http_in \<Rightarrow> 'w ctl \<Rightarrow> ('w ctl \<times> response) exec" where
  "serve env r st =
     (case private_handler env r of
        Some handler \<Rightarrow>
          (case checkAccess env r st of
             (st1, Some err) \<Rightarrow> Done (st1, 401, ErrorText err)
           | (st1, None) \<Rightarrow> handler st1)
      | None \<Rightarrow>
          (case map_of public_routes (in_Method r, in_Path r) of
             Some e \<Rightarrow> run_endpoint env e r st
           | None \<Rightarrow> Done (st, 404, NoContent)))"

subsection \<open>The running controller\<close>

text \<open>
  Between requests the worker takes tasks and finishes them (the configuration task flushes the cache) and
  entries of the cache expire.  The history records each request with the state it was served in.
\<close>

definition ctl_finish :: "Agent \<Rightarrow> 'w ctl \<Rightarrow> 'w ctl" where
  "ctl_finish a st =
     (let st' = st\<lparr>ct_task := None, ct_agent := a\<lparr>ag_running := False\<rparr>\<rparr>
      in if ag_authFlushes a = ag_authFlushes (ct_agent st) then st' else auth_flush st')"

inductive ctl_run :: "'w ctl_env \<Rightarrow> task_env \<Rightarrow> 'w ctl \<Rightarrow> (http_in \<times> 'w ctl) list \<Rightarrow> 'w ctl \<Rightarrow> bool"
  for env tenv st0 where
  start: "ctl_run env tenv st0 [] st0"
| request: "ctl_run env tenv st0 tr st \<Longrightarrow> serve env r st = Done (st', resp) \<Longrightarrow> ctl_run env tenv st0 (tr @ [(r, st)]) st'"
| expire: "ctl_run env tenv st0 tr st \<Longrightarrow> ctl_run env tenv st0 tr (auth_expire ck st)"
| take: "ctl_run env tenv st0 tr st \<Longrightarrow> ct_task st = None \<Longrightarrow> tq_queue (ct_queue st) = t # ts \<Longrightarrow>
    ctl_run env tenv st0 tr (st\<lparr>ct_task := Some t, ct_queue := (ct_queue st)\<lparr>tq_queue := ts\<rparr>\<rparr>)"
| finish: "ctl_run env tenv st0 tr st \<Longrightarrow> ct_task st = Some t \<Longrightarrow>
    run_task tenv t ((ct_agent st)\<lparr>ag_running := True\<rparr>) = Done (a, err) \<Longrightarrow> ctl_run env tenv st0 tr (ctl_finish a st)"

text \<open>The credentials of a request, and whether the server it is checked against accepts them now.\<close>

definition credentials :: "http_in \<Rightarrow> bytes \<times> bytes" where
  "credentials r =
     (case in_BasicAuth r of
        Some c \<Rightarrow> c
      | None \<Rightarrow> (Header_Get (in_Header r) ''GWOS-APP-NAME'', Header_Get (in_Header r) ''GWOS-API-TOKEN''))"

definition server_accepts :: "'w ctl_env \<Rightarrow> http_in \<Rightarrow> 'w ctl \<Rightarrow> bool" where
  "server_accepts env r st =
     (let (s1, s2) = credentials r in
      case in_BasicAuth r of
        Some _ \<Rightarrow> (case ag_gwClients (ct_agent st) of [] \<Rightarrow> False | c # _ \<Rightarrow> snd (ask_basic env c s1 s2 (ct_net st)) = None)
      | None \<Rightarrow> snd (ask_gwos env (ag_ds (ct_agent st)) s1 s2 (ct_net st)) = None)"

definition cred_text :: "http_in \<Rightarrow> bytes" where
  "cred_text r = fst (credentials r) @ snd (credentials r)"

text \<open>A request that may pass: nothing is configured, the pin fits, or the server accepts it.\<close>

definition open_access :: "http_in \<Rightarrow> 'w ctl \<Rightarrow> bool" where
  "open_access r st \<longleftrightarrow>
     (ag_ds (ct_agent st) = [] \<and> ag_gwClients (ct_agent st) = []) \<or>
     (c_ControllerPin (ag_con (ct_agent st)) \<noteq> [] \<and> Header_Get (in_Header r) ''X-PIN'' = c_ControllerPin (ag_con (ct_agent st)))"

subsection \<open>Soundness of the cache\<close>

lemma cached_check_cases:
  assumes "cached_check env s1 s2 ask st = (st', e)"
  shows "\<exists>n au. st' = st\<lparr>ct_net := n, ct_auth := au\<rparr> \<and>
    (e = None \<longrightarrow> (\<exists>ck. cl_hash env (s1 @ s2) = Inr ck \<and> set au = insert ck (set (ct_auth st)) \<and> (ck \<in> set (ct_auth st) \<or> snd (ask (ct_net st)) = None))) \<and>
    (e \<noteq> None \<longrightarrow> au = ct_auth st)"
proof -
  have same: "st = st\<lparr>ct_net := ct_net st, ct_auth := ct_auth st\<rparr>" "st\<lparr>ct_net := n\<rparr> = st\<lparr>ct_net := n, ct_auth := ct_auth st\<rparr>" for n by simp_all
  show ?thesis
  proof (cases "cl_hash env (s1 @ s2)")
    case (Inl err)
    then have "st' = st" "e \<noteq> None" using assms by (auto simp: cached_check_def hashFn_def)
    then show ?thesis using same(1) by (intro exI [of _ "ct_net st"] exI [of _ "ct_auth st"]) auto
  next
    case (Inr ck)
    show ?thesis
    proof (cases "ck \<in> set (ct_auth st)")
      case True
      then have "st' = st" "e = None" using assms Inr by (auto simp: cached_check_def hashFn_def)
      then show ?thesis using True Inr same(1) by (intro exI [of _ "ct_net st"] exI [of _ "ct_auth st"]) auto
    next
      case False
      obtain n r where a: "ask (ct_net st) = (n, r)" by fastforce
      show ?thesis
      proof (cases r)
        case None
        then show ?thesis using assms Inr False a
          by (intro exI [of _ n] exI [of _ "ct_auth st @ [ck]"]) (auto simp: cached_check_def hashFn_def)
      next
        case (Some err)
        then show ?thesis using assms Inr False a
          by (intro exI [of _ n] exI [of _ "ct_auth st"]) (auto simp: cached_check_def hashFn_def)
      qed
    qed
  qed
qed

lemma checkAccess_cases:
  assumes "checkAccess env r st = (st', e)"
  shows "\<exists>n au. st' = st\<lparr>ct_net := n, ct_auth := au\<rparr> \<and> (e \<noteq> None \<or> open_access r st \<longrightarrow> au = ct_auth st) \<and>
    (e = None \<longrightarrow> open_access r st \<or> (\<exists>ck. cl_hash env (cred_text r) = Inr ck \<and> set au = insert ck (set (ct_auth st)) \<and>
       (ck \<in> set (ct_auth st) \<or> server_accepts env r st)))"
proof (cases "open_access r st")
  case True
  then have "checkAccess env r st = (st, None)"
    by (cases "ag_ds (ct_agent st) = [] \<and> ag_gwClients (ct_agent st) = []") (simp_all add: checkAccess_def open_access_def Let_def)
  then have "st' = st" "e = None" using assms by auto
  then show ?thesis using True by (intro exI [of _ "ct_net st"] exI [of _ "ct_auth st"]) auto
next
  case False
  then have no: "\<not> (length (ag_ds (ct_agent st)) = 0 \<and> length (ag_gwClients (ct_agent st)) = 0)"
    "\<not> (length (c_ControllerPin (ag_con (ct_agent st))) > 0 \<and> c_ControllerPin (ag_con (ct_agent st)) = Header_Get (in_Header r) ''X-PIN'')"
    by (auto simp: open_access_def)
  have refused: ?thesis if "st' = st" "e \<noteq> None"
    using that by (intro exI [of _ "ct_net st"] exI [of _ "ct_auth st"]) auto
  have checked: ?thesis
    if h: "cached_check env (fst (credentials r)) (snd (credentials r)) ask st = (st', e)" "server_accepts env r st = (snd (ask (ct_net st)) = None)" for ask
  proof -
    from cached_check_cases [OF h(1)] obtain n au where
      n: "st' = st\<lparr>ct_net := n, ct_auth := au\<rparr>" "e \<noteq> None \<longrightarrow> au = ct_auth st"
        "e = None \<longrightarrow> (\<exists>ck. cl_hash env (cred_text r) = Inr ck \<and> set au = insert ck (set (ct_auth st)) \<and> (ck \<in> set (ct_auth st) \<or> server_accepts env r st))"
      unfolding h(2) cred_text_def by blast
    then show ?thesis using False by (intro exI [of _ n] exI [of _ au]) simp
  qed
  show ?thesis
  proof (cases "in_BasicAuth r")
    case None
    show ?thesis
    proof (cases "fst (credentials r) = [] \<or> snd (credentials r) = [] \<or> ag_ds (ct_agent st) = []")
      case True
      then show ?thesis using assms no None by (intro refused) (auto simp: checkAccess_def credentials_def Let_def)
    next
      case ok: False
      then show ?thesis using assms no None
        by (intro checked [of "ask_gwos env (ag_ds (ct_agent st)) (fst (credentials r)) (snd (credentials r))"])
          (auto simp: checkAccess_def credentials_def server_accepts_def Let_def)
    qed
  next
    case (Some up)
    obtain u p where up: "up = (u, p)" by fastforce
    show ?thesis
    proof (cases "ag_gwClients (ct_agent st)")
      case Nil
      then show ?thesis using assms no Some up by (intro refused) (auto simp: checkAccess_def Let_def)
    next
      case (Cons c cs)
      show ?thesis
      proof (cases "u = [] \<or> p = []")
        case True
        then show ?thesis using assms no Some up Cons by (intro refused) (auto simp: checkAccess_def Let_def)
      next
        case ok: False
        then show ?thesis using assms no Some up Cons
          by (intro checked [of "ask_basic env c u p"]) (auto simp: checkAccess_def credentials_def server_accepts_def Let_def)
      qed
    qed
  qed
qed

lemma checkAccess_keeps:
  assumes "checkAccess env r st = (st', e)"
  shows "ct_agent st' = ct_agent st" "ct_queue st' = ct_queue st" "ct_task st' = ct_task st" "ct_chan st' = ct_chan st"
  using checkAccess_cases [OF assms] by auto

text \<open>Handlers leave the cache alone.\<close>

lemma push_task_steps:
  assumes "push_task subj args st = Done (st', resp)"
  shows "\<exists>q p. PushAsync (ct_queue st) False (ct_chan st) subj args = Done (q, p) \<and> st' = st\<lparr>ct_queue := q, ct_chan := ct_chan st + 1\<rparr> \<and>
    resp = (case p of Inl e \<Rightarrow> (500, ErrorText (tq_error_value e)) | Inr t \<Rightarrow> (200, StatusDTO StatusProcessing (t_Idx t)))"
proof (cases "PushAsync (ct_queue st) False (ct_chan st) subj args")
  case (Done x)
  obtain q p where x: "x = (q, p)" by fastforce
  show ?thesis using assms Done x by (cases p) (auto simp: push_task_def)
qed (use assms in \<open>simp add: push_task_def\<close>)

lemma push_task_auth: "push_task subj args st = Done (st', resp) \<Longrightarrow> ct_auth st' = ct_auth st"
  by (auto dest: push_task_steps)

lemma api_send_auth: "api_send op r st = Done (st', resp) \<Longrightarrow> ct_auth st' = ct_auth st \<and> ct_queue st' = ct_queue st"
  by (auto simp: api_send_def split: option.splits)

lemmas api_defs = api_config_def api_clearInDowntime_def api_setInDowntime_def api_sendEvents_def api_sendEventsAck_def
  api_sendEventsUnack_def api_syncInventory_def api_sendMetrics_def api_listMetrics_def api_resetNats_def api_start_def
  api_stop_def api_status_def api_identity_def api_debug_config_def

lemma run_endpoint_auth: "run_endpoint env e r st = Done (st', resp) \<Longrightarrow> ct_auth st' = ct_auth st"
  by (cases e) (auto simp: run_endpoint_def api_defs Let_def split: option.splits if_splits dest: push_task_auth api_send_auth)

lemma private_handler_auth: "private_handler env r = Some h \<Longrightarrow> h st = Done (st', resp) \<Longrightarrow> ct_auth st' = ct_auth st"
  by (auto simp: private_handler_def split: option.splits dest: run_endpoint_auth)

lemma serve_auth:
  assumes "serve env r st = Done (st', resp)" "ck \<in> set (ct_auth st')"
  shows "ck \<in> set (ct_auth st) \<or> server_accepts env r st \<and> cl_hash env (cred_text r) = Inr ck"
proof (cases "private_handler env r")
  case None
  then have "ct_auth st' = ct_auth st" using assms(1) by (auto simp: serve_def split: option.splits dest: run_endpoint_auth)
  then show ?thesis using assms(2) by simp
next
  case (Some h)
  obtain st1 e where c: "checkAccess env r st = (st1, e)" by fastforce
  then have "ct_auth st' = ct_auth st1" using assms(1) Some by (auto simp: serve_def split: option.splits dest: private_handler_auth)
  then have ck: "ck \<in> set (ct_auth st1)" using assms(2) by simp
  from checkAccess_cases [OF c] obtain n au where
      n: "st1 = st\<lparr>ct_net := n, ct_auth := au\<rparr>" "e \<noteq> None \<or> open_access r st \<longrightarrow> au = ct_auth st"
        "e = None \<longrightarrow> open_access r st \<or> (\<exists>ck. cl_hash env (cred_text r) = Inr ck \<and> set au = insert ck (set (ct_auth st)) \<and>
           (ck \<in> set (ct_auth st) \<or> server_accepts env r st))"
    by blast
  show ?thesis using ck n by (cases "e \<noteq> None \<or> open_access r st") auto
qed

lemma cache_sound:
  assumes "ctl_run env tenv st0 tr st" "ct_auth st0 = []" "ck \<in> set (ct_auth st)"
  shows "\<exists>(r, s) \<in> set tr. server_accepts env r s \<and> cl_hash env (cred_text r) = Inr ck"
  using assms
proof (induction arbitrary: ck rule: ctl_run.induct)
  case (request tr st r st' resp)
  from serve_auth [OF request.hyps(2) request.prems(2)] show ?case using request.IH [OF request.prems(1)] by fastforce
qed (auto simp: auth_expire_def ctl_finish_def auth_flush_def Let_def split: if_splits)

text \<open>
  C17. Over every sequence of requests, finished tasks and expiring entries, a request to a private route that has
  neither open access nor the acceptance of the server, now or at an earlier request with the same text of
  credentials, is answered with 401 and changes neither the agent nor the queue of tasks nor the cache.
\<close>

theorem private_routes_protected:
  assumes "ctl_run env tenv st0 tr st" "ct_auth st0 = []" "private_handler env r \<noteq> None" "\<not> open_access r st"
    and "\<forall>x y k. cl_hash env x = Inr k \<and> cl_hash env y = Inr k \<longrightarrow> x = y"
    and "\<not> server_accepts env r st" "\<forall>(r', s) \<in> set tr. cred_text r' = cred_text r \<longrightarrow> \<not> server_accepts env r' s"
  shows "\<exists>st' err. serve env r st = Done (st', 401, ErrorText err) \<and> ct_agent st' = ct_agent st \<and> ct_queue st' = ct_queue st \<and>
    ct_task st' = ct_task st \<and> ct_auth st' = ct_auth st"
proof -
  obtain st' e where c: "checkAccess env r st = (st', e)" by fastforce
  have "e \<noteq> None"
  proof
    assume "e = None"
    then obtain ck where ck: "cl_hash env (cred_text r) = Inr ck" "ck \<in> set (ct_auth st)"
      using checkAccess_cases [OF c] assms(4,6) by auto
    from cache_sound [OF assms(1,2) ck(2)] obtain r' s where
      "(r', s) \<in> set tr" "server_accepts env r' s" "cl_hash env (cred_text r') = Inr ck" by auto
    moreover have "cred_text r' = cred_text r" using assms(5) ck(1) calculation(3) by blast
    ultimately show False using assms(7) by auto
  qed
  then obtain err where "e = Some err" by auto
  moreover have "ct_auth st' = ct_auth st" using checkAccess_cases [OF c] \<open>e \<noteq> None\<close> by auto
  ultimately show ?thesis using c assms(3) checkAccess_keeps [OF c] by (auto simp: serve_def)
qed

text \<open>
  The cache does not tell credentials apart whose texts are the same when written one after the other, nor
  basic authentication from tokens: once the server accepted a user \<open>u @ x\<close> with password \<open>p\<close>, a request of user
  \<open>u\<close> with password \<open>x @ p\<close>, and one of application \<open>u\<close> with token \<open>x @ p\<close>, pass without any exchange with a server,
  whatever the server would say.
\<close>

theorem credentials_confused:
  assumes "checkAccess env r st = (st1, None)" "\<not> open_access r st" "in_BasicAuth r = Some (u @ x, p)" "u \<noteq> []" "p \<noteq> []" "\<not> open_access r' st1"
    and "in_BasicAuth r' = Some (u, x @ p) \<or>
      in_BasicAuth r' = None \<and> Header_Get (in_Header r') ''GWOS-APP-NAME'' = u \<and> Header_Get (in_Header r') ''GWOS-API-TOKEN'' = x @ p \<and> ag_ds (ct_agent st) \<noteq> []"
  shows "checkAccess env r' st1 = (st1, None)"
proof -
  have ct: "cred_text r = u @ x @ p" using assms(3) by (simp add: cred_text_def credentials_def)
  then obtain ck where ck: "cl_hash env (u @ x @ p) = Inr ck" "ck \<in> set (ct_auth st1)"
    using checkAccess_cases [OF assms(1)] assms(2) by auto
  have ag: "ct_agent st1 = ct_agent st" using checkAccess_keeps [OF assms(1)] by simp
  have cl: "ag_gwClients (ct_agent st) \<noteq> []"
    using assms(1,2,3) by (auto simp: checkAccess_def open_access_def Let_def split: if_splits list.splits)
  have hit: "cached_check env u (x @ p) ask st1 = (st1, None)" for ask
    using ck by (simp add: cached_check_def hashFn_def)
  show ?thesis
    using assms(4-7) ag cl hit by (auto simp: checkAccess_def open_access_def Let_def split: list.splits)
qed

definition route_subject :: "endpoint \<Rightarrow> bytes option" where
  "route_subject e = (case e of Config_ep \<Rightarrow> Some taskConfig | ResetNats_ep \<Rightarrow> Some taskResetNats
     | Start_ep \<Rightarrow> Some taskStartTransport | Stop_ep \<Rightarrow> Some taskStopTransport | _ \<Rightarrow> None)"

lemma push_task_cases:
  assumes "push_task subj args st = Done (st', status, body)"
  shows "(status = 500 \<and> tq_queue (ct_queue st') = tq_queue (ct_queue st)) \<or>
    (\<exists>t. t_Subject t = subj \<and> t_Args t = args \<and> tq_queue (ct_queue st') = tq_queue (ct_queue st) @ [t] \<and>
       status = 200 \<and> body = StatusDTO StatusProcessing (t_Idx t))"
proof -
  from push_task_steps [OF assms] obtain q p where
    p: "PushAsync (ct_queue st) False (ct_chan st) subj args = Done (q, p)" "st' = st\<lparr>ct_queue := q, ct_chan := ct_chan st + 1\<rparr>"
      "(status, body) = (case p of Inl e \<Rightarrow> (500, ErrorText (tq_error_value e)) | Inr t \<Rightarrow> (200, StatusDTO StatusProcessing (t_Idx t)))"
    by blast
  show ?thesis
  proof (cases p)
    case (Inl e)
    then show ?thesis using p by (auto simp: PushAsync_def PushAsync_locked_reject split: sum.splits)
  next
    case (Inr t)
    then show ?thesis using p by (auto simp: PushAsync_ok_iff)
  qed
qed

lemma run_endpoint_queue:
  assumes "run_endpoint env e r st = Done (st', status, body)" "tq_queue (ct_queue st') \<noteq> tq_queue (ct_queue st)"
  shows "\<exists>t. tq_queue (ct_queue st') = tq_queue (ct_queue st) @ [t] \<and> status = 200 \<and> body = StatusDTO StatusProcessing (t_Idx t) \<and>
    route_subject e = Some (t_Subject t) \<and> (e = Config_ep \<longrightarrow> (\<exists>payload dto. t_Args t = [payload] \<and> ce_um_dto (cl_cfg env) payload = Some dto))"
  using assms
  by (cases e) (auto simp: run_endpoint_def api_defs route_subject_def Let_def split: option.splits if_splits dest!: push_task_cases api_send_auth)

lemma public_no_subject: "map_of public_routes k = Some e \<Longrightarrow> route_subject e = None"
  by (auto simp: public_routes_def route_subject_def split: if_splits)

text \<open>
  A request pushes at most one task.  When it does, the answer is 200 with the index of that task, which is the
  last in the queue; the route decides its subject, and a configuration is only pushed with a payload that can be
  decoded.
\<close>

theorem serve_pushes_one_task:
  assumes "serve env r st = Done (st', status, body)" "tq_queue (ct_queue st') \<noteq> tq_queue (ct_queue st)"
  shows "\<exists>t e. map_of private_routes (in_Method r, in_Path r) = Some e \<and> tq_queue (ct_queue st') = tq_queue (ct_queue st) @ [t] \<and>
    status = 200 \<and> body = StatusDTO StatusProcessing (t_Idx t) \<and> route_subject e = Some (t_Subject t) \<and>
    (e = Config_ep \<longrightarrow> (\<exists>payload dto. t_Args t = [payload] \<and> ce_um_dto (cl_cfg env) payload = Some dto))"
proof (cases "private_handler env r")
  case None
  then obtain e where "map_of public_routes (in_Method r, in_Path r) = Some e" "run_endpoint env e r st = Done (st', status, body)"
    using assms by (auto simp: serve_def split: option.splits)
  from run_endpoint_queue [OF this(2) assms(2)] public_no_subject [OF this(1)] show ?thesis by auto
next
  case (Some h)
  obtain st1 x where c: "checkAccess env r st = (st1, x)" by fastforce
  have q: "ct_queue st1 = ct_queue st" using checkAccess_keeps [OF c] by simp
  have "h st1 = Done (st', status, body)" using assms c Some q by (auto simp: serve_def split: option.splits)
  then obtain e where "map_of private_routes (in_Method r, in_Path r) = Some e" "run_endpoint env e r st1 = Done (st', status, body)"
    using Some assms(2) q by (auto simp: private_handler_def split: option.splits)
  with run_endpoint_queue [OF this(2)] assms(2) q show ?thesis by auto
qed

subsection \<open>Concrete requests\<close>

text \<open>A server that knows one user.\<close>

definition demo_auth_http :: "unit http" where
  "demo_auth_http w req = (w, Inr (if hr_Body req = BytesBody ''alice:secret'' then (200, ''tok'') else (401, [])))"

definition demo_ctl_env :: "unit ctl_env" where
  "demo_ctl_env = \<lparr>cl_svc = demo_svc_env, cl_cfg = demo_cfg_env 1,
     cl_net = (demo_env demo_auth_http)\<lparr>env_login_body := (\<lambda>u p. u @ '':'' @ p)\<rparr>, cl_urlString = (\<lambda>s h p. s @ h @ p),
     cl_hash = Inr, cl_listMetrics = Inr ''[]'', cl_entrypoints = []\<rparr>"

definition demo_ctl :: "GWClient list \<Rightarrow> unit ctl" where
  "demo_ctl cs = \<lparr>ct_agent = demo_agent\<lparr>ag_gwClients := cs\<rparr>, ct_queue = handleTasks demo_task_env, ct_task = None, ct_auth = [],
     ct_net = demo_net (), ct_chan = 0\<rparr>"

definition demo_in :: "bytes \<Rightarrow> bytes \<Rightarrow> bytes \<Rightarrow> http_in" where
  "demo_in path u p = \<lparr>in_Method = ''POST'', in_Path = path, in_Header = Map.empty, in_BasicAuth = Some (u, p), in_Body = Some []\<rparr>"

lemma demo_accepts: "snd (ask_basic demo_ctl_env demo_client u p n) = None \<longleftrightarrow> u @ '':'' @ p = ''alice:secret''"
  by (simp add: ask_basic_def AuthenticatePassword_def doReq_def SendWithContext_def make_request_def demo_ctl_env_def demo_env_def
      demo_auth_http_def zero_Req_def status_error_def split: prod.splits sum.splits option.splits if_splits)

lemma demo_ctl_open: "open_access (demo_in path u p) (demo_ctl cs) \<longleftrightarrow> cs = []"
  by (auto simp: open_access_def demo_in_def demo_ctl_def demo_agent_def defaults_def)

theorem private_routes_protected_witness:
  "\<exists>st' err. serve demo_ctl_env (demo_in ''/stop'' ''bob'' ''x'') (demo_ctl [demo_client]) = Done (st', 401, ErrorText err)"
proof -
  have "private_handler demo_ctl_env (demo_in ''/stop'' ''bob'' ''x'') \<noteq> None"
    by (simp add: private_handler_def private_routes_def demo_in_def)
  moreover have "\<not> server_accepts demo_ctl_env (demo_in ''/stop'' ''bob'' ''x'') (demo_ctl [demo_client])"
    by (simp add: server_accepts_def credentials_def demo_in_def demo_ctl_def demo_accepts)
  moreover have "\<forall>x y k. cl_hash demo_ctl_env x = Inr k \<and> cl_hash demo_ctl_env y = Inr k \<longrightarrow> x = y" by (simp add: demo_ctl_env_def)
  moreover have "ct_auth (demo_ctl [demo_client]) = []" by (simp add: demo_ctl_def)
  ultimately show ?thesis
    using private_routes_protected [OF ctl_run.start [of demo_ctl_env demo_task_env "demo_ctl [demo_client]"],
        of "demo_in ''/stop'' ''bob'' ''x''"] by (simp add: demo_ctl_open) blast
qed

lemma demo_first:
  "\<exists>n. checkAccess demo_ctl_env (demo_in ''/stop'' ''alice'' ''secret'') (demo_ctl [demo_client]) =
     ((demo_ctl [demo_client])\<lparr>ct_net := n, ct_auth := [''alicesecret'']\<rparr>, None)"
proof -
  obtain n where "ask_basic demo_ctl_env demo_client ''alice'' ''secret'' (demo_net ()) = (n, None)"
    using demo_accepts [of "''alice''" "''secret''" "demo_net ()"] by (metis append.simps prod.collapse)
  then show ?thesis
    by (simp add: checkAccess_def cached_check_def hashFn_def demo_in_def demo_ctl_def demo_agent_def demo_ctl_env_def defaults_def)
qed

theorem credentials_confused_witness:
  "\<exists>st1. checkAccess demo_ctl_env (demo_in ''/stop'' ''al'' ''icesecret'') st1 = (st1, None) \<and>
     \<not> server_accepts demo_ctl_env (demo_in ''/stop'' ''al'' ''icesecret'') st1"
proof -
  obtain n where f: "checkAccess demo_ctl_env (demo_in ''/stop'' ''alice'' ''secret'') (demo_ctl [demo_client]) =
     ((demo_ctl [demo_client])\<lparr>ct_net := n, ct_auth := [''alicesecret'']\<rparr>, None)" using demo_first by blast
  let ?st1 = "(demo_ctl [demo_client])\<lparr>ct_net := n, ct_auth := [''alicesecret'']\<rparr>"
  have o: "open_access r ?st1 = open_access r (demo_ctl [demo_client])" for r by (simp add: open_access_def)
  have b: "in_BasicAuth (demo_in path u p) = Some (u, p)" for path u p by (simp add: demo_in_def)
  have "checkAccess demo_ctl_env (demo_in ''/stop'' ''al'' ''icesecret'') ?st1 = (?st1, None)"
    by (rule credentials_confused [OF f, of "''al''" "''ice''" "''secret''"]) (simp_all add: o demo_ctl_open b)
  moreover have "\<not> server_accepts demo_ctl_env (demo_in ''/stop'' ''al'' ''icesecret'') ?st1"
    by (simp add: server_accepts_def credentials_def demo_in_def demo_ctl_def demo_accepts)
  ultimately show ?thesis by blast
qed

theorem serve_pushes_one_task_witness:
  "\<exists>st' t. serve demo_ctl_env (demo_in ''/start'' ''u'' ''p'') (demo_ctl []) = Done (st', 200, StatusDTO StatusProcessing (t_Idx t)) \<and>
     tq_queue (ct_queue st') = [t] \<and> t_Subject t = taskStartTransport"
proof -
  let ?r = "demo_in ''/start'' ''u'' ''p''"
  have c: "checkAccess demo_ctl_env ?r (demo_ctl []) = (demo_ctl [], None)"
    by (simp add: checkAccess_def demo_ctl_def demo_agent_def Let_def)
  have h: "private_handler demo_ctl_env ?r = Some (run_endpoint demo_ctl_env Start_ep ?r)"
    by (simp add: private_handler_def private_routes_def demo_in_def)
  have q: "tq_queue (ct_queue (demo_ctl [])) = []" "tq_ring (ct_queue (demo_ctl [])) \<noteq> []" "tq_capacity (ct_queue (demo_ctl [])) = 8"
      "tq_handlers (ct_queue (demo_ctl [])) taskStartTransport \<noteq> None"
    by (simp_all add: demo_ctl_def handleTasks_def NewTaskQueue_def WithAlarm_def WithCapacity_def WithHandlers_def WithDebugger_def
        task_handler_map_def task_subjects_def)
  let ?t = "\<lparr>t_done = ct_chan (demo_ctl []), t_Args = [], t_Idx = tq_idx (ct_queue (demo_ctl [])) + 1, t_Subject = taskStartTransport\<rparr>"
  have "can_send (ct_queue (demo_ctl [])) False" using q by (simp add: can_send_def)
  then obtain q' where p: "PushAsync (ct_queue (demo_ctl [])) False (ct_chan (demo_ctl [])) taskStartTransport [] = Done (q', Inr ?t)" "tq_queue q' = [?t]"
    using q by (auto simp: PushAsync_ok_iff)
  have "\<not> IsStartedDispatcher (ag_nats (ct_agent (demo_ctl [])))"
    by (simp add: demo_ctl_def demo_agent_def init_nats_def IsStartedDispatcher_def)
  then have "serve demo_ctl_env ?r (demo_ctl []) =
      Done ((demo_ctl [])\<lparr>ct_queue := q', ct_chan := ct_chan (demo_ctl []) + 1\<rparr>, 200, StatusDTO StatusProcessing (t_Idx ?t))"
    using p by (simp add: serve_def c h run_endpoint_def api_start_def push_task_def)
  from this serve_pushes_one_task [OF this] p(2) q(1) show ?thesis by (auto simp: private_routes_def demo_in_def route_subject_def)
qed

end
