(* ===== verification/Go_Float_Arith.thy ===== *)
theory Go_Float_Arith
  imports Go_Float
begin

text \<open>
  Arithmetic of Go's \<open>float64\<close>: the exact result, rounded to 53 significant bits, ties to even, with gradual
  underflow and overflow to the infinities.  Addition, subtraction, multiplication and division follow IEEE 754
  on NaN, infinities and signed zeros; a division by zero does not panic.
\<close>

subsection \<open>Rounding\<close>

definition pow2 :: "int \<Rightarrow> rat" where
  "pow2 e = (if e \<ge> 0 then 2 ^ nat e else 1 / 2 ^ nat (- e))"

text \<open>The exponent of the leading bit of a positive number.\<close>

definition ilog2 :: "rat \<Rightarrow> int" where
  "ilog2 a =
     (let (n, d) = quotient_of a; e = int (bit_length (nat n)) - int (bit_length (nat d))
      in if pow2 e \<le> a then e else e - 1)"

definition signed_zero :: "bool \<Rightarrow> f64" where
  "signed_zero neg = (if neg then FNegZero else FFin 0)"

text \<open>Rounds the number with the given sign and absolute value.\<close>

definition round64 :: "bool \<Rightarrow> rat \<Rightarrow> f64" where
  "round64 neg a =
     (if a = 0 then signed_zero neg
      else let e = max (ilog2 a - 52) (-1074);
               v = of_int (round_half_even (a / pow2 e)) * pow2 e
           in if v \<ge> pow2 1024 then FInf neg
              else if v = 0 then signed_zero neg
              else FFin (if neg then - v else v))"

definition f64_of_rat :: "rat \<Rightarrow> f64" where
  "f64_of_rat r = round64 (r < 0) \<bar>r\<bar>"

subsection \<open>Operations\<close>

fun f64_neg :: "f64 \<Rightarrow> bool" where
  "f64_neg FNaN = False"
| "f64_neg (FInf n) = n"
| "f64_neg FNegZero = True"
| "f64_neg (FFin r) = (r < 0)"

text \<open>The absolute value of a finite number; \<open>None\<close> for an infinity or a NaN.\<close>

fun f64_abs :: "f64 \<Rightarrow> rat option" where
  "f64_abs FNegZero = Some 0"
| "f64_abs (FFin r) = Some \<bar>r\<bar>"
| "f64_abs _ = None"

fun f64_val :: "f64 \<Rightarrow> rat option" where
  "f64_val FNegZero = Some 0"
| "f64_val (FFin r) = Some r"
| "f64_val _ = None"

definition f64_mul :: "f64 \<Rightarrow> f64 \<Rightarrow> f64" where
  "f64_mul x y =
     (let neg = (f64_neg x \<noteq> f64_neg y) in
      if x = FNaN \<or> y = FNaN then FNaN
      else case (f64_abs x, f64_abs y) of
        (Some a, Some b) \<Rightarrow> round64 neg (a * b)
      | (Some a, None) \<Rightarrow> if a = 0 then FNaN else FInf neg
      | (None, Some b) \<Rightarrow> if b = 0 then FNaN else FInf neg
      | (None, None) \<Rightarrow> FInf neg)"

definition f64_div :: "f64 \<Rightarrow> f64 \<Rightarrow> f64" where
  "f64_div x y =
     (let neg = (f64_neg x \<noteq> f64_neg y) in
      if x = FNaN \<or> y = FNaN then FNaN
      else case (f64_abs x, f64_abs y) of
        (Some a, Some b) \<Rightarrow> if b = 0 then (if a = 0 then FNaN else FInf neg) else round64 neg (a / b)
      | (Some a, None) \<Rightarrow> signed_zero neg
      | (None, Some b) \<Rightarrow> FInf neg
      | (None, None) \<Rightarrow> FNaN)"

definition f64_add :: "f64 \<Rightarrow> f64 \<Rightarrow> f64" where
  "f64_add x y =
     (if x = FNaN \<or> y = FNaN then FNaN
      else if x = FNegZero \<and> y = FNegZero then FNegZero
      else case (f64_val x, f64_val y) of
        (Some a, Some b) \<Rightarrow> f64_of_rat (a + b)
      | (Some a, None) \<Rightarrow> y
      | (None, Some b) \<Rightarrow> x
      | (None, None) \<Rightarrow> if x = y then x else FNaN)"

fun f64_uminus :: "f64 \<Rightarrow> f64" where
  "f64_uminus FNaN = FNaN"
| "f64_uminus (FInf n) = FInf (\<not> n)"
| "f64_uminus FNegZero = FFin 0"
| "f64_uminus (FFin r) = (if r = 0 then FNegZero else FFin (- r))"

definition f64_sub :: "f64 \<Rightarrow> f64 \<Rightarrow> f64" where
  "f64_sub x y = f64_add x (f64_uminus y)"

text \<open>
  The conversion to \<open>int\<close> truncates; what it gives for numbers that do not fit depends on the processor and is
  a parameter.
\<close>

definition rat_trunc :: "rat \<Rightarrow> int" where
  "rat_trunc r = (if r < 0 then - \<lfloor>- r\<rfloor> else \<lfloor>r\<rfloor>)"

definition f64_to_int :: "(f64 \<Rightarrow> int) \<Rightarrow> f64 \<Rightarrow> int" where
  "f64_to_int unfit x =
     (case f64_val x of
        None \<Rightarrow> unfit x
      | Some r \<Rightarrow> if - (2 ^ 63) \<le> rat_trunc r \<and> rat_trunc r < 2 ^ 63 then rat_trunc r else unfit x)"

subsection \<open>Bounds of rounded results\<close>

lemma pow2_pos [simp]: "0 < pow2 e"
  by (simp add: pow2_def)

lemma round_half_even_le: "r \<le> of_int n \<Longrightarrow> round_half_even r \<le> n"
proof -
  assume r: "r \<le> of_int n"
  then have "\<lfloor>r\<rfloor> \<le> n" by linarith
  then consider "\<lfloor>r\<rfloor> < n" | "r = of_int n" "\<lfloor>r\<rfloor> = n" using r by linarith
  then show ?thesis by cases (simp_all add: round_half_even_def Let_def)
qed

lemma round_half_even_ge: "of_int n \<le> r \<Longrightarrow> n \<le> round_half_even r"
  by (simp add: round_half_even_def Let_def) linarith

lemma round_half_even_int [simp]: "round_half_even (of_int n) = n"
  by (simp add: round_half_even_def Let_def)

lemma bit_length_bounds: "n > 0 \<Longrightarrow> 2 ^ (bit_length n - 1) \<le> n \<and> n < 2 ^ bit_length n \<and> bit_length n > 0"
proof (induction n rule: bit_length.induct)
  case (1 n)
  show ?case
  proof (cases "n div 2 = 0")
    case True
    then have "n = 1" using 1(2) by linarith
    moreover have "bit_length 1 = 1" by (simp add: bit_length.simps)
    ultimately show ?thesis by simp
  next
    case False
    let ?b = "bit_length (n div 2)"
    have ih: "2 ^ (?b - 1) \<le> n div 2" "n div 2 < 2 ^ ?b" "0 < ?b" using 1 False by auto
    have b: "bit_length n = Suc ?b" using 1(2) by (simp add: bit_length.simps [of n])
    have p: "(2 :: nat) ^ ?b = 2 * 2 ^ (?b - 1)" using ih(3) by (metis Suc_diff_1 power_Suc)
    have "2 ^ ?b \<le> n" using ih(1) p by linarith
    moreover have "n < 2 * 2 ^ ?b" using ih(2) by linarith
    ultimately show ?thesis using b by simp
  qed
qed

text \<open>The exponent is never too large.\<close>

lemma ilog2_less:
  assumes "0 < a" "a < 2 ^ k"
  shows "ilog2 a < int k"
proof -
  obtain n d where q: "quotient_of a = (n, d)" by fastforce
  have nd: "d > 0" "a = of_int n / of_int d" using quotient_of_denom_pos [OF q] quotient_of_div [OF q] by simp_all
  define e where "e = int (bit_length (nat n)) - int (bit_length (nat d))"
  have n: "n > 0" using assms(1) nd by (simp add: zero_less_divide_iff)
  have "pow2 (ilog2 a) \<le> a"
  proof (cases "pow2 e \<le> a")
    case True
    then show ?thesis by (simp add: ilog2_def q e_def [symmetric])
  next
    case False
    let ?bn = "bit_length (nat n)" and ?bd = "bit_length (nat d)"
    have bn: "2 ^ (?bn - 1) \<le> nat n" "0 < ?bn" and bd: "nat d < 2 ^ ?bd" using bit_length_bounds [of "nat n"] bit_length_bounds [of "nat d"] n nd by auto
    have "(2 :: rat) ^ (?bn - 1) = of_nat (2 ^ (?bn - 1))" by simp
    also have "\<dots> \<le> of_nat (nat n)" using bn(1) by (simp only: of_nat_le_iff)
    also have "\<dots> = of_int n" using n by simp
    finally have n1: "(2 :: rat) ^ (?bn - 1) \<le> of_int n" .
    have "(of_int d :: rat) = of_nat (nat d)" using nd(1) by simp
    also have "\<dots> \<le> of_nat (2 ^ ?bd)" using bd by (simp only: of_nat_le_iff)
    finally have d1: "(of_int d :: rat) \<le> 2 ^ ?bd" by simp
    have "pow2 (e - 1) = 2 ^ (?bn - 1) / 2 ^ ?bd"
    proof (cases "?bn - 1 \<ge> ?bd")
      case True
      then have "e - 1 = int (?bn - 1 - ?bd)" using bn(2) by (simp add: e_def)
      then have "pow2 (e - 1) = 2 ^ (?bn - 1 - ?bd)" unfolding pow2_def by (simp only: of_nat_0_le_iff nat_int if_True)
      then show ?thesis using power_diff [of "2 :: rat" ?bd "?bn - 1"] True by simp
    next
      case F: False
      then have "- (e - 1) = int (?bd - (?bn - 1))" "e - 1 < 0" using bn(2) by (simp_all add: e_def)
      then have "nat (- (e - 1)) = ?bd - (?bn - 1)" "\<not> 0 \<le> e - 1" by (simp_all only: nat_int not_le)
      then have "pow2 (e - 1) = 1 / 2 ^ (?bd - (?bn - 1))" unfolding pow2_def by (simp only: if_False)
      then show ?thesis using F by (simp add: power_diff)
    qed
    also have "\<dots> \<le> of_int n / of_int d" using n1 d1 nd(1) n by (intro frac_le) auto
    finally have "pow2 (e - 1) \<le> a" using nd(2) by simp
    then show ?thesis using False by (simp add: ilog2_def q e_def [symmetric])
  qed
  then have "pow2 (ilog2 a) < 2 ^ k" using assms(2) by simp
  then show ?thesis
  proof (rule contrapos_pp)
    assume "\<not> ilog2 a < int k"
    then have "pow2 (ilog2 a) = 2 ^ nat (ilog2 a)" "k \<le> nat (ilog2 a)" by (simp_all add: pow2_def)
    then show "\<not> pow2 (ilog2 a) < 2 ^ k" by (simp add: not_less power_increasing)
  qed
qed

text \<open>A number between 0 and an integer below \<open>2 ^ 53\<close> is rounded into the same range, and an integer stays as it is.\<close>

lemma round64_bound:
  assumes "0 \<le> a" "a \<le> of_int c" "c < 2 ^ 53"
  shows "\<exists>v. round64 False a = FFin v \<and> 0 \<le> v \<and> v \<le> of_int c \<and> (a = of_int i \<longrightarrow> v = a)"
proof (cases "a = 0")
  case True
  then show ?thesis using assms by (auto simp: round64_def signed_zero_def)
next
  case False
  define e where "e = max (ilog2 a - 52) (-1074)"
  define v where "v = of_int (round_half_even (a / pow2 e)) * pow2 e"
  have c: "(of_int c :: rat) < 2 ^ 53" using assms(3) by (metis of_int_less_iff of_int_numeral of_int_power)
  then have "ilog2 a < 53" using ilog2_less [of a 53] False assms(1,2) by simp
  then have e: "e \<le> 0" by (simp add: e_def)
  define k where "k = nat (- e)"
  have p: "pow2 e = 1 / 2 ^ k" using e by (simp add: pow2_def k_def)
  have s: "a / pow2 e \<le> of_int (c * 2 ^ k)" "0 \<le> a / pow2 e" using assms(1,2) by (simp_all add: p mult_right_mono)
  have r: "round_half_even (a / pow2 e) \<le> c * 2 ^ k" "0 \<le> round_half_even (a / pow2 e)"
    using round_half_even_le [OF s(1)] round_half_even_ge [of 0] s(2) by simp_all
  have "(of_int (round_half_even (a / pow2 e)) :: rat) \<le> of_int (c * 2 ^ k)" using r(1) by (simp only: of_int_le_iff)
  then have v: "0 \<le> v" "v \<le> of_int c" using r(2) by (simp_all add: v_def p divide_le_eq)
  have "v = a" if "a = of_int i"
  proof -
    have "a / pow2 e = of_int (i * 2 ^ k)" using that by (simp add: p)
    then have "v = of_int (i * 2 ^ k) * pow2 e" unfolding v_def by (simp only: round_half_even_int)
    then show ?thesis using that by (simp add: p)
  qed
  moreover have "v < pow2 1024"
  proof -
    have "(2 :: rat) ^ 53 \<le> 2 ^ 1024" by (rule power_increasing) simp_all
    then show ?thesis using v(2) c by (simp add: pow2_def)
  qed
  ultimately show ?thesis using v False
    by (auto simp: round64_def signed_zero_def e_def [symmetric] v_def [symmetric] Let_def)
qed

lemma round64_int: "0 \<le> i \<Longrightarrow> i < 2 ^ 53 \<Longrightarrow> round64 False (of_int i) = FFin (of_int i)"
  using round64_bound [of "of_int i" i i] by auto

lemma f64_of_rat_bound:
  assumes "0 \<le> a" "a \<le> of_int c" "c < 2 ^ 53"
  shows "\<exists>v. f64_of_rat a = FFin v \<and> 0 \<le> v \<and> v \<le> of_int c"
  using round64_bound [OF assms] assms(1) by (fastforce simp: f64_of_rat_def)

end
