(* ===== verification/Expressions.thy ===== *)
theory Expressions
  imports Go_Float_Arith
begin

text \<open>
  Synthetic metrics: the functions and the evaluator of expressions of \<^verbatim>\<open>connectors/groundworkFunctions.go\<close>.  An
  expression is a text such as \<open>GW:percentageUsed(mem.used,mem.size)\<close>; calls can be nested.  The evaluator works on
  the text: it evaluates the last call, stores its value under a fresh name \<open>res_0\<close>, \<open>res_1\<close>, ..., and replaces the
  text of the call by that name.  The map of variables is shared by all recursive calls, so it is threaded
  through.  The recursion need not end; it has fuel, and \<open>None\<close> means that the fuel was not enough.  The
  package \<^verbatim>\<open>gval\<close>, which evaluates arguments with operators, is a parameter.
\<close>

subsection \<open>Functions\<close>

definition arg_at :: "f64 list \<Rightarrow> nat \<Rightarrow> f64 exec" where
  "arg_at values i = (if i < length values then Done (values ! i) else Panic IndexOutOfRange)"

definition scaled :: "rat \<Rightarrow> f64 list \<Rightarrow> f64 exec" where
  "scaled k values = bind_exec (arg_at values 0) (\<lambda>b. Done (f64_div b (FFin k)))"

definition KB :: "f64 list \<Rightarrow> f64 exec" where "KB = scaled 1024"
definition MB :: "f64 list \<Rightarrow> f64 exec" where "MB = scaled 1048576"
definition GB :: "f64 list \<Rightarrow> f64 exec" where "GB = scaled 1073741824"
definition TB :: "f64 list \<Rightarrow> f64 exec" where "TB = scaled 1099511627776"
definition KB2 :: "f64 list \<Rightarrow> f64 exec" where "KB2 = scaled 1000"
definition MB2 :: "f64 list \<Rightarrow> f64 exec" where "MB2 = scaled 1000000"
definition GB2 :: "f64 list \<Rightarrow> f64 exec" where "GB2 = scaled 1000000000"
definition TB2 :: "f64 list \<Rightarrow> f64 exec" where "TB2 = scaled 1000000000000"

definition MaxFloat :: "f64 list \<Rightarrow> f64 exec" where
  "MaxFloat values =
     bind_exec (arg_at values 0) (\<lambda>a. bind_exec (arg_at values 1) (\<lambda>b. Done (if f64_lt b a then a else b)))"

definition MinFloat :: "f64 list \<Rightarrow> f64 exec" where
  "MinFloat values =
     bind_exec (arg_at values 0) (\<lambda>a. bind_exec (arg_at values 1) (\<lambda>b. Done (if f64_lt a b then a else b)))"

definition MaxInt :: "f64 list \<Rightarrow> f64 exec" where
  "MaxInt values =
     bind_exec (arg_at values 0) (\<lambda>a. bind_exec (arg_at values 1) (\<lambda>b. Done (if f64_lt b a then a else b)))"

definition MinInt :: "f64 list \<Rightarrow> f64 exec" where
  "MinInt values =
     bind_exec (arg_at values 0) (\<lambda>a. bind_exec (arg_at values 1) (\<lambda>b. Done (if f64_lt a b then a else b)))"

definition IntToDouble :: "f64 list \<Rightarrow> f64 exec" where
  "IntToDouble values = arg_at values 0"

definition DoubleToInt :: "(f64 \<Rightarrow> int) \<Rightarrow> f64 list \<Rightarrow> f64 exec" where
  "DoubleToInt unfit values = bind_exec (arg_at values 0) (\<lambda>v. Done (f64_of_int (f64_to_int unfit v)))"

definition half_percent :: f64 where "half_percent = f64_of_rat (49 / 100)"

definition ToPercentage :: "f64 list \<Rightarrow> f64 exec" where
  "ToPercentage values =
     bind_exec (arg_at values 0) (\<lambda>value.
     bind_exec (MaxFloat [FFin 0, f64_mul value (FFin 100)]) (\<lambda>result. Done (f64_add result half_percent)))"

definition ToPercentageLimit :: "f64 list \<Rightarrow> f64 exec" where
  "ToPercentageLimit values =
     bind_exec (arg_at values 0) (\<lambda>value.
     bind_exec (MinFloat [FFin 100, f64_mul value (FFin 100)]) (\<lambda>m.
     bind_exec (MaxFloat [FFin 0, m]) (\<lambda>result. Done (f64_add result half_percent))))"

definition DivideToPercentage :: "f64 list \<Rightarrow> f64 exec" where
  "DivideToPercentage values =
     bind_exec (arg_at values 0) (\<lambda>dividend. bind_exec (arg_at values 1) (\<lambda>divisor.
       if f64_eq divisor (FFin 0) then Done (FFin 0) else ToPercentage [f64_div dividend divisor]))"

text \<open>The common part of both scaled percentages: the ratio of the scaled values.\<close>

definition scaled_usage :: "f64 \<Rightarrow> f64 \<Rightarrow> f64 \<Rightarrow> f64 \<Rightarrow> f64" where
  "scaled_usage used available usedScaleFactor availableScaleFactor =
     (let usage = (if f64_eq usedScaleFactor (FFin 0) then used else f64_mul used usedScaleFactor);
          availableScaled = (if f64_eq availableScaleFactor (FFin 0) then available else f64_mul available availableScaleFactor)
      in if \<not> f64_eq usage (FFin 0) then f64_div usage availableScaled else usage)"

definition ScalePercentageUsed :: "f64 list \<Rightarrow> f64 exec" where
  "ScalePercentageUsed values =
     bind_exec (arg_at values 0) (\<lambda>used. bind_exec (arg_at values 1) (\<lambda>available.
     bind_exec (arg_at values 2) (\<lambda>us. bind_exec (arg_at values 3) (\<lambda>as.
       if f64_eq used (FFin 0) \<and> f64_eq available (FFin 0) then Done (FFin 0)
       else ToPercentage [scaled_usage used available us as]))))"

definition ScalePercentageUnused :: "f64 list \<Rightarrow> f64 exec" where
  "ScalePercentageUnused values =
     bind_exec (arg_at values 0) (\<lambda>unused. bind_exec (arg_at values 1) (\<lambda>available.
     bind_exec (arg_at values 2) (\<lambda>us. bind_exec (arg_at values 3) (\<lambda>as.
       if f64_eq unused (FFin 0) \<and> f64_eq available (FFin 0) then Done (FFin 0)
       else ToPercentage [f64_sub (FFin 1) (scaled_usage unused available us as)]))))"

definition PercentageUsed :: "f64 list \<Rightarrow> f64 exec" where
  "PercentageUsed values =
     bind_exec (arg_at values 0) (\<lambda>used. bind_exec (arg_at values 1) (\<lambda>available.
       ScalePercentageUsed [used, available, FFin 1, FFin 0]))"

definition PercentageUnused :: "f64 list \<Rightarrow> f64 exec" where
  "PercentageUnused values =
     bind_exec (arg_at values 0) (\<lambda>demand. bind_exec (arg_at values 1) (\<lambda>usage.
       ScalePercentageUnused [demand, usage, FFin 1, FFin 0]))"

definition gw_functions :: "(f64 \<Rightarrow> int) \<Rightarrow> (bytes \<times> (f64 list \<Rightarrow> f64 exec)) list" where
  "gw_functions unfit =
     [(''GW:KB'', KB), (''GW:MB'', MB), (''GW:GB'', GB), (''GW:TB'', TB),
      (''GW:KB2'', KB2), (''GW:MB2'', MB2), (''GW:GB2'', GB2), (''GW:TB2'', TB2),
      (''GW:maxInt'', MaxInt), (''GW:minInt'', MinInt), (''GW:maxDouble'', MaxFloat), (''GW:minDouble'', MinFloat),
      (''GW:toDouble'', IntToDouble), (''GW:toInt'', DoubleToInt unfit), (''GW:toPercentage'', ToPercentage),
      (''GW:percentageUsed'', PercentageUsed), (''GW:percentageUnused'', PercentageUnused),
      (''GW:toPercentageLimit'', ToPercentageLimit), (''GW:divideToPercentage'', DivideToPercentage),
      (''GW:scalePercentageUsed'', ScalePercentageUsed), (''GW:scalePercentageUnused'', ScalePercentageUnused)]"

definition expressionToFuncMap :: "(f64 \<Rightarrow> int) \<Rightarrow> bytes \<rightharpoonup> (f64 list \<Rightarrow> f64 exec)" where
  "expressionToFuncMap unfit = map_of (gw_functions unfit)"

definition gw_args_counts :: "(bytes \<times> nat) list" where
  "gw_args_counts =
     [(''GW:KB'', 1), (''GW:MB'', 1), (''GW:GB'', 1), (''GW:TB'', 1), (''GW:KB2'', 1), (''GW:MB2'', 1), (''GW:GB2'', 1), (''GW:TB2'', 1),
      (''GW:maxInt'', 2), (''GW:minInt'', 2), (''GW:maxDouble'', 2), (''GW:minDouble'', 2), (''GW:toDouble'', 1), (''GW:toInt'', 1),
      (''GW:toPercentage'', 1), (''GW:percentageUsed'', 2), (''GW:percentageUnused'', 2), (''GW:toPercentageLimit'', 1),
      (''GW:divideToPercentage'', 2), (''GW:scalePercentageUsed'', 4), (''GW:scalePercentageUnused'', 4)]"

text \<open>Reading a Go map at a missing key gives 0.\<close>

definition expressionToArgsCountMap :: "bytes \<Rightarrow> nat" where
  "expressionToArgsCountMap k = (case map_of gw_args_counts k of None \<Rightarrow> 0 | Some n \<Rightarrow> n)"

subsection \<open>The evaluator\<close>

text \<open>A variable holds a number or, as the connectors store doubles, a pointer to one.\<close>

datatype gw_var = VFloat f64 | VPointer "f64 option"

type_synonym gw_vars = "bytes \<rightharpoonup> gw_var"

datatype expr_error =
    ArgumentsCount bytes | NoFunction bytes | UndefinedVariable bytes | GvalError bytes | NoProcesses | NotEnoughParameters

record expr_env =
  ee_gval :: "bytes \<Rightarrow> gw_vars \<Rightarrow> bytes + f64 option" \<comment> \<open>\<open>Inr None\<close>: a value that is not a number\<close>
  ee_unfit :: "f64 \<Rightarrow> int"

definition word_char :: "char \<Rightarrow> bool" where
  "word_char c \<longleftrightarrow> (let n = (of_char c :: nat) in 48 \<le> n \<and> n \<le> 57 \<or> 65 \<le> n \<and> n \<le> 90 \<or> n = 95 \<or> 97 \<le> n \<and> n \<le> 122)"

abbreviation paren_open :: char where "paren_open \<equiv> CHR ''(''"
abbreviation paren_close :: char where "paren_close \<equiv> CHR '')''"
abbreviation comma :: char where "comma \<equiv> CHR '',''"

text \<open>The pattern \<^verbatim>\<open>^GW:\w+\([^\(\)]+\)$\<close>: one call without parentheses in its arguments.\<close>

definition gw_match :: "bytes \<Rightarrow> bool" where
  "gw_match s \<longleftrightarrow>
     HasPrefix s ''GW:'' \<and>
     (let t = drop 3 s; u = dropWhile word_char t in
      takeWhile word_char t \<noteq> [] \<and> length u > 2 \<and> hd u = paren_open \<and> last u = paren_close \<and>
      (\<forall>c \<in> set (butlast (tl u)). c \<noteq> paren_open \<and> c \<noteq> paren_close))"

fun LastIndex :: "bytes \<Rightarrow> bytes \<Rightarrow> int" where
  "LastIndex [] sub = (if sub = [] then 0 else -1)"
| "LastIndex (c # cs) sub =
     (let i = LastIndex cs sub in if i \<ge> 0 then i + 1 else if HasPrefix (c # cs) sub then 0 else -1)"

definition IndexByte :: "bytes \<Rightarrow> char \<Rightarrow> int" where
  "IndexByte s c = (if c \<in> set s then int (length (takeWhile (\<lambda>x. x \<noteq> c) s)) else -1)"

text \<open>
  Replacing with an empty \<open>old\<close> inserts before every character (not before a continuation byte of UTF-8) and at
  the end.
\<close>

definition replace_all :: "bytes \<Rightarrow> bytes \<Rightarrow> bytes \<Rightarrow> bytes" where
  "replace_all s old new =
     (if old = [] then concat (map (\<lambda>c. if 128 \<le> (of_char c :: nat) \<and> (of_char c :: nat) < 192 then [c] else new @ [c]) s) @ new
      else ReplaceAll s old new)"

definition var_name :: "bytes \<Rightarrow> bytes" where
  "var_name s = ReplaceAll s ''.'' ''_''"

text \<open>The arguments, one by one.\<close>

fun gw_args :: "expr_env \<Rightarrow> gw_vars \<Rightarrow> bytes list \<Rightarrow> f64 list \<Rightarrow> (expr_error + f64 list) exec" where
  "gw_args env vars [] result = Done (Inr result)"
| "gw_args env vars (a # as) result =
     (let val = TrimSpace a in
      if \<exists>c \<in> set val. c \<in> {CHR ''+'', CHR ''-'', CHR ''/'', CHR ''*''}
      then (case ee_gval env (var_name val) vars of
              Inl e \<Rightarrow> Done (Inl (GvalError e))
            | Inr None \<Rightarrow> Panic TypeAssertion
            | Inr (Some v) \<Rightarrow> gw_args env vars as (result @ [v]))
      else (case vars (var_name val) of
              None \<Rightarrow> Done (Inl (UndefinedVariable val))
            | Some (VPointer _) \<Rightarrow> Panic TypeAssertion
            | Some (VFloat v) \<Rightarrow> gw_args env vars as (result @ [v])))"

type_synonym gw_result = "(gw_vars \<times> (expr_error + f64 \<times> f64 list)) exec option"

definition gw_finish :: "expr_env \<Rightarrow> bytes \<Rightarrow> gw_vars \<Rightarrow> (gw_vars \<times> (expr_error + f64 \<times> f64 list)) exec" where
  "gw_finish env e vars =
     bind_exec (gw_args env vars (Split e comma) []) (\<lambda>r.
       case r of
         Inl err \<Rightarrow> Done (vars, Inl err)
       | Inr result \<Rightarrow> bind_exec (arg_at result 0) (\<lambda>v. Done (vars, Inr (v, result))))"

definition res_name :: "nat \<Rightarrow> bytes" where
  "res_name n = ''res_'' @ format_nat n"

text \<open>The text from the last \<open>GW:\<close> up to the first closing parenthesis after it; empty when there is none.\<close>

definition last_call_text :: "bytes \<Rightarrow> bytes" where
  "last_call_text e =
     (let suf = drop (nat (LastIndex e ''GW:'')) e in take (nat (IndexByte suf paren_close + 1)) suf)"

fun EvaluateGroundworkExpression :: "expr_env \<Rightarrow> nat \<Rightarrow> bytes \<Rightarrow> gw_vars \<Rightarrow> nat \<Rightarrow> gw_result"
  and gw_loop :: "expr_env \<Rightarrow> nat \<Rightarrow> bytes \<Rightarrow> gw_vars \<Rightarrow> nat \<Rightarrow> gw_result" where
  "EvaluateGroundworkExpression env 0 expression vars argumentCounter = None"
| "EvaluateGroundworkExpression env (Suc fuel) expression vars argumentCounter =
     (let e = TrimSpace expression in
      if gw_match e then
        (let gwFuncName = takeWhile (\<lambda>c. c \<noteq> paren_open) e;
             exp = butlast (tl (dropWhile (\<lambda>c. c \<noteq> paren_open) e)) in
         case expressionToFuncMap (ee_unfit env) gwFuncName of
           None \<Rightarrow> Some (Done (vars, Inl (NoFunction gwFuncName)))
         | Some function \<Rightarrow>
             (case EvaluateGroundworkExpression env fuel exp vars argumentCounter of
                None \<Rightarrow> None
              | Some r \<Rightarrow> Some (bind_exec r (\<lambda>(vars', x).
                  case x of
                    Inl err \<Rightarrow> Done (vars', Inl err)
                  | Inr (_, values) \<Rightarrow>
                      if length values \<noteq> expressionToArgsCountMap gwFuncName then Done (vars', Inl (ArgumentsCount gwFuncName))
                      else bind_exec (function values) (\<lambda>v. Done (vars', Inr (v, [v])))))))
      else gw_loop env fuel e vars argumentCounter)"
| "gw_loop env 0 e vars argumentCounter = None"
| "gw_loop env (Suc fuel) e vars argumentCounter =
     (if \<not> Contains e ''GW:'' then Some (gw_finish env e vars)
      else let newExp = last_call_text e in
           case EvaluateGroundworkExpression env fuel newExp vars argumentCounter of
             None \<Rightarrow> None
           | Some (Panic p) \<Rightarrow> Some (Panic p)
           | Some (Done (vars', Inl err)) \<Rightarrow> Some (Done (vars', Inl err))
           | Some (Done (vars', Inr (v, _))) \<Rightarrow>
               (let argumentToReplace = res_name argumentCounter
                in gw_loop env fuel (replace_all e newExp argumentToReplace) (vars'(argumentToReplace \<mapsto> VFloat v)) (argumentCounter + 1)))"

declare EvaluateGroundworkExpression.simps [simp del]
declare gw_loop.simps [simp del]

subsection \<open>Suggestions and evaluation on request\<close>

record ExpressionToSuggest =
  es_Name :: bytes
  es_ArgsCount :: nat

text \<open>A loop over a Go map; the first argument is the order in which its entries are visited.\<close>

definition ListExpressions :: "((bytes \<times> nat) list \<Rightarrow> (bytes \<times> nat) list) \<Rightarrow> bytes \<Rightarrow> ExpressionToSuggest list" where
  "ListExpressions ord name =
     map (\<lambda>(key, argsCount). \<lparr>es_Name = key, es_ArgsCount = argsCount\<rparr>) (filter (\<lambda>(key, _). Contains key name) (ord gw_args_counts))"

record ExpressionParameter =
  ep_Name :: bytes
  ep_Value :: f64

record ExpressionToEvaluate =
  ex_Expression :: bytes
  ex_Params :: "ExpressionParameter list"

definition EvaluateExpression :: "expr_env \<Rightarrow> nat \<Rightarrow> (bytes \<rightharpoonup> f64) option \<Rightarrow> ExpressionToEvaluate \<Rightarrow> bool \<Rightarrow> (expr_error + f64) exec option" where
  "EvaluateExpression env fuel cache expression override =
     (if \<not> override \<and> cache = None then Some (Done (Inl NoProcesses))
      else
        let bindings = (case cache of
                Some processes \<Rightarrow>
                  if override then map (\<lambda>p. (var_name (ep_Name p), ep_Value p)) (ex_Params expression)
                  else List.map_filter (\<lambda>p. map_option (Pair (var_name (ep_Name p))) (processes (var_name (ep_Name p)))) (ex_Params expression)
              | None \<Rightarrow> map (\<lambda>p. (var_name (ep_Name p), ep_Value p)) (ex_Params expression));
            vars = fold (\<lambda>(k, v) m. m(k \<mapsto> VFloat v)) bindings Map.empty
        in if length (remdups (map fst bindings)) \<noteq> length (ex_Params expression) then Some (Done (Inl NotEnoughParameters))
           else map_option (\<lambda>r. bind_exec r (\<lambda>(_, x). Done (case x of Inl err \<Rightarrow> Inl err | Inr (v, _) \<Rightarrow> Inr v)))
                  (EvaluateGroundworkExpression env fuel (ex_Expression expression) vars 0))"

text \<open>The HTTP handler: the body (\<open>None\<close> when it cannot be read), its decoding, and whether the query says \<open>override=true\<close>.\<close>

definition EvaluateExpressionHandler :: "expr_env \<Rightarrow> nat \<Rightarrow> (bytes \<rightharpoonup> f64) option \<Rightarrow> (bytes \<Rightarrow> ExpressionToEvaluate option) \<Rightarrow>
    bytes option \<Rightarrow> bool \<Rightarrow> (int \<times> f64 option) exec option" where
  "EvaluateExpressionHandler env fuel cache um body override =
     (case Option.bind body um of
        None \<Rightarrow> Some (Done (400, None))
      | Some expression \<Rightarrow>
          map_option (\<lambda>r. bind_exec r (\<lambda>x. Done (case x of Inr result \<Rightarrow> (200, Some result) | Inl err \<Rightarrow> (400, None))))
            (EvaluateExpression env fuel cache expression override))"

subsection \<open>The functions are total\<close>

lemma arg_at_simps [simp]:
  "arg_at (x # xs) 0 = Done x" "arg_at (x # xs) (Suc i) = arg_at xs i" "arg_at (x # xs) 1 = arg_at xs 0"
  "arg_at (x # xs) 2 = arg_at xs 1" "arg_at (x # xs) 3 = arg_at xs 2"
  by (simp_all add: arg_at_def numeral_2_eq_2 numeral_3_eq_3)

lemmas gw_function_defs = KB_def MB_def GB_def TB_def KB2_def MB2_def GB2_def TB2_def scaled_def MaxFloat_def MinFloat_def MaxInt_def
  MinInt_def IntToDouble_def DoubleToInt_def ToPercentage_def ToPercentageLimit_def DivideToPercentage_def
  ScalePercentageUsed_def ScalePercentageUnused_def PercentageUsed_def PercentageUnused_def

definition total_for :: "nat \<Rightarrow> (f64 list \<Rightarrow> f64 exec) \<Rightarrow> bool" where
  "total_for n f \<longleftrightarrow> (\<forall>values. length values = n \<longrightarrow> (\<exists>v. f values = Done v))"

lemma total_for1: "total_for (Suc 0) f \<longleftrightarrow> (\<forall>a. \<exists>v. f [a] = Done v)"
  by (auto simp: total_for_def length_Suc_conv)

lemma total_for2: "total_for 2 f \<longleftrightarrow> (\<forall>a b. \<exists>v. f [a, b] = Done v)"
  by (auto simp: total_for_def length_Suc_conv numeral_2_eq_2)

lemma total_for4: "total_for 4 f \<longleftrightarrow> (\<forall>a b c d. \<exists>v. f [a, b, c, d] = Done v)"
  by (auto simp: total_for_def length_Suc_conv numeral_eq_Suc)

lemma gw_functions_total:
  "list_all2 (\<lambda>(k, f) (k', n). k = k' \<and> total_for n f) (gw_functions unfit) gw_args_counts"
  unfolding gw_functions_def gw_args_counts_def
  by (simp add: total_for1 total_for2 total_for4) (simp add: gw_function_defs)

lemma map_of_pairs: "list_all2 (\<lambda>(k, f) (k', n). k = k' \<and> P n f) fs ns \<Longrightarrow>
  map_of fs k = Some f \<Longrightarrow> \<exists>n. map_of ns k = Some n \<and> P n f"
  by (induction fs ns rule: list_all2_induct) (auto split: if_splits)

lemma gw_function_returns:
  assumes "expressionToFuncMap unfit k = Some f" "length values = expressionToArgsCountMap k"
  shows "\<exists>v. f values = Done v"
  using map_of_pairs [OF gw_functions_total, of unfit k f] assms
  by (auto simp: expressionToFuncMap_def expressionToArgsCountMap_def total_for_def)

subsection \<open>Expressions as trees\<close>

text \<open>The reference: nested calls of functions on variables, their text, and their value.\<close>

datatype gx = V bytes | C bytes "gx list"

fun gx_text :: "gx \<Rightarrow> bytes" where
  "gx_text (V x) = x"
| "gx_text (C w as) = ''GW:'' @ w @ paren_open # Join (map gx_text as) [comma] @ [paren_close]"

definition gx_name :: "bytes \<Rightarrow> bool" where
  "gx_name x \<longleftrightarrow> x \<noteq> [] \<and> (\<forall>c \<in> set x. word_char c \<or> c = CHR ''.'')"

fun gx_ok :: "gx \<Rightarrow> bool" where
  "gx_ok (V x) = gx_name x"
| "gx_ok (C w as) = (w \<noteq> [] \<and> (\<forall>c \<in> set w. word_char c) \<and> as \<noteq> [] \<and> (\<forall>a \<in> set as. gx_ok a))"

fun gx_calls :: "gx \<Rightarrow> nat" where
  "gx_calls (V x) = 0"
| "gx_calls (C w as) = Suc (sum_list (map gx_calls as))"

definition gw_apply :: "(f64 \<Rightarrow> int) \<Rightarrow> bytes \<Rightarrow> f64 list \<Rightarrow> f64 option" where
  "gw_apply unfit k values =
     (case expressionToFuncMap unfit k of
        None \<Rightarrow> None
      | Some f \<Rightarrow> if length values = expressionToArgsCountMap k then (case f values of Done v \<Rightarrow> Some v | Panic _ \<Rightarrow> None) else None)"

definition var_value :: "gw_vars \<Rightarrow> bytes \<Rightarrow> f64 option" where
  "var_value vars x = (case vars (var_name x) of Some (VFloat v) \<Rightarrow> Some v | _ \<Rightarrow> None)"

fun gx_value :: "(f64 \<Rightarrow> int) \<Rightarrow> gw_vars \<Rightarrow> gx \<Rightarrow> f64 option" where
  "gx_value unfit vars (V x) = var_value vars x"
| "gx_value unfit vars (C w as) =
     (case those (map (gx_value unfit vars) as) of None \<Rightarrow> None | Some values \<Rightarrow> gw_apply unfit (''GW:'' @ w) values)"

fun gx_vars :: "gx \<Rightarrow> bytes set" where
  "gx_vars (V x) = {var_name x}"
| "gx_vars (C w as) = \<Union> (gx_vars ` set as)"

fun gx_subs :: "gx \<Rightarrow> gx set" where
  "gx_subs (V x) = {V x}"
| "gx_subs (C w as) = insert (C w as) (\<Union> (gx_subs ` set as))"

fun gx_subst :: "gx \<Rightarrow> bytes \<Rightarrow> gx \<Rightarrow> gx" where
  "gx_subst l x (V y) = (if V y = l then V x else V y)"
| "gx_subst l x (C w as) = (if C w as = l then V x else C w (map (gx_subst l x) as))"

definition number_vars :: "gw_vars \<Rightarrow> bool" where
  "number_vars vars \<longleftrightarrow> (\<forall>k v. vars k = Some v \<longrightarrow> (\<exists>f. v = VFloat f))"

subsubsection \<open>Values\<close>

lemma those_None: "those xs = None \<longleftrightarrow> None \<in> set xs"
  by (induction xs) (auto split: option.splits)

lemma gx_value_None: "t \<in> gx_subs e \<Longrightarrow> gx_value unfit vars t = None \<Longrightarrow> gx_value unfit vars e = None"
proof (induction e)
  case (C w as)
  then show ?case
  proof (cases "t = C w as")
    case False
    then obtain a where a: "a \<in> set as" "t \<in> gx_subs a" using C.prems by auto
    then have "None \<in> set (map (gx_value unfit vars) as)" using C by force
    then have "those (map (gx_value unfit vars) as) = None" using those_None by blast
    then show ?thesis by simp
  qed simp
qed simp

lemma gx_subst_self [simp]: "gx_subst l x l = V x"
  by (cases l) simp_all

lemma gx_value_subst:
  assumes "gx_value unfit vars l = Some v"
  shows "var_name x \<notin> gx_vars e \<Longrightarrow> gx_value unfit (vars(var_name x \<mapsto> VFloat v)) (gx_subst l x e) = gx_value unfit vars e"
proof (induction e)
  case (V y)
  then show ?case using assms by (auto simp: var_value_def)
next
  case (C w as)
  show ?case
  proof (cases "C w as = l")
    case True
    then show ?thesis using assms by (auto simp only: gx_subst_self gx_value.simps var_value_def fun_upd_same option.case gw_var.case)
  next
    case False
    have "map (gx_value unfit (vars(var_name x \<mapsto> VFloat v))) (map (gx_subst l x) as) = map (gx_value unfit vars) as"
      using C.IH C.prems by (simp del: fun_upd_apply)
    then show ?thesis using False by (simp only: gx_subst.simps gx_value.simps if_False)
  qed
qed

lemma gx_calls_subst_le: "gx_calls (gx_subst l x e) \<le> gx_calls e"
proof (induction e)
  case (C w as)
  then have "sum_list (map gx_calls (map (gx_subst l x) as)) \<le> sum_list (map gx_calls as)"
    by (induction as) (auto intro: add_mono)
  then show ?case by simp
qed simp

lemma gx_calls_subst_less: "l \<in> gx_subs e \<Longrightarrow> 0 < gx_calls l \<Longrightarrow> gx_calls (gx_subst l x e) < gx_calls e"
proof (induction e)
  case (C w as)
  show ?case
  proof (cases "C w as = l")
    case False
    then obtain a where a: "a \<in> set as" "l \<in> gx_subs a" using C.prems by auto
    then obtain as1 as2 where s: "as = as1 @ a # as2" by (meson split_list)
    have le: "sum_list (map gx_calls (map (gx_subst l x) bs)) \<le> sum_list (map gx_calls bs)" for bs
      by (induction bs) (auto intro: add_mono gx_calls_subst_le)
    have "gx_calls (gx_subst l x a) < gx_calls a" using C.IH [OF a(1) a(2) C.prems(2)] .
    then show ?thesis using le [of as1] le [of as2] False by (simp add: s)
  next
    case True
    then show ?thesis using C.prems(2) by (metis gx_subst_self gx_calls.simps(1))
  qed
qed simp

lemma gx_ok_subst: "gx_ok e \<Longrightarrow> gx_name x \<Longrightarrow> gx_ok (gx_subst l x e)"
  by (induction e) auto

lemma gx_vars_subst: "gx_vars (gx_subst l x e) \<subseteq> insert (var_name x) (gx_vars e)"
proof (induction e)
  case (C w as)
  then have "\<Union> (gx_vars ` set (map (gx_subst l x) as)) \<subseteq> insert (var_name x) (\<Union> (gx_vars ` set as))" by fastforce
  then show ?case by simp
qed auto

lemma gx_ok_subs: "gx_ok e \<Longrightarrow> t \<in> gx_subs e \<Longrightarrow> gx_ok t"
  by (induction e) auto

subsubsection \<open>Texts\<close>

lemma word_char_simps [simp]:
  "\<not> word_char paren_open" "\<not> word_char paren_close" "\<not> word_char comma" "\<not> word_char (CHR '':'')" "\<not> word_char (CHR '' '')"
  "\<not> word_char (CHR ''+'')" "\<not> word_char (CHR ''-'')" "\<not> word_char (CHR ''/'')" "\<not> word_char (CHR ''*'')"
  by (simp_all add: word_char_def)

lemma word_char_space: "word_char c \<Longrightarrow> c \<notin> ascii_space"
  by (auto simp: word_char_def ascii_space_def)

lemma gx_name_chars:
  assumes "gx_name x" "c \<in> set x"
  shows "c \<noteq> paren_open \<and> c \<noteq> paren_close \<and> c \<noteq> comma \<and> c \<noteq> CHR '':'' \<and> c \<notin> ascii_space \<and>
    c \<notin> {CHR ''+'', CHR ''-'', CHR ''/'', CHR ''*''}"
  using assms word_char_space [of c] by (auto simp: gx_name_def ascii_space_def)

lemma Trim_same: "s \<noteq> [] \<Longrightarrow> hd s \<notin> A \<Longrightarrow> last s \<notin> A \<Longrightarrow> Trim s A = s"
proof -
  assume s: "s \<noteq> []" "hd s \<notin> A" "last s \<notin> A"
  have "dropWhile (\<lambda>c. c \<in> A) s = s" using s by (cases s) auto
  moreover have "dropWhile (\<lambda>c. c \<in> A) (rev s) = rev s" using s by (cases s rule: rev_cases) auto
  ultimately show ?thesis by (simp add: Trim_def TrimLeft_def TrimRight_def)
qed

lemma gx_name_Trim: "gx_name x \<Longrightarrow> TrimSpace x = x"
proof -
  assume x: "gx_name x"
  then have "x \<noteq> []" by (simp add: gx_name_def)
  then show ?thesis
    unfolding TrimSpace_def using gx_name_chars [OF x, of "hd x"] gx_name_chars [OF x, of "last x"] by (intro Trim_same) simp_all
qed

text \<open>The list of the arguments of a call with variables only.\<close>

lemma Join_names:
  assumes "xs \<noteq> []" "\<forall>x \<in> set xs. gx_name x"
  shows "Join xs [comma] \<noteq> []" "\<forall>c \<in> set (Join xs [comma]). c \<noteq> paren_open \<and> c \<noteq> paren_close \<and> c \<noteq> CHR '':''"
    "TrimSpace (Join xs [comma]) = Join xs [comma]" "Split (Join xs [comma]) comma = xs"
proof -
  show ne: "Join xs [comma] \<noteq> []" using assms by (intro Join_ne) (auto simp: gx_name_def)
  show "\<forall>c \<in> set (Join xs [comma]). c \<noteq> paren_open \<and> c \<noteq> paren_close \<and> c \<noteq> CHR '':''"
    using set_Join [of xs "[comma]"] assms(2) gx_name_chars by fastforce
  show "Split (Join xs [comma]) comma = xs" using assms gx_name_chars by (intro Split_Join) auto
  have h: "hd (Join xs [comma]) = hd (hd xs)" using assms by (cases xs) (auto simp: Join_Cons gx_name_def)
  have l: "last (Join xs [comma]) = last (last xs)" using assms
    by (induction xs) (auto simp: Join_Cons gx_name_def Join_ne)
  have "gx_name (hd xs)" "gx_name (last xs)" using assms by auto
  then have "hd (hd xs) \<notin> ascii_space" "last (last xs) \<notin> ascii_space"
    using gx_name_chars [of "hd xs" "hd (hd xs)"] gx_name_chars [of "last xs" "last (last xs)"] by (auto simp: gx_name_def)
  then show "TrimSpace (Join xs [comma]) = Join xs [comma]" unfolding TrimSpace_def using ne h l by (intro Trim_same) auto
qed

lemma no_colon_no_call: "CHR '':'' \<notin> set s \<Longrightarrow> \<not> Contains s ''GW:''" "CHR '':'' \<notin> set s \<Longrightarrow> \<not> HasPrefix s ''GW:''"
  by (auto simp: Contains_iff HasPrefix_iff)

lemma no_colon_LastIndex: "CHR '':'' \<notin> set s \<Longrightarrow> LastIndex s ''GW:'' = -1"
  by (induction s) (auto simp: no_colon_no_call(2) Let_def)

lemma LastIndex_last: "CHR '':'' \<notin> set r \<Longrightarrow> LastIndex (p @ ''GW:'' @ r) ''GW:'' = int (length p)"
proof (induction p)
  case Nil
  have "LastIndex (CHR '':'' # r) ''GW:'' = -1" using no_colon_LastIndex [OF Nil] by (simp add: HasPrefix_iff)
  then show ?case by (simp add: HasPrefix_iff)
qed simp

text \<open>The last call, when nothing after it is a call.\<close>

lemma last_call_text_is:
  assumes "CHR '':'' \<notin> set w" "CHR '':'' \<notin> set A" "CHR '':'' \<notin> set post" "paren_close \<notin> set w" "paren_close \<notin> set A"
  shows "last_call_text (pre @ ''GW:'' @ w @ paren_open # A @ [paren_close] @ post) = ''GW:'' @ w @ paren_open # A @ [paren_close]"
proof -
  define s where "s = ''GW:'' @ w @ paren_open # A"
  have l: "LastIndex (pre @ ''GW:'' @ w @ paren_open # A @ [paren_close] @ post) ''GW:'' = int (length pre)"
    using assms by (intro LastIndex_last) auto
  have "IndexByte (s @ paren_close # post) paren_close = int (length s)"
    using assms(4,5) by (simp add: IndexByte_def takeWhile_append s_def)
  then have "take (nat (IndexByte (s @ paren_close # post) paren_close + 1)) (s @ paren_close # post) = s @ [paren_close]"
    by (simp add: nat_add_distrib)
  then show ?thesis unfolding last_call_text_def l by (simp add: s_def)
qed

lemma gw_match_leaf:
  assumes "w \<noteq> []" "\<forall>c \<in> set w. word_char c" "A \<noteq> []"
  shows "gw_match (''GW:'' @ w @ paren_open # A @ [paren_close]) \<longleftrightarrow> paren_open \<notin> set A \<and> paren_close \<notin> set A"
proof -
  have "takeWhile word_char (w @ paren_open # r) = w" "dropWhile word_char (w @ paren_open # r) = paren_open # r" for r
    using assms(2) by (simp_all add: takeWhile_append dropWhile_append)
  then show ?thesis using assms(1,3) by (auto simp: gw_match_def HasPrefix_iff)
qed

subsubsection \<open>Replacing a call\<close>

text \<open>A leaf is a call whose arguments are variables.\<close>

definition gx_leaf :: "bytes \<Rightarrow> bytes list \<Rightarrow> gx" where
  "gx_leaf w xs = C w (map V xs)"

lemma gx_leaf_text: "gx_text (gx_leaf w xs) = ''GW:'' @ w @ paren_open # Join xs [comma] @ [paren_close]"
  by (simp add: gx_leaf_def comp_def)

lemma gx_leaf_ok: "gx_ok (gx_leaf w xs) \<longleftrightarrow> w \<noteq> [] \<and> (\<forall>c \<in> set w. word_char c) \<and> xs \<noteq> [] \<and> (\<forall>x \<in> set xs. gx_name x)"
  by (simp add: gx_leaf_def)

text \<open>The first parenthesis in the text of the arguments tells whether there is a call among them.\<close>

abbreviation no_paren :: "char \<Rightarrow> bool" where "no_paren c \<equiv> c \<noteq> paren_open \<and> c \<noteq> paren_close"

lemma first_paren:
  assumes "\<forall>a \<in> set as. gx_ok a" "as \<noteq> []"
  shows "hd (dropWhile no_paren (Join (map gx_text as) [comma] @ paren_close # r)) =
    (if \<forall>a \<in> set as. gx_calls a = 0 then paren_close else paren_open)"
  using assms
proof (induction as arbitrary: r)
  case (Cons a as)
  show ?case
  proof (cases a)
    case (V x)
    then have x: "\<forall>c \<in> set x. no_paren c" using Cons.prems gx_name_chars by fastforce
    show ?thesis
    proof (cases "as = []")
      case True
      then show ?thesis using V x by (simp add: dropWhile_append)
    next
      case False
      then show ?thesis using Cons.IH [of r] Cons.prems V x by (simp add: Join_Cons dropWhile_append)
    qed
  next
    case (C w bs)
    then have "\<forall>c \<in> set w. no_paren c" using Cons.prems by auto
    then show ?thesis using C by (simp add: Join_Cons dropWhile_append)
  qed
qed simp

lemma gx_calls_0: "gx_calls a = 0 \<longleftrightarrow> (\<exists>x. a = V x)"
  by (cases a) auto

lemma all_vars: "(\<forall>a \<in> set as. gx_calls a = 0) \<Longrightarrow> \<exists>ys. as = map V ys"
  by (induction as) (auto simp: gx_calls_0 Cons_eq_map_conv)

text \<open>Where the text of a leaf starts in the text of a call, the call is that leaf.\<close>

lemma leaf_prefix:
  assumes l: "gx_ok (gx_leaf w' xs)" and e: "gx_ok (C w as)" and p: "HasPrefix (gx_text (C w as) @ r) (gx_text (gx_leaf w' xs))"
  shows "C w as = gx_leaf w' xs"
proof -
  let ?A = "Join (map gx_text as) [comma]" and ?B = "Join xs [comma]"
  obtain z where z: "w @ paren_open # ?A @ paren_close # r = w' @ paren_open # ?B @ paren_close # z"
    using p by (auto simp: HasPrefix_iff gx_leaf_text)
  have tw: "takeWhile word_char (u @ paren_open # v) = u" if "\<forall>c \<in> set u. word_char c" for u v
    using that by (simp add: takeWhile_append)
  have w: "w = w'" using arg_cong [OF z, of "takeWhile word_char"] l e by (simp add: tw gx_leaf_ok)
  then have ab: "?A @ paren_close # r = ?B @ paren_close # z" using z by simp
  have B: "\<forall>c \<in> set ?B. no_paren c" "Split ?B comma = xs" using Join_names [of xs] l by (simp_all add: gx_leaf_ok)
  have "hd (dropWhile no_paren (?B @ paren_close # z)) = paren_close" using B(1) by (simp add: dropWhile_append)
  then have "\<forall>a \<in> set as. gx_calls a = 0" using first_paren [of as r] e ab by (auto split: if_splits)
  then obtain ys where ys: "as = map V ys" using all_vars by blast
  then have A: "?A = Join ys [comma]" by (simp add: comp_def)
  have "\<forall>y \<in> set ys. gx_name y" "ys \<noteq> []" using e ys by auto
  from Join_names [OF this(2,1)] have "\<forall>c \<in> set ?A. no_paren c" "Split ?A comma = ys" unfolding A by auto
  then have "takeWhile no_paren (?A @ paren_close # r) = ?A" "takeWhile no_paren (?B @ paren_close # z) = ?B"
    using B(1) by (simp_all add: takeWhile_append)
  then have "?A = ?B" using ab by simp
  then have "ys = xs" using \<open>Split ?A comma = ys\<close> B(2) by simp
  then show ?thesis using w ys by (simp add: gx_leaf_def)
qed

lemma ReplaceAll_skip:
  assumes "old = ''GW:'' @ o'" "CHR '':'' \<notin> set x" "r = [] \<or> hd r \<in> {comma, paren_open, paren_close}"
  shows "ReplaceAll (x @ r) old new = x @ ReplaceAll r old new"
  using assms(2)
proof (induction x)
  case (Cons c x)
  have "\<not> HasPrefix (c # x @ r) old"
  proof
    assume "HasPrefix (c # x @ r) old"
    then obtain z where "c # x @ r = CHR ''G'' # CHR ''W'' # CHR '':'' # o' @ z" using assms(1) by (auto simp: HasPrefix_iff)
    then show False using assms(3) Cons.prems by (cases x; cases "tl x"; cases r) auto
  qed
  then show ?case using Cons by simp
qed simp

lemma ReplaceAll_head: "p \<noteq> [] \<Longrightarrow> ReplaceAll (p @ r) p x = x @ ReplaceAll r p x"
  using HasPrefix_append [of p r] by (cases p) simp_all

lemma HasPrefix_Cons: "HasPrefix (c # r) (d # p) \<longleftrightarrow> c = d \<and> HasPrefix r p"
  by (auto simp: HasPrefix_iff)

lemma ReplaceAll_call:
  assumes l: "gx_ok (gx_leaf w' xs)" "p = gx_text (gx_leaf w' xs)"
  shows "gx_ok e \<Longrightarrow> r = [] \<or> hd r \<in> {comma, paren_close} \<Longrightarrow>
    ReplaceAll (gx_text e @ r) p x = gx_text (gx_subst (gx_leaf w' xs) x e) @ ReplaceAll r p x"
proof (induction e arbitrary: r)
  case (V y)
  obtain o' where o: "p = ''GW:'' @ o'" using l(2) by (simp add: gx_leaf_text)
  have "CHR '':'' \<notin> set y" using V.prems(1) gx_name_chars by fastforce
  from ReplaceAll_skip [OF o this, of r x] V.prems(2) show ?case by (auto simp: gx_leaf_def)
next
  case (C w as)
  obtain o' where o: "p = ''GW:'' @ o'" using l(2) by (simp add: gx_leaf_text)
  show ?case
  proof (cases "C w as = gx_leaf w' xs")
    case True
    have "p \<noteq> []" using o by simp
    then have "ReplaceAll (p @ r) p x = x @ ReplaceAll r p x" by (rule ReplaceAll_head)
    then show ?thesis using True l(2) by (metis gx_subst_self gx_text.simps(1))
  next
    case False
    have np: "\<not> HasPrefix (gx_text (C w as) @ r) p" using leaf_prefix [OF l(1) C.prems(1)] False l(2) by blast
    have w: "CHR '':'' \<notin> set w" using C.prems(1) by auto
    have args: "ReplaceAll (Join (map gx_text bs) [comma] @ paren_close # r) p x =
        Join (map (gx_text \<circ> gx_subst (gx_leaf w' xs) x) bs) [comma] @ paren_close # ReplaceAll r p x"
      if "set bs \<subseteq> set as" for bs
      using that
    proof (induction bs)
      case Nil
      show ?case by (simp add: o HasPrefix_Cons)
    next
      case (Cons b bs)
      have b: "gx_ok b" "b \<in> set as" using Cons.prems C.prems(1) by auto
      show ?case
      proof (cases "bs = []")
        case True
        then show ?thesis using C.IH [OF b(2,1), of "paren_close # r"] by (simp add: o HasPrefix_Cons)
      next
        case False
        then show ?thesis using C.IH [OF b(2,1), of "comma # Join (map gx_text bs) [comma] @ paren_close # r"] Cons
          by (simp add: Join_Cons o HasPrefix_Cons)
      qed
    qed
    have "ReplaceAll (gx_text (C w as) @ r) p x =
        CHR ''G'' # ReplaceAll (CHR ''W'' # CHR '':'' # w @ paren_open # Join (map gx_text as) [comma] @ paren_close # r) p x"
      using np by simp
    also have "\<dots> = ''GW:'' @ ReplaceAll (w @ paren_open # Join (map gx_text as) [comma] @ paren_close # r) p x"
      by (simp add: o HasPrefix_Cons)
    also have "\<dots> = ''GW:'' @ w @ paren_open # ReplaceAll (Join (map gx_text as) [comma] @ paren_close # r) p x"
      using ReplaceAll_skip [OF o w, of "paren_open # Join (map gx_text as) [comma] @ paren_close # r" x] by (simp add: o HasPrefix_Cons)
    finally show ?thesis using False args [OF order_refl] by (simp add: comp_def)
  qed
qed

subsubsection \<open>The last call\<close>

lemma Join_split: "\<exists>p q. Join (xs @ y # ys) sep = p @ y @ q \<and> set q \<subseteq> set sep \<union> \<Union> (set ` set ys)"
proof (induction xs)
  case Nil
  have "set (Join ys sep) \<subseteq> set sep \<union> \<Union> (set ` set ys)" using set_Join [of ys sep] by blast
  then show ?case by (intro exI [of _ "[]"] exI [of _ "if ys = [] then [] else sep @ Join ys sep"]) (auto simp: Join_Cons)
next
  case (Cons x xs)
  then obtain p q where "Join (xs @ y # ys) sep = p @ y @ q" "set q \<subseteq> set sep \<union> \<Union> (set ` set ys)" by blast
  then show ?case by (intro exI [of _ "x @ sep @ p"] exI [of _ q]) (simp add: Join_Cons)
qed

lemma last_leaf:
  "gx_ok e \<Longrightarrow> 0 < gx_calls e \<Longrightarrow>
    \<exists>w xs pre post. gx_text e = pre @ gx_text (gx_leaf w xs) @ post \<and> gx_leaf w xs \<in> gx_subs e \<and> CHR '':'' \<notin> set post"
proof (induction e)
  case (C w as)
  show ?case
  proof (cases "\<forall>a \<in> set as. gx_calls a = 0")
    case True
    then obtain ys where "as = map V ys" using all_vars by blast
    then have "C w as = gx_leaf w ys" by (simp add: gx_leaf_def)
    moreover have "C w as \<in> gx_subs (C w as)" by simp
    ultimately have "gx_text (C w as) = [] @ gx_text (gx_leaf w ys) @ []" "gx_leaf w ys \<in> gx_subs (C w as)" "CHR '':'' \<notin> set []" by simp_all
    then show ?thesis by blast
  next
    case False
    then obtain as1 a as2 where s: "as = as1 @ a # as2" "gx_calls a \<noteq> 0" "\<forall>b \<in> set as2. gx_calls b = 0"
      using split_list_last_prop [of as "\<lambda>a. gx_calls a \<noteq> 0"] by auto
    have a: "a \<in> set as" "gx_ok a" using s(1) C.prems(1) by auto
    from C.IH [OF this] s(2) obtain w' xs pre post where
      ih: "gx_text a = pre @ gx_text (gx_leaf w' xs) @ post" "gx_leaf w' xs \<in> gx_subs a" "CHR '':'' \<notin> set post" by blast
    obtain p q where j: "Join (map gx_text as) [comma] = p @ gx_text a @ q" "set q \<subseteq> set [comma] \<union> \<Union> (set ` set (map gx_text as2))"
      using Join_split [of "map gx_text as1" "gx_text a" "map gx_text as2" "[comma]"] s(1) by auto
    have "CHR '':'' \<notin> set (gx_text b)" if b: "b \<in> set as2" for b
    proof -
      have "gx_calls b = 0" using s(3) b by blast
      then obtain x where "b = V x" using gx_calls_0 by blast
      moreover have "gx_ok b" using b s(1) C.prems(1) by auto
      ultimately show ?thesis using gx_name_chars [of x "CHR '':''"] by auto
    qed
    then have "CHR '':'' \<notin> set q" using j(2) by auto
    then show ?thesis using ih a j(1)
      by (intro exI [of _ w'] exI [of _ xs] exI [of _ "''GW:'' @ w @ paren_open # p @ pre"] exI [of _ "post @ q @ [paren_close]"]) auto
  qed
qed simp

subsubsection \<open>Evaluation\<close>

lemma gw_args_names:
  assumes "number_vars vars" "\<forall>x \<in> set xs. gx_name x"
  shows "case those (map (var_value vars) xs) of
      Some values \<Rightarrow> gw_args env vars xs acc = Done (Inr (acc @ values))
    | None \<Rightarrow> \<exists>err. gw_args env vars xs acc = Done (Inl err)"
  using assms(2)
proof (induction xs arbitrary: acc)
  case (Cons x xs)
  have x: "gx_name x" using Cons.prems by simp
  have t: "TrimSpace x = x" "\<not> (\<exists>c \<in> set x. c \<in> {CHR ''+'', CHR ''-'', CHR ''/'', CHR ''*''})"
    using gx_name_Trim [OF x] gx_name_chars [OF x] by blast+
  show ?case
  proof (cases "vars (var_name x)")
    case None
    then show ?thesis using t by (simp add: var_value_def)
  next
    case (Some v)
    then obtain f where f: "v = VFloat f" using assms(1) by (auto simp: number_vars_def)
    have "gw_args env vars (x # xs) acc = gw_args env vars xs (acc @ [f])" using Some f t by simp
    then show ?thesis using Cons.IH [of "acc @ [f]"] Cons.prems Some f by (auto simp: var_value_def split: option.splits)
  qed
qed simp

text \<open>A text without a call is a list of arguments.\<close>

lemma gw_loop_names:
  assumes "number_vars vars" "xs \<noteq> []" "\<forall>x \<in> set xs. gx_name x"
  shows "case those (map (var_value vars) xs) of
      Some values \<Rightarrow> gw_loop env (Suc k) (Join xs [comma]) vars n = Some (Done (vars, Inr (hd values, values)))
    | None \<Rightarrow> \<exists>err. gw_loop env (Suc k) (Join xs [comma]) vars n = Some (Done (vars, Inl err))"
proof -
  note j = Join_names [OF assms(2,3)]
  have "\<not> Contains (Join xs [comma]) ''GW:''" using j(2) by (intro no_colon_no_call) auto
  then have l: "gw_loop env (Suc k) (Join xs [comma]) vars n = Some (gw_finish env (Join xs [comma]) vars)" by (simp add: gw_loop.simps)
  have "values \<noteq> []" if "those (map (var_value vars) xs) = Some values" for "values"
    using that assms(2) by (cases xs) (auto split: option.splits)
  then show ?thesis using gw_args_names [OF assms(1,3), of env "[]"] j(4)
    by (auto simp: l gw_finish_def arg_at_def hd_conv_nth split: option.splits)
qed

definition gw_outcome :: "f64 option \<Rightarrow> gw_result \<Rightarrow> bool" where
  "gw_outcome v r \<longleftrightarrow>
     (case v of
        Some x \<Rightarrow> \<exists>vars'. r = Some (Done (vars', Inr (x, [x])))
      | None \<Rightarrow> \<exists>vars' err. r = Some (Done (vars', Inl err)))"

lemma eval_leaf:
  assumes "gx_ok (gx_leaf w xs)" "number_vars vars" "2 < k"
  shows "case gx_value (ee_unfit env) vars (gx_leaf w xs) of
      Some v \<Rightarrow> EvaluateGroundworkExpression env k (gx_text (gx_leaf w xs)) vars n = Some (Done (vars, Inr (v, [v])))
    | None \<Rightarrow> \<exists>err. EvaluateGroundworkExpression env k (gx_text (gx_leaf w xs)) vars n = Some (Done (vars, Inl err))"
proof -
  have "k = Suc (Suc (Suc (k - 3)))" using assms(3) by simp
  then obtain k' where k: "k = Suc (Suc (Suc k'))" ..
  have ok: "w \<noteq> []" "\<forall>c \<in> set w. word_char c" "xs \<noteq> []" "\<forall>x \<in> set xs. gx_name x" using assms(1) by (simp_all add: gx_leaf_ok)
  note j = Join_names [OF ok(3,4)]
  let ?s = "gx_text (gx_leaf w xs)" and ?A = "Join xs [comma]"
  have trim: "TrimSpace ?s = ?s" unfolding TrimSpace_def by (rule Trim_same) (simp_all add: gx_leaf_text ascii_space_def)
  have m: "gw_match ?s" unfolding gx_leaf_text using gw_match_leaf [OF ok(1,2) j(1)] j(2) by blast
  have po: "\<forall>c \<in> set w. c \<noteq> paren_open" using ok(2) by auto
  have name: "takeWhile (\<lambda>c. c \<noteq> paren_open) ?s = ''GW:'' @ w" "butlast (tl (dropWhile (\<lambda>c. c \<noteq> paren_open) ?s)) = ?A"
    using po by (simp_all add: gx_leaf_text takeWhile_append dropWhile_append butlast_append)
  have nm: "\<not> gw_match ?A" using no_colon_no_call(2) [of ?A] j(2) by (auto simp: gw_match_def)
  have sub: "EvaluateGroundworkExpression env (Suc (Suc k')) ?A vars n = gw_loop env (Suc k') ?A vars n"
    using nm j(3) by (simp add: EvaluateGroundworkExpression.simps)
  have val: "gx_value (ee_unfit env) vars (gx_leaf w xs) =
      (case those (map (var_value vars) xs) of None \<Rightarrow> None | Some values \<Rightarrow> gw_apply (ee_unfit env) (''GW:'' @ w) values)"
    by (simp add: gx_leaf_def comp_def)
  have ev: "EvaluateGroundworkExpression env k ?s vars n =
      (case expressionToFuncMap (ee_unfit env) (''GW:'' @ w) of
         None \<Rightarrow> Some (Done (vars, Inl (NoFunction (''GW:'' @ w))))
       | Some function \<Rightarrow>
           (case gw_loop env (Suc k') ?A vars n of
              None \<Rightarrow> None
            | Some r \<Rightarrow> Some (bind_exec r (\<lambda>(vars', x).
                case x of
                  Inl err \<Rightarrow> Done (vars', Inl err)
                | Inr (_, values) \<Rightarrow>
                    if length values \<noteq> expressionToArgsCountMap (''GW:'' @ w) then Done (vars', Inl (ArgumentsCount (''GW:'' @ w)))
                    else bind_exec (function values) (\<lambda>v. Done (vars', Inr (v, [v])))))))"
    unfolding k EvaluateGroundworkExpression.simps(2) [of env "Suc (Suc k')"] Let_def trim name sub using m by simp
  show ?thesis
  proof (cases "those (map (var_value vars) xs)")
    case None
    then show ?thesis using gw_loop_names [OF assms(2) ok(3,4), of env k' n] by (auto simp: val ev split: option.splits)
  next
    case (Some vs)
    then have l: "gw_loop env (Suc k') ?A vars n = Some (Done (vars, Inr (hd vs, vs)))"
      using gw_loop_names [OF assms(2) ok(3,4), of env k' n] by simp
    show ?thesis
    proof (cases "expressionToFuncMap (ee_unfit env) (''GW:'' @ w)")
      case None
      then show ?thesis using Some by (simp add: val ev gw_apply_def)
    next
      case f: (Some f)
      show ?thesis
      proof (cases "length vs = expressionToArgsCountMap (''GW:'' @ w)")
        case True
        then obtain v where "f vs = Done v" using gw_function_returns [OF f] by blast
        then show ?thesis using Some f True l by (simp add: val ev gw_apply_def)
      next
        case False
        then show ?thesis using Some f l by (simp add: val ev gw_apply_def)
      qed
    qed
  qed
qed

lemma digit_word: "d < 10 \<Longrightarrow> word_char (digit_char d)"
  by (simp add: word_char_def digit_char_def)

lemma res_name_ok: "gx_name (res_name n)" "var_name (res_name n) = res_name n"
proof -
  have w: "\<forall>c \<in> set (res_name n). word_char c"
    using set_format_nat digit_word by (fastforce simp: res_name_def word_char_def)
  then show "gx_name (res_name n)" by (simp add: gx_name_def res_name_def)
  have "CHR ''.'' \<notin> set (res_name n)" using w by (auto simp: word_char_def)
  then show "var_name (res_name n) = res_name n" unfolding var_name_def by (intro ReplaceAll_absent) (auto simp: Contains_iff)
qed

lemma res_name_inj: "res_name m = res_name n \<longleftrightarrow> m = n"
  using parse_nat_format_nat by (metis append_same_eq option.inject res_name_def same_append_eq)

lemma gw_loop_tree:
  "gx_ok e \<Longrightarrow> number_vars vars \<Longrightarrow> \<forall>i \<ge> n. res_name i \<notin> gx_vars e \<Longrightarrow> gx_calls e + 3 < k \<Longrightarrow>
    gw_outcome (gx_value (ee_unfit env) vars e) (gw_loop env k (gx_text e) vars n)"
proof (induction "gx_calls e" arbitrary: e vars n k rule: less_induct)
  case less
  obtain k' where k: "k = Suc k'" using less.prems(4) by (cases k) auto
  show ?case
  proof (cases "gx_calls e = 0")
    case True
    then obtain x where x: "e = V x" using gx_calls_0 by blast
    then show ?thesis using gw_loop_names [OF less.prems(2), of "[x]" env k' n] less.prems(1)
      by (auto simp: k gw_outcome_def split: option.splits)
  next
    case False
    then obtain w xs pre post where
      d: "gx_text e = pre @ gx_text (gx_leaf w xs) @ post" "gx_leaf w xs \<in> gx_subs e" "CHR '':'' \<notin> set post"
      using last_leaf [OF less.prems(1)] by auto
    let ?l = "gx_leaf w xs" and ?x = "res_name n"
    have l: "gx_ok ?l" using gx_ok_subs [OF less.prems(1) d(2)] .
    have lw: "\<forall>c \<in> set w. word_char c" "xs \<noteq> []" "\<forall>x \<in> set xs. gx_name x" using l by (simp_all add: gx_leaf_ok)
    have ct: "Contains (gx_text e) ''GW:''" unfolding d(1) gx_leaf_text Contains_iff by (metis append_assoc)
    have "last_call_text (pre @ ''GW:'' @ w @ paren_open # Join xs [comma] @ [paren_close] @ post) = gx_text ?l"
      unfolding gx_leaf_text using lw Join_names(2) [OF lw(2,3)] d(3) by (intro last_call_text_is) auto
    then have lc: "last_call_text (gx_text e) = gx_text ?l" by (simp add: d(1) gx_leaf_text)
    have k3: "2 < k'" using less.prems(4) k by simp
    show ?thesis
    proof (cases "gx_value (ee_unfit env) vars ?l")
      case None
      then obtain err where "EvaluateGroundworkExpression env k' (gx_text ?l) vars n = Some (Done (vars, Inl err))"
        using eval_leaf [OF l less.prems(2) k3, of env n] by auto
      then show ?thesis using gx_value_None [OF d(2) None] ct lc by (simp add: k gw_loop.simps gw_outcome_def)
    next
      case (Some v)
      let ?e = "gx_subst ?l ?x e" and ?vars = "vars(?x \<mapsto> VFloat v)"
      have "replace_all (gx_text e) (gx_text ?l) ?x = gx_text ?e"
        using ReplaceAll_call [OF l refl less.prems(1), of "[]" ?x] by (simp add: replace_all_def gx_leaf_text)
      moreover have "EvaluateGroundworkExpression env k' (gx_text ?l) vars n = Some (Done (vars, Inr (v, [v])))"
        using eval_leaf [OF l less.prems(2) k3, of env n] Some by simp
      ultimately have step: "gw_loop env k (gx_text e) vars n = gw_loop env k' (gx_text ?e) ?vars (n + 1)"
        using ct lc by (simp add: k gw_loop.simps Let_def)
      have fresh: "?x \<notin> gx_vars e" using less.prems(3) by blast
      have val: "gx_value (ee_unfit env) ?vars ?e = gx_value (ee_unfit env) vars e"
        using gx_value_subst [OF Some, of ?x e] fresh by (simp add: res_name_ok(2))
      have "gx_calls ?e < gx_calls e" using gx_calls_subst_less [OF d(2)] by (simp add: gx_leaf_def)
      moreover have "gx_ok ?e" using gx_ok_subst [OF less.prems(1) res_name_ok(1)] .
      moreover have "number_vars ?vars" using less.prems(2) by (simp add: number_vars_def)
      moreover have "\<forall>i \<ge> n + 1. res_name i \<notin> gx_vars ?e"
      proof (intro allI impI)
        fix i
        assume "i \<ge> n + 1"
        then have "res_name i \<noteq> ?x" "res_name i \<notin> gx_vars e" using less.prems(3) by (simp_all add: res_name_inj)
        then show "res_name i \<notin> gx_vars ?e" using gx_vars_subst [of ?l ?x e] unfolding res_name_ok(2) by blast
      qed
      ultimately have "gw_outcome (gx_value (ee_unfit env) ?vars ?e) (gw_loop env k' (gx_text ?e) ?vars (n + 1))"
        using less.prems(4) k by (intro less.hyps) auto
      then show ?thesis unfolding step val .
    qed
  qed
qed

lemma gx_text_Trim: "gx_ok e \<Longrightarrow> TrimSpace (gx_text e) = gx_text e"
  by (cases e) (simp_all add: gx_name_Trim, simp add: TrimSpace_def Trim_same ascii_space_def)

lemma gx_evaluates:
  assumes "gx_ok e" "number_vars vars" "\<forall>i. res_name i \<notin> gx_vars e" "gx_calls e + 4 < fuel"
  shows "gw_outcome (gx_value (ee_unfit env) vars e) (EvaluateGroundworkExpression env fuel (gx_text e) vars 0)"
proof -
  obtain k where k: "fuel = Suc k" using assms(4) by (cases fuel) auto
  show ?thesis
  proof (cases "gw_match (gx_text e)")
    case True
    then obtain w as where e: "e = C w as" using assms(1) no_colon_no_call(2) gx_name_chars by (cases e) (fastforce simp: gw_match_def)+
    have ok: "w \<noteq> []" "\<forall>c \<in> set w. word_char c" "as \<noteq> []" "\<forall>a \<in> set as. gx_ok a" using assms(1) e by auto
    let ?A = "Join (map gx_text as) [comma]"
    have "?A \<noteq> []" using ok(3,4) by (cases as; cases "hd as") (auto simp: Join_Cons gx_name_def)
    then have "paren_open \<notin> set ?A" "paren_close \<notin> set ?A" using gw_match_leaf [OF ok(1,2)] True e by auto
    then have "dropWhile no_paren (?A @ [paren_close]) = [paren_close]" by (simp add: dropWhile_append) (metis)
    then have "\<forall>a \<in> set as. gx_calls a = 0" using first_paren [OF ok(4,3), of "[]"] by (auto split: if_splits)
    then obtain ys where "as = map V ys" using all_vars by blast
    then have l: "e = gx_leaf w ys" using e by (simp add: gx_leaf_def)
    then show ?thesis using eval_leaf [of w ys vars fuel env 0] assms by (auto simp: gw_outcome_def split: option.splits)
  next
    case False
    then have "EvaluateGroundworkExpression env fuel (gx_text e) vars 0 = gw_loop env k (gx_text e) vars 0"
      by (simp add: k EvaluateGroundworkExpression.simps gx_text_Trim [OF assms(1)])
    then show ?thesis using gw_loop_tree [OF assms(1,2), of 0 k env] assms(3,4) k by simp
  qed
qed

text \<open>
  C9. The evaluator agrees with the reference on every nested call of functions on variables: with more fuel than
  there are calls it returns the value of the tree, and an error exactly when the tree has no value (an unknown
  function, a wrong number of arguments, an undefined variable).  Variables hold numbers, and none is named like
  the results the evaluator stores.
\<close>

theorem EvaluateGroundworkExpression_value:
  assumes "gx_ok e" "number_vars vars" "\<forall>i. res_name i \<notin> gx_vars e" "gx_calls e + 4 < fuel"
  shows "gw_outcome (gx_value (ee_unfit env) vars e) (EvaluateGroundworkExpression env fuel (gx_text e) vars 0)"
  by (rule gx_evaluates [OF assms])

subsection \<open>Expressions that are never evaluated\<close>

text \<open>A call whose text up to the first closing parenthesis is not a call without inner parentheses is its own last call.\<close>

lemma own_last_call:
  assumes "s = ''GW:'' @ r" "CHR '':'' \<notin> set r" "last_call_text s = s" "\<not> gw_match s" "TrimSpace s = s"
  shows "EvaluateGroundworkExpression env k s vars n = None \<and> gw_loop env k s vars n = None"
proof (induction k)
  case (Suc k)
  have "Contains s ''GW:''" using assms(1) by (auto simp: Contains_iff intro: exI [of _ "[]"])
  then show ?case using Suc assms(3,4,5) by (simp add: EvaluateGroundworkExpression.simps(2) gw_loop.simps(2))
qed (simp add: EvaluateGroundworkExpression.simps gw_loop.simps)

text \<open>
  A call with a parenthesis inside its arguments, such as \<open>GW:KB((a+b)*2)\<close>, makes the evaluator call itself with
  the same text again and again: no amount of fuel is enough, and the Go program overflows its stack.
\<close>

theorem parentheses_never_end:
  assumes "w \<noteq> []" "\<forall>c \<in> set w. word_char c" "CHR '':'' \<notin> set (a @ b @ rest)" "paren_close \<notin> set (a @ b)"
    and "rest = [] \<or> last rest \<notin> ascii_space"
  shows "EvaluateGroundworkExpression env fuel (''GW:'' @ w @ paren_open # a @ paren_open # b @ paren_close # rest) vars n = None"
proof -
  let ?A = "a @ paren_open # b"
  let ?s = "''GW:'' @ w @ paren_open # ?A @ [paren_close]"
  have w: "CHR '':'' \<notin> set w" "paren_close \<notin> set w" using assms(2) by auto
  have lc: "last_call_text ([] @ ''GW:'' @ w @ paren_open # ?A @ [paren_close] @ post) = ?s" if "CHR '':'' \<notin> set post" for post
    using that w assms(3,4) by (intro last_call_text_is) auto
  have nm: "\<not> gw_match (''GW:'' @ w @ paren_open # ?A @ paren_close # post)" for post
  proof -
    have "dropWhile word_char (w @ paren_open # r) = paren_open # r" for r using assms(2) by (simp add: dropWhile_append)
    then show ?thesis by (auto simp: gw_match_def butlast_append)
  qed
  have tr: "TrimSpace (''GW:'' @ w @ paren_open # ?A @ paren_close # post) = ''GW:'' @ w @ paren_open # ?A @ paren_close # post"
    if "post = [] \<or> last post \<notin> ascii_space" for post
    using that unfolding TrimSpace_def by (intro Trim_same) (auto simp: ascii_space_def)
  have "EvaluateGroundworkExpression env k ?s vars n = None \<and> gw_loop env k ?s vars n = None" for k
    using lc [of "[]"] nm [of "[]"] tr [of "[]"] w assms(3)
    by (intro own_last_call [of _ "w @ paren_open # ?A @ [paren_close]"]) simp_all
  moreover have "Contains (''GW:'' @ w @ paren_open # ?A @ paren_close # rest) ''GW:''"
    unfolding Contains_iff by (intro exI [of _ "[]"] exI [of _ "w @ paren_open # ?A @ paren_close # rest"]) simp
  ultimately have loop: "gw_loop env k (''GW:'' @ w @ paren_open # ?A @ paren_close # rest) vars n = None" for k
    using lc [of rest] assms(3) by (cases k) (simp_all add: gw_loop.simps)
  show ?thesis using loop nm [of rest] tr [OF assms(5)] by (cases fuel) (simp_all add: EvaluateGroundworkExpression.simps)
qed

subsection \<open>Percentages\<close>

lemma half_percent_range: "\<exists>h. half_percent = FFin h \<and> 0 \<le> h \<and> h \<le> 1"
  using f64_of_rat_bound [of "49 / 100" 1] by (simp add: half_percent_def)

lemma ToPercentage_range:
  assumes "0 \<le> u" "u \<le> 1"
  shows "\<exists>v. ToPercentage [FFin u] = Done (FFin v) \<and> 0 \<le> v \<and> v \<le> 101"
proof -
  obtain h where h: "half_percent = FFin h" "0 \<le> h" "h \<le> 1" using half_percent_range by blast
  obtain p where p: "round64 False (u * 100) = FFin p" "0 \<le> p" "p \<le> 100"
    using round64_bound [of "u * 100" 100] assms by fastforce
  then have m: "f64_mul (FFin u) (FFin 100) = FFin p" using assms by (simp add: f64_mul_def)
  obtain v where "f64_of_rat (p + h) = FFin v" "0 \<le> v" "v \<le> 101"
    using f64_of_rat_bound [of "p + h" 101] p h by fastforce
  then show ?thesis using p(2) by (simp add: ToPercentage_def MaxFloat_def f64_add_def m h(1))
qed

lemma scaled_usage_range:
  assumes "0 \<le> u" "u \<le> a" "round64 False u = FFin u"
  shows "\<exists>v. scaled_usage (FFin u) (FFin a) (FFin 1) (FFin 0) = FFin v \<and> 0 \<le> v \<and> v \<le> 1"
proof (cases "u = 0")
  case True
  then show ?thesis by (simp add: scaled_usage_def f64_mul_def round64_def signed_zero_def)
next
  case False
  then have "0 \<le> u / a" "u / a \<le> 1" "0 < a" using assms by auto
  then obtain v where "round64 False (u / a) = FFin v" "0 \<le> v" "v \<le> 1" using round64_bound [of "u / a" 1] by fastforce
  then show ?thesis using assms False \<open>0 < a\<close> by (simp add: scaled_usage_def f64_mul_def f64_div_def)
qed


subsection \<open>Concrete expressions\<close>

definition demo_expr_env :: expr_env where
  "demo_expr_env = \<lparr>ee_gval = (\<lambda>_ _. Inr None), ee_unfit = (\<lambda>_. 0)\<rparr>"

definition demo_gx :: gx where
  "demo_gx = C ''maxInt'' [C ''minInt'' [V ''a'', V ''b''], C ''toDouble'' [V ''c'']]"

definition demo_vars :: gw_vars where
  "demo_vars = [''a'' \<mapsto> VFloat (FFin 3), ''b'' \<mapsto> VFloat (FFin 5), ''c'' \<mapsto> VFloat (FFin 4)]"

theorem EvaluateGroundworkExpression_value_witness:
  "\<exists>vars'. EvaluateGroundworkExpression demo_expr_env 8 ''GW:maxInt(GW:minInt(a,b),GW:toDouble(c))'' demo_vars 0 =
     Some (Done (vars', Inr (FFin 4, [FFin 4])))"
proof -
  have t: "gx_text demo_gx = ''GW:maxInt(GW:minInt(a,b),GW:toDouble(c))''" by (simp add: demo_gx_def)
  have n: "var_name ''a'' = ''a''" "var_name ''b'' = ''b''" "var_name ''c'' = ''c''" by (simp_all add: var_name_def HasPrefix_Cons)
  have v: "gx_value u demo_vars demo_gx = Some (FFin 4)" for u
    by (simp add: demo_gx_def n demo_vars_def var_value_def gw_apply_def expressionToFuncMap_def gw_functions_def
        expressionToArgsCountMap_def gw_args_counts_def MaxInt_def MinInt_def IntToDouble_def)
  have "gx_ok demo_gx" by (simp add: demo_gx_def gx_name_def word_char_def)
  moreover have "number_vars demo_vars" by (simp add: number_vars_def demo_vars_def)
  moreover have "\<forall>i. res_name i \<notin> gx_vars demo_gx" by (auto simp: demo_gx_def n res_name_def)
  ultimately show ?thesis
    using EvaluateGroundworkExpression_value [of demo_gx demo_vars 8 demo_expr_env] v
    by (simp add: t gw_outcome_def) (simp add: demo_gx_def)
qed

theorem parentheses_never_end_witness:
  "\<forall>fuel. EvaluateGroundworkExpression demo_expr_env fuel ''GW:KB((a+b)*2)'' demo_vars 0 = None"
proof
  fix fuel
  show "EvaluateGroundworkExpression demo_expr_env fuel ''GW:KB((a+b)*2)'' demo_vars 0 = None"
    using parentheses_never_end [of "''KB''" "[]" "''a+b''" "''*2)''" demo_expr_env fuel demo_vars 0]
    by (simp add: word_char_def ascii_space_def)
qed


end
