(* ===== verification/Status_Text.thy ===== *)
theory Status_Text
  imports Go_Float_Arith Transit_Status Config
begin

text \<open>
  Texts that connectors put into the output of services, \<^verbatim>\<open>connectors/connectors.go\<close>: durations, sanitized
  names, the message templates with \<open>{value}\<close> and \<open>{interval}\<close>, and the summary of thresholds.  Decimal texts are
  parsed as \<open>strconv.ParseFloat\<close> does; hexadecimal ones, which no formatted value has, are a parameter.
\<close>

subsection \<open>Durations\<close>

definition Minute :: duration where "Minute = 60 * Second"
definition Hour :: duration where "Hour = 60 * Minute"

text \<open>\<open>Duration.Hours\<close> and its like: whole units plus the rest divided by the unit, in \<open>float64\<close>.\<close>

definition tquot :: "int \<Rightarrow> int \<Rightarrow> int" where "tquot a b = sgn a * (\<bar>a\<bar> div b)"
definition trem :: "int \<Rightarrow> int \<Rightarrow> int" where "trem a b = sgn a * (\<bar>a\<bar> mod b)"

definition duration_units :: "duration \<Rightarrow> duration \<Rightarrow> f64" where
  "duration_units u d = f64_add (f64_of_int (tquot d u)) (f64_div (f64_of_int (trem d u)) (f64_of_int u))"

text \<open>The format \<open>%.0f\<close>.\<close>

fun Sprintf_f0 :: "f64 \<Rightarrow> bytes" where
  "Sprintf_f0 FNaN = ''NaN''"
| "Sprintf_f0 (FInf neg) = (if neg then ''-Inf'' else ''+Inf'')"
| "Sprintf_f0 FNegZero = ''-0''"
| "Sprintf_f0 (FFin r) =
     (if r < 0 then ''-'' @ format_nat (nat (round_half_even (- r))) else format_nat (nat (round_half_even r)))"

text \<open>\<open>time.ParseDuration\<close> of such a text with the unit h; a value that does not fit is an error, and the zero duration.\<close>

definition parse_hours :: "f64 \<Rightarrow> duration" where
  "parse_hours h =
     (case f64_val h of
        None \<Rightarrow> 0
      | Some r \<Rightarrow> let n = (if r < 0 then - round_half_even (- r) else round_half_even r) * Hour
                  in if n > MaxInt64 \<or> n < - MaxInt64 - 1 then 0 else n)"

definition FormatTimeForStatusMessage :: "duration \<Rightarrow> duration \<Rightarrow> bytes" where
  "FormatTimeForStatusMessage value minRound =
     (let h = duration_units Hour value; m = duration_units Minute value; s = duration_units Second value in
      if f64_lt (FFin 3) h \<or> minRound > Minute
      then (if f64_lt h (FFin 73) then Sprintf_f0 h @ '' hour(s)''
            else Sprintf_f0 (f64_div (duration_units Hour (parse_hours h)) (FFin 24)) @ '' day(s)'')
      else if f64_lt (FFin 3) m \<or> minRound > Second then Sprintf_f0 m @ '' minute(s)''
      else Sprintf_f0 s @ '' second(s)'')"

subsection \<open>Names\<close>

text \<open>
  The characters the pattern \<^verbatim>\<open>[^\w-_.:]\<close> leaves alone.  A character beyond ASCII is several bytes here and gives
  several underscores, which the removal of duplicates makes one.
\<close>

definition name_char :: "char \<Rightarrow> bool" where
  "name_char c \<longleftrightarrow>
     (let n = (of_char c :: nat) in 48 \<le> n \<and> n \<le> 57 \<or> 65 \<le> n \<and> n \<le> 90 \<or> n = 95 \<or> 97 \<le> n \<and> n \<le> 122) \<or>
     c = CHR ''-'' \<or> c = CHR ''.'' \<or> c = CHR '':''"

fun underscore_dups :: "char option \<Rightarrow> bytes \<Rightarrow> bytes" where
  "underscore_dups prev [] = []"
| "underscore_dups prev (c # cs) =
     (if prev \<noteq> Some c \<or> c \<noteq> CHR ''_'' then c # underscore_dups (Some c) cs else underscore_dups prev cs)"

definition removeUnderscoreDuplicates :: "bytes \<Rightarrow> bytes" where
  "removeUnderscoreDuplicates s = underscore_dups None s"

definition SanitizeString :: "bytes \<Rightarrow> bytes exec" where
  "SanitizeString s =
     (let str = removeUnderscoreDuplicates (map (\<lambda>c. if name_char c then c else CHR ''_'') s) in
      if str = [] then Panic SliceBounds
      else Done (if last str = CHR ''_'' then butlast str else str))"

subsection \<open>Values as text\<close>

datatype text_error = NoValue | UnknownValueType | NotSupported

definition getValueText :: "TypedValue option \<Rightarrow> (text_error + bytes) exec" where
  "getValueText v =
     (case v of
        None \<Rightarrow> Done (Inl NoValue)
      | Some t \<Rightarrow>
          let ty = tv_ValueType t in
          if ty = IntegerType then bind_exec (deref (tv_IntegerValue t)) (\<lambda>i. Done (Inr (FormatInt i)))
          else if ty = DoubleType then bind_exec (deref (tv_DoubleValue t)) (\<lambda>d. Done (Inr (Sprintf_f d)))
          else if ty = StringType then bind_exec (deref (tv_StringValue t)) (\<lambda>s. Done (Inr s))
          else if ty = BooleanType then bind_exec (deref (tv_BoolValue t)) (\<lambda>b. Done (Inr (FormatBool b)))
          else if ty = TimeType then bind_exec (deref (tv_TimeValue t)) (\<lambda>ts. Done (Inr (FormatTimeForStatusMessage ts Second)))
          else Done (Inl UnknownValueType))"

definition extractValueForStatusText :: "MonitoredService \<Rightarrow> (text_error + bytes) exec" where
  "extractValueForStatusText service =
     (case ms_Metrics service of [m] \<Rightarrow> getValueText (ts_Value m) | _ \<Rightarrow> Done (Inl NotSupported))"

definition extractIntervalForStatusText :: "duration \<Rightarrow> bytes" where
  "extractIntervalForStatusText CheckInterval = FormatTimeForStatusMessage CheckInterval Minute"

subsection \<open>Parsing of numbers\<close>

text \<open>A decimal number: digits with an optional point, and an optional exponent.\<close>

definition is_digit :: "char \<Rightarrow> bool" where
  "is_digit c \<longleftrightarrow> char_digit c \<noteq> None"

definition digits_value :: "bytes \<Rightarrow> nat" where
  "digits_value s = (case parse_digits 0 s of None \<Rightarrow> 0 | Some n \<Rightarrow> n)"

text \<open>A leading sign, and what follows.\<close>

definition signed_text :: "bytes \<Rightarrow> bool \<times> bytes" where
  "signed_text s =
     (if s \<noteq> [] \<and> hd s = CHR ''-'' then (True, tl s) else if s \<noteq> [] \<and> hd s = CHR ''+'' then (False, tl s) else (False, s))"

definition parse_exponent :: "bytes \<Rightarrow> int option" where
  "parse_exponent s =
     (case s of
        [] \<Rightarrow> Some 0
      | c # cs \<Rightarrow>
          if c \<in> {CHR ''e'', CHR ''E''}
          then (let (neg, ds) = signed_text cs in map_option (\<lambda>n. if neg then - int n else int n) (parse_nat ds))
          else None)"

definition pow10 :: "int \<Rightarrow> rat" where
  "pow10 e = (if e \<ge> 0 then 10 ^ nat e else 1 / 10 ^ nat (- e))"

definition parse_decimal :: "bytes \<Rightarrow> rat option" where
  "parse_decimal s =
     (let ip = takeWhile is_digit s; r1 = dropWhile is_digit s;
          fp = (if r1 \<noteq> [] \<and> hd r1 = CHR ''.'' then takeWhile is_digit (tl r1) else []);
          r2 = (if r1 \<noteq> [] \<and> hd r1 = CHR ''.'' then dropWhile is_digit (tl r1) else r1)
      in if ip = [] \<and> fp = [] then None
         else map_option (\<lambda>e. of_nat (digits_value (ip @ fp)) * pow10 (e - int (length fp))) (parse_exponent r2))"

definition ParseFloat :: "(bytes \<Rightarrow> f64 option) \<Rightarrow> bytes \<Rightarrow> f64 option" where
  "ParseFloat hex s =
     (let (neg, t) = signed_text s in
      if ToLower t \<in> {''inf'', ''infinity''} then Some (FInf neg)
      else if ToLower s = ''nan'' then Some FNaN
      else if HasPrefix (ToLower t) ''0x'' then hex s
      else case parse_decimal t of
        None \<Rightarrow> None
      | Some r \<Rightarrow> (case round64 neg r of FInf _ \<Rightarrow> None | x \<Rightarrow> Some x))"

subsection \<open>Thresholds\<close>

definition noneThresholdText :: bytes where "noneThresholdText = ''-1''"

text \<open>The texts of the last readable warning and critical threshold.\<close>

fun threshold_texts :: "ThresholdValue list \<Rightarrow> bytes \<Rightarrow> bytes \<Rightarrow> (bytes \<times> bytes) exec" where
  "threshold_texts [] wt crt = Done (wt, crt)"
| "threshold_texts (th # ths) wt crt =
     (if th_SampleType th = SampleWarning \<or> th_SampleType th = SampleCritical
      then bind_exec (getValueText (th_Value th)) (\<lambda>r.
             case r of
               Inl _ \<Rightarrow> threshold_texts ths wt crt
             | Inr value \<Rightarrow>
                 if th_SampleType th = SampleWarning then threshold_texts ths value crt else threshold_texts ths wt value)
      else threshold_texts ths wt crt)"

definition th_text :: "bytes \<Rightarrow> bytes \<Rightarrow> bytes \<Rightarrow> bytes" where
  "th_text name val rest = '' | ['' @ name @ ''] [VAL='' @ val @ ''] ['' @ rest @ '']''"

text \<open>What is added for a metric; \<open>None\<close> when the code skips the metric with \<open>continue\<close>.\<close>

definition metric_th_text :: "(bytes \<Rightarrow> f64 option) \<Rightarrow> bytes \<Rightarrow> bytes \<Rightarrow> bytes \<Rightarrow> bytes \<Rightarrow> bytes option" where
  "metric_th_text hex name mValText wt crt =
     (case ParseFloat hex mValText of
        None \<Rightarrow> None
      | Some metricVal \<Rightarrow>
          if noneThresholdText \<noteq> wt \<and> noneThresholdText \<noteq> crt then
            (case (ParseFloat hex wt, ParseFloat hex crt) of
               (Some wtVal, Some crtVal) \<Rightarrow>
                 Some (if f64_le wtVal metricVal \<and> f64_le crtVal metricVal then th_text name mValText (''W/C='' @ wt @ ''/'' @ crt)
                       else if f64_le crtVal metricVal then th_text name mValText (''Crit='' @ crt)
                       else if f64_le wtVal metricVal then th_text name mValText (''Warn='' @ wt)
                       else [])
             | _ \<Rightarrow> None)
          else if noneThresholdText \<noteq> wt then
            (case ParseFloat hex wt of
               Some wtVal \<Rightarrow> Some (if f64_le wtVal metricVal then th_text name mValText (''Warn='' @ wt) else [])
             | None \<Rightarrow> None)
          else if noneThresholdText \<noteq> crt then
            (case ParseFloat hex crt of
               Some crtVal \<Rightarrow> Some (if f64_le crtVal metricVal then th_text name mValText (''Crit='' @ wt) else [])
             | None \<Rightarrow> None)
          else Some [])"

fun thresholds_loop :: "(bytes \<Rightarrow> f64 option) \<Rightarrow> TimeSeries list \<Rightarrow> bytes \<Rightarrow> bytes exec" where
  "thresholds_loop hex [] statusText = Done statusText"
| "thresholds_loop hex (metric # ms) statusText =
     bind_exec (getValueText (ts_Value metric)) (\<lambda>r.
       case r of
         Inl _ \<Rightarrow> thresholds_loop hex ms statusText
       | Inr mValText \<Rightarrow>
           if ts_Thresholds metric = [] then thresholds_loop hex ms statusText
           else bind_exec (threshold_texts (ts_Thresholds metric) noneThresholdText noneThresholdText) (\<lambda>(wt, crt).
                  case metric_th_text hex (ts_MetricName metric) mValText wt crt of
                    None \<Rightarrow> thresholds_loop hex ms statusText
                  | Some thText \<Rightarrow> thresholds_loop hex ms (statusText @ thText)))"

definition addThresholdsToStatusText :: "(bytes \<Rightarrow> f64 option) \<Rightarrow> bytes \<Rightarrow> MonitoredService \<Rightarrow> bytes exec" where
  "addThresholdsToStatusText hex statusText service =
     bind_exec (thresholds_loop hex (ms_Metrics service) statusText) (\<lambda>t. Done (TrimPrefix t '' | ''))"

subsection \<open>Templates\<close>

text \<open>All matches of the pattern \<^verbatim>\<open>\{(.*?)\}\<close>; the dot does not match a line feed.\<close>

fun find_patterns :: "bytes \<Rightarrow> bytes list" where
  "find_patterns [] = []"
| "find_patterns (c # cs) =
     (let body = takeWhile (\<lambda>x. x \<noteq> CHR ''}'' \<and> x \<noteq> CHR 0x0A) cs; rest = drop (length body) cs in
      if c = CHR ''{'' \<and> rest \<noteq> [] \<and> hd rest = CHR ''}''
      then (CHR ''{'' # body @ ''}'') # find_patterns (tl rest)
      else find_patterns cs)"

definition statusTextValGetter :: "duration \<Rightarrow> bytes \<Rightarrow> MonitoredService \<Rightarrow> (text_error + bytes) exec option" where
  "statusTextValGetter CheckInterval pattern service =
     (if pattern = ''{value}'' then Some (extractValueForStatusText service)
      else if pattern = ''{interval}'' then Some (Done (Inr (extractIntervalForStatusText CheckInterval)))
      else None)"

fun fill_template :: "duration \<Rightarrow> MonitoredService \<Rightarrow> bytes list \<Rightarrow> bytes \<Rightarrow> bytes exec" where
  "fill_template ci service [] msg = Done msg"
| "fill_template ci service (p # ps) msg =
     (case statusTextValGetter ci p service of
        None \<Rightarrow> fill_template ci service ps msg
      | Some r \<Rightarrow> bind_exec r (\<lambda>x. case x of
            Inl _ \<Rightarrow> fill_template ci service ps msg
          | Inr replacement \<Rightarrow> fill_template ci service ps (ReplaceAll msg p replacement)))"

definition addServiceStatusText :: "(bytes \<Rightarrow> f64 option) \<Rightarrow> duration \<Rightarrow> bytes \<Rightarrow> MonitoredService \<Rightarrow> MonitoredService exec" where
  "addServiceStatusText hex CheckInterval patternMessage service =
     bind_exec (fill_template CheckInterval service (find_patterns patternMessage) patternMessage) (\<lambda>msg.
     bind_exec (addThresholdsToStatusText hex msg service) (\<lambda>statusText.
       Done (service\<lparr>ms_MonitoredInfo := (ms_MonitoredInfo service)\<lparr>mi_LastPluginOutput := statusText\<rparr>\<rparr>)))"

subsection \<open>Hosts\<close>

definition count_status :: "(bytes \<Rightarrow> bool) \<Rightarrow> MonitoredService list \<Rightarrow> nat" where
  "count_status P services = length (filter (\<lambda>s. P (mi_Status (ms_MonitoredInfo s))) services)"

definition buildHostStatusText :: "MonitoredService list \<Rightarrow> bytes" where
  "buildHostStatusText services =
     (let ok = count_status (\<lambda>s. s = ServiceOk) services;
          warn = count_status (\<lambda>s. s = ServiceWarning) services;
          critical = count_status (\<lambda>s. s = ServiceScheduledCritical \<or> s = ServiceUnscheduledCritical) services;
          other = count_status (\<lambda>s. s \<notin> {ServiceOk, ServiceWarning, ServiceScheduledCritical, ServiceUnscheduledCritical}) services
      in ''Host has '' @ format_nat ok @ '' OK, '' @ format_nat warn @ '' WARNING, '' @ format_nat critical @ '' CRITICAL and '' @
         format_nat other @ '' other services.'')"

subsection \<open>Sanitized names\<close>

fun no_double :: "bytes \<Rightarrow> bool" where
  "no_double (c # d # cs) = (\<not> (c = CHR ''_'' \<and> d = CHR ''_'') \<and> no_double (d # cs))"
| "no_double _ = True"

definition clean_name :: "bytes \<Rightarrow> bool" where
  "clean_name s \<longleftrightarrow> (\<forall>c \<in> set s. name_char c) \<and> no_double s \<and> (s \<noteq> [] \<longrightarrow> last s \<noteq> CHR ''_'')"

lemma no_double_Cons: "no_double (c # s) \<longleftrightarrow> no_double s \<and> (c = CHR ''_'' \<longrightarrow> s = [] \<or> hd s \<noteq> CHR ''_'')"
  by (cases s) auto

lemma underscore_dups_set: "set (underscore_dups p s) \<subseteq> set s"
  by (induction s arbitrary: p) auto

lemma underscore_dups_no_double:
  "no_double (underscore_dups p s) \<and> (p = Some (CHR ''_'') \<longrightarrow> underscore_dups p s = [] \<or> hd (underscore_dups p s) \<noteq> CHR ''_'')"
  by (induction s arbitrary: p) (auto simp: no_double_Cons)

lemma underscore_dups_same:
  "no_double s \<Longrightarrow> p = Some (CHR ''_'') \<longrightarrow> s = [] \<or> hd s \<noteq> CHR ''_'' \<Longrightarrow> underscore_dups p s = s"
  by (induction s arbitrary: p) (auto simp: no_double_Cons)

lemma no_double_butlast: "no_double s \<Longrightarrow> no_double (butlast s)"
  by (induction s rule: no_double.induct) (auto simp: no_double_Cons)

lemma no_double_last2: "no_double (s @ [CHR ''_'']) \<Longrightarrow> s = [] \<or> last s \<noteq> CHR ''_''"
  by (induction s rule: no_double.induct) auto

lemma name_char_underscore [simp]: "name_char (CHR ''_'')"
  by (simp add: name_char_def)

text \<open>
  A sanitized name has only letters, digits, underscores, minus signs, points and colons, no two underscores in a
  row and none at the end; a name that is so already is left as it is; only the empty name makes the function
  panic.
\<close>

theorem SanitizeString_cleans:
  shows "(\<exists>r. SanitizeString s = Done r \<and> clean_name r \<and> (clean_name s \<longrightarrow> r = s)) \<longleftrightarrow> s \<noteq> []"
proof (cases "s = []")
  case True
  then show ?thesis by (simp add: SanitizeString_def removeUnderscoreDuplicates_def)
next
  case False
  define m where "m = map (\<lambda>c. if name_char c then c else CHR ''_'') s"
  define str where "str = underscore_dups None m"
  have ne: "str \<noteq> []" using False by (cases s) (simp_all add: str_def m_def)
  have set: "\<forall>c \<in> set str. name_char c" using underscore_dups_set [of None m] by (auto simp: str_def m_def)
  have nd: "no_double str" using underscore_dups_no_double [of None m] by (simp add: str_def)
  have r: "SanitizeString s = Done (if last str = CHR ''_'' then butlast str else str)"
    using ne by (simp add: SanitizeString_def removeUnderscoreDuplicates_def str_def m_def)
  have "clean_name (if last str = CHR ''_'' then butlast str else str)"
  proof (cases "last str = CHR ''_''")
    case True
    then have "str = butlast str @ [CHR ''_'']" using ne by (metis append_butlast_last_id)
    then have "butlast str = [] \<or> last (butlast str) \<noteq> CHR ''_''" using no_double_last2 [of "butlast str"] nd by metis
    then show ?thesis using True set no_double_butlast [OF nd] by (auto simp: clean_name_def dest: in_set_butlastD)
  next
    case False
    then show ?thesis using set nd by (simp add: clean_name_def)
  qed
  moreover have "(if last str = CHR ''_'' then butlast str else str) = s" if c: "clean_name s"
  proof -
    have "m = s" using c by (simp add: m_def clean_name_def map_idI)
    then have "str = s" using c underscore_dups_same [of s None] by (simp add: str_def clean_name_def)
    then show ?thesis using c ne by (simp add: clean_name_def)
  qed
  ultimately show ?thesis using r False by auto
qed

theorem SanitizeString_cleans_witness: "SanitizeString ''a_b.c'' = Done ''a_b.c''"
proof -
  have "clean_name ''a_b.c''" by (simp add: clean_name_def name_char_def)
  then show ?thesis using SanitizeString_cleans [of "''a_b.c''"] by auto
qed

subsection \<open>Durations in whole units\<close>

lemma duration_units_bound:
  assumes "0 \<le> d" "d \<le> c * u" "0 < u" "u < 2 ^ 53" "c < 2 ^ 53"
  shows "\<exists>v. duration_units u d = FFin v \<and> 0 \<le> v \<and> v \<le> of_int c \<and> (d = n * u \<longrightarrow> v = of_int n)"
proof -
  let ?q = "d div u" and ?r = "d mod u"
  have q: "0 \<le> ?q" "?q \<le> c" using assms(1,2,3) zdiv_mono1 [OF assms(2,3)] by (simp_all add: pos_imp_zdiv_nonneg_iff)
  have r: "0 \<le> ?r" "?r < u" using assms(3) by simp_all
  have t: "tquot d u = ?q" "trem d u = ?r" using assms(1,3) by (cases "d = 0"; simp add: tquot_def trem_def)+
  have fl: "f64_of_int ?q = FFin (of_int ?q)" "f64_of_int ?r = FFin (of_int ?r)" "f64_of_int u = FFin (of_int u)"
    using q r assms(3,4,5) by (intro f64_of_int_exact; linarith)+
  have fr: "0 \<le> (of_int ?r / of_int u :: rat)" "(of_int ?r / of_int u :: rat) \<le> of_int 1"
    using r by (simp_all add: divide_le_eq_1)
  obtain f where f: "round64 False (of_int ?r / of_int u) = FFin f" "0 \<le> f" "f \<le> 1" "?r = 0 \<longrightarrow> f = 0"
    using round64_bound [OF fr, of 0] by auto
  have dv: "f64_div (FFin (of_int ?r)) (FFin (of_int u)) = FFin f" using f(1) r(1) assms(3) by (simp add: f64_div_def not_less)
  have sum: "0 \<le> of_int ?q + f" "of_int ?q + f \<le> of_int c"
  proof -
    show "0 \<le> of_int ?q + f" using q f by simp
    consider "?q < c" | "?q = c" "?r = 0"
    proof (cases "?q = c")
      case True
      then have "c * u + ?r = d" by (metis mult.commute mult_div_mod_eq)
      then show ?thesis using that(2) True assms(2) r by simp
    next
      case False
      then show ?thesis using that(1) q by simp
    qed
    then show "of_int ?q + f \<le> of_int c"
    proof cases
      case 1
      then have "(of_int (?q + 1) :: rat) \<le> of_int c" by (simp only: of_int_le_iff)
      then show ?thesis using f by simp
    next
      case 2
      then show ?thesis using f(4) by simp
    qed
  qed
  obtain v where v: "round64 False (of_int ?q + f) = FFin v" "0 \<le> v" "v \<le> of_int c" "of_int ?q + f = of_int ?q \<longrightarrow> v = of_int ?q + f"
    using round64_bound [OF sum assms(5), of ?q] by blast
  have du: "duration_units u d = FFin v"
    using v(1) sum(1) by (simp add: duration_units_def t fl dv f64_add_def f64_of_rat_def)
  have "v = of_int n" if "d = n * u"
  proof -
    have "?q = n" "?r = 0" using that assms(3) by simp_all
    then show ?thesis using f(4) v(4) by simp
  qed
  then show ?thesis using du v by blast
qed

lemma Sprintf_f0_nat: "Sprintf_f0 (FFin (of_int n)) = format_nat (nat n)" if "0 \<le> n"
  using that by simp

lemmas unit_defs = Hour_def Minute_def Second_def

lemma units_of:
  assumes "0 \<le> d" "d \<le> c * u" "u \<in> {Second, Minute, Hour}" "c < 2 ^ 53"
  shows "\<exists>v. duration_units u d = FFin v \<and> v \<le> of_int c" "d = n * u \<Longrightarrow> duration_units u d = FFin (of_int n)"
  using duration_units_bound [OF assms(1,2) _ _ assms(4), of n] assms(3) by (auto simp: unit_defs)

lemma days_of_hours:
  assumes "73 \<le> n" "n \<le> 2562047"
  shows "parse_hours (FFin (of_int n)) = n * Hour"
proof -
  have "n * Hour \<le> 2562047 * Hour" using assms(2) by (simp add: unit_defs)
  then have "n * Hour \<le> MaxInt64" "0 \<le> n * Hour" using assms(1) by (simp_all add: unit_defs MaxInt64_def)
  then show ?thesis using assms(1) by (simp add: parse_hours_def MaxInt64_def)
qed

text \<open>
  Durations of whole units are written as the comment of the function says: up to 3 minutes in seconds, up to 3
  hours in minutes, below 73 hours in hours, and from there in days, the quotient by 24 rounded.
\<close>

theorem FormatTime_whole_units:
  assumes "0 \<le> n"
  shows "(n \<le> 180 \<longrightarrow> FormatTimeForStatusMessage (n * Second) Second = format_nat (nat n) @ '' second(s)'') \<and>
    (3 < n \<and> n \<le> 180 \<longrightarrow> FormatTimeForStatusMessage (n * Minute) Second = format_nat (nat n) @ '' minute(s)'') \<and>
    (3 < n \<and> n < 73 \<longrightarrow> FormatTimeForStatusMessage (n * Hour) Second = format_nat (nat n) @ '' hour(s)'') \<and>
    (73 \<le> n \<and> n \<le> 2562047 \<longrightarrow>
      FormatTimeForStatusMessage (n * Hour) Second = Sprintf_f0 (f64_div (FFin (of_int n)) (FFin 24)) @ '' day(s)'')"
proof (intro conjI impI)
  assume n: "n \<le> 180"
  obtain h m where "duration_units Hour (n * Second) = FFin h" "h \<le> 3" "duration_units Minute (n * Second) = FFin m" "m \<le> 3"
    using units_of(1) [of "n * Second" 3 Hour] units_of(1) [of "n * Second" 3 Minute] assms n by (auto simp: unit_defs)
  moreover have "duration_units Second (n * Second) = FFin (of_int n)"
    using units_of(2) [of "n * Second" 180 Second n] assms n by (simp add: unit_defs)
  ultimately show "FormatTimeForStatusMessage (n * Second) Second = format_nat (nat n) @ '' second(s)''"
    using assms by (simp add: FormatTimeForStatusMessage_def Let_def not_less) (simp add: unit_defs)
next
  assume n: "3 < n \<and> n \<le> 180"
  obtain h where "duration_units Hour (n * Minute) = FFin h" "h \<le> 3"
    using units_of(1) [of "n * Minute" 3 Hour] assms n by (auto simp: unit_defs)
  moreover have "duration_units Minute (n * Minute) = FFin (of_int n)"
    using units_of(2) [of "n * Minute" 180 Minute n] assms n by (simp add: unit_defs)
  ultimately show "FormatTimeForStatusMessage (n * Minute) Second = format_nat (nat n) @ '' minute(s)''"
    using n by (simp add: FormatTimeForStatusMessage_def Let_def not_less) (simp add: unit_defs)
next
  assume n: "3 < n \<and> n < 73"
  have "duration_units Hour (n * Hour) = FFin (of_int n)"
    using units_of(2) [of "n * Hour" 180 Hour n] assms n by (simp add: unit_defs)
  then show "FormatTimeForStatusMessage (n * Hour) Second = format_nat (nat n) @ '' hour(s)''"
    using n by (simp add: FormatTimeForStatusMessage_def Let_def)
next
  assume n: "73 \<le> n \<and> n \<le> 2562047"
  have "duration_units Hour (n * Hour) = FFin (of_int n)"
    using units_of(2) [of "n * Hour" 2562047 Hour n] assms n by (simp add: unit_defs)
  then show "FormatTimeForStatusMessage (n * Hour) Second = Sprintf_f0 (f64_div (FFin (of_int n)) (FFin 24)) @ '' day(s)''"
    using n days_of_hours [of n] by (simp add: FormatTimeForStatusMessage_def Let_def)
qed

theorem FormatTime_whole_units_witness: "FormatTimeForStatusMessage (5 * Minute) Second = ''5 minute(s)''"
  using FormatTime_whole_units [of 5] by (simp add: digit_char_def format_nat.simps char_of_def bit_0)

subsection \<open>Threshold texts\<close>

lemma format_nat_digits: "c \<in> set (format_nat n) \<Longrightarrow> is_digit c"
  using set_format_nat [of c n] by (auto simp: is_digit_def)

lemma is_digit_chars: "is_digit c \<Longrightarrow> c \<noteq> CHR ''-'' \<and> c \<noteq> CHR ''+'' \<and> ToLower_char c \<noteq> CHR ''i'' \<and> ToLower_char c \<noteq> CHR ''n'' \<and> ToLower_char c \<noteq> CHR ''x''"
  by (auto simp: is_digit_def char_digit_def ToLower_char_def Let_def split: if_splits)

lemma parse_decimal_nat: "parse_decimal (format_nat n) = Some (of_nat n)"
proof -
  have d: "takeWhile is_digit (format_nat n) = format_nat n" "dropWhile is_digit (format_nat n) = []"
    using format_nat_digits by (simp_all add: takeWhile_eq_all_conv dropWhile_eq_Nil_conv)
  show ?thesis unfolding parse_decimal_def Let_def d
    by (simp add: digits_value_def parse_digits_format_nat parse_exponent_def pow10_def)
qed

lemma ParseFloat_nat:
  assumes "n < 2 ^ 53"
  shows "ParseFloat hex (format_nat n) = Some (FFin (of_nat n))"
proof -
  obtain c cs where s: "format_nat n = c # cs" by (cases "format_nat n") auto
  have dg: "\<forall>x \<in> set (c # cs). is_digit x" using format_nat_digits [of _ n] by (simp add: s)
  then have c: "c \<noteq> CHR ''-''" "c \<noteq> CHR ''+''" "ToLower_char c \<noteq> CHR ''i''" "ToLower_char c \<noteq> CHR ''n''" using is_digit_chars [of c] by auto
  have x: "\<not> HasPrefix (ToLower (c # cs)) ''0x''"
  proof
    assume "HasPrefix (ToLower (c # cs)) ''0x''"
    then obtain d ds where "cs = d # ds" "ToLower_char d = CHR ''x''" by (auto simp: HasPrefix_iff ToLower_def Cons_eq_map_conv)
    then show False using is_digit_chars [of d] dg by simp
  qed
  have sg: "signed_text (c # cs) = (False, c # cs)" using c(1,2) by (simp add: signed_text_def)
  have "round64 False (of_nat n) = FFin (of_nat n)" using round64_int [of "int n"] assms by simp
  then show ?thesis
    unfolding ParseFloat_def s sg using x c(3,4) parse_decimal_nat [of n] s by (simp add: ToLower_def)
qed

lemma format_nat_inj: "format_nat m = format_nat n \<Longrightarrow> m = n"
  by (metis parse_nat_format_nat option.inject)

text \<open>A service with one integer metric that has one threshold of the given kind.\<close>

definition one_threshold :: "bytes \<Rightarrow> bytes \<Rightarrow> nat \<Rightarrow> nat \<Rightarrow> MonitoredService \<Rightarrow> bool" where
  "one_threshold kind name v t s \<longleftrightarrow>
     (\<exists>m l. ms_Metrics s = [m] \<and> ts_MetricName m = name \<and> ts_Value m = Some (tv_integer (int v)) \<and>
        ts_Thresholds m = [\<lparr>th_SampleType = kind, th_Label = l, th_Value = Some (tv_integer (int t))\<rparr>])"

lemma integer_text: "getValueText (Some (tv_integer (int n))) = Done (Inr (format_nat n))"
  by (simp add: getValueText_def tv_defs FormatInt_def)

lemma none_text: "noneThresholdText \<noteq> format_nat n"
proof
  assume "noneThresholdText = format_nat n"
  then have "CHR ''-'' \<in> set (format_nat n)" by (metis noneThresholdText_def list.set_intros(1))
  then show False using format_nat_digits is_digit_chars by blast
qed

text \<open>
  A metric that reached its only threshold: a warning threshold is named in the status text, but in place of a
  critical threshold the text always says -1.
\<close>

theorem critical_text_shows_none:
  assumes "t \<le> v" "v < 2 ^ 53"
  shows "(one_threshold SampleWarning name v t s \<longrightarrow>
      addThresholdsToStatusText hex [] s = Done (''['' @ name @ ''] [VAL='' @ format_nat v @ ''] [Warn='' @ format_nat t @ '']'')) \<and>
    (one_threshold SampleCritical name v t s \<longrightarrow>
      addThresholdsToStatusText hex [] s = Done (''['' @ name @ ''] [VAL='' @ format_nat v @ ''] [Crit=-1]''))"
proof -
  have p: "ParseFloat hex (format_nat v) = Some (FFin (of_nat v))" "ParseFloat hex (format_nat t) = Some (FFin (of_nat t))"
    using assms by (simp_all add: ParseFloat_nat)
  have k: "SampleWarning \<noteq> SampleCritical" by (simp add: SampleWarning_def SampleCritical_def)
  have trim: "TrimPrefix ('' | '' @ x) '' | '' = x" for x by (simp add: TrimPrefix_def HasPrefix_def)
  have w: "metric_th_text hex name (format_nat v) (format_nat t) noneThresholdText = Some ('' | '' @ ''['' @ name @ ''] [VAL='' @ format_nat v @ ''] [Warn='' @ format_nat t @ '']'')"
    and c: "metric_th_text hex name (format_nat v) noneThresholdText (format_nat t) = Some ('' | '' @ ''['' @ name @ ''] [VAL='' @ format_nat v @ ''] [Crit=-1]'')"
    using assms(1) none_text [of t] p by (simp_all add: metric_th_text_def th_text_def) (simp add: noneThresholdText_def)
  have W: "thresholds_loop hex (ms_Metrics s) [] = Done ('' | '' @ ''['' @ name @ ''] [VAL='' @ format_nat v @ ''] [Warn='' @ format_nat t @ '']'')"
    if "one_threshold SampleWarning name v t s"
    using that w by (auto simp: one_threshold_def integer_text)
  have C: "thresholds_loop hex (ms_Metrics s) [] = Done ('' | '' @ ''['' @ name @ ''] [VAL='' @ format_nat v @ ''] [Crit=-1]'')"
    if "one_threshold SampleCritical name v t s"
    using that c k by (auto simp: one_threshold_def integer_text)
  show ?thesis
    unfolding addThresholdsToStatusText_def by (intro conjI impI) (unfold W C bind_exec.simps trim, rule refl, rule refl)
qed

definition demo_text_service :: MonitoredService where
  "demo_text_service =
     \<lparr>ms_BaseInfo = \<lparr>bi_Name = ''cpu'', bi_Type = ResourceTypeService, bi_Owner = ''h'', bi_Category = [], bi_Description = [], bi_Properties = Map.empty\<rparr>,
      ms_MonitoredInfo = \<lparr>mi_Status = ServiceOk, mi_LastCheckTime = None, mi_NextCheckTime = None, mi_LastPluginOutput = []\<rparr>,
      ms_Metrics = [\<lparr>ts_MetricName = ''cpu'', ts_SampleType = SampleValue, ts_Interval = None, ts_Value = Some (tv_integer 95),
        ts_Tags = Map.empty, ts_Unit = ''1'', ts_Thresholds = [\<lparr>th_SampleType = SampleCritical, th_Label = ''cpu_cr'', th_Value = Some (tv_integer 90)\<rparr>],
        ts_MetricComputeType = [], ts_MetricExpression = []\<rparr>]\<rparr>"

theorem critical_text_shows_none_witness:
  "addThresholdsToStatusText (\<lambda>_. None) [] demo_text_service = Done ''[cpu] [VAL=95] [Crit=-1]''"
proof -
  have "one_threshold SampleCritical ''cpu'' 95 90 demo_text_service" by (simp add: one_threshold_def demo_text_service_def)
  then show ?thesis using critical_text_shows_none [of 90 95 "''cpu''" demo_text_service "\<lambda>_. None"] by (simp add: digit_char_def format_nat.simps char_of_def bit_0)
qed

end
