(* ===== verification/Connector_Build.thy ===== *)
theory Connector_Build
  imports Expressions Status_Text Transit_Service
begin

text \<open>
  Building of metrics, services and resources by connectors, \<^verbatim>\<open>connectors/connectors.go\<close>: the constructors,
  synthetic metrics, and the operations that send.  The clock is an argument and is read as one time per
  operation; the check interval, a variable of the package, is an argument.  A dynamic argument of a constructor
  is a value of a datatype with one case per type the code switches on.  An evaluation of an expression that
  never ends, see \<open>Expressions\<close>, is the outcome \<open>Diverges\<close>.
\<close>

subsection \<open>Configuration\<close>

definition DefaultCheckInterval :: duration where "DefaultCheckInterval = 2 * Minute"

definition wrap64 :: "int \<Rightarrow> int" where
  "wrap64 x = (x + 2 ^ 63) mod 2 ^ 64 - 2 ^ 63"

lemma wrap64_small: "- (2 ^ 63) \<le> x \<Longrightarrow> x < 2 ^ 63 \<Longrightarrow> wrap64 x = x"
  by (simp add: wrap64_def)

text \<open>
  \<open>UnmarshalConfig\<close>: the new check interval and the decoded arguments.  The two arguments are the decodings of
  the interval in minutes (0 when it is missing) and of the rest.
\<close>

definition UnmarshalConfig :: "(bytes \<Rightarrow> int option) \<Rightarrow> (bytes \<Rightarrow> 'c \<Rightarrow> 'c \<times> 'e option) \<Rightarrow> bytes \<Rightarrow> duration \<Rightarrow> 'c \<Rightarrow> duration \<times> 'c \<times> 'e option" where
  "UnmarshalConfig um_timer um data CheckInterval c =
     ((case um_timer data of
         None \<Rightarrow> CheckInterval
       | Some k \<Rightarrow> if k > 0 then wrap64 (Minute * k) else DefaultCheckInterval),
      um data c)"

definition Name :: "bytes \<Rightarrow> bytes \<Rightarrow> bytes" where
  "Name defaultName customName = (if customName = [] then defaultName else customName)"

definition MaxDuration :: "duration \<Rightarrow> duration list \<Rightarrow> duration" where
  "MaxDuration x rest = fold (\<lambda>y m. if m < y then y else m) rest x"

subsection \<open>Inventory\<close>

definition new_BaseInfo :: "bytes \<Rightarrow> bytes \<Rightarrow> bytes \<Rightarrow> BaseInfo" where
  "new_BaseInfo name ty owner =
     \<lparr>bi_Name = name, bi_Type = ty, bi_Owner = owner, bi_Category = [], bi_Description = [], bi_Properties = Map.empty\<rparr>"

definition CreateInventoryService :: "bytes \<Rightarrow> bytes \<Rightarrow> InventoryService" where
  "CreateInventoryService name owner = \<lparr>is_BaseInfo = new_BaseInfo name ResourceTypeService owner\<rparr>"

definition CreateInventoryResource :: "bytes \<Rightarrow> InventoryService list \<Rightarrow> InventoryResource" where
  "CreateInventoryResource name services =
     \<lparr>ir_BaseResource = \<lparr>br_BaseInfo = new_BaseInfo name ResourceTypeHost [], br_Device = []\<rparr>, ir_Services = services\<rparr>"

definition CreateResourceRef :: "bytes \<Rightarrow> bytes \<Rightarrow> bytes \<Rightarrow> ResourceRef" where
  "CreateResourceRef name owner resourceType = \<lparr>rr_Name = name, rr_Type = resourceType, rr_Owner = owner\<rparr>"

definition CreateResourceGroup :: "bytes \<Rightarrow> bytes \<Rightarrow> bytes \<Rightarrow> ResourceRef list \<Rightarrow> ResourceGroup" where
  "CreateResourceGroup name description groupType resources =
     \<lparr>rg_GroupName = name, rg_Type = groupType, rg_Description = description, rg_Resources = resources\<rparr>"

definition FillGroupWithResources :: "ResourceGroup \<Rightarrow> InventoryResource list \<Rightarrow> ResourceGroup" where
  "FillGroupWithResources grp resources =
     grp\<lparr>rg_Resources := map (\<lambda>r. let b = br_BaseInfo (ir_BaseResource r)
                                     in \<lparr>rr_Name = bi_Name b, rr_Type = bi_Type b, rr_Owner = []\<rparr>) resources\<rparr>"

subsection \<open>Metrics\<close>

datatype build_error = UnsupportedType | MetricCreationFailure

definition UnitCounter :: bytes where "UnitCounter = ''1''"
definition Synthetic :: bytes where "Synthetic = ''Synthetic''"

datatype metric_arg =
    MA_string bytes | MA_UnitType bytes | MA_Interval "TimeInterval option" | MA_Tags "bytes \<rightharpoonup> bytes" | MA_other

fun metric_args :: "metric_arg list \<Rightarrow> TimeSeries \<Rightarrow> build_error + TimeSeries" where
  "metric_args [] metric = Inr metric"
| "metric_args (a # as) metric =
     (case a of
        MA_string u \<Rightarrow> metric_args as (metric\<lparr>ts_Unit := u\<rparr>)
      | MA_UnitType u \<Rightarrow> metric_args as (metric\<lparr>ts_Unit := u\<rparr>)
      | MA_Interval i \<Rightarrow> metric_args as (metric\<lparr>ts_Interval := i\<rparr>)
      | MA_Tags t \<Rightarrow> metric_args as (metric\<lparr>ts_Tags := t\<rparr>)
      | MA_other \<Rightarrow> Inl UnsupportedType)"

definition CreateMetric :: "timestamp \<Rightarrow> bytes \<Rightarrow> go_any \<Rightarrow> metric_arg list \<Rightarrow> (build_error + TimeSeries) exec" where
  "CreateMetric now name value args =
     bind_exec (NewTypedValue value) (\<lambda>typedValue.
       case typedValue of
         None \<Rightarrow> Done (Inl UnsupportedType)
       | Some tv \<Rightarrow>
           Done (case metric_args args \<lparr>ts_MetricName = name, ts_SampleType = SampleValue, ts_Interval = None, ts_Value = Some tv,
                          ts_Tags = Map.empty, ts_Unit = [], ts_Thresholds = [], ts_MetricComputeType = [], ts_MetricExpression = []\<rparr> of
                   Inl e \<Rightarrow> Inl e
                 | Inr metric \<Rightarrow>
                     let m1 = (if ts_Interval metric = None
                               then metric\<lparr>ts_Interval := Some \<lparr>ti_EndTime = Some now, ti_StartTime = Some now\<rparr>\<rparr> else metric);
                         m2 = (if ts_Unit m1 = [] then m1\<lparr>ts_Unit := UnitCounter\<rparr> else m1)
                     in Inr m2))"

definition CreateThreshold :: "bytes \<Rightarrow> bytes \<Rightarrow> go_any \<Rightarrow> (build_error + ThresholdValue) exec" where
  "CreateThreshold thresholdType label value =
     bind_exec (NewTypedValue value) (\<lambda>typedValue.
       Done (case typedValue of
               None \<Rightarrow> Inl UnsupportedType
             | Some tv \<Rightarrow> Inr \<lparr>th_SampleType = thresholdType, th_Label = label, th_Value = Some tv\<rparr>))"

definition CreateWarningThreshold :: "bytes \<Rightarrow> go_any \<Rightarrow> (build_error + ThresholdValue) exec" where
  "CreateWarningThreshold label value = CreateThreshold SampleWarning label value"

definition CreateCriticalThreshold :: "bytes \<Rightarrow> go_any \<Rightarrow> (build_error + ThresholdValue) exec" where
  "CreateCriticalThreshold label value = CreateThreshold SampleCritical label value"

record MetricBuilder =
  mb_Name :: bytes
  mb_CustomName :: bytes
  mb_ComputeType :: bytes
  mb_Expression :: bytes
  mb_Value :: go_any
  mb_UnitType :: "metric_arg option"
  mb_Warning :: "go_any option"
  mb_Critical :: "go_any option"
  mb_StartTimestamp :: "timestamp option"
  mb_EndTimestamp :: "timestamp option"
  mb_Graphed :: bool
  mb_Tags :: "bytes \<rightharpoonup> bytes"

text \<open>A threshold that could not be created is dereferenced all the same.\<close>

definition built_threshold :: "(build_error + ThresholdValue) exec \<Rightarrow> ThresholdValue exec" where
  "built_threshold r = bind_exec r (\<lambda>x. case x of Inl _ \<Rightarrow> Panic NilDereference | Inr t \<Rightarrow> Done t)"

definition optional_threshold :: "(bytes \<Rightarrow> go_any \<Rightarrow> (build_error + ThresholdValue) exec) \<Rightarrow> bytes \<Rightarrow> go_any option \<Rightarrow> ThresholdValue list exec" where
  "optional_threshold create label v =
     (case v of None \<Rightarrow> Done [] | Some x \<Rightarrow> bind_exec (built_threshold (create label x)) (\<lambda>t. Done [t]))"

definition builder_args :: "MetricBuilder \<Rightarrow> metric_arg list" where
  "builder_args mb =
     (case mb_UnitType mb of None \<Rightarrow> [] | Some u \<Rightarrow> [u]) @
     (case (mb_StartTimestamp mb, mb_EndTimestamp mb) of
        (Some s, Some e) \<Rightarrow> [MA_Interval (Some \<lparr>ti_EndTime = Some e, ti_StartTime = Some s\<rparr>)]
      | _ \<Rightarrow> []) @
     (if mb_Tags mb \<noteq> Map.empty then [MA_Tags (mb_Tags mb)] else [])"

definition BuildMetric :: "timestamp \<Rightarrow> MetricBuilder \<Rightarrow> (build_error + TimeSeries) exec" where
  "BuildMetric now mb =
     (let metricName = Name (mb_Name mb) (mb_CustomName mb) in
      bind_exec (CreateMetric now metricName (mb_Value mb) (builder_args mb)) (\<lambda>r.
        case r of
          Inl err \<Rightarrow> Done (Inl err)
        | Inr metric \<Rightarrow>
            bind_exec (optional_threshold CreateWarningThreshold (metricName @ ''_wn'') (mb_Warning mb)) (\<lambda>w.
            bind_exec (optional_threshold CreateCriticalThreshold (metricName @ ''_cr'') (mb_Critical mb)) (\<lambda>c.
              let m1 = metric\<lparr>ts_MetricComputeType := mb_ComputeType mb, ts_MetricExpression := mb_Expression mb\<rparr>
              in Done (Inr (if w @ c \<noteq> [] then m1\<lparr>ts_Thresholds := w @ c\<rparr> else m1))))))"

subsection \<open>Services and resources\<close>

datatype service_arg = SA_Metrics "TimeSeries list" | SA_Properties "(bytes \<times> go_any) list" | SA_other

definition check_times :: "duration \<Rightarrow> timestamp \<Rightarrow> MonitoredInfo \<Rightarrow> MonitoredInfo" where
  "check_times ci t i = i\<lparr>mi_LastCheckTime := Some t, mi_NextCheckTime := Some (Timestamp_Add t ci)\<rparr>"

definition last_end_time :: "TimeSeries list \<Rightarrow> timestamp exec" where
  "last_end_time ms = bind_exec (deref (ts_Interval (last ms))) (\<lambda>i. deref (ti_EndTime i))"

fun service_args :: "duration \<Rightarrow> service_arg list \<Rightarrow> MonitoredService \<Rightarrow> (build_error + MonitoredService) exec" where
  "service_args ci [] s = Done (Inr s)"
| "service_args ci (a # as) s =
     (case a of
        SA_Metrics ms \<Rightarrow>
          if ms = [] then service_args ci as (s\<lparr>ms_Metrics := ms\<rparr>)
          else bind_exec (last_end_time ms) (\<lambda>t.
                 service_args ci as (s\<lparr>ms_Metrics := ms, ms_MonitoredInfo := check_times ci t (ms_MonitoredInfo s)\<rparr>))
      | SA_Properties ps \<Rightarrow> bind_exec (CreateProperties (ms_BaseInfo s) ps) (\<lambda>b. service_args ci as (s\<lparr>ms_BaseInfo := b\<rparr>))
      | SA_other \<Rightarrow> Done (Inl UnsupportedType))"

definition CreateService :: "timestamp \<Rightarrow> duration \<Rightarrow> bytes \<Rightarrow> bytes \<Rightarrow> service_arg list \<Rightarrow> (build_error + MonitoredService) exec" where
  "CreateService now ci name owner args =
     bind_exec (service_args ci args
         \<lparr>ms_BaseInfo = new_BaseInfo name ResourceTypeService owner,
          ms_MonitoredInfo = check_times ci now \<lparr>mi_Status = ServiceOk, mi_LastCheckTime = None, mi_NextCheckTime = None, mi_LastPluginOutput = []\<rparr>,
          ms_Metrics = []\<rparr>) (\<lambda>r.
       case r of
         Inl e \<Rightarrow> Done (Inl e)
       | Inr s \<Rightarrow>
           bind_exec (CalculateServiceStatus (Some (ms_Metrics s))) (\<lambda>(status, _).
             Done (Inr (s\<lparr>ms_MonitoredInfo := (ms_MonitoredInfo s)\<lparr>mi_Status := status\<rparr>\<rparr>))))"

definition BuildServiceForMetric :: "timestamp \<Rightarrow> duration \<Rightarrow> bytes \<Rightarrow> MetricBuilder \<Rightarrow> (build_error + MonitoredService) exec" where
  "BuildServiceForMetric now ci hostName mb =
     bind_exec (BuildMetric now mb) (\<lambda>r.
       case r of
         Inl _ \<Rightarrow> Done (Inl MetricCreationFailure)
       | Inr metric \<Rightarrow> CreateService now ci (Name (mb_Name mb) (mb_CustomName mb)) hostName [SA_Metrics [metric], SA_Properties []])"

definition BuildServiceForMetricWithStatusText :: "(bytes \<Rightarrow> f64 option) \<Rightarrow> timestamp \<Rightarrow> duration \<Rightarrow> bytes \<Rightarrow> MetricBuilder \<Rightarrow>
    (bytes \<rightharpoonup> bytes) \<Rightarrow> (build_error + MonitoredService) exec" where
  "BuildServiceForMetricWithStatusText hex now ci hostName mb statusMessages =
     bind_exec (BuildServiceForMetric now ci hostName mb) (\<lambda>r.
       case r of
         Inl e \<Rightarrow> Done (Inl e)
       | Inr service \<Rightarrow>
           (let patternMessage = (case statusMessages (mi_Status (ms_MonitoredInfo service)) of None \<Rightarrow> [] | Some m \<Rightarrow> m)
            in bind_exec (addServiceStatusText hex ci patternMessage service) (\<lambda>s. Done (Inr s))))"

fun build_metrics :: "timestamp \<Rightarrow> MetricBuilder list \<Rightarrow> (build_error + TimeSeries list) exec" where
  "build_metrics now [] = Done (Inr [])"
| "build_metrics now (mb # mbs) =
     bind_exec (BuildMetric now mb) (\<lambda>r.
       case r of
         Inl _ \<Rightarrow> Done (Inl MetricCreationFailure)
       | Inr metric \<Rightarrow> bind_exec (build_metrics now mbs) (\<lambda>rs.
           Done (case rs of Inl e \<Rightarrow> Inl e | Inr ms \<Rightarrow> Inr (metric # ms))))"

definition BuildServiceForMultiMetric :: "timestamp \<Rightarrow> duration \<Rightarrow> bytes \<Rightarrow> bytes \<Rightarrow> bytes \<Rightarrow> MetricBuilder list \<Rightarrow>
    (build_error + MonitoredService) exec" where
  "BuildServiceForMultiMetric now ci hostName serviceName customName mbs =
     bind_exec (build_metrics now mbs) (\<lambda>r.
       case r of
         Inl e \<Rightarrow> Done (Inl e)
       | Inr ms \<Rightarrow> CreateService now ci (Name serviceName customName) hostName [SA_Metrics ms])"

text \<open>Here an error of \<open>CreateService\<close> would only be logged; with metrics as its argument it has none.\<close>

definition BuildServiceForMetrics :: "(bytes \<Rightarrow> f64 option) \<Rightarrow> timestamp \<Rightarrow> duration \<Rightarrow> bytes \<Rightarrow> bytes \<Rightarrow> MetricBuilder list \<Rightarrow>
    (build_error + MonitoredService option) exec" where
  "BuildServiceForMetrics hex now ci serviceName hostName mbs =
     bind_exec (build_metrics now mbs) (\<lambda>r.
       case r of
         Inl e \<Rightarrow> Done (Inl e)
       | Inr ms \<Rightarrow>
           bind_exec (CreateService now ci serviceName hostName [SA_Metrics ms]) (\<lambda>r.
             case r of
               Inl _ \<Rightarrow> Done (Inr None)
             | Inr service \<Rightarrow> bind_exec (addServiceStatusText hex ci [] service) (\<lambda>s. Done (Inr (Some s)))))"

datatype resource_arg = RA_Services "MonitoredService list" | RA_Device bytes | RA_other

fun resource_args :: "resource_arg list \<Rightarrow> MonitoredResource \<Rightarrow> build_error + MonitoredResource" where
  "resource_args [] r = Inr r"
| "resource_args (a # as) r =
     (case a of
        RA_Services ss \<Rightarrow>
          resource_args as
            (case ss of
               [] \<Rightarrow> r\<lparr>mr_Services := []\<rparr>
             | s # _ \<Rightarrow> r\<lparr>mr_Services := ss,
                          mr_MonitoredInfo := (mr_MonitoredInfo r)\<lparr>mi_LastCheckTime := mi_LastCheckTime (ms_MonitoredInfo s),
                                                                    mi_NextCheckTime := mi_NextCheckTime (ms_MonitoredInfo s)\<rparr>\<rparr>)
      | RA_Device d \<Rightarrow> resource_args as (r\<lparr>mr_BaseResource := (mr_BaseResource r)\<lparr>br_Device := d\<rparr>\<rparr>)
      | RA_other \<Rightarrow> Inl UnsupportedType)"

definition CreateResource :: "timestamp \<Rightarrow> duration \<Rightarrow> bytes \<Rightarrow> resource_arg list \<Rightarrow> build_error + MonitoredResource" where
  "CreateResource now ci name args =
     (case resource_args args
         \<lparr>mr_BaseResource = \<lparr>br_BaseInfo = new_BaseInfo name ResourceTypeHost [], br_Device = []\<rparr>,
          mr_MonitoredInfo = check_times ci now \<lparr>mi_Status = HostUp, mi_LastCheckTime = None, mi_NextCheckTime = None, mi_LastPluginOutput = []\<rparr>,
          mr_Services = []\<rparr> of
        Inl e \<Rightarrow> Inl e
      | Inr r \<Rightarrow> Inr (r\<lparr>mr_MonitoredInfo := (mr_MonitoredInfo r)\<lparr>mi_Status :=
                      if mr_Services r \<noteq> [] then CalculateResourceStatus (mr_Services r) else HostUp\<rparr>\<rparr>))"

subsection \<open>Synthetic metrics\<close>

text \<open>The variables: every metric that is not synthetic, an integer as a number, a double as a pointer.\<close>

definition metric_var :: "TimeSeries \<Rightarrow> gw_vars \<Rightarrow> gw_vars exec" where
  "metric_var metric vars =
     (if ts_MetricComputeType metric = Synthetic then Done vars
      else bind_exec (deref (ts_Value metric)) (\<lambda>tv.
        if tv_ValueType tv = IntegerType
        then bind_exec (deref (tv_IntegerValue tv)) (\<lambda>i. Done (vars(var_name (ts_MetricName metric) \<mapsto> VFloat (f64_of_int i))))
        else if tv_ValueType tv = DoubleType then Done (vars(var_name (ts_MetricName metric) \<mapsto> VPointer (tv_DoubleValue tv)))
        else Done vars))"

fun metric_vars :: "TimeSeries list \<Rightarrow> gw_vars \<Rightarrow> gw_vars exec" where
  "metric_vars [] vars = Done vars"
| "metric_vars (m # ms) vars = bind_exec (metric_var m vars) (\<lambda>vars'. metric_vars ms vars')"

definition synthetic_service :: "duration \<Rightarrow> MonitoredService \<Rightarrow> TimeSeries \<Rightarrow> f64 \<Rightarrow> MonitoredService exec" where
  "synthetic_service ci s metric value =
     bind_exec (deref (ts_Interval metric)) (\<lambda>i. bind_exec (deref (ti_EndTime i)) (\<lambda>t.
       let m = \<lparr>ts_MetricName = ts_MetricName metric, ts_SampleType = SampleValue, ts_Interval = Some i, ts_Value = Some (tv_double value),
                ts_Tags = Map.empty, ts_Unit = [], ts_Thresholds = ts_Thresholds metric, ts_MetricComputeType = [], ts_MetricExpression = []\<rparr>
       in bind_exec (CalculateServiceStatus (Some [m])) (\<lambda>(status, _).
            Done \<lparr>ms_BaseInfo = new_BaseInfo (bi_Name (ms_BaseInfo s)) ResourceTypeService (bi_Owner (ms_BaseInfo s)),
                  ms_MonitoredInfo = check_times ci t \<lparr>mi_Status = status, mi_LastCheckTime = None, mi_NextCheckTime = None,
                                                       mi_LastPluginOutput = '' Expression: '' @ ts_MetricExpression metric\<rparr>,
                  ms_Metrics = [m]\<rparr>)))"

text \<open>One pass over the metrics a service had before; a later synthetic metric replaces the service again.\<close>

fun synthetic_pass :: "expr_env \<Rightarrow> nat \<Rightarrow> duration \<Rightarrow> TimeSeries list \<Rightarrow> gw_vars \<Rightarrow> MonitoredService \<Rightarrow> (gw_vars \<times> MonitoredService) exec" where
  "synthetic_pass env fuel ci [] vars s = Done (vars, s)"
| "synthetic_pass env fuel ci (m # ms) vars s =
     (if ts_MetricComputeType m \<noteq> Synthetic then synthetic_pass env fuel ci ms vars s
      else case EvaluateGroundworkExpression env fuel (ts_MetricExpression m) vars 0 of
        None \<Rightarrow> Panic Diverges
      | Some r \<Rightarrow> bind_exec r (\<lambda>(vars', x).
          case x of
            Inl _ \<Rightarrow> synthetic_pass env fuel ci ms vars' s
          | Inr (value, _) \<Rightarrow> bind_exec (synthetic_service ci s m value) (\<lambda>s'. synthetic_pass env fuel ci ms vars' s')))"

fun synthetic_services :: "expr_env \<Rightarrow> nat \<Rightarrow> duration \<Rightarrow> MonitoredService list \<Rightarrow> gw_vars \<Rightarrow> MonitoredService list exec" where
  "synthetic_services env fuel ci [] vars = Done []"
| "synthetic_services env fuel ci (s # ss) vars =
     bind_exec (synthetic_pass env fuel ci (ms_Metrics s) vars s) (\<lambda>(vars', s').
     bind_exec (synthetic_services env fuel ci ss vars') (\<lambda>ss'. Done (s' # ss')))"

definition EvaluateExpressions :: "expr_env \<Rightarrow> nat \<Rightarrow> duration \<Rightarrow> MonitoredService list \<Rightarrow> MonitoredService list exec" where
  "EvaluateExpressions env fuel ci services =
     bind_exec (metric_vars (concat (map ms_Metrics services)) Map.empty) (\<lambda>vars. synthetic_services env fuel ci services vars)"

subsection \<open>Sending\<close>

definition evaluated_resource :: "expr_env \<Rightarrow> nat \<Rightarrow> duration \<Rightarrow> MonitoredResource \<Rightarrow> MonitoredResource exec" where
  "evaluated_resource env fuel ci r =
     bind_exec (EvaluateExpressions env fuel ci (mr_Services r)) (\<lambda>monitoredServices.
       Done (r\<lparr>mr_Services := monitoredServices,
               mr_MonitoredInfo := (mr_MonitoredInfo r)\<lparr>mi_LastPluginOutput := buildHostStatusText monitoredServices\<rparr>\<rparr>))"

text \<open>The error of \<open>json.Marshal\<close> is \<open>None\<close> of the encoder.\<close>

definition SendMetrics :: "svc_env \<Rightarrow> expr_env \<Rightarrow> nat \<Rightarrow> duration \<Rightarrow> http_Header option \<Rightarrow> MonitoredResource list \<Rightarrow> ResourceGroup list option \<Rightarrow>
    Agent \<Rightarrow> (Agent \<times> error option) exec" where
  "SendMetrics svc env fuel ci ctx resources groups a =
     (let (a1, tc) = MakeTracerContext svc a in
      bind_exec (map_exec (evaluated_resource env fuel ci) resources) (\<lambda>rs.
        case sv_rq_ma svc \<lparr>rq_Context = tc, rq_Resources = rs, rq_Groups = (case groups of None \<Rightarrow> [] | Some g \<Rightarrow> g)\<rparr> of
          None \<Rightarrow> Done (a1, Some (Other ''json''))
        | Some b \<Rightarrow> TS_SendResourceWithMetrics svc ctx b a1))"

definition SendInventory :: "svc_env \<Rightarrow> (InventoryRequest \<Rightarrow> bytes option) \<Rightarrow> http_Header option \<Rightarrow> InventoryResource list \<Rightarrow> ResourceGroup list \<Rightarrow>
    bytes \<Rightarrow> Agent \<Rightarrow> (Agent \<times> error option) exec" where
  "SendInventory svc iq_ma ctx resources resourceGroups ownershipType a =
     (let (a1, tc) = MakeTracerContext svc a in
      case iq_ma \<lparr>iq_Context = tc, iq_OwnershipType = ownershipType, iq_Resources = resources, iq_Groups = resourceGroups\<rparr> of
        None \<Rightarrow> Done (a1, Some (Other ''json''))
      | Some b \<Rightarrow> TS_SynchronizeInventory svc ctx b a1)"

subsection \<open>Built services\<close>

lemma one_metric_status:
  assumes "pick_thresholds (ts_Thresholds m) None None = Inr (Some w, Some c)" "ts_Value m = Some v"
    and "number_of v = Some x" "number_of w = Some a" "number_of c = Some b" "\<not> f64_eq a minus_one" "\<not> f64_eq b minus_one"
  shows "CalculateServiceStatus (Some [m]) = Done (threshold_rule x a b, None)"
proof -
  have ne: "ts_Thresholds m \<noteq> []" using assms(1) by auto
  note st = CalculateStatus_numbers [OF assms(3-7)]
  have "threshold_rule x a b \<in> {ServiceOk, ServiceWarning, ServiceUnscheduledCritical}" using CalculateStatus_range [OF st] .
  then show ?thesis using assms(1,2) ne st by (auto simp: CalculateServiceStatus_def)
qed

lemma build_metric_ok:
  assumes "NewTypedValue (mb_Value mb) = Done (Some v)" "\<forall>u. mb_UnitType mb = Some u \<longrightarrow> (\<exists>t. u = MA_UnitType t)"
    and "mb_Warning mb = Some wv" "NewTypedValue wv = Done (Some w)" "mb_Critical mb = Some cv" "NewTypedValue cv = Done (Some c)"
  shows "\<exists>m. BuildMetric now mb = Done (Inr m) \<and> ts_MetricName m = Name (mb_Name mb) (mb_CustomName mb) \<and> ts_Value m = Some v \<and>
    pick_thresholds (ts_Thresholds m) None None = Inr (Some w, Some c) \<and>
    (\<exists>i. ts_Interval m = Some i \<and> ti_EndTime i = Some (case (mb_StartTimestamp mb, mb_EndTimestamp mb) of (Some _, Some e) \<Rightarrow> e | _ \<Rightarrow> now))"
proof -
  let ?n = "Name (mb_Name mb) (mb_CustomName mb)"
  let ?t = "case (mb_StartTimestamp mb, mb_EndTimestamp mb) of (Some _, Some e) \<Rightarrow> e | _ \<Rightarrow> now"
  have k: "SampleWarning \<noteq> SampleCritical" by (simp add: SampleWarning_def SampleCritical_def)
  obtain m where m: "CreateMetric now ?n (mb_Value mb) (builder_args mb) = Done (Inr m)" "ts_MetricName m = ?n" "ts_Value m = Some v"
      "\<exists>i. ts_Interval m = Some i \<and> ti_EndTime i = Some ?t"
    using assms(1,2) by (cases "mb_UnitType mb"; cases "mb_StartTimestamp mb"; cases "mb_EndTimestamp mb"; cases "mb_Tags mb = Map.empty")
      (auto simp: CreateMetric_def builder_args_def Let_def)
  show ?thesis
    using m assms(3-6) k
    by (simp add: BuildMetric_def optional_threshold_def built_threshold_def CreateWarningThreshold_def CreateCriticalThreshold_def CreateThreshold_def Let_def)
qed


text \<open>
  A threshold of a type that is not supported makes the builder panic: the error is logged, and then the threshold
  that was not created is dereferenced.
\<close>

theorem bad_threshold_panics:
  assumes "NewTypedValue (mb_Value mb) = Done (Some v)" "mb_UnitType mb = None" "mb_Warning mb = Some A_other"
  shows "BuildMetric now mb = Panic NilDereference \<and> BuildServiceForMetric now ci hostName mb = Panic NilDereference"
proof -
  have "\<exists>m. CreateMetric now n (mb_Value mb) (builder_args mb) = Done (Inr m)" for n
    using assms(1,2) by (cases "mb_StartTimestamp mb"; cases "mb_EndTimestamp mb"; cases "mb_Tags mb = Map.empty")
      (auto simp: CreateMetric_def builder_args_def Let_def)
  then obtain m where "CreateMetric now (Name (mb_Name mb) (mb_CustomName mb)) (mb_Value mb) (builder_args mb) = Done (Inr m)" by blast
  then have "BuildMetric now mb = Panic NilDereference"
    using assms(3) by (simp add: BuildMetric_def optional_threshold_def built_threshold_def CreateWarningThreshold_def CreateThreshold_def Let_def)
  then show ?thesis by (simp add: BuildServiceForMetric_def)
qed

subsection \<open>Synthetic metrics\<close>

lemma synthetic_service_names:
  assumes "synthetic_service ci s m v = Done s'"
  shows "bi_Name (ms_BaseInfo s') = bi_Name (ms_BaseInfo s) \<and> bi_Owner (ms_BaseInfo s') = bi_Owner (ms_BaseInfo s)"
  using assms by (auto simp: synthetic_service_def new_BaseInfo_def Let_def)

lemma synthetic_pass_keeps:
  assumes "synthetic_pass env fuel ci ms vars s = Done (vars', s')"
  shows "bi_Name (ms_BaseInfo s') = bi_Name (ms_BaseInfo s) \<and> bi_Owner (ms_BaseInfo s') = bi_Owner (ms_BaseInfo s) \<and>
    ((\<forall>m \<in> set ms. ts_MetricComputeType m \<noteq> Synthetic) \<longrightarrow> s' = s \<and> vars' = vars)"
  using assms
proof (induction ms arbitrary: vars s)
  case (Cons m ms)
  show ?case
  proof (cases "ts_MetricComputeType m = Synthetic")
    case False
    then show ?thesis using Cons by simp
  next
    case True
    then obtain vars1 x where e: "EvaluateGroundworkExpression env fuel (ts_MetricExpression m) vars 0 = Some (Done (vars1, x))"
      using Cons.prems by (auto split: option.splits)
    show ?thesis
    proof (cases x)
      case (Inl err)
      then have "synthetic_pass env fuel ci ms vars1 s = Done (vars', s')" using Cons.prems True e by simp
      then show ?thesis using Cons.IH True by auto
    next
      case (Inr r)
      then obtain v vs s1 where "r = (v, vs)" "synthetic_service ci s m v = Done s1" "synthetic_pass env fuel ci ms vars1 s1 = Done (vars', s')"
        using Cons.prems True e by (cases r) auto
      then show ?thesis using Cons.IH [of vars1 s1] synthetic_service_names True by auto
    qed
  qed
qed simp

lemma synthetic_services_keep:
  assumes "synthetic_services env fuel ci ss vars = Done ss'"
  shows "list_all2 (\<lambda>s s'. bi_Name (ms_BaseInfo s') = bi_Name (ms_BaseInfo s) \<and> bi_Owner (ms_BaseInfo s') = bi_Owner (ms_BaseInfo s) \<and>
    ((\<forall>m \<in> set (ms_Metrics s). ts_MetricComputeType m \<noteq> Synthetic) \<longrightarrow> s' = s)) ss ss'"
  using assms
proof (induction ss arbitrary: vars ss')
  case (Cons s ss)
  then obtain vars1 s1 ss1 where "synthetic_pass env fuel ci (ms_Metrics s) vars s = Done (vars1, s1)"
      "synthetic_services env fuel ci ss vars1 = Done ss1" "ss' = s1 # ss1"
    by auto
  then show ?case using Cons.IH synthetic_pass_keeps by fastforce
qed simp

text \<open>
  Evaluating expressions keeps the services in order with their names and owners, and leaves a service without
  synthetic metrics as it is.
\<close>

theorem EvaluateExpressions_keeps:
  assumes "EvaluateExpressions env fuel ci services = Done result"
  shows "list_all2 (\<lambda>s s'. bi_Name (ms_BaseInfo s') = bi_Name (ms_BaseInfo s) \<and> bi_Owner (ms_BaseInfo s') = bi_Owner (ms_BaseInfo s) \<and>
    ((\<forall>m \<in> set (ms_Metrics s). ts_MetricComputeType m \<noteq> Synthetic) \<longrightarrow> s' = s)) services result"
proof -
  obtain vars where "synthetic_services env fuel ci services vars = Done result"
    using assms by (auto simp: EvaluateExpressions_def)
  then show ?thesis by (rule synthetic_services_keep)
qed

definition integer_metric :: "TimeSeries \<Rightarrow> bool" where
  "integer_metric m \<longleftrightarrow> ts_MetricComputeType m \<noteq> Synthetic \<and> (\<exists>i. ts_Value m = Some (tv_integer i))"

definition metric_number :: "TimeSeries \<Rightarrow> f64" where
  "metric_number m = (case ts_Value m of Some tv \<Rightarrow> (case tv_IntegerValue tv of Some i \<Rightarrow> f64_of_int i | None \<Rightarrow> FNaN) | None \<Rightarrow> FNaN)"

text \<open>The variables of integer metrics: the last one of each name.\<close>

definition integer_vars :: "TimeSeries list \<Rightarrow> gw_vars" where
  "integer_vars ms = fold (\<lambda>m vars. vars(var_name (ts_MetricName m) \<mapsto> VFloat (metric_number m))) ms Map.empty"

lemma metric_vars_append: "metric_vars (ms @ ns) vars = bind_exec (metric_vars ms vars) (metric_vars ns)"
proof (induction ms arbitrary: vars)
  case (Cons m ms)
  then show ?case by (cases "metric_var m vars") simp_all
qed simp

lemma metric_vars_integer:
  "\<forall>m \<in> set ms. integer_metric m \<Longrightarrow>
    metric_vars ms vars = Done (fold (\<lambda>m vars. vars(var_name (ts_MetricName m) \<mapsto> VFloat (metric_number m))) ms vars)"
  by (induction ms arbitrary: vars) (auto simp: integer_metric_def metric_var_def metric_number_def tv_defs)

lemma number_vars_fold:
  "number_vars vars \<Longrightarrow> number_vars (fold (\<lambda>m vars. vars(var_name (ts_MetricName m) \<mapsto> VFloat (metric_number m))) ms vars)"
proof (induction ms arbitrary: vars)
  case (Cons m ms)
  have "number_vars (vars(var_name (ts_MetricName m) \<mapsto> VFloat (metric_number m)))" using Cons.prems by (simp add: number_vars_def)
  from Cons.IH [OF this] show ?case by simp
qed simp

lemma synthetic_pass_plain:
  "\<forall>m \<in> set ms. ts_MetricComputeType m \<noteq> Synthetic \<Longrightarrow> synthetic_pass env fuel ci ms vars s = Done (vars, s)"
  by (induction ms) auto

text \<open>
  C22. A synthetic metric over integer metrics: the service that holds it gets the value of its expression, computed on
  the values of the metrics, and the status its thresholds give to this value.
\<close>

theorem synthetic_metric_value:
  assumes "\<forall>m \<in> set (ms_Metrics s1). integer_metric m" "ms_Metrics s2 = [m]" "ts_MetricComputeType m = Synthetic"
    and "ts_MetricExpression m = gx_text e" "gx_ok e" "\<forall>i. res_name i \<notin> gx_vars e" "gx_calls e + 4 < fuel"
    and "gx_value (ee_unfit env) (integer_vars (ms_Metrics s1)) e = Some v" "ts_Interval m = Some i" "ti_EndTime i = Some t"
    and "pick_thresholds (ts_Thresholds m) None None = Inr (Some w, Some c)" "number_of w = Some a" "number_of c = Some b"
    and "\<not> f64_eq a minus_one" "\<not> f64_eq b minus_one"
  shows "\<exists>s2'. EvaluateExpressions env fuel ci [s1, s2] = Done [s1, s2'] \<and> map ts_Value (ms_Metrics s2') = [Some (tv_double v)] \<and>
    bi_Name (ms_BaseInfo s2') = bi_Name (ms_BaseInfo s2) \<and> mi_Status (ms_MonitoredInfo s2') = threshold_rule v a b \<and>
    mi_LastCheckTime (ms_MonitoredInfo s2') = Some t"
proof -
  let ?vars = "integer_vars (ms_Metrics s1)"
  have "metric_vars (ms_Metrics s1 @ [m]) Map.empty = Done ?vars"
    using metric_vars_integer [OF assms(1), of Map.empty] assms(3) by (simp add: metric_vars_append metric_var_def integer_vars_def)
  then have vars: "metric_vars (concat (map ms_Metrics [s1, s2])) Map.empty = Done ?vars" using assms(2) by simp
  have nv: "number_vars ?vars" unfolding integer_vars_def by (rule number_vars_fold) (simp add: number_vars_def)
  have p1: "synthetic_pass env fuel ci (ms_Metrics s1) ?vars s1 = Done (?vars, s1)"
    using assms(1) by (intro synthetic_pass_plain) (auto simp: integer_metric_def)
  obtain vars' where ev: "EvaluateGroundworkExpression env fuel (ts_MetricExpression m) ?vars 0 = Some (Done (vars', Inr (v, [v])))"
    using gx_evaluates [OF assms(5) nv assms(6,7), of env] assms(4,8) by (auto simp: gw_outcome_def)
  let ?m = "\<lparr>ts_MetricName = ts_MetricName m, ts_SampleType = SampleValue, ts_Interval = Some i, ts_Value = Some (tv_double v),
      ts_Tags = Map.empty, ts_Unit = [], ts_Thresholds = ts_Thresholds m, ts_MetricComputeType = [], ts_MetricExpression = []\<rparr>"
  have "number_of (tv_double v) = Some v" by (simp add: number_of_def tv_defs)
  then have "CalculateServiceStatus (Some [?m]) = Done (threshold_rule v a b, None)"
    using assms(11-15) by (intro one_metric_status) simp_all
  then have "\<exists>s2'. synthetic_service ci s2 m v = Done s2' \<and> map ts_Value (ms_Metrics s2') = [Some (tv_double v)] \<and>
      bi_Name (ms_BaseInfo s2') = bi_Name (ms_BaseInfo s2) \<and> mi_Status (ms_MonitoredInfo s2') = threshold_rule v a b \<and>
      mi_LastCheckTime (ms_MonitoredInfo s2') = Some t"
    using assms(9,10) by (simp add: synthetic_service_def new_BaseInfo_def check_times_def)
  then obtain s2' where s2: "synthetic_service ci s2 m v = Done s2'" "map ts_Value (ms_Metrics s2') = [Some (tv_double v)]"
      "bi_Name (ms_BaseInfo s2') = bi_Name (ms_BaseInfo s2)" "mi_Status (ms_MonitoredInfo s2') = threshold_rule v a b"
      "mi_LastCheckTime (ms_MonitoredInfo s2') = Some t"
    by (elim exE conjE) (rule that)
  have "synthetic_pass env fuel ci (ms_Metrics s2) ?vars s2 = Done (vars', s2')" using assms(2,3) ev s2(1) by simp
  then have ee: "EvaluateExpressions env fuel ci [s1, s2] = Done [s1, s2']"
    unfolding EvaluateExpressions_def vars using p1 by (simp only: bind_exec.simps synthetic_services.simps prod.case)
  show ?thesis by (rule exI [of _ s2'], intro conjI) (rule ee s2)+
qed

text \<open>
  The same with a double metric: the variable holds a pointer where the evaluator expects a number, so a synthetic
  metric that names a double metric makes the connector panic.
\<close>

theorem double_metric_panics:
  assumes "ms_Metrics s1 = [m1]" "ts_MetricComputeType m1 \<noteq> Synthetic" "ts_Value m1 = Some (tv_double d)" "gx_name (ts_MetricName m1)"
    and "ms_Metrics s2 = [m2]" "ts_MetricComputeType m2 = Synthetic" "ts_MetricExpression m2 = ts_MetricName m1" "1 < fuel"
  shows "EvaluateExpressions env fuel ci [s1, s2] = Panic TypeAssertion"
proof -
  let ?x = "ts_MetricName m1" and ?vars = "Map.empty(var_name (ts_MetricName m1) \<mapsto> VPointer (Some d))"
  have "fuel = Suc (Suc (fuel - 2))" using assms(8) by simp
  then obtain k where k: "fuel = Suc (Suc k)" ..
  have vars: "metric_vars (concat (map ms_Metrics [s1, s2])) Map.empty = Done ?vars"
    using assms(1,2,3,5,6) by (simp add: metric_var_def tv_defs)
  have nc: "CHR '':'' \<notin> set ?x" "comma \<notin> set ?x" using gx_name_chars [OF assms(4)] by blast+
  have t: "TrimSpace ?x = ?x" "\<not> (\<exists>c \<in> set ?x. c \<in> {CHR ''+'', CHR ''-'', CHR ''/'', CHR ''*''})"
    using gx_name_Trim [OF assms(4)] gx_name_chars [OF assms(4)] by blast+
  have "gw_args env ?vars [?x] [] = Panic TypeAssertion" using t by simp
  then have fin: "gw_finish env ?x ?vars = Panic TypeAssertion" by (simp add: gw_finish_def Split_none [OF nc(2)])
  have "\<not> gw_match ?x" using no_colon_no_call(2) [OF nc(1)] by (simp add: gw_match_def)
  then have ev: "EvaluateGroundworkExpression env fuel ?x ?vars 0 = Some (Panic TypeAssertion)"
    using fin no_colon_no_call(1) [OF nc(1)] t(1) by (simp add: k EvaluateGroundworkExpression.simps gw_loop.simps)
  have p1: "synthetic_pass env fuel ci (ms_Metrics s1) ?vars s1 = Done (?vars, s1)" using assms(1,2) by simp
  have p2: "synthetic_pass env fuel ci (ms_Metrics s2) ?vars s2 = Panic TypeAssertion" using assms(5,6,7) ev by simp
  show ?thesis unfolding EvaluateExpressions_def vars using p1 p2 by (simp only: bind_exec.simps synthetic_services.simps prod.case)
qed

subsection \<open>Concrete builders\<close>

definition demo_builder :: "go_any option \<Rightarrow> MetricBuilder" where
  "demo_builder w = \<lparr>mb_Name = ''cpu'', mb_CustomName = [], mb_ComputeType = [], mb_Expression = [], mb_Value = A_int 85, mb_UnitType = None,
     mb_Warning = w, mb_Critical = Some (A_int 90), mb_StartTimestamp = None, mb_EndTimestamp = None, mb_Graphed = True, mb_Tags = Map.empty\<rparr>"

lemma small_numbers: "number_of (tv_integer 85) = Some (FFin 85)" "number_of (tv_integer 80) = Some (FFin 80)" "number_of (tv_integer 90) = Some (FFin 90)"
  by (simp_all add: number_of_def tv_defs f64_of_int_exact)


theorem bad_threshold_panics_witness: "BuildMetric 0 (demo_builder (Some A_other)) = Panic NilDereference"
  using bad_threshold_panics [of "demo_builder (Some A_other)" "tv_integer 85" 0 60 "''host''"] by (simp add: demo_builder_def)

definition demo_series :: "bytes \<Rightarrow> TypedValue \<Rightarrow> bytes \<Rightarrow> bytes \<Rightarrow> TimeSeries" where
  "demo_series name v ct expr = \<lparr>ts_MetricName = name, ts_SampleType = SampleValue,
     ts_Interval = Some \<lparr>ti_EndTime = Some 1000, ti_StartTime = Some 1000\<rparr>, ts_Value = Some v, ts_Tags = Map.empty, ts_Unit = ''1'',
     ts_Thresholds = [\<lparr>th_SampleType = SampleWarning, th_Label = ''w'', th_Value = Some (tv_integer 80)\<rparr>,
                      \<lparr>th_SampleType = SampleCritical, th_Label = ''c'', th_Value = Some (tv_integer 90)\<rparr>],
     ts_MetricComputeType = ct, ts_MetricExpression = expr\<rparr>"

definition demo_synthetic :: "TypedValue \<Rightarrow> bytes \<Rightarrow> MonitoredService list" where
  "demo_synthetic v expr =
     [\<lparr>ms_BaseInfo = new_BaseInfo ''a'' ResourceTypeService ''h'', ms_MonitoredInfo = zero_MonitoredInfo, ms_Metrics = [demo_series ''a'' v [] []]\<rparr>,
      \<lparr>ms_BaseInfo = new_BaseInfo ''b'' ResourceTypeService ''h'', ms_MonitoredInfo = zero_MonitoredInfo,
       ms_Metrics = [demo_series ''b'' (tv_integer 0) Synthetic expr]\<rparr>]"

lemma demo_var: "var_name ''a'' = ''a''"
  by (simp add: var_name_def HasPrefix_Cons)

theorem EvaluateExpressions_keeps_witness:
  "\<exists>s1 s2. EvaluateExpressions demo_expr_env 9 60 (demo_synthetic (tv_integer 85) ''zz'') = Done [s1, s2] \<and> s1 = hd (demo_synthetic (tv_integer 85) ''zz'')"
proof -
  have n: "var_name ''zz'' = ''zz''" by (simp add: var_name_def HasPrefix_Cons)
  have c: "\<not> gw_match ''zz''" "\<not> Contains ''zz'' ''GW:''" "TrimSpace ''zz'' = ''zz''"
    by (auto simp: gw_match_def HasPrefix_Cons TrimSpace_def Trim_def TrimLeft_def TrimRight_def ascii_space_def HasPrefix_def)
  have ev: "EvaluateGroundworkExpression demo_expr_env 9 ''zz'' [''a'' \<mapsto> VFloat (FFin 85)] 0 = Some (Done ([''a'' \<mapsto> VFloat (FFin 85)], Inl (UndefinedVariable ''zz'')))"
    using c n by (simp add: numeral_eq_Suc EvaluateGroundworkExpression.simps gw_loop.simps gw_finish_def)
  have "EvaluateExpressions demo_expr_env 9 60 (demo_synthetic (tv_integer 85) ''zz'') = Done (demo_synthetic (tv_integer 85) ''zz'')"
    using ev by (simp add: EvaluateExpressions_def demo_synthetic_def demo_series_def metric_var_def Synthetic_def tv_defs demo_var f64_of_int_exact)
  from this EvaluateExpressions_keeps [OF this] show ?thesis by (simp add: demo_synthetic_def)
qed

theorem synthetic_metric_value_witness:
  "\<exists>s2. EvaluateExpressions demo_expr_env 9 60 (demo_synthetic (tv_integer 85) ''GW:toDouble(a)'') =
     Done [hd (demo_synthetic (tv_integer 85) ''GW:toDouble(a)''), s2] \<and> mi_Status (ms_MonitoredInfo s2) = ServiceWarning"
proof -
  let ?e = "C ''toDouble'' [V ''a'']" and ?s1 = "demo_synthetic (tv_integer 85) ''GW:toDouble(a)'' ! 0" and ?s2 = "demo_synthetic (tv_integer 85) ''GW:toDouble(a)'' ! 1"
  let ?m = "demo_series ''b'' (tv_integer 0) Synthetic ''GW:toDouble(a)''"
  have "threshold_rule (FFin 85) (FFin 80) (FFin 90) = ServiceWarning" by (simp add: threshold_rule_def)
  moreover have "gx_value u (integer_vars (ms_Metrics ?s1)) ?e = Some (FFin 85)" for u
    by (simp add: demo_synthetic_def integer_vars_def metric_number_def demo_series_def tv_defs demo_var f64_of_int_exact var_value_def
        gw_apply_def expressionToFuncMap_def gw_functions_def expressionToArgsCountMap_def gw_args_counts_def IntToDouble_def)
  moreover have "\<forall>i. res_name i \<notin> gx_vars ?e" by (simp add: demo_var res_name_def)
  moreover have "gx_ok ?e" by (simp add: gx_name_def word_char_def)
  moreover have "\<forall>m \<in> set (ms_Metrics ?s1). integer_metric m" by (auto simp: demo_synthetic_def demo_series_def integer_metric_def Synthetic_def)
  moreover have "pick_thresholds (ts_Thresholds ?m) None None = Inr (Some (tv_integer 80), Some (tv_integer 90))"
    by (simp add: demo_series_def SampleWarning_def SampleCritical_def)
  moreover have "demo_synthetic (tv_integer 85) ''GW:toDouble(a)'' = [?s1, ?s2]" "ms_Metrics ?s2 = [?m]" by (simp_all add: demo_synthetic_def)
  moreover have "ts_Interval ?m = Some \<lparr>ti_EndTime = Some 1000, ti_StartTime = Some 1000\<rparr>" "ts_MetricComputeType ?m = Synthetic"
      "ts_MetricExpression ?m = gx_text ?e" "\<not> f64_eq (FFin 80) minus_one" "\<not> f64_eq (FFin 90) minus_one" "gx_calls ?e + 4 < 9"
    by (simp_all add: demo_series_def)
  ultimately obtain s2 where "EvaluateExpressions demo_expr_env 9 60 [?s1, ?s2] = Done [?s1, s2]" "mi_Status (ms_MonitoredInfo s2) = ServiceWarning"
    using synthetic_metric_value [of ?s1 ?s2 ?m ?e 9 demo_expr_env "FFin 85" "\<lparr>ti_EndTime = Some 1000, ti_StartTime = Some 1000\<rparr>" 1000
        "tv_integer 80" "tv_integer 90" "FFin 80" "FFin 90" 60] small_numbers(2,3) by auto
  then show ?thesis by (auto simp: demo_synthetic_def)
qed

theorem double_metric_panics_witness: "EvaluateExpressions demo_expr_env 9 60 (demo_synthetic (tv_double (FFin 1)) ''a'') = Panic TypeAssertion"
  unfolding demo_synthetic_def
  by (rule double_metric_panics [of _ "demo_series ''a'' (tv_double (FFin 1)) [] []" "FFin 1" _ "demo_series ''b'' (tv_integer 0) Synthetic ''a''"])
    (simp_all add: demo_series_def Synthetic_def gx_name_def word_char_def)

end
