(* ===== verification/Metric_Types.thy ===== *)
theory Metric_Types
  imports Connector_Build
begin

text \<open>
  The typing discipline of metric values.  A \<open>TypedValue\<close> of \<^verbatim>\<open>sdk/transit/transit.go\<close> is a tag and five pointers, of
  which the readers dereference the one the tag names: the type of the Go program does not say that it is not nil.
  The predicates below do, and the builders of \<^verbatim>\<open>connectors/connectors.go\<close> establish them: values that are well typed
  going in give metrics that are well typed coming out, on which no reader can panic.
\<close>

section \<open>Well typed values\<close>

definition well_typed :: "TypedValue \<Rightarrow> bool" where
  "well_typed v =
     (if tv_ValueType v = IntegerType then tv_IntegerValue v \<noteq> None
      else if tv_ValueType v = StringType then tv_StringValue v \<noteq> None
      else if tv_ValueType v = DoubleType then tv_DoubleValue v \<noteq> None
      else if tv_ValueType v = BooleanType then tv_BoolValue v \<noteq> None
      else if tv_ValueType v = TimeType then tv_TimeValue v \<noteq> None
      else False)"

text \<open>What \<open>NewTypedValue\<close> accepts: a supported dynamic type and no nil pointer.\<close>

fun typed_any :: "go_any \<Rightarrow> bool" where
  "typed_any (A_pbool v) = (v \<noteq> None)"
| "typed_any (A_pfloat32 v) = (v \<noteq> None)"
| "typed_any (A_pfloat64 v) = (v \<noteq> None)"
| "typed_any (A_pint v) = (v \<noteq> None)"
| "typed_any (A_pint8 v) = (v \<noteq> None)"
| "typed_any (A_pint16 v) = (v \<noteq> None)"
| "typed_any (A_pint32 v) = (v \<noteq> None)"
| "typed_any (A_pint64 v) = (v \<noteq> None)"
| "typed_any (A_puint v) = (v \<noteq> None)"
| "typed_any (A_puint8 v) = (v \<noteq> None)"
| "typed_any (A_puint16 v) = (v \<noteq> None)"
| "typed_any (A_puint32 v) = (v \<noteq> None)"
| "typed_any (A_puint64 v) = (v \<noteq> None)"
| "typed_any (A_pstring v) = (v \<noteq> None)"
| "typed_any (A_pTimestamp v) = (v \<noteq> None)"
| "typed_any (A_TypedValue v) = well_typed v"
| "typed_any (A_pTypedValue v) = (case v of None \<Rightarrow> False | Some t \<Rightarrow> well_typed t)"
| "typed_any A_other = False"
| "typed_any _ = True"

definition typed_metric :: "TimeSeries \<Rightarrow> bool" where
  "typed_metric m =
     ((case ts_Value m of None \<Rightarrow> False | Some v \<Rightarrow> well_typed v) \<and>
      list_all (\<lambda>t. th_SampleType t \<in> {SampleWarning, SampleCritical} \<and>
        (case th_Value t of None \<Rightarrow> False | Some v \<Rightarrow> well_typed v)) (ts_Thresholds m) \<and>
      (case ts_Interval m of None \<Rightarrow> False | Some i \<Rightarrow> ti_EndTime i \<noteq> None))"

definition typed_builder :: "MetricBuilder \<Rightarrow> bool" where
  "typed_builder mb =
     (typed_any (mb_Value mb) \<and> pred_option typed_any (mb_Warning mb) \<and> pred_option typed_any (mb_Critical mb) \<and>
      pred_option (\<lambda>u. case u of MA_string _ \<Rightarrow> True | MA_UnitType _ \<Rightarrow> True | _ \<Rightarrow> False) (mb_UnitType mb))"

section \<open>Readers of well typed values\<close>

lemma value_types_distinct [simp]:
  "StringType \<noteq> IntegerType" "DoubleType \<noteq> IntegerType" "BooleanType \<noteq> IntegerType" "TimeType \<noteq> IntegerType"
  "DoubleType \<noteq> StringType" "BooleanType \<noteq> StringType" "TimeType \<noteq> StringType"
  "BooleanType \<noteq> DoubleType" "TimeType \<noteq> DoubleType" "TimeType \<noteq> BooleanType"
  by (simp_all add: value_type_defs)

declare value_types_distinct [symmetric, simp]

lemma well_typed_tv [simp]:
  "well_typed (tv_bool b)" "well_typed (tv_double d)" "well_typed (tv_integer i)" "well_typed (tv_string s)" "well_typed (tv_time t)"
  by (simp_all add: well_typed_def tv_bool_def tv_double_def tv_integer_def tv_string_def tv_time_def)

lemma well_typed_number:
  "well_typed v \<Longrightarrow> tv_ValueType v = IntegerType \<Longrightarrow> \<exists>i. tv_IntegerValue v = Some i"
  "well_typed v \<Longrightarrow> tv_ValueType v = DoubleType \<Longrightarrow> \<exists>d. tv_DoubleValue v = Some d"
  by (auto simp: well_typed_def)

lemma well_typed_reads: "well_typed v \<Longrightarrow> \<exists>s. TypedValue_String v = Done s"
  by (auto simp: well_typed_def TypedValue_String_def split: if_splits)

lemma threshold_number_typed: "pred_option well_typed t \<Longrightarrow> \<exists>x. threshold_number t = Done x"
  using well_typed_number by (cases t) (auto simp: threshold_number_def)

lemma CalculateStatus_typed:
  assumes "well_typed v" "pred_option well_typed w" "pred_option well_typed c"
  shows "\<exists>s. CalculateStatus (Some v) w c = Done s"
proof -
  obtain a b where ab: "threshold_number w = Done a" "threshold_number c = Done b"
    using threshold_number_typed assms(2,3) by meson
  then show ?thesis using well_typed_number [OF assms(1)] by (auto simp: CalculateStatus_def)
qed

lemma pick_thresholds_typed:
  assumes "list_all (\<lambda>t. th_SampleType t \<in> {SampleWarning, SampleCritical} \<and>
        (case th_Value t of None \<Rightarrow> False | Some v \<Rightarrow> well_typed v)) ts"
    and "pred_option well_typed w" "pred_option well_typed c"
  shows "\<exists>w' c'. pick_thresholds ts w c = Inr (w', c') \<and> pred_option well_typed w' \<and> pred_option well_typed c'"
  using assms
proof (induction ts arbitrary: w c)
  case (Cons t ts)
  then obtain v where v: "th_Value t = Some v" "well_typed v" by (auto split: option.splits)
  show ?case
  proof (cases "th_SampleType t = SampleWarning")
    case True
    then show ?thesis using Cons.IH [of "th_Value t" c] Cons.prems v by simp
  next
    case False
    then show ?thesis using Cons.IH [of w "th_Value t"] Cons.prems v by simp
  qed
qed simp

lemma service_status_typed:
  assumes "list_all typed_metric ms" "prev \<in> {ServiceOk, ServiceWarning, ServiceUnscheduledCritical}"
  shows "\<exists>s. service_status_loop prev ms = Done (s, None) \<and> s \<in> {ServiceOk, ServiceWarning, ServiceUnscheduledCritical}"
  using assms
proof (induction ms arbitrary: prev)
  case (Cons m ms)
  then obtain v where v: "ts_Value m = Some v" "well_typed v" by (auto simp: typed_metric_def split: option.splits)
  have "typed_metric m" using Cons.prems(1) by simp
  then obtain w c where wc: "pick_thresholds (ts_Thresholds m) None None = Inr (w, c)" "pred_option well_typed w" "pred_option well_typed c"
    using pick_thresholds_typed [of "ts_Thresholds m" None None] by (auto simp: typed_metric_def)
  obtain s where s: "CalculateStatus (ts_Value m) w c = Done s" using CalculateStatus_typed [OF v(2) wc(2,3)] v(1) by auto
  note r = CalculateStatus_range [OF s]
  let ?p = "if MonitorStatusWeightService s > MonitorStatusWeightService prev then s else prev"
  have ms: "list_all typed_metric ms" using Cons.prems(1) by simp
  have p: "?p \<in> {ServiceOk, ServiceWarning, ServiceUnscheduledCritical}" using r Cons.prems(2) by (simp split: if_split)
  show ?case
  proof (cases "ts_Thresholds m = []")
    case True
    then show ?thesis using Cons.IH [OF ms Cons.prems(2)] by simp
  next
    case False
    have "service_status_loop prev (m # ms) = service_status_loop ?p ms" using False wc(1) s by simp
    then show ?thesis using Cons.IH [OF ms p] by (simp only:)
  qed
qed simp

section \<open>What the builders make\<close>

lemma NewTypedValue_typed: "typed_any x \<Longrightarrow> \<exists>v. NewTypedValue x = Done (Some v) \<and> well_typed v"
  by (cases x) (auto simp: via_def split: option.splits)

lemma optional_threshold_typed:
  assumes "pred_option typed_any x" "k \<in> {SampleWarning, SampleCritical}" "\<And>l y. create l y = CreateThreshold k l y"
  shows "\<exists>ts. optional_threshold create label x = Done ts \<and>
    list_all (\<lambda>t. th_SampleType t \<in> {SampleWarning, SampleCritical} \<and> (case th_Value t of None \<Rightarrow> False | Some v \<Rightarrow> well_typed v)) ts"
proof (cases x)
  case (Some y)
  then obtain v where v: "NewTypedValue y = Done (Some v)" "well_typed v" using assms(1) NewTypedValue_typed by auto
  then show ?thesis using Some assms(2) by (simp add: optional_threshold_def built_threshold_def assms(3) CreateThreshold_def)
qed (simp add: optional_threshold_def)

lemma CreateMetric_typed:
  assumes "typed_builder mb"
  shows "\<exists>m. CreateMetric now n (mb_Value mb) (builder_args mb) = Done (Inr m) \<and> typed_metric m \<and> ts_Thresholds m = []"
proof -
  obtain v where v: "NewTypedValue (mb_Value mb) = Done (Some v)" "well_typed v"
    using assms NewTypedValue_typed by (auto simp: typed_builder_def)
  show ?thesis
    using v assms by (cases "mb_UnitType mb"; cases "mb_StartTimestamp mb"; cases "mb_EndTimestamp mb"; cases "mb_Tags mb = Map.empty")
      (auto simp: CreateMetric_def builder_args_def typed_builder_def typed_metric_def Let_def split: metric_arg.splits)
qed

lemma BuildMetric_typed:
  assumes "typed_builder mb"
  shows "\<exists>m. BuildMetric now mb = Done (Inr m) \<and> typed_metric m"
proof -
  let ?n = "Name (mb_Name mb) (mb_CustomName mb)"
  obtain m where m: "CreateMetric now ?n (mb_Value mb) (builder_args mb) = Done (Inr m)" "typed_metric m" "ts_Thresholds m = []"
    using CreateMetric_typed [OF assms] by blast
  have x: "pred_option typed_any (mb_Warning mb)" "pred_option typed_any (mb_Critical mb)" using assms by (simp_all add: typed_builder_def)
  obtain w where w: "optional_threshold CreateWarningThreshold (?n @ ''_wn'') (mb_Warning mb) = Done w"
      "list_all (\<lambda>t. th_SampleType t \<in> {SampleWarning, SampleCritical} \<and> (case th_Value t of None \<Rightarrow> False | Some v \<Rightarrow> well_typed v)) w"
    using optional_threshold_typed [OF x(1), of SampleWarning CreateWarningThreshold "?n @ ''_wn''"] by (auto simp: CreateWarningThreshold_def)
  obtain c where c: "optional_threshold CreateCriticalThreshold (?n @ ''_cr'') (mb_Critical mb) = Done c"
      "list_all (\<lambda>t. th_SampleType t \<in> {SampleWarning, SampleCritical} \<and> (case th_Value t of None \<Rightarrow> False | Some v \<Rightarrow> well_typed v)) c"
    using optional_threshold_typed [OF x(2), of SampleCritical CreateCriticalThreshold "?n @ ''_cr''"] by (auto simp: CreateCriticalThreshold_def)
  show ?thesis using m w c by (simp add: BuildMetric_def Let_def typed_metric_def)
qed

lemma build_metrics_typed:
  assumes "list_all typed_builder mbs"
  shows "\<exists>ms. build_metrics now mbs = Done (Inr ms) \<and> list_all typed_metric ms \<and> length ms = length mbs"
  using assms
proof (induction mbs)
  case (Cons mb mbs)
  obtain m where "BuildMetric now mb = Done (Inr m)" "typed_metric m" using BuildMetric_typed Cons.prems by auto
  moreover obtain ms where "build_metrics now mbs = Done (Inr ms)" "list_all typed_metric ms" "length ms = length mbs"
    using Cons by auto
  ultimately show ?case by simp
qed simp

lemma CreateService_typed:
  assumes "list_all typed_metric ms" "ms \<noteq> []"
  shows "\<exists>s. CreateService now ci name owner [SA_Metrics ms] = Done (Inr s) \<and> ms_Metrics s = ms \<and>
    mi_Status (ms_MonitoredInfo s) \<in> {ServiceOk, ServiceWarning, ServiceUnscheduledCritical}"
proof -
  have "typed_metric (last ms)" using assms by (simp add: list_all_iff)
  then obtain t where t: "last_end_time ms = Done t" by (auto simp: last_end_time_def typed_metric_def split: option.splits)
  obtain s where s: "service_status_loop ServiceOk ms = Done (s, None)" "s \<in> {ServiceOk, ServiceWarning, ServiceUnscheduledCritical}"
    using service_status_typed [OF assms(1), of ServiceOk] by auto
  have "CalculateServiceStatus (Some ms) = Done (s, None)" using s(1) assms(2) by (cases ms) (simp_all add: CalculateServiceStatus_def)
  then show ?thesis using t s(2) assms(2) by (simp add: CreateService_def)
qed

text \<open>
  C24. Type safety of the builders: from builders whose values are of supported types, without nil pointers, the service
  is built, without an error and without a panic; it has one metric for each builder, every one of them well typed
  (the tag of each value and of each threshold names a field that is set, and the interval has an end), so every value
  can be printed, and its status is one of the three the threshold rules give.
\<close>

theorem builders_type_safe:
  assumes "list_all typed_builder mbs" "mbs \<noteq> []"
  shows "\<exists>s. BuildServiceForMultiMetric now ci hostName serviceName customName mbs = Done (Inr s) \<and>
    length (ms_Metrics s) = length mbs \<and> list_all typed_metric (ms_Metrics s) \<and>
    (\<forall>m v. m \<in> set (ms_Metrics s) \<and> ts_Value m = Some v \<longrightarrow> (\<exists>t. TypedValue_String v = Done t)) \<and>
    mi_Status (ms_MonitoredInfo s) \<in> {ServiceOk, ServiceWarning, ServiceUnscheduledCritical}"
proof -
  obtain ms where ms: "build_metrics now mbs = Done (Inr ms)" "list_all typed_metric ms" "length ms = length mbs"
    using build_metrics_typed [OF assms(1)] by blast
  then have "ms \<noteq> []" using assms(2) by auto
  then obtain s where s: "CreateService now ci (Name serviceName customName) hostName [SA_Metrics ms] = Done (Inr s)" "ms_Metrics s = ms"
      "mi_Status (ms_MonitoredInfo s) \<in> {ServiceOk, ServiceWarning, ServiceUnscheduledCritical}"
    using CreateService_typed [OF ms(2)] by blast
  have "m \<in> set ms \<and> ts_Value m = Some v \<Longrightarrow> \<exists>t. TypedValue_String v = Done t" for m v
    using ms(2) well_typed_reads by (auto simp: list_all_iff typed_metric_def split: option.splits)
  then show ?thesis using ms s by (intro exI [of _ s]) (simp add: BuildServiceForMultiMetric_def)
qed

theorem builders_type_safe_witness:
  "\<exists>s. BuildServiceForMultiMetric 1000 60 ''host'' ''cpu'' [] [demo_builder (Some (A_int 80)), demo_builder None] = Done (Inr s) \<and>
     length (ms_Metrics s) = 2 \<and> list_all typed_metric (ms_Metrics s)"
proof -
  have "list_all typed_builder [demo_builder (Some (A_int 80)), demo_builder None]" by (simp add: demo_builder_def typed_builder_def)
  from builders_type_safe [OF this, of 1000 60 "''host''" "''cpu''" "[]"] show ?thesis by auto
qed

end
