(* ===== verification/Go_Regexp.thy ===== *)
theory Go_Regexp
  imports Go_Prelude
begin

text \<open>
  The part of Go's package \<^verbatim>\<open>regexp\<close> that \<^verbatim>\<open>connectors/nsca/parser\<close> and \<^verbatim>\<open>sdk/mapping\<close> rely on: programs with
  numbered groups, matched in leftmost-first order.  The matcher takes what has to follow as a continuation and
  tries the alternatives in their order of preference, which is the order of Go's backtracker; a repetition whose
  body matched nothing is left at once.  A text is a list of bytes and a character class a predicate on bytes.
\<close>

section \<open>Matching\<close>

datatype rx =
    REmpty
  | RBegin
  | REnd
  | RChr "char \<Rightarrow> bool"
  | RSeq rx rx
  | RAlt rx rx
  | ROpt rx
  | RStar bool rx
  | RGroup nat rx

type_synonym caps = "nat \<rightharpoonup> bytes"

text \<open>The state of a match: how many bytes are consumed, the bytes left, the texts of the groups.\<close>

type_synonym rx_state = "nat \<times> bytes \<times> caps"

definition or_else :: "'a option \<Rightarrow> 'a option \<Rightarrow> 'a option" where
  "or_else a b = (case a of Some x \<Rightarrow> Some x | None \<Rightarrow> b)"

abbreviation rx_rest :: "rx_state \<Rightarrow> bytes" where "rx_rest s \<equiv> fst (snd s)"

type_synonym 'x rx_step = "rx_state \<Rightarrow> (rx_state \<Rightarrow> 'x option) \<Rightarrow> 'x option"

text \<open>A repetition: greedy ones try the body first.  Every round but the last consumes a byte.\<close>

primrec star_iter :: "nat \<Rightarrow> bool \<Rightarrow> 'x rx_step \<Rightarrow> 'x rx_step" where
  "star_iter 0 greedy f s k = k s"
| "star_iter (Suc n) greedy f s k =
     (if greedy
      then or_else (f s (\<lambda>t. if length (rx_rest t) < length (rx_rest s) then star_iter n greedy f t k else k t)) (k s)
      else or_else (k s) (f s (\<lambda>t. if length (rx_rest t) < length (rx_rest s) then star_iter n greedy f t k else k t)))"

primrec rx_match :: "rx \<Rightarrow> 'x rx_step" where
  "rx_match REmpty s k = k s"
| "rx_match RBegin s k = (if fst s = 0 then k s else None)"
| "rx_match REnd s k = (if rx_rest s = [] then k s else None)"
| "rx_match (RChr p) s k =
     (case s of (i, t, c) \<Rightarrow> if t \<noteq> [] \<and> p (hd t) then k (Suc i, tl t, c) else None)"
| "rx_match (RSeq a b) s k = rx_match a s (\<lambda>t. rx_match b t k)"
| "rx_match (RAlt a b) s k = or_else (rx_match a s k) (rx_match b s k)"
| "rx_match (ROpt a) s k = or_else (rx_match a s k) (k s)"
| "rx_match (RStar greedy a) s k = star_iter (Suc (length (rx_rest s))) greedy (rx_match a) s k"
| "rx_match (RGroup n a) s k =
     rx_match a s (\<lambda>(i, t, c). k (i, t, c(n \<mapsto> take (length (rx_rest s) - length t) (rx_rest s))))"

text \<open>A byte, white space, and a sequence of expressions.\<close>

definition space_char :: "char \<Rightarrow> bool" where "space_char c \<longleftrightarrow> c \<in> {CHR 0x09, CHR 0x0A, CHR 0x0C, CHR 0x0D, CHR '' ''}"

abbreviation chr :: "char \<Rightarrow> rx" where "chr d \<equiv> RChr ((=) d)"
abbreviation spaces :: rx where "spaces \<equiv> RStar True (RChr space_char)"

fun rseq :: "rx list \<Rightarrow> rx" where
  "rseq [] = REmpty"
| "rseq [r] = r"
| "rseq (r # s # rs) = RSeq r (rseq (s # rs))"

text \<open>A compiled expression: its program and the names of its groups, the group 0 being the whole match.\<close>

record Regexp =
  re_prog :: rx
  re_names :: "bytes list"

text \<open>A match that starts at a given position of a text: the texts of the groups and the position after the match.\<close>

definition match_at :: "Regexp \<Rightarrow> bytes \<Rightarrow> nat \<Rightarrow> (caps \<times> nat) option" where
  "match_at re s i = rx_match (RGroup 0 (re_prog re)) (i, drop i s, Map.empty) (\<lambda>(j, _, c). Some (c, j))"

fun match_from :: "Regexp \<Rightarrow> bytes \<Rightarrow> nat \<Rightarrow> nat \<Rightarrow> (nat \<times> caps \<times> nat) option" where
  "match_from re s i 0 = map_option (Pair i) (match_at re s i)"
| "match_from re s i (Suc n) = or_else (map_option (Pair i) (match_at re s i)) (match_from re s (Suc i) n)"

text \<open>The leftmost match at or after a position: where it starts, its groups, where it ends.\<close>

definition leftmost :: "Regexp \<Rightarrow> bytes \<Rightarrow> nat \<Rightarrow> (nat \<times> caps \<times> nat) option" where
  "leftmost re s i = (if i > length s then None else match_from re s i (length s - i))"

text \<open>Index of a group by its name; \<open>None\<close> is Go's \<open>-1\<close>.\<close>

fun name_index :: "bytes list \<Rightarrow> bytes \<Rightarrow> nat \<Rightarrow> nat option" where
  "name_index [] name i = None"
| "name_index (n # ns) name i = (if n = name then Some i else name_index ns name (Suc i))"

definition SubexpIndex :: "Regexp \<Rightarrow> bytes \<Rightarrow> nat option" where
  "SubexpIndex re name = (if name = [] then None else name_index (re_names re) name 0)"

text \<open>\<open>FindStringSubmatch\<close>: \<open>None\<close> is nil; a group that took no part in the match has the empty text.\<close>

definition FindStringSubmatch :: "Regexp \<Rightarrow> bytes \<Rightarrow> bytes list option" where
  "FindStringSubmatch re s =
     (case leftmost re s 0 of
        None \<Rightarrow> None
      | Some (_, c, _) \<Rightarrow> Some (map (\<lambda>n. case c n of None \<Rightarrow> [] | Some t \<Rightarrow> t) [0..<length (re_names re)]))"

text \<open>\<open>match[re.SubexpIndex(name)]\<close>, which panics when there is no such group.\<close>

definition submatch :: "Regexp \<Rightarrow> bytes list \<Rightarrow> bytes \<Rightarrow> bytes exec" where
  "submatch re m name =
     (case SubexpIndex re name of
        None \<Rightarrow> Panic IndexOutOfRange
      | Some i \<Rightarrow> if i < length m then Done (m ! i) else Panic IndexOutOfRange)"

section \<open>Repeated classes\<close>

text \<open>What a repeated character class does, one byte after the other.\<close>

fun lazy_run :: "(char \<Rightarrow> bool) \<Rightarrow> rx_state \<Rightarrow> (rx_state \<Rightarrow> 'x option) \<Rightarrow> 'x option" where
  "lazy_run p (i, [], c) k = k (i, [], c)"
| "lazy_run p (i, a # s, c) k = or_else (k (i, a # s, c)) (if p a then lazy_run p (Suc i, s, c) k else None)"

fun greedy_run :: "(char \<Rightarrow> bool) \<Rightarrow> rx_state \<Rightarrow> (rx_state \<Rightarrow> 'x option) \<Rightarrow> 'x option" where
  "greedy_run p (i, [], c) k = k (i, [], c)"
| "greedy_run p (i, a # s, c) k = or_else (if p a then greedy_run p (Suc i, s, c) k else None) (k (i, a # s, c))"

lemma or_else_simps [simp]: "or_else (Some x) b = Some x" "or_else None b = b" "or_else a None = a"
  by (simp_all add: or_else_def split: option.split)

lemma or_else_SomeE:
  assumes "or_else a b = Some x"
  obtains "a = Some x" | "a = None" "b = Some x"
  using assms by (cases a) auto

lemma star_iter_lazy: "length s < n \<Longrightarrow> star_iter n False (rx_match (RChr p)) (i, s, c) k = lazy_run p (i, s, c) k"
proof (induction s arbitrary: n i)
  case Nil
  then show ?case by (cases n) simp_all
next
  case (Cons a s)
  then obtain m where "n = Suc m" "length s < m" by (cases n) auto
  then show ?case using Cons.IH[of m] by simp
qed

lemma star_iter_greedy: "length s < n \<Longrightarrow> star_iter n True (rx_match (RChr p)) (i, s, c) k = greedy_run p (i, s, c) k"
proof (induction s arbitrary: n i)
  case Nil
  then show ?case by (cases n) simp_all
next
  case (Cons a s)
  then obtain m where "n = Suc m" "length s < m" by (cases n) auto
  then show ?case using Cons.IH[of m] by simp
qed

text \<open>The equations of the matcher on classes, in place of those with a bound.\<close>

lemma rx_match_lazy [simp]: "rx_match (RStar False (RChr p)) (i, s, c) k = lazy_run p (i, s, c) k"
  by (simp only: rx_match.simps fst_conv snd_conv star_iter_lazy lessI)

lemma rx_match_greedy [simp]: "rx_match (RStar True (RChr p)) (i, s, c) k = greedy_run p (i, s, c) k"
  by (simp only: rx_match.simps fst_conv snd_conv star_iter_greedy lessI)

declare rx_match.simps(8) [simp del]

text \<open>A successful run stops at a prefix of the text whose bytes are all in the class.\<close>

lemma lazy_run_SomeE:
  assumes "lazy_run p (i, s, c) k = Some x"
  obtains f t where "s = f @ t" "\<forall>a \<in> set f. p a" "k (i + length f, t, c) = Some x"
  using assms
proof (induction s arbitrary: i thesis)
  case Nil
  then show ?case by simp
next
  case (Cons a s)
  from Cons.prems(2) consider "k (i, a # s, c) = Some x" | "p a" "lazy_run p (Suc i, s, c) k = Some x"
    by (auto split: if_splits elim: or_else_SomeE)
  then show ?case
  proof cases
    case 1
    then show ?thesis using Cons.prems(1)[of "[]" "a # s"] by simp
  next
    case 2
    obtain f t where "s = f @ t" "\<forall>a \<in> set f. p a" "k (Suc i + length f, t, c) = Some x"
      using Cons.IH[OF _ 2(2)] by blast
    then show ?thesis using Cons.prems(1)[of "a # f" t] 2(1) by simp
  qed
qed

lemma greedy_run_SomeE:
  assumes "greedy_run p (i, s, c) k = Some x"
  obtains f t where "s = f @ t" "\<forall>a \<in> set f. p a" "k (i + length f, t, c) = Some x"
  using assms
proof (induction s arbitrary: i thesis)
  case Nil
  then show ?case by simp
next
  case (Cons a s)
  from Cons.prems(2) consider "k (i, a # s, c) = Some x" | "p a" "greedy_run p (Suc i, s, c) k = Some x"
    by (auto split: if_splits elim: or_else_SomeE)
  then show ?case
  proof cases
    case 1
    then show ?thesis using Cons.prems(1)[of "[]" "a # s"] by simp
  next
    case 2
    obtain f t where "s = f @ t" "\<forall>a \<in> set f. p a" "k (Suc i + length f, t, c) = Some x"
      using Cons.IH[OF _ 2(2)] by blast
    then show ?thesis using Cons.prems(1)[of "a # f" t] 2(1) by simp
  qed
qed

text \<open>Where the continuation fails before a point, a lazy run gets there; a greedy run starts at the longest prefix.\<close>

lemma lazy_run_reaches:
  assumes "\<forall>a \<in> set f. p a" "\<And>g h. \<lbrakk>f = g @ h; h \<noteq> []\<rbrakk> \<Longrightarrow> k (i + length g, h @ t, c) = None"
  shows "lazy_run p (i, f @ t, c) k = lazy_run p (i + length f, t, c) k"
  using assms
proof (induction f arbitrary: i)
  case (Cons a f)
  have "k (i, (a # f) @ t, c) = None" using Cons.prems(2)[of "[]" "a # f"] by simp
  moreover have "lazy_run p (Suc i, f @ t, c) k = lazy_run p (Suc i + length f, t, c) k"
    using Cons.prems(1) Cons.prems(2)[of "a # _"] by (intro Cons.IH) auto
  ultimately show ?case using Cons.prems(1) by simp
qed simp

lemma lazy_run_first: "k (i, t, c) = Some x \<Longrightarrow> lazy_run p (i, t, c) k = Some x"
  by (cases t) simp_all

lemma greedy_run_longest:
  assumes "\<forall>a \<in> set f. p a" "t = [] \<or> \<not> p (hd t)" "k (i + length f, t, c) = Some x"
  shows "greedy_run p (i, f @ t, c) k = Some x"
  using assms
proof (induction f arbitrary: i)
  case Nil
  then show ?case by (cases t) auto
qed simp_all

end
