(* ===== verification/Go_Maps.thy ===== *)
theory Go_Maps
  imports Go_Prelude "HOL-Library.AList" "HOL-Library.Multiset"
begin

text \<open>
  Go maps from texts to slices that a loop fills by appending and another loop iterates over: association lists with different
  keys.  \<open>append_to\<close> is \<^verbatim>\<open>m[k] = append(m[k], x)\<close>, \<open>slice_at\<close> is \<^verbatim>\<open>m[k]\<close>, the empty slice when there is no entry, and \<open>group_by\<close>
  is what a loop over a slice collects.
\<close>

section \<open>Operations\<close>

definition append_to :: "bytes \<Rightarrow> 'v \<Rightarrow> (bytes \<times> 'v list) list \<Rightarrow> (bytes \<times> 'v list) list" where
  "append_to key x m = AList.map_default key [x] (\<lambda>xs. xs @ [x]) m"

definition slice_at :: "(bytes \<times> 'v list) list \<Rightarrow> bytes \<Rightarrow> 'v list" where
  "slice_at m key = (case map_of m key of None \<Rightarrow> [] | Some xs \<Rightarrow> xs)"

section \<open>What the maps hold\<close>

lemma slice_at_append_to: "slice_at (append_to k x m) k' = (if k' = k then slice_at m k @ [x] else slice_at m k')"
  by (auto simp: slice_at_def append_to_def map_of_map_default split: option.splits)

lemma append_to_dom: "fst ` set (append_to k x m) = insert k (fst ` set m)"
  by (simp add: append_to_def dom_map_default)

lemma append_to_distinct: "distinct (map fst m) \<Longrightarrow> distinct (map fst (append_to k x m))"
  by (simp add: append_to_def distinct_map_default)

lemma slice_at_fold: "slice_at (fold (append_to k) xs m) k' = (if k' = k then slice_at m k @ xs else slice_at m k')"
  by (induction xs arbitrary: m) (simp_all add: slice_at_append_to)

lemma slice_at_fold2:
  "slice_at (fold (\<lambda>c. fold (append_to (key c)) (f c)) cs m) k = slice_at m k @ concat (map f (filter (\<lambda>c. key c = k) cs))"
  by (induction cs arbitrary: m) (simp_all add: slice_at_fold)

definition group_by :: "('c \<Rightarrow> bytes) \<Rightarrow> ('c \<Rightarrow> 'v) \<Rightarrow> 'c list \<Rightarrow> (bytes \<times> 'v list) list" where
  "group_by key f cs = fold (\<lambda>c. append_to (key c) (f c)) cs []"

lemma group_by_from:
  "distinct (map fst m) \<Longrightarrow> distinct (map fst (fold (\<lambda>c. append_to (key c) (f c)) cs m)) \<and>
   fst ` set (fold (\<lambda>c. append_to (key c) (f c)) cs m) = key ` set cs \<union> fst ` set m \<and>
   (\<forall>k. slice_at (fold (\<lambda>c. append_to (key c) (f c)) cs m) k = slice_at m k @ map f (filter (\<lambda>c. key c = k) cs))"
  by (induction cs arbitrary: m) (simp_all add: append_to_distinct append_to_dom slice_at_append_to)

lemma set_by_values: "distinct (map fst m) \<Longrightarrow> set m = (\<lambda>k. (k, slice_at m k)) ` fst ` set m"
  by (force simp: slice_at_def image_iff split: option.split)

lemma group_by_groups: "mset (group_by key f cs) = mset (map (\<lambda>k. (k, map f (filter (\<lambda>c. key c = k) cs))) (remdups (map key cs)))"
proof -
  let ?g = "group_by key f cs" and ?h = "map (\<lambda>k. (k, map f (filter (\<lambda>c. key c = k) cs))) (remdups (map key cs))"
  have g: "distinct (map fst ?g)" "fst ` set ?g = key ` set cs" "\<And>k. slice_at ?g k = map f (filter (\<lambda>c. key c = k) cs)"
    using group_by_from[of "[]" key f cs] by (simp_all add: group_by_def slice_at_def)
  have "set ?g = (\<lambda>k. (k, slice_at ?g k)) ` fst ` set ?g" by (rule set_by_values[OF g(1)])
  also have "\<dots> = set ?h" by (simp add: g(2,3) image_image)
  finally have "set ?g = set ?h" .
  moreover have "distinct ?h" by (simp add: distinct_map inj_on_def)
  ultimately show ?thesis using g(1)[unfolded distinct_map] by (simp only: set_eq_iff_mset_eq_distinct)
qed

end
