(* ===== verification/Nsca_Parser.thy ===== *)
theory Nsca_Parser
  imports Go_Regexp Go_Maps Connector_Build
begin

text \<open>
  The NSCA connector: \<^verbatim>\<open>connectors/nsca/parser/parser.go\<close>, which reads check results from text lines by three regular
  expressions, the packets of \<^verbatim>\<open>connectors/nsca/nsca/nsca.go\<close>, and the handlers of \<^verbatim>\<open>connectors/nsca/nsca.go\<close> that send
  what was read.  A Go map that is filled and then iterated is an association list; the order of an iteration is
  an argument.  The readings of the clock during one call are one argument.
\<close>

section \<open>The regular expressions\<close>

definition any_char :: "char \<Rightarrow> bool" where "any_char c \<longleftrightarrow> c \<noteq> CHR 0x0A"
definition non_digit :: "char \<Rightarrow> bool" where "non_digit c \<longleftrightarrow> \<not> is_digit c"

abbreviation dot :: "nat \<Rightarrow> rx" where "dot n \<equiv> RGroup n (RStar False (RChr any_char))"
abbreviation nondig :: "nat \<Rightarrow> rx" where "nondig n \<equiv> RGroup n (RStar False (RChr non_digit))"
abbreviation semi :: char where "semi \<equiv> CHR '';''"
abbreviation bar :: char where "bar \<equiv> CHR ''|''"

text \<open>The end of a line: the message, a bar between spaces, the performance data.\<close>

definition msg_perf :: "nat \<Rightarrow> nat \<Rightarrow> rx" where
  "msg_perf m p = rseq [dot m, spaces, chr bar, spaces, dot p, REnd]"

definition bronxRegexp :: Regexp where
  "bronxRegexp =
     \<lparr>re_prog = rseq [RBegin, RGroup 1 (RAlt (chr CHR ''H'') (chr CHR ''S'')), chr semi, dot 2, chr semi, dot 3, chr semi,
                      ROpt (RGroup 4 (RSeq (dot 5) (chr semi))), dot 6, chr semi, msg_perf 7 8],
      re_names = [[], ''type'', ''ts'', ''resName'', [], ''svcName'', ''status'', ''msg'', ''perf'']\<rparr>"

definition nscaRegexp :: Regexp where
  "nscaRegexp =
     \<lparr>re_prog = rseq [RBegin, ROpt (RGroup 1 (RSeq (dot 2) (chr semi))), dot 3, chr semi, dot 4, chr semi, dot 5, chr semi, msg_perf 6 7],
      re_names = [[], [], ''ts'', ''resName'', ''svcName'', ''status'', ''msg'', ''perf'']\<rparr>"

definition perfDataRegexp :: Regexp where
  "perfDataRegexp =
     \<lparr>re_prog = rseq [RBegin, dot 1, chr CHR ''='', dot 2, nondig 3, chr semi, dot 4, nondig 5, chr semi, dot 6, nondig 7, chr semi,
                      ROpt (RGroup 8 (rseq [dot 9, nondig 10, chr semi])), ROpt (RGroup 11 (rseq [dot 12, nondig 13, chr semi])), REnd],
      re_names = [[], ''label'', ''val'', ''unitType'', ''warn'', [], ''crit'', [], [], ''min'', [], [], ''max'', []]\<rparr>"

section \<open>The parser\<close>

datatype nsca_error =
    InvalidMetricFormat bytes
  | UnknownMetricFormat
  | NumError
  | UnknownStatus
  | BuildFailed build_error

definition Bronx :: bytes where "Bronx = ''bronx''"
definition NSCA :: bytes where "NSCA = ''nsca''"
definition NSCAAlt :: bytes where "NSCAAlt = ''nsca-alt''"

type_synonym MetricsMap = "(bytes \<times> TimeSeries list) list"
type_synonym ServicesMap = "(bytes \<times> MonitoredService list) list"

definition getTime :: "bytes \<Rightarrow> timestamp option" where
  "getTime str = map_option (\<lambda>i. i * 1000000000) (ParseInt str)"

definition getStatus :: "bytes \<Rightarrow> bytes option" where
  "getStatus str =
     (if str = ''0'' then Some ServiceOk
      else if str = ''1'' then Some ServiceWarning
      else if str = ''2'' then Some ServiceUnscheduledCritical
      else if str = ''3'' then Some ServiceUnknown
      else None)"

text \<open>A number of the performance data: nothing is 0.\<close>

definition perf_number :: "(bytes \<Rightarrow> f64 option) \<Rightarrow> bytes \<Rightarrow> f64 option" where
  "perf_number hex s = (if length s > 0 then ParseFloat hex s else Some (FFin 0))"

text \<open>The body of the inner loop: one metric of the performance data of a line.\<close>

definition perf_metric :: "(bytes \<Rightarrow> f64 option) \<Rightarrow> timestamp \<Rightarrow> timestamp \<Rightarrow> bytes \<Rightarrow> (nsca_error + TimeSeries) exec" where
  "perf_metric hex now timestamp metric =
     (case FindStringSubmatch perfDataRegexp metric of
        None \<Rightarrow> Done (Inl (InvalidMetricFormat ''perf data''))
      | Some m \<Rightarrow>
          bind_exec (submatch perfDataRegexp m ''label'') (\<lambda>label.
          bind_exec (submatch perfDataRegexp m ''val'') (\<lambda>val.
          bind_exec (submatch perfDataRegexp m ''warn'') (\<lambda>warn.
          bind_exec (submatch perfDataRegexp m ''crit'') (\<lambda>crit.
            case (perf_number hex val, perf_number hex warn, perf_number hex crit) of
              (Some v, Some w, Some c) \<Rightarrow>
                bind_exec (BuildMetric now
                    \<lparr>mb_Name = label, mb_CustomName = [], mb_ComputeType = ''Query'', mb_Expression = [], mb_Value = A_float64 v,
                     mb_UnitType = Some (MA_UnitType ''MB''), mb_Warning = Some (A_float64 w), mb_Critical = Some (A_float64 c),
                     mb_StartTimestamp = Some timestamp, mb_EndTimestamp = Some timestamp, mb_Graphed = False, mb_Tags = Map.empty\<rparr>) (\<lambda>r.
                  Done (case r of Inl e \<Rightarrow> Inl (BuildFailed e) | Inr series \<Rightarrow> Inr series))
            | _ \<Rightarrow> Done (Inl NumError))))))"

definition service_key :: "bytes \<Rightarrow> bytes \<Rightarrow> bytes" where
  "service_key resName svcName = resName @ '':'' @ svcName"

fun perf_metrics :: "(bytes \<Rightarrow> f64 option) \<Rightarrow> timestamp \<Rightarrow> timestamp \<Rightarrow> bytes \<Rightarrow> bytes list \<Rightarrow> MetricsMap \<Rightarrow> (nsca_error + MetricsMap) exec" where
  "perf_metrics hex now timestamp key [] metricsMap = Done (Inr metricsMap)"
| "perf_metrics hex now timestamp key (metric # rest) metricsMap =
     bind_exec (perf_metric hex now timestamp metric) (\<lambda>r.
       case r of
         Inl e \<Rightarrow> Done (Inl e)
       | Inr series \<Rightarrow> perf_metrics hex now timestamp key rest (append_to key series metricsMap))"

definition perf_items :: "bytes \<Rightarrow> bytes list" where
  "perf_items perfData = Split (TrimSpace perfData) CHR '' ''"

text \<open>The time of an NSCA line: a missing or unreadable time is the current one.\<close>

definition nsca_time :: "timestamp \<Rightarrow> bytes \<Rightarrow> timestamp" where
  "nsca_time now ts = (if ts \<noteq> [] then (case getTime ts of Some t \<Rightarrow> t | None \<Rightarrow> now) else now)"

fun getNscaMetrics :: "(bytes \<Rightarrow> f64 option) \<Rightarrow> timestamp \<Rightarrow> bytes list \<Rightarrow> MetricsMap \<Rightarrow> (nsca_error + MetricsMap) exec" where
  "getNscaMetrics hex now [] metricsMap = Done (Inr metricsMap)"
| "getNscaMetrics hex now (metric # rest) metricsMap =
     (case FindStringSubmatch nscaRegexp metric of
        None \<Rightarrow> Done (Inl (InvalidMetricFormat ''resource''))
      | Some m \<Rightarrow>
          bind_exec (submatch nscaRegexp m ''ts'') (\<lambda>ts.
          bind_exec (submatch nscaRegexp m ''resName'') (\<lambda>resName.
          bind_exec (submatch nscaRegexp m ''svcName'') (\<lambda>svcName.
          bind_exec (submatch nscaRegexp m ''perf'') (\<lambda>perfData.
          bind_exec (perf_metrics hex now (nsca_time now ts) (service_key resName svcName) (perf_items perfData) metricsMap) (\<lambda>r.
            case r of Inl e \<Rightarrow> Done (Inl e) | Inr m' \<Rightarrow> getNscaMetrics hex now rest m'))))))"

definition check_service :: "bytes \<Rightarrow> bytes \<Rightarrow> bytes \<Rightarrow> timestamp \<Rightarrow> bytes \<Rightarrow> TimeSeries list \<Rightarrow> MonitoredService" where
  "check_service resName svcName status timestamp msg metrics =
     \<lparr>ms_BaseInfo = new_BaseInfo svcName ResourceTypeService resName,
      ms_MonitoredInfo = \<lparr>mi_Status = status, mi_LastCheckTime = Some timestamp, mi_NextCheckTime = None, mi_LastPluginOutput = msg\<rparr>,
      ms_Metrics = metrics\<rparr>"

text \<open>The first service of each name is kept.\<close>

fun first_by_name :: "bytes set \<Rightarrow> MonitoredService list \<Rightarrow> MonitoredService list" where
  "first_by_name keys [] = []"
| "first_by_name keys (s # ss) =
     (let name = bi_Name (ms_BaseInfo s)
      in if name \<in> keys then first_by_name keys ss else s # first_by_name (insert name keys) ss)"

definition removeDuplicateServices :: "ServicesMap \<Rightarrow> ServicesMap" where
  "removeDuplicateServices servicesMap = map (\<lambda>(k, v). (k, first_by_name {} v)) servicesMap"

fun nsca_services :: "timestamp \<Rightarrow> MetricsMap \<Rightarrow> bytes list \<Rightarrow> ServicesMap \<Rightarrow> (nsca_error + ServicesMap) exec" where
  "nsca_services now metricsMap [] servicesMap = Done (Inr servicesMap)"
| "nsca_services now metricsMap (metric # rest) servicesMap =
     (case FindStringSubmatch nscaRegexp metric of
        None \<Rightarrow> Done (Inl (InvalidMetricFormat ''service''))
      | Some m \<Rightarrow>
          bind_exec (submatch nscaRegexp m ''ts'') (\<lambda>ts.
          bind_exec (submatch nscaRegexp m ''status'') (\<lambda>st.
            case getStatus st of
              None \<Rightarrow> Done (Inl UnknownStatus)
            | Some status \<Rightarrow>
                bind_exec (submatch nscaRegexp m ''resName'') (\<lambda>resName.
                bind_exec (submatch nscaRegexp m ''svcName'') (\<lambda>svcName.
                bind_exec (submatch nscaRegexp m ''msg'') (\<lambda>msg.
                  nsca_services now metricsMap rest
                    (append_to resName (check_service resName svcName status (nsca_time now ts) msg (slice_at metricsMap (service_key resName svcName)))
                       servicesMap)))))))"

definition getNscaServices :: "timestamp \<Rightarrow> MetricsMap \<Rightarrow> bytes list \<Rightarrow> (nsca_error + ServicesMap) exec" where
  "getNscaServices now metricsMap metricsLines =
     bind_exec (nsca_services now metricsMap metricsLines []) (\<lambda>r.
       Done (case r of Inl e \<Rightarrow> Inl e | Inr m \<Rightarrow> Inr (removeDuplicateServices m)))"

fun getBronxMetrics :: "(bytes \<Rightarrow> f64 option) \<Rightarrow> timestamp \<Rightarrow> bytes list \<Rightarrow> MetricsMap \<Rightarrow> (nsca_error + MetricsMap) exec" where
  "getBronxMetrics hex now [] metricsMap = Done (Inr metricsMap)"
| "getBronxMetrics hex now (metric # rest) metricsMap =
     (case FindStringSubmatch bronxRegexp metric of
        None \<Rightarrow> Done (Inl (InvalidMetricFormat ''resource''))
      | Some m \<Rightarrow>
          bind_exec (submatch bronxRegexp m ''ts'') (\<lambda>ts.
            case getTime ts of
              None \<Rightarrow> Done (Inl NumError)
            | Some timestamp \<Rightarrow>
                bind_exec (submatch bronxRegexp m ''resName'') (\<lambda>resName.
                bind_exec (submatch bronxRegexp m ''svcName'') (\<lambda>svcName.
                bind_exec (submatch bronxRegexp m ''perf'') (\<lambda>perfData.
                bind_exec (perf_metrics hex now timestamp (service_key resName svcName) (perf_items perfData) metricsMap) (\<lambda>r.
                  case r of Inl e \<Rightarrow> Done (Inl e) | Inr m' \<Rightarrow> getBronxMetrics hex now rest m'))))))"

fun bronx_services :: "MetricsMap \<Rightarrow> bytes list \<Rightarrow> ServicesMap \<Rightarrow> (nsca_error + ServicesMap) exec" where
  "bronx_services metricsMap [] servicesMap = Done (Inr servicesMap)"
| "bronx_services metricsMap (metric # rest) servicesMap =
     (case FindStringSubmatch bronxRegexp metric of
        None \<Rightarrow> Done (Inl (InvalidMetricFormat ''service''))
      | Some m \<Rightarrow>
          bind_exec (submatch bronxRegexp m ''ts'') (\<lambda>ts.
            case getTime ts of
              None \<Rightarrow> Done (Inl NumError)
            | Some timestamp \<Rightarrow>
                bind_exec (submatch bronxRegexp m ''status'') (\<lambda>st.
                  case getStatus st of
                    None \<Rightarrow> Done (Inl UnknownStatus)
                  | Some status \<Rightarrow>
                      bind_exec (submatch bronxRegexp m ''resName'') (\<lambda>resName.
                      bind_exec (submatch bronxRegexp m ''svcName'') (\<lambda>svcName.
                      bind_exec (submatch bronxRegexp m ''msg'') (\<lambda>msg.
                        bronx_services metricsMap rest
                          (append_to resName (check_service resName svcName status timestamp msg (slice_at metricsMap (service_key resName svcName)))
                             servicesMap)))))))"

definition getBronxServices :: "MetricsMap \<Rightarrow> bytes list \<Rightarrow> (nsca_error + ServicesMap) exec" where
  "getBronxServices metricsMap metricsLines =
     bind_exec (bronx_services metricsMap metricsLines []) (\<lambda>r.
       Done (case r of Inl e \<Rightarrow> Inl e | Inr m \<Rightarrow> Inr (removeDuplicateServices m)))"

text \<open>The loop over the services of a resource: a service without a name is the check of the host itself.\<close>

fun apply_host_checks :: "MonitoredService list \<Rightarrow> MonitoredResource \<Rightarrow> bool \<Rightarrow> MonitoredResource \<times> bool" where
  "apply_host_checks [] res flag = (res, flag)"
| "apply_host_checks (svc # svcs) res flag =
     (if bi_Name (ms_BaseInfo svc) = []
      then apply_host_checks svcs
             (res\<lparr>mr_MonitoredInfo := (mr_MonitoredInfo res)
                    \<lparr>mi_LastPluginOutput := mi_LastPluginOutput (ms_MonitoredInfo svc), mi_LastCheckTime := mi_LastCheckTime (ms_MonitoredInfo svc),
                     mi_NextCheckTime := mi_NextCheckTime (ms_MonitoredInfo svc), mi_Status := mi_Status (ms_MonitoredInfo svc)\<rparr>\<rparr>) True
      else apply_host_checks svcs (res\<lparr>mr_Services := mr_Services res @ [svc]\<rparr>) flag)"

definition check_resource :: "timestamp \<Rightarrow> bytes \<times> MonitoredService list \<Rightarrow> MonitoredResource" where
  "check_resource now p =
     (let (resName, services) = p;
          (res, resFlag) = apply_host_checks services
             \<lparr>mr_BaseResource = \<lparr>br_BaseInfo = new_BaseInfo resName ResourceTypeHost [], br_Device = []\<rparr>,
              mr_MonitoredInfo = zero_MonitoredInfo, mr_Services = []\<rparr> False
      in if resFlag then res
         else res\<lparr>mr_MonitoredInfo := (mr_MonitoredInfo res)\<lparr>mi_LastCheckTime := Some now, mi_Status := CalculateResourceStatus (mr_Services res)\<rparr>\<rparr>)"

definition payload_lines :: "bytes \<Rightarrow> bytes list" where
  "payload_lines payload = Split (Trim payload {CHR '' '', CHR 0x0A, CHR 0x0D}) CHR 0x0A"

definition Parse :: "(bytes \<Rightarrow> f64 option) \<Rightarrow> (ServicesMap \<Rightarrow> ServicesMap) \<Rightarrow> timestamp \<Rightarrow> bytes \<Rightarrow> bytes \<Rightarrow> (nsca_error + MonitoredResource list) exec" where
  "Parse hex order now payload dataFormat =
     (let metricsLines = payload_lines payload in
      if dataFormat \<notin> {Bronx, NSCA, NSCAAlt} then Done (Inl UnknownMetricFormat)
      else
        bind_exec (if dataFormat = Bronx then getBronxMetrics hex now metricsLines [] else getNscaMetrics hex now metricsLines []) (\<lambda>r.
          case r of
            Inl e \<Rightarrow> Done (Inl e)
          | Inr metricsMap \<Rightarrow>
              bind_exec (if dataFormat = Bronx then getBronxServices metricsMap metricsLines else getNscaServices now metricsMap metricsLines) (\<lambda>r.
                case r of
                  Inl e \<Rightarrow> Done (Inl e)
                | Inr servicesMap \<Rightarrow> Done (Inr (map (check_resource now) (order servicesMap))))))"

section \<open>Matching of fields\<close>

definition plain :: "char \<Rightarrow> bytes \<Rightarrow> bool" where
  "plain d f \<longleftrightarrow> d \<notin> set f \<and> CHR 0x0A \<notin> set f"

lemma plain_any: "plain d f \<Longrightarrow> \<forall>a \<in> set f. any_char a"
  by (auto simp: plain_def any_char_def)

text \<open>A field up to its first delimiter: where the rest matches, the field is taken; no other text can be taken before it.\<close>

lemma match_field:
  assumes f: "plain d f" and r: "rx_match r (Suc (i + length f), t, c(n \<mapsto> f)) k = Some x"
  shows "rx_match (RSeq (dot n) (RSeq (chr d) r)) (i, f @ d # t, c) k = Some x"
proof -
  let ?k = "\<lambda>(j, u, e). rx_match (RSeq (chr d) r) (j, u, e(n \<mapsto> take (length (f @ d # t) - length u) (f @ d # t))) k"
  have "lazy_run any_char (i, f @ d # t, c) ?k = lazy_run any_char (i + length f, d # t, c) ?k"
  proof (rule lazy_run_reaches[OF plain_any[OF f]])
    fix g h assume "f = g @ h" "h \<noteq> []"
    with f have "hd (h @ d # t) \<noteq> d" by (cases h) (auto simp: plain_def)
    then show "?k (i + length g, h @ d # t, c) = None" by auto
  qed
  also have "\<dots> = Some x" by (rule lazy_run_first) (simp add: r)
  finally show ?thesis by simp
qed

lemma match_fieldE:
  assumes "rx_match (RSeq (dot n) (RSeq (chr d) r)) (i, s, c) k = Some x"
  obtains f t where "s = f @ d # t" "rx_match r (Suc (i + length f), t, c(n \<mapsto> f)) k = Some x"
proof -
  let ?k = "\<lambda>(j, u, e). rx_match (RSeq (chr d) r) (j, u, e(n \<mapsto> take (length s - length u) s)) k"
  have "lazy_run any_char (i, s, c) ?k = Some x" using assms by simp
  then obtain f u where *: "s = f @ u" "?k (i + length f, u, c) = Some x" by (rule lazy_run_SomeE)
  then obtain t where "u = d # t" by (cases u) (auto split: if_splits)
  with * that show thesis by simp
qed

text \<open>An optional field is tried first.\<close>

lemma match_opt_field:
  assumes "plain d f" "rx_match r (Suc (i + length f), t, c(n \<mapsto> f, m \<mapsto> f @ [d])) k = Some x"
  shows "rx_match (RSeq (ROpt (RGroup m (RSeq (dot n) (chr d)))) r) (i, f @ d # t, c) k = Some x"
proof -
  let ?k = "\<lambda>(j, u, e). rx_match r (j, u, e(m \<mapsto> take (length (f @ d # t) - length u) (f @ d # t))) k"
  have "rx_match (RSeq (dot n) (RSeq (chr d) REmpty)) (i, f @ d # t, c) ?k = Some x"
    by (rule match_field[OF assms(1)]) (simp add: assms(2))
  then show ?thesis by simp
qed

lemma match_opt_fieldE:
  assumes "rx_match (RSeq (ROpt (RGroup m (RSeq (dot n) (chr d)))) r) (i, s, c) k = Some x"
  obtains f t where "s = f @ d # t" "rx_match r (Suc (i + length f), t, c(n \<mapsto> f, m \<mapsto> f @ [d])) k = Some x"
  | "rx_match r (i, s, c) k = Some x"
proof -
  let ?k = "\<lambda>(j, u, e). rx_match r (j, u, e(m \<mapsto> take (length s - length u) s)) k"
  from assms consider "rx_match (RSeq (dot n) (RSeq (chr d) REmpty)) (i, s, c) ?k = Some x" | "rx_match r (i, s, c) k = Some x"
    by (auto elim: or_else_SomeE)
  then show thesis
  proof cases
    case 1
    then obtain f t where "s = f @ d # t" "rx_match REmpty (Suc (i + length f), t, c(n \<mapsto> f)) ?k = Some x"
      by (rule match_fieldE)
    then show ?thesis by (intro that(1)[of f t]) simp_all
  qed (rule that(2))
qed

lemma match_opt_skip:
  assumes "\<And>f t. s = f @ d # t \<Longrightarrow> rx_match r (Suc (i + length f), t, c(n \<mapsto> f, m \<mapsto> f @ [d])) k = None"
  shows "rx_match (RSeq (ROpt (RGroup m (RSeq (dot n) (chr d)))) r) (i, s, c) k = rx_match r (i, s, c) k"
proof -
  have "rx_match (RGroup m (RSeq (dot n) (chr d))) (i, s, c) (\<lambda>t. rx_match r t k) = None"
  proof (rule ccontr)
    let ?k = "\<lambda>(j, u, e). rx_match r (j, u, e(m \<mapsto> take (length s - length u) s)) k"
    assume "rx_match (RGroup m (RSeq (dot n) (chr d))) (i, s, c) (\<lambda>t. rx_match r t k) \<noteq> None"
    then obtain x where "rx_match (RSeq (dot n) (RSeq (chr d) REmpty)) (i, s, c) ?k = Some x" by auto
    then obtain f t where "s = f @ d # t" "rx_match REmpty (Suc (i + length f), t, c(n \<mapsto> f)) ?k = Some x"
      by (rule match_fieldE)
    with assms[of f t] show False by simp
  qed
  then show ?thesis by (simp only: rx_match.simps or_else_simps)
qed

text \<open>The message and the performance data.\<close>

definition spacing :: "bytes \<Rightarrow> bool" where
  "spacing s \<longleftrightarrow> (\<forall>a \<in> set s. space_char a)"

definition message :: "bytes \<Rightarrow> bool" where
  "message m \<longleftrightarrow> plain bar m \<and> (m = [] \<or> \<not> space_char (last m))"

definition perf_text :: "bytes \<Rightarrow> bool" where
  "perf_text p \<longleftrightarrow> CHR 0x0A \<notin> set p \<and> (p = [] \<or> \<not> space_char (hd p))"

lemma space_bar [simp]: "\<not> space_char bar" by (simp add: space_char_def)

lemma no_bar_in_spacing: "spacing s \<Longrightarrow> bar \<notin> set s"
  by (auto simp: spacing_def)

lemma match_perf:
  assumes "CHR 0x0A \<notin> set p" "k (i + length p, [], c(n \<mapsto> p)) = Some x"
  shows "rx_match (RSeq (dot n) REnd) (i, p, c) k = Some x"
proof -
  let ?k = "\<lambda>(j, u, e). rx_match REnd (j, u, e(n \<mapsto> take (length p - length u) p)) k"
  have "lazy_run any_char (i, p @ [], c) ?k = lazy_run any_char (i + length p, [], c) ?k"
    by (rule lazy_run_reaches) (use assms(1) in \<open>auto simp: any_char_def\<close>)
  then show ?thesis using assms(2) by (simp cong: if_cong)
qed

lemma match_bar:
  assumes "spacing sp" "rx_match r (Suc (i + length sp), t, c) k = Some x"
  shows "rx_match (RSeq spaces (RSeq (chr bar) r)) (i, sp @ bar # t, c) k = Some x"
  using assms by (auto simp: spacing_def intro!: greedy_run_longest)

lemma match_barE:
  assumes "rx_match (RSeq spaces (RSeq (chr bar) r)) (i, s, c) k = Some x"
  obtains sp t where "spacing sp" "s = sp @ bar # t" "rx_match r (Suc (i + length sp), t, c) k = Some x"
proof -
  have "greedy_run space_char (i, s, c) (\<lambda>t. rx_match (RSeq (chr bar) r) t k) = Some x" using assms by simp
  then obtain f u where *: "s = f @ u" "\<forall>a \<in> set f. space_char a" "rx_match (RSeq (chr bar) r) (i + length f, u, c) k = Some x"
    by (rule greedy_run_SomeE)
  then obtain t where "u = bar # t" by (cases u) (auto split: if_splits)
  with * that show thesis by (simp add: spacing_def)
qed

lemma before_bar: "bar \<notin> set q \<Longrightarrow> takeWhile ((\<noteq>) bar) (q @ bar # t) = q"
  by (induction q) auto

lemma match_msg_perf:
  assumes m: "message m" and s: "spacing sp" "spacing sq" and p: "perf_text p"
    and k: "k (j, [], c(a \<mapsto> m, b \<mapsto> p)) = Some x" "j = i + length m + length sp + length sq + length p + 1"
  shows "rx_match (msg_perf a b) (i, m @ sp @ bar # sq @ p, c) k = Some x"
proof -
  let ?s = "m @ sp @ bar # sq @ p"
  let ?r = "RSeq spaces (RSeq (dot b) REnd)"
  let ?k = "\<lambda>(j, u, e). rx_match (RSeq spaces (RSeq (chr bar) ?r)) (j, u, e(a \<mapsto> take (length ?s - length u) ?s)) k"
  have "lazy_run any_char (i, ?s, c) ?k = lazy_run any_char (i + length m, sp @ bar # sq @ p, c) ?k"
  proof (rule lazy_run_reaches)
    show "\<forall>a \<in> set m. any_char a" using m by (auto simp: message_def dest: plain_any)
    fix g h assume g: "m = g @ h" "h \<noteq> []"
    show "?k (i + length g, h @ sp @ bar # sq @ p, c) = None"
    proof (rule ccontr)
      assume "?k (i + length g, h @ sp @ bar # sq @ p, c) \<noteq> None"
      then obtain y where "rx_match (RSeq spaces (RSeq (chr bar) ?r))
          (i + length g, h @ sp @ bar # sq @ p, c(a \<mapsto> take (length ?s - length (h @ sp @ bar # sq @ p)) ?s)) k = Some y"
        unfolding not_None_eq prod.case by blast
      then obtain q t where q: "spacing q" "h @ sp @ bar # sq @ p = q @ bar # t" by (rule match_barE)
      have "bar \<notin> set h" using m g by (simp add: message_def plain_def)
      then have "takeWhile ((\<noteq>) bar) (h @ sp @ bar # sq @ p) = h @ sp"
        using no_bar_in_spacing[OF s(1)] before_bar[of "h @ sp"] by simp
      moreover have "takeWhile ((\<noteq>) bar) (q @ bar # t) = q"
        using no_bar_in_spacing[OF q(1)] by (rule before_bar)
      ultimately have "q = h @ sp" using q(2) by simp
      then have "space_char (last h)" using q(1) g(2) by (simp add: spacing_def)
      then show False using m g by (simp add: message_def)
    qed
  qed
  also have "\<dots> = Some x"
  proof (rule lazy_run_first, unfold prod.case, rule match_bar[OF s(1)])
    have "rx_match (RSeq (dot b) REnd) (Suc (i + length m + length sp) + length sq, p, c(a \<mapsto> m)) k = Some x"
      using p k by (intro match_perf) (simp_all add: perf_text_def add.commute add.left_commute)
    then show "rx_match ?r (Suc (i + length m + length sp), sq @ p, c(a \<mapsto> take (length ?s - length (sp @ bar # sq @ p)) ?s)) k = Some x"
      using p s(2) by (auto simp del: rx_match.simps(9) simp: perf_text_def spacing_def intro!: greedy_run_longest)
  qed
  finally show ?thesis by (simp add: msg_perf_def)
qed

text \<open>A program that needs a number of semicolons before the bar fails on texts with fewer.\<close>

definition semis :: "bytes \<Rightarrow> nat" where
  "semis s = count_list (takeWhile ((\<noteq>) bar) s) semi"

definition needs :: "rx \<Rightarrow> (rx_state \<Rightarrow> 'x option) \<Rightarrow> nat \<Rightarrow> bool" where
  "needs r k n \<longleftrightarrow> (\<forall>i t c x. rx_match r (i, t, c) k = Some x \<longrightarrow> bar \<in> set t \<and> (count_list t bar = 1 \<longrightarrow> n \<le> semis t))"

lemma needsD: "needs r k n \<Longrightarrow> count_list t bar = 1 \<Longrightarrow> semis t < n \<Longrightarrow> rx_match r (i, t, c) k = None"
  unfolding needs_def by (cases "rx_match r (i, t, c) k") (use linorder_not_le in blast)+

lemma needs_msg_perf: "needs (msg_perf a b) k 0"
  unfolding needs_def
proof (intro allI impI)
  fix i t c x
  let ?k = "\<lambda>(j, u, e). rx_match (RSeq spaces (RSeq (chr bar) (RSeq spaces (RSeq (dot b) REnd)))) (j, u, e(a \<mapsto> take (length t - length u) t)) k"
  assume "rx_match (msg_perf a b) (i, t, c) k = Some x"
  then have "lazy_run any_char (i, t, c) ?k = Some x" by (simp add: msg_perf_def)
  then obtain f u where tu: "t = f @ u" and "?k (i + length f, u, c) = Some x" by (rule lazy_run_SomeE)
  from this(2)[unfolded prod.case] obtain sp v where "u = sp @ bar # v" by (rule match_barE)
  then show "bar \<in> set t \<and> (count_list t bar = 1 \<longrightarrow> 0 \<le> semis t)" by (simp add: tu)
qed

lemma semis_step:
  assumes "count_list (f @ semi # t) bar = 1" "bar \<in> set t"
  shows "count_list t bar = 1" "semis (f @ semi # t) = count_list f semi + Suc (semis t)"
proof -
  have "count_list t bar \<noteq> 0" using assms(2) by (simp add: count_list_0_iff)
  then have *: "count_list f bar = 0" "count_list t bar = 1" using assms(1) by simp_all
  then have "bar \<notin> set f" by (simp add: count_list_0_iff)
  then have "takeWhile ((\<noteq>) bar) (f @ semi # t) = f @ semi # takeWhile ((\<noteq>) bar) t"
    by (subst takeWhile_append2) auto
  then show "semis (f @ semi # t) = count_list f semi + Suc (semis t)" by (simp add: semis_def)
  show "count_list t bar = 1" by (rule *(2))
qed

lemma needs_field:
  assumes "needs r k n"
  shows "needs (RSeq (dot a) (RSeq (chr semi) r)) k (Suc n)"
  unfolding needs_def
proof (intro allI impI conjI)
  fix i s c x
  assume "rx_match (RSeq (dot a) (RSeq (chr semi) r)) (i, s, c) k = Some x"
  then obtain f t where s: "s = f @ semi # t" and "rx_match r (Suc (i + length f), t, c(a \<mapsto> f)) k = Some x"
    by (rule match_fieldE)
  with assms have t: "bar \<in> set t" "count_list t bar = 1 \<Longrightarrow> n \<le> semis t" unfolding needs_def by blast+
  then show "bar \<in> set s" by (simp add: s)
  assume one: "count_list s bar = 1"
  show "Suc n \<le> semis s" using semis_step[OF one[unfolded s] t(1)] t(2) by (simp add: s)
qed

lemma match_opt_needs:
  assumes "needs r k n" "count_list s bar = 1" "semis s \<le> n"
  shows "rx_match (RSeq (ROpt (RGroup m (RSeq (dot a) (chr semi)))) r) (i, s, c) k = rx_match r (i, s, c) k"
proof (rule match_opt_skip)
  fix f t assume s: "s = f @ semi # t"
  have "rx_match r (j, t, e) k = None" for j e
  proof (cases "bar \<in> set t")
    case True
    with semis_step[OF assms(2)[unfolded s]] assms(1,3) show ?thesis by (intro needsD) (auto simp: s)
  next
    case False
    then show ?thesis using assms(1) unfolding needs_def by (metis not_None_eq)
  qed
  then show "rx_match r (Suc (i + length f), t, c(a \<mapsto> f, m \<mapsto> f @ [semi])) k = None" .
qed

section \<open>Lines\<close>

definition nsca_fields :: "bytes \<Rightarrow> bytes \<Rightarrow> bytes \<Rightarrow> bytes \<Rightarrow> bytes \<Rightarrow> bytes \<Rightarrow> bytes \<Rightarrow> bytes" where
  "nsca_fields res svc st msg sp sq perf = res @ semi # svc @ semi # st @ semi # msg @ sp @ bar # sq @ perf"

definition check_fields :: "bytes \<Rightarrow> bytes \<Rightarrow> bytes \<Rightarrow> bytes \<Rightarrow> bytes \<Rightarrow> bytes \<Rightarrow> bytes \<Rightarrow> bool" where
  "check_fields res svc st msg sp sq perf \<longleftrightarrow>
     plain semi res \<and> plain semi svc \<and> plain semi st \<and> message msg \<and> spacing sp \<and> spacing sq \<and> perf_text perf"

definition one_bar_fields :: "bytes \<Rightarrow> bytes \<Rightarrow> bytes \<Rightarrow> bytes \<Rightarrow> bytes \<Rightarrow> bool" where
  "one_bar_fields res svc st msg perf \<longleftrightarrow> bar \<notin> set res \<union> set svc \<union> set st \<union> set perf \<and> semi \<notin> set msg"

lemma find_at_start:
  assumes "match_at re s 0 = Some (c, j)"
  shows "FindStringSubmatch re s = Some (map (\<lambda>n. case c n of None \<Rightarrow> [] | Some t \<Rightarrow> t) [0..<length (re_names re)])"
proof -
  have "match_from re s 0 n = Some (0, c, j)" for n using assms by (cases n) simp_all
  then show ?thesis by (simp add: FindStringSubmatch_def leftmost_def)
qed

abbreviation nsca_tail :: rx where
  "nsca_tail \<equiv> RSeq (dot 3) (RSeq (chr semi) (RSeq (dot 4) (RSeq (chr semi) (RSeq (dot 5) (RSeq (chr semi) (msg_perf 6 7))))))"

lemma match_nsca_tail:
  assumes "check_fields res svc st msg sp sq perf"
    and "k (i + length (nsca_fields res svc st msg sp sq perf), [], c(3 \<mapsto> res, 4 \<mapsto> svc, 5 \<mapsto> st, 6 \<mapsto> msg, 7 \<mapsto> perf)) = Some x"
  shows "rx_match nsca_tail (i, nsca_fields res svc st msg sp sq perf, c) k = Some x"
  using assms unfolding check_fields_def nsca_fields_def
  by (elim conjE) (intro match_field match_msg_perf, assumption+, simp)

abbreviation whole_match :: "bytes \<Rightarrow> rx_state \<Rightarrow> (caps \<times> nat) option" where
  "whole_match s \<equiv> \<lambda>(i, t, c). Some (c(0 \<mapsto> take (length s - length t) s), i)"

lemma match_at_start:
  assumes "re_prog re = RSeq RBegin r"
  shows "match_at re s 0 = rx_match r (0, s, Map.empty) (whole_match s)"
  unfolding match_at_def assms by simp

lemma nscaRegexp_prog: "re_prog nscaRegexp = RSeq RBegin (RSeq (ROpt (RGroup 1 (RSeq (dot 2) (chr semi)))) nsca_tail)"
  by (simp add: nscaRegexp_def)

text \<open>A line with a time, and a line without one.\<close>

lemma nsca_match_time:
  assumes "plain semi ts" "check_fields res svc st msg sp sq perf"
  shows "FindStringSubmatch nscaRegexp (ts @ semi # nsca_fields res svc st msg sp sq perf) =
    Some [ts @ semi # nsca_fields res svc st msg sp sq perf, ts @ [semi], ts, res, svc, st, msg, perf]"
proof -
  let ?s = "ts @ semi # nsca_fields res svc st msg sp sq perf"
  let ?c = "[2 \<mapsto> ts, 1 \<mapsto> ts @ [semi], 3 \<mapsto> res, 4 \<mapsto> svc, 5 \<mapsto> st, 6 \<mapsto> msg, 7 \<mapsto> perf, 0 \<mapsto> ?s]"
  have "rx_match (RSeq (ROpt (RGroup 1 (RSeq (dot 2) (chr semi)))) nsca_tail) (0, ?s, Map.empty)
      (whole_match ?s) = Some (?c, length ?s)"
    by (rule match_opt_field[OF assms(1)], rule match_nsca_tail[OF assms(2)]) simp
  then have "match_at nscaRegexp ?s 0 = Some (?c, length ?s)"
    by (simp only: match_at_start[OF nscaRegexp_prog])
  from find_at_start[OF this] show ?thesis by (simp add: nscaRegexp_def upt_rec)
qed

lemma semis_bar: "bar \<notin> set q \<Longrightarrow> semis (q @ bar # t) = count_list q semi"
  by (simp add: semis_def before_bar)

lemma one_bar_text: "bar \<notin> set q \<Longrightarrow> bar \<notin> set p \<Longrightarrow> count_list (q @ bar # p) bar = 1"
  by (simp add: count_list_0_iff[THEN iffD2])

lemma space_semi [simp]: "\<not> space_char semi" by (simp add: space_char_def)

lemma no_semi_in_spacing: "spacing s \<Longrightarrow> semi \<notin> set s"
  by (auto simp: spacing_def)

lemma one_bar_nsca:
  assumes "check_fields res svc st msg sp sq perf" "one_bar_fields res svc st msg perf"
  shows "count_list (nsca_fields res svc st msg sp sq perf) bar = 1" "semis (nsca_fields res svc st msg sp sq perf) = 3"
proof -
  let ?q = "res @ semi # svc @ semi # st @ semi # msg @ sp"
  have s: "nsca_fields res svc st msg sp sq perf = ?q @ bar # sq @ perf" by (simp add: nsca_fields_def)
  have q: "bar \<notin> set ?q" "bar \<notin> set (sq @ perf)"
    using assms no_bar_in_spacing[of sp] no_bar_in_spacing[of sq]
    by (auto simp: check_fields_def one_bar_fields_def message_def plain_def)
  have n: "count_list ?q semi = 3"
    using assms no_semi_in_spacing[of sp] by (simp add: check_fields_def one_bar_fields_def plain_def count_list_0_iff[THEN iffD2])
  show "semis (nsca_fields res svc st msg sp sq perf) = 3" unfolding s by (rule trans[OF semis_bar[OF q(1)] n])
  show "count_list (nsca_fields res svc st msg sp sq perf) bar = 1" unfolding s by (rule one_bar_text[OF q])
qed

lemma nsca_match_plain:
  assumes "check_fields res svc st msg sp sq perf" "one_bar_fields res svc st msg perf"
  shows "FindStringSubmatch nscaRegexp (nsca_fields res svc st msg sp sq perf) =
    Some [nsca_fields res svc st msg sp sq perf, [], [], res, svc, st, msg, perf]"
proof -
  let ?s = "nsca_fields res svc st msg sp sq perf"
  let ?c = "[3 \<mapsto> res, 4 \<mapsto> svc, 5 \<mapsto> st, 6 \<mapsto> msg, 7 \<mapsto> perf, 0 \<mapsto> ?s]"
  let ?k = "whole_match ?s"
  have need: "needs nsca_tail ?k 3"
    using needs_field[OF needs_field[OF needs_field[OF needs_msg_perf]]] by (simp add: numeral_3_eq_3)
  have "rx_match (RSeq (ROpt (RGroup 1 (RSeq (dot 2) (chr semi)))) nsca_tail) (0, ?s, Map.empty) ?k = rx_match nsca_tail (0, ?s, Map.empty) ?k"
    by (rule match_opt_needs[OF need]) (simp_all add: one_bar_nsca[OF assms])
  also have "\<dots> = Some (?c, length ?s)" by (rule match_nsca_tail[OF assms(1)]) simp
  finally have "match_at nscaRegexp ?s 0 = Some (?c, length ?s)"
    by (simp only: match_at_start[OF nscaRegexp_prog])
  from find_at_start[OF this] show ?thesis by (simp add: nscaRegexp_def upt_rec)
qed

definition bronx_fields :: "char \<Rightarrow> bytes \<Rightarrow> bytes \<Rightarrow> bytes \<Rightarrow> bytes" where
  "bronx_fields ty ts res rest = ty # semi # ts @ semi # res @ semi # rest"

definition bronx_check :: "bytes \<Rightarrow> bytes \<Rightarrow> bytes \<Rightarrow> bytes \<Rightarrow> bytes \<Rightarrow> bytes" where
  "bronx_check st msg sp sq perf = st @ semi # msg @ sp @ bar # sq @ perf"

abbreviation bronx_opt :: rx where
  "bronx_opt \<equiv> RSeq (ROpt (RGroup 4 (RSeq (dot 5) (chr semi)))) (RSeq (dot 6) (RSeq (chr semi) (msg_perf 7 8)))"

lemma bronxRegexp_prog:
  "re_prog bronxRegexp = RSeq RBegin (RSeq (RGroup 1 (RAlt (chr CHR ''H'') (chr CHR ''S'')))
     (RSeq (chr semi) (RSeq (dot 2) (RSeq (chr semi) (RSeq (dot 3) (RSeq (chr semi) bronx_opt))))))"
  by (simp add: bronxRegexp_def)

lemma match_type:
  assumes "ty \<in> {CHR ''H'', CHR ''S''}"
  shows "rx_match (RSeq (RGroup 1 (RAlt (chr CHR ''H'') (chr CHR ''S''))) (RSeq (chr semi) r)) (0, ty # semi # t, Map.empty) k =
    rx_match r (2, t, [1 \<mapsto> [ty]]) k"
  using assms by (auto simp: numeral_2_eq_2)

lemma match_bronx_head:
  assumes "ty \<in> {CHR ''H'', CHR ''S''}" "plain semi ts" "plain semi res"
    and "rx_match bronx_opt (Suc (Suc (2 + length ts) + length res), rest, [1 \<mapsto> [ty], 2 \<mapsto> ts, 3 \<mapsto> res]) (whole_match (bronx_fields ty ts res rest)) = Some (c, j)"
  shows "match_at bronxRegexp (bronx_fields ty ts res rest) 0 = Some (c, j)"
proof -
  let ?r = "RSeq (dot 2) (RSeq (chr semi) (RSeq (dot 3) (RSeq (chr semi) bronx_opt)))"
  let ?k = "whole_match (bronx_fields ty ts res rest)"
  have "rx_match ?r (2, ts @ semi # res @ semi # rest, [1 \<mapsto> [ty]]) ?k = Some (c, j)"
    by (rule match_field[OF assms(2)], rule match_field[OF assms(3)], rule assms(4))
  then show ?thesis
    by (simp only: match_at_start[OF bronxRegexp_prog] bronx_fields_def match_type[OF assms(1)])
qed

lemma bronx_match_service:
  assumes "ty \<in> {CHR ''H'', CHR ''S''}" "plain semi ts" "check_fields res svc st msg sp sq perf"
  shows "FindStringSubmatch bronxRegexp (bronx_fields ty ts res (svc @ semi # bronx_check st msg sp sq perf)) =
    Some [bronx_fields ty ts res (svc @ semi # bronx_check st msg sp sq perf), [ty], ts, res, svc @ [semi], svc, st, msg, perf]"
proof -
  let ?t = "svc @ semi # bronx_check st msg sp sq perf"
  let ?s = "bronx_fields ty ts res ?t"
  let ?c = "[1 \<mapsto> [ty], 2 \<mapsto> ts, 3 \<mapsto> res, 5 \<mapsto> svc, 4 \<mapsto> svc @ [semi], 6 \<mapsto> st, 7 \<mapsto> msg, 8 \<mapsto> perf, 0 \<mapsto> ?s]"
  have f: "plain semi res" "plain semi svc" "plain semi st" "message msg" "spacing sp" "spacing sq" "perf_text perf"
    using assms(3) by (simp_all add: check_fields_def)
  have "match_at bronxRegexp ?s 0 = Some (?c, length ?s)"
    by (rule match_bronx_head[OF assms(1,2) f(1)], rule match_opt_field[OF f(2)], unfold bronx_check_def,
          rule match_field[OF f(3)], rule match_msg_perf[OF f(4-7)]) (simp_all add: bronx_fields_def)
  from find_at_start[OF this] show ?thesis by (simp add: bronxRegexp_def upt_rec)
qed

lemma bronx_match_host:
  assumes "ty \<in> {CHR ''H'', CHR ''S''}" "plain semi ts" "check_fields res [] st msg sp sq perf" "one_bar_fields [] [] st msg perf"
  shows "FindStringSubmatch bronxRegexp (bronx_fields ty ts res (bronx_check st msg sp sq perf)) =
    Some [bronx_fields ty ts res (bronx_check st msg sp sq perf), [ty], ts, res, [], [], st, msg, perf]"
proof -
  let ?t = "bronx_check st msg sp sq perf"
  let ?s = "bronx_fields ty ts res ?t"
  let ?c = "[1 \<mapsto> [ty], 2 \<mapsto> ts, 3 \<mapsto> res, 6 \<mapsto> st, 7 \<mapsto> msg, 8 \<mapsto> perf, 0 \<mapsto> ?s]"
  have f: "plain semi res" "plain semi st" "message msg" "spacing sp" "spacing sq" "perf_text perf"
    using assms(3) by (simp_all add: check_fields_def)
  have need: "needs (RSeq (dot 6) (RSeq (chr semi) (msg_perf 7 8))) (whole_match ?s) 1"
    using needs_field[OF needs_msg_perf] by simp
  have t: "?t = (st @ semi # msg @ sp) @ bar # (sq @ perf)" by (simp add: bronx_check_def)
  have bars: "bar \<notin> set (st @ semi # msg @ sp)" "bar \<notin> set (sq @ perf)"
    using assms(3,4) no_bar_in_spacing[of sp] no_bar_in_spacing[of sq]
    by (auto simp: check_fields_def one_bar_fields_def message_def plain_def)
  have n: "count_list (st @ semi # msg @ sp) semi = 1"
    using assms(3,4) no_semi_in_spacing[of sp] by (simp add: check_fields_def one_bar_fields_def plain_def count_list_0_iff[THEN iffD2])
  have one: "count_list ?t bar = 1" "semis ?t \<le> 1"
    unfolding t using one_bar_text[OF bars] semis_bar[OF bars(1)] n by simp_all
  have "match_at bronxRegexp ?s 0 = Some (?c, length ?s)"
    by (rule match_bronx_head[OF assms(1,2) f(1)], unfold match_opt_needs[OF need one], unfold bronx_check_def,
          rule match_field[OF f(2)], rule match_msg_perf[OF f(3-6)]) (simp_all add: bronx_fields_def)
  from find_at_start[OF this] show ?thesis by (simp add: bronxRegexp_def upt_rec)
qed

section \<open>Performance data\<close>

text \<open>A number ends in a digit or is missing; a unit has no digits.\<close>

definition perf_num :: "bytes \<Rightarrow> bool" where
  "perf_num v \<longleftrightarrow> plain semi v \<and> (v = [] \<or> is_digit (last v))"

definition perf_unit :: "bytes \<Rightarrow> bool" where
  "perf_unit u \<longleftrightarrow> semi \<notin> set u \<and> (\<forall>a \<in> set u. non_digit a)"

lemma match_unit:
  assumes u: "perf_unit u" and r: "rx_match r (Suc (i + length u), t, c(m \<mapsto> u)) k = Some x"
  shows "rx_match (RSeq (nondig m) (RSeq (chr semi) r)) (i, u @ semi # t, c) k = Some x"
proof -
  let ?k = "\<lambda>(j, w, e). rx_match (RSeq (chr semi) r) (j, w, e(m \<mapsto> take (length (u @ semi # t) - length w) (u @ semi # t))) k"
  have "lazy_run non_digit (i, u @ semi # t, c) ?k = lazy_run non_digit (i + length u, semi # t, c) ?k"
  proof (rule lazy_run_reaches)
    fix g h assume "u = g @ h" "h \<noteq> []"
    with u have "hd (h @ semi # t) \<noteq> semi" by (cases h) (auto simp: perf_unit_def)
    then show "?k (i + length g, h @ semi # t, c) = None" by auto
  qed (use u in \<open>simp add: perf_unit_def\<close>)
  also have "\<dots> = Some x" by (rule lazy_run_first) (simp add: r)
  finally show ?thesis by simp
qed

lemma match_unitE:
  assumes "rx_match (RSeq (nondig m) (RSeq (chr semi) r)) (i, s, c) k = Some x"
  obtains u t where "s = u @ semi # t" "\<forall>a \<in> set u. non_digit a" "rx_match r (Suc (i + length u), t, c(m \<mapsto> u)) k = Some x"
proof -
  let ?k = "\<lambda>(j, w, e). rx_match (RSeq (chr semi) r) (j, w, e(m \<mapsto> take (length s - length w) s)) k"
  have "lazy_run non_digit (i, s, c) ?k = Some x" using assms by simp
  then obtain u w where *: "s = u @ w" "\<forall>a \<in> set u. non_digit a" "?k (i + length u, w, c) = Some x" by (rule lazy_run_SomeE)
  then obtain t where "w = semi # t" by (cases w) (auto split: if_splits)
  with * that show thesis by simp
qed

lemma match_dot:
  "rx_match (RSeq (dot n) q) (i, s, c) k =
     lazy_run any_char (i, s, c) (\<lambda>(j, w, e). rx_match q (j, w, e(n \<mapsto> take (length s - length w) s)) k)"
  by simp

lemma match_number:
  assumes v: "perf_num v" and u: "perf_unit u" and r: "rx_match r (Suc (i + length v + length u), t, c(n \<mapsto> v, m \<mapsto> u)) k = Some x"
  shows "rx_match (RSeq (dot n) (RSeq (nondig m) (RSeq (chr semi) r))) (i, v @ u @ semi # t, c) k = Some x"
proof -
  let ?s = "v @ u @ semi # t"
  let ?k = "\<lambda>(j, w, e). rx_match (RSeq (nondig m) (RSeq (chr semi) r)) (j, w, e(n \<mapsto> take (length ?s - length w) ?s)) k"
  have "lazy_run any_char (i, ?s, c) ?k = lazy_run any_char (i + length v, u @ semi # t, c) ?k"
  proof (rule lazy_run_reaches)
    show "\<forall>a \<in> set v. any_char a" using v by (auto simp: perf_num_def dest: plain_any)
    fix g h assume g: "v = g @ h" "h \<noteq> []"
    show "?k (i + length g, h @ u @ semi # t, c) = None"
    proof (rule ccontr)
      assume "?k (i + length g, h @ u @ semi # t, c) \<noteq> None"
      then obtain y where "rx_match (RSeq (nondig m) (RSeq (chr semi) r))
          (i + length g, h @ u @ semi # t, c(n \<mapsto> take (length ?s - length (h @ u @ semi # t)) ?s)) k = Some y"
        unfolding not_None_eq prod.case by blast
      then obtain q w where q: "h @ u @ semi # t = q @ semi # w" "\<forall>a \<in> set q. non_digit a" by (rule match_unitE)
      from q(1) consider z where "h = q @ z" | z where "q = h @ z" by (auto simp: append_eq_append_conv2)
      then show False
      proof cases
        case 1
        have "semi \<in> set h \<or> z = []" using q(1) 1 by (cases z) auto
        then show False using v g 1 q(2) by (auto simp: perf_num_def plain_def non_digit_def)
      next
        case 2
        then show False using v g q(2) by (auto simp: perf_num_def non_digit_def)
      qed
    qed
  qed
  also have "\<dots> = Some x" by (rule lazy_run_first, unfold prod.case, rule match_unit[OF u]) (simp add: r)
  finally show ?thesis by (simp only: match_dot)
qed

text \<open>What may follow the thresholds: nothing, a minimum, or a minimum and a maximum.\<close>

definition perf_range :: "bytes \<Rightarrow> bool" where
  "perf_range s \<longleftrightarrow> s = [] \<or> (\<exists>v u. perf_num v \<and> perf_unit u \<and>
     (s = v @ u @ [semi] \<or> (\<exists>w z. perf_num w \<and> perf_unit z \<and> s = v @ u @ semi # w @ z @ [semi])))"

abbreviation opt_number :: "nat \<Rightarrow> nat \<Rightarrow> nat \<Rightarrow> rx" where
  "opt_number g n m \<equiv> ROpt (RGroup g (RSeq (dot n) (RSeq (nondig m) (chr semi))))"

lemma match_opt_number:
  assumes "perf_num v" "perf_unit u" "rx_match r (Suc (i + length v + length u), t, c(n \<mapsto> v, m \<mapsto> u, g \<mapsto> v @ u @ [semi])) k = Some x"
  shows "rx_match (RSeq (opt_number g n m) r) (i, v @ u @ semi # t, c) k = Some x"
proof -
  let ?s = "v @ u @ semi # t"
  let ?k = "\<lambda>(j, w, e). rx_match r (j, w, e(g \<mapsto> take (length ?s - length w) ?s)) k"
  have "rx_match (RSeq (dot n) (RSeq (nondig m) (RSeq (chr semi) REmpty))) (i, ?s, c) ?k = Some x"
    by (rule match_number[OF assms(1,2)]) (simp add: assms(3))
  then have "rx_match (RGroup g (RSeq (dot n) (RSeq (nondig m) (chr semi)))) (i, ?s, c) (\<lambda>t. rx_match r t k) = Some x"
    by (simp only: rx_match.simps fst_conv snd_conv)
  then show ?thesis by (simp only: rx_match.simps or_else_simps)
qed

lemma match_opt_end:
  "rx_match (RSeq (opt_number g n m) r) (i, [], c) k = rx_match r (i, [], c) k"
  by simp

lemma match_range:
  assumes "perf_range s" "\<And>j d. (\<forall>n < 8. d n = c n) \<Longrightarrow> \<exists>y. k (j, [], d) = Some y \<and> P y"
  shows "\<exists>y. rx_match (RSeq (opt_number 8 9 10) (RSeq (opt_number 11 12 13) REnd)) (i, s, c) k = Some y \<and> P y"
proof -
  have fin: "\<exists>y. rx_match REnd (j, [], d) k = Some y \<and> P y" if "\<forall>n < 8. d n = c n" for j d
    using assms(2)[OF that] by simp
  from assms(1) consider "s = []" | v u where "perf_num v" "perf_unit u" "s = v @ u @ semi # []"
    | v u w z where "perf_num v" "perf_unit u" "perf_num w" "perf_unit z" "s = v @ u @ semi # w @ z @ semi # []"
    unfolding perf_range_def by blast
  then show ?thesis
  proof cases
    case 1
    show ?thesis unfolding 1 match_opt_end by (rule fin) simp
  next
    case 2
    let ?d = "c(9 \<mapsto> v, 10 \<mapsto> u, 8 \<mapsto> v @ u @ [semi])"
    obtain y where "rx_match REnd (Suc (i + length v + length u), [], ?d) k = Some y" "P y" using fin[of ?d] by auto
    then show ?thesis unfolding 2(3) by (intro exI[of _ y] conjI match_opt_number[OF 2(1,2)]) (simp_all only: match_opt_end)
  next
    case 3
    let ?d = "c(9 \<mapsto> v, 10 \<mapsto> u, 8 \<mapsto> v @ u @ [semi], 12 \<mapsto> w, 13 \<mapsto> z, 11 \<mapsto> w @ z @ [semi])"
    obtain y where "rx_match REnd (Suc (Suc (i + length v + length u) + length w + length z), [], ?d) k = Some y" "P y"
      using fin[of ?d] by auto
    then show ?thesis unfolding 3(5)
      by (intro exI[of _ y] conjI match_opt_number[OF 3(1,2)] match_opt_number[OF 3(3,4)])
  qed
qed

record perf =
  pf_label :: bytes
  pf_value :: bytes
  pf_unit :: bytes
  pf_warning :: bytes
  pf_warning_unit :: bytes
  pf_critical :: bytes
  pf_critical_unit :: bytes
  pf_range :: bytes

definition perf_token :: "perf \<Rightarrow> bytes" where
  "perf_token p = pf_label p @ CHR ''='' # pf_value p @ pf_unit p @ semi # pf_warning p @ pf_warning_unit p @ semi #
     pf_critical p @ pf_critical_unit p @ semi # pf_range p"

definition perf_ok :: "perf \<Rightarrow> bool" where
  "perf_ok p \<longleftrightarrow> plain CHR ''='' (pf_label p) \<and> perf_num (pf_value p) \<and> perf_unit (pf_unit p) \<and> perf_num (pf_warning p) \<and>
     perf_unit (pf_warning_unit p) \<and> perf_num (pf_critical p) \<and> perf_unit (pf_critical_unit p) \<and> perf_range (pf_range p)"

lemma perfDataRegexp_prog:
  "re_prog perfDataRegexp = RSeq RBegin (RSeq (dot 1) (RSeq (chr CHR ''='') (RSeq (dot 2) (RSeq (nondig 3) (RSeq (chr semi)
     (RSeq (dot 4) (RSeq (nondig 5) (RSeq (chr semi) (RSeq (dot 6) (RSeq (nondig 7) (RSeq (chr semi)
     (RSeq (opt_number 8 9 10) (RSeq (opt_number 11 12 13) REnd))))))))))))) "
  by (simp add: perfDataRegexp_def)

lemma perf_match_caps:
  assumes "perf_ok p"
  obtains c j where "match_at perfDataRegexp (perf_token p) 0 = Some (c, j)"
    "c 1 = Some (pf_label p)" "c 2 = Some (pf_value p)" "c 4 = Some (pf_warning p)" "c 6 = Some (pf_critical p)"
proof -
  let ?P = "\<lambda>(c :: caps, _ :: nat). c 1 = Some (pf_label p) \<and> c 2 = Some (pf_value p) \<and> c 4 = Some (pf_warning p) \<and> c 6 = Some (pf_critical p)"
  let ?c = "[1 \<mapsto> pf_label p, 2 \<mapsto> pf_value p, 3 \<mapsto> pf_unit p, 4 \<mapsto> pf_warning p, 5 \<mapsto> pf_warning_unit p,
     6 \<mapsto> pf_critical p, 7 \<mapsto> pf_critical_unit p]"
  let ?i = "Suc (Suc (Suc (Suc (0 + length (pf_label p)) + length (pf_value p) + length (pf_unit p)) + length (pf_warning p) + length (pf_warning_unit p)) +
     length (pf_critical p) + length (pf_critical_unit p))"
  have ok: "plain CHR ''='' (pf_label p)" "perf_num (pf_value p)" "perf_unit (pf_unit p)" "perf_num (pf_warning p)"
     "perf_unit (pf_warning_unit p)" "perf_num (pf_critical p)" "perf_unit (pf_critical_unit p)" "perf_range (pf_range p)"
    using assms by (simp_all add: perf_ok_def)
  have "\<exists>y. rx_match (RSeq (opt_number 8 9 10) (RSeq (opt_number 11 12 13) REnd)) (?i, pf_range p, ?c) (whole_match (perf_token p)) = Some y \<and> ?P y"
    by (rule match_range[OF ok(8)]) auto
  then obtain y where y: "rx_match (RSeq (opt_number 8 9 10) (RSeq (opt_number 11 12 13) REnd)) (?i, pf_range p, ?c) (whole_match (perf_token p)) = Some y" "?P y"
    by (elim exE conjE)
  have "match_at perfDataRegexp (perf_token p) 0 = Some y"
    unfolding match_at_start[OF perfDataRegexp_prog] using y(1)
    unfolding perf_token_def
    by (intro match_field[OF ok(1)] match_number[OF ok(2,3)] match_number[OF ok(4,5)] match_number[OF ok(6,7)])
  with y(2) that[of "fst y" "snd y"] show thesis by (simp add: case_prod_beta)
qed

lemma perf_match:
  assumes "perf_ok p"
  obtains m where "FindStringSubmatch perfDataRegexp (perf_token p) = Some m"
    "submatch perfDataRegexp m ''label'' = Done (pf_label p)" "submatch perfDataRegexp m ''val'' = Done (pf_value p)"
    "submatch perfDataRegexp m ''warn'' = Done (pf_warning p)" "submatch perfDataRegexp m ''crit'' = Done (pf_critical p)"
proof -
  obtain c j where c: "match_at perfDataRegexp (perf_token p) 0 = Some (c, j)"
    "c 1 = Some (pf_label p)" "c 2 = Some (pf_value p)" "c 4 = Some (pf_warning p)" "c 6 = Some (pf_critical p)"
    using perf_match_caps[OF assms] .
  from that[OF find_at_start[OF c(1)]] c(2-) show thesis
    by (simp add: submatch_def SubexpIndex_def perfDataRegexp_def nth_append eval_nat_numeral)
qed

definition perf_series :: "timestamp \<Rightarrow> bytes \<Rightarrow> f64 \<Rightarrow> f64 \<Rightarrow> f64 \<Rightarrow> TimeSeries" where
  "perf_series t label v w c =
     \<lparr>ts_MetricName = label, ts_SampleType = SampleValue, ts_Interval = Some \<lparr>ti_EndTime = Some t, ti_StartTime = Some t\<rparr>,
      ts_Value = Some (tv_double v), ts_Tags = Map.empty, ts_Unit = ''MB'',
      ts_Thresholds = [\<lparr>th_SampleType = SampleWarning, th_Label = label @ ''_wn'', th_Value = Some (tv_double w)\<rparr>,
                       \<lparr>th_SampleType = SampleCritical, th_Label = label @ ''_cr'', th_Value = Some (tv_double c)\<rparr>],
      ts_MetricComputeType = ''Query'', ts_MetricExpression = []\<rparr>"

lemma perf_metric_value:
  assumes "perf_ok p" "perf_number hex (pf_value p) = Some v" "perf_number hex (pf_warning p) = Some w" "perf_number hex (pf_critical p) = Some c"
  shows "perf_metric hex now t (perf_token p) = Done (Inr (perf_series t (pf_label p) v w c))"
proof -
  obtain m where "FindStringSubmatch perfDataRegexp (perf_token p) = Some m"
    "submatch perfDataRegexp m ''label'' = Done (pf_label p)" "submatch perfDataRegexp m ''val'' = Done (pf_value p)"
    "submatch perfDataRegexp m ''warn'' = Done (pf_warning p)" "submatch perfDataRegexp m ''crit'' = Done (pf_critical p)"
    using perf_match[OF assms(1)] .
  then show ?thesis
    by (simp add: perf_metric_def assms(2-) BuildMetric_def CreateMetric_def builder_args_def Name_def optional_threshold_def
        built_threshold_def CreateWarningThreshold_def CreateCriticalThreshold_def CreateThreshold_def perf_series_def)
qed

end
