(* ===== verification/Nsca_Checks.thy ===== *)
theory Nsca_Checks
  imports Nsca_Parser
begin

text \<open>
  What \<open>Nsca_Parser\<close> makes of whole payloads: a payload that prints a list of check results is read as exactly the
  resources, services and metrics of these results.  The two line formats share the interface \<open>check_lines\<close>.
\<close>

section \<open>Check results and their grouping\<close>

record check =
  ck_ts :: "bytes option"
  ck_res :: bytes
  ck_svc :: bytes
  ck_status :: bytes
  ck_msg :: bytes
  ck_perfs :: "perf list"

definition ck_perf_text :: "check \<Rightarrow> bytes" where
  "ck_perf_text ck = Join (map perf_token (ck_perfs ck)) '' ''"

abbreviation ck_key :: "check \<Rightarrow> bytes" where
  "ck_key ck \<equiv> service_key (ck_res ck) (ck_svc ck)"

definition pf_number :: "(bytes \<Rightarrow> f64 option) \<Rightarrow> bytes \<Rightarrow> f64" where
  "pf_number hex s = (case perf_number hex s of Some x \<Rightarrow> x | None \<Rightarrow> FNaN)"

definition pf_series :: "(bytes \<Rightarrow> f64 option) \<Rightarrow> timestamp \<Rightarrow> perf \<Rightarrow> TimeSeries" where
  "pf_series hex t p = perf_series t (pf_label p) (pf_number hex (pf_value p)) (pf_number hex (pf_warning p)) (pf_number hex (pf_critical p))"

definition pf_valid :: "(bytes \<Rightarrow> f64 option) \<Rightarrow> perf \<Rightarrow> bool" where
  "pf_valid hex p \<longleftrightarrow> perf_ok p \<and> (\<forall>a \<in> set (perf_token p). a \<notin> ascii_space) \<and>
     perf_number hex (pf_value p) \<noteq> None \<and> perf_number hex (pf_warning p) \<noteq> None \<and> perf_number hex (pf_critical p) \<noteq> None"

definition ck_series :: "(bytes \<Rightarrow> f64 option) \<Rightarrow> timestamp \<Rightarrow> check \<Rightarrow> TimeSeries list" where
  "ck_series hex t ck = map (pf_series hex t) (ck_perfs ck)"

definition status_of :: "check \<Rightarrow> bytes" where
  "status_of ck = (case getStatus (ck_status ck) of Some s \<Rightarrow> s | None \<Rightarrow> [])"

text \<open>The reference: the metrics of all results with one key, the services of one resource, the resources.\<close>

definition metrics_of :: "(bytes \<Rightarrow> f64 option) \<Rightarrow> (check \<Rightarrow> timestamp) \<Rightarrow> check list \<Rightarrow> bytes \<Rightarrow> TimeSeries list" where
  "metrics_of hex time cks key = concat (map (\<lambda>ck. ck_series hex (time ck) ck) (filter (\<lambda>ck. ck_key ck = key) cks))"

definition service_of :: "(bytes \<Rightarrow> f64 option) \<Rightarrow> (check \<Rightarrow> timestamp) \<Rightarrow> check list \<Rightarrow> check \<Rightarrow> MonitoredService" where
  "service_of hex time cks ck =
     check_service (ck_res ck) (ck_svc ck) (status_of ck) (time ck) (ck_msg ck) (metrics_of hex time cks (ck_key ck))"

definition check_services_of :: "(bytes \<Rightarrow> f64 option) \<Rightarrow> (check \<Rightarrow> timestamp) \<Rightarrow> check list \<Rightarrow> bytes \<Rightarrow> MonitoredService list" where
  "check_services_of hex time cks res = first_by_name {} (map (service_of hex time cks) (filter (\<lambda>ck. ck_res ck = res) cks))"

definition resources_of :: "(bytes \<Rightarrow> f64 option) \<Rightarrow> (check \<Rightarrow> timestamp) \<Rightarrow> timestamp \<Rightarrow> check list \<Rightarrow> MonitoredResource list" where
  "resources_of hex time now cks =
     map (\<lambda>res. check_resource now (res, check_services_of hex time cks res)) (remdups (map ck_res cks))"

section \<open>The interface of the line formats\<close>

locale check_lines =
  fixes hex :: "bytes \<Rightarrow> f64 option"
    and line :: "check \<Rightarrow> bytes"
    and valid :: "check \<Rightarrow> bool"
    and time :: "check \<Rightarrow> timestamp"
    and metrics :: "bytes list \<Rightarrow> MetricsMap \<Rightarrow> (nsca_error + MetricsMap) exec"
    and services :: "MetricsMap \<Rightarrow> bytes list \<Rightarrow> ServicesMap \<Rightarrow> (nsca_error + ServicesMap) exec"
  assumes metrics_none: "metrics [] m = Done (Inr m)"
    and metrics_line: "valid ck \<Longrightarrow> metrics (line ck # ls) m = metrics ls (fold (append_to (ck_key ck)) (ck_series hex (time ck) ck) m)"
    and services_none: "services mm [] sm = Done (Inr sm)"
    and services_line: "valid ck \<Longrightarrow> services mm (line ck # ls) sm =
      services mm ls (append_to (ck_res ck)
        (check_service (ck_res ck) (ck_svc ck) (status_of ck) (time ck) (ck_msg ck) (slice_at mm (ck_key ck))) sm)"
begin

lemma metrics_lines:
  "\<forall>ck \<in> set cks. valid ck \<Longrightarrow>
   metrics (map line cks) m = Done (Inr (fold (\<lambda>ck. fold (append_to (ck_key ck)) (ck_series hex (time ck) ck)) cks m))"
  by (induction cks arbitrary: m) (simp_all add: metrics_none metrics_line)

lemma services_lines:
  "\<forall>ck \<in> set cks. valid ck \<Longrightarrow> \<forall>key. slice_at mm key = metrics_of hex time all key \<Longrightarrow>
   services mm (map line cks) sm = Done (Inr (fold (\<lambda>ck. append_to (ck_res ck) (service_of hex time all ck)) cks sm))"
  by (induction cks arbitrary: sm) (simp_all add: services_none services_line service_of_def)

text \<open>Both passes over the lines of valid results: the services, grouped.\<close>

lemma lines_grouped:
  assumes "\<forall>ck \<in> set cks. valid ck"
  shows "bind_exec (metrics (map line cks) []) (\<lambda>r. case r of
       Inl e \<Rightarrow> Done (Inl e)
     | Inr mm \<Rightarrow> services mm (map line cks) []) = Done (Inr (group_by ck_res (service_of hex time cks) cks))"
proof -
  let ?mm = "fold (\<lambda>ck. fold (append_to (ck_key ck)) (ck_series hex (time ck) ck)) cks []"
  have "slice_at ?mm key = metrics_of hex time cks key" for key
    unfolding slice_at_fold2 metrics_of_def by (simp add: slice_at_def)
  then show ?thesis using assms by (simp add: metrics_lines services_lines[of cks ?mm cks] group_by_def)
qed

end

lemma removeDuplicateServices_groups:
  "mset (removeDuplicateServices (group_by ck_res (service_of hex time cks) cks)) =
   mset (map (\<lambda>res. (res, check_services_of hex time cks res)) (remdups (map ck_res cks)))"
proof -
  let ?f = "\<lambda>(k, v). (k, first_by_name {} v)"
  have "mset (removeDuplicateServices (group_by ck_res (service_of hex time cks) cks)) =
      image_mset ?f (mset (group_by ck_res (service_of hex time cks) cks))"
    by (simp add: removeDuplicateServices_def)
  also have "\<dots> = mset (map (\<lambda>res. (res, check_services_of hex time cks res)) (remdups (map ck_res cks)))"
    unfolding group_by_groups by (simp add: check_services_of_def image_mset.compositionality comp_def)
  finally show ?thesis .
qed

section \<open>The formats\<close>

definition perfs_ok :: "(bytes \<Rightarrow> f64 option) \<Rightarrow> check \<Rightarrow> bool" where
  "perfs_ok hex ck \<longleftrightarrow> ck_perfs ck \<noteq> [] \<and> (\<forall>p \<in> set (ck_perfs ck). pf_valid hex p)"

definition fields_ok :: "check \<Rightarrow> bool" where
  "fields_ok ck \<longleftrightarrow> plain semi (ck_res ck) \<and> plain semi (ck_svc ck) \<and> plain semi (ck_status ck) \<and> message (ck_msg ck) \<and>
     getStatus (ck_status ck) \<noteq> None"

text \<open>A line without an optional field must be unambiguous: one bar, no semicolon in the message.\<close>

definition unambiguous :: "check \<Rightarrow> bool" where
  "unambiguous ck \<longleftrightarrow> one_bar_fields (ck_res ck) (ck_svc ck) (ck_status ck) (ck_msg ck) (ck_perf_text ck)"

definition nsca_line :: "check \<Rightarrow> bytes" where
  "nsca_line ck =
     (let fields = nsca_fields (ck_res ck) (ck_svc ck) (ck_status ck) (ck_msg ck) '' '' '' '' (ck_perf_text ck)
      in case ck_ts ck of None \<Rightarrow> fields | Some ts \<Rightarrow> ts @ semi # fields)"

definition nsca_valid :: "(bytes \<Rightarrow> f64 option) \<Rightarrow> check \<Rightarrow> bool" where
  "nsca_valid hex ck \<longleftrightarrow> perfs_ok hex ck \<and> fields_ok ck \<and> (case ck_ts ck of None \<Rightarrow> unambiguous ck | Some ts \<Rightarrow> plain semi ts)"

definition nsca_check_time :: "timestamp \<Rightarrow> check \<Rightarrow> timestamp" where
  "nsca_check_time now ck = (case ck_ts ck of None \<Rightarrow> now | Some ts \<Rightarrow> nsca_time now ts)"

definition bronx_line :: "check \<Rightarrow> bytes" where
  "bronx_line ck =
     (let ts = (case ck_ts ck of None \<Rightarrow> [] | Some ts \<Rightarrow> ts);
          rest = bronx_check (ck_status ck) (ck_msg ck) '' '' '' '' (ck_perf_text ck)
      in if ck_svc ck = [] then bronx_fields CHR ''H'' ts (ck_res ck) rest
         else bronx_fields CHR ''S'' ts (ck_res ck) (ck_svc ck @ semi # rest))"

definition bronx_check_time :: "check \<Rightarrow> timestamp" where
  "bronx_check_time ck = (case ck_ts ck of None \<Rightarrow> 0 | Some ts \<Rightarrow> case getTime ts of None \<Rightarrow> 0 | Some t \<Rightarrow> t)"

definition bronx_valid :: "(bytes \<Rightarrow> f64 option) \<Rightarrow> check \<Rightarrow> bool" where
  "bronx_valid hex ck \<longleftrightarrow> perfs_ok hex ck \<and> fields_ok ck \<and>
     (case ck_ts ck of None \<Rightarrow> False | Some ts \<Rightarrow> plain semi ts \<and> getTime ts \<noteq> None) \<and>
     (ck_svc ck = [] \<longrightarrow> one_bar_fields [] [] (ck_status ck) (ck_msg ck) (ck_perf_text ck))"

lemma perf_token_ne: "perf_token p \<noteq> []" by (simp add: perf_token_def)

lemma perf_token_last: "perf_ok p \<Longrightarrow> last (perf_token p) = semi"
  by (auto simp: perf_ok_def perf_token_def perf_range_def)

lemma hd_Join: "xs \<noteq> [] \<Longrightarrow> hd xs \<noteq> [] \<Longrightarrow> hd (Join xs sep) = hd (hd xs)"
  by (cases xs) (simp_all add: Join_Cons)

lemma last_Join: "xs \<noteq> [] \<Longrightarrow> last xs \<noteq> [] \<Longrightarrow> last (Join xs sep) = last (last xs)"
proof (induction xs)
  case (Cons x xs)
  have "Join xs sep \<noteq> []" if "xs \<noteq> []"
    using that Cons.prems by (induction xs) (auto simp: Join_Cons split: if_splits)
  then show ?case using Cons by (auto simp: Join_Cons)
qed simp

lemma perf_tokens_text:
  assumes "perfs_ok hex ck"
  shows "ck_perf_text ck \<noteq> []" "hd (ck_perf_text ck) \<notin> ascii_space" "last (ck_perf_text ck) = semi" "CHR 0x0A \<notin> set (ck_perf_text ck)"
    "perf_items (ck_perf_text ck) = map perf_token (ck_perfs ck)"
proof -
  let ?xs = "map perf_token (ck_perfs ck)"
  have ne: "?xs \<noteq> []" "hd ?xs \<noteq> []" "last ?xs \<noteq> []"
    using assms by (simp_all add: perfs_ok_def hd_map last_map perf_token_ne)
  have ok: "pf_valid hex p" if "p \<in> set (ck_perfs ck)" for p using assms that by (simp add: perfs_ok_def)
  have chars: "a \<notin> ascii_space" if "x \<in> set ?xs" "a \<in> set x" for x a
    using that ok by (auto simp: pf_valid_def)
  have sp: "CHR '' '' \<in> ascii_space" "CHR 0x0A \<in> ascii_space" by (simp_all add: ascii_space_def)
  show "ck_perf_text ck \<noteq> []" unfolding ck_perf_text_def by (rule Join_ne[OF ne(1,2)])
  show hd: "hd (ck_perf_text ck) \<notin> ascii_space"
    unfolding ck_perf_text_def hd_Join[OF ne(1,2)] by (rule chars[OF hd_in_set[OF ne(1)] hd_in_set[OF ne(2)]])
  have "last (perf_token (last (ck_perfs ck))) = semi"
    using ne(1) ok[OF last_in_set] by (intro perf_token_last) (simp add: pf_valid_def)
  then show l: "last (ck_perf_text ck) = semi"
    using ne(1) unfolding ck_perf_text_def last_Join[OF ne(1,3)] by (simp add: last_map)
  show "CHR 0x0A \<notin> set (ck_perf_text ck)"
  proof
    assume "CHR 0x0A \<in> set (ck_perf_text ck)"
    then have "CHR 0x0A \<in> \<Union> (set ` set ?xs) \<union> set '' ''" unfolding ck_perf_text_def by (rule subsetD[OF set_Join])
    then obtain x where "x \<in> set ?xs" "CHR 0x0A \<in> set x" by (elim UnE UN_E) simp_all
    then show False using chars sp(2) by blast
  qed
  have "TrimSpace (ck_perf_text ck) = ck_perf_text ck"
    unfolding TrimSpace_def using hd l \<open>ck_perf_text ck \<noteq> []\<close> by (intro Trim_same) (simp_all add: ascii_space_def)
  moreover have "Split (Join ?xs [CHR '' '']) CHR '' '' = ?xs" by (rule Split_Join[OF ne(1)]) (use chars sp(1) in blast)
  ultimately show "perf_items (ck_perf_text ck) = ?xs" by (simp add: perf_items_def ck_perf_text_def)
qed

lemma perf_metrics_tokens:
  "\<forall>p \<in> set ps. pf_valid hex p \<Longrightarrow>
   perf_metrics hex now t key (map perf_token ps) m = Done (Inr (fold (append_to key) (map (pf_series hex t) ps) m))"
proof (induction ps arbitrary: m)
  case (Cons p ps)
  then have "perf_metric hex now t (perf_token p) = Done (Inr (pf_series hex t p))"
    unfolding pf_series_def pf_number_def by (intro perf_metric_value) (auto simp: pf_valid_def)
  then show ?case using Cons by simp
qed simp

lemma perf_metrics_check:
  "perfs_ok hex ck \<Longrightarrow> perf_metrics hex now t key (perf_items (ck_perf_text ck)) m = Done (Inr (fold (append_to key) (ck_series hex t ck) m))"
  unfolding ck_series_def by (subst perf_tokens_text(5)[of hex], assumption) (simp add: perf_metrics_tokens perfs_ok_def)

lemma check_fields_ck:
  assumes "perfs_ok hex ck" "fields_ok ck"
  shows "check_fields (ck_res ck) (ck_svc ck) (ck_status ck) (ck_msg ck) '' '' '' '' (ck_perf_text ck)"
proof -
  have "\<not> space_char (hd (ck_perf_text ck))" using perf_tokens_text(2)[OF assms(1)] by (auto simp: space_char_def ascii_space_def)
  then show ?thesis using assms perf_tokens_text(4)[OF assms(1)]
    by (simp add: check_fields_def fields_ok_def perf_text_def spacing_def space_char_def)
qed

lemma nsca_submatches [simp]:
  "submatch nscaRegexp [a, b, ts, res, svc, st, msg, perf] ''ts'' = Done ts"
  "submatch nscaRegexp [a, b, ts, res, svc, st, msg, perf] ''resName'' = Done res"
  "submatch nscaRegexp [a, b, ts, res, svc, st, msg, perf] ''svcName'' = Done svc"
  "submatch nscaRegexp [a, b, ts, res, svc, st, msg, perf] ''status'' = Done st"
  "submatch nscaRegexp [a, b, ts, res, svc, st, msg, perf] ''msg'' = Done msg"
  "submatch nscaRegexp [a, b, ts, res, svc, st, msg, perf] ''perf'' = Done perf"
  by (simp_all add: submatch_def SubexpIndex_def nscaRegexp_def)

lemma bronx_submatches [simp]:
  "submatch bronxRegexp [a, ty, ts, res, b, svc, st, msg, perf] ''ts'' = Done ts"
  "submatch bronxRegexp [a, ty, ts, res, b, svc, st, msg, perf] ''resName'' = Done res"
  "submatch bronxRegexp [a, ty, ts, res, b, svc, st, msg, perf] ''svcName'' = Done svc"
  "submatch bronxRegexp [a, ty, ts, res, b, svc, st, msg, perf] ''status'' = Done st"
  "submatch bronxRegexp [a, ty, ts, res, b, svc, st, msg, perf] ''msg'' = Done msg"
  "submatch bronxRegexp [a, ty, ts, res, b, svc, st, msg, perf] ''perf'' = Done perf"
  by (simp_all add: submatch_def SubexpIndex_def bronxRegexp_def)

lemma nsca_submatch:
  assumes "nsca_valid hex ck"
  obtains m where "FindStringSubmatch nscaRegexp (nsca_line ck) = Some m"
    "\<exists>ts. submatch nscaRegexp m ''ts'' = Done ts \<and> nsca_time now ts = nsca_check_time now ck"
    "submatch nscaRegexp m ''resName'' = Done (ck_res ck)" "submatch nscaRegexp m ''svcName'' = Done (ck_svc ck)"
    "submatch nscaRegexp m ''status'' = Done (ck_status ck)" "submatch nscaRegexp m ''msg'' = Done (ck_msg ck)"
    "submatch nscaRegexp m ''perf'' = Done (ck_perf_text ck)"
proof -
  have f: "check_fields (ck_res ck) (ck_svc ck) (ck_status ck) (ck_msg ck) '' '' '' '' (ck_perf_text ck)"
    using assms by (intro check_fields_ck) (auto simp: nsca_valid_def)
  show thesis
  proof (cases "ck_ts ck")
    case None
    then have "FindStringSubmatch nscaRegexp (nsca_line ck) = Some [nsca_line ck, [], [], ck_res ck, ck_svc ck, ck_status ck, ck_msg ck, ck_perf_text ck]"
      using nsca_match_plain[OF f] assms by (simp add: nsca_line_def nsca_valid_def unambiguous_def)
    from that[OF this] show thesis using None by (simp add: nsca_check_time_def nsca_time_def)
  next
    case (Some ts)
    then have "FindStringSubmatch nscaRegexp (nsca_line ck) =
        Some [nsca_line ck, ts @ [semi], ts, ck_res ck, ck_svc ck, ck_status ck, ck_msg ck, ck_perf_text ck]"
      using nsca_match_time[OF _ f] assms by (simp add: nsca_line_def nsca_valid_def)
    from that[OF this] show thesis using Some by (simp add: nsca_check_time_def)
  qed
qed

lemma bronx_submatch:
  assumes "bronx_valid hex ck"
  obtains m where "FindStringSubmatch bronxRegexp (bronx_line ck) = Some m"
    "\<exists>ts. submatch bronxRegexp m ''ts'' = Done ts \<and> getTime ts = Some (bronx_check_time ck)"
    "submatch bronxRegexp m ''resName'' = Done (ck_res ck)" "submatch bronxRegexp m ''svcName'' = Done (ck_svc ck)"
    "submatch bronxRegexp m ''status'' = Done (ck_status ck)" "submatch bronxRegexp m ''msg'' = Done (ck_msg ck)"
    "submatch bronxRegexp m ''perf'' = Done (ck_perf_text ck)"
proof -
  have f: "check_fields (ck_res ck) (ck_svc ck) (ck_status ck) (ck_msg ck) '' '' '' '' (ck_perf_text ck)"
    using assms by (intro check_fields_ck) (auto simp: bronx_valid_def)
  obtain ts t where ts: "ck_ts ck = Some ts" "plain semi ts" "getTime ts = Some t"
    using assms by (auto simp: bronx_valid_def split: option.splits)
  show thesis
  proof (cases "ck_svc ck = []")
    case True
    then have "FindStringSubmatch bronxRegexp (bronx_line ck) =
        Some [bronx_line ck, ''H'', ts, ck_res ck, [], [], ck_status ck, ck_msg ck, ck_perf_text ck]"
      using bronx_match_host[of "CHR ''H''", OF _ ts(2)] f assms ts(1) by (simp add: bronx_line_def bronx_valid_def)
    from that[OF this] show thesis using True ts by (simp add: bronx_check_time_def)
  next
    case False
    then have "FindStringSubmatch bronxRegexp (bronx_line ck) =
        Some [bronx_line ck, ''S'', ts, ck_res ck, ck_svc ck @ [semi], ck_svc ck, ck_status ck, ck_msg ck, ck_perf_text ck]"
      using bronx_match_service[of "CHR ''S''", OF _ ts(2) f] ts(1) by (simp add: bronx_line_def)
    from that[OF this] show thesis using ts by (simp add: bronx_check_time_def)
  qed
qed

interpretation nsca: check_lines hex nsca_line "nsca_valid hex" "nsca_check_time now" "getNscaMetrics hex now" "nsca_services now"
  for hex now
proof (unfold_locales, goal_cases)
  case (2 ck ls m)
  obtain mt where m: "FindStringSubmatch nscaRegexp (nsca_line ck) = Some mt"
    "\<exists>ts. submatch nscaRegexp mt ''ts'' = Done ts \<and> nsca_time now ts = nsca_check_time now ck"
    "submatch nscaRegexp mt ''resName'' = Done (ck_res ck)" "submatch nscaRegexp mt ''svcName'' = Done (ck_svc ck)"
    "submatch nscaRegexp mt ''perf'' = Done (ck_perf_text ck)"
    using nsca_submatch[OF 2] by metis
  have "perfs_ok hex ck" using 2 by (simp add: nsca_valid_def)
  with m show ?case by (auto simp: perf_metrics_check)
next
  case (4 ck mm ls sm)
  obtain mt where m: "FindStringSubmatch nscaRegexp (nsca_line ck) = Some mt"
    "\<exists>ts. submatch nscaRegexp mt ''ts'' = Done ts \<and> nsca_time now ts = nsca_check_time now ck"
    "submatch nscaRegexp mt ''resName'' = Done (ck_res ck)" "submatch nscaRegexp mt ''svcName'' = Done (ck_svc ck)"
    "submatch nscaRegexp mt ''status'' = Done (ck_status ck)" "submatch nscaRegexp mt ''msg'' = Done (ck_msg ck)"
    using nsca_submatch[OF 4] by metis
  have "getStatus (ck_status ck) = Some (status_of ck)" using 4 by (auto simp: nsca_valid_def fields_ok_def status_of_def)
  with m show ?case by auto
qed simp_all

interpretation bronx: check_lines hex bronx_line "bronx_valid hex" bronx_check_time "getBronxMetrics hex now" bronx_services
  for hex now
proof (unfold_locales, goal_cases)
  case (2 ck ls m)
  obtain mt where m: "FindStringSubmatch bronxRegexp (bronx_line ck) = Some mt"
    "\<exists>ts. submatch bronxRegexp mt ''ts'' = Done ts \<and> getTime ts = Some (bronx_check_time ck)"
    "submatch bronxRegexp mt ''resName'' = Done (ck_res ck)" "submatch bronxRegexp mt ''svcName'' = Done (ck_svc ck)"
    "submatch bronxRegexp mt ''perf'' = Done (ck_perf_text ck)"
    using bronx_submatch[OF 2] by metis
  have "perfs_ok hex ck" using 2 by (simp add: bronx_valid_def)
  with m show ?case by (auto simp: perf_metrics_check)
next
  case (4 ck mm ls sm)
  obtain mt where m: "FindStringSubmatch bronxRegexp (bronx_line ck) = Some mt"
    "\<exists>ts. submatch bronxRegexp mt ''ts'' = Done ts \<and> getTime ts = Some (bronx_check_time ck)"
    "submatch bronxRegexp mt ''resName'' = Done (ck_res ck)" "submatch bronxRegexp mt ''svcName'' = Done (ck_svc ck)"
    "submatch bronxRegexp mt ''status'' = Done (ck_status ck)" "submatch bronxRegexp mt ''msg'' = Done (ck_msg ck)"
    using bronx_submatch[OF 4] by metis
  have "getStatus (ck_status ck) = Some (status_of ck)" using 4 by (auto simp: bronx_valid_def fields_ok_def status_of_def)
  with m show ?case by auto
qed simp_all

section \<open>Payloads\<close>

definition ck_line :: "bytes \<Rightarrow> check \<Rightarrow> bytes" where
  "ck_line fmt ck = (if fmt = Bronx then bronx_line ck else nsca_line ck)"

definition ck_valid :: "(bytes \<Rightarrow> f64 option) \<Rightarrow> bytes \<Rightarrow> check \<Rightarrow> bool" where
  "ck_valid hex fmt ck \<longleftrightarrow> (if fmt = Bronx then bronx_valid hex ck else nsca_valid hex ck)"

definition ck_time :: "timestamp \<Rightarrow> bytes \<Rightarrow> check \<Rightarrow> timestamp" where
  "ck_time now fmt ck = (if fmt = Bronx then bronx_check_time ck else nsca_check_time now ck)"

definition ck_payload :: "bytes \<Rightarrow> check list \<Rightarrow> bytes" where
  "ck_payload fmt cks = Join (map (ck_line fmt) cks) [CHR 0x0A]"

lemma fields_no_newline:
  "check_fields res svc st msg '' '' '' '' perf \<Longrightarrow> CHR 0x0A \<notin> set (nsca_fields res svc st msg '' '' '' '' perf)"
  by (auto simp: check_fields_def nsca_fields_def plain_def message_def perf_text_def)

lemma ck_line_shape:
  assumes "ck_valid hex fmt ck"
  shows "ck_line fmt ck \<noteq> []" "last (ck_line fmt ck) = semi" "CHR 0x0A \<notin> set (ck_line fmt ck)"
proof -
  have ok: "perfs_ok hex ck" "fields_ok ck"
    using assms by (auto simp: ck_valid_def nsca_valid_def bronx_valid_def split: if_splits)
  let ?f = "nsca_fields (ck_res ck) (ck_svc ck) (ck_status ck) (ck_msg ck) '' '' '' '' (ck_perf_text ck)"
  let ?r = "bronx_check (ck_status ck) (ck_msg ck) '' '' '' '' (ck_perf_text ck)"
  note p = perf_tokens_text[OF ok(1)]
  have f: "?f \<noteq> []" "last ?f = semi" "CHR 0x0A \<notin> set ?f"
    using p(1,3) fields_no_newline[OF check_fields_ck[OF ok]] by (simp_all add: nsca_fields_def)
  have r: "?r \<noteq> []" "last ?r = semi" "CHR 0x0A \<notin> set ?r" using f p(1,3) by (auto simp: bronx_check_def nsca_fields_def)
  have "CHR 0x0A \<notin> set (ck_res ck)" "CHR 0x0A \<notin> set (ck_svc ck)" using ok(2) by (simp_all add: fields_ok_def plain_def)
  moreover have "CHR 0x0A \<notin> set ts" if "ck_ts ck = Some ts" for ts
    using assms that by (auto simp: ck_valid_def nsca_valid_def bronx_valid_def plain_def split: if_splits)
  ultimately show "ck_line fmt ck \<noteq> []" "last (ck_line fmt ck) = semi" "CHR 0x0A \<notin> set (ck_line fmt ck)"
    using f r by (simp_all add: ck_line_def nsca_line_def bronx_line_def bronx_fields_def Let_def split: option.split)
qed

lemma payload_lines_checks:
  assumes "cks \<noteq> []" "\<forall>ck \<in> set cks. ck_valid hex fmt ck" "hd (ck_line fmt (hd cks)) \<notin> {CHR '' '', CHR 0x0D}"
  shows "payload_lines (ck_payload fmt cks) = map (ck_line fmt) cks"
proof -
  let ?xs = "map (ck_line fmt) cks"
  have v: "ck_valid hex fmt (hd cks)" "ck_valid hex fmt (last cks)" using assms by simp_all
  have ne: "?xs \<noteq> []" "hd ?xs \<noteq> []" "last ?xs \<noteq> []"
    using assms(1) ck_line_shape(1)[OF v(1)] ck_line_shape(1)[OF v(2)] by (simp_all add: hd_map last_map)
  have "hd (ck_line fmt (hd cks)) \<in> set (ck_line fmt (hd cks))" by (rule hd_in_set[OF ck_line_shape(1)[OF v(1)]])
  then have "hd (hd ?xs) \<noteq> CHR 0x0A" using ck_line_shape(3)[OF v(1)] assms(1) by (metis hd_map)
  then have "hd (Join ?xs [CHR 0x0A]) \<notin> {CHR '' '', CHR 0x0A, CHR 0x0D}"
    using assms(1,3) unfolding hd_Join[OF ne(1,2)] by (simp add: hd_map)
  moreover have "last (Join ?xs [CHR 0x0A]) \<notin> {CHR '' '', CHR 0x0A, CHR 0x0D}"
    using assms(1) ck_line_shape(2)[OF v(2)] unfolding last_Join[OF ne(1,3)] by (simp add: last_map)
  ultimately have "Trim (Join ?xs [CHR 0x0A]) {CHR '' '', CHR 0x0A, CHR 0x0D} = Join ?xs [CHR 0x0A]"
    by (intro Trim_same Join_ne[OF ne(1,2)])
  moreover have "Split (Join ?xs [CHR 0x0A]) CHR 0x0A = ?xs"
    using assms(2) ck_line_shape(3) by (intro Split_Join[OF ne(1)]) auto
  ultimately show ?thesis by (simp add: payload_lines_def ck_payload_def)
qed

text \<open>Both passes over the lines of a payload.\<close>

lemma Parse_passes:
  assumes "fmt \<in> {Bronx, NSCA, NSCAAlt}"
  shows "Parse hex order now payload fmt =
    bind_exec (bind_exec (if fmt = Bronx then getBronxMetrics hex now (payload_lines payload) [] else getNscaMetrics hex now (payload_lines payload) [])
      (\<lambda>r. case r of Inl e \<Rightarrow> Done (Inl e) | Inr mm \<Rightarrow>
         if fmt = Bronx then bronx_services mm (payload_lines payload) [] else nsca_services now mm (payload_lines payload) []))
      (\<lambda>r. Done (case r of Inl e \<Rightarrow> Inl e | Inr m \<Rightarrow> Inr (map (check_resource now) (order (removeDuplicateServices m)))))"
proof -
  have assoc: "bind_exec (bind_exec a f) g = bind_exec a (\<lambda>x. bind_exec (f x) g)" for a :: "'a exec" and f :: "'a \<Rightarrow> 'b exec" and g :: "'b \<Rightarrow> 'c exec"
    by (cases a) simp_all
  show ?thesis using assms unfolding Parse_def Let_def assoc
    by (auto simp: getBronxServices_def getNscaServices_def assoc split: sum.splits intro!: arg_cong[of _ _ "bind_exec _"] ext)
qed

lemma Parse_reads_checks:
  assumes "fmt \<in> {Bronx, NSCA, NSCAAlt}" "cks \<noteq> []" "\<forall>ck \<in> set cks. ck_valid hex fmt ck"
    and "hd (ck_line fmt (hd cks)) \<notin> {CHR '' '', CHR 0x0D}" "\<And>m. mset (order m) = mset m"
  shows "\<exists>rs. Parse hex order now (ck_payload fmt cks) fmt = Done (Inr rs) \<and> mset rs = mset (resources_of hex (ck_time now fmt) now cks)"
proof -
  let ?g = "group_by ck_res (service_of hex (ck_time now fmt) cks) cks"
  let ?rs = "map (check_resource now) (order (removeDuplicateServices ?g))"
  have "Parse hex order now (ck_payload fmt cks) fmt = Done (Inr ?rs)"
  proof (cases "fmt = Bronx")
    case True
    then have t: "ck_time now fmt = bronx_check_time" "ck_line fmt = bronx_line" by (simp_all add: ck_time_def ck_line_def fun_eq_iff)
    have "\<forall>ck \<in> set cks. bronx_valid hex ck" using assms(3) True by (simp add: ck_valid_def)
    note g = bronx.lines_grouped[OF this, of now]
    show ?thesis unfolding Parse_passes[OF assms(1)] payload_lines_checks[OF assms(2-4)] t
      by (simp only: True refl if_True g bind_exec.simps sum.case)
  next
    case False
    then have t: "ck_time now fmt = nsca_check_time now" "ck_line fmt = nsca_line" by (simp_all add: ck_time_def ck_line_def fun_eq_iff)
    have "\<forall>ck \<in> set cks. nsca_valid hex ck" using assms(3) False by (simp add: ck_valid_def)
    note g = nsca.lines_grouped[OF this, of now]
    show ?thesis unfolding Parse_passes[OF assms(1)] payload_lines_checks[OF assms(2-4)] t
      by (simp only: False if_False g bind_exec.simps sum.case)
  qed
  moreover have "mset ?rs = mset (resources_of hex (ck_time now fmt) now cks)"
    unfolding mset_map assms(5) removeDuplicateServices_groups
    by (simp add: resources_of_def image_mset.compositionality comp_def)
  ultimately show ?thesis by blast
qed

text \<open>The services of the reference: one for each name, with the first status and all metrics of that name.\<close>

abbreviation ms_name :: "MonitoredService \<Rightarrow> bytes" where "ms_name s \<equiv> bi_Name (ms_BaseInfo s)"

lemma first_by_name_names: "ms_name ` set (first_by_name keys ss) = ms_name ` set ss - keys"
  by (induction keys ss rule: first_by_name.induct) (auto simp: Let_def)

lemma first_by_name_distinct: "distinct (map ms_name (first_by_name keys ss))"
proof (induction keys ss rule: first_by_name.induct)
  case (2 keys s ss)
  then show ?case by (simp add: Let_def first_by_name_names)
qed simp

lemma first_by_name_sub: "set (first_by_name keys ss) \<subseteq> set ss"
  by (induction keys ss rule: first_by_name.induct) (auto simp: Let_def)

section \<open>What is refused\<close>

text \<open>A program matches only texts that end in a semicolon.\<close>

definition ends_semi :: "rx \<Rightarrow> (rx_state \<Rightarrow> 'x option) \<Rightarrow> bool" where
  "ends_semi r k \<longleftrightarrow> (\<forall>i t c x. rx_match r (i, t, c) k = Some x \<longrightarrow> t \<noteq> [] \<and> last t = semi)"

lemma ends_semi_skip:
  assumes "ends_semi r k"
  shows "ends_semi (RSeq (RGroup n (RStar False (RChr p))) r) k"
  unfolding ends_semi_def
proof (intro allI impI)
  fix i s c x
  let ?k = "\<lambda>(j, w, e). rx_match r (j, w, e(n \<mapsto> take (length s - length w) s)) k"
  assume "rx_match (RSeq (RGroup n (RStar False (RChr p))) r) (i, s, c) k = Some x"
  then have "lazy_run p (i, s, c) ?k = Some x" by simp
  then obtain f t where "s = f @ t" "?k (i + length f, t, c) = Some x" by (rule lazy_run_SomeE)
  moreover from this(2)[unfolded prod.case] have "t \<noteq> [] \<and> last t = semi" using assms unfolding ends_semi_def by blast
  ultimately show "s \<noteq> [] \<and> last s = semi" by simp
qed

lemma ends_semi_chr: "ends_semi r k \<Longrightarrow> ends_semi (RSeq (chr d) r) k"
  unfolding ends_semi_def
proof (intro allI impI)
  fix i s c x
  assume r: "\<forall>i t c x. rx_match r (i, t, c) k = Some x \<longrightarrow> t \<noteq> [] \<and> last t = semi"
    and m: "rx_match (RSeq (chr d) r) (i, s, c) k = Some x"
  then obtain t where "s = d # t" "rx_match r (Suc i, t, c) k = Some x" by (cases s) (auto split: if_splits)
  then show "s \<noteq> [] \<and> last s = semi" using r by auto
qed

lemma ends_semi_last:
  assumes "\<And>i t c x. rx_match r (i, t, c) k = Some x \<Longrightarrow> t \<noteq> [] \<Longrightarrow> last t = semi"
  shows "ends_semi (RSeq (chr semi) r) k"
  unfolding ends_semi_def
proof (intro allI impI)
  fix i s c x assume "rx_match (RSeq (chr semi) r) (i, s, c) k = Some x"
  then obtain t where "s = semi # t" "rx_match r (Suc i, t, c) k = Some x" by (cases s) (auto split: if_splits)
  then show "s \<noteq> [] \<and> last s = semi" using assms[of "Suc i" t c x] by auto
qed

lemma opt_number_last:
  assumes "\<And>i t c x. rx_match r (i, t, c) k = Some x \<Longrightarrow> t \<noteq> [] \<Longrightarrow> last t = semi"
    and m: "rx_match (RSeq (opt_number g n m) r) (i, t, c) k = Some x" "t \<noteq> []"
  shows "last t = semi"
proof -
  let ?k = "\<lambda>(j, w, e). rx_match r (j, w, e(g \<mapsto> take (length t - length w) t)) k"
  from m(1) consider "rx_match (RSeq (dot n) (RSeq (nondig m) (RSeq (chr semi) REmpty))) (i, t, c) ?k = Some x" | "rx_match r (i, t, c) k = Some x"
    by (simp only: rx_match.simps fst_conv snd_conv) (erule or_else_SomeE)
  then show ?thesis
  proof cases
    case 1
    have "ends_semi (RSeq (chr semi) REmpty) ?k" by (rule ends_semi_last) (auto intro: assms(1))
    then have "ends_semi (RSeq (dot n) (RSeq (nondig m) (RSeq (chr semi) REmpty))) ?k" by (intro ends_semi_skip)
    then show ?thesis using 1 unfolding ends_semi_def by blast
  qed (rule assms(1)[OF _ m(2)])
qed

lemma perf_match_ends:
  assumes "FindStringSubmatch perfDataRegexp s = Some m"
  shows "s \<noteq> [] \<and> last s = semi"
proof -
  let ?R = "RSeq (opt_number 8 9 10) (RSeq (opt_number 11 12 13) REnd)"
  have b: "ends_semi (RSeq (chr semi) ?R) (whole_match s)"
  proof (rule ends_semi_last)
    have "last t = semi" if "rx_match REnd (i, t, c) (whole_match s) = Some x" "t \<noteq> []" for i t c x using that by simp
    note inner = opt_number_last[where r = REnd, OF this]
    show "last t = semi" if "rx_match ?R (i, t, c) (whole_match s) = Some x" "t \<noteq> []" for i t c x
      using that by (rule opt_number_last[rotated]) (rule inner)
  qed
  have e: "ends_semi (RSeq (dot 1) (RSeq (chr CHR ''='') (RSeq (dot 2) (RSeq (nondig 3) (RSeq (chr semi)
     (RSeq (dot 4) (RSeq (nondig 5) (RSeq (chr semi) (RSeq (dot 6) (RSeq (nondig 7) (RSeq (chr semi) ?R))))))))))) (whole_match s)"
    by (rule b | rule ends_semi_skip ends_semi_chr)+
  have late: "match_at perfDataRegexp s i = None" if "i > 0" for i
    using that by (simp only: match_at_def perfDataRegexp_prog) simp
  have "match_from perfDataRegexp s i n = None" if "i > 0" for i n
    using that by (induction n arbitrary: i) (simp_all add: late)
  then have "match_at perfDataRegexp s 0 \<noteq> None"
    using assms by (cases "length s") (auto simp: FindStringSubmatch_def leftmost_def split: option.splits)
  then show ?thesis using e unfolding match_at_start[OF perfDataRegexp_prog] ends_semi_def by blast
qed

lemma submatch_total:
  assumes "FindStringSubmatch re s = Some m" "name_index (re_names re) name 0 = Some i" "name \<noteq> []"
  shows "\<exists>t. submatch re m name = Done t"
proof -
  have "name_index ns name j = Some i \<Longrightarrow> i < j + length ns" for ns j
    by (induction ns arbitrary: j) (fastforce split: if_splits)+
  from this[OF assms(2)] have "i < length m"
    using assms(1) by (auto simp: FindStringSubmatch_def split: option.splits)
  then show ?thesis using assms(2,3) by (simp add: submatch_def SubexpIndex_def)
qed

text \<open>One item of the performance data gives a metric or an error, and never a panic.\<close>

lemma perf_metric_total: "\<exists>r. perf_metric hex now t s = Done r"
proof (cases "FindStringSubmatch perfDataRegexp s")
  case (Some m)
  have sub: "\<exists>x. submatch perfDataRegexp m name = Done x" if "name_index (re_names perfDataRegexp) name 0 = Some i" "name \<noteq> []" for name i
    using submatch_total[OF Some that] .
  obtain label val warn crit where "submatch perfDataRegexp m ''label'' = Done label" "submatch perfDataRegexp m ''val'' = Done val"
    "submatch perfDataRegexp m ''warn'' = Done warn" "submatch perfDataRegexp m ''crit'' = Done crit"
    using sub[of "''label''"] sub[of "''val''"] sub[of "''warn''"] sub[of "''crit''"] by (auto simp: perfDataRegexp_def)
  then show ?thesis using Some
    by (auto simp: perf_metric_def BuildMetric_def CreateMetric_def builder_args_def Name_def optional_threshold_def
        built_threshold_def CreateWarningThreshold_def CreateCriticalThreshold_def CreateThreshold_def Let_def split: option.split)
qed (simp add: perf_metric_def)

text \<open>
  Performance data in which one item does not end in a semicolon are refused, and with them the whole payload, though
  \<^verbatim>\<open>label=1;2;3\<close> is what check plugins print.
\<close>

theorem perf_without_semicolon:
  assumes "x \<in> set items" "x = [] \<or> last x \<noteq> semi"
  shows "\<exists>e. perf_metrics hex now t key items m = Done (Inl e)"
  using assms
proof (induction items arbitrary: m)
  case (Cons y ys)
  obtain r where r: "perf_metric hex now t y = Done r" using perf_metric_total by blast
  show ?case
  proof (cases r)
    case (Inr series)
    then have "FindStringSubmatch perfDataRegexp y \<noteq> None" using r by (cases "FindStringSubmatch perfDataRegexp y") (simp_all add: perf_metric_def)
    then have "x \<noteq> y" using perf_match_ends Cons.prems(2) by blast
    then show ?thesis using Cons r Inr by simp
  qed (simp add: r)
qed simp

text \<open>
  A line without a time whose message contains a semicolon is read with its fields shifted by one: the resource as the time,
  the service as the resource, the status as the service and the beginning of the message as the status.
\<close>

theorem semicolon_shifts_fields:
  assumes "check_fields res svc st m1 [] [] []" "message (m1 @ semi # m2)" "message m2" "semi \<notin> set m1" "spacing sp" "spacing sq" "perf_text perf"
  shows "FindStringSubmatch nscaRegexp (nsca_fields res svc st (m1 @ semi # m2) sp sq perf) =
    Some [nsca_fields res svc st (m1 @ semi # m2) sp sq perf, res @ [semi], res, svc, st, m1, m2, perf]"
proof -
  have "plain semi res" "check_fields svc st m1 m2 sp sq perf"
    using assms by (auto simp: check_fields_def message_def plain_def)
  from nsca_match_time[OF this] show ?thesis by (simp add: nsca_fields_def)
qed

section \<open>Checks of hosts\<close>

lemma apply_host_checks_flag: "snd (apply_host_checks ss res flag) \<longleftrightarrow> flag \<or> [] \<in> ms_name ` set ss"
  by (induction ss arbitrary: res flag) auto

lemma apply_host_checks_name: "mr_BaseResource (fst (apply_host_checks ss res flag)) = mr_BaseResource res"
  by (induction ss arbitrary: res flag) auto

lemma apply_host_checks_status:
  "snd (apply_host_checks ss res flag) \<Longrightarrow> \<not> flag \<or> mi_Status (mr_MonitoredInfo res) \<in> S \<Longrightarrow> \<forall>s \<in> set ss. mi_Status (ms_MonitoredInfo s) \<in> S \<Longrightarrow>
   mi_Status (mr_MonitoredInfo (fst (apply_host_checks ss res flag))) \<in> S"
  by (induction ss arbitrary: res flag) auto

lemma check_resource_name: "bi_Name (br_BaseInfo (mr_BaseResource (check_resource now (res, ss)))) = res"
  by (simp add: check_resource_def new_BaseInfo_def apply_host_checks_name case_prod_beta Let_def)

lemma check_resource_status:
  assumes "\<forall>s \<in> set ss. mi_Status (ms_MonitoredInfo s) \<noteq> HostUp"
  shows "mi_Status (mr_MonitoredInfo (check_resource now (res, ss))) = HostUp \<longleftrightarrow> [] \<notin> ms_name ` set ss"
proof -
  let ?r = "\<lparr>mr_BaseResource = \<lparr>br_BaseInfo = new_BaseInfo res ResourceTypeHost [], br_Device = []\<rparr>, mr_MonitoredInfo = zero_MonitoredInfo, mr_Services = []\<rparr>"
  obtain x f where a: "apply_host_checks ss ?r False = (x, f)" by fastforce
  have "f \<longleftrightarrow> [] \<in> ms_name ` set ss" using apply_host_checks_flag[of ss ?r False] a by simp
  moreover have "mi_Status (mr_MonitoredInfo x) \<noteq> HostUp" if f
    using apply_host_checks_status[of ss ?r False "- {HostUp}"] a assms that by simp
  ultimately show "mi_Status (mr_MonitoredInfo (check_resource now (res, ss))) = HostUp \<longleftrightarrow> [] \<notin> ms_name ` set ss"
    by (simp add: check_resource_def a CalculateResourceStatus_def)
qed

lemma status_of_valid: "ck_valid hex fmt ck \<Longrightarrow> status_of ck \<noteq> HostUp"
proof -
  assume "ck_valid hex fmt ck"
  then have "getStatus (ck_status ck) \<noteq> None"
    by (auto simp: ck_valid_def nsca_valid_def bronx_valid_def fields_ok_def split: if_splits)
  then show ?thesis by (auto simp: status_of_def getStatus_def status_defs split: if_splits)
qed

lemma service_of_simps [simp]: "ms_name (service_of hex time cks ck) = ck_svc ck" "mi_Status (ms_MonitoredInfo (service_of hex time cks ck)) = status_of ck"
  by (simp_all add: service_of_def check_service_def new_BaseInfo_def)

text \<open>
  The result of a host check becomes the status of the resource as it is, a status of a service: a resource is up exactly when
  no result of a check of the host itself was sent.
\<close>

theorem host_check_status:
  assumes "fmt \<in> {Bronx, NSCA, NSCAAlt}" "cks \<noteq> []" "\<forall>ck \<in> set cks. ck_valid hex fmt ck"
    and "hd (ck_line fmt (hd cks)) \<notin> {CHR '' '', CHR 0x0D}" "\<And>m. mset (order m) = mset m"
    and "Parse hex order now (ck_payload fmt cks) fmt = Done (Inr rs)" "r \<in> set rs"
  shows "mi_Status (mr_MonitoredInfo r) = HostUp \<longleftrightarrow>
    \<not> (\<exists>ck \<in> set cks. ck_res ck = bi_Name (br_BaseInfo (mr_BaseResource r)) \<and> ck_svc ck = [])"
proof -
  let ?t = "ck_time now fmt"
  have "mset rs = mset (resources_of hex ?t now cks)" using Parse_reads_checks[OF assms(1-5), of now] assms(6) by simp
  then have "set rs = set (resources_of hex ?t now cks)" by (rule mset_eq_setD)
  then obtain res where r: "r = check_resource now (res, check_services_of hex ?t cks res)"
    using assms(7) by (auto simp: resources_of_def)
  have "\<forall>s \<in> set (check_services_of hex ?t cks res). mi_Status (ms_MonitoredInfo s) \<noteq> HostUp"
    unfolding check_services_of_def using first_by_name_sub status_of_valid assms(3) by fastforce
  note c = check_resource_status[OF this, of now res]
  have "ms_name ` set (check_services_of hex ?t cks res) = ck_svc ` {ck \<in> set cks. ck_res ck = res}"
    by (simp add: check_services_of_def first_by_name_names image_image)
  then show ?thesis unfolding r c check_resource_name by (auto simp: image_iff)
qed

text \<open>
  C10. A payload that prints check results, in either format, is read as exactly the resources, services and metrics of these
  results, whatever the order in which Go iterates over the map of services; the resources have different names.
\<close>

theorem Parse_checks:
  assumes "fmt \<in> {Bronx, NSCA, NSCAAlt}" "cks \<noteq> []" "\<forall>ck \<in> set cks. ck_valid hex fmt ck"
    and "hd (ck_line fmt (hd cks)) \<notin> {CHR '' '', CHR 0x0D}" "\<And>m. mset (order m) = mset m"
  shows "\<exists>rs. Parse hex order now (ck_payload fmt cks) fmt = Done (Inr rs) \<and>
    mset rs = mset (resources_of hex (ck_time now fmt) now cks) \<and>
    distinct (map (\<lambda>r. bi_Name (br_BaseInfo (mr_BaseResource r))) rs)"
proof -
  let ?t = "ck_time now fmt" and ?name = "\<lambda>r. bi_Name (br_BaseInfo (mr_BaseResource r))"
  obtain rs where rs: "Parse hex order now (ck_payload fmt cks) fmt = Done (Inr rs)" "mset rs = mset (resources_of hex ?t now cks)"
    using Parse_reads_checks[OF assms] by blast
  have "map ?name (resources_of hex ?t now cks) = remdups (map ck_res cks)"
    by (simp add: resources_of_def comp_def check_resource_name)
  then have "mset (map ?name rs) = mset (remdups (map ck_res cks))" using rs(2) by (metis mset_map)
  then have "distinct (map ?name rs)" by (metis distinct_remdups mset_eq_imp_distinct_iff)
  with rs show ?thesis by blast
qed

section \<open>Witnesses\<close>

definition demo_perf :: perf where
  "demo_perf = \<lparr>pf_label = ''l'', pf_value = ''5'', pf_unit = ''ms'', pf_warning = ''6'', pf_warning_unit = [], pf_critical = [],
     pf_critical_unit = [], pf_range = []\<rparr>"

definition demo_checks :: "check list" where
  "demo_checks = [\<lparr>ck_ts = None, ck_res = ''h'', ck_svc = ''s'', ck_status = ''0'', ck_msg = ''OK'', ck_perfs = [demo_perf]\<rparr>,
                  \<lparr>ck_ts = Some ''7'', ck_res = ''h'', ck_svc = [], ck_status = ''2'', ck_msg = ''no; bad'', ck_perfs = [demo_perf]\<rparr>]"

lemma demo_payload: "ck_payload NSCA demo_checks = ''h;s;0;OK | l=5ms;6;;'' @ [CHR 0x0A] @ ''7;h;;2;no; bad | l=5ms;6;;''"
  by (simp add: ck_payload_def demo_checks_def ck_line_def NSCA_def Bronx_def nsca_line_def nsca_fields_def ck_perf_text_def demo_perf_def perf_token_def)

lemma demo_valid: "\<forall>ck \<in> set demo_checks. ck_valid (\<lambda>_. None) NSCA ck"
proof -
  have d: "is_digit CHR ''5''" "is_digit CHR ''6''" "non_digit CHR ''m''" "non_digit CHR ''s''"
    by (simp_all add: is_digit_def non_digit_def char_digit_def Let_def)
  have "format_nat 5 = ''5''" "format_nat 6 = ''6''" by code_simp+
  then have "ParseFloat (\<lambda>_. None) ''5'' \<noteq> None" "ParseFloat (\<lambda>_. None) ''6'' \<noteq> None"
    using ParseFloat_nat[of 5 "\<lambda>_. None"] ParseFloat_nat[of 6 "\<lambda>_. None"] by simp_all
  then have n: "perf_number (\<lambda>_. None) ''5'' \<noteq> None" "perf_number (\<lambda>_. None) ''6'' \<noteq> None" "perf_number (\<lambda>_. None) [] \<noteq> None"
    by (simp_all add: perf_number_def)
  have "perf_ok demo_perf" using d by (simp add: perf_ok_def demo_perf_def plain_def perf_num_def perf_unit_def perf_range_def)
  moreover have "\<forall>a \<in> set (perf_token demo_perf). a \<notin> ascii_space" by (simp add: perf_token_def demo_perf_def ascii_space_def)
  ultimately have "pf_valid (\<lambda>_. None) demo_perf" using n by (simp add: pf_valid_def demo_perf_def)
  then show ?thesis
    by (simp add: demo_checks_def ck_valid_def NSCA_def Bronx_def nsca_valid_def perfs_ok_def fields_ok_def unambiguous_def one_bar_fields_def
        plain_def message_def space_char_def getStatus_def ck_perf_text_def perf_token_def demo_perf_def)
qed

lemma demo_start: "hd (ck_line NSCA (hd demo_checks)) \<notin> {CHR '' '', CHR 0x0D}"
  by (simp add: demo_checks_def ck_line_def NSCA_def Bronx_def nsca_line_def nsca_fields_def)

theorem Parse_checks_witness:
  "\<exists>rs. Parse (\<lambda>_. None) id 9 (ck_payload NSCA demo_checks) NSCA = Done (Inr rs) \<and>
     mset rs = mset (resources_of (\<lambda>_. None) (ck_time 9 NSCA) 9 demo_checks) \<and> length rs = 1"
proof -
  obtain rs where "Parse (\<lambda>_. None) id 9 (ck_payload NSCA demo_checks) NSCA = Done (Inr rs)"
    "mset rs = mset (resources_of (\<lambda>_. None) (ck_time 9 NSCA) 9 demo_checks)"
    using Parse_checks[OF _ _ demo_valid demo_start, of id 9] by (auto simp: demo_checks_def)
  moreover have "length (resources_of (\<lambda>_. None) (ck_time 9 NSCA) 9 demo_checks) = 1" by (simp add: resources_of_def demo_checks_def)
  ultimately show ?thesis by (metis size_mset)
qed

theorem host_check_status_witness:
  "\<exists>rs. Parse (\<lambda>_. None) id 9 (ck_payload NSCA demo_checks) NSCA = Done (Inr rs) \<and> rs \<noteq> [] \<and>
     (\<forall>r \<in> set rs. bi_Name (br_BaseInfo (mr_BaseResource r)) = ''h'' \<and> mi_Status (mr_MonitoredInfo r) \<noteq> HostUp)"
proof -
  have c: "NSCA \<in> {Bronx, NSCA, NSCAAlt}" "demo_checks \<noteq> []" by (simp_all add: demo_checks_def)
  obtain rs where rs: "Parse (\<lambda>_. None) id 9 (ck_payload NSCA demo_checks) NSCA = Done (Inr rs)"
    "mset rs = mset (resources_of (\<lambda>_. None) (ck_time 9 NSCA) 9 demo_checks)"
    using Parse_reads_checks[OF c demo_valid demo_start, of id 9] by auto
  have "set rs = set (resources_of (\<lambda>_. None) (ck_time 9 NSCA) 9 demo_checks)" using rs(2) by (rule mset_eq_setD)
  then have n: "rs \<noteq> []" "\<forall>r \<in> set rs. bi_Name (br_BaseInfo (mr_BaseResource r)) = ''h''"
    by (auto simp: resources_of_def demo_checks_def check_resource_name)
  have "mi_Status (mr_MonitoredInfo r) \<noteq> HostUp" if "r \<in> set rs" for r
    using host_check_status[OF c demo_valid demo_start _ rs(1) that] n(2) that by (simp add: demo_checks_def)
  with rs(1) n show ?thesis by blast
qed

theorem perf_without_semicolon_witness: "\<exists>e. perf_metrics (\<lambda>_. None) 9 9 ''h:s'' [''l=5;6;7'', ''m=1;2;3;''] [] = Done (Inl e)"
  using perf_without_semicolon[of "''l=5;6;7''" "[''l=5;6;7'', ''m=1;2;3;'']"] by simp

theorem semicolon_shifts_fields_witness:
  "FindStringSubmatch nscaRegexp (nsca_fields ''h'' ''s'' ''0'' ''a;b'' '' '' '' '' ''l=5;6;7;'') =
     Some [nsca_fields ''h'' ''s'' ''0'' ''a;b'' '' '' '' '' ''l=5;6;7;'', ''h;'', ''h'', ''s'', ''0'', ''a'', ''b'', ''l=5;6;7;'']"
  using semicolon_shifts_fields[of "''h''" "''s''" "''0''" "''a''" "''b''" "'' ''" "'' ''" "''l=5;6;7;''"]
  by (simp add: check_fields_def plain_def message_def spacing_def space_char_def perf_text_def)

end
