(* ===== verification/Nsca_Connector.thy ===== *)
theory Nsca_Connector
  imports Nsca_Checks Controller
begin

text \<open>
  The two ways in which check results reach the parser: packets of the NSCA protocol (\<^verbatim>\<open>connectors/nsca/nsca/nsca.go\<close>) and
  requests to entry points (\<^verbatim>\<open>connectors/nsca/nsca.go\<close>).  Decryption and the checksum are code of the package
  \<^verbatim>\<open>nscatools\<close> and arguments here.  Go bounds a slice expression by the capacity of the buffer, so the buffer has a
  second part, the bytes between its length and its capacity.
\<close>

section \<open>Packets\<close>

record DataPacket =
  dp_Version :: "16 word"
  dp_Crc :: "32 word"
  dp_Timestamp :: "32 word"
  dp_State :: "16 word"
  dp_HostName :: bytes
  dp_Service :: bytes
  dp_PluginOutput :: bytes

definition go_slice :: "bytes \<Rightarrow> bytes \<Rightarrow> nat \<Rightarrow> nat \<Rightarrow> bytes exec" where
  "go_slice s spare low high =
     (if high \<le> length s + length spare then Done (take (high - low) (drop low (s @ spare))) else Panic SliceBounds)"

definition go_slice_from :: "bytes \<Rightarrow> nat \<Rightarrow> bytes exec" where
  "go_slice_from s low = (if low \<le> length s then Done (drop low s) else Panic SliceBounds)"

definition BigEndian :: "bytes \<Rightarrow> nat" where
  "BigEndian s = foldl (\<lambda>n c. 256 * n + of_char c) 0 s"

text \<open>The text before the first NUL byte.\<close>

definition until_nul :: "bytes \<Rightarrow> bytes" where
  "until_nul s = hd (Split s CHR 0x00)"

datatype packet_error = ReadFailed error | DecryptFailed error | InvalidCRC

definition Read :: "(bytes \<Rightarrow> error + bytes) \<Rightarrow> (bytes \<Rightarrow> 32 word) \<Rightarrow> error + (bytes \<times> bytes) \<Rightarrow> (packet_error + DataPacket) exec" where
  "Read decrypt calculateCrc readAll =
     (case readAll of
        Inl e \<Rightarrow> Done (Inl (ReadFailed e))
      | Inr (packet, spare) \<Rightarrow>
          (case decrypt packet of
             Inl e \<Rightarrow> Done (Inl (DecryptFailed e))
           | Inr fullPacket \<Rightarrow>
               bind_exec (go_slice fullPacket spare 4 8) (\<lambda>crc.
               if word_of_nat (BigEndian crc) \<noteq> calculateCrc fullPacket then Done (Inl InvalidCRC)
               else
                 bind_exec (go_slice fullPacket spare 8 12) (\<lambda>stamp.
                 bind_exec (go_slice fullPacket spare 0 2) (\<lambda>version.
                 bind_exec (go_slice fullPacket spare 12 14) (\<lambda>state.
                 bind_exec (go_slice fullPacket spare 14 78) (\<lambda>host.
                 bind_exec (go_slice fullPacket spare 78 206) (\<lambda>service.
                 bind_exec (go_slice_from fullPacket 206) (\<lambda>output.
                   Done (Inr \<lparr>dp_Version = word_of_nat (BigEndian version), dp_Crc = word_of_nat (BigEndian crc),
                              dp_Timestamp = word_of_nat (BigEndian stamp), dp_State = word_of_nat (BigEndian state),
                              dp_HostName = until_nul host, dp_Service = until_nul service, dp_PluginOutput = until_nul output\<rparr>))))))))))"

text \<open>\<open>AdaptHandler\<close>: the plain line of a packet, given to a handler whose error is only logged.\<close>

definition plain_packet :: "DataPacket \<Rightarrow> bytes" where
  "plain_packet p =
     (let s = ReplaceAll (dp_PluginOutput p) [CHR 0x5C, CHR ''n''] [CHR 0x0A]
      in dp_HostName p @ '';'' @ dp_Service p @ '';'' @ FormatInt (sint (dp_State p)) @ '';'' @ s)"

definition AdaptHandler :: "(bytes \<Rightarrow> 's \<Rightarrow> ('s \<times> 'e option) exec) \<Rightarrow> DataPacket \<Rightarrow> 's \<Rightarrow> ('s \<times> 'e option) exec" where
  "AdaptHandler h p st = bind_exec (h (plain_packet p) st) (\<lambda>(st', _). Done (st', None))"

section \<open>Sending what was parsed\<close>

datatype process_error = ParseError nsca_error | SendError error | BodyError error

definition processData :: "svc_env \<Rightarrow> expr_env \<Rightarrow> nat \<Rightarrow> duration \<Rightarrow> (bytes \<Rightarrow> f64 option) \<Rightarrow> (ServicesMap \<Rightarrow> ServicesMap) \<Rightarrow> timestamp \<Rightarrow>
    http_Header option \<Rightarrow> bytes \<Rightarrow> bytes \<Rightarrow> Agent \<Rightarrow> (Agent \<times> process_error option) exec" where
  "processData svc env fuel ci hex order now ctx dataFormat payload a =
     bind_exec (Parse hex order now payload dataFormat) (\<lambda>r.
       case r of
         Inl e \<Rightarrow> Done (a, Some (ParseError e))
       | Inr monitoredResources \<Rightarrow>
           bind_exec (SendMetrics svc env fuel ci ctx monitoredResources None a) (\<lambda>(a', err).
             Done (a', map_option SendError err)))"

definition makeNSCAHandler :: "svc_env \<Rightarrow> expr_env \<Rightarrow> nat \<Rightarrow> duration \<Rightarrow> (bytes \<Rightarrow> f64 option) \<Rightarrow> (ServicesMap \<Rightarrow> ServicesMap) \<Rightarrow> timestamp \<Rightarrow>
    http_Header option \<Rightarrow> DataPacket \<Rightarrow> Agent \<Rightarrow> (Agent \<times> process_error option) exec" where
  "makeNSCAHandler svc env fuel ci hex order now ctx p a =
     AdaptHandler (processData svc env fuel ci hex order now ctx NSCA) p a"

text \<open>The answer of an entry point: the status code and, for an error, which one.  \<open>body\<close> is the outcome of reading the request.\<close>

definition EntrypointHandler :: "svc_env \<Rightarrow> expr_env \<Rightarrow> nat \<Rightarrow> duration \<Rightarrow> (bytes \<Rightarrow> f64 option) \<Rightarrow> (ServicesMap \<Rightarrow> ServicesMap) \<Rightarrow> timestamp \<Rightarrow>
    http_Header option \<Rightarrow> bytes \<Rightarrow> error + bytes \<Rightarrow> Agent \<Rightarrow> (Agent \<times> int \<times> process_error option) exec" where
  "EntrypointHandler svc env fuel ci hex order now ctx dataFormat body a =
     (case body of
        Inl e \<Rightarrow> Done (a, 400, Some (BodyError e))
      | Inr payload \<Rightarrow>
          bind_exec (processData svc env fuel ci hex order now ctx dataFormat payload a) (\<lambda>(a', err).
            Done (case err of Some e \<Rightarrow> (a', 400, Some e) | None \<Rightarrow> (a', 200, None))))"

text \<open>
  The entry points: \<open>make\<close> with a length fills the slice with six empty ones, which the controller does not register.
\<close>

definition empty_Entrypoint :: Entrypoint where
  "empty_Entrypoint = \<lparr>ep_URL = [], ep_Method = [], ep_Handler = (\<lambda>_. Panic NilFunc)\<rparr>"

definition initializeEntrypoints :: "(bytes \<Rightarrow> http_in \<Rightarrow> response exec) \<Rightarrow> Entrypoint list" where
  "initializeEntrypoints handler =
     replicate 6 empty_Entrypoint @
     map (\<lambda>fmt. \<lparr>ep_URL = ''check/'' @ fmt, ep_Method = ''POST'', ep_Handler = handler fmt\<rparr>) [Bronx, NSCA, NSCAAlt]"

section \<open>Packets round trip\<close>

text \<open>The layout of a packet: fixed fields, names padded to their width, the output up to a NUL byte.\<close>

definition padded :: "nat \<Rightarrow> bytes \<Rightarrow> bytes" where
  "padded n s = s @ replicate (n - length s) CHR 0x00"

definition be16 :: "16 word \<Rightarrow> bytes" where
  "be16 w = [char_of (unat w div 256), char_of (unat w mod 256)]"

definition be32 :: "32 word \<Rightarrow> bytes" where
  "be32 w = [char_of (unat w div 16777216), char_of (unat w div 65536 mod 256), char_of (unat w div 256 mod 256), char_of (unat w mod 256)]"

definition encode_packet :: "DataPacket \<Rightarrow> bytes \<Rightarrow> bytes" where
  "encode_packet p pad = be16 (dp_Version p) @ [CHR 0x00, CHR 0x00] @ be32 (dp_Crc p) @ be32 (dp_Timestamp p) @ be16 (dp_State p) @
     padded 64 (dp_HostName p) @ padded 128 (dp_Service p) @ dp_PluginOutput p @ CHR 0x00 # pad"

definition packet_ok :: "DataPacket \<Rightarrow> bool" where
  "packet_ok p \<longleftrightarrow> length (dp_HostName p) \<le> 64 \<and> length (dp_Service p) \<le> 128 \<and>
     CHR 0x00 \<notin> set (dp_HostName p) \<union> set (dp_Service p) \<union> set (dp_PluginOutput p)"

lemma until_nul_append: "CHR 0x00 \<notin> set s \<Longrightarrow> until_nul (s @ CHR 0x00 # r) = s"
  by (simp add: until_nul_def Split_append)

lemma until_nul_padded: "CHR 0x00 \<notin> set s \<Longrightarrow> until_nul (padded n s) = s"
  by (cases "n - length s") (simp_all add: padded_def until_nul_append, simp add: until_nul_def Split_none)

lemma BigEndian16: "word_of_nat (BigEndian (be16 w)) = w"
proof -
  have "unat w < 65536" using unsigned_less[where ?'a = nat, of w] by simp
  then have "BigEndian (be16 w) = unat w" by (simp add: BigEndian_def be16_def)
  then show ?thesis by simp
qed

lemma BigEndian32: "word_of_nat (BigEndian (be32 w)) = w"
proof -
  have b: "unat w < 4294967296" using unsigned_less[where ?'a = nat, of w] by simp
  then have "BigEndian (be32 w) = 256 * (256 * (256 * (unat w div 16777216) + unat w div 65536 mod 256) + unat w div 256 mod 256) + unat w mod 256"
    by (simp add: BigEndian_def be32_def)
  also have "\<dots> = unat w"
  proof -
    have "unat w div 65536 = unat w div 256 div 256" "unat w div 16777216 = unat w div 256 div 256 div 256"
      by (simp_all add: div_mult2_eq[symmetric])
    then show ?thesis by (metis mult_div_mod_eq)
  qed
  finally show ?thesis by simp
qed

text \<open>
  A packet written in the layout of the protocol is read back, whatever follows the output, when it decrypts to itself and its checksum fits.
\<close>

theorem packet_roundtrip:
  assumes "packet_ok p" "decrypt packet = Inr (encode_packet p pad)" "calculateCrc (encode_packet p pad) = dp_Crc p"
  shows "Read decrypt calculateCrc (Inr (packet, spare)) = Done (Inr p)"
proof -
  let ?s = "encode_packet p pad"
  have len: "length (padded 64 (dp_HostName p)) = 64" "length (padded 128 (dp_Service p)) = 128" "length ?s \<ge> 206"
    "length (be16 w) = 2" "length (be32 v) = 4" for w v
    using assms(1) by (simp_all add: packet_ok_def padded_def be16_def be32_def encode_packet_def)
  have "go_slice ?s spare 4 8 = Done (be32 (dp_Crc p))" "go_slice ?s spare 8 12 = Done (be32 (dp_Timestamp p))"
    "go_slice ?s spare 0 2 = Done (be16 (dp_Version p))" "go_slice ?s spare 12 14 = Done (be16 (dp_State p))"
    "go_slice ?s spare 14 78 = Done (padded 64 (dp_HostName p))" "go_slice ?s spare 78 206 = Done (padded 128 (dp_Service p))"
    "go_slice_from ?s 206 = Done (dp_PluginOutput p @ CHR 0x00 # pad)"
    using len by (simp_all add: go_slice_def go_slice_from_def encode_packet_def be16_def be32_def take_Cons' drop_Cons')
  then show ?thesis using assms
    by (simp add: Read_def BigEndian16 BigEndian32 packet_ok_def until_nul_padded until_nul_append)
qed

text \<open>
  A packet shorter than 206 bytes with a fitting checksum makes the reader panic: the bound of the last slice is the length of the packet,
  and the check of the length is commented out.
\<close>

theorem short_packet_panics:
  assumes "decrypt packet = Inr full" "length full < 206" "206 \<le> length full + length spare"
    and "\<And>crc. go_slice full spare 4 8 = Done crc \<Longrightarrow> word_of_nat (BigEndian crc) = calculateCrc full"
  shows "Read decrypt calculateCrc (Inr (packet, spare)) = Panic SliceBounds"
  using assms by (simp add: Read_def go_slice_def go_slice_from_def)

section \<open>From a packet to what is sent\<close>

definition packet_of :: "check \<Rightarrow> DataPacket \<Rightarrow> bool" where
  "packet_of ck p \<longleftrightarrow> dp_HostName p = ck_res ck \<and> dp_Service p = ck_svc ck \<and> FormatInt (sint (dp_State p)) = ck_status ck \<and>
     dp_PluginOutput p = ck_msg ck @ '' | '' @ ck_perf_text ck \<and> CHR 0x5C \<notin> set (dp_PluginOutput p)"

lemma plain_packet_line: "packet_of ck p \<Longrightarrow> ck_ts ck = None \<Longrightarrow> plain_packet p = ck_payload NSCA [ck]"
  by (auto simp: packet_of_def plain_packet_def ReplaceAll_no_char ck_payload_def ck_line_def NSCA_def Bronx_def nsca_line_def nsca_fields_def)

text \<open>
  C11. What a packet with a one-line result makes the agent send: the resource of that result, exactly as \<open>SendMetrics\<close> sends it; the handler
  never reports an error to the server.
\<close>

theorem packet_is_sent:
  assumes "packet_of ck p" "ck_ts ck = None" "nsca_valid hex ck" "hd (nsca_line ck) \<notin> {CHR '' '', CHR 0x0D}" "\<And>m. mset (order m) = mset m"
  shows "makeNSCAHandler svc env fuel ci hex order now ctx p a =
    bind_exec (SendMetrics svc env fuel ci ctx (resources_of hex (\<lambda>_. now) now [ck]) None a) (\<lambda>(a', err). Done (a', None))"
proof -
  have f: "NSCA \<in> {Bronx, NSCA, NSCAAlt}" "NSCA \<noteq> Bronx" by (simp_all add: NSCA_def Bronx_def)
  have t: "ck_time now NSCA ck = now" using assms(2) f(2) by (simp add: ck_time_def nsca_check_time_def)
  obtain rs where rs: "Parse hex order now (ck_payload NSCA [ck]) NSCA = Done (Inr rs)"
    "mset rs = mset (resources_of hex (ck_time now NSCA) now [ck])"
    using Parse_reads_checks[OF f(1), of "[ck]" hex order now] assms(3-5) f(2) by (auto simp: ck_valid_def ck_line_def)
  have "resources_of hex (ck_time now NSCA) now [ck] = resources_of hex (\<lambda>_. now) now [ck]"
    by (simp add: resources_of_def check_services_of_def service_of_def metrics_of_def t)
  moreover obtain x where "resources_of hex (\<lambda>_. now) now [ck] = [x]" by (simp add: resources_of_def)
  ultimately have "rs = resources_of hex (\<lambda>_. now) now [ck]" using rs(2) by simp
  then show ?thesis
    using rs(1) plain_packet_line[OF assms(1,2)]
    by (cases "SendMetrics svc env fuel ci ctx (resources_of hex (\<lambda>_. now) now [ck]) None a")
      (auto simp: makeNSCAHandler_def AdaptHandler_def processData_def)
qed

section \<open>Witnesses\<close>

definition demo_packet :: DataPacket where
  "demo_packet = \<lparr>dp_Version = 3, dp_Crc = 7, dp_Timestamp = 1000, dp_State = 0, dp_HostName = ''h'', dp_Service = ''s'', dp_PluginOutput = ''OK | l=5ms;6;;''\<rparr>"

theorem packet_roundtrip_witness: "Read Inr (\<lambda>_. 7) (Inr (encode_packet demo_packet [], [])) = Done (Inr demo_packet)"
  by (rule packet_roundtrip) (simp_all add: packet_ok_def demo_packet_def)

theorem short_packet_panics_witness: "Read Inr (\<lambda>_. 0) (Inr (replicate 8 CHR 0x00, replicate 504 CHR 0x00)) = Panic SliceBounds"
  by (rule short_packet_panics[OF refl]) (simp_all add: go_slice_def BigEndian_def numeral_eq_Suc)

theorem packet_is_sent_witness:
  "makeNSCAHandler demo_svc_env demo_expr_env 9 60 (\<lambda>_. None) id 9 None demo_packet demo_agent =
    bind_exec (SendMetrics demo_svc_env demo_expr_env 9 60 None (resources_of (\<lambda>_. None) (\<lambda>_. 9) 9 [hd demo_checks]) None demo_agent) (\<lambda>(a', err). Done (a', None))"
proof (rule packet_is_sent)
  show "packet_of (hd demo_checks) demo_packet"
    by (simp add: packet_of_def demo_checks_def demo_packet_def FormatInt_def format_nat.simps digit_char_def char_of_def bit_0 ck_perf_text_def demo_perf_def perf_token_def)
  show "ck_ts (hd demo_checks) = None" by (simp add: demo_checks_def)
  show "nsca_valid (\<lambda>_. None) (hd demo_checks)" using demo_valid by (simp add: demo_checks_def ck_valid_def NSCA_def Bronx_def)
  show "hd (nsca_line (hd demo_checks)) \<notin> {CHR '' '', CHR 0x0D}" using demo_start by (simp add: ck_line_def NSCA_def Bronx_def)
qed simp

end
