(* ===== verification/Sdk_Mapping.thy ===== *)
theory Sdk_Mapping
  imports Go_Regexp Expressions Sdk_Errors
begin

text \<open>
  \<^verbatim>\<open>sdk/mapping/mapping.go\<close>: rules that make names from tags.  A rule matches the value of a tag with a regular expression and
  expands a template with every match.  The syntax of expressions is the argument \<open>compile\<close>, which gives the program of
  \<open>Go_Regexp\<close>; searching, submatches and the expansion of templates are modelled.  A template is read as ASCII text.
\<close>

section \<open>All matches and templates\<close>

text \<open>
  \<open>FindAllStringSubmatchIndex\<close>: the groups of each match, from left to right; an empty match right after a match is dropped.  The end
  of a match is never before the position of the search.
\<close>

function find_all :: "Regexp \<Rightarrow> bytes \<Rightarrow> nat \<Rightarrow> nat option \<Rightarrow> caps list" where
  "find_all re s pos prevMatchEnd =
     (if pos > length s then []
      else case leftmost re s pos of
        None \<Rightarrow> []
      | Some (start, c, end_pos) \<Rightarrow>
          (if end_pos = pos \<and> prevMatchEnd = Some start then [] else [c]) @
          find_all re s (max (Suc pos) end_pos) (Some end_pos))"
  by pat_completeness auto
termination
  by (relation "measure (\<lambda>(re, s, pos, prev). Suc (length s) - pos)") auto

declare find_all.simps [simp del]

definition FindAll :: "Regexp \<Rightarrow> bytes \<Rightarrow> caps list" where
  "FindAll re s = find_all re s 0 None"

text \<open>A name or a name in braces at the beginning of a text; \<open>None\<close> when there is none.\<close>

definition extract_name :: "bytes \<Rightarrow> (bytes \<times> bytes) option" where
  "extract_name str =
     (let brace = (str \<noteq> [] \<and> hd str = CHR ''{'');
          t = (if brace then tl str else str);
          name = takeWhile word_char t;
          rest = dropWhile word_char t
      in if name = [] then None
         else if brace then (if rest \<noteq> [] \<and> hd rest = CHR ''}'' then Some (name, tl rest) else None)
         else Some (name, rest))"

text \<open>The number a name stands for, if any: decimal digits without a leading zero, below a bound.\<close>

fun name_digits :: "nat \<Rightarrow> bytes \<Rightarrow> nat option" where
  "name_digits num [] = Some num"
| "name_digits num (c # cs) =
     (case char_digit c of
        None \<Rightarrow> None
      | Some d \<Rightarrow> if num \<ge> 100000000 then None else name_digits (num * 10 + d) cs)"

definition group_number :: "bytes \<Rightarrow> nat option" where
  "group_number name = (if length name > 1 \<and> hd name = CHR ''0'' then None else name_digits 0 name)"

text \<open>The text of a group by number, or of the first group of that name that took part in the match.\<close>

definition group_text :: "Regexp \<Rightarrow> caps \<Rightarrow> bytes \<Rightarrow> bytes" where
  "group_text re c name =
     (let n = length (re_names re) in
      case group_number name of
        Some i \<Rightarrow> (if i < n then (case c i of None \<Rightarrow> [] | Some t \<Rightarrow> t) else [])
      | None \<Rightarrow>
          (case List.find (\<lambda>i. re_names re ! i = name \<and> c i \<noteq> None) [0..<n] of
             None \<Rightarrow> []
           | Some i \<Rightarrow> (case c i of None \<Rightarrow> [] | Some t \<Rightarrow> t)))"

lemma extract_name_shorter: "extract_name t = Some (name, rest) \<Longrightarrow> length rest < Suc (length t)"
  using length_dropWhile_le[of word_char t] length_dropWhile_le[of word_char "tl t"]
  by (auto simp: extract_name_def Let_def split: if_splits)

function expand :: "Regexp \<Rightarrow> caps \<Rightarrow> bytes \<Rightarrow> bytes" where
  "expand re c [] = []"
| "expand re c (a # t) =
     (if a \<noteq> CHR ''$'' then a # expand re c t
      else if t \<noteq> [] \<and> hd t = CHR ''$'' then CHR ''$'' # expand re c (tl t)
      else case extract_name t of
        None \<Rightarrow> CHR ''$'' # expand re c t
      | Some (name, rest) \<Rightarrow> group_text re c name @ expand re c rest)"
  by pat_completeness auto
termination
  by (relation "measure (\<lambda>(re, c, t). length t)") (auto dest!: extract_name_shorter)

section \<open>Mappings\<close>

text \<open>The compiled expression is a pointer, nil until \<open>Compile\<close>; searching with nil panics.\<close>

record Mapping =
  mp_Tag :: bytes
  mp_Matcher :: bytes
  mp_Template :: bytes
  mp_matcher :: "Regexp option"

datatype map_error =
    MissedTag bytes
  | MismatchedTag bytes
  | AnyMismatched
  | AnyMissed
  | CompileError nat bytes error

definition NewMapping :: "(bytes \<Rightarrow> error + Regexp) \<Rightarrow> bytes \<Rightarrow> bytes \<Rightarrow> bytes \<Rightarrow> Mapping option" where
  "NewMapping compile tag matcher template =
     (case compile matcher of
        Inl _ \<Rightarrow> None
      | Inr m \<Rightarrow> Some \<lparr>mp_Tag = tag, mp_Matcher = matcher, mp_Template = template, mp_matcher = Some m\<rparr>)"

definition Mapping_Compile :: "(bytes \<Rightarrow> error + Regexp) \<Rightarrow> Mapping \<Rightarrow> Mapping \<times> error option" where
  "Mapping_Compile compile p =
     (case compile (mp_Matcher p) of
        Inl err \<Rightarrow> (p, Some err)
      | Inr m \<Rightarrow> (p\<lparr>mp_matcher := Some m\<rparr>, None))"

text \<open>The mappings before the one that fails stay compiled.\<close>

fun compile_from :: "(bytes \<Rightarrow> error + Regexp) \<Rightarrow> nat \<Rightarrow> Mapping list \<Rightarrow> Mapping list \<times> map_error option" where
  "compile_from compile i [] = ([], None)"
| "compile_from compile i (p # ps) =
     (case Mapping_Compile compile p of
        (p', Some err) \<Rightarrow> (p' # ps, Some (CompileError i (mp_Tag p) err))
      | (p', None) \<Rightarrow> (let (ps', e) = compile_from compile (Suc i) ps in (p' # ps', e)))"

definition Mappings_Compile :: "(bytes \<Rightarrow> error + Regexp) \<Rightarrow> Mapping list \<Rightarrow> Mapping list \<times> map_error option" where
  "Mappings_Compile compile ps = compile_from compile 0 ps"

definition expand_all :: "Regexp \<Rightarrow> bytes \<Rightarrow> caps list \<Rightarrow> bytes" where
  "expand_all re template ms = concat (map (\<lambda>c. expand re c template) ms)"

fun apply_from :: "Mapping list \<Rightarrow> (bytes \<rightharpoonup> bytes) \<Rightarrow> bytes \<Rightarrow> (map_error + bytes) exec" where
  "apply_from [] tags result = Done (Inr result)"
| "apply_from (p # ps) tags result =
     (if mp_Tag p = [] then apply_from ps tags (result @ mp_Template p)
      else case tags (mp_Tag p) of
        None \<Rightarrow> Done (Inl (MissedTag (mp_Tag p)))
      | Some content \<Rightarrow>
          bind_exec (deref (mp_matcher p)) (\<lambda>re.
            if FindAll re content = [] then Done (Inl (MismatchedTag (mp_Tag p)))
            else apply_from ps tags (result @ expand_all re (mp_Template p) (FindAll re content))))"

definition Apply :: "Mapping list \<Rightarrow> (bytes \<rightharpoonup> bytes) \<Rightarrow> (map_error + bytes) exec" where
  "Apply ps tags = apply_from ps tags []"

text \<open>The values of all tags a rule names, in its order; \<open>None\<close> when one is missing.\<close>

fun tag_values :: "bytes list \<Rightarrow> (bytes \<rightharpoonup> bytes) \<Rightarrow> bytes list option" where
  "tag_values [] tags = Some []"
| "tag_values (k # ks) tags =
     (case tags (TrimSpace k) of
        None \<Rightarrow> None
      | Some v \<Rightarrow> map_option ((#) v) (tag_values ks tags))"

fun apply_or :: "Mapping list \<Rightarrow> (bytes \<rightharpoonup> bytes) \<Rightarrow> bool \<Rightarrow> (map_error option + bytes) exec" where
  "apply_or [] tags mismatched = Done (Inl (if mismatched then Some AnyMismatched else None))"
| "apply_or (p # ps) tags mismatched =
     (if mp_Tag p = [] then Done (Inr (mp_Template p))
      else case tag_values (Split (mp_Tag p) CHR '','') tags of
        None \<Rightarrow> apply_or ps tags mismatched
      | Some vals \<Rightarrow>
          bind_exec (deref (mp_matcher p)) (\<lambda>re.
            let ms = FindAll re (Join vals '','')
            in if ms = [] then apply_or ps tags True else Done (Inr (expand_all re (mp_Template p) ms))))"

definition ApplyOR :: "Mapping list \<Rightarrow> (bytes \<rightharpoonup> bytes) \<Rightarrow> (map_error + bytes) exec" where
  "ApplyOR ps tags =
     bind_exec (apply_or ps tags False) (\<lambda>r.
       Done (case r of
               Inr t \<Rightarrow> Inr t
             | Inl (Some e) \<Rightarrow> Inl e
             | Inl None \<Rightarrow> if length ps > 0 then Inl AnyMissed else Inr []))"

fun match_any :: "Mapping list \<Rightarrow> bytes \<Rightarrow> bool exec" where
  "match_any [] str = Done False"
| "match_any (p # ps) str =
     bind_exec (deref (mp_matcher p)) (\<lambda>re. if FindAll re str \<noteq> [] then Done True else match_any ps str)"

definition MatchString :: "Mapping list \<Rightarrow> bytes \<Rightarrow> bool exec" where
  "MatchString ps str = (if length ps = 0 then Done True else match_any ps str)"

section \<open>Properties\<close>

text \<open>Compiled mappings never panic.\<close>

definition compiled :: "Mapping list \<Rightarrow> bool" where
  "compiled ps \<longleftrightarrow> (\<forall>p \<in> set ps. mp_matcher p \<noteq> None)"

definition same_rules :: "Mapping list \<Rightarrow> Mapping list \<Rightarrow> bool" where
  "same_rules ps qs \<longleftrightarrow> map (\<lambda>p. p\<lparr>mp_matcher := None\<rparr>) ps = map (\<lambda>p. p\<lparr>mp_matcher := None\<rparr>) qs"

lemma compile_from_None:
  "compile_from compile i ps = (qs, None) \<Longrightarrow> compiled qs \<and> same_rules qs ps"
proof (induction ps arbitrary: i qs)
  case (Cons p ps)
  obtain m where m: "compile (mp_Matcher p) = Inr m" using Cons.prems by (auto simp: Mapping_Compile_def split: sum.splits)
  obtain rs e where "compile_from compile (Suc i) ps = (rs, e)" by fastforce
  with Cons m show ?case by (auto simp: Mapping_Compile_def compiled_def same_rules_def)
qed (simp_all add: compiled_def same_rules_def)

text \<open>The first rule that applies: its tags are all there and its expression matches their values.\<close>

definition rule_value :: "Mapping \<Rightarrow> (bytes \<rightharpoonup> bytes) \<Rightarrow> bytes option" where
  "rule_value p tags =
     (if mp_Tag p = [] then Some (mp_Template p)
      else case (tag_values (Split (mp_Tag p) CHR '','') tags, mp_matcher p) of
        (Some vals, Some re) \<Rightarrow>
          (let ms = FindAll re (Join vals '','') in if ms = [] then None else Some (expand_all re (mp_Template p) ms))
      | _ \<Rightarrow> None)"

definition rule_mismatched :: "Mapping \<Rightarrow> (bytes \<rightharpoonup> bytes) \<Rightarrow> bool" where
  "rule_mismatched p tags \<longleftrightarrow> rule_value p tags = None \<and> tag_values (Split (mp_Tag p) CHR '','') tags \<noteq> None"

lemma apply_or_first:
  "compiled ps \<Longrightarrow> apply_or ps tags b =
     Done (case List.find (\<lambda>p. rule_value p tags \<noteq> None) ps of
       Some p \<Rightarrow> Inr (the (rule_value p tags))
     | None \<Rightarrow> Inl (if b \<or> (\<exists>p \<in> set ps. rule_mismatched p tags) then Some AnyMismatched else None))"
proof (induction ps arbitrary: b)
  case (Cons p ps)
  then obtain re where re: "mp_matcher p = Some re" and IH: "\<And>b. apply_or ps tags b = Done (case List.find (\<lambda>p. rule_value p tags \<noteq> None) ps of
       Some p \<Rightarrow> Inr (the (rule_value p tags))
     | None \<Rightarrow> Inl (if b \<or> (\<exists>p \<in> set ps. rule_mismatched p tags) then Some AnyMismatched else None))"
    by (auto simp: compiled_def)
  show ?case
  proof (cases "mp_Tag p = []")
    case True
    then have "rule_value p tags = Some (mp_Template p)" by (simp add: rule_value_def)
    then show ?thesis using True by simp
  next
    case False
    show ?thesis
    proof (cases "tag_values (Split (mp_Tag p) CHR '','') tags")
      case None
      then have "rule_value p tags = None" "\<not> rule_mismatched p tags" using False by (simp_all add: rule_value_def rule_mismatched_def)
      then show ?thesis using False None by (auto simp: IH)
    next
      case (Some vals)
      show ?thesis
      proof (cases "FindAll re (Join vals '','') = []")
        case True
        then have "rule_value p tags = None" "rule_mismatched p tags"
          using False Some re by (simp_all add: rule_value_def rule_mismatched_def)
        then show ?thesis using False Some re True by (simp add: IH)
      next
        case ne: False
        then have "rule_value p tags = Some (expand_all re (mp_Template p) (FindAll re (Join vals '','')))"
          using False Some re by (simp add: rule_value_def)
        then show ?thesis using False Some re ne by (simp add: Let_def)
      qed
    qed
  qed
qed simp

text \<open>
  \<open>ApplyOR\<close> with compiled rules returns the value of the first rule that applies.  When none does, it tells a rule whose tags were there but
  did not match from rules with missing tags; without rules the result is empty and no error.
\<close>

theorem ApplyOR_first:
  assumes "compiled ps"
  shows "ApplyOR ps tags = Done (case List.find (\<lambda>p. rule_value p tags \<noteq> None) ps of
      Some p \<Rightarrow> Inr (the (rule_value p tags))
    | None \<Rightarrow> if ps = [] then Inr []
              else if \<exists>p \<in> set ps. rule_mismatched p tags then Inl AnyMismatched else Inl AnyMissed)"
  unfolding ApplyOR_def apply_or_first[OF assms] by (auto split: option.split)

text \<open>\<open>Apply\<close> joins the values of all rules, or names the first tag that is missing or does not match.\<close>

definition part_value :: "Mapping \<Rightarrow> (bytes \<rightharpoonup> bytes) \<Rightarrow> map_error + bytes" where
  "part_value p tags =
     (if mp_Tag p = [] then Inr (mp_Template p)
      else case tags (mp_Tag p) of
        None \<Rightarrow> Inl (MissedTag (mp_Tag p))
      | Some content \<Rightarrow>
          (case mp_matcher p of
             None \<Rightarrow> Inl (MismatchedTag (mp_Tag p))
           | Some re \<Rightarrow> if FindAll re content = [] then Inl (MismatchedTag (mp_Tag p))
                        else Inr (expand_all re (mp_Template p) (FindAll re content))))"

lemma apply_from_parts:
  "compiled ps \<Longrightarrow> apply_from ps tags result =
     Done (case List.find (\<lambda>p. isl (part_value p tags)) ps of
       Some p \<Rightarrow> Inl (projl (part_value p tags))
     | None \<Rightarrow> Inr (result @ concat (map (\<lambda>p. projr (part_value p tags)) ps)))"
  by (induction ps arbitrary: result) (auto simp: compiled_def part_value_def split: option.splits)

subsection \<open>The identity rule\<close>

definition all_rx :: Regexp where
  "all_rx = \<lparr>re_prog = RGroup 1 (RStar True (RChr (\<lambda>c. c \<noteq> CHR 0x0A))), re_names = [[], []]\<rparr>"

lemma all_rx_match:
  assumes "CHR 0x0A \<notin> set s" "i \<le> length s"
  shows "leftmost all_rx s i = Some (i, [1 \<mapsto> drop i s, 0 \<mapsto> drop i s], length s)"
proof -
  have "greedy_run (\<lambda>c. c \<noteq> CHR 0x0A) (i, drop i s @ [], Map.empty)
      (\<lambda>(j, t, c). Some (c(1 \<mapsto> take (length (drop i s) - length t) (drop i s), 0 \<mapsto> take (length (drop i s) - length t) (drop i s)), j)) =
     Some ([1 \<mapsto> drop i s, 0 \<mapsto> drop i s], length s)"
    using assms in_set_dropD[of "CHR 0x0A" i s] by (intro greedy_run_longest) auto
  then have "match_at all_rx s i = Some ([1 \<mapsto> drop i s, 0 \<mapsto> drop i s], length s)"
    by (simp add: match_at_def all_rx_def case_prod_beta)
  then have "match_from all_rx s i n = Some (i, [1 \<mapsto> drop i s, 0 \<mapsto> drop i s], length s)" for n by (cases n) simp_all
  then show ?thesis using assms(2) by (simp add: leftmost_def)
qed

lemma FindAll_all: "CHR 0x0A \<notin> set s \<Longrightarrow> FindAll all_rx s = [[1 \<mapsto> s, 0 \<mapsto> s]]"
proof -
  assume s: "CHR 0x0A \<notin> set s"
  have "find_all all_rx s (length s) (Some (length s)) = []"
    by (subst find_all.simps) (simp add: all_rx_match[OF s] find_all.simps[of _ _ "Suc (length s)"])
  moreover have "find_all all_rx s (Suc (length s)) p = []" for p by (simp add: find_all.simps)
  ultimately have "find_all all_rx s (max (Suc 0) (length s)) (Some (length s)) = []"
    by (cases "length s \<ge> 1") (simp_all add: max_absorb2 Suc_le_eq del: length_0_conv)
  moreover have "leftmost all_rx s 0 = Some (0, [1 \<mapsto> s, 0 \<mapsto> s], length s)" using all_rx_match[OF s, of 0] by simp
  ultimately show ?thesis unfolding FindAll_def by (subst find_all.simps) simp
qed

text \<open>The rule with the expression \<^verbatim>\<open>(.*)\<close> and the template \<^verbatim>\<open>$1\<close> returns the value of its tag, when that is one line.\<close>

theorem identity_rule:
  assumes "mp_Tag p \<noteq> []" "CHR '','' \<notin> set (mp_Tag p)" "tags (TrimSpace (mp_Tag p)) = Some v" "CHR 0x0A \<notin> set v"
    and "compile (mp_Matcher p) = Inr all_rx" "mp_Template p = ''$1''"
  shows "ApplyOR (fst (Mappings_Compile compile (p # ps))) tags = Done (Inr v)"
proof -
  have x: "expand all_rx [Suc 0 \<mapsto> v, 0 \<mapsto> v] ''$1'' = v"
    by (simp add: extract_name_def word_char_def group_text_def group_number_def char_digit_def all_rx_def)
  obtain qs e where c: "compile_from compile (Suc 0) ps = (qs, e)" by fastforce
  have "fst (Mappings_Compile compile (p # ps)) = p\<lparr>mp_matcher := Some all_rx\<rparr> # qs"
    using assms(5) c by (simp add: Mappings_Compile_def Mapping_Compile_def)
  then show ?thesis using assms(1-4,6)
    by (simp add: ApplyOR_def Split_none FindAll_all expand_all_def x Let_def del: expand.simps)
qed

section \<open>Witnesses\<close>

definition demo_rule :: Mapping where
  "demo_rule = \<lparr>mp_Tag = ''host'', mp_Matcher = ''(.*)'', mp_Template = ''$1'', mp_matcher = None\<rparr>"

lemma host_trim: "TrimSpace ''host'' = ''host''"
  by (simp add: TrimSpace_def Trim_def TrimLeft_def TrimRight_def ascii_space_def)

theorem identity_rule_witness: "ApplyOR (fst (Mappings_Compile (\<lambda>_. Inr all_rx) [demo_rule])) [''host'' \<mapsto> ''web-1''] = Done (Inr ''web-1'')"
  by (rule identity_rule) (simp_all add: demo_rule_def host_trim)

theorem ApplyOR_first_witness:
  "ApplyOR [demo_rule\<lparr>mp_matcher := Some all_rx\<rparr>] [''node'' \<mapsto> ''n''] = Done (Inl AnyMissed)"
proof -
  let ?p = "demo_rule\<lparr>mp_matcher := Some all_rx\<rparr>" and ?tags = "[''node'' \<mapsto> ''n''] :: bytes \<rightharpoonup> bytes"
  have "rule_value ?p ?tags = None" "\<not> rule_mismatched ?p ?tags"
    by (simp_all add: rule_value_def rule_mismatched_def demo_rule_def Split_none host_trim)
  moreover have "compiled [?p]" by (simp add: compiled_def)
  ultimately show ?thesis using ApplyOR_first[of "[?p]" ?tags] by simp
qed

end
