(* ===== verification/Events_Connector.thy ===== *)
theory Events_Connector
  imports Sdk_Mapping Go_Maps Connector_Build
begin

text \<open>
  The events connector (\<^verbatim>\<open>connectors/events\<close>): alerts of a Prometheus alert manager become services by the mappings of the
  configuration.  The type \<^verbatim>\<open>template.Data\<close> of the package \<^verbatim>\<open>alertmanager\<close> appears with the fields that are read; a zero time is
  \<open>None\<close>.  Decoding of requests and of configurations is an argument.
\<close>

section \<open>Configuration\<close>

record events_ExtConfig =
  ex_MapHostgroup :: "Mapping list"
  ex_MapHostname :: "Mapping list"
  ex_MapService :: "Mapping list"

definition empty_ExtConfig :: events_ExtConfig where
  "empty_ExtConfig = \<lparr>ex_MapHostgroup = [], ex_MapHostname = [], ex_MapService = []\<rparr>"

text \<open>
  \<open>ConfigHandler\<close>: the new configuration is in place before its mappings are compiled; the result tells whether the loop was restarted.
\<close>

definition ConfigHandler :: "(bytes \<Rightarrow> error + Regexp) \<Rightarrow> (bytes \<Rightarrow> events_ExtConfig option) \<Rightarrow> bytes \<Rightarrow> events_ExtConfig \<Rightarrow> events_ExtConfig \<times> bool" where
  "ConfigHandler compile um data extConfig =
     (case um data of
        None \<Rightarrow> (extConfig, False)
      | Some tExt \<Rightarrow>
          (let (hg, e1) = Mappings_Compile compile (ex_MapHostgroup tExt); c1 = tExt\<lparr>ex_MapHostgroup := hg\<rparr> in
           if e1 \<noteq> None then (c1, False)
           else let (hn, e2) = Mappings_Compile compile (ex_MapHostname c1); c2 = c1\<lparr>ex_MapHostname := hn\<rparr> in
           if e2 \<noteq> None then (c2, False)
           else let (sv, e3) = Mappings_Compile compile (ex_MapService c2); c3 = c2\<lparr>ex_MapService := sv\<rparr> in
           if e3 \<noteq> None then (c3, False) else (c3, True)))"

section \<open>Alerts\<close>

record Alert =
  at_Annotations :: "bytes \<rightharpoonup> bytes"
  at_Labels :: "bytes \<rightharpoonup> bytes"
  at_StartsAt :: "timestamp option"
  at_EndsAt :: "timestamp option"

record AlertData =
  ad_CommonAnnotations :: "bytes \<rightharpoonup> bytes"
  ad_CommonLabels :: "bytes \<rightharpoonup> bytes"
  ad_Alerts :: "Alert list"

record ParseResult =
  pr_HostName :: bytes
  pr_HostGroupName :: bytes
  pr_MetricBuilder :: MetricBuilder

definition alert_tags :: "AlertData \<Rightarrow> Alert \<Rightarrow> bytes \<rightharpoonup> bytes" where
  "alert_tags data alert = ad_CommonAnnotations data ++ at_Annotations alert ++ ad_CommonLabels data ++ at_Labels alert"

definition alert_builder :: "timestamp \<Rightarrow> (bytes \<rightharpoonup> bytes) \<Rightarrow> bytes \<Rightarrow> Alert \<Rightarrow> MetricBuilder" where
  "alert_builder now tags serviceName alert =
     (let s = (case at_StartsAt alert of None \<Rightarrow> now | Some t \<Rightarrow> t);
          e = (case at_EndsAt alert of None \<Rightarrow> s | Some t \<Rightarrow> t)
      in \<lparr>mb_Name = serviceName, mb_CustomName = [], mb_ComputeType = ''Informational'', mb_Expression = [], mb_Value = A_int (-1),
          mb_UnitType = Some (MA_UnitType UnitCounter), mb_Warning = None, mb_Critical = None,
          mb_StartTimestamp = Some s, mb_EndTimestamp = Some e, mb_Graphed = False, mb_Tags = tags\<rparr>)"

text \<open>One alert: \<open>None\<close> when it is skipped.\<close>

definition parse_alert :: "events_ExtConfig \<Rightarrow> timestamp \<Rightarrow> AlertData \<Rightarrow> Alert \<Rightarrow> ParseResult option exec" where
  "parse_alert cfg now data alert =
     (let tags = alert_tags data alert in
      bind_exec (ApplyOR (ex_MapHostgroup cfg) tags) (\<lambda>hg.
        case hg of
          Inl _ \<Rightarrow> Done None
        | Inr hostGroupName \<Rightarrow>
            bind_exec (ApplyOR (ex_MapHostname cfg) tags) (\<lambda>hn.
              case hn of
                Inl _ \<Rightarrow> Done None
              | Inr hostName \<Rightarrow>
                  if hostName = [] then Done None
                  else bind_exec (ApplyOR (ex_MapService cfg) tags) (\<lambda>sv.
                    case sv of
                      Inl _ \<Rightarrow> Done None
                    | Inr serviceName \<Rightarrow>
                        if serviceName = [] then Done None
                        else Done (Some \<lparr>pr_HostName = hostName, pr_HostGroupName = hostGroupName,
                                         pr_MetricBuilder = alert_builder now tags serviceName alert\<rparr>)))))"

definition ParsePrometheusData :: "events_ExtConfig \<Rightarrow> timestamp \<Rightarrow> AlertData \<Rightarrow> ParseResult list exec" where
  "ParsePrometheusData cfg now data =
     bind_exec (map_exec (parse_alert cfg now data) (ad_Alerts data)) (\<lambda>rs. Done (map the (filter (\<lambda>r. r \<noteq> None) rs)))"

definition GetLastPluginOutput :: "(bytes \<rightharpoonup> bytes) \<Rightarrow> bytes" where
  "GetLastPluginOutput tag =
     (let result = (case tag ''summary'' of None \<Rightarrow> [] | Some d \<Rightarrow> d)
      in case tag ''description'' of
           None \<Rightarrow> result
         | Some summary \<Rightarrow> (if length result > 0 then result @ '' | '' else result) @ summary)"

section \<open>The receiver\<close>

datatype events_error = DecodeError | BuildError build_error | SendFailed error

text \<open>The loop over the results: services by host, and the last group named for a host.\<close>

fun collect_results :: "timestamp \<Rightarrow> duration \<Rightarrow> ParseResult list \<Rightarrow> (bytes \<times> MonitoredService list) list \<Rightarrow> (bytes \<times> bytes) list \<Rightarrow>
    (build_error + (bytes \<times> MonitoredService list) list \<times> (bytes \<times> bytes) list) exec" where
  "collect_results now ci [] services groups = Done (Inr (services, groups))"
| "collect_results now ci (r # rs) services groups =
     bind_exec (BuildServiceForMetric now ci (pr_HostName r) (pr_MetricBuilder r)) (\<lambda>x.
       case x of
         Inl e \<Rightarrow> Done (Inl e)
       | Inr service \<Rightarrow>
           (let s = service\<lparr>ms_MonitoredInfo := (ms_MonitoredInfo service)
                      \<lparr>mi_Status := ServiceWarning, mi_LastPluginOutput := GetLastPluginOutput (mb_Tags (pr_MetricBuilder r))\<rparr>\<rparr>
            in collect_results now ci rs
                 (append_to (pr_HostName r) s services)
                 (if pr_HostGroupName r \<noteq> [] then AList.update (pr_HostName r) (pr_HostGroupName r) groups else groups)))"

fun create_resources :: "timestamp \<Rightarrow> duration \<Rightarrow> (bytes \<times> MonitoredService list) list \<Rightarrow> build_error + MonitoredResource list" where
  "create_resources now ci [] = Inr []"
| "create_resources now ci ((h, s) # rest) =
     (case CreateResource now ci h [RA_Services s] of
        Inl e \<Rightarrow> Inl e
      | Inr r \<Rightarrow> (case create_resources now ci rest of Inl e \<Rightarrow> Inl e | Inr rs \<Rightarrow> Inr (r # rs)))"

definition host_groups :: "(bytes \<times> bytes) list \<Rightarrow> ResourceGroup list" where
  "host_groups gs = map (\<lambda>(h, hg). CreateResourceGroup hg hg ''HostGroup'' [CreateResourceRef h [] ResourceTypeHost]) gs"

text \<open>The answer is the status code; an answer 200 has no body.  The two orders are those of the iterations over the maps.\<close>

definition receiver :: "svc_env \<Rightarrow> expr_env \<Rightarrow> nat \<Rightarrow> duration \<Rightarrow> (bytes \<Rightarrow> AlertData option) \<Rightarrow>
    ((bytes \<times> MonitoredService list) list \<Rightarrow> (bytes \<times> MonitoredService list) list) \<Rightarrow> ((bytes \<times> bytes) list \<Rightarrow> (bytes \<times> bytes) list) \<Rightarrow>
    events_ExtConfig \<Rightarrow> timestamp \<Rightarrow> http_Header option \<Rightarrow> bytes \<Rightarrow> Agent \<Rightarrow> (Agent \<times> int \<times> events_error option) exec" where
  "receiver svc env fuel ci um order1 order2 cfg now ctx body a =
     (case um body of
        None \<Rightarrow> Done (a, 400, Some DecodeError)
      | Some data \<Rightarrow>
          bind_exec (ParsePrometheusData cfg now data) (\<lambda>results.
          bind_exec (collect_results now ci results [] []) (\<lambda>x.
            case x of
              Inl e \<Rightarrow> Done (a, 500, Some (BuildError e))
            | Inr (services, groups) \<Rightarrow>
                (case create_resources now ci (order1 services) of
                   Inl e \<Rightarrow> Done (a, 500, Some (BuildError e))
                 | Inr resources \<Rightarrow>
                     bind_exec (SendMetrics svc env fuel ci ctx resources (Some (host_groups (order2 groups))) a) (\<lambda>(a', err).
                       Done (case err of Some e \<Rightarrow> (a', 500, Some (SendFailed e)) | None \<Rightarrow> (a', 200, None)))))))"

section \<open>Properties\<close>

text \<open>A configuration is compiled when it was accepted.\<close>

definition cfg_compiled :: "events_ExtConfig \<Rightarrow> bool" where
  "cfg_compiled cfg \<longleftrightarrow> compiled (ex_MapHostgroup cfg) \<and> compiled (ex_MapHostname cfg) \<and> compiled (ex_MapService cfg)"

lemma Mappings_Compile_None: "Mappings_Compile compile ps = (qs, None) \<Longrightarrow> compiled qs \<and> same_rules qs ps"
  unfolding Mappings_Compile_def by (rule compile_from_None)

lemma ConfigHandler_accepts:
  assumes "ConfigHandler compile um data old = (cfg, True)"
  shows "cfg_compiled cfg"
  using assms
  by (auto simp: ConfigHandler_def cfg_compiled_def Let_def dest!: Mappings_Compile_None split: option.splits prod.splits if_splits)

text \<open>What the rules make of the tags of an alert; no name, no result.\<close>

definition or_value :: "Mapping list \<Rightarrow> (bytes \<rightharpoonup> bytes) \<Rightarrow> bytes option" where
  "or_value ps tags =
     (case List.find (\<lambda>p. rule_value p tags \<noteq> None) ps of
        Some p \<Rightarrow> rule_value p tags
      | None \<Rightarrow> if ps = [] then Some [] else None)"

definition alert_result :: "events_ExtConfig \<Rightarrow> timestamp \<Rightarrow> AlertData \<Rightarrow> Alert \<Rightarrow> ParseResult option" where
  "alert_result cfg now data alert =
     (let tags = alert_tags data alert in
      case (or_value (ex_MapHostgroup cfg) tags, or_value (ex_MapHostname cfg) tags, or_value (ex_MapService cfg) tags) of
        (Some hg, Some hn, Some sv) \<Rightarrow>
          if hn = [] \<or> sv = [] then None
          else Some \<lparr>pr_HostName = hn, pr_HostGroupName = hg, pr_MetricBuilder = alert_builder now tags sv alert\<rparr>
      | _ \<Rightarrow> None)"

lemma ApplyOR_value:
  assumes "compiled ps"
  shows "\<exists>r. ApplyOR ps tags = Done r \<and> (case or_value ps tags of None \<Rightarrow> isl r | Some v \<Rightarrow> r = Inr v)"
proof -
  have "\<exists>v. rule_value p tags = Some v" if "List.find (\<lambda>p. rule_value p tags \<noteq> None) ps = Some p" for p
    using that by (auto simp: find_Some_iff)
  then show ?thesis unfolding ApplyOR_def apply_or_first[OF assms] or_value_def
    by (fastforce split: option.splits)
qed

lemma parse_alert_result:
  assumes "cfg_compiled cfg"
  shows "parse_alert cfg now data alert = Done (alert_result cfg now data alert)"
proof -
  let ?tags = "alert_tags data alert"
  obtain g h s where r: "ApplyOR (ex_MapHostgroup cfg) ?tags = Done g" "case or_value (ex_MapHostgroup cfg) ?tags of None \<Rightarrow> isl g | Some v \<Rightarrow> g = Inr v"
    "ApplyOR (ex_MapHostname cfg) ?tags = Done h" "case or_value (ex_MapHostname cfg) ?tags of None \<Rightarrow> isl h | Some v \<Rightarrow> h = Inr v"
    "ApplyOR (ex_MapService cfg) ?tags = Done s" "case or_value (ex_MapService cfg) ?tags of None \<Rightarrow> isl s | Some v \<Rightarrow> s = Inr v"
    using ApplyOR_value assms unfolding cfg_compiled_def by meson
  show ?thesis
    using r by (cases g; cases h; cases s) (auto simp: parse_alert_def alert_result_def Let_def split: option.splits)
qed

definition alert_results :: "events_ExtConfig \<Rightarrow> timestamp \<Rightarrow> AlertData \<Rightarrow> ParseResult list" where
  "alert_results cfg now data = List.map_filter (alert_result cfg now data) (ad_Alerts data)"

lemma ParsePrometheusData_results:
  assumes "cfg_compiled cfg"
  shows "ParsePrometheusData cfg now data = Done (alert_results cfg now data)"
proof -
  have "map_exec (parse_alert cfg now data) xs = Done (map (alert_result cfg now data) xs)" for xs
    by (induction xs) (simp_all add: parse_alert_result[OF assms])
  moreover have "map the (filter (\<lambda>r. r \<noteq> None) (map f xs)) = List.map_filter f xs" for f :: "Alert \<Rightarrow> ParseResult option" and xs
    by (induction xs) (auto simp: List.map_filter_def)
  ultimately show ?thesis by (simp add: ParsePrometheusData_def alert_results_def)
qed

definition event_metric :: "ParseResult \<Rightarrow> TimeSeries" where
  "event_metric r =
     (let mb = pr_MetricBuilder r in
      \<lparr>ts_MetricName = mb_Name mb, ts_SampleType = SampleValue,
       ts_Interval = Some \<lparr>ti_EndTime = mb_EndTimestamp mb, ti_StartTime = mb_StartTimestamp mb\<rparr>, ts_Value = Some (tv_integer (-1)),
       ts_Tags = mb_Tags mb, ts_Unit = UnitCounter, ts_Thresholds = [], ts_MetricComputeType = ''Informational'', ts_MetricExpression = []\<rparr>)"

definition event_service :: "duration \<Rightarrow> ParseResult \<Rightarrow> MonitoredService" where
  "event_service ci r =
     (let mb = pr_MetricBuilder r; t = (case mb_EndTimestamp mb of None \<Rightarrow> 0 | Some t \<Rightarrow> t) in
      \<lparr>ms_BaseInfo = new_BaseInfo (mb_Name mb) ResourceTypeService (pr_HostName r),
       ms_MonitoredInfo = \<lparr>mi_Status = ServiceWarning, mi_LastCheckTime = Some t, mi_NextCheckTime = Some (Timestamp_Add t ci),
                           mi_LastPluginOutput = GetLastPluginOutput (mb_Tags mb)\<rparr>,
       ms_Metrics = [event_metric r]\<rparr>)"

definition event_result :: "ParseResult \<Rightarrow> bool" where
  "event_result r \<longleftrightarrow> (\<exists>now tags sv alert. pr_MetricBuilder r = alert_builder now tags sv alert)"

lemma alert_builder_name [simp]: "mb_Name (alert_builder now tags sv alert) = sv"
  by (simp add: alert_builder_def Let_def)

lemma alert_results_built: "\<forall>r \<in> set (alert_results cfg now data). event_result r \<and> pr_HostName r \<noteq> [] \<and> mb_Name (pr_MetricBuilder r) \<noteq> []"
  by (auto simp: alert_results_def List.map_filter_def alert_result_def event_result_def Let_def split: option.splits if_splits)

lemma event_service_built:
  assumes "event_result r"
  obtains s where "BuildServiceForMetric now ci (pr_HostName r) (pr_MetricBuilder r) = Done (Inr s)"
    "s\<lparr>ms_MonitoredInfo := (ms_MonitoredInfo s)\<lparr>mi_Status := ServiceWarning, mi_LastPluginOutput := GetLastPluginOutput (mb_Tags (pr_MetricBuilder r))\<rparr>\<rparr> =
     event_service ci r"
proof -
  obtain w tags sv alert where r: "pr_MetricBuilder r = alert_builder w tags sv alert" using assms unfolding event_result_def by (elim exE)
  have cn: "mb_CustomName (pr_MetricBuilder r) = []" by (simp add: r alert_builder_def Let_def)
  let ?m = "event_metric r"
  have m: "BuildMetric now (pr_MetricBuilder r) = Done (Inr ?m)"
    by (simp add: r alert_builder_def BuildMetric_def CreateMetric_def builder_args_def Name_def optional_threshold_def event_metric_def Let_def)
  have "CreateService now ci (mb_Name (pr_MetricBuilder r)) (pr_HostName r) [SA_Metrics [?m], SA_Properties []] =
      Done (Inr (event_service ci r\<lparr>ms_MonitoredInfo := (ms_MonitoredInfo (event_service ci r))\<lparr>mi_Status := ServiceOk, mi_LastPluginOutput := []\<rparr>\<rparr>))"
    by (simp add: CreateService_def last_end_time_def event_metric_def event_service_def r alert_builder_def Let_def check_times_def CalculateServiceStatus_def)
  then have "BuildServiceForMetric now ci (pr_HostName r) (pr_MetricBuilder r) =
      Done (Inr (event_service ci r\<lparr>ms_MonitoredInfo := (ms_MonitoredInfo (event_service ci r))\<lparr>mi_Status := ServiceOk, mi_LastPluginOutput := []\<rparr>\<rparr>))"
    using m cn by (simp add: BuildServiceForMetric_def Name_def)
  then show thesis by (rule that) (simp add: event_service_def Let_def)
qed

definition last_groups :: "ParseResult list \<Rightarrow> (bytes \<times> bytes) list" where
  "last_groups rs = fold (\<lambda>r gs. if pr_HostGroupName r \<noteq> [] then AList.update (pr_HostName r) (pr_HostGroupName r) gs else gs) rs []"

lemma collect_results_from:
  "\<forall>r \<in> set rs. event_result r \<Longrightarrow> collect_results now ci rs ss gs =
   Done (Inr (fold (\<lambda>r. append_to (pr_HostName r) (event_service ci r)) rs ss,
     fold (\<lambda>r gs. if pr_HostGroupName r \<noteq> [] then AList.update (pr_HostName r) (pr_HostGroupName r) gs else gs) rs gs))"
proof (induction rs arbitrary: ss gs)
  case (Cons r rs)
  obtain s where "BuildServiceForMetric now ci (pr_HostName r) (pr_MetricBuilder r) = Done (Inr s)"
    "s\<lparr>ms_MonitoredInfo := (ms_MonitoredInfo s)\<lparr>mi_Status := ServiceWarning, mi_LastPluginOutput := GetLastPluginOutput (mb_Tags (pr_MetricBuilder r))\<rparr>\<rparr> =
     event_service ci r"
    using event_service_built[of r now ci] Cons.prems by auto
  then show ?case using Cons by (simp add: Let_def)
qed simp

definition event_resource :: "timestamp \<Rightarrow> duration \<Rightarrow> bytes \<times> MonitoredService list \<Rightarrow> MonitoredResource" where
  "event_resource now ci p = projr (CreateResource now ci (fst p) [RA_Services (snd p)])"

lemma create_resources_all: "create_resources now ci m = Inr (map (event_resource now ci) m)"
proof -
  have "CreateResource now ci h [RA_Services s] = Inr (event_resource now ci (h, s))" for h s
    by (simp add: event_resource_def CreateResource_def)
  then show ?thesis by (induction m) auto
qed

text \<open>
  C12. With an accepted configuration a request with alerts sends, in one call of \<open>SendMetrics\<close>, one resource for each host the mappings name, with one
  warning service for each alert of that host, in the order of the alerts.  Alerts the mappings give no host or service for are skipped, and every
  name is not empty.
\<close>

theorem events_sent:
  assumes "ConfigHandler compile umc conf old = (cfg, True)" "um body = Some data" "\<And>m. mset (order1 m) = mset m"
  shows "\<exists>resources. receiver svc env fuel ci um order1 order2 cfg now ctx body a =
      bind_exec (SendMetrics svc env fuel ci ctx resources (Some (host_groups (order2 (last_groups (alert_results cfg now data))))) a)
        (\<lambda>(a', err). Done (case err of Some e \<Rightarrow> (a', 500, Some (SendFailed e)) | None \<Rightarrow> (a', 200, None))) \<and>
    mset resources = mset (map (\<lambda>h. event_resource now ci (h, map (event_service ci) (filter (\<lambda>r. pr_HostName r = h) (alert_results cfg now data))))
      (remdups (map pr_HostName (alert_results cfg now data)))) \<and>
    (\<forall>r \<in> set (alert_results cfg now data). pr_HostName r \<noteq> [] \<and> mb_Name (pr_MetricBuilder r) \<noteq> [])"
proof -
  let ?rs = "alert_results cfg now data"
  let ?g = "group_by pr_HostName (event_service ci) ?rs"
  let ?res = "map (event_resource now ci) (order1 ?g)"
  have "collect_results now ci ?rs [] [] = Done (Inr (?g, last_groups ?rs))"
    using alert_results_built by (simp add: collect_results_from group_by_def last_groups_def)
  then have "receiver svc env fuel ci um order1 order2 cfg now ctx body a =
      bind_exec (SendMetrics svc env fuel ci ctx ?res (Some (host_groups (order2 (last_groups ?rs)))) a)
        (\<lambda>(a', err). Done (case err of Some e \<Rightarrow> (a', 500, Some (SendFailed e)) | None \<Rightarrow> (a', 200, None)))"
    by (simp add: receiver_def assms(2) ParsePrometheusData_results[OF ConfigHandler_accepts[OF assms(1)]] create_resources_all)
  moreover have "mset ?res = mset (map (\<lambda>h. event_resource now ci (h, map (event_service ci) (filter (\<lambda>r. pr_HostName r = h) ?rs))) (remdups (map pr_HostName ?rs)))"
    unfolding mset_map assms(3) group_by_groups by (simp add: image_mset.compositionality comp_def)
  ultimately show ?thesis using alert_results_built[of cfg now data] by blast
qed

text \<open>
  A configuration with a pattern that does not compile is kept although it is reported as failed: the next alert with the tag of that pattern makes the
  receiver panic.
\<close>

theorem bad_pattern_panics:
  assumes "umc conf = Some \<lparr>ex_MapHostgroup = [], ex_MapHostname = [p], ex_MapService = sv\<rparr>" "compile (mp_Matcher p) = Inl err" "mp_matcher p = None"
    and "mp_Tag p \<noteq> []" "CHR '','' \<notin> set (mp_Tag p)" "alert_tags data alert (TrimSpace (mp_Tag p)) \<noteq> None" "ad_Alerts data = alert # rest" "um body = Some data"
    and "ConfigHandler compile umc conf old = (cfg, restarted)"
  shows "\<not> restarted \<and> receiver svc env fuel ci um order1 order2 cfg now ctx body a = Panic NilDereference"
proof -
  have c: "cfg = \<lparr>ex_MapHostgroup = [], ex_MapHostname = [p], ex_MapService = sv\<rparr>" "\<not> restarted"
    using assms(9) by (simp_all add: ConfigHandler_def assms(1,2) Mappings_Compile_def Mapping_Compile_def)
  have "parse_alert cfg now data alert = Panic NilDereference"
    using assms(3-6) by (auto simp: c(1) parse_alert_def ApplyOR_def Split_none)
  then show ?thesis using c(2) assms(7,8) by (simp add: receiver_def ParsePrometheusData_def)
qed

section \<open>Witnesses\<close>

definition demo_alerts :: AlertData where
  "demo_alerts = \<lparr>ad_CommonAnnotations = Map.empty, ad_CommonLabels = [''host'' \<mapsto> ''h''],
     ad_Alerts = [\<lparr>at_Annotations = [''summary'' \<mapsto> ''down''], at_Labels = Map.empty, at_StartsAt = Some 5, at_EndsAt = None\<rparr>]\<rparr>"

definition demo_events_cfg :: events_ExtConfig where
  "demo_events_cfg = \<lparr>ex_MapHostgroup = [], ex_MapHostname = [demo_rule], ex_MapService = [demo_rule]\<rparr>"

theorem events_sent_witness:
  "\<exists>resources. receiver demo_svc_env demo_expr_env 9 60 (\<lambda>_. Some demo_alerts) id id (fst (ConfigHandler (\<lambda>_. Inr all_rx) (\<lambda>_. Some demo_events_cfg) [] empty_ExtConfig)) 7 None [] demo_agent =
      bind_exec (SendMetrics demo_svc_env demo_expr_env 9 60 None resources (Some []) demo_agent)
        (\<lambda>(a', err). Done (case err of Some e \<Rightarrow> (a', 500, Some (SendFailed e)) | None \<Rightarrow> (a', 200, None))) \<and> length resources = 1"
proof -
  let ?p = "demo_rule\<lparr>mp_matcher := Some all_rx\<rparr>"
  let ?cfg = "\<lparr>ex_MapHostgroup = [], ex_MapHostname = [?p], ex_MapService = [?p]\<rparr>"
  have c: "ConfigHandler (\<lambda>_. Inr all_rx) (\<lambda>_. Some demo_events_cfg) [] empty_ExtConfig = (?cfg, True)"
    by (simp add: ConfigHandler_def demo_events_cfg_def Mappings_Compile_def Mapping_Compile_def demo_rule_def)
  have t: "alert_tags demo_alerts (hd (ad_Alerts demo_alerts)) ''host'' = Some ''h''"
    by (simp add: alert_tags_def demo_alerts_def)
  have x: "expand all_rx [Suc 0 \<mapsto> ''h'', 0 \<mapsto> ''h''] ''$1'' = ''h''"
    by (simp add: extract_name_def word_char_def group_text_def group_number_def char_digit_def all_rx_def)
  have "rule_value ?p (alert_tags demo_alerts (hd (ad_Alerts demo_alerts))) = Some ''h''"
    by (simp add: rule_value_def demo_rule_def Split_none host_trim t FindAll_all expand_all_def x Let_def del: expand.simps)
  then have r: "\<exists>mb. alert_results ?cfg 7 demo_alerts = [\<lparr>pr_HostName = ''h'', pr_HostGroupName = [], pr_MetricBuilder = mb\<rparr>]"
    by (simp add: alert_results_def List.map_filter_def alert_result_def or_value_def demo_alerts_def)
  obtain res where "receiver demo_svc_env demo_expr_env 9 60 (\<lambda>_. Some demo_alerts) id id ?cfg 7 None [] demo_agent =
      bind_exec (SendMetrics demo_svc_env demo_expr_env 9 60 None res (Some (host_groups (id (last_groups (alert_results ?cfg 7 demo_alerts))))) demo_agent)
        (\<lambda>(a', err). Done (case err of Some e \<Rightarrow> (a', 500, Some (SendFailed e)) | None \<Rightarrow> (a', 200, None)))"
    "mset res = mset (map (\<lambda>h. event_resource 7 60 (h, map (event_service 60) (filter (\<lambda>r. pr_HostName r = h) (alert_results ?cfg 7 demo_alerts))))
      (remdups (map pr_HostName (alert_results ?cfg 7 demo_alerts))))"
    using events_sent[OF c, of "\<lambda>_. Some demo_alerts" "[]" demo_alerts id demo_svc_env demo_expr_env 9 60 id 7 None demo_agent] by auto
  moreover from this(2) have "length res = 1" using r arg_cong[OF calculation(2), of size] by auto
  ultimately show ?thesis using r unfolding c fst_conv by (auto simp: last_groups_def host_groups_def)
qed

theorem bad_pattern_panics_witness:
  "let (cfg, restarted) = ConfigHandler (\<lambda>_. Inl (Other ''regexp'')) (\<lambda>_. Some demo_events_cfg) [] empty_ExtConfig
   in \<not> restarted \<and> receiver demo_svc_env demo_expr_env 9 60 (\<lambda>_. Some demo_alerts) id id cfg 7 None [] demo_agent = Panic NilDereference"
proof -
  obtain cfg restarted where c: "ConfigHandler (\<lambda>_. Inl (Other ''regexp'')) (\<lambda>_. Some demo_events_cfg) [] empty_ExtConfig = (cfg, restarted)" by fastforce
  have "\<not> restarted \<and> receiver demo_svc_env demo_expr_env 9 60 (\<lambda>_. Some demo_alerts) id id cfg 7 None [] demo_agent = Panic NilDereference"
    by (rule bad_pattern_panics[where alert = "hd (ad_Alerts demo_alerts)" and data = demo_alerts and rest = "[]" and p = demo_rule and sv = "[demo_rule]", OF _ _ _ _ _ _ _ _ c])
      (simp_all add: demo_events_cfg_def demo_rule_def alert_tags_def demo_alerts_def host_trim)
  then show ?thesis by (simp add: c)
qed

end
