(* ===== verification/Go_Time.thy ===== *)
theory Go_Time
  imports Connector_Build Status_Text
begin

text \<open>
  What the program uses of the calendar of package \<^verbatim>\<open>time\<close>: dates of the proleptic Gregorian calendar, \<open>time.Date\<close>, \<open>AddDate\<close>, and the
  fields of a time in a location.  A time is the number of nanoseconds since the epoch, without bounds.  A location gives, for a
  second, the offset of its zone and the first and last second of that zone; the zones of a system are an argument.
\<close>

section \<open>Days and dates\<close>

text \<open>Years that start in March have their leap day at the end: \<open>mp\<close> counts the months from March.\<close>

definition days_of :: "int \<Rightarrow> int \<Rightarrow> int \<Rightarrow> int" where
  "days_of y m d =
     (let y' = (if m \<le> 2 then y - 1 else y); mp = (m + 9) mod 12
      in 365 * y' + y' div 4 - y' div 100 + y' div 400 + (153 * mp + 2) div 5 + d - 1 - 719468)"

definition date_of :: "int \<Rightarrow> int \<times> int \<times> int" where
  "date_of days =
     (let z = days + 719468; r = z mod 146097; c = min 3 (r div 36524); r2 = r - c * 36524; q = r2 div 1461; r3 = r2 - q * 1461;
          k = min 3 (r3 div 365); doy = r3 - k * 365; mp = (5 * doy + 2) div 153; m = (if mp < 10 then mp + 3 else mp - 9);
          y' = z div 146097 * 400 + 100 * c + 4 * q + k
      in (if m \<le> 2 then y' + 1 else y', m, doy - (153 * mp + 2) div 5 + 1))"

definition isLeap :: "int \<Rightarrow> bool" where
  "isLeap y \<longleftrightarrow> y mod 4 = 0 \<and> (y mod 100 \<noteq> 0 \<or> y mod 400 = 0)"

definition daysIn :: "int \<Rightarrow> int \<Rightarrow> int" where
  "daysIn m y = (if m = 2 then (if isLeap y then 29 else 28) else if m \<in> {4, 6, 9, 11} then 30 else 31)"

section \<open>Locations\<close>

type_synonym location = "int \<Rightarrow> int \<times> int \<times> int"

definition fixed_zone :: "int \<Rightarrow> location" where
  "fixed_zone offset = (\<lambda>_. (offset, - (2 ^ 63), 2 ^ 63 - 1))"

definition UTC :: location where
  "UTC = fixed_zone 0"

definition local_secs :: "location \<Rightarrow> timestamp \<Rightarrow> int" where
  "local_secs loc t = t div Second + fst (loc (t div Second))"

definition time_Date :: "location \<Rightarrow> timestamp \<Rightarrow> int \<times> int \<times> int" where
  "time_Date loc t = date_of (local_secs loc t div 86400)"

definition time_Clock :: "location \<Rightarrow> timestamp \<Rightarrow> int \<times> int \<times> int" where
  "time_Clock loc t = (let s = local_secs loc t mod 86400 in (s div 3600, s mod 3600 div 60, s mod 60))"

definition Nanosecond_of :: "timestamp \<Rightarrow> int" where
  "Nanosecond_of t = t mod Second"

text \<open>Sunday is 0.\<close>

definition Weekday :: "location \<Rightarrow> timestamp \<Rightarrow> int" where
  "Weekday loc t = (local_secs loc t div 86400 + 4) mod 7"

text \<open>\<open>time.Date\<close> normalises its arguments; it looks the zone up at the local second first.\<close>

definition make_time :: "location \<Rightarrow> int \<Rightarrow> int \<Rightarrow> int \<Rightarrow> int \<Rightarrow> int \<Rightarrow> int \<Rightarrow> int \<Rightarrow> timestamp" where
  "make_time loc year month day hour minute sec nsec =
     (let unix = days_of (year + (month - 1) div 12) ((month - 1) mod 12 + 1) day * 86400 + hour * 3600 + minute * 60 + sec + nsec div Second;
          (offset, start, last) = loc unix;
          unix' = (if offset = 0 then unix
                   else if unix - offset < start \<or> unix - offset \<ge> last then unix - fst (loc (unix - offset))
                   else unix - offset)
      in unix' * Second + nsec mod Second)"

definition AddDate :: "location \<Rightarrow> timestamp \<Rightarrow> int \<Rightarrow> int \<Rightarrow> int \<Rightarrow> timestamp" where
  "AddDate loc t years months days =
     (let (y, m, d) = time_Date loc t; (h, mi, s) = time_Clock loc t
      in make_time loc (y + years) (m + months) (d + days) h mi s (Nanosecond_of t))"

definition zero_time :: timestamp where
  "zero_time = -62135596800 * Second"

section \<open>The calendar is right\<close>

lemma month_part:
  assumes "0 \<le> doy" "doy \<le> (365 :: int)" "mp = (5 * doy + 2) div 153"
  shows "0 \<le> mp \<and> mp \<le> 11 \<and> 0 \<le> doy - (153 * mp + 2) div 5 \<and> doy - (153 * mp + 2) div 5 \<le> 30 \<and>
    (mp \<in> {1, 3, 6, 8} \<longrightarrow> doy - (153 * mp + 2) div 5 \<le> 29)"
  using assms by auto


text \<open>A day as a year that starts in March and the day in it.\<close>

lemma year_part:
  obtains e c q k doy where "n + 719468 = 146097 * e + 36524 * c + 1461 * q + 365 * k + doy"
    "0 \<le> c" "c \<le> 3" "0 \<le> q" "q \<le> 24" "0 \<le> k" "k \<le> 3" "0 \<le> doy" "doy \<le> 365" "doy = 365 \<Longrightarrow> k = 3 \<and> (q = 24 \<longrightarrow> c = 3)"
    "date_of n = (let y' = 400 * e + 100 * c + 4 * q + k; mp = (5 * doy + 2) div 153; m = (if mp < 10 then mp + 3 else mp - 9)
       in (if m \<le> 2 then y' + 1 else y', m, doy - (153 * mp + 2) div 5 + 1))"
proof -
  define z where "z = n + 719468"
  define r where "r = z mod 146097"
  define c where "c = min 3 (r div 36524)"
  define r2 where "r2 = r - c * 36524"
  define q where "q = r2 div 1461"
  define r3 where "r3 = r2 - q * 1461"
  define k where "k = min 3 (r3 div 365)"
  define doy where "doy = r3 - k * 365"
  have r: "0 \<le> r" "r < 146097" by (simp_all add: r_def)
  have c: "0 \<le> c" "c \<le> 3" using r by (auto simp: c_def)
  have r2: "0 \<le> r2" "r2 \<le> 36524" "c \<noteq> 3 \<Longrightarrow> r2 < 36524" using r by (auto simp: r2_def c_def min_def)
  have q: "0 \<le> q" "q \<le> 24" using r2 by (auto simp: q_def)
  have r3: "0 \<le> r3" "r3 < 1461" "q = 24 \<Longrightarrow> c \<noteq> 3 \<Longrightarrow> r3 < 1460" using r2 by (auto simp: r3_def q_def)
  have k: "0 \<le> k" "k \<le> 3" using r3 by (auto simp: k_def)
  have doy: "0 \<le> doy" "doy \<le> 365" "doy = 365 \<Longrightarrow> k = 3 \<and> (q = 24 \<longrightarrow> c = 3)"
    using r3 c by (auto simp: doy_def k_def min_def not_less split: if_splits)
  show thesis
  proof (rule that[of "z div 146097" c q k doy])
    show "n + 719468 = 146097 * (z div 146097) + 36524 * c + 1461 * q + 365 * k + doy"
      unfolding doy_def r3_def r2_def r_def z_def by simp
    show "date_of n = (let y' = 400 * (z div 146097) + 100 * c + 4 * q + k; mp = (5 * doy + 2) div 153; m = (if mp < 10 then mp + 3 else mp - 9)
       in (if m \<le> 2 then y' + 1 else y', m, doy - (153 * mp + 2) div 5 + 1))"
      unfolding date_of_def
      by (subst Let_def, fold z_def, subst Let_def, fold r_def, subst Let_def, fold c_def, subst Let_def, fold r2_def, subst Let_def, fold q_def,
          subst Let_def, fold r3_def, subst Let_def, fold k_def, subst Let_def, fold doy_def) (simp add: Let_def mult.commute)
  qed (use c q k doy in auto)
qed

lemma year_days:
  assumes "0 \<le> c" "c \<le> 3" "0 \<le> q" "q \<le> 24" "0 \<le> k" "k \<le> (3 :: int)" "y = 400 * e + 100 * c + 4 * q + k"
  shows "365 * y + y div 4 - y div 100 + y div 400 = 146097 * e + 36524 * c + 1461 * q + 365 * k"
    and "k = 3 \<and> (q = 24 \<longrightarrow> c = 3) \<longleftrightarrow> isLeap (y + 1)"
proof -
  have "y div 4 = 100 * e + 25 * c + q" "y div 100 = 4 * e + c" "y div 400 = e" using assms by auto
  then show "365 * y + y div 4 - y div 100 + y div 400 = 146097 * e + 36524 * c + 1461 * q + 365 * k" using assms(7) by simp
  have "y + 1 = (k + 1) + 4 * (100 * e + 25 * c + q)" "y + 1 = (4 * q + k + 1) + 100 * (4 * e + c)" "y + 1 = (100 * c + 4 * q + k + 1) + 400 * e"
    using assms(7) by simp_all
  then have "(y + 1) mod 4 = (k + 1) mod 4" "(y + 1) mod 100 = (4 * q + k + 1) mod 100" "(y + 1) mod 400 = (100 * c + 4 * q + k + 1) mod 400"
    by (metis mod_mult_self2)+
  moreover have full: "x mod b = 0 \<longleftrightarrow> x = b" if "0 < x" "x \<le> b" for x b :: int
    using that by (cases "x = b") (simp_all add: mod_pos_pos_trivial)
  have "(k + 1) mod 4 = 0 \<longleftrightarrow> k = 3" by (subst full) (use assms(5,6) in linarith)+
  moreover have "(4 * q + k + 1) mod 100 = 0 \<longleftrightarrow> q = 24 \<and> k = 3" by (subst full) (use assms(3-6) in linarith)+
  moreover have "(100 * c + 4 * q + k + 1) mod 400 = 0 \<longleftrightarrow> c = 3 \<and> q = 24 \<and> k = 3" by (subst full) (use assms(1-6) in linarith)+
  ultimately have "(y + 1) mod 4 = 0 \<longleftrightarrow> k = 3" "(y + 1) mod 100 = 0 \<longleftrightarrow> q = 24 \<and> k = 3" "(y + 1) mod 400 = 0 \<longleftrightarrow> c = 3 \<and> q = 24 \<and> k = 3"
    by simp_all
  then show "k = 3 \<and> (q = 24 \<longrightarrow> c = 3) \<longleftrightarrow> isLeap (y + 1)" by (auto simp: isLeap_def)
qed

lemma days_of_date_of:
  "case date_of n of (y, m, d) \<Rightarrow> days_of y m d = n \<and> 1 \<le> m \<and> m \<le> 12 \<and> 1 \<le> d \<and> d \<le> daysIn m y"
proof -
  obtain e c q k doy where n: "n + 719468 = 146097 * e + 36524 * c + 1461 * q + 365 * k + doy"
    and b: "0 \<le> c" "c \<le> 3" "0 \<le> q" "q \<le> 24" "0 \<le> k" "k \<le> 3" "0 \<le> doy" "doy \<le> 365" "doy = 365 \<Longrightarrow> k = 3 \<and> (q = 24 \<longrightarrow> c = 3)"
    and dt: "date_of n = (let y' = 400 * e + 100 * c + 4 * q + k; mp = (5 * doy + 2) div 153; m = (if mp < 10 then mp + 3 else mp - 9)
       in (if m \<le> 2 then y' + 1 else y', m, doy - (153 * mp + 2) div 5 + 1))"
    by (rule year_part) (use that in blast)
  define y where "y = 400 * e + 100 * c + 4 * q + k"
  define mp where "mp = (5 * doy + 2) div 153"
  define m where "m = (if mp < 10 then mp + 3 else mp - 9)"
  note yd = year_days[OF b(1-6) y_def]
  note mp = month_part[OF b(7,8) mp_def]
  have leap: "doy = 365 \<Longrightarrow> isLeap (y + 1)" using b(9) yd(2) by simp
  have m: "1 \<le> m" "m \<le> 12" "(m + 9) mod 12 = mp" "m \<le> 2 \<longleftrightarrow> 10 \<le> mp" using mp by (auto simp: m_def)
  have dt': "date_of n = (if m \<le> 2 then y + 1 else y, m, doy - (153 * mp + 2) div 5 + 1)"
    unfolding dt Let_def y_def mp_def m_def by simp
  have days: "days_of (if m \<le> 2 then y + 1 else y) m (doy - (153 * mp + 2) div 5 + 1) = n"
    using n yd(1) m(3) by (simp add: days_of_def Let_def)
  have "doy - (153 * mp + 2) div 5 + 1 \<le> daysIn m (if m \<le> 2 then y + 1 else y)"
  proof (cases "m = 2")
    case True
    then have "mp = 11" using mp by (auto simp: m_def split: if_splits)
    then show ?thesis using True b(8) leap by (cases "doy = 365") (auto simp: daysIn_def)
  next
    case False
    have "m \<in> {4, 6, 9, 11} \<Longrightarrow> mp \<in> {1, 3, 6, 8}" using mp by (auto simp: m_def split: if_splits)
    then show ?thesis using False mp by (auto simp: daysIn_def)
  qed
  then show ?thesis using dt' days m mp by auto
qed

section \<open>Times in a fixed zone\<close>

lemma days_of_add: "days_of y m (d + k) = days_of y m d + k"
  by (simp add: days_of_def Let_def)

lemma fst_fixed_zone [simp]: "fst (fixed_zone z x) = z"
  by (simp add: fixed_zone_def)

lemma make_time_fixed:
  "make_time (fixed_zone z) y m d h mi s ns =
     (days_of (y + (m - 1) div 12) ((m - 1) mod 12 + 1) d * 86400 + h * 3600 + mi * 60 + s + ns div Second - z) * Second + ns mod Second"
  by (simp add: make_time_def fixed_zone_def Let_def)

text \<open>A time made from the date of another one, some days later.\<close>

lemma make_time_of_date:
  assumes "time_Date (fixed_zone z) t = (y, m, d)" "0 \<le> ns" "ns < Second"
  shows "make_time (fixed_zone z) y m (d + k) h mi s ns =
    ((local_secs (fixed_zone z) t div 86400 + k) * 86400 + h * 3600 + mi * 60 + s - z) * Second + ns"
proof -
  have r: "days_of y m d = local_secs (fixed_zone z) t div 86400" "1 \<le> m" "m \<le> 12"
    using days_of_date_of[of "local_secs (fixed_zone z) t div 86400"] assms(1) by (simp_all add: time_Date_def)
  have "(m - 1) div 12 = 0" "(m - 1) mod 12 + 1 = m" using r(2,3) by (simp_all add: div_pos_pos_trivial mod_pos_pos_trivial)
  then show ?thesis using assms(2,3) by (simp add: make_time_fixed days_of_add r(1))
qed

lemma Second_pos: "0 < Second" "0 \<le> t mod Second" "t mod Second < Second"
  by (simp_all add: Second_def)

lemma clock_secs:
  fixes x :: int
  shows "x div 3600 * 3600 + x mod 3600 div 60 * 60 + x mod 60 = x"
proof -
  have "x mod 3600 mod 60 = x mod 60" by (rule mod_mod_cancel) simp
  then have "x mod 3600 div 60 * 60 + x mod 60 = x mod 3600" using div_mult_mod_eq[of "x mod 3600" 60] by simp
  then show ?thesis using div_mult_mod_eq[of x 3600] by linarith
qed

lemma AddDate_days: "AddDate (fixed_zone z) t 0 0 k = t + k * (86400 * Second)"
proof -
  obtain y m d where d: "time_Date (fixed_zone z) t = (y, m, d)" by (cases "time_Date (fixed_zone z) t")
  define L where "L = local_secs (fixed_zone z) t"
  have "(L div 86400 + k) * 86400 + (L mod 86400) div 3600 * 3600 + (L mod 86400) mod 3600 div 60 * 60 + (L mod 86400) mod 60 = L + k * 86400"
    using clock_secs[of "L mod 86400"] div_mult_mod_eq[of L 86400] unfolding distrib_right by linarith
  moreover have "L = t div Second + z" by (simp add: L_def local_secs_def)
  ultimately have "(L div 86400 + k) * 86400 + (L mod 86400) div 3600 * 3600 + (L mod 86400) mod 3600 div 60 * 60 + (L mod 86400) mod 60 - z =
      t div Second + k * 86400"
    by linarith
  then have "((L div 86400 + k) * 86400 + (L mod 86400) div 3600 * 3600 + (L mod 86400) mod 3600 div 60 * 60 + (L mod 86400) mod 60 - z) * Second + t mod Second
      = (t div Second + k * 86400) * Second + t mod Second"
    by (simp only:)
  also have "\<dots> = t + k * (86400 * Second)" using div_mult_mod_eq[of t Second] by (simp add: algebra_simps)
  finally show ?thesis
    unfolding AddDate_def d time_Clock_def Nanosecond_of_def Let_def prod.case add_0_right make_time_of_date[OF d Second_pos(2,3)] L_def[symmetric] .
qed

end
