(* ===== verification/Elastic_Time.thy ===== *)
theory Elastic_Time
  imports Go_Time "HOL-Library.Monad_Syntax"
begin

text \<open>
  Times of stored queries, \<^verbatim>\<open>connectors/elastic/clients/apiObjects.go\<close>: absolute times of one layout, and times relative to now such as
  \<^verbatim>\<open>now-5d/d\<close>.  The clock and the location are arguments.
\<close>

section \<open>The layout of absolute times\<close>

definition pad :: "nat \<Rightarrow> int \<Rightarrow> bytes" where
  "pad width x = (let s = format_nat (nat \<bar>x\<bar>) in (if x < 0 then ''-'' else []) @ replicate (width - length s) (CHR ''0'') @ s)"

definition Millisecond :: duration where
  "Millisecond = 1000000"

text \<open>\<open>Format\<close> with the layout \<^verbatim>\<open>2006-01-02T15:04:05.000Z\<close> of a time in UTC.\<close>

definition format_layout :: "timestamp \<Rightarrow> bytes" where
  "format_layout t =
     (let (y, m, d) = time_Date UTC t; (h, mi, s) = time_Clock UTC t
      in pad 4 y @ ''-'' @ pad 2 m @ ''-'' @ pad 2 d @ ''T'' @ pad 2 h @ '':'' @ pad 2 mi @ '':'' @ pad 2 s @ ''.'' @
         pad 3 (Nanosecond_of t div Millisecond) @ ''Z'')"

text \<open>A number of a fixed count of digits at the front, and a literal character.\<close>

definition take_digits :: "nat \<Rightarrow> bytes \<Rightarrow> (int \<times> bytes) option" where
  "take_digits n s =
     (if length s < n then None else case parse_nat (take n s) of None \<Rightarrow> None | Some v \<Rightarrow> Some (int v, drop n s))"

definition take_char :: "char set \<Rightarrow> bytes \<Rightarrow> bytes option" where
  "take_char cs s = (case s of [] \<Rightarrow> None | c # r \<Rightarrow> if c \<in> cs then Some r else None)"

text \<open>The hour may have one digit.\<close>

definition take_hour :: "bytes \<Rightarrow> (int \<times> bytes) option" where
  "take_hour s = (case take_digits 2 s of Some r \<Rightarrow> Some r | None \<Rightarrow> take_digits 1 s)"

text \<open>The fraction may have a sign: its digits are read like those of any number.\<close>

definition take_fraction :: "bytes \<Rightarrow> (int \<times> bytes) option" where
  "take_fraction s =
     (if length s < 3 then None
      else case ParseInt (take 3 s) of None \<Rightarrow> None | Some v \<Rightarrow> if v < 0 then None else Some (v, drop 3 s))"

definition parse_layout :: "bytes \<Rightarrow> timestamp option" where
  "parse_layout s0 = do {
     (y, s1) \<leftarrow> take_digits 4 s0; s1 \<leftarrow> take_char {CHR ''-''} s1;
     (m, s2) \<leftarrow> take_digits 2 s1; s2 \<leftarrow> take_char {CHR ''-''} s2;
     (d, s3) \<leftarrow> take_digits 2 s2; s3 \<leftarrow> take_char {CHR ''T''} s3;
     (h, s4) \<leftarrow> take_hour s3; s4 \<leftarrow> take_char {CHR '':''} s4;
     (mi, s5) \<leftarrow> take_digits 2 s4; s5 \<leftarrow> take_char {CHR '':''} s5;
     (s, s6) \<leftarrow> take_digits 2 s5; s6 \<leftarrow> take_char {CHR ''.'', CHR '',''} s6;
     (ms, s7) \<leftarrow> take_fraction s6; s7 \<leftarrow> take_char {CHR ''Z''} s7;
     if s7 \<noteq> [] \<or> m < 1 \<or> 12 < m \<or> d < 1 \<or> daysIn m y < d \<or> 24 \<le> h \<or> 60 \<le> mi \<or> 60 \<le> s then None
     else Some (make_time UTC y m d h mi s (ms * Millisecond)) }"

section \<open>Relative times\<close>

text \<open>\<open>strconv.Atoi\<close> with its first result on an error: 0, or the nearest number when it is out of range.\<close>

definition Atoi :: "bytes \<Rightarrow> int" where
  "Atoi s =
     (let neg = HasPrefix s ''-''; body = (if neg \<or> HasPrefix s ''+'' then tl s else s)
      in case parse_nat body of
           None \<Rightarrow> 0
         | Some n \<Rightarrow> if neg then max (- (2 ^ 63)) (- int n) else min MaxInt64 (int n))"

definition now :: bytes where "now = ''now''"

text \<open>The end of a period is the last millisecond before the next one.\<close>

definition period_end :: "timestamp \<Rightarrow> timestamp" where
  "period_end t = t - Millisecond"

definition period_time :: "location \<Rightarrow> timestamp \<Rightarrow> bytes \<Rightarrow> int \<Rightarrow> timestamp option" where
  "period_time loc timeNow period i =
     (if period = ''y'' then Some (AddDate loc timeNow i 0 0)
      else if period = ''M'' then Some (AddDate loc timeNow 0 i 0)
      else if period = ''w'' then Some (AddDate loc timeNow 0 0 (wrap64 (7 * i)))
      else if period = ''d'' then Some (AddDate loc timeNow 0 0 i)
      else if period = ''h'' then Some (timeNow + wrap64 (i * Hour))
      else if period = ''m'' then Some (timeNow + wrap64 (i * Minute))
      else if period = ''s'' then Some (timeNow + wrap64 (i * Second))
      else None)"

definition round_time :: "location \<Rightarrow> bytes \<Rightarrow> bool \<Rightarrow> timestamp \<Rightarrow> timestamp" where
  "round_time loc period isStartTime t =
     (let (y, m, d) = time_Date loc t; (h, mi, s) = time_Clock loc t; k = (if isStartTime then 0 else 1);
          r = (if period = ''y'' then make_time loc (y + k) 1 1 0 0 0 0
               else if period = ''M'' then make_time loc y (m + k) 1 0 0 0 0
               else if period = ''w''
               then make_time loc y m (if isStartTime then d - Weekday loc t else d + (6 - Weekday loc t) + 1) 0 0 0 0
               else if period = ''d'' then make_time loc y m (d + k) 0 0 0 0
               else if period = ''h'' then make_time loc y m d (h + k) 0 0 0
               else if period = ''m'' then make_time loc y m d h (mi + k) 0 0
               else make_time loc y m d h mi (s + k) 0)
      in if isStartTime then r else period_end r)"

text \<open>The flag of the result is an error of \<open>time.Parse\<close>; an unknown period gives the zero time.\<close>

definition toAbsoluteTime :: "location \<Rightarrow> timestamp \<Rightarrow> bytes \<Rightarrow> bool \<Rightarrow> (timestamp \<times> bool) exec" where
  "toAbsoluteTime loc timeNow expression isStartTime =
     (if \<not> Contains expression now
      then Done (case parse_layout expression of Some t \<Rightarrow> (t, False) | None \<Rightarrow> (zero_time, True))
      else if expression = now then Done (timeNow, False)
      else if length expression < 4 then Panic SliceBounds
      else let operator = take 1 (drop 3 expression); relative = drop 4 expression; rounded = Contains relative ''/''
           in if rounded \<and> length relative < 2 then Panic SliceBounds
              else let part = (if rounded then take (length relative - 2) relative else relative)
                   in if part = [] then Panic SliceBounds
                      else let period = ToLower [last part]; n = Atoi (butlast part); i = (if operator = ''-'' then wrap64 (- n) else n)
                           in Done (case period_time loc timeNow period i of
                                      None \<Rightarrow> (zero_time, False)
                                    | Some t \<Rightarrow> (if rounded then round_time loc period isStartTime t else t, False)))"

section \<open>Time filters\<close>

record KTimeFilter =
  tf_From :: bytes
  tf_To :: bytes
  tf_Override :: "bool option"

record Timestamp =
  ts_From :: bytes
  ts_To :: bytes

definition toAbsoluteUtcTime :: "location \<Rightarrow> timestamp \<Rightarrow> Timestamp \<Rightarrow> Timestamp exec" where
  "toAbsoluteUtcTime loc timeNow t =
     bind_exec (toAbsoluteTime loc timeNow (ts_From t) True) (\<lambda>(from, _).
     bind_exec (toAbsoluteTime loc timeNow (ts_To t) False) (\<lambda>(to, _).
       Done \<lparr>ts_From = format_layout from, ts_To = format_layout to\<rparr>))"

definition ToTimeInterval :: "location \<Rightarrow> timestamp \<Rightarrow> KTimeFilter \<Rightarrow> TimeInterval exec" where
  "ToTimeInterval loc timeNow f =
     bind_exec (toAbsoluteTime loc timeNow (tf_From f) True) (\<lambda>(startTime, _).
     bind_exec (toAbsoluteTime loc timeNow (tf_To f) False) (\<lambda>(endTime, _).
       Done \<lparr>ti_EndTime = Some endTime, ti_StartTime = Some startTime\<rparr>))"

section \<open>Rounding\<close>

text \<open>Length of a period in seconds, and how far after the start of one the epoch was: weeks start on Sunday.\<close>

definition period_secs :: "bytes \<Rightarrow> int \<times> int" where
  "period_secs p = (if p = ''w'' then (604800, 345600) else if p = ''d'' then (86400, 0) else if p = ''h'' then (3600, 0)
                    else if p = ''m'' then (60, 0) else (1, 0))"

lemma mod_scale:
  fixes L :: int
  assumes "0 \<le> n" "n < S" "0 < K"
  shows "(L * S + n) mod (K * S) = L mod K * S + n"
proof -
  have "L * S = (L div K * K + L mod K) * S" by simp
  then have "L * S + n = L div K * (K * S) + (L mod K * S + n)" unfolding distrib_right by (simp only: ac_simps)
  moreover have "0 \<le> L mod K * S + n" using assms by simp
  moreover have "L mod K * S + n < K * S"
  proof -
    have "L mod K + 1 \<le> K" using pos_mod_bound[OF assms(3), of L] by linarith
    then have "(L mod K + 1) * S \<le> K * S" using assms by (intro mult_right_mono) auto
    then show ?thesis using assms(2) by (simp add: distrib_right)
  qed
  ultimately show ?thesis by (simp only: mod_mult_self3 mod_pos_pos_trivial)
qed

lemma floor_local:
  assumes "0 < K"
  shows "t - (t + (z + sh) * Second) mod (K * Second) =
    (local_secs (fixed_zone z) t - (local_secs (fixed_zone z) t + sh) mod K - z) * Second"
proof -
  let ?L = "local_secs (fixed_zone z) t"
  have t: "t div Second * Second + t mod Second = t" by simp
  have "t + (z + sh) * Second = (?L + sh) * Second + t mod Second" using t by (simp add: local_secs_def algebra_simps)
  then have "(t + (z + sh) * Second) mod (K * Second) = (?L + sh) mod K * Second + t mod Second"
    using mod_scale[OF Second_pos(2,3) assms] by simp
  then show ?thesis using t by (simp add: local_secs_def algebra_simps)
qed

lemma local_floor:
  fixes L :: int
  shows "(L div 86400 - (L div 86400 + 4) mod 7) * 86400 = L - (L + 345600) mod 604800"
    and "L div 86400 * 86400 = L - L mod 86400"
    and "L div 86400 * 86400 + (L mod 86400) div 3600 * 3600 = L - L mod 3600"
    and "L div 86400 * 86400 + (L mod 86400) div 3600 * 3600 + (L mod 86400) mod 3600 div 60 * 60 = L - L mod 60"
    and "L div 86400 * 86400 + (L mod 86400) div 3600 * 3600 + (L mod 86400) mod 3600 div 60 * 60 + (L mod 86400) mod 60 = L"
proof -
  have L: "L div 86400 * 86400 + L mod 86400 = L" by simp
  have "L + 345600 = (L div 86400 + 4) * 86400 + L mod 86400" using L by simp
  then have "(L + 345600) mod 604800 = (L div 86400 + 4) mod 7 * 86400 + L mod 86400"
    using mod_scale[of "L mod 86400" 86400 7 "L div 86400 + 4"] by simp
  then show "(L div 86400 - (L div 86400 + 4) mod 7) * 86400 = L - (L + 345600) mod 604800" using L unfolding left_diff_distrib by linarith
  show "L div 86400 * 86400 = L - L mod 86400" using L by linarith
  have m: "L mod 86400 mod 3600 = L mod 3600" "L mod 86400 mod 60 = L mod 60" by (rule mod_mod_cancel, simp)+
  show "L div 86400 * 86400 + (L mod 86400) div 3600 * 3600 = L - L mod 3600"
    using L div_mult_mod_eq[of "L mod 86400" 3600] unfolding m by linarith
  show "L div 86400 * 86400 + (L mod 86400) div 3600 * 3600 + (L mod 86400) mod 3600 div 60 * 60 = L - L mod 60"
    using L clock_secs[of "L mod 86400"] unfolding m by linarith
  show "L div 86400 * 86400 + (L mod 86400) div 3600 * 3600 + (L mod 86400) mod 3600 div 60 * 60 + (L mod 86400) mod 60 = L"
    using L clock_secs[of "L mod 86400"] by linarith
qed

text \<open>
  In a zone without changes, the start of a week, day, hour, minute or second, and its last millisecond.  Weeks start on Sunday.
\<close>

theorem round_time_fixed:
  assumes "period \<in> {''w'', ''d'', ''h'', ''m'', ''s''}" "period_secs period = (K, sh)"
  shows "round_time (fixed_zone z) period True t = t - (t + (z + sh) * Second) mod (K * Second) \<and>
    round_time (fixed_zone z) period False t = round_time (fixed_zone z) period True t + K * Second - Millisecond"
proof -
  obtain y m d where dt: "time_Date (fixed_zone z) t = (y, m, d)" by (cases "time_Date (fixed_zone z) t")
  define L where "L = local_secs (fixed_zone z) t"
  have K: "0 < K" using assms by (auto simp: period_secs_def)
  have mt: "make_time (fixed_zone z) y m (d + k) h mi s 0 = ((L div 86400 + k) * 86400 + h * 3600 + mi * 60 + s - z) * Second" for k h mi s
    using make_time_of_date[OF dt, of 0] Second_pos(1) by (simp add: L_def)
  note mt0 = mt[of 0, unfolded add_0_right]
  have cl: "time_Clock (fixed_zone z) t = ((L mod 86400) div 3600, (L mod 86400) mod 3600 div 60, (L mod 86400) mod 60)"
    by (simp only: time_Clock_def Let_def L_def)
  have wd: "Weekday (fixed_zone z) t = (L div 86400 + 4) mod 7" by (simp add: Weekday_def L_def)
  have r: "round_time (fixed_zone z) period True t = (L - (L + sh) mod K - z) * Second \<and>
      round_time (fixed_zone z) period False t = (L - (L + sh) mod K + K - z) * Second - Millisecond"
    using assms(1)
  proof (elim insertE emptyE)
    assume p: "period = ''w''"
    then have [simp]: "K = 604800" "sh = 345600" using assms(2) by (simp_all add: period_secs_def)
    let ?w = "(L div 86400 + 4) mod 7"
    have "(L div 86400 + (7 - ?w)) * 86400 = (L div 86400 - ?w) * 86400 + 604800" by (simp add: algebra_simps)
    then have w7: "make_time (fixed_zone z) y m (d + (7 - ?w)) 0 0 0 0 = (L - (L + 345600) mod 604800 + 604800 - z) * Second"
      using mt[of "7 - ?w" 0 0 0] local_floor(1)[of L] by simp
    have "7 + (d - ?w) = d + (7 - ?w)" by simp
    then have "make_time (fixed_zone z) y m (7 + (d - ?w)) 0 0 0 0 = (L - (L + 345600) mod 604800 + 604800 - z) * Second" using w7 by (simp only:)
    then show ?thesis
      unfolding round_time_def dt wd p using mt[of "- ?w" 0 0 0] local_floor(1)[of L] by (simp add: split_def period_end_def)
  next
    assume p: "period = ''d''"
    then have [simp]: "K = 86400" "sh = 0" using assms(2) by (simp_all add: period_secs_def)
    show ?thesis unfolding round_time_def dt p using mt0[of 0 0 0] mt[of 1 0 0 0] local_floor(2)[of L] by (simp add: split_def period_end_def distrib_right)
  next
    assume p: "period = ''h''"
    then have [simp]: "K = 3600" "sh = 0" using assms(2) by (simp_all add: period_secs_def)
    have "L div 86400 * 86400 + ((L mod 86400) div 3600 + k) * 3600 = L - L mod 3600 + k * 3600" for k
      using local_floor(3)[of L] unfolding distrib_right by linarith
    from mt0[of "(L mod 86400) div 3600 + k" 0 0 for k, unfolded this] show ?thesis
      unfolding round_time_def dt cl p Let_def prod.case by (simp add: period_end_def) (metis add_0_right mult_zero_left)
  next
    assume p: "period = ''m''"
    then have [simp]: "K = 60" "sh = 0" using assms(2) by (simp_all add: period_secs_def)
    have "L div 86400 * 86400 + (L mod 86400) div 3600 * 3600 + ((L mod 86400) mod 3600 div 60 + k) * 60 = L - L mod 60 + k * 60" for k
      using local_floor(4)[of L] unfolding distrib_right by linarith
    from mt0[of "(L mod 86400) div 3600" "(L mod 86400) mod 3600 div 60 + k" 0 for k, unfolded this] show ?thesis
      unfolding round_time_def dt cl p Let_def prod.case by (simp add: period_end_def) (metis add_0_right mult_zero_left)
  next
    assume p: "period = ''s''"
    then have [simp]: "K = 1" "sh = 0" using assms(2) by (simp_all add: period_secs_def)
    have "L div 86400 * 86400 + (L mod 86400) div 3600 * 3600 + (L mod 86400) mod 3600 div 60 * 60 + ((L mod 86400) mod 60 + k) = L + k" for k
      using local_floor(5)[of L] by linarith
    from mt0[of "(L mod 86400) div 3600" "(L mod 86400) mod 3600 div 60" "(L mod 86400) mod 60 + k" for k, unfolded this] show ?thesis
      unfolding round_time_def dt cl p Let_def prod.case by (simp add: period_end_def) (metis add_0_right mult_zero_left)
  qed
  then show ?thesis unfolding floor_local[OF K] L_def[symmetric] by (simp add: algebra_simps)
qed

section \<open>Expressions\<close>

definition relative_expr :: "char \<Rightarrow> nat \<Rightarrow> char \<Rightarrow> bytes" where
  "relative_expr op n p = now @ op # format_nat n @ [p]"

lemma Contains_now: "Contains (now @ s) now"
  by (auto simp: Contains_iff intro: exI[of _ "[]"])

lemma Contains_slash: "Contains s ''/'' \<longleftrightarrow> CHR ''/'' \<in> set s"
  by (auto simp: Contains_iff in_set_conv_decomp)

lemma slash_format_nat: "CHR ''/'' \<notin> set (format_nat n)"
  using set_format_nat[of "CHR ''/''" n] by (auto simp: digit_char_def dest!: arg_cong[of _ _ "of_char :: char \<Rightarrow> nat"])

lemma lower_M: "ToLower_char (CHR ''M'') = CHR ''m''" "p \<in> set ''ywdhms'' \<Longrightarrow> ToLower_char p = p"
  by code_simp (auto simp: ToLower_char_def)

lemma Atoi_format_nat: "int n < 2 ^ 63 \<Longrightarrow> Atoi (format_nat n) = int n"
  using format_nat_head[of n] by (simp add: Atoi_def MaxInt64_def)

lemma relative_time:
  fixes op :: char
  assumes "int n < 2 ^ 63" "p \<noteq> CHR ''/''"
  defines "i \<equiv> (if op = CHR ''-'' then - int n else int n)"
  shows "toAbsoluteTime loc timeNow (relative_expr op n p) st =
      Done (case period_time loc timeNow (ToLower [p]) i of None \<Rightarrow> (zero_time, False) | Some t \<Rightarrow> (t, False))"
    and "toAbsoluteTime loc timeNow (relative_expr op n p @ ''/'' @ [c]) st =
      Done (case period_time loc timeNow (ToLower [p]) i of None \<Rightarrow> (zero_time, False) | Some t \<Rightarrow> (round_time loc (ToLower [p]) st t, False))"
proof -
  have w: "wrap64 (- int n) = - int n" using assms(1) by (simp add: wrap64_def)
  have a: "Atoi (format_nat n) = int n" using assms(1) by (rule Atoi_format_nat)
  have e: "drop 4 (now @ op # s) = s" "take 1 (drop 3 (now @ op # s)) = [op]" "(now @ op # s = now) = False" "(length (now @ op # s) < 4) = False"
      "Contains (now @ op # s) now = True" for s
    by (simp_all add: Contains_now, simp_all add: now_def)
  have slash: "\<not> Contains (format_nat n @ [p]) ''/''" "Contains (format_nat n @ [p, CHR ''/'', c]) ''/''"
    using slash_format_nat[of n] assms(2) by (auto simp: Contains_slash)
  show "toAbsoluteTime loc timeNow (relative_expr op n p) st =
      Done (case period_time loc timeNow (ToLower [p]) i of None \<Rightarrow> (zero_time, False) | Some t \<Rightarrow> (t, False))"
    unfolding toAbsoluteTime_def relative_expr_def append_assoc append_Cons e by (simp add: Let_def slash a w i_def cong: option.case_cong del: One_nat_def)
  show "toAbsoluteTime loc timeNow (relative_expr op n p @ ''/'' @ [c]) st =
      Done (case period_time loc timeNow (ToLower [p]) i of None \<Rightarrow> (zero_time, False) | Some t \<Rightarrow> (round_time loc (ToLower [p]) st t, False))"
    unfolding toAbsoluteTime_def relative_expr_def append_assoc append_Cons e by (simp add: Let_def slash a w i_def cong: option.case_cong del: One_nat_def)
qed

text \<open>Months are minutes: the letter of the period is made small before the months are looked for.\<close>

theorem months_are_minutes:
  assumes "int n * Minute < 2 ^ 63"
  shows "toAbsoluteTime loc timeNow (relative_expr (CHR ''-'') n (CHR ''M'')) st = Done (timeNow - int n * Minute, False)"
proof -
  have n: "int n < 2 ^ 63" using assms by (simp add: unit_defs)
  have "wrap64 (- (int n * Minute)) = - (int n * Minute)" using assms by (simp add: wrap64_def unit_defs)
  then show ?thesis by (simp add: relative_time(1)[OF n] period_time_def ToLower_def lower_M)
qed

text \<open>The expression for the current period, such as today, is not rounded: both ends are the present time.\<close>

theorem current_period_not_rounded:
  assumes "p \<in> set ''yMwdhms''"
  shows "toAbsoluteTime (fixed_zone z) timeNow (''now/'' @ [p]) st = Done (timeNow, False)"
proof -
  have "Contains (''now/'' @ [p]) now" "''now/'' @ [p] \<noteq> now" "\<not> Contains [p] ''/''" using assms by (auto simp: now_def HasPrefix_def)
  moreover have "period_time (fixed_zone z) timeNow (ToLower [p]) 0 = Some timeNow"
    using assms AddDate_days[of z timeNow 0] by (auto simp: period_time_def ToLower_def lower_M wrap64_def)
  ultimately show ?thesis by (simp add: toAbsoluteTime_def Atoi_def parse_nat_def HasPrefix_def Let_def)
qed

text \<open>
  \<^verbatim>\<open>now-5d/d\<close> and the like, in a zone without changes: the start of the period five before the current one, or its last millisecond.
\<close>

theorem relative_period:
  fixes timeNow z :: int
  assumes "p \<in> set ''wdhms''" "period_secs [p] = (K, sh)" "int n * (K * Second) < 2 ^ 63"
  defines "start \<equiv> timeNow - (timeNow + (z + sh) * Second) mod (K * Second)"
  shows "toAbsoluteTime (fixed_zone z) timeNow (relative_expr (CHR ''-'') n p @ ''/'' @ [c]) True = Done (start - int n * (K * Second), False) \<and>
    toAbsoluteTime (fixed_zone z) timeNow (relative_expr (CHR ''-'') n p @ ''/'' @ [c]) False =
      Done (start - int n * (K * Second) + K * Second - Millisecond, False)"
proof -
  have K: "1 \<le> K" "K = 604800 \<or> K = 86400 \<or> K = 3600 \<or> K = 60 \<or> K = 1" using assms(1,2) by (auto simp: period_secs_def split: if_splits)
  have "int n \<le> int n * (K * Second)" using K by (auto simp: unit_defs)
  then have n: "int n < 2 ^ 63" using assms(3) by linarith
  have lower: "ToLower [p] = [p]" "p \<noteq> CHR ''/''" using assms(1) by (auto simp: ToLower_def lower_M)
  have w: "wrap64 (- x) = - x" if "0 \<le> x" "x < 2 ^ 63" for x using that by (simp add: wrap64_def)
  define t where "t = timeNow - int n * (K * Second)"
  have "period_time (fixed_zone z) timeNow [p] (- int n) = Some t"
    using assms(1-3) w[of "int n * (K * Second)"] w[of "7 * int n"]
    by (auto simp: period_time_def t_def AddDate_days period_secs_def unit_defs)
  moreover have "(t + (z + sh) * Second) mod (K * Second) = (timeNow + (z + sh) * Second) mod (K * Second)"
  proof -
    have "t + (z + sh) * Second = timeNow + (z + sh) * Second + (- int n) * (K * Second)" by (simp add: t_def)
    then show ?thesis by (simp only: mod_mult_self1)
  qed
  moreover have "[p] \<in> {''w'', ''d'', ''h'', ''m'', ''s''}" using assms(1) by auto
  ultimately show ?thesis
    unfolding relative_time(2)[OF n lower(2)] using round_time_fixed[OF _ assms(2), of z t] by (simp add: lower(1) start_def t_def)
qed

section \<open>Absolute times\<close>

lemma parse_digits_zeros: "parse_digits 0 (replicate k (CHR ''0'') @ s) = parse_digits 0 s"
proof (induction k)
  case (Suc k)
  have "char_digit (CHR ''0'') = Some 0" by code_simp
  then show ?case using Suc by simp
qed simp

lemma length_format_nat_le: "n < 10 ^ w \<Longrightarrow> 0 < w \<Longrightarrow> length (format_nat n) \<le> w"
proof (induction n arbitrary: w rule: format_nat.induct)
  case (1 n)
  show ?case
  proof (cases "n < 10")
    case True
    then show ?thesis using 1 by (simp add: format_nat.simps[of n])
  next
    case False
    obtain v where v: "w = Suc v" using 1(3) by (cases w) auto
    have "0 < v" using 1(2) False v by (cases v) auto
    moreover have "n div 10 < 10 ^ v" using 1(2) v by (simp add: less_mult_imp_div_less mult.commute)
    ultimately show ?thesis using 1(1)[OF False] v False by (simp add: format_nat.simps[of n])
  qed
qed

lemma pad_nat:
  assumes "0 \<le> x" "x < 10 ^ w" "0 < w"
  shows "length (pad w x) = w" "parse_nat (pad w x) = Some (nat x)" "set (pad w x) \<subseteq> set (format_nat (nat x)) \<union> {CHR ''0''}"
proof -
  have "nat x < 10 ^ w" using assms(1,2) by (simp add: nat_less_iff)
  then have "length (format_nat (nat x)) \<le> w" using length_format_nat_le assms(3) by blast
  then show "length (pad w x) = w" using assms(1) by (simp add: pad_def Let_def)
  show "parse_nat (pad w x) = Some (nat x)" using assms(1) by (simp add: pad_def Let_def parse_nat_def parse_digits_zeros parse_digits_format_nat)
  show "set (pad w x) \<subseteq> set (format_nat (nat x)) \<union> {CHR ''0''}" using assms(1) by (auto simp: pad_def Let_def)
qed

lemma take_digits_pad: "0 \<le> x \<Longrightarrow> x < 10 ^ w \<Longrightarrow> 0 < w \<Longrightarrow> take_digits w (pad w x @ r) = Some (x, r)"
  using pad_nat[of x w] by (simp add: take_digits_def)

lemma take_hour_pad: "0 \<le> x \<Longrightarrow> x < 100 \<Longrightarrow> take_hour (pad 2 x @ r) = Some (x, r)"
  using take_digits_pad[of x 2 r] by (simp add: take_hour_def)

lemma take_fraction_pad:
  assumes "0 \<le> x" "x < 1000"
  shows "take_fraction (pad 3 x @ r) = Some (x, r)"
proof -
  note p = pad_nat[of x 3, simplified, OF assms]
  have "CHR ''-'' \<notin> set (pad 3 x)" "CHR ''+'' \<notin> set (pad 3 x)" using p(3) format_nat_not_sign by fastforce+
  then have "\<not> HasPrefix (pad 3 x) ''-''" "\<not> HasPrefix (pad 3 x) ''+''" by (auto simp: HasPrefix_iff)
  then have "ParseInt (pad 3 x) = Some x" using p(2) assms by (simp add: ParseInt_def Let_def)
  then show ?thesis using p(1) assms by (simp add: take_fraction_def)
qed

lemma clock_bounds:
  assumes "time_Clock loc t = (h, mi, s)"
  shows "0 \<le> h" "h < 24" "0 \<le> mi" "mi < 60" "0 \<le> s" "s < 60"
proof -
  define x where "x = local_secs loc t mod 86400"
  have x: "0 \<le> x" "x < 86400" by (simp_all add: x_def)
  have e: "h = x div 3600" "mi = x mod 3600 div 60" "s = x mod 60" using assms by (simp_all add: time_Clock_def Let_def x_def)
  have "x mod 3600 < 3600" "0 \<le> x mod 3600" by simp_all
  then show "0 \<le> h" "h < 24" "0 \<le> mi" "mi < 60" "0 \<le> s" "s < 60" using x unfolding e by (auto intro: div_int_pos_iff[THEN iffD2])
qed

lemma make_time_same:
  assumes "time_Date UTC t = (y, m, d)" "time_Clock UTC t = (h, mi, s)"
  shows "make_time UTC y m d h mi s (Nanosecond_of t div Millisecond * Millisecond) = t - t mod Millisecond"
proof -
  define L where "L = local_secs UTC t"
  let ?ns = "Nanosecond_of t div Millisecond * Millisecond"
  have L: "L = t div Second" by (simp add: L_def local_secs_def UTC_def)
  have ns: "?ns = t mod Second - t mod Millisecond"
  proof -
    have "t mod Second mod Millisecond = t mod Millisecond" by (rule mod_mod_cancel) (simp add: Second_def Millisecond_def)
    then show ?thesis using div_mult_mod_eq[of "t mod Second" Millisecond] unfolding Nanosecond_of_def by linarith
  qed
  have "0 \<le> ?ns" using Second_pos(2)[of t] by (simp add: Nanosecond_of_def Millisecond_def)
  moreover have "?ns < Second" using Second_pos(3)[of t] pos_mod_sign[of Millisecond t] unfolding ns by (simp add: Millisecond_def)
  ultimately have b: "0 \<le> ?ns" "?ns < Second" .
  have cl: "h = (L mod 86400) div 3600" "mi = (L mod 86400) mod 3600 div 60" "s = (L mod 86400) mod 60"
    using assms(2) unfolding time_Clock_def Let_def L_def by (simp_all only: prod.inject)
  have "make_time UTC y m d h mi s ?ns = (L div 86400 * 86400 + h * 3600 + mi * 60 + s) * Second + ?ns"
    using make_time_of_date[OF assms(1)[unfolded UTC_def] b, of 0 h mi s] by (simp only: UTC_def L_def add_0_right diff_zero)
  also have "\<dots> = t div Second * Second + ?ns" unfolding cl local_floor(5) L by (rule refl)
  finally show ?thesis using ns div_mult_mod_eq[of t Second] by linarith
qed

text \<open>A time that was written with the layout is read back, in milliseconds, when its year has four digits.\<close>

theorem layout_roundtrip:
  assumes "0 \<le> fst (time_Date UTC t)" "fst (time_Date UTC t) < 10000"
  shows "parse_layout (format_layout t) = Some (t - t mod Millisecond)"
proof -
  obtain y m d where dt: "time_Date UTC t = (y, m, d)" by (cases "time_Date UTC t")
  obtain h mi s where cl: "time_Clock UTC t = (h, mi, s)" by (cases "time_Clock UTC t")
  have m: "1 \<le> m" "m \<le> 12" "1 \<le> d" "d \<le> daysIn m y"
    using days_of_date_of[of "local_secs UTC t div 86400"] dt by (simp_all add: time_Date_def)
  have d: "d < 100" using m(4) by (auto simp: daysIn_def split: if_splits)
  note c = clock_bounds[OF cl]
  have "0 \<le> Nanosecond_of t div Millisecond" "Nanosecond_of t div Millisecond < 1000"
    using Second_pos(2,3)[of t] by (auto simp: Nanosecond_of_def Millisecond_def Second_def)
  note p = take_fraction_pad[OF this]
  show ?thesis
    using assms m c d
    by (simp add: parse_layout_def format_layout_def dt cl take_digits_pad take_hour_pad p take_char_def make_time_same[OF dt cl])
qed

section \<open>Witnesses\<close>

theorem months_are_minutes_witness:
  "toAbsoluteTime UTC 1709210096123456789 (relative_expr (CHR ''-'') 3 (CHR ''M'')) True = Done (1709209916123456789, False)"
  using months_are_minutes[of 3 UTC 1709210096123456789 True] by (simp add: unit_defs)

theorem current_period_not_rounded_witness:
  "toAbsoluteTime (fixed_zone 3600) 1709210096123456789 ''now/d'' True = Done (1709210096123456789, False)"
  using current_period_not_rounded[of "CHR ''d''" 3600 1709210096123456789 True] by simp

theorem round_time_fixed_witness:
  "round_time (fixed_zone 3600) ''d'' True 1709210096123456789 = 1709161200000000000"
  using round_time_fixed[of "''d''" 86400 0 3600 1709210096123456789] by (simp add: period_secs_def Second_def)

theorem relative_period_witness:
  "toAbsoluteTime (fixed_zone 0) 1709210096123456789 (relative_expr (CHR ''-'') 1 (CHR ''w'') @ ''/'' @ ''w'') True = Done (1708214400000000000, False)"
  using relative_period[of "CHR ''w''" 604800 345600 1 0 1709210096123456789 "CHR ''w''"] by (simp add: period_secs_def Second_def)

theorem layout_roundtrip_witness:
  "parse_layout (format_layout 1709210096123456789) = Some 1709210096123000000"
proof -
  have "time_Date UTC 1709210096123456789 = (2024, 2, 29)" by code_simp
  then show ?thesis using layout_roundtrip[of 1709210096123456789] by (simp add: Millisecond_def)
qed

end
