(* ===== verification/Go_Json.thy ===== *)
theory Go_Json
  imports Go_Float_Arith
begin

text \<open>
  A value of the type \<open>any\<close> that \<^verbatim>\<open>encoding/json\<close> has decoded: numbers are float64 and an object is an association list with different
  keys.  The decoder itself is an argument of the definitions that use it.
\<close>

section \<open>Decoded values\<close>

datatype jval = JNull | JBool bool | JNum f64 | JStr bytes | JArr "jval list" | JObj "(bytes \<times> jval) list"

definition field :: "(bytes \<times> jval) list \<Rightarrow> bytes \<Rightarrow> jval" where
  "field obj k = (case map_of obj k of None \<Rightarrow> JNull | Some v \<Rightarrow> v)"

text \<open>Type assertions without a second result.\<close>

definition as_string :: "jval \<Rightarrow> bytes exec" where
  "as_string v = (case v of JStr s \<Rightarrow> Done s | _ \<Rightarrow> Panic TypeAssertion)"

definition as_float :: "jval \<Rightarrow> f64 exec" where
  "as_float v = (case v of JNum x \<Rightarrow> Done x | _ \<Rightarrow> Panic TypeAssertion)"

end
