(* ===== verification/Elastic_Query.thy ===== *)
theory Elastic_Query
  imports Elastic_Time Go_Json
begin

text \<open>
  Stored queries of Kibana and their translation into queries of Elasticsearch, \<^verbatim>\<open>connectors/elastic/clients/queryTranslator.go\<close>
  and the types of \<^verbatim>\<open>apiObjects.go\<close>.  The parser of KQL is a library: an argument, with \<open>'k\<close> what it returns.  The lists of a query
  are nil exactly when they are empty, since they are only appended to.
\<close>

section \<open>Saved objects\<close>

record KMeta =
  km_Index :: "bytes option"
  km_Negate :: "bool option"
  km_Disabled :: "bool option"
  km_Type :: "bytes option"

text \<open>A range comes from a stored filter or is made from a time filter; a field of type \<open>any\<close> that is nil is \<open>JNull\<close>.\<close>

datatype range_any = RJson jval | RTimestamp Timestamp

record KFilter =
  kf_Meta :: "KMeta option"
  kf_Query :: jval
  kf_Exists :: jval
  kf_Range :: range_any

record KAttributes =
  ka_Title :: bytes
  ka_Description :: bytes
  ka_Filters :: "KFilter list"
  ka_TimeFilter :: "KTimeFilter option"
  ka_Query :: "(bytes \<times> bytes) option" \<comment> \<open>language and text\<close>

record KSavedObject =
  so_Type :: bytes
  so_ID :: bytes
  so_Attributes :: "KAttributes option"

text \<open>The identifiers of the indexes of the filters, in the order in which the set is visited.\<close>

definition ExtractIndexIds :: "(bytes list \<Rightarrow> bytes list) \<Rightarrow> KSavedObject \<Rightarrow> bytes list exec" where
  "ExtractIndexIds visit storedQuery =
     bind_exec (deref (so_Attributes storedQuery)) (\<lambda>a.
     bind_exec (map_exec (\<lambda>f. bind_exec (deref (kf_Meta f)) (\<lambda>m. Done (case km_Index m of None \<Rightarrow> [] | Some i \<Rightarrow> [i]))) (ka_Filters a)) (\<lambda>ids.
       Done (visit (remdups (concat ids)))))"

section \<open>Queries\<close>

record EsQueryStr =
  qs_Query :: bytes
  qs_AnalyzeWildcard :: bool

datatype 'k es_any = EA_Str EsQueryStr | EA_Kuery 'k | EA_Json jval | EA_Filter KFilter

record 'k EsQueryBool =
  eb_Must :: "'k es_any list"
  eb_Filter :: "'k es_any list"
  eb_Should :: "'k es_any list"
  eb_MustNot :: "'k es_any list"

record 'k EsQuery =
  eq_Bool :: "'k EsQueryBool option"
  eq_Str :: "EsQueryStr option"

definition empty_bool :: "'k EsQueryBool" where
  "empty_bool = \<lparr>eb_Must = [], eb_Filter = [], eb_Should = [], eb_MustNot = []\<rparr>"

text \<open>The copy starts without a \<open>Bool\<close>, and each of its lists is assigned through that nil pointer.\<close>

definition copyQuery :: "'k EsQuery option \<Rightarrow> 'k EsQuery option exec" where
  "copyQuery query =
     (case query of
        None \<Rightarrow> Done None
      | Some q \<Rightarrow> bind_exec (deref (eq_Bool q)) (\<lambda>b.
          if eb_Must b \<noteq> [] \<or> eb_MustNot b \<noteq> [] \<or> eb_Should b \<noteq> [] \<or> eb_Filter b \<noteq> [] then Panic NilDereference
          else Done (Some \<lparr>eq_Bool = None, eq_Str = None\<rparr>)))"

definition buildMatchPhraseFilter :: "bytes \<Rightarrow> jval \<Rightarrow> jval" where
  "buildMatchPhraseFilter fieldName v = JObj [(''match_phrase'', JObj [(fieldName, JObj [(''query'', v)])])]"

definition filterNegate :: "KFilter \<Rightarrow> bool \<Rightarrow> bool" where
  "filterNegate f reverse =
     (case kf_Meta f of
        None \<Rightarrow> \<not> reverse
      | Some m \<Rightarrow> (case km_Negate m of None \<Rightarrow> \<not> reverse | Some n \<Rightarrow> n = reverse))"

text \<open>The field of a phrase is the first key that the map gives; \<open>visit\<close> is the order in which it is visited.\<close>

definition phrase_field :: "((bytes \<times> jval) list \<Rightarrow> (bytes \<times> jval) list) \<Rightarrow> (bytes \<times> jval) list \<Rightarrow> bytes" where
  "phrase_field visit queryBody = (case visit queryBody of [] \<Rightarrow> [] | (k, _) # _ \<Rightarrow> k)"

definition migrateDeprecatedPhraseFilter :: "((bytes \<times> jval) list \<Rightarrow> (bytes \<times> jval) list) \<Rightarrow> KFilter \<Rightarrow> KFilter" where
  "migrateDeprecatedPhraseFilter visit f =
     (case kf_Query f of
        JObj filterQuery \<Rightarrow>
          (case field filterQuery ''match'' of
             JObj queryBody \<Rightarrow>
               (let fieldName = phrase_field visit queryBody
                in case field queryBody fieldName of
                     JObj fld \<Rightarrow> if field fld ''type'' = JStr ''phrase''
                                  then f\<lparr>kf_Query := buildMatchPhraseFilter fieldName (field fld ''query'')\<rparr> else f
                   | _ \<Rightarrow> f)
           | _ \<Rightarrow> f)
      | _ \<Rightarrow> f)"

definition translateToQuery :: "KFilter \<Rightarrow> 'k es_any" where
  "translateToQuery f = (if kf_Query f \<noteq> JNull then EA_Json (kf_Query f) else EA_Filter f)"

definition cleanFilter :: "'k es_any \<Rightarrow> 'k es_any" where
  "cleanFilter x = (case x of EA_Filter f \<Rightarrow> EA_Filter (f\<lparr>kf_Meta := None\<rparr>) | _ \<Rightarrow> x)"

definition filtersToESQueries :: "((bytes \<times> jval) list \<Rightarrow> (bytes \<times> jval) list) \<Rightarrow> KFilter list \<Rightarrow> bool \<Rightarrow> 'k es_any list" where
  "filtersToESQueries visit filters negate =
     map cleanFilter (map translateToQuery (map (migrateDeprecatedPhraseFilter visit) (filter (\<lambda>f. filterNegate f negate) filters)))"

definition buildQueryFromFilters :: "((bytes \<times> jval) list \<Rightarrow> (bytes \<times> jval) list) \<Rightarrow> KFilter list \<Rightarrow> 'k EsQueryBool" where
  "buildQueryFromFilters visit filters =
     empty_bool\<lparr>eb_Filter := filtersToESQueries visit filters False, eb_MustNot := filtersToESQueries visit filters True\<rparr>"

definition buildRangeFilterFromTimeFilter :: "location \<Rightarrow> timestamp \<Rightarrow> KTimeFilter \<Rightarrow> KFilter exec" where
  "buildRangeFilterFromTimeFilter loc timeNow timeFilter =
     bind_exec (toAbsoluteUtcTime loc timeNow \<lparr>ts_From = tf_From timeFilter, ts_To = tf_To timeFilter\<rparr>) (\<lambda>t.
       Done \<lparr>kf_Meta = None, kf_Query = JNull, kf_Exists = JNull, kf_Range = RTimestamp t\<rparr>)"

record 'k query_env =
  qe_loc :: location
  qe_visit :: "(bytes \<times> jval) list \<Rightarrow> (bytes \<times> jval) list"
  qe_kuery :: "bytes \<Rightarrow> 'k option" \<comment> \<open>the parser of KQL\<close>
  qe_FilterHostsWithLucene :: bytes

definition lucene :: "bytes \<Rightarrow> 'k es_any" where
  "lucene q = EA_Str \<lparr>qs_Query = q, qs_AnalyzeWildcard = True\<rparr>"

text \<open>What the text of a stored query adds to the lists \<open>Must\<close> and \<open>Filter\<close>.\<close>

definition text_must :: "KAttributes \<Rightarrow> 'k es_any list" where
  "text_must a = (case ka_Query a of Some (lang, q) \<Rightarrow> if q \<noteq> [] \<and> lang = ''lucene'' then [lucene q] else [] | None \<Rightarrow> [])"

definition text_filter :: "(bytes \<Rightarrow> 'k option) \<Rightarrow> KAttributes \<Rightarrow> 'k es_any list" where
  "text_filter kuery a =
     (case ka_Query a of
        Some (lang, q) \<Rightarrow> if q \<noteq> [] \<and> lang = ''kuery'' then (case kuery q of Some k \<Rightarrow> [EA_Kuery k] | None \<Rightarrow> []) else []
      | None \<Rightarrow> [])"

definition BuildEsQuery :: "'k query_env \<Rightarrow> timestamp \<Rightarrow> KSavedObject \<Rightarrow> 'k EsQuery exec" where
  "BuildEsQuery env timeNow storedQuery =
     (case so_Attributes storedQuery of
        None \<Rightarrow> Done \<lparr>eq_Bool = Some empty_bool, eq_Str = None\<rparr>
      | Some a \<Rightarrow>
          (let hosts = (if qe_FilterHostsWithLucene env \<noteq> [] then [lucene (qe_FilterHostsWithLucene env)] else []);
               fs = buildQueryFromFilters (qe_visit env) (ka_Filters a)
           in bind_exec (case ka_TimeFilter a of
                           None \<Rightarrow> Done []
                         | Some t \<Rightarrow> bind_exec (buildRangeFilterFromTimeFilter (qe_loc env) timeNow t) (\<lambda>f. Done [EA_Filter f])) (\<lambda>range.
                Done \<lparr>eq_Bool = Some \<lparr>eb_Must = hosts @ text_must a @ eb_Must fs,
                                      eb_Filter = text_filter (qe_kuery env) a @ eb_Filter fs @ range,
                                      eb_Should = eb_Should fs, eb_MustNot = eb_MustNot fs\<rparr>, eq_Str = None\<rparr>)))"

section \<open>What a translated query matches\<close>

text \<open>
  The meaning of a bool query in the documentation of Elasticsearch, where \<open>atom\<close> tells whether a document matches a clause: all of
  \<open>must\<close> and \<open>filter\<close>, none of \<open>must_not\<close>, and one of \<open>should\<close> when there are no clauses of the first two kinds.
\<close>

definition bool_matches :: "('k es_any \<Rightarrow> bool) \<Rightarrow> 'k EsQueryBool \<Rightarrow> bool" where
  "bool_matches atom b \<longleftrightarrow> (\<forall>x \<in> set (eb_Must b @ eb_Filter b). atom x) \<and> (\<forall>x \<in> set (eb_MustNot b). \<not> atom x) \<and>
     (eb_Should b = [] \<or> eb_Must b @ eb_Filter b \<noteq> [] \<or> (\<exists>x \<in> set (eb_Should b). atom x))"

definition es_matches :: "('k es_any \<Rightarrow> bool) \<Rightarrow> 'k EsQuery \<Rightarrow> bool" where
  "es_matches atom q \<longleftrightarrow> (case eq_Bool q of None \<Rightarrow> True | Some b \<Rightarrow> bool_matches atom b)"

definition clause :: "((bytes \<times> jval) list \<Rightarrow> (bytes \<times> jval) list) \<Rightarrow> KFilter \<Rightarrow> 'k es_any" where
  "clause visit f = cleanFilter (translateToQuery (migrateDeprecatedPhraseFilter visit f))"

definition negated :: "KFilter \<Rightarrow> bool" where
  "negated f \<longleftrightarrow> (\<exists>m. kf_Meta f = Some m \<and> km_Negate m = Some True)"

text \<open>What a stored query asks for, in the terms of Kibana.\<close>

definition query_asks :: "'k query_env \<Rightarrow> ('k es_any \<Rightarrow> bool) \<Rightarrow> KAttributes \<Rightarrow> bool" where
  "query_asks env atom a \<longleftrightarrow>
     (qe_FilterHostsWithLucene env \<noteq> [] \<longrightarrow> atom (lucene (qe_FilterHostsWithLucene env))) \<and>
     (case ka_Query a of
        None \<Rightarrow> True
      | Some (lang, q) \<Rightarrow> (q \<noteq> [] \<and> lang = ''lucene'' \<longrightarrow> atom (lucene q)) \<and>
                           (q \<noteq> [] \<and> lang = ''kuery'' \<longrightarrow> (case qe_kuery env q of None \<Rightarrow> True | Some k \<Rightarrow> atom (EA_Kuery k)))) \<and>
     (\<forall>f \<in> set (ka_Filters a). atom (clause (qe_visit env) f) = (\<not> negated f))"

lemma filterNegate_negated: "filterNegate f reverse \<longleftrightarrow> negated f = reverse"
  by (auto simp: filterNegate_def negated_def split: option.split)

lemma filters_set: "set (filtersToESQueries visit fs reverse) = clause visit ` {f \<in> set fs. negated f = reverse}"
  by (auto simp: filtersToESQueries_def clause_def filterNegate_negated)

lemma filters_clean:
  assumes "EA_Filter f \<in> set (filtersToESQueries visit fs reverse :: 'k es_any list)"
  shows "kf_Meta f = None"
proof -
  obtain g where "EA_Filter f = (clause visit g :: 'k es_any)" using assms unfolding filters_set by blast
  then show ?thesis by (cases "translateToQuery (migrateDeprecatedPhraseFilter visit g) :: 'k es_any") (auto simp: clause_def cleanFilter_def)
qed

definition option_list :: "'a option \<Rightarrow> 'a list" where
  "option_list v = (case v of None \<Rightarrow> [] | Some x \<Rightarrow> [x])"

lemma text_clauses:
  fixes kuery :: "bytes \<Rightarrow> 'k option"
  shows "(\<forall>x \<in> set (text_must a) \<union> set (text_filter kuery a). atom x) \<longleftrightarrow>
     (case ka_Query a of
        None \<Rightarrow> True
      | Some (lang, q) \<Rightarrow> (q \<noteq> [] \<and> lang = ''lucene'' \<longrightarrow> atom (lucene q)) \<and>
                           (q \<noteq> [] \<and> lang = ''kuery'' \<longrightarrow> (case kuery q of None \<Rightarrow> True | Some k \<Rightarrow> atom (EA_Kuery k))))"
proof (cases "ka_Query a")
  case (Some lq)
  obtain l t where lq: "lq = (l, t)" by (cases lq)
  have "(text_must a :: 'k es_any list) = (if t \<noteq> [] \<and> l = ''lucene'' then [lucene t] else [])" by (simp add: text_must_def Some lq)
  moreover have "text_filter kuery a = (if t \<noteq> [] \<and> l = ''kuery'' then map EA_Kuery (option_list (kuery t)) else [])"
    by (cases "kuery t") (simp_all add: text_filter_def Some lq option_list_def)
  moreover have "(\<forall>x \<in> set (map EA_Kuery (option_list (kuery t))). atom x) \<longleftrightarrow> (case kuery t of None \<Rightarrow> True | Some k \<Rightarrow> atom (EA_Kuery k))"
    by (cases "kuery t") (simp_all add: option_list_def)
  ultimately show ?thesis by (cases "t \<noteq> [] \<and> l = ''kuery''") (simp add: Some lq ball_Un, simp add: Some lq ball_Un, blast)
qed (simp add: text_must_def text_filter_def)


text \<open>A text in KQL that cannot be parsed is left out: the query then counts as if it had no text.\<close>

theorem bad_kuery_ignored:
  assumes "so_Attributes storedQuery = Some a" "ka_Query a = Some (''kuery'', txt)" "qe_kuery env txt = None"
  shows "BuildEsQuery env timeNow storedQuery = BuildEsQuery env timeNow (storedQuery\<lparr>so_Attributes := Some (a\<lparr>ka_Query := None\<rparr>)\<rparr>)"
  using assms by (simp add: BuildEsQuery_def text_must_def text_filter_def Let_def cong: option.case_cong)

text \<open>A filter that is disabled is applied all the same.\<close>

lemma disabled_filter_applied:
  "clause visit (f\<lparr>kf_Meta := Some (m\<lparr>km_Disabled := Some True\<rparr>)\<rparr>) = (clause visit (f\<lparr>kf_Meta := Some (m\<lparr>km_Disabled := Some False\<rparr>)\<rparr>) :: 'k es_any) \<and>
   filterNegate (f\<lparr>kf_Meta := Some (m\<lparr>km_Disabled := Some True\<rparr>)\<rparr>) reverse = filterNegate (f\<lparr>kf_Meta := Some (m\<lparr>km_Disabled := Some False\<rparr>)\<rparr>) reverse"
proof -
  have "clause visit (f\<lparr>kf_Meta := m\<rparr>) = (clause visit (f\<lparr>kf_Meta := m'\<rparr>) :: 'k es_any)" for m m'
    by (auto simp: clause_def migrateDeprecatedPhraseFilter_def translateToQuery_def cleanFilter_def Let_def split: jval.split)
  then show ?thesis by (auto simp: filterNegate_def)
qed

text \<open>The copy of a translated query never succeeds.\<close>

lemma copyQuery_panics:
  assumes "eq_Bool q = Some b" "eb_Must b @ eb_Filter b \<noteq> []"
  shows "copyQuery (Some q) = Panic NilDereference"
  using assms by (auto simp: copyQuery_def)

section \<open>Witnesses\<close>

definition demo_env :: "bytes query_env" where
  "demo_env = \<lparr>qe_loc = UTC, qe_visit = id, qe_kuery = (\<lambda>_. None), qe_FilterHostsWithLucene = []\<rparr>"

definition demo_filter :: KFilter where
  "demo_filter = \<lparr>kf_Meta = Some \<lparr>km_Index = None, km_Negate = Some True, km_Disabled = None, km_Type = None\<rparr>,
     kf_Query = JObj [(''match_all'', JObj [])], kf_Exists = JNull, kf_Range = RJson JNull\<rparr>"

definition demo_attributes :: KAttributes where
  "demo_attributes = \<lparr>ka_Title = ''errors'', ka_Description = [], ka_Filters = [demo_filter], ka_TimeFilter = None, ka_Query = Some (''kuery'', ''a:'')\<rparr>"

definition demo_query :: KSavedObject where
  "demo_query = \<lparr>so_Type = ''query'', so_ID = ''1'', so_Attributes = Some demo_attributes\<rparr>"


theorem bad_kuery_ignored_witness:
  "BuildEsQuery demo_env 0 demo_query = BuildEsQuery demo_env 0 (demo_query\<lparr>so_Attributes := Some (demo_attributes\<lparr>ka_Query := None\<rparr>)\<rparr>)"
  using bad_kuery_ignored[of demo_query demo_attributes "''a:''" demo_env 0] by (simp add: demo_query_def demo_attributes_def demo_env_def)

end
