(* ===== verification/Elastic_Clients.thy ===== *)
theory Elastic_Clients
  imports Elastic_Query Http_Client "HOL-Library.AList"
begin

text \<open>
  The clients of Kibana and Elasticsearch, \<^verbatim>\<open>connectors/elastic/clients/kibanaClient.go\<close> and \<^verbatim>\<open>elasticSearchClient.go\<close>.  The library of
  Elasticsearch and the decoders of JSON are arguments.  The loops over pages end only when the server lets them: they have fuel, and
  running out of it is the outcome \<open>Diverges\<close>.
\<close>

section \<open>Kibana\<close>

fun base64_char :: "nat \<Rightarrow> char" where
  "base64_char n = (if n < 26 then char_of (65 + n) else if n < 52 then char_of (71 + n) else if n < 62 then char_of (n - 4)
                    else if n = 62 then CHR ''+'' else CHR ''/'')"

fun base64 :: "bytes \<Rightarrow> bytes" where
  "base64 [] = []"
| "base64 [a] = (let n = of_char a * 16 in map base64_char [n div 64, n mod 64] @ ''=='')"
| "base64 [a, b] = (let n = of_char a * 1024 + of_char b * 4 in map base64_char [n div 4096, n div 64 mod 64, n mod 64] @ ''='')"
| "base64 (a # b # c # s) = (let n = of_char a * 65536 + of_char b * 256 + of_char c
     in map base64_char [n div 262144, n div 4096 mod 64, n div 64 mod 64, n mod 64] @ base64 s)"

record KibanaClient =
  kc_APIRoot :: bytes
  kc_Username :: bytes
  kc_Password :: bytes
  kc_headers :: "(bytes \<times> bytes) list"

definition Kibana_InitClient :: "KibanaClient \<Rightarrow> KibanaClient" where
  "Kibana_InitClient c = c\<lparr>kc_headers := [(''Content-Type'', ''application/json''), (''kbn-xsrf'', ''true'')] @
     (if kc_Password c \<noteq> [] then [(''Authorization'', ''Basic '' @ base64 (kc_Username c @ '':'' @ kc_Password c))] else [])\<rparr>"

record KSavedObjectsResponse =
  sr_Total :: int
  sr_SavedObjects :: "KSavedObject list"

text \<open>An object of a bulk answer and whether it has an error.\<close>

record bulk_item =
  bi_Object :: KSavedObject
  bi_Error :: bool

record 'w kibana_env =
  ke_sys :: sys_env
  ke_http :: "'w http"
  ke_um_default :: "bytes \<Rightarrow> bytes option"
  ke_um_objects :: "bytes \<Rightarrow> KSavedObjectsResponse option"
  ke_um_get :: "bytes \<Rightarrow> bulk_item list option"
  ke_um_resolve :: "bytes \<Rightarrow> bulk_item list option"
  ke_ma_bulk :: "(bytes \<times> bytes) list \<Rightarrow> bytes option"
  ke_params :: "(bytes \<times> bytes) list \<Rightarrow> (bytes \<times> bytes) list" \<comment> \<open>order in which a map is visited\<close>
  ke_names :: "bytes list \<Rightarrow> bytes list" \<comment> \<open>order in which a set is visited\<close>

text \<open>A request of the client: the body of the answer when there is one, with the status 200.\<close>

definition kibana_ask :: "'w kibana_env \<Rightarrow> KibanaClient \<Rightarrow> bytes \<Rightarrow> bytes \<Rightarrow> bytes option \<Rightarrow> 'w \<Rightarrow> 'w \<times> bytes option" where
  "kibana_ask env c httpMethod url body w =
     (case SendRequestWithContext (ke_sys env) (ke_http env) None httpMethod url (kc_headers c) None body w of
        (w', status, response, err) \<Rightarrow> (w', if err \<noteq> None \<or> status \<noteq> 200 \<or> response = [] then None else Some response))"

definition GetDefaultIndexID :: "'w kibana_env \<Rightarrow> KibanaClient \<Rightarrow> 'w \<Rightarrow> 'w \<times> bytes" where
  "GetDefaultIndexID env c w =
     (case kibana_ask env c ''GET'' (kc_APIRoot c @ ''api/'' @ ''index_patterns/default'') None w of
        (w', None) \<Rightarrow> (w', [])
      | (w', Some response) \<Rightarrow> (w', case ke_um_default env response of None \<Rightarrow> [] | Some i \<Rightarrow> i))"

text \<open>An empty list of values is a nil one: no values are searched for.\<close>

definition buildFindSOPath :: "'w kibana_env \<Rightarrow> KibanaClient \<Rightarrow> int \<Rightarrow> int \<Rightarrow> bytes \<Rightarrow> bytes \<Rightarrow> bytes list \<Rightarrow> bytes" where
  "buildFindSOPath env c page perPage savedObjectType searchField searchValues =
     kc_APIRoot c @ ''api/'' @ ''saved_objects/'' @ ''_find'' @
     BuildQueryParams (ke_params env ([(''type'', savedObjectType), (''page'', FormatInt page), (''per_page'', FormatInt perPage)] @
       (if searchValues \<noteq> [] then [(''search_fields'', searchField), (''search'', Join searchValues ''|'')] else []))) @
     ''&fields=filters&fields=title&fields=typeMeta&fields=query''"

definition perPage :: int where "perPage = 1000"

fun find_pages :: "nat \<Rightarrow> 'w kibana_env \<Rightarrow> KibanaClient \<Rightarrow> bytes \<Rightarrow> bytes \<Rightarrow> bytes list \<Rightarrow> int \<Rightarrow> int \<Rightarrow> KSavedObject list \<Rightarrow> 'w \<Rightarrow>
    ('w \<times> KSavedObject list) exec" where
  "find_pages fuel env c ty fld vals page tot savedObjects w =
     (if tot \<noteq> -1 \<and> tot < page * perPage then Done (w, savedObjects)
      else case fuel of
        0 \<Rightarrow> Panic Diverges
      | Suc n \<Rightarrow>
          (case kibana_ask env c ''GET'' (buildFindSOPath env c page perPage ty fld vals) None w of
             (w', None) \<Rightarrow> Done (w', [])
           | (w', Some response) \<Rightarrow>
               (case ke_um_objects env response of
                  None \<Rightarrow> Done (w', savedObjects)
                | Some r \<Rightarrow> find_pages n env c ty fld vals (page + 1) (if tot = -1 then sr_Total r else tot)
                              (savedObjects @ sr_SavedObjects r) w')))"

declare find_pages.simps [simp del]

definition FindSO :: "nat \<Rightarrow> 'w kibana_env \<Rightarrow> KibanaClient \<Rightarrow> bytes \<Rightarrow> bytes \<Rightarrow> bytes list \<Rightarrow> 'w \<Rightarrow> ('w \<times> KSavedObject list) exec" where
  "FindSO fuel env c savedObjectType searchField searchValues w = find_pages fuel env c savedObjectType searchField searchValues 1 (-1) [] w"

definition bulk_SO :: "(bytes \<Rightarrow> bulk_item list option) \<Rightarrow> bytes \<Rightarrow> 'w kibana_env \<Rightarrow> KibanaClient \<Rightarrow> bytes \<Rightarrow> bytes list \<Rightarrow> 'w \<Rightarrow> 'w \<times> KSavedObject list" where
  "bulk_SO um path env c savedObjectType ids w =
     (if ids = [] then (w, [])
      else case ke_ma_bulk env (map (Pair savedObjectType) ids) of
             None \<Rightarrow> (w, [])
           | Some body \<Rightarrow>
               (case kibana_ask env c ''POST'' (kc_APIRoot c @ ''api/'' @ ''saved_objects/'' @ path) (Some body) w of
                  (w', None) \<Rightarrow> (w', [])
                | (w', Some response) \<Rightarrow>
                    (w', case um response of None \<Rightarrow> [] | Some items \<Rightarrow> map bi_Object (filter (\<lambda>i. \<not> bi_Error i) items))))"

definition BulkGetSO :: "'w kibana_env \<Rightarrow> KibanaClient \<Rightarrow> bytes \<Rightarrow> bytes list \<Rightarrow> 'w \<Rightarrow> 'w \<times> KSavedObject list" where
  "BulkGetSO env c savedObjectType ids w = bulk_SO (ke_um_get env) ''_bulk_get'' env c savedObjectType ids w"

definition BulkResolveSO :: "'w kibana_env \<Rightarrow> KibanaClient \<Rightarrow> bytes \<Rightarrow> bytes list \<Rightarrow> 'w \<Rightarrow> 'w \<times> KSavedObject list" where
  "BulkResolveSO env c savedObjectType ids w = bulk_SO (ke_um_resolve env) ''_bulk_resolve'' env c savedObjectType ids w"

definition StoredQuery :: bytes where "StoredQuery = ''query''"
definition IndexPattern :: bytes where "IndexPattern = ''index-pattern''"
definition Title :: bytes where "Title = ''title''"

definition RetrieveStoredQueries :: "nat \<Rightarrow> 'w kibana_env \<Rightarrow> KibanaClient \<Rightarrow> bytes list \<Rightarrow> 'w \<Rightarrow> ('w \<times> KSavedObject list) exec" where
  "RetrieveStoredQueries fuel env c titles w = FindSO fuel env c StoredQuery Title titles w"

definition index_titles :: "KSavedObject list \<Rightarrow> bytes list exec" where
  "index_titles ps = map_exec (\<lambda>p. bind_exec (deref (so_Attributes p)) (\<lambda>a. Done (ka_Title a))) ps"

definition RetrieveIndexTitles :: "'w kibana_env \<Rightarrow> KibanaClient \<Rightarrow> KSavedObject \<Rightarrow> 'w \<Rightarrow> ('w \<times> bytes list) exec" where
  "RetrieveIndexTitles env c storedQuery w =
     bind_exec (ExtractIndexIds (ke_names env) storedQuery) (\<lambda>ids.
       let (w1, ids1) = (if ids = [] then (case GetDefaultIndexID env c w of (w', i) \<Rightarrow> (w', if i = [] then [] else [i])) else (w, ids))
       in if ids1 = [] then Done (w1, [])
          else case BulkResolveSO env c IndexPattern ids1 w1 of
                 (w2, indexPatterns) \<Rightarrow>
                   if indexPatterns = [] then Done (w2, [])
                   else bind_exec (index_titles indexPatterns) (\<lambda>titles.
                          Done (w2, ke_names env (remdups (filter (\<lambda>t. t \<noteq> []) titles)))))"

section \<open>Elasticsearch\<close>

record EsAggregationKey =
  ak_Host :: bytes
  ak_HostGroup :: "bytes option"

record EsAggregationBucket =
  bk_Key :: EsAggregationKey
  bk_DocsCount :: int

record EsSearchResponse =
  es_Total :: int
  es_AfterKey :: "EsAggregationKey option"
  es_Buckets :: "EsAggregationBucket list"

record EsAggs =
  ag_Size :: int
  ag_Host :: bytes
  ag_HostGroup :: "bytes option"
  ag_After :: "EsAggregationKey option"

record 'k EsSearchBody =
  sb_Query :: "'k EsQuery option"
  sb_Aggs :: "EsAggs option"

definition BuildAggregationsByHostNameAndHostGroup :: "bytes \<Rightarrow> bytes option \<Rightarrow> EsAggs" where
  "BuildAggregationsByHostNameAndHostGroup hostNameField hostGroupField =
     \<lparr>ag_Size = 1000, ag_Host = hostNameField, ag_HostGroup = hostGroupField, ag_After = None\<rparr>"

text \<open>A response of the library: whether it is an error, and its body unless reading it fails.\<close>

record es_response =
  er_IsError :: bool
  er_Body :: "bytes option"

record ('w, 'k) es_env =
  ee_NewClient :: "bytes list \<Rightarrow> bytes \<Rightarrow> bytes \<Rightarrow> error option"
  ee_encode :: "'k EsSearchBody \<Rightarrow> bytes option"
  ee_Search :: "'w \<Rightarrow> bytes list \<Rightarrow> bytes \<Rightarrow> 'w \<times> (error + es_response option)"
  ee_FieldCaps :: "'w \<Rightarrow> bytes list \<Rightarrow> 'w \<times> (error + es_response option)"
  ee_um_error :: "bytes \<Rightarrow> (bytes \<times> jval) list option"
  ee_um_search :: "bytes \<Rightarrow> EsSearchResponse option"
  ee_um_caps :: "bytes \<Rightarrow> (bytes \<times> jval) list option"
  ee_FilterHostsWithLucene :: bytes

record EsClient =
  ec_Addresses :: "bytes list"
  ec_Username :: bytes
  ec_Password :: bytes
  ec_client :: bool \<comment> \<open>not nil\<close>

definition Es_InitClient :: "('w, 'k) es_env \<Rightarrow> EsClient \<Rightarrow> EsClient \<times> error option" where
  "Es_InitClient env c =
     (case ee_NewClient env (ec_Addresses c) (ec_Username c) (ec_Password c) of
        Some e \<Rightarrow> (c, Some e) | None \<Rightarrow> (c\<lparr>ec_client := True\<rparr>, None))"

definition doSearchRequest :: "('w, 'k) es_env \<Rightarrow> EsClient \<Rightarrow> 'k EsSearchBody \<Rightarrow> bytes list \<Rightarrow> 'w \<Rightarrow> 'w \<times> (error + es_response option)" where
  "doSearchRequest env c searchBody indexes w =
     (case (if ec_client c then None else snd (Es_InitClient env c)) of
        Some e \<Rightarrow> (w, Inl e)
      | None \<Rightarrow> (case ee_encode env searchBody of
                    None \<Rightarrow> (w, Inl (Other ''json''))
                  | Some body \<Rightarrow> ee_Search env w indexes body))"

text \<open>The message of an error is taken from its body, whose shape is not checked.\<close>

definition error_details :: "(bytes \<Rightarrow> (bytes \<times> jval) list option) \<Rightarrow> bytes option \<Rightarrow> unit exec" where
  "error_details um body =
     (case Option.bind body um of
        None \<Rightarrow> Done ()
      | Some e \<Rightarrow> (case field e ''error'' of JObj _ \<Rightarrow> Done () | _ \<Rightarrow> Panic TypeAssertion))"

definition parseSearchResponse :: "('w, 'k) es_env \<Rightarrow> es_response option \<Rightarrow> EsSearchResponse option exec" where
  "parseSearchResponse env response =
     (case response of
        None \<Rightarrow> Done None
      | Some r \<Rightarrow> if er_IsError r then bind_exec (error_details (ee_um_error env) (er_Body r)) (\<lambda>_. Done None)
                  else Done (Option.bind (er_Body r) (ee_um_search env)))"

definition getAfterKey :: "EsSearchResponse \<Rightarrow> EsAggregationKey option" where
  "getAfterKey r =
     (case es_AfterKey r of
        Some k \<Rightarrow> Some k
      | None \<Rightarrow> if es_Buckets r \<noteq> [] then Some (bk_Key (last (es_Buckets r))) else None)"

definition response_of :: "error + es_response option \<Rightarrow> es_response option \<times> error option" where
  "response_of r = (case r of Inl e \<Rightarrow> (None, Some e) | Inr x \<Rightarrow> (x, None))"

definition set_after :: "EsAggregationKey \<Rightarrow> 'k EsSearchBody \<Rightarrow> 'k EsSearchBody" where
  "set_after k body = body\<lparr>sb_Aggs := map_option (\<lambda>a. a\<lparr>ag_After := Some k\<rparr>) (sb_Aggs body)\<rparr>"

fun next_pages :: "nat \<Rightarrow> ('w, 'k) es_env \<Rightarrow> EsClient \<Rightarrow> 'k EsSearchBody \<Rightarrow> bytes list \<Rightarrow> EsAggregationKey option \<Rightarrow> 'w \<Rightarrow>
    ('w \<times> EsAggregationBucket list \<times> error option) exec" where
  "next_pages fuel env c body indexes None w = Done (w, [], None)"
| "next_pages 0 env c body indexes (Some k) w = Panic Diverges"
| "next_pages (Suc n) env c body indexes (Some k) w =
     (case doSearchRequest env c (set_after k body) indexes w of (w1, r) \<Rightarrow>
        bind_exec (parseSearchResponse env (fst (response_of r))) (\<lambda>sr.
          case sr of
            None \<Rightarrow> Done (w1, [], snd (response_of r))
          | Some s \<Rightarrow> bind_exec (next_pages n env c body indexes (getAfterKey s) w1) (\<lambda>(w2, bs, err). Done (w2, es_Buckets s @ bs, err))))"

text \<open>All buckets of an aggregation; no list when there was no first answer.\<close>

definition all_buckets :: "nat \<Rightarrow> ('w, 'k) es_env \<Rightarrow> EsClient \<Rightarrow> 'k EsSearchBody \<Rightarrow> bytes list \<Rightarrow> 'w \<Rightarrow>
    ('w \<times> EsAggregationBucket list option \<times> error option) exec" where
  "all_buckets fuel env c body indexes w =
     (case doSearchRequest env c body indexes w of
        (w1, Inl e) \<Rightarrow> Done (w1, None, Some e)
      | (w1, Inr response) \<Rightarrow>
          bind_exec (parseSearchResponse env response) (\<lambda>sr.
            case sr of
              None \<Rightarrow> Done (w1, None, None)
            | Some s \<Rightarrow> bind_exec (next_pages fuel env c body indexes (getAfterKey s) w1) (\<lambda>(w2, bs, err).
                Done (w2, Some (es_Buckets s @ bs), err))))"

definition GetHosts :: "nat \<Rightarrow> ('w, 'k) es_env \<Rightarrow> EsClient \<Rightarrow> bytes \<Rightarrow> bytes option \<Rightarrow> 'w \<Rightarrow>
    ('w \<times> EsAggregationKey list \<times> error option) exec" where
  "GetHosts fuel env c hostField hostGroupField w =
     (let body = \<lparr>sb_Query = (if ee_FilterHostsWithLucene env \<noteq> []
                              then Some \<lparr>eq_Bool = Some (empty_bool\<lparr>eb_Must := [lucene (ee_FilterHostsWithLucene env)]\<rparr>), eq_Str = None\<rparr> else None),
                  sb_Aggs = Some (BuildAggregationsByHostNameAndHostGroup hostField hostGroupField)\<rparr>
      in bind_exec (all_buckets fuel env c body [] w) (\<lambda>(w', bs, err).
           Done (w', (case bs of None \<Rightarrow> [] | Some l \<Rightarrow> map bk_Key l), err)))"

definition CountHits :: "nat \<Rightarrow> ('w, 'k) es_env \<Rightarrow> EsClient \<Rightarrow> bytes \<Rightarrow> bytes list \<Rightarrow> 'k EsQuery \<Rightarrow> 'w \<Rightarrow>
    ('w \<times> (error + (bytes \<times> int) list)) exec" where
  "CountHits fuel env c hostField indexes query w =
     bind_exec (all_buckets fuel env c
       \<lparr>sb_Query = Some query, sb_Aggs = Some (BuildAggregationsByHostNameAndHostGroup hostField None)\<rparr> indexes w) (\<lambda>(w', bs, err).
       Done (w', case err of
                   Some e \<Rightarrow> Inl e
                 | None \<Rightarrow> Inr (case bs of None \<Rightarrow> [] | Some l \<Rightarrow> fold (\<lambda>b. AList.update (ak_Host (bk_Key b)) (bk_DocsCount b)) l [])))"

definition CountHitsForHost :: "('w, 'k) es_env \<Rightarrow> EsClient \<Rightarrow> bytes \<Rightarrow> bytes \<Rightarrow> bytes list \<Rightarrow> 'k EsQuery \<Rightarrow> 'w \<Rightarrow> ('w \<times> (error + int)) exec" where
  "CountHitsForHost env c hostName hostNameField indexes query w =
     bind_exec (copyQuery (Some query)) (\<lambda>q.
     bind_exec (deref q) (\<lambda>queryCopy.
     bind_exec (deref (eq_Bool queryCopy)) (\<lambda>b.
       case doSearchRequest env c
              \<lparr>sb_Query = Some (queryCopy\<lparr>eq_Bool := Some (b\<lparr>eb_Filter := eb_Filter b @ [EA_Json (buildMatchPhraseFilter hostNameField (JStr hostName))]\<rparr>)\<rparr>),
               sb_Aggs = None\<rparr> indexes w of
         (w', Inl e) \<Rightarrow> Done (w', Inl e)
       | (w', Inr response) \<Rightarrow> bind_exec (parseSearchResponse env response) (\<lambda>sr.
           Done (w', Inr (case sr of None \<Rightarrow> 0 | Some s \<Rightarrow> es_Total s))))))"

definition aggregatable :: "(bytes \<times> jval) list \<Rightarrow> bytes \<Rightarrow> bool" where
  "aggregatable caps fieldName =
     (case field caps fieldName of
        JObj fieldCaps \<Rightarrow> list_ex (\<lambda>(_, v). case v of JObj fieldCap \<Rightarrow> field fieldCap ''aggregatable'' = JBool True | _ \<Rightarrow> False) fieldCaps
      | _ \<Rightarrow> False)"

text \<open>The result is a map whose other keys are false; the indexes are not used.\<close>

definition IsAggregatable :: "('w, 'k) es_env \<Rightarrow> EsClient \<Rightarrow> bytes list \<Rightarrow> 'w \<Rightarrow> ('w \<times> (bytes \<Rightarrow> bool) \<times> error option) exec" where
  "IsAggregatable env c fieldNames w =
     (case (if ec_client c then None else snd (Es_InitClient env c)) of
        Some e \<Rightarrow> Done (w, (\<lambda>_. False), Some e)
      | None \<Rightarrow>
          (case ee_FieldCaps env w fieldNames of
             (w', Inl _) \<Rightarrow> Done (w', (\<lambda>_. False), None)
           | (w', Inr None) \<Rightarrow> Done (w', (\<lambda>_. False), None)
           | (w', Inr (Some r)) \<Rightarrow>
               if er_IsError r then bind_exec (error_details (ee_um_error env) (er_Body r)) (\<lambda>_. Done (w', (\<lambda>_. False), None))
               else Done (w', (case Option.bind (er_Body r) (ee_um_caps env) of
                                 None \<Rightarrow> (\<lambda>_. False)
                               | Some caps \<Rightarrow> (\<lambda>f. f \<in> set fieldNames \<and> aggregatable caps f)), None)))"

section \<open>Pages of an aggregation\<close>

text \<open>
  What Elasticsearch documents of a composite aggregation: a page has the next thousand buckets after a key, and its after key is
  the key of its last bucket.
\<close>

definition page_after :: "EsAggregationBucket list \<Rightarrow> EsAggregationKey option \<Rightarrow> EsSearchResponse" where
  "page_after bs after =
     (let rest = (case after of None \<Rightarrow> bs | Some k \<Rightarrow> tl (dropWhile (\<lambda>b. bk_Key b \<noteq> k) bs)); p = take 1000 rest
      in \<lparr>es_Total = 0, es_AfterKey = (if p = [] then None else Some (bk_Key (last p))), es_Buckets = p\<rparr>)"

definition composite_server :: "('w, 'k) es_env \<Rightarrow> EsClient \<Rightarrow> 'k EsSearchBody \<Rightarrow> bytes list \<Rightarrow> EsAggregationBucket list \<Rightarrow> bool" where
  "composite_server env c body indexes bs \<longleftrightarrow>
     (\<forall>w after. \<exists>w' r. doSearchRequest env c (case after of None \<Rightarrow> body | Some k \<Rightarrow> set_after k body) indexes w = (w', Inr r) \<and>
        parseSearchResponse env r = Done (Some (page_after bs after)))"

lemma page_after_last:
  assumes "distinct (map bk_Key (pre @ rest))" "pre \<noteq> []"
  shows "tl (dropWhile (\<lambda>b. bk_Key b \<noteq> bk_Key (last pre)) (pre @ rest)) = rest"
proof -
  obtain xs x where pre: "pre = xs @ [x]" using assms(2) by (metis append_butlast_last_id)
  have "bk_Key x \<notin> bk_Key ` set xs" using assms(1) by (simp add: pre)
  then have "\<forall>b \<in> set xs. bk_Key b \<noteq> bk_Key x" by (metis imageI)
  then have "dropWhile (\<lambda>b. bk_Key b \<noteq> bk_Key x) (xs @ x # rest) = x # rest" by (simp add: dropWhile_append2)
  then show ?thesis by (simp add: pre)
qed

lemma page_after_key: "getAfterKey (page_after bs after) = (let p = es_Buckets (page_after bs after) in if p = [] then None else Some (bk_Key (last p)))"
  by (simp add: getAfterKey_def page_after_def Let_def)

lemma next_pages_all:
  assumes "composite_server env c body indexes (pre @ rest)" "distinct (map bk_Key (pre @ rest))" "pre \<noteq> []" "length rest < fuel"
  shows "\<exists>w'. next_pages fuel env c body indexes (Some (bk_Key (last pre))) w = Done (w', rest, None)"
  using assms
proof (induction fuel arbitrary: pre rest w)
  case (Suc n)
  let ?k = "bk_Key (last pre)" and ?p = "take 1000 rest"
  obtain w1 r where r: "doSearchRequest env c (set_after ?k body) indexes w = (w1, Inr r)"
      "parseSearchResponse env r = Done (Some (page_after (pre @ rest) (Some ?k)))"
    using Suc.prems(1) unfolding composite_server_def by (metis option.simps(5))
  have b: "es_Buckets (page_after (pre @ rest) (Some ?k)) = ?p" using page_after_last[OF Suc.prems(2,3)] by (simp add: page_after_def Let_def)
  have "\<exists>w'. next_pages n env c body indexes (getAfterKey (page_after (pre @ rest) (Some ?k))) w1 = Done (w', drop 1000 rest, None)"
  proof (cases "rest = []")
    case False
    then have len: "length (drop 1000 rest) < n" using Suc.prems(4) by (cases rest) auto
    have "\<exists>w'. next_pages n env c body indexes (Some (bk_Key (last (pre @ ?p)))) w1 = Done (w', drop 1000 rest, None)"
      by (rule Suc.IH) (use Suc.prems len in auto)
    then show ?thesis using False by (simp add: page_after_key b Let_def)
  next
    case True
    then have "getAfterKey (page_after (pre @ rest) (Some ?k)) = None" unfolding page_after_key b Let_def by simp
    then show ?thesis using True by simp
  qed
  then show ?case using r b by (auto simp: response_of_def)
qed simp

lemma all_buckets_complete:
  assumes "composite_server env c body indexes bs" "distinct (map bk_Key bs)" "length bs < fuel"
  shows "\<exists>w'. all_buckets fuel env c body indexes w = Done (w', Some bs, None)"
proof -
  obtain w1 r where r: "doSearchRequest env c body indexes w = (w1, Inr r)" "parseSearchResponse env r = Done (Some (page_after bs None))"
    using assms(1) unfolding composite_server_def by (metis option.simps(4))
  have b: "es_Buckets (page_after bs None) = take 1000 bs" by (simp add: page_after_def Let_def)
  have "\<exists>w'. next_pages fuel env c body indexes (getAfterKey (page_after bs None)) w1 = Done (w', drop 1000 bs, None)"
  proof (cases "bs = []")
    case False
    have "\<exists>w'. next_pages fuel env c body indexes (Some (bk_Key (last (take 1000 bs)))) w1 = Done (w', drop 1000 bs, None)"
      by (rule next_pages_all) (use assms False in auto)
    then show ?thesis using False by (simp add: page_after_key b Let_def)
  next
    case True
    then have "getAfterKey (page_after bs None) = None" unfolding page_after_key b Let_def by simp
    then show ?thesis using True by simp
  qed
  then show ?thesis using r b by (auto simp: all_buckets_def)
qed

text \<open>Counting reads all pages: every host gets the count of its bucket.\<close>

lemma counts_of_buckets:
  assumes "distinct (map (ak_Host \<circ> bk_Key) bs)" "b \<in> set bs"
  shows "map_of (fold (\<lambda>b. AList.update (ak_Host (bk_Key b)) (bk_DocsCount b)) bs acc) (ak_Host (bk_Key b)) = Some (bk_DocsCount b)"
  using assms
proof (induction bs rule: rev_induct)
  case (snoc x bs)
  show ?case
  proof (cases "b = x")
    case False
    then have "b \<in> set bs" using snoc.prems(2) by auto
    moreover have "(ak_Host \<circ> bk_Key) x \<notin> (ak_Host \<circ> bk_Key) ` set bs" using snoc.prems(1) by simp
    then have "ak_Host (bk_Key b) \<noteq> ak_Host (bk_Key x)" using calculation by (metis comp_apply imageI)
    ultimately show ?thesis using snoc by (simp add: update_conv')
  qed (simp add: update_conv')
qed simp

text \<open>
  C29. Against a server that gives its buckets in pages of a thousand, each after the key of the last bucket before, and that has one
  bucket for each host, the loop over the pages ends with the count of every host: it needs at most one turn for each bucket.
\<close>

theorem CountHits_complete:
  assumes "composite_server env c \<lparr>sb_Query = Some query, sb_Aggs = Some (BuildAggregationsByHostNameAndHostGroup hostField None)\<rparr> indexes bs"
    and "distinct (map (ak_Host \<circ> bk_Key) bs)" "length bs < fuel"
  shows "\<exists>w' counts. CountHits fuel env c hostField indexes query w = Done (w', Inr counts) \<and>
    (\<forall>b \<in> set bs. map_of counts (ak_Host (bk_Key b)) = Some (bk_DocsCount b))"
proof -
  have "distinct (map bk_Key bs)" using assms(2) by (auto simp: distinct_map inj_on_def)
  from all_buckets_complete[OF assms(1) this assms(3), of w] obtain w' where "all_buckets fuel env c
      \<lparr>sb_Query = Some query, sb_Aggs = Some (BuildAggregationsByHostNameAndHostGroup hostField None)\<rparr> indexes w = Done (w', Some bs, None)" ..
  then show ?thesis using counts_of_buckets[OF assms(2)] by (simp add: CountHits_def)
qed

section \<open>Pages of saved objects\<close>

text \<open>A server of Kibana that has some objects.\<close>

definition kibana_pages :: "'w kibana_env \<Rightarrow> KibanaClient \<Rightarrow> bytes \<Rightarrow> bytes \<Rightarrow> bytes list \<Rightarrow> KSavedObject list \<Rightarrow> bool" where
  "kibana_pages env c ty fld vals objs \<longleftrightarrow>
     (\<forall>w n. \<exists>w' r. kibana_ask env c ''GET'' (buildFindSOPath env c (int n + 1) perPage ty fld vals) None w = (w', Some r) \<and>
        ke_um_objects env r = Some \<lparr>sr_Total = int (length objs), sr_SavedObjects = take 1000 (drop (1000 * n) objs)\<rparr>)"

lemma find_pages_rest:
  assumes "kibana_pages env c ty fld vals objs" "length objs div 1000 \<le> n + fuel"
  shows "\<exists>w'. find_pages fuel env c ty fld vals (int n + 1) (int (length objs)) (take (1000 * n) objs) w =
    Done (w', take (1000 * max n (length objs div 1000)) objs)"
  using assms(2)
proof (induction fuel arbitrary: n w)
  case 0
  then have "int (length objs) < (int n + 1) * perPage" by (simp add: perPage_def)
  then show ?case using 0 by (subst find_pages.simps) (simp add: max_absorb1)
next
  case (Suc f)
  obtain w1 r where r: "kibana_ask env c ''GET'' (buildFindSOPath env c (int n + 1) perPage ty fld vals) None w = (w1, Some r)"
      "ke_um_objects env r = Some \<lparr>sr_Total = int (length objs), sr_SavedObjects = take 1000 (drop (1000 * n) objs)\<rparr>"
    using assms(1) unfolding kibana_pages_def by metis
  show ?case
  proof (cases "length objs div 1000 \<le> n")
    case True
    then have "int (length objs) < (int n + 1) * perPage" by (simp add: perPage_def)
    then show ?thesis using True by (subst find_pages.simps) (simp add: max_absorb1)
  next
    case False
    then have "\<not> int (length objs) < (int n + 1) * perPage" by (simp add: perPage_def)
    moreover have "take (1000 * n) objs @ take 1000 (drop (1000 * n) objs) = take (1000 * Suc n) objs"
      by (simp add: take_add add.commute flip: take_add)
    moreover obtain w' where "find_pages f env c ty fld vals (int (Suc n) + 1) (int (length objs)) (take (1000 * Suc n) objs) w1 =
        Done (w', take (1000 * max (Suc n) (length objs div 1000)) objs)"
      using Suc.IH[of "Suc n" w1] Suc.prems by auto
    moreover have "max (Suc n) (length objs div 1000) = max n (length objs div 1000)" using False by simp
    ultimately show ?thesis using r by (subst find_pages.simps) (simp add: add.commute)
  qed
qed

text \<open>
  Of the saved objects, those after the last full thousand are never asked for, unless they are on the first page: 1999 stored queries
  are the first 1000.
\<close>

theorem FindSO_full_pages:
  assumes "kibana_pages env c ty fld vals objs" "length objs div 1000 < fuel"
  shows "\<exists>w'. FindSO fuel env c ty fld vals w = Done (w', take (1000 * max 1 (length objs div 1000)) objs)"
proof -
  obtain f where f: "fuel = Suc f" using assms(2) by (cases fuel) auto
  obtain w1 r where r: "kibana_ask env c ''GET'' (buildFindSOPath env c 1 perPage ty fld vals) None w = (w1, Some r)"
      "ke_um_objects env r = Some \<lparr>sr_Total = int (length objs), sr_SavedObjects = take 1000 objs\<rparr>"
    using spec[OF spec[OF assms(1)[unfolded kibana_pages_def], of w], of 0] by auto
  have "length objs div 1000 \<le> 1 + f" using assms(2) f by simp
  from find_pages_rest[OF assms(1) this, where w = w1] show ?thesis
    unfolding FindSO_def f by (subst find_pages.simps) (simp add: r)
qed

section \<open>Hosts that cannot be aggregated\<close>

text \<open>Counting for a single host panics, whatever the query: the copy of the query has no \<open>Bool\<close>.\<close>

lemma CountHitsForHost_panic:
  "CountHitsForHost env c hostName hostNameField indexes query w = Panic NilDereference"
  by (cases "eq_Bool query") (auto simp: CountHitsForHost_def copyQuery_def)

section \<open>Witnesses\<close>

subsection \<open>A server with one host\<close>

definition demo_bucket :: EsAggregationBucket where
  "demo_bucket = \<lparr>bk_Key = \<lparr>ak_Host = ''web1'', ak_HostGroup = None\<rparr>, bk_DocsCount = 7\<rparr>"

definition demo_es :: "(unit, bytes) es_env" where
  "demo_es = \<lparr>ee_NewClient = (\<lambda>_ _ _. None),
     ee_encode = (\<lambda>b. Some (case sb_Aggs b of None \<Rightarrow> [] | Some a \<Rightarrow> if ag_After a = None then ''first'' else ''next'')),
     ee_Search = (\<lambda>w _ body. (w, Inr (Some \<lparr>er_IsError = False, er_Body = Some body\<rparr>))),
     ee_FieldCaps = (\<lambda>w _. (w, Inr None)), ee_um_error = (\<lambda>_. None),
     ee_um_search = (\<lambda>b. Some (if b = ''first'' then page_after [demo_bucket] None else \<lparr>es_Total = 0, es_AfterKey = None, es_Buckets = []\<rparr>)),
     ee_um_caps = (\<lambda>_. None), ee_FilterHostsWithLucene = []\<rparr>"

definition demo_client :: EsClient where
  "demo_client = \<lparr>ec_Addresses = [], ec_Username = [], ec_Password = [], ec_client = True\<rparr>"

definition demo_es_query :: "bytes EsQuery" where
  "demo_es_query = \<lparr>eq_Bool = Some empty_bool, eq_Str = None\<rparr>"

theorem CountHits_complete_witness:
  "\<exists>w' counts. CountHits 2 demo_es demo_client ''host'' [] demo_es_query () = Done (w', Inr counts) \<and> map_of counts ''web1'' = Some 7"
proof -
  have "page_after [demo_bucket] (Some k) = \<lparr>es_Total = 0, es_AfterKey = None, es_Buckets = []\<rparr>" for k by (simp add: page_after_def)
  then have "composite_server demo_es demo_client
      \<lparr>sb_Query = Some demo_es_query, sb_Aggs = Some (BuildAggregationsByHostNameAndHostGroup ''host'' None)\<rparr> [] [demo_bucket]"
    unfolding composite_server_def
    by (auto simp: doSearchRequest_def demo_client_def demo_es_def parseSearchResponse_def set_after_def BuildAggregationsByHostNameAndHostGroup_def
        split: option.split)
  from CountHits_complete[OF this, of 2 "()"] show ?thesis by (simp add: demo_bucket_def)
qed

subsection \<open>A server with 1500 objects\<close>

lemma QueryEscape_digits: "QueryEscape (format_nat n) = format_nat n"
proof -
  have "url_unreserved c" if "c \<in> set (format_nat n)" for c
    using set_format_nat[OF that] by (auto simp: url_unreserved_def digit_char_def)
  then have "set s \<subseteq> set (format_nat n) \<Longrightarrow> QueryEscape s = s" for s by (induction s) auto
  then show ?thesis by simp
qed

definition demo_objects :: "KSavedObject list" where
  "demo_objects = map (\<lambda>i. \<lparr>so_Type = StoredQuery, so_ID = format_nat i, so_Attributes = None\<rparr>) [0..<1500]"

definition demo_kibana_client :: KibanaClient where
  "demo_kibana_client = \<lparr>kc_APIRoot = [], kc_Username = [], kc_Password = [], kc_headers = []\<rparr>"

definition demo_page :: "nat \<Rightarrow> bytes" where
  "demo_page n = ''api/saved_objects/_find?type=query&page='' @ format_nat n @ ''&per_page=1000'' @ ''&fields=filters&fields=title&fields=typeMeta&fields=query''"

definition demo_kibana :: "unit kibana_env" where
  "demo_kibana = \<lparr>ke_sys = \<lparr>sys_keepAlive = True, sys_GOOS = [], sys_strerror = (\<lambda>_. [])\<rparr>, ke_http = (\<lambda>w r. (w, Inr (200, hr_URL r))),
     ke_um_default = (\<lambda>_. None),
     ke_um_objects = (\<lambda>b. Some \<lparr>sr_Total = 1500, sr_SavedObjects =
       (if b = demo_page 1 then take 1000 demo_objects else if b = demo_page 2 then drop 1000 demo_objects else [])\<rparr>),
     ke_um_get = (\<lambda>_. None), ke_um_resolve = (\<lambda>_. None), ke_ma_bulk = (\<lambda>_. None), ke_params = id, ke_names = id\<rparr>"

lemma demo_page_path: "buildFindSOPath demo_kibana demo_kibana_client (int n + 1) perPage StoredQuery Title [] = demo_page (Suc n)"
proof -
  have e: "FormatInt (int n + 1) = format_nat (Suc n)" by (simp add: FormatInt_def) (metis nat_int of_nat_Suc add.commute)
  have "FormatInt 1000 = ''1000''" "QueryEscape ''query'' = ''query''" "QueryEscape ''type'' = ''type''" "QueryEscape ''page'' = ''page''"
      "QueryEscape ''per_page'' = ''per_page''" "QueryEscape ''1000'' = ''1000''"
    by code_simp+
  then show ?thesis
    by (simp add: buildFindSOPath_def demo_kibana_def demo_kibana_client_def perPage_def StoredQuery_def BuildQueryParams_def appendSeparator_def e
        QueryEscape_digits demo_page_def)
qed

theorem FindSO_full_pages_witness:
  "length demo_objects = 1500 \<and> FindSO 2 demo_kibana demo_kibana_client StoredQuery Title [] () = Done ((), take 1000 demo_objects)"
proof -
  have len: "length demo_objects = 1500" by (simp add: demo_objects_def)
  have inj: "demo_page m = demo_page n \<longleftrightarrow> m = n" for m n using format_nat_inj by (auto simp: demo_page_def)
  have "kibana_pages demo_kibana demo_kibana_client StoredQuery Title [] demo_objects"
    unfolding kibana_pages_def demo_page_path
  proof (intro allI)
    fix w :: unit and n
    have "take 1000 (drop (1000 * n) demo_objects) =
        (if Suc n = 1 then take 1000 demo_objects else if Suc n = 2 then drop 1000 demo_objects else [])"
      using len by (cases n) (auto simp: numeral_2_eq_2)
    then show "\<exists>w' r. kibana_ask demo_kibana demo_kibana_client ''GET'' (demo_page (Suc n)) None w = (w', Some r) \<and>
        ke_um_objects demo_kibana r = Some \<lparr>sr_Total = int (length demo_objects), sr_SavedObjects = take 1000 (drop (1000 * n) demo_objects)\<rparr>"
      by (simp add: kibana_ask_def SendRequestWithContext_def SendWithContext_def make_request_def zero_Req_def demo_kibana_def len inj)
        (simp add: demo_page_def)
  qed
  from FindSO_full_pages[OF this, of 2 "()"] show ?thesis by (auto simp: len)
qed

end
