(* ===== verification/Transit_Profile.thy ===== *)
theory Transit_Profile
  imports Transit_Model
begin

text \<open>
  What a connector is configured with, \<^verbatim>\<open>sdk/transit/transit.go\<close>: metric definitions, profiles and the connection to the
  monitored system.  The extensions of a connection have the type the connector gives them, so the record has a parameter.
\<close>

section \<open>Definitions of metrics\<close>

record MetricDefinition =
  md_Name :: bytes
  md_CustomName :: bytes
  md_Description :: bytes
  md_Monitored :: bool
  md_Graphed :: bool
  md_MetricType :: bytes
  md_ComputeType :: bytes
  md_ServiceType :: bytes
  md_SourceType :: bytes
  md_AggregateType :: bytes
  md_WarningThreshold :: int
  md_CriticalThreshold :: int
  md_Expression :: bytes
  md_Format :: bytes

definition zero_MetricDefinition :: MetricDefinition where
  "zero_MetricDefinition = \<lparr>md_Name = [], md_CustomName = [], md_Description = [], md_Monitored = False, md_Graphed = False,
     md_MetricType = [], md_ComputeType = [], md_ServiceType = [], md_SourceType = [], md_AggregateType = [],
     md_WarningThreshold = 0, md_CriticalThreshold = 0, md_Expression = [], md_Format = []\<rparr>"

definition MetricDefinition_String :: "MetricDefinition \<Rightarrow> bytes" where
  "MetricDefinition_String d =
     ''['' @ Join [md_Name d, md_CustomName d, md_Description d, FormatBool (md_Monitored d), FormatBool (md_Graphed d),
        md_MetricType d, md_ComputeType d, md_ServiceType d, md_SourceType d, md_AggregateType d,
        FormatInt (md_WarningThreshold d), FormatInt (md_CriticalThreshold d), md_Expression d, md_Format d] '', '' @ '']''"

definition MetricKindUnspecified :: bytes where "MetricKindUnspecified = ''METRIC_KIND_UNSPECIFIED''"
definition Gauge :: bytes where "Gauge = ''GAUGE''"
definition Delta :: bytes where "Delta = ''DELTA''"
definition Cumulative :: bytes where "Cumulative = ''CUMULATIVE''"

section \<open>Profiles and connections\<close>

record MetricsProfile =
  mp_Name :: bytes
  mp_ProfileType :: bytes
  mp_IsTemplate :: bool
  mp_Metrics :: "MetricDefinition list"

text \<open>A slice of printable values is printed in brackets, with blanks between the values.\<close>

definition MetricsProfile_String :: "MetricsProfile \<Rightarrow> bytes" where
  "MetricsProfile_String p =
     ''['' @ Join [mp_Name p, mp_ProfileType p, FormatBool (mp_IsTemplate p),
        ''['' @ Join (map MetricDefinition_String (mp_Metrics p)) '' '' @ '']''] '', '' @ '']''"

record View =
  vw_Name :: bytes
  vw_DisplayName :: bytes
  vw_Enabled :: bool
  vw_Extensions :: "bytes \<rightharpoonup> go_any"

record 'e MonitorConnection =
  mc_ID :: int
  mc_Server :: bytes
  mc_UserName :: bytes
  mc_Password :: bytes
  mc_SslEnabled :: bool
  mc_URL :: bytes
  mc_Views :: "View list"
  mc_Extensions :: 'e
  mc_ConnectorID :: int

definition new_MonitorConnection :: "'e \<Rightarrow> 'e MonitorConnection" where
  "new_MonitorConnection ext = \<lparr>mc_ID = 0, mc_Server = [], mc_UserName = [], mc_Password = [], mc_SslEnabled = False,
     mc_URL = [], mc_Views = [], mc_Extensions = ext, mc_ConnectorID = 0\<rparr>"

definition zero_MetricsProfile :: MetricsProfile where
  "zero_MetricsProfile = \<lparr>mp_Name = [], mp_ProfileType = [], mp_IsTemplate = False, mp_Metrics = []\<rparr>"

text \<open>Ownership of hosts.\<close>

definition Creator :: bytes where "Creator = ''Creator''"
definition Take :: bytes where "Take = ''Take''"
definition Yield :: bytes where "Yield = ''Yield''"

end
