(* ===== verification/Elastic_Model.thy ===== *)
theory Elastic_Model
  imports Elastic_Clients Gw_Client Transit_Profile
begin

text \<open>
  The monitored hosts of the Elastic connector, \<^verbatim>\<open>connectors/elastic/model.go\<close>: where they come from, the counts of their services, and
  what is sent of them.  Maps are association lists with different keys; \<open>orders\<close> are the orders in which they are visited.
\<close>

section \<open>State\<close>

record monitoringService =
  mv_name :: bytes
  mv_hits :: int
  mv_timeInterval :: "TimeInterval option"

record monitoringHost =
  mh_name :: bytes
  mh_services :: "(bytes \<times> monitoringService) list"
  mh_hostGroups :: "bytes list"

type_synonym metric_map = "(bytes \<times> MetricDefinition) list"

record MonitoringState =
  mt_Metrics :: metric_map
  mt_Hosts :: "(bytes \<times> monitoringHost) list"
  mt_HostGroups :: "(bytes \<times> bytes list) list" \<comment> \<open>the sets of the names of hosts\<close>

record Kibana =
  ki_ServerName :: bytes
  ki_Username :: bytes
  ki_Password :: bytes

record elastic_ExtConfig =
  ex_Kibana :: Kibana
  ex_Servers :: "bytes list"
  ex_CustomTimeFilter :: KTimeFilter
  ex_OverrideTimeFilter :: bool
  ex_FilterHostsWithLucene :: bytes
  ex_HostNameField :: bytes
  ex_HostGroupField :: bytes
  ex_GroupNameByUser :: bool
  ex_CheckInterval :: duration
  ex_AppName :: bytes
  ex_AppType :: bytes
  ex_AgentID :: bytes
  ex_GWConnections :: "GWConnection list"
  ex_Ownership :: bytes
  ex_Views :: "(bytes \<times> metric_map) list"

record elastic_orders =
  eo_hosts :: "(bytes \<times> monitoringHost) list \<Rightarrow> (bytes \<times> monitoringHost) list"
  eo_services :: "(bytes \<times> monitoringService) list \<Rightarrow> (bytes \<times> monitoringService) list"
  eo_views :: "(bytes \<times> metric_map) list \<Rightarrow> (bytes \<times> metric_map) list"
  eo_groups :: "(bytes \<times> bytes list) list \<Rightarrow> (bytes \<times> bytes list) list"
  eo_counts :: "(bytes \<times> int) list \<Rightarrow> (bytes \<times> int) list"
  eo_metrics :: "metric_map \<Rightarrow> metric_map"

section \<open>Hosts known to Groundwork\<close>

text \<open>The decoders give the names of the hosts of the services, and the groups with the names of their hosts.\<close>

record 'w gw_lookup =
  gl_env :: "'w net_env"
  gl_um_services :: "bytes \<Rightarrow> error + bytes list"
  gl_um_groups :: "bytes \<Rightarrow> error + (bytes \<times> bytes list) list"

fun add_gw_hosts :: "bytes list \<Rightarrow> (bytes \<times> monitoringHost) list \<Rightarrow> bytes list \<Rightarrow> (bytes \<times> monitoringHost) list \<times> bytes list" where
  "add_gw_hosts [] gwHosts hostNames = (gwHosts, hostNames)"
| "add_gw_hosts (n # ns) gwHosts hostNames =
     (if map_of gwHosts n \<noteq> None then add_gw_hosts ns gwHosts hostNames
      else add_gw_hosts ns (AList.update n \<lparr>mh_name = n, mh_services = [], mh_hostGroups = []\<rparr> gwHosts) (hostNames @ [n]))"

definition add_gw_group :: "bytes \<Rightarrow> bytes \<Rightarrow> (bytes \<times> monitoringHost) list \<Rightarrow> (bytes \<times> monitoringHost) list" where
  "add_gw_group grp n gwHosts =
     (case map_of gwHosts n of
        None \<Rightarrow> gwHosts
      | Some host \<Rightarrow> AList.update n (host\<lparr>mh_hostGroups := mh_hostGroups host @ [grp]\<rparr>) gwHosts)"

fun initGwHosts :: "'w gw_lookup \<Rightarrow> bytes \<Rightarrow> bytes \<Rightarrow> bytes \<Rightarrow> GWConnection list \<Rightarrow> (bytes \<times> monitoringHost) list \<Rightarrow> 'w net \<Rightarrow>
    'w net \<times> (bytes \<times> monitoringHost) list" where
  "initGwHosts gl agentID appName appType [] gwHosts st = (st, gwHosts)"
| "initGwHosts gl agentID appName appType (conn # conns) gwHosts st =
     (let gwClient = \<lparr>gc_AppName = appName, gc_AppType = appType, gc_GWConnection = conn\<rparr>
      in case GetServicesByAgent (gl_env gl) (gl_um_services gl) gwClient agentID st of
           (st1, Inl _) \<Rightarrow> initGwHosts gl agentID appName appType conns gwHosts st1
         | (st1, Inr names) \<Rightarrow>
             (case add_gw_hosts names gwHosts [] of (gwHosts1, hostNames) \<Rightarrow>
                if hostNames = [] then initGwHosts gl agentID appName appType conns gwHosts1 st1
                else case GetHostGroupsByAppTypeAndHostNames (gl_env gl) (gl_um_groups gl) gwClient appType hostNames st1 of
                       (st2, Inl _) \<Rightarrow> initGwHosts gl agentID appName appType conns gwHosts1 st2
                     | (st2, Inr groups) \<Rightarrow>
                         initGwHosts gl agentID appName appType conns
                           (fold (\<lambda>(grp, hosts). fold (add_gw_group grp) hosts) groups gwHosts1) st2))"

section \<open>Hosts known to Elasticsearch\<close>

definition keyword :: "bytes \<Rightarrow> bytes" where
  "keyword f = f @ ''.keyword''"

definition add_es_host :: "bool \<Rightarrow> bytes \<Rightarrow> EsAggregationKey \<Rightarrow> (bytes \<times> monitoringHost) list \<Rightarrow> (bytes \<times> monitoringHost) list" where
  "add_es_host groupNameByUser hostGroupField key esHosts =
     (case map_of esHosts (ak_Host key) of
        Some esHost \<Rightarrow>
          (case ak_HostGroup key of
             Some g \<Rightarrow> if groupNameByUser then esHosts
                       else AList.update (ak_Host key) (esHost\<lparr>mh_hostGroups := mh_hostGroups esHost @ [g]\<rparr>) esHosts
           | None \<Rightarrow> esHosts)
      | None \<Rightarrow>
          AList.update (ak_Host key) \<lparr>mh_name = ak_Host key, mh_services = [], mh_hostGroups =
            (if groupNameByUser then [hostGroupField] else case ak_HostGroup key of Some g \<Rightarrow> [g] | None \<Rightarrow> [])\<rparr> esHosts)"

definition on_world :: "('w \<Rightarrow> ('w \<times> 'a) exec) \<Rightarrow> 'w net \<Rightarrow> ('w net \<times> 'a) exec" where
  "on_world f st = bind_exec (f (net_world st)) (\<lambda>(w, x). Done (st\<lparr>net_world := w\<rparr>, x))"

text \<open>
  The fields are asked for as they are and, when one of them cannot be aggregated, with the suffix of keywords; the configuration
  keeps the names that were found.
\<close>

definition initEsHosts :: "nat \<Rightarrow> ('w, 'k) es_env \<Rightarrow> EsClient \<Rightarrow> elastic_ExtConfig \<Rightarrow> 'w net \<Rightarrow>
    ('w net \<times> elastic_ExtConfig \<times> (bytes \<times> monitoringHost) list) exec" where
  "initEsHosts fuel env c cfg st =
     (let groupField = (if ex_GroupNameByUser cfg then None else Some (ex_HostGroupField cfg));
          fieldNames = [ex_HostNameField cfg] @ (case groupField of None \<Rightarrow> [] | Some g \<Rightarrow> [g])
      in bind_exec (on_world (IsAggregatable env c fieldNames) st) (\<lambda>(st1, agg, err).
        if err \<noteq> None then Done (st1, cfg, [])
        else
          let bad = (\<lambda>f. \<not> agg f \<and> \<not> HasSuffix f ''.keyword'');
              hostField = (if bad (ex_HostNameField cfg) then keyword (ex_HostNameField cfg) else ex_HostNameField cfg);
              groupField1 = map_option (\<lambda>g. if bad g then keyword g else g) groupField;
              allAgg = (\<not> bad (ex_HostNameField cfg) \<and> (case groupField of None \<Rightarrow> True | Some g \<Rightarrow> \<not> bad g))
          in bind_exec (if allAgg then Done (st1, True)
                        else bind_exec (on_world (IsAggregatable env c ([hostField] @ (case groupField1 of None \<Rightarrow> [] | Some g \<Rightarrow> [g]))) st1) (\<lambda>(st2, agg2, _).
                          Done (st2, agg2 hostField \<and> (case groupField1 of None \<Rightarrow> True | Some g \<Rightarrow> agg2 g)))) (\<lambda>(st2, ok).
            if \<not> ok then Done (st2, cfg, [])
            else
              let cfg1 = cfg\<lparr>ex_HostNameField := hostField,
                            ex_HostGroupField := (case groupField1 of Some g \<Rightarrow> g | None \<Rightarrow> ex_HostGroupField cfg)\<rparr>
              in bind_exec (on_world (GetHosts fuel env c hostField groupField1) st2) (\<lambda>(st3, keys, _).
                   Done (st3, cfg1, fold (add_es_host (ex_GroupNameByUser cfg) (ex_HostGroupField cfg1)) keys [])))))"

section \<open>The state of a collection\<close>

definition add_monitored :: "bytes \<times> MetricDefinition \<Rightarrow> metric_map \<Rightarrow> metric_map" where
  "add_monitored p m = (if md_Monitored (snd p) then AList.update (fst p) (snd p) m else m)"

definition monitored_metrics :: "elastic_orders \<Rightarrow> elastic_ExtConfig \<Rightarrow> metric_map" where
  "monitored_metrics ord cfg = fold (\<lambda>(_, metrics). fold add_monitored metrics) (eo_views ord (ex_Views cfg)) []"

definition put_hosts :: "(bytes \<times> monitoringHost) list \<Rightarrow> (bytes \<times> monitoringHost) list \<Rightarrow> (bytes \<times> monitoringHost) list" where
  "put_hosts hs hosts = fold (\<lambda>(_, h). AList.update (mh_name h) h) hs hosts"

definition nullify :: "metric_map \<Rightarrow> monitoringHost \<Rightarrow> monitoringHost" where
  "nullify metrics host = host\<lparr>mh_services := map (\<lambda>(n, _). (n, \<lparr>mv_name = n, mv_hits = 0, mv_timeInterval = None\<rparr>)) metrics\<rparr>"

text \<open>Hosts of Groundwork are read once in the life of the process; the flag is the one of \<^verbatim>\<open>sync.Once\<close>.\<close>

definition initMonitoringState :: "nat \<Rightarrow> ('w, 'k) es_env \<Rightarrow> 'w gw_lookup \<Rightarrow> elastic_orders \<Rightarrow> elastic_ExtConfig \<Rightarrow> MonitoringState \<Rightarrow> EsClient \<Rightarrow>
    bool \<Rightarrow> 'w net \<Rightarrow> ('w net \<times> elastic_ExtConfig \<times> MonitoringState) exec" where
  "initMonitoringState fuel env gl ord cfg previousState esClient onceDone st =
     (let metrics = monitored_metrics ord cfg;
          (st1, hosts0) = (if onceDone \<or> ex_GWConnections cfg = [] then (st, [])
                           else initGwHosts gl (ex_AgentID cfg) (ex_AppName cfg) (ex_AppType cfg) (ex_GWConnections cfg) [] st);
          hosts1 = put_hosts (eo_hosts ord (mt_Hosts previousState)) hosts0
      in bind_exec (initEsHosts fuel env esClient cfg st1) (\<lambda>(st2, cfg1, esHosts).
           let hosts2 = put_hosts (eo_hosts ord esHosts) hosts1
           in Done (st2, cfg1, \<lparr>mt_Metrics = metrics, mt_Hosts = put_hosts (map (\<lambda>(n, h). (n, nullify metrics h)) (eo_hosts ord hosts2)) hosts2,
                     mt_HostGroups = []\<rparr>)))"

definition update_host :: "bytes \<Rightarrow> TimeInterval option \<Rightarrow> bytes \<times> int \<Rightarrow> (bytes \<times> monitoringHost) list \<Rightarrow> (bytes \<times> monitoringHost) list" where
  "update_host serviceName timeInterval p hosts =
     (case map_of hosts (fst p) of
        None \<Rightarrow> hosts
      | Some host \<Rightarrow>
          (case map_of (mh_services host) serviceName of
             None \<Rightarrow> hosts
           | Some service \<Rightarrow>
               AList.update (fst p) (host\<lparr>mh_services := AList.update serviceName
                 (service\<lparr>mv_hits := snd p, mv_timeInterval := (if mv_timeInterval service = None then timeInterval else mv_timeInterval service)\<rparr>)
                 (mh_services host)\<rparr>) hosts))"

definition updateHosts :: "elastic_orders \<Rightarrow> (bytes \<times> int) list \<Rightarrow> bytes \<Rightarrow> TimeInterval option \<Rightarrow> MonitoringState \<Rightarrow> MonitoringState" where
  "updateHosts ord values serviceName timeInterval s =
     s\<lparr>mt_Hosts := fold (update_host serviceName timeInterval) (eo_counts ord values) (mt_Hosts s)\<rparr>"

section \<open>What is sent\<close>

definition query_message :: bytes where
  "query_message = ''Query matched {value} messages in the last {interval}.''"

definition initStatusMessages :: "(bytes \<times> bytes) list" where
  "initStatusMessages = [(ServiceOk, query_message), (ServiceWarning, query_message), (ServiceUnscheduledCritical, query_message),
     (ServiceScheduledCritical, query_message), (ServicePending, ''Service Pending.''), (ServiceUnknown, ''Service Unknown.'')]"

definition status_messages :: "bytes \<Rightarrow> bytes \<rightharpoonup> bytes" where
  "status_messages intervalReplacement =
     map_of (map (\<lambda>(st, m). (st, if Contains m ''{interval}'' \<and> intervalReplacement \<noteq> [] then ReplaceAll m ''{interval}'' intervalReplacement else m))
       initStatusMessages)"

definition service_builder :: "bytes \<Rightarrow> monitoringService \<Rightarrow> MetricDefinition \<Rightarrow> MetricBuilder" where
  "service_builder serviceName service d =
     \<lparr>mb_Name = serviceName, mb_CustomName = md_CustomName d, mb_ComputeType = md_ComputeType d, mb_Expression = md_Expression d,
      mb_Value = A_int (word_of_int (mv_hits service)), mb_UnitType = Some (MA_UnitType UnitCounter),
      mb_Warning = Some (A_int (word_of_int (md_WarningThreshold d))), mb_Critical = Some (A_int (word_of_int (md_CriticalThreshold d))),
      mb_StartTimestamp = Option.bind (mv_timeInterval service) ti_StartTime, mb_EndTimestamp = Option.bind (mv_timeInterval service) ti_EndTime,
      mb_Graphed = md_Graphed d, mb_Tags = Map.empty\<rparr>"

definition interval_text :: "monitoringService \<Rightarrow> bytes exec" where
  "interval_text service =
     (case mv_timeInterval service of
        None \<Rightarrow> Done []
      | Some ti \<Rightarrow> bind_exec (deref (ti_EndTime ti)) (\<lambda>endTime. bind_exec (deref (ti_StartTime ti)) (\<lambda>startTime.
          Done (FormatTimeForStatusMessage (wrap64 (endTime - startTime)) Minute))))"

fun elastic_services :: "(bytes \<Rightarrow> f64 option) \<Rightarrow> timestamp \<Rightarrow> duration \<Rightarrow> bytes \<Rightarrow> metric_map \<Rightarrow> (bytes \<times> monitoringService) list \<Rightarrow>
    (MonitoredService list \<times> InventoryService list) exec" where
  "elastic_services hex timeNow ci host defs [] = Done ([], [])"
| "elastic_services hex timeNow ci host defs ((serviceName, service) # rest) =
     (case map_of defs serviceName of
        None \<Rightarrow> elastic_services hex timeNow ci host defs rest
      | Some d \<Rightarrow>
          bind_exec (interval_text service) (\<lambda>txt.
          bind_exec (BuildServiceForMetricWithStatusText hex timeNow ci host (service_builder serviceName service d) (status_messages txt)) (\<lambda>r.
          bind_exec (elastic_services hex timeNow ci host defs rest) (\<lambda>(mss, iss).
            Done ((case r of Inl _ \<Rightarrow> [] | Inr s \<Rightarrow> [s]) @ mss, CreateInventoryService (Name serviceName (md_CustomName d)) host # iss)))))"

fun transit_resources :: "(bytes \<Rightarrow> f64 option) \<Rightarrow> timestamp \<Rightarrow> duration \<Rightarrow> elastic_orders \<Rightarrow> metric_map \<Rightarrow> (bytes \<times> monitoringHost) list \<Rightarrow>
    (MonitoredResource list \<times> InventoryResource list) exec" where
  "transit_resources hex timeNow ci ord defs [] = Done ([], [])"
| "transit_resources hex timeNow ci ord defs ((_, host) # rest) =
     bind_exec (elastic_services hex timeNow ci (mh_name host) defs (eo_services ord (mh_services host))) (\<lambda>(mss, iss).
     bind_exec (transit_resources hex timeNow ci ord defs rest) (\<lambda>(mrs, irs).
       Done ((case CreateResource timeNow ci (mh_name host) [RA_Services mss] of Inl _ \<Rightarrow> [] | Inr r \<Rightarrow> [r]) @ mrs,
             CreateInventoryResource (mh_name host) iss # irs)))"

definition toTransitResources :: "(bytes \<Rightarrow> f64 option) \<Rightarrow> timestamp \<Rightarrow> duration \<Rightarrow> elastic_orders \<Rightarrow> MonitoringState \<Rightarrow>
    (MonitoredResource list \<times> InventoryResource list) exec" where
  "toTransitResources hex timeNow ci ord s = transit_resources hex timeNow ci ord (mt_Metrics s) (eo_hosts ord (mt_Hosts s))"

definition add_to_group :: "bytes \<Rightarrow> bytes \<Rightarrow> (bytes \<times> bytes list) list \<Rightarrow> (bytes \<times> bytes list) list" where
  "add_to_group hostName groupName groups =
     (if groupName = [] then groups
      else case map_of groups groupName of
             None \<Rightarrow> AList.update groupName [hostName] groups
           | Some hosts \<Rightarrow> AList.update groupName (if hostName \<in> set hosts then hosts else hosts @ [hostName]) groups)"

definition buildGroups :: "elastic_orders \<Rightarrow> MonitoringState \<Rightarrow> MonitoringState \<times> (bytes \<times> bytes list) list" where
  "buildGroups ord s =
     (let groups = fold (\<lambda>(hostName, host). fold (add_to_group hostName) (mh_hostGroups host)) (eo_hosts ord (mt_Hosts s)) []
      in (s\<lparr>mt_HostGroups := groups\<rparr>, groups))"

definition toResourceGroups :: "elastic_orders \<Rightarrow> MonitoringState \<Rightarrow> MonitoringState \<times> ResourceGroup list" where
  "toResourceGroups ord s =
     (case buildGroups ord s of (s', groups) \<Rightarrow>
        (s', map (\<lambda>(grp, hosts). CreateResourceGroup grp grp ''HostGroup'' (map (\<lambda>h. CreateResourceRef h [] ResourceTypeHost) hosts))
               (eo_groups ord groups)))"

section \<open>Hosts are kept and start at zero\<close>

definition hosts_ok :: "(bytes \<times> monitoringHost) list \<Rightarrow> bool" where
  "hosts_ok hs \<longleftrightarrow> distinct (map fst hs) \<and> (\<forall>(n, h) \<in> set hs. mh_name h = n)"

definition orders_ok :: "elastic_orders \<Rightarrow> bool" where
  "orders_ok ord \<longleftrightarrow> (\<forall>hs. mset (eo_hosts ord hs) = mset hs) \<and> (\<forall>vs. mset (eo_counts ord vs) = mset vs)"

lemma hosts_ok_Nil: "hosts_ok []"
  by (simp add: hosts_ok_def)

lemma set_update_subset: "set (AList.update k v al) \<subseteq> insert (k, v) (set al)"
  by (induction al) auto

lemma hosts_ok_update: "hosts_ok hs \<Longrightarrow> mh_name h = n \<Longrightarrow> hosts_ok (AList.update n h hs)"
  unfolding hosts_ok_def using set_update_subset[of n h hs] by (auto simp: distinct_update)

lemma hosts_ok_name: "hosts_ok hs \<Longrightarrow> map_of hs n = Some h \<Longrightarrow> mh_name h = n"
  by (auto simp: hosts_ok_def dest: map_of_SomeD)

lemma mset_keys:
  assumes "mset xs = mset ys" "distinct (map fst ys)"
  shows "distinct (map fst xs)" "map_of xs = map_of ys" "set xs = set ys"
proof -
  show d: "distinct (map fst xs)" using assms by (metis mset_map mset_eq_imp_distinct_iff)
  show "set xs = set ys" using assms(1) by (rule mset_eq_setD)
  then show "map_of xs = map_of ys" using map_of_inject_set[OF d assms(2)] by simp
qed

lemma hosts_ok_mset: "mset xs = mset ys \<Longrightarrow> hosts_ok ys \<Longrightarrow> hosts_ok xs"
  using mset_keys[of xs ys] by (simp add: hosts_ok_def)

lemma put_hosts_ok:
  assumes "hosts_ok hs" "hosts_ok hosts"
  shows "hosts_ok (put_hosts hs hosts) \<and> map_of (put_hosts hs hosts) = map_of hosts ++ map_of hs"
  using assms
proof (induction hs arbitrary: hosts)
  case (Cons p hs)
  obtain n h where p: "p = (n, h)" by (cases p)
  have ok: "hosts_ok hs" "mh_name h = n" "map_of hs n = None" using Cons.prems(1) by (auto simp: p hosts_ok_def map_of_eq_None_iff)
  have st: "put_hosts (p # hs) hosts = put_hosts hs (AList.update n h hosts)" by (simp add: p put_hosts_def ok)
  note IH = Cons.IH[OF ok(1) hosts_ok_update[OF Cons.prems(2) ok(2)]]
  have "map_of (AList.update n h hosts) ++ map_of hs = map_of hosts ++ map_of (p # hs)"
    using ok(3) by (auto simp: p update_conv' map_add_def split: option.split)
  then show ?case using IH unfolding st by (simp only:)
qed (simp add: put_hosts_def)

lemma add_gw_hosts_ok: "hosts_ok hosts \<Longrightarrow> hosts_ok (fst (add_gw_hosts ns hosts acc))"
  by (induction ns hosts acc rule: add_gw_hosts.induct) (simp_all add: hosts_ok_update)

lemma add_gw_group_ok: "hosts_ok hosts \<Longrightarrow> hosts_ok (add_gw_group grp n hosts)"
  by (auto simp: add_gw_group_def split: option.split intro!: hosts_ok_update dest: hosts_ok_name)

lemma add_gw_groups_ok: "hosts_ok hosts \<Longrightarrow> hosts_ok (fold (\<lambda>(grp, hs). fold (add_gw_group grp) hs) groups hosts)"
proof (induction groups arbitrary: hosts)
  case (Cons p groups)
  have "hosts_ok (fold (add_gw_group g) hs hosts)" for g hs
    using Cons.prems by (induction hs arbitrary: hosts) (auto intro: add_gw_group_ok)
  then show ?case using Cons.IH by (cases p) simp
qed simp

lemma initGwHosts_ok: "hosts_ok hosts \<Longrightarrow> hosts_ok (snd (initGwHosts gl agentID appName appType conns hosts st))"
proof (induction conns arbitrary: hosts st)
  case (Cons conn conns)
  obtain st1 r where r: "GetServicesByAgent (gl_env gl) (gl_um_services gl) \<lparr>gc_AppName = appName, gc_AppType = appType, gc_GWConnection = conn\<rparr> agentID st = (st1, r)"
    by fastforce
  show ?case
  proof (cases r)
    case (Inr names)
    obtain hosts1 ns where a: "add_gw_hosts names hosts [] = (hosts1, ns)" by fastforce
    have ok: "hosts_ok hosts1" using add_gw_hosts_ok[OF Cons.prems, of names "[]"] a by simp
    obtain st2 q where q: "GetHostGroupsByAppTypeAndHostNames (gl_env gl) (gl_um_groups gl) \<lparr>gc_AppName = appName, gc_AppType = appType, gc_GWConnection = conn\<rparr>
        appType ns st1 = (st2, q)"
      by fastforce
    show ?thesis using Cons.IH[OF ok] Cons.IH[OF add_gw_groups_ok[OF ok]] by (cases q) (auto simp: r Inr a q Let_def)
  qed (simp add: r Cons)
qed simp

lemma add_es_host_ok: "hosts_ok hosts \<Longrightarrow> hosts_ok (add_es_host u g k hosts)"
  by (auto simp: add_es_host_def split: option.split intro!: hosts_ok_update dest: hosts_ok_name)

lemma initEsHosts_ok:
  assumes "initEsHosts fuel env c cfg st = Done (st', cfg', hosts)"
  shows "hosts_ok hosts"
proof -
  have "hosts_ok (fold (add_es_host u g) ks hosts)" if "hosts_ok hosts" for u g ks hosts
    using that by (induction ks arbitrary: hosts) (auto intro: add_es_host_ok)
  then show ?thesis using assms hosts_ok_Nil by (auto simp: initEsHosts_def Let_def split: if_splits)
qed

text \<open>The services a host starts with: the monitored metrics, each with no hits.\<close>

definition zero_services :: "metric_map \<Rightarrow> (bytes \<times> monitoringService) list" where
  "zero_services metrics = map (\<lambda>(n, _). (n, \<lparr>mv_name = n, mv_hits = 0, mv_timeInterval = None\<rparr>)) metrics"

lemma nullify_services: "mh_services (nullify m h) = zero_services m" "mh_name (nullify m h) = mh_name h"
  by (simp_all add: nullify_def zero_services_def)

lemma nullify_hosts_ok:
  assumes "hosts_ok hs"
  shows "hosts_ok (map (\<lambda>(n, h). (n, nullify m h)) hs)" "map_of (map (\<lambda>(n, h). (n, nullify m h)) hs) = map_option (nullify m) \<circ> map_of hs"
proof -
  have "map fst (map (\<lambda>(n, h). (n, nullify m h)) hs) = map fst hs" by (induction hs) auto
  moreover have "\<forall>(n, h) \<in> set (map (\<lambda>(n, h). (n, nullify m h)) hs). mh_name h = n" using assms by (auto simp: hosts_ok_def nullify_services)
  ultimately show "hosts_ok (map (\<lambda>(n, h). (n, nullify m h)) hs)" using assms unfolding hosts_ok_def by (simp only:)
  show "map_of (map (\<lambda>(n, h). (n, nullify m h)) hs) = map_option (nullify m) \<circ> map_of hs" by (simp add: map_of_map)
qed

text \<open>
  A collection starts with every host of the last one and with the hosts that Elasticsearch and, once, Groundwork know; all of them
  have exactly the monitored services, with no hits.  Hosts are never forgotten.
\<close>

theorem collection_starts:
  assumes "orders_ok ord" "hosts_ok (mt_Hosts prev)" "initMonitoringState fuel env gl ord cfg prev esClient onceDone st = Done (st', cfg', s)"
  shows "hosts_ok (mt_Hosts s) \<and> (\<forall>(n, h) \<in> set (mt_Hosts s). mh_services h = zero_services (mt_Metrics s)) \<and>
    fst ` set (mt_Hosts prev) \<subseteq> fst ` set (mt_Hosts s) \<and> mt_HostGroups s = []"
proof -
  define gw where "gw = (if onceDone \<or> ex_GWConnections cfg = [] then (st, [])
    else initGwHosts gl (ex_AgentID cfg) (ex_AppName cfg) (ex_AppType cfg) (ex_GWConnections cfg) [] st)"
  define m where "m = monitored_metrics ord cfg"
  define hosts1 where "hosts1 = put_hosts (eo_hosts ord (mt_Hosts prev)) (snd gw)"
  obtain st2 es where es: "initEsHosts fuel env esClient cfg (fst gw) = Done (st2, cfg', es)"
      and s: "s = \<lparr>mt_Metrics = m, mt_Hosts = put_hosts (map (\<lambda>(n, h). (n, nullify m h)) (eo_hosts ord (put_hosts (eo_hosts ord es) hosts1)))
        (put_hosts (eo_hosts ord es) hosts1), mt_HostGroups = []\<rparr>"
    using assms(3) unfolding initMonitoringState_def Let_def gw_def[symmetric] m_def[symmetric] by (cases gw) (auto simp: hosts1_def)
  define hosts2 where "hosts2 = put_hosts (eo_hosts ord es) hosts1"
  have perm: "mset (eo_hosts ord hs) = mset hs" for hs using assms(1) by (simp add: orders_ok_def)
  have gw_ok: "hosts_ok (snd gw)" by (auto simp: gw_def intro: initGwHosts_ok hosts_ok_Nil)
  note ok1 = put_hosts_ok[OF hosts_ok_mset[OF perm assms(2)] gw_ok, folded hosts1_def]
  note ok2 = put_hosts_ok[OF hosts_ok_mset[OF perm initEsHosts_ok[OF es]] conjunct1[OF ok1], folded hosts2_def]
  note v = hosts_ok_mset[OF perm conjunct1[OF ok2]]
  note ok3 = put_hosts_ok[OF nullify_hosts_ok(1)[OF v] conjunct1[OF ok2], of m]
  have same: "map_of (eo_hosts ord hs) = map_of hs" if "hosts_ok hs" for hs using mset_keys[OF perm] that by (simp add: hosts_ok_def)
  have final: "map_of (mt_Hosts s) n = map_option (nullify m) (map_of hosts2 n)" for n
    using conjunct2[OF ok3] same[OF conjunct1[OF ok2]] unfolding s hosts2_def[symmetric] nullify_hosts_ok(2)[OF v]
    by (auto simp: map_add_def split: option.split)
  have ok: "hosts_ok (mt_Hosts s)" using conjunct1[OF ok3] unfolding s hosts2_def[symmetric] by simp
  have "mh_services h = zero_services (mt_Metrics s)" if "(n, h) \<in> set (mt_Hosts s)" for n h
  proof -
    have "map_of (mt_Hosts s) n = Some h" using that ok by (auto simp: hosts_ok_def)
    then obtain x where "h = nullify m x" using final[of n] by (cases "map_of hosts2 n") auto
    then show ?thesis by (simp add: s nullify_services)
  qed
  moreover have "n \<in> fst ` set (mt_Hosts s)" if "n \<in> fst ` set (mt_Hosts prev)" for n
  proof -
    have "map_of (mt_Hosts prev) n \<noteq> None" using that by (simp add: map_of_eq_None_iff)
    then have "map_of hosts2 n \<noteq> None" using conjunct2[OF ok1] conjunct2[OF ok2] same[OF assms(2)] by (auto simp: map_add_def split: option.splits)
    then have "map_of (mt_Hosts s) n \<noteq> None" by (simp add: final)
    then show ?thesis by (simp add: map_of_eq_None_iff)
  qed
  moreover have "mt_HostGroups s = []" by (simp add: s)
  ultimately show ?thesis using ok by blast
qed

section \<open>Counts\<close>

definition service_hits :: "(bytes \<times> monitoringHost) list \<Rightarrow> bytes \<Rightarrow> bytes \<Rightarrow> int option" where
  "service_hits hosts host service = Option.bind (map_of hosts host) (\<lambda>h. map_option mv_hits (map_of (mh_services h) service))"

lemma service_hits_update:
  "service_hits (update_host m ti (n, v) hosts) host service =
     (if host = n \<and> service = m \<and> service_hits hosts host service \<noteq> None then Some v else service_hits hosts host service)"
  by (auto simp: service_hits_def update_host_def update_conv' split: option.split)

lemma service_hits_fold:
  assumes "distinct (map fst vs)"
  shows "service_hits (fold (update_host m ti) vs hosts) host service =
    (if service = m \<and> service_hits hosts host service \<noteq> None \<and> map_of vs host \<noteq> None then map_of vs host else service_hits hosts host service)"
  using assms
proof (induction vs arbitrary: hosts)
  case (Cons p vs)
  obtain n v where p: "p = (n, v)" by (cases p)
  have "map_of vs n = None" using Cons.prems by (simp add: p map_of_eq_None_iff)
  moreover have "distinct (map fst vs)" using Cons.prems by simp
  ultimately show ?case using Cons.IH[of "update_host m ti (n, v) hosts"] by (auto simp: p service_hits_update)
qed simp

text \<open>The counts of a query become the hits of its service, for the hosts that are known; nothing else changes.\<close>

theorem updateHosts_hits:
  assumes "orders_ok ord" "distinct (map fst values)"
  shows "service_hits (mt_Hosts (updateHosts ord values m ti s)) host service =
    (if service = m \<and> service_hits (mt_Hosts s) host service \<noteq> None \<and> map_of values host \<noteq> None then map_of values host
     else service_hits (mt_Hosts s) host service)"
proof -
  have "mset (eo_counts ord values) = mset values" using assms(1) by (simp add: orders_ok_def)
  note k = mset_keys[OF this assms(2)]
  have "mt_Hosts (updateHosts ord values m ti s) = fold (update_host m ti) (eo_counts ord values) (mt_Hosts s)" by (simp add: updateHosts_def)
  then show ?thesis using service_hits_fold[OF k(1), of m ti "mt_Hosts s" host service] unfolding k(2) by (simp only:)
qed

section \<open>Witnesses\<close>

definition id_elastic_orders :: elastic_orders where
  "id_elastic_orders = \<lparr>eo_hosts = id, eo_services = id, eo_views = id, eo_groups = id, eo_counts = id, eo_metrics = id\<rparr>"

definition demo_host :: "bytes \<Rightarrow> (bytes \<times> monitoringService) list \<Rightarrow> monitoringHost" where
  "demo_host n ss = \<lparr>mh_name = n, mh_services = ss, mh_hostGroups = []\<rparr>"

definition demo_elastic_state :: MonitoringState where
  "demo_elastic_state = \<lparr>mt_Metrics = [(''errors'', zero_MetricDefinition)],
     mt_Hosts = [(''web1'', demo_host ''web1'' [(''errors'', \<lparr>mv_name = ''errors'', mv_hits = 0, mv_timeInterval = None\<rparr>)])], mt_HostGroups = []\<rparr>"

definition demo_elastic_config :: elastic_ExtConfig where
  "demo_elastic_config = \<lparr>ex_Kibana = \<lparr>ki_ServerName = [], ki_Username = [], ki_Password = []\<rparr>, ex_Servers = [],
     ex_CustomTimeFilter = \<lparr>tf_From = now, tf_To = now, tf_Override = None\<rparr>, ex_OverrideTimeFilter = False, ex_FilterHostsWithLucene = [],
     ex_HostNameField = ''host'', ex_HostGroupField = ''grp'', ex_GroupNameByUser = True, ex_CheckInterval = Minute, ex_AppName = [], ex_AppType = [],
     ex_AgentID = [], ex_GWConnections = [], ex_Ownership = [],
     ex_Views = [(''storedQueries'', [(''errors'', zero_MetricDefinition\<lparr>md_Monitored := True\<rparr>)])]\<rparr>"

definition demo_gl :: "unit gw_lookup" where
  "demo_gl = \<lparr>gl_env = \<lparr>env_sys = \<lparr>sys_keepAlive = True, sys_GOOS = [], sys_strerror = (\<lambda>_. [])\<rparr>, env_http = (\<lambda>w _. (w, Inl (Other []))),
     env_GZip = Inr, env_login_body = (\<lambda>_ _. []), env_login_token = Inr\<rparr>, gl_um_services = (\<lambda>_. Inr []), gl_um_groups = (\<lambda>_. Inr [])\<rparr>"

lemma demo_orders_ok: "orders_ok id_elastic_orders"
  by (simp add: orders_ok_def id_elastic_orders_def)

lemma demo_hosts_ok: "hosts_ok (mt_Hosts demo_elastic_state)"
  by (simp add: hosts_ok_def demo_elastic_state_def demo_host_def)

text \<open>Elasticsearch does not answer: the hosts of the last collection remain.\<close>

theorem collection_starts_witness:
  "\<exists>st' cfg' s. initMonitoringState 0 demo_es demo_gl id_elastic_orders demo_elastic_config demo_elastic_state demo_client True
     \<lparr>net_world = (), net_tokens = Map.empty\<rparr> = Done (st', cfg', s) \<and> ''web1'' \<in> fst ` set (mt_Hosts s)"
proof -
  have "\<exists>st' cfg' s. initMonitoringState 0 demo_es demo_gl id_elastic_orders demo_elastic_config demo_elastic_state demo_client True
     \<lparr>net_world = (), net_tokens = Map.empty\<rparr> = Done (st', cfg', s)"
    by (simp add: initMonitoringState_def initEsHosts_def demo_elastic_config_def on_world_def IsAggregatable_def demo_client_def demo_es_def
        keyword_def HasSuffix_def Let_def)
  then obtain st' cfg' s where i: "initMonitoringState 0 demo_es demo_gl id_elastic_orders demo_elastic_config demo_elastic_state demo_client True
     \<lparr>net_world = (), net_tokens = Map.empty\<rparr> = Done (st', cfg', s)" by blast
  have "''web1'' \<in> fst ` set (mt_Hosts demo_elastic_state)" by (simp add: demo_elastic_state_def)
  then show ?thesis using collection_starts[OF demo_orders_ok demo_hosts_ok i] i by blast
qed

theorem updateHosts_hits_witness:
  "service_hits (mt_Hosts (updateHosts id_elastic_orders [(''web1'', 5)] ''errors'' None demo_elastic_state)) ''web1'' ''errors'' = Some 5"
  using updateHosts_hits[OF demo_orders_ok, of "[(''web1'', 5)]" "''errors''" None demo_elastic_state "''web1''" "''errors''"]
  by (simp add: service_hits_def demo_elastic_state_def demo_host_def)

end
