(* ===== verification/Snmp_Nedi.thy ===== *)
theory Snmp_Nedi
  imports Http_Client Go_Json "HOL-Library.AList"
begin

text \<open>
  The client of NeDi, \<^verbatim>\<open>connectors/snmp/clients/nediClient.go\<close>: devices that are monitored and their interfaces.  The decoder of
  \<^verbatim>\<open>encoding/json\<close> is an argument.  Conversion of a float64 outside the range of an integer is left to the argument \<open>conv\<close>.
\<close>

section \<open>Values of the columns\<close>

definition getInt :: "(f64 \<Rightarrow> int) \<Rightarrow> jval \<Rightarrow> int option" where
  "getInt conv v = (case v of JNum x \<Rightarrow> Some (f64_to_int conv x) | _ \<Rightarrow> None)"

text \<open>The address of a 32-bit number, in the dotted form of \<^verbatim>\<open>net.IP\<close>.\<close>

definition int2ip :: "int \<Rightarrow> bytes" where
  "int2ip val =
     (let w = (word_of_int val :: 32 word); n = unat w
      in Join (map format_nat [n div 16777216, n div 65536 mod 256, n div 256 mod 256, n mod 256]) ''.'')"

section \<open>The client\<close>

record NediClient =
  nc_Server :: bytes

record Device =
  dv_Name :: bytes
  dv_IP :: bytes
  dv_Community :: bytes
  dv_LastOK :: int

record Monitoring =
  mn_Name :: bytes
  mn_IP :: bytes
  mn_Device :: bytes
  mn_LastOK :: int

record Interface =
  if_Name :: bytes
  if_Device :: bytes
  if_Index :: int
  if_Status :: int

datatype nedi_error =
    MissingServer | NotConfigured | MissingTable | MissingDevice | ConnectionString | RequestFailed

definition NediClient_Init :: "NediClient \<Rightarrow> bytes \<Rightarrow> NediClient \<times> nedi_error option" where
  "NediClient_Init client server =
     (if server = [] then (client, Some MissingServer) else (client\<lparr>nc_Server := server\<rparr>, None))"

definition getConnectionString :: "NediClient \<Rightarrow> bytes \<Rightarrow> bytes \<Rightarrow> bytes \<Rightarrow> nedi_error + bytes" where
  "getConnectionString client table query order =
     (if nc_Server client = [] then Inl NotConfigured
      else if table = [] then Inl MissingTable
      else Inr (''http://'' @ nc_Server client @ ''/nedi/query.php?c=1&t='' @ table @
                (if query \<noteq> [] then ''&q='' @ QueryEscape query else []) @ (if order \<noteq> [] then ''&o='' @ QueryEscape order else [])))"

definition executeGet :: "sys_env \<Rightarrow> 'w http \<Rightarrow> bytes \<Rightarrow> 'w \<Rightarrow> 'w \<times> (nedi_error + bytes)" where
  "executeGet sys http url w =
     (case SendRequestWithContext sys http None ''GET'' url [] None None w of
        (w', s, r, err) \<Rightarrow> (w', if err \<noteq> None \<or> s \<noteq> 200 then Inl RequestFailed else Inr r))"

text \<open>
  \<open>parseResponse\<close>: the first part of an answer is system information.  The slice is made with room for one element less than the
  answer has, which panics for an answer without elements; an answer that is not an array gives no elements.
\<close>

definition parseResponse :: "(bytes \<Rightarrow> jval list option) \<Rightarrow> bytes \<Rightarrow> (bytes \<times> jval) list list exec" where
  "parseResponse um bs =
     (case um bs of
        None \<Rightarrow> Done []
      | Some [] \<Rightarrow> Panic MakeSlice
      | Some (_ # rs) \<Rightarrow> Done (List.map_filter (\<lambda>r. case r of JObj obj \<Rightarrow> Some obj | _ \<Rightarrow> None) rs))"

subsection \<open>Devices\<close>

definition parse_device :: "(f64 \<Rightarrow> int) \<Rightarrow> (bytes \<times> Monitoring) list \<Rightarrow> (bytes \<times> jval) list \<Rightarrow> Device option" where
  "parse_device conv monitored d =
     (case field d ''device'' of
        JStr name \<Rightarrow>
          (case map_of monitored name of
             None \<Rightarrow> None
           | Some mon \<Rightarrow>
               (case getInt conv (field d ''devip'') of
                  None \<Rightarrow> None
                | Some ipVal \<Rightarrow>
                    (case field d ''readcomm'' of
                       JStr community \<Rightarrow>
                         Some \<lparr>dv_Name = name, dv_IP = int2ip ipVal, dv_Community = community, dv_LastOK = mn_LastOK mon\<rparr>
                     | _ \<Rightarrow> None)))
      | _ \<Rightarrow> None)"

definition parseDevices :: "(bytes \<Rightarrow> jval list option) \<Rightarrow> (f64 \<Rightarrow> int) \<Rightarrow> bytes \<Rightarrow> (bytes \<times> Monitoring) list \<Rightarrow> Device list exec" where
  "parseDevices um conv bs monitored =
     bind_exec (parseResponse um bs) (\<lambda>rs. Done (List.map_filter (parse_device conv monitored) rs))"

fun collect_monitors :: "(f64 \<Rightarrow> int) \<Rightarrow> (bytes \<times> jval) list list \<Rightarrow> (bytes \<times> Monitoring) list \<Rightarrow> (bytes \<times> Monitoring) list exec" where
  "collect_monitors conv [] monitors = Done monitors"
| "collect_monitors conv (row # rest) monitors =
     bind_exec (as_string (field row ''name'')) (\<lambda>name.
     bind_exec (as_string (field row ''device'')) (\<lambda>device.
     bind_exec (as_float (field row ''lastok'')) (\<lambda>lastOK.
       case getInt conv (field row ''monip'') of
         None \<Rightarrow> collect_monitors conv rest monitors
       | Some ipVal \<Rightarrow>
           collect_monitors conv rest (AList.update device
             \<lparr>mn_Name = name, mn_IP = int2ip ipVal, mn_Device = device, mn_LastOK = f64_to_int conv lastOK\<rparr> monitors))))"

definition getMonitoredDevices :: "sys_env \<Rightarrow> 'w http \<Rightarrow> (bytes \<Rightarrow> jval list option) \<Rightarrow> (f64 \<Rightarrow> int) \<Rightarrow> NediClient \<Rightarrow> 'w \<Rightarrow>
    ('w \<times> (nedi_error + (bytes \<times> Monitoring) list)) exec" where
  "getMonitoredDevices sys http um conv client w =
     (case getConnectionString client ''monitoring'' [] [] of
        Inl _ \<Rightarrow> Done (w, Inl ConnectionString)
      | Inr path \<Rightarrow>
          (case executeGet sys http path w of
             (w', Inl _) \<Rightarrow> Done (w', Inl RequestFailed)
           | (w', Inr response) \<Rightarrow>
               bind_exec (parseResponse um response) (\<lambda>rs.
               bind_exec (collect_monitors conv rs []) (\<lambda>monitors. Done (w', Inr monitors)))))"

definition GetDevices :: "sys_env \<Rightarrow> 'w http \<Rightarrow> (bytes \<Rightarrow> jval list option) \<Rightarrow> (f64 \<Rightarrow> int) \<Rightarrow> NediClient \<Rightarrow> 'w \<Rightarrow>
    ('w \<times> (nedi_error + Device list)) exec" where
  "GetDevices sys http um conv client w =
     bind_exec (getMonitoredDevices sys http um conv client w) (\<lambda>(w1, r).
       case r of
         Inl err \<Rightarrow> Done (w1, Inl err)
       | Inr monitored \<Rightarrow>
           if monitored = [] then Done (w1, Inr [])
           else (case getConnectionString client ''devices'' [] [] of
                   Inl _ \<Rightarrow> Done (w1, Inl ConnectionString)
                 | Inr path \<Rightarrow>
                     (case executeGet sys http path w1 of
                        (w2, Inl _) \<Rightarrow> Done (w2, Inl RequestFailed)
                      | (w2, Inr response) \<Rightarrow>
                          bind_exec (parseDevices um conv response monitored) (\<lambda>ds. Done (w2, Inr ds)))))"

subsection \<open>Interfaces\<close>

definition parse_interface :: "(f64 \<Rightarrow> int) \<Rightarrow> (bytes \<times> jval) list \<Rightarrow> Interface option" where
  "parse_interface conv i =
     (case field i ''ifname'' of
        JStr name \<Rightarrow>
          (case field i ''device'' of
             JStr device \<Rightarrow>
               (let status = (case getInt conv (field i ''ifstat'') of Some s \<Rightarrow> s | None \<Rightarrow> -1)
                in case getInt conv (field i ''ifidx'') of
                     None \<Rightarrow> None
                   | Some idx \<Rightarrow> Some \<lparr>if_Name = name, if_Device = device, if_Index = idx, if_Status = status\<rparr>)
           | _ \<Rightarrow> None)
      | _ \<Rightarrow> None)"

definition parseInterfaces :: "(bytes \<Rightarrow> jval list option) \<Rightarrow> (f64 \<Rightarrow> int) \<Rightarrow> bytes \<Rightarrow> Interface list exec" where
  "parseInterfaces um conv response =
     bind_exec (parseResponse um response) (\<lambda>rs. Done (List.map_filter (parse_interface conv) rs))"

definition GetDeviceInterfaces :: "sys_env \<Rightarrow> 'w http \<Rightarrow> (bytes \<Rightarrow> jval list option) \<Rightarrow> (f64 \<Rightarrow> int) \<Rightarrow> NediClient \<Rightarrow> bytes \<Rightarrow> 'w \<Rightarrow>
    ('w \<times> (nedi_error + Interface list)) exec" where
  "GetDeviceInterfaces sys http um conv client device w =
     (if device = [] then Done (w, Inl MissingDevice)
      else case getConnectionString client ''interfaces'' (''device = '' @ device) [] of
             Inl _ \<Rightarrow> Done (w, Inl ConnectionString)
           | Inr path \<Rightarrow>
               (case executeGet sys http path w of
                  (w', Inl _) \<Rightarrow> Done (w', Inl RequestFailed)
                | (w', Inr response) \<Rightarrow> bind_exec (parseInterfaces um conv response) (\<lambda>is. Done (w', Inr is))))"

section \<open>Properties\<close>

subsection \<open>Addresses\<close>

text \<open>The address of four bytes; a number and the number 2 ^ 32 above or below it are the same address.\<close>

lemma unat_small: "n < 2 ^ 32 \<Longrightarrow> unat (word_of_int (int n) :: 32 word) = n"
  by (simp add: unsigned_of_int take_bit_int_eq_self_iff nat_eq_iff unsigned_of_nat take_bit_nat_eq_self_iff)

lemma int2ip_bytes:
  assumes "a < 256" "b < 256" "c < 256" "d < 256"
  shows "int2ip (int (((a * 256 + b) * 256 + c) * 256 + d)) = Join (map format_nat [a, b, c, d]) ''.''"
proof -
  let ?n = "((a * 256 + b) * 256 + c) * 256 + d"
  have "?n < 2 ^ 32" using assms by simp
  then have "unat (word_of_int (int ?n) :: 32 word) = ?n" by (rule unat_small)
  moreover have "?n div 16777216 = a" "?n div 65536 mod 256 = b" "?n div 256 mod 256 = c" "?n mod 256 = d"
  proof -
    have dm: "(x * 256 + y) div 256 = x" "(x * 256 + y) mod 256 = y" if "y < 256" for x y :: nat using that by auto
    have 1: "?n div 256 = (a * 256 + b) * 256 + c" "?n mod 256 = d" by (rule dm[OF assms(4)])+
    have 2: "?n div 65536 = a * 256 + b" "?n div 256 mod 256 = c" using div_mult2_eq[of ?n 256 256] unfolding 1 dm[OF assms(3)] by simp_all
    have 3: "?n div 16777216 = a" "?n div 65536 mod 256 = b" using div_mult2_eq[of ?n 65536 256] unfolding 2 dm[OF assms(2)] by simp_all
    show "?n div 16777216 = a" "?n div 65536 mod 256 = b" "?n div 256 mod 256 = c" "?n mod 256 = d" by (fact 3 2 1)+
  qed
  ultimately show ?thesis by (simp only: int2ip_def Let_def)
qed

lemma int2ip_wraps: "int2ip (v + 2 ^ 32) = int2ip v"
proof -
  have "(word_of_int (v + 2 ^ 32) :: 32 word) = word_of_int v" by (simp add: word_of_int_eq_iff take_bit_add[symmetric] take_bit_eq_mod)
  then show ?thesis by (simp only: int2ip_def)
qed

subsection \<open>Devices that are monitored\<close>

text \<open>Rows as NeDi sends them: numbers are integers that a float64 holds.\<close>

definition jint :: "int \<Rightarrow> jval" where
  "jint i = JNum (FFin (of_int i))"

definition small_int :: "int \<Rightarrow> bool" where
  "small_int i \<longleftrightarrow> \<bar>i\<bar> \<le> 2 ^ 53"

definition monitoring_row :: "bytes \<times> bytes \<times> int \<times> int \<Rightarrow> jval" where
  "monitoring_row m = (case m of (name, device, ip, lastok) \<Rightarrow>
     JObj [(''name'', JStr name), (''monip'', jint ip), (''device'', JStr device), (''lastok'', jint lastok)])"

definition device_row :: "bytes \<times> int \<times> bytes \<Rightarrow> jval" where
  "device_row d = (case d of (name, ip, community) \<Rightarrow> JObj [(''device'', JStr name), (''devip'', jint ip), (''readcomm'', JStr community)])"

definition rows_ok :: "(bytes \<times> bytes \<times> int \<times> int) list \<Rightarrow> (bytes \<times> int \<times> bytes) list \<Rightarrow> bool" where
  "rows_ok ms ds \<longleftrightarrow> (\<forall>(_, _, ip, lastok) \<in> set ms. small_int ip \<and> small_int lastok) \<and> (\<forall>(_, ip, _) \<in> set ds. small_int ip)"

text \<open>When a device was last seen: the last monitoring row of the device.\<close>

definition last_ok :: "(bytes \<times> bytes \<times> int \<times> int) list \<Rightarrow> bytes \<rightharpoonup> int" where
  "last_ok ms name = map_of (map (\<lambda>(_, device, _, lastok). (device, lastok)) (rev ms)) name"

definition monitored_devices :: "(bytes \<times> bytes \<times> int \<times> int) list \<Rightarrow> (bytes \<times> int \<times> bytes) list \<Rightarrow> Device list" where
  "monitored_devices ms ds =
     List.map_filter (\<lambda>(name, ip, community).
       map_option (\<lambda>lastok. \<lparr>dv_Name = name, dv_IP = int2ip ip, dv_Community = community, dv_LastOK = lastok\<rparr>) (last_ok ms name)) ds"

lemma monitored_devices_none: "monitored_devices [] ds = []"
  by (induction ds) (auto simp: monitored_devices_def last_ok_def map_filter_simps)

lemma getInt_jint: "small_int i \<Longrightarrow> getInt conv (jint i) = Some i" "small_int i \<Longrightarrow> f64_to_int conv (FFin (of_int i)) = i"
  by (auto simp: getInt_def jint_def f64_to_int_def rat_trunc_def small_int_def)

lemma last_ok_Cons: "last_ok ((n, device, ip, lastok) # ms) name =
    (case last_ok ms name of None \<Rightarrow> if device = name then Some lastok else None | Some t \<Rightarrow> Some t)"
  by (simp add: last_ok_def map_add_def split: option.split)

definition row_object :: "jval \<Rightarrow> (bytes \<times> jval) list" where
  "row_object r = (case r of JObj obj \<Rightarrow> obj | _ \<Rightarrow> [])"

lemma collect_monitors_rows:
  assumes "\<forall>(_, _, ip, lastok) \<in> set ms. small_int ip \<and> small_int lastok"
  shows "\<exists>mons. collect_monitors conv (map (row_object \<circ> monitoring_row) ms) acc = Done mons \<and>
    (\<forall>name. map_option mn_LastOK (map_of mons name) = (case last_ok ms name of None \<Rightarrow> map_option mn_LastOK (map_of acc name) | Some t \<Rightarrow> Some t)) \<and>
    (mons = [] \<longleftrightarrow> ms = [] \<and> acc = [])"
  using assms
proof (induction ms arbitrary: acc)
  case Nil
  then show ?case by (simp add: last_ok_def)
next
  case (Cons m ms)
  obtain name device ip lastok where m: "m = (name, device, ip, lastok)" by (cases m)
  let ?acc = "AList.update device \<lparr>mn_Name = name, mn_IP = int2ip ip, mn_Device = device, mn_LastOK = lastok\<rparr> acc"
  have "small_int ip" "small_int lastok" using Cons.prems m by simp_all
  then have step: "collect_monitors conv (map (row_object \<circ> monitoring_row) (m # ms)) acc = collect_monitors conv (map (row_object \<circ> monitoring_row) ms) ?acc"
    by (simp add: m monitoring_row_def row_object_def field_def as_string_def as_float_def getInt_jint jint_def[of lastok])
  obtain mons where mons: "collect_monitors conv (map (row_object \<circ> monitoring_row) ms) ?acc = Done mons"
      "\<forall>n. map_option mn_LastOK (map_of mons n) = (case last_ok ms n of None \<Rightarrow> map_option mn_LastOK (map_of ?acc n) | Some t \<Rightarrow> Some t)"
      "mons = [] \<longleftrightarrow> ms = [] \<and> ?acc = []"
    using Cons.IH[of ?acc] Cons.prems by (simp only: list.set ball_simps) blast
  have ne: "?acc \<noteq> []" by (cases acc) auto
  have last: "(case last_ok ms n of None \<Rightarrow> map_option mn_LastOK (map_of ?acc n) | Some t \<Rightarrow> Some t) =
      (case last_ok (m # ms) n of None \<Rightarrow> map_option mn_LastOK (map_of acc n) | Some t \<Rightarrow> Some t)" for n
    unfolding m last_ok_Cons update_conv' by (cases "last_ok ms n") simp_all
  show ?case
  proof (intro exI conjI)
    show "collect_monitors conv (map (row_object \<circ> monitoring_row) (m # ms)) acc = Done mons" using step mons(1) by (rule trans)
  qed (use mons(2,3) ne last in simp_all)
qed

lemma map_filter_map_cong: "\<forall>x \<in> set xs. f (g x) = h x \<Longrightarrow> List.map_filter f (map g xs) = List.map_filter h xs"
  by (induction xs) (simp_all add: map_filter_simps split: option.split)

lemma parse_device_row:
  assumes "small_int ip"
  shows "parse_device conv mons (row_object (device_row (name, ip, community))) =
    map_option (\<lambda>lastok. \<lparr>dv_Name = name, dv_IP = int2ip ip, dv_Community = community, dv_LastOK = lastok\<rparr>) (map_option mn_LastOK (map_of mons name))"
  using assms by (simp add: parse_device_def device_row_def row_object_def field_def getInt_jint split: option.split)

lemma parseResponse_rows:
  assumes "um bs = Some (info # map r rows)" "\<And>x. \<exists>obj. r x = JObj obj"
  shows "parseResponse um bs = Done (map (row_object \<circ> r) rows)"
proof -
  have "(case r x of JObj obj \<Rightarrow> Some obj | _ \<Rightarrow> None) = Some (row_object (r x))" for x
    using assms(2)[of x] by (auto simp: row_object_def)
  then show ?thesis using assms(1) by (simp add: parseResponse_def map_filter_def comp_def)
qed

text \<open>The answers of the server.\<close>

definition answers :: "sys_env \<Rightarrow> 'w http \<Rightarrow> 'w \<Rightarrow> bytes \<Rightarrow> 'w \<Rightarrow> bytes \<Rightarrow> bool" where
  "answers sys http w url w' body \<longleftrightarrow> executeGet sys http url w = (w', Inr body)"

definition nedi_url :: "bytes \<Rightarrow> bytes \<Rightarrow> bytes" where
  "nedi_url server table = ''http://'' @ server @ ''/nedi/query.php?c=1&t='' @ table"

text \<open>
  The devices of NeDi that have a monitoring row, in the order of NeDi, with the address in dotted form and the time of the last
  monitoring row.
\<close>

theorem GetDevices_monitored:
  assumes "nc_Server client \<noteq> []" "rows_ok ms ds"
    and "answers sys http w (nedi_url (nc_Server client) ''monitoring'') w1 b1" "um b1 = Some (i1 # map monitoring_row ms)"
    and "answers sys http w1 (nedi_url (nc_Server client) ''devices'') w2 b2" "um b2 = Some (i2 # map device_row ds)"
  shows "GetDevices sys http um conv client w = Done (if ms = [] then w1 else w2, Inr (monitored_devices ms ds))"
proof -
  have small: "\<forall>(_, _, ip, lastok) \<in> set ms. small_int ip \<and> small_int lastok" using assms(2) by (simp add: rows_ok_def)
  have last: "(case last_ok ms name of None \<Rightarrow> map_option mn_LastOK (map_of [] name) | Some t \<Rightarrow> Some t) = last_ok ms name" for name
    by (cases "last_ok ms name") simp_all
  obtain mons where mons: "collect_monitors conv (map (row_object \<circ> monitoring_row) ms) [] = Done mons"
      "\<forall>name. map_option mn_LastOK (map_of mons name) = last_ok ms name" "mons = [] \<longleftrightarrow> ms = []"
    using collect_monitors_rows[OF small, of conv "[]"] unfolding last by blast
  have r1: "parseResponse um b1 = Done (map (row_object \<circ> monitoring_row) ms)"
    by (rule parseResponse_rows[where um = um, OF assms(4)]) (auto simp: monitoring_row_def split: prod.split)
  have r2: "parseResponse um b2 = Done (map (row_object \<circ> device_row) ds)"
    by (rule parseResponse_rows[where um = um, OF assms(6)]) (auto simp: device_row_def split: prod.split)
  have dev: "List.map_filter (parse_device conv mons) (map (row_object \<circ> device_row) ds) = monitored_devices ms ds"
  proof -
    have "parse_device conv mons (row_object (device_row d)) = (case d of (name, ip, community) \<Rightarrow>
        map_option (\<lambda>lastok. \<lparr>dv_Name = name, dv_IP = int2ip ip, dv_Community = community, dv_LastOK = lastok\<rparr>) (last_ok ms name))" if "d \<in> set ds" for d
      using that assms(2) mons(2) parse_device_row by (cases d) (auto simp: rows_ok_def)
    then show ?thesis unfolding monitored_devices_def by (intro map_filter_map_cong) simp
  qed
  show ?thesis
    using assms(1,3,5) mons(1,3) r1 r2 dev
    by (simp add: GetDevices_def getMonitoredDevices_def getConnectionString_def answers_def nedi_url_def parseDevices_def monitored_devices_none)
qed

text \<open>Answers that are not as expected: an empty array, and a monitoring row without a name, make the request panic.\<close>

theorem nedi_answers_panic:
  assumes "nc_Server client \<noteq> []" "answers sys http w (nedi_url (nc_Server client) ''monitoring'') w1 b"
    and "um b = Some [] \<or> (\<exists>info row rest. um b = Some (info # JObj row # rest) \<and> (\<forall>s. field row ''name'' \<noteq> JStr s))"
  shows "\<exists>p. GetDevices sys http um conv client w = Panic p"
proof -
  have e: "executeGet sys http (''http://'' @ nc_Server client @ ''/nedi/query.php?c=1&t=monitoring'') w = (w1, Inr b)"
    using assms(2) by (simp add: answers_def nedi_url_def)
  from assms(3) show ?thesis
  proof (elim disjE exE conjE)
    assume "um b = Some []"
    then show ?thesis using assms(1) e by (simp add: GetDevices_def getMonitoredDevices_def getConnectionString_def parseResponse_def)
  next
    fix info row rest assume r: "um b = Some (info # JObj row # rest)" "\<forall>s. field row ''name'' \<noteq> JStr s"
    then have "as_string (field row ''name'') = Panic TypeAssertion" by (simp add: as_string_def split: jval.split)
    then show ?thesis using assms(1) e r(1)
      by (simp add: GetDevices_def getMonitoredDevices_def getConnectionString_def parseResponse_def map_filter_simps)
  qed
qed

section \<open>Witnesses\<close>

definition nedi_sys :: sys_env where
  "nedi_sys = \<lparr>sys_keepAlive = True, sys_GOOS = [], sys_strerror = (\<lambda>_. [])\<rparr>"

text \<open>A server that answers with the name of the table, and a decoder of these names.\<close>

definition demo_nedi :: "unit http" where
  "demo_nedi w q = (w, Inr (200, if hr_URL q = nedi_url ''n'' ''monitoring'' then ''m'' else ''d''))"

definition demo_um :: "bytes \<Rightarrow> jval list option" where
  "demo_um b = Some (JNull # (if b = ''m'' then map monitoring_row [(''m1'', ''r1'', 1, 5), (''m2'', ''r1'', 1, 7)]
     else map device_row [(''r1'', 3232235777, ''pub''), (''r2'', 1, ''pub'')]))"

lemma demo_answers:
  "answers nedi_sys demo_nedi () (nedi_url ''n'' ''monitoring'') () ''m''" "answers nedi_sys demo_nedi () (nedi_url ''n'' ''devices'') () ''d''"
  by (simp_all add: answers_def executeGet_def SendRequestWithContext_def SendWithContext_def demo_nedi_def make_request_def nedi_url_def Let_def zero_Req_def)

theorem GetDevices_monitored_witness:
  "GetDevices nedi_sys demo_nedi demo_um (\<lambda>_. 0) \<lparr>nc_Server = ''n''\<rparr> () =
     Done ((), Inr [\<lparr>dv_Name = ''r1'', dv_IP = ''192.168.1.1'', dv_Community = ''pub'', dv_LastOK = 7\<rparr>])"
proof -
  have "format_nat 192 = ''192''" "format_nat 168 = ''168''" "format_nat 1 = ''1''" by code_simp+
  then have ip: "int2ip 3232235777 = ''192.168.1.1''" using int2ip_bytes[of 192 168 1 1] by simp
  show ?thesis
    using GetDevices_monitored[of "\<lparr>nc_Server = ''n''\<rparr>" "[(''m1'', ''r1'', 1, 5), (''m2'', ''r1'', 1, 7)]"
        "[(''r1'', 3232235777, ''pub''), (''r2'', 1, ''pub'')]" nedi_sys demo_nedi "()" "()" "''m''" demo_um JNull "()" "''d''" JNull "\<lambda>_. 0"] demo_answers
    by (simp add: rows_ok_def small_int_def demo_um_def monitored_devices_def last_ok_def map_filter_simps ip)
qed

theorem nedi_answers_panic_witness:
  "\<exists>p. GetDevices nedi_sys demo_nedi (\<lambda>_. Some []) (\<lambda>_. 0) \<lparr>nc_Server = ''n''\<rparr> () = Panic p"
  using nedi_answers_panic[of "\<lparr>nc_Server = ''n''\<rparr>" nedi_sys demo_nedi "()" "()" "''m''" "\<lambda>_. Some []"] demo_answers(1) by simp

end
