(* ===== verification/Go_Regexp_Steps.thy ===== *)
theory Go_Regexp_Steps
  imports Go_Regexp
begin

text \<open>
  Which positions a regular expression can reach, as sets, and that the matcher of \<open>Go_Regexp\<close> finds a match exactly when there
  is one.  The order of preference of the matcher decides which match is found, not whether one is.
\<close>

section \<open>Reachable positions\<close>

type_synonym rx_pos = "nat \<times> bytes"

primrec rx_steps :: "rx \<Rightarrow> rx_pos \<Rightarrow> rx_pos set" where
  "rx_steps REmpty p = {p}"
| "rx_steps RBegin p = (if fst p = 0 then {p} else {})"
| "rx_steps REnd p = (if snd p = [] then {p} else {})"
| "rx_steps (RChr P) p = (if snd p \<noteq> [] \<and> P (hd (snd p)) then {(Suc (fst p), tl (snd p))} else {})"
| "rx_steps (RSeq a b) p = (\<Union>q \<in> rx_steps a p. rx_steps b q)"
| "rx_steps (RAlt a b) p = rx_steps a p \<union> rx_steps b p"
| "rx_steps (ROpt a) p = insert p (rx_steps a p)"
| "rx_steps (RStar greedy a) p = {q. (p, q) \<in> {(x, y). y \<in> rx_steps a x}\<^sup>*}"
| "rx_steps (RGroup n a) p = rx_steps a p"

definition advances :: "rx_pos \<Rightarrow> rx_pos \<Rightarrow> bool" where
  "advances p q \<longleftrightarrow> (\<exists>u. snd p = u @ snd q \<and> fst q = fst p + length u)"

lemma advances_refl: "advances p p"
  by (simp add: advances_def)

lemma advances_trans: "advances p q \<Longrightarrow> advances q r \<Longrightarrow> advances p r"
  unfolding advances_def by (metis append.assoc length_append add.assoc)

lemma rx_steps_advance: "q \<in> rx_steps r p \<Longrightarrow> advances p q"
proof (induction r arbitrary: p q)
  case (RChr P)
  then show ?case by (cases "snd p") (auto simp: advances_def split: if_splits)
next
  case (RSeq a b)
  from RSeq.prems obtain m where "m \<in> rx_steps a p" "q \<in> rx_steps b m" by auto
  then show ?case using RSeq.IH advances_trans by blast
next
  case (RStar greedy a)
  from RStar.prems have "(p, q) \<in> {(x, y). y \<in> rx_steps a x}\<^sup>*" by simp
  then show ?case by (induction) (auto intro: advances_refl advances_trans RStar.IH)
qed (auto simp: advances_refl split: if_splits)

lemma advances_same: "advances p q \<Longrightarrow> length (snd p) \<le> length (snd q) \<Longrightarrow> q = p"
  by (cases p; cases q) (auto simp: advances_def)

lemma advances_length: "advances p q \<Longrightarrow> length (snd q) \<le> length (snd p)"
  by (auto simp: advances_def)

section \<open>The matcher finds a match when there is one\<close>

text \<open>What follows must not look at the texts of the groups.\<close>

definition blind :: "(rx_state \<Rightarrow> 'x option) \<Rightarrow> bool" where
  "blind k \<longleftrightarrow> (\<forall>i t c c'. k (i, t, c) = None \<longleftrightarrow> k (i, t, c') = None)"

definition passes :: "(rx_state \<Rightarrow> 'x option) \<Rightarrow> rx_pos \<Rightarrow> bool" where
  "passes k p \<longleftrightarrow> k (fst p, snd p, Map.empty) \<noteq> None"

lemma blind_passes:
  assumes "blind k"
  shows "k (i, t, c) \<noteq> None \<longleftrightarrow> passes k (i, t)"
proof -
  have "k (i, t, c) = None \<longleftrightarrow> k (i, t, Map.empty) = None" using assms unfolding blind_def by blast
  then show ?thesis by (simp only: passes_def fst_conv snd_conv)
qed

lemma rtrancl_first: "(p, r) \<in> R\<^sup>* \<Longrightarrow> p = r \<or> (\<exists>q. (p, q) \<in> R \<and> q \<noteq> p \<and> (q, r) \<in> R\<^sup>*)"
  by (induction rule: converse_rtrancl_induct) auto

lemma or_else_ne: "or_else a b \<noteq> None \<longleftrightarrow> a \<noteq> None \<or> b \<noteq> None"
  by (cases a) simp_all

lemma or_else_either: "(if g then or_else a b else or_else b a) \<noteq> None \<longleftrightarrow> a \<noteq> None \<or> b \<noteq> None"
  by (simp add: or_else_ne del: not_None_eq) blast

lemma or_else_None: "or_else a b = None \<longleftrightarrow> a = None \<and> b = None"
  by (cases a) simp_all

text \<open>The contract of a matching step: it succeeds exactly when a reachable position lets the rest succeed.\<close>

definition finds :: "'x rx_step \<Rightarrow> (rx_pos \<Rightarrow> rx_pos set) \<Rightarrow> bool" where
  "finds f st \<longleftrightarrow> (\<forall>i s c k. blind k \<longrightarrow> (f (i, s, c) k \<noteq> None \<longleftrightarrow> (\<exists>q \<in> st (i, s). passes k q)))"

lemma findsD: "finds f st \<Longrightarrow> blind k \<Longrightarrow> f (i, s, c) k \<noteq> None \<longleftrightarrow> (\<exists>q \<in> st (i, s). passes k q)"
  by (simp add: finds_def)

lemma finds_blind: "finds f st \<Longrightarrow> blind k \<Longrightarrow> blind (\<lambda>t. f t k)"
  unfolding blind_def[of "\<lambda>t. f t k"] using findsD by blast

lemma finds_passes: "finds f st \<Longrightarrow> blind k \<Longrightarrow> passes (\<lambda>t. f t k) p \<longleftrightarrow> (\<exists>q \<in> st p. passes k q)"
  unfolding passes_def[of "\<lambda>t. f t k"] using findsD[of f st k "fst p" "snd p" Map.empty] by simp

lemma star_iter_finds:
  assumes f: "finds f st" and adv: "\<And>p q. q \<in> st p \<Longrightarrow> advances p q" and k: "blind k"
  shows "length s < n \<Longrightarrow> star_iter n greedy f (i, s, c) k \<noteq> None \<longleftrightarrow> (\<exists>q. ((i, s), q) \<in> {(x, y). y \<in> st x}\<^sup>* \<and> passes k q)"
proof (induction n arbitrary: i s c)
  case (Suc n)
  let ?R = "{(x, y). y \<in> st x}"
  let ?l = "\<lambda>t. if length (rx_rest t) < length s then star_iter n greedy f t k else k t"
  have l: "?l (j, t, d) \<noteq> None \<longleftrightarrow> (\<exists>q. ((j, t), q) \<in> ?R\<^sup>* \<and> passes k q) \<and> length t < length s \<or> passes k (j, t) \<and> \<not> length t < length s" for j t d
    using Suc.IH[of t j d] Suc.prems blind_passes[OF k, of j t d] by (cases "length t < length s") auto
  then have bl: "blind ?l" unfolding blind_def by blast
  have pl: "passes ?l q \<longleftrightarrow> (\<exists>r. (q, r) \<in> ?R\<^sup>* \<and> passes k r) \<and> length (snd q) < length s \<or> passes k q \<and> \<not> length (snd q) < length s" for q
    using l[of "fst q" "snd q" Map.empty] by (simp add: passes_def)
  have body: "f (i, s, c) ?l \<noteq> None \<longleftrightarrow> (\<exists>q \<in> st (i, s). passes ?l q)" by (rule findsD[OF f bl])
  have eq: "star_iter (Suc n) greedy f (i, s, c) k \<noteq> None \<longleftrightarrow> f (i, s, c) ?l \<noteq> None \<or> passes k (i, s)"
    by (simp only: star_iter.simps or_else_either fst_conv snd_conv blind_passes[OF k])
  show ?case
    unfolding eq body
  proof
    assume "(\<exists>q \<in> st (i, s). passes ?l q) \<or> passes k (i, s)"
    then show "\<exists>q. ((i, s), q) \<in> ?R\<^sup>* \<and> passes k q"
      using pl by (auto intro: converse_rtrancl_into_rtrancl)
  next
    assume "\<exists>q. ((i, s), q) \<in> ?R\<^sup>* \<and> passes k q"
    then obtain q where q: "((i, s), q) \<in> ?R\<^sup>*" "passes k q" by blast
    show "(\<exists>q \<in> st (i, s). passes ?l q) \<or> passes k (i, s)"
    proof (cases "q = (i, s)")
      case False
      then obtain m where m: "m \<in> st (i, s)" "m \<noteq> (i, s)" "(m, q) \<in> ?R\<^sup>*" using rtrancl_first[OF q(1)] by auto
      then have "length (snd m) < length s" using advances_same[OF adv[OF m(1)]] by fastforce
      then show ?thesis using m(1,3) q(2) pl by blast
    qed (use q(2) in simp)
  qed
qed simp

theorem rx_match_finds: "finds (rx_match r) (rx_steps r)"
proof (induction r)
  case (RSeq a b)
  then show ?case unfolding finds_def[of "rx_match (RSeq a b)"]
    by (simp add: findsD[OF RSeq(1) finds_blind[OF RSeq(2)]] finds_passes[OF RSeq(2)] del: not_None_eq)
next
  case (RAlt a b)
  then show ?case unfolding finds_def by (auto simp: or_else_ne simp del: not_None_eq)
next
  case (ROpt a)
  then show ?case unfolding finds_def by (auto simp: or_else_ne blind_passes simp del: not_None_eq)
next
  case (RStar greedy a)
  show ?case unfolding finds_def rx_match.simps(8) rx_steps.simps mem_Collect_eq fst_conv snd_conv
    using star_iter_finds[OF RStar rx_steps_advance _ lessI] by (simp only: Bex_def mem_Collect_eq) simp
next
  case (RGroup n a)
  show ?case unfolding finds_def
  proof (intro allI impI)
    fix i s c and k :: "rx_state \<Rightarrow> 'a option"
    let ?k = "\<lambda>(i, t, c). k (i, t, c(n \<mapsto> take (length s - length t) s))"
    assume k: "blind k"
    then have "blind ?k" and "passes ?k q \<longleftrightarrow> passes k q" for q
      using blind_passes[OF k] by (auto simp: blind_def passes_def)
    then show "rx_match (RGroup n a) (i, s, c) k \<noteq> None \<longleftrightarrow> (\<exists>q \<in> rx_steps (RGroup n a) (i, s). passes k q)"
      using findsD[OF RGroup] by (simp del: not_None_eq)
  qed
qed (auto simp: finds_def blind_passes simp del: not_None_eq)

end
