(* ===== verification/Snmp_Conf.thy ===== *)
theory Snmp_Conf
  imports Go_Regexp_Steps "HOL-Library.AList"
begin

text \<open>
  Credentials of devices from the configuration file of NeDi, \<^verbatim>\<open>connectors/snmp/utils/nediConfUtils.go\<close>.  The environment and
  the content of the file are arguments, and so is the compiler of regular expressions.  A file that cannot be read to
  its end is a content with the flag of a read error.
\<close>

section \<open>Passwords\<close>

unbundle bit_operations_syntax

definition xor_byte :: "char \<Rightarrow> char \<Rightarrow> char" where
  "xor_byte a b = char_of ((of_char a :: nat) XOR of_char b)"

text \<open>The key is turned by one byte in every round; its last byte is used.\<close>

fun xor_loop :: "bytes \<Rightarrow> bytes \<Rightarrow> bytes \<Rightarrow> bytes exec" where
  "xor_loop k [] r = Done r"
| "xor_loop k (ch # s) r =
     (if k = [] then Panic IndexOutOfRange
      else let i = last k in xor_loop (i # butlast k) s (r @ [xor_byte ch i]))"

definition XORpass :: "(bytes \<Rightarrow> bytes option) \<Rightarrow> bytes \<Rightarrow> bytes exec" where
  "XORpass LookupEnv s =
     xor_loop (case LookupEnv ''NEDI_ENCRYPT_KEY'' of Some v \<Rightarrow> v | None \<Rightarrow> ''change for more security'') s []"

definition nedi_Decrypt :: "(bytes \<Rightarrow> bytes option) \<Rightarrow> bytes \<Rightarrow> bytes option exec" where
  "nedi_Decrypt LookupEnv s =
     (case DecodeString s of None \<Rightarrow> Done None | Some enc \<Rightarrow> bind_exec (XORpass LookupEnv enc) (\<lambda>r. Done (Some r)))"

definition nedi_Encrypt :: "(bytes \<Rightarrow> bytes option) \<Rightarrow> bytes \<Rightarrow> bytes exec" where
  "nedi_Encrypt LookupEnv s = bind_exec (XORpass LookupEnv s) (\<lambda>r. Done (EncodeToString r))"

section \<open>The configuration file\<close>

definition retrieveConfFilepath :: "(bytes \<Rightarrow> bytes option) \<Rightarrow> bytes" where
  "retrieveConfFilepath LookupEnv =
     (let p = (case LookupEnv ''NEDI_CONF_PATH'' of None \<Rightarrow> [] | Some v \<Rightarrow> v)
      in if p = [] then [] else if \<not> HasSuffix p ''/'' then p @ ''/'' else p)"

record SecurityData =
  sd_Name :: bytes
  sd_AuthProtocol :: bytes
  sd_AuthPassword :: bytes
  sd_PrivacyProtocol :: bytes
  sd_PrivacyPassword :: bytes

datatype conf_error = OpenFailed | AuthPasswordFailed | PrivacyPasswordFailed | ReadFailed | NoInfo

text \<open>
  \<^verbatim>\<open>bufio.Scanner\<close> on lines: the end of a line is LF or CR LF, a last line without one counts when it is not empty, and a line
  that fills the buffer of 65536 bytes ends the scan with an error.
\<close>

definition MaxScanTokenSize :: nat where "MaxScanTokenSize = 65536"

definition drop_cr :: "bytes \<Rightarrow> bytes" where
  "drop_cr l = (if l \<noteq> [] \<and> last l = CHR 0x0D then butlast l else l)"

definition text_lines :: "bytes \<Rightarrow> bytes list" where
  "text_lines s = (let ls = Split s (CHR 0x0A) in if last ls = [] then butlast ls else ls)"

definition scan_lines :: "bytes \<Rightarrow> bytes list \<times> bool" where
  "scan_lines s =
     (let ls = text_lines s
      in (map drop_cr (takeWhile (\<lambda>l. length l < MaxScanTokenSize) ls), \<forall>l \<in> set ls. length l < MaxScanTokenSize))"

definition comm_cols :: "bytes list" where
  "comm_cols = [''comm'', ''name'', ''aprot'', ''apass'', ''pprot'', ''ppass'']"

text \<open>The columns of a line: blanks are removed, empty columns are skipped, and columns after the sixth have no name.\<close>

definition line_columns :: "bytes \<Rightarrow> bytes list" where
  "line_columns line = filter (\<lambda>v. v \<noteq> []) (map (\<lambda>v. ReplaceAll v '' '' []) (Split line (CHR 0x09)))"

definition commDataMap :: "bytes \<Rightarrow> bytes \<Rightarrow> bytes" where
  "commDataMap line col = (case map_of (zip comm_cols (line_columns line)) col of None \<Rightarrow> [] | Some v \<Rightarrow> v)"

definition comm_pattern :: "bytes \<Rightarrow> bytes" where
  "comm_pattern community = ''comm(sec)?'' @ [CHR 0x5C] @ ''s+'' @ community @ ''('' @ [CHR 0x5C] @ ''z|'' @ [CHR 0x5C] @ ''s+)''"

definition decrypt_column :: "(bytes \<Rightarrow> bytes option) \<Rightarrow> conf_error \<Rightarrow> bytes \<Rightarrow> (conf_error + bytes) exec" where
  "decrypt_column LookupEnv err v =
     (if v = [] then Done (Inr v)
      else bind_exec (nedi_Decrypt LookupEnv v) (\<lambda>r. Done (case r of None \<Rightarrow> Inl err | Some p \<Rightarrow> Inr p)))"

definition line_data :: "(bytes \<Rightarrow> bytes option) \<Rightarrow> bytes \<Rightarrow> (conf_error + SecurityData) exec" where
  "line_data LookupEnv line =
     (let m = commDataMap line;
          data = (\<lambda>a p. \<lparr>sd_Name = m ''name'', sd_AuthProtocol = m ''aprot'', sd_AuthPassword = a,
                           sd_PrivacyProtocol = m ''pprot'', sd_PrivacyPassword = p\<rparr>)
      in if m ''comm'' = ''commsec''
         then bind_exec (decrypt_column LookupEnv AuthPasswordFailed (m ''apass'')) (\<lambda>a.
                case a of
                  Inl e \<Rightarrow> Done (Inl e)
                | Inr aPass \<Rightarrow>
                    bind_exec (decrypt_column LookupEnv PrivacyPasswordFailed (m ''ppass'')) (\<lambda>p.
                      Done (case p of Inl e \<Rightarrow> Inl e | Inr pPass \<Rightarrow> Inr (data aPass pPass))))
         else Done (Inr (data (m ''apass'') (m ''ppass''))))"

text \<open>A line that cannot be matched because the pattern is not an expression is skipped.\<close>

definition line_matches :: "(bytes \<Rightarrow> 'e + Regexp) \<Rightarrow> bytes \<Rightarrow> bytes \<Rightarrow> bool" where
  "line_matches compile pattern line =
     (case compile pattern of Inl _ \<Rightarrow> False | Inr re \<Rightarrow> leftmost re line 0 \<noteq> None)"

definition GetSecurityData :: "(bytes \<Rightarrow> 'e + Regexp) \<Rightarrow> (bytes \<Rightarrow> bytes option) \<Rightarrow> (bytes \<Rightarrow> (bytes \<times> bool) option) \<Rightarrow> bytes \<Rightarrow> bytes \<Rightarrow>
    (conf_error + SecurityData) exec" where
  "GetSecurityData compile LookupEnv files confFilepath community =
     (case files (confFilepath @ ''nedi.conf'') of
        None \<Rightarrow> Done (Inl OpenFailed)
      | Some (content, read_ok) \<Rightarrow>
          (case scan_lines content of (lines, scan_ok) \<Rightarrow>
             (case List.find (line_matches compile (comm_pattern community)) lines of
                Some line \<Rightarrow> line_data LookupEnv line
              | None \<Rightarrow> Done (Inl (if scan_ok \<and> read_ok then NoInfo else ReadFailed)))))"

section \<open>Passwords round trip\<close>

lemma xor_byte_twice: "xor_byte (xor_byte a b) b = a"
proof -
  have "(of_char a XOR of_char b :: nat) < 256"
  proof -
    have "take_bit 8 (of_char a :: nat) = of_char a" "take_bit 8 (of_char b :: nat) = of_char b"
      by (simp_all add: take_bit_nat_eq_self_iff)
    then have "take_bit 8 (of_char a XOR of_char b :: nat) = of_char a XOR of_char b" by (simp add: take_bit_xor)
    then show ?thesis by (simp only: take_bit_nat_eq_self_iff) simp
  qed
  then show ?thesis by (simp add: xor_byte_def xor.assoc)
qed

lemma xor_loop_twice:
  assumes "k \<noteq> []"
  shows "\<exists>t. xor_loop k s r = Done (r @ t) \<and> length t = length s \<and> xor_loop k t r' = Done (r' @ s)"
  using assms
proof (induction s arbitrary: k r r')
  case (Cons ch s)
  obtain t where "xor_loop (last k # butlast k) s (r @ [xor_byte ch (last k)]) = Done (r @ [xor_byte ch (last k)] @ t)"
      "length t = length s" "xor_loop (last k # butlast k) t (r' @ [ch]) = Done (r' @ [ch] @ s)"
    using Cons.IH[of "last k # butlast k" "r @ [xor_byte ch (last k)]" "r' @ [ch]"] by auto
  then show ?case
    using Cons.prems by (intro exI[of _ "xor_byte ch (last k) # t"]) (simp add: Let_def xor_byte_twice)
qed simp

definition nedi_key :: "(bytes \<Rightarrow> bytes option) \<Rightarrow> bytes" where
  "nedi_key LookupEnv = (case LookupEnv ''NEDI_ENCRYPT_KEY'' of Some v \<Rightarrow> v | None \<Rightarrow> ''change for more security'')"

lemma nedi_roundtrip:
  assumes "nedi_key LookupEnv \<noteq> []"
  shows "\<exists>t. nedi_Encrypt LookupEnv s = Done t \<and> length t = 2 * length s \<and> nedi_Decrypt LookupEnv t = Done (Some s)"
  using xor_loop_twice[OF assms, of s "[]" "[]"]
  by (auto simp: nedi_Encrypt_def nedi_Decrypt_def XORpass_def nedi_key_def length_EncodeToString)

section \<open>Which lines match\<close>

text \<open>The expression of the pattern for a community without special characters.\<close>

definition lits :: "bytes \<Rightarrow> rx" where
  "lits w = rseq (map chr w)"

abbreviation space1 :: rx where "space1 \<equiv> RSeq (RChr space_char) spaces"

definition commRegexp :: "bytes \<Rightarrow> Regexp" where
  "commRegexp community =
     \<lparr>re_prog = rseq [lits ''comm'', ROpt (RGroup 1 (lits ''sec'')), space1, lits community, RGroup 2 (RAlt REnd space1)],
      re_names = [[], [], []]\<rparr>"

lemma steps_rseq: "rx_steps (rseq (r # rs)) p = (\<Union>q \<in> rx_steps r p. rx_steps (rseq rs) q)"
  by (cases rs) simp_all

lemma steps_lits: "rx_steps (lits w) (i, s) = (if HasPrefix s w then {(i + length w, drop (length w) s)} else {})"
proof (induction w arbitrary: i s)
  case Nil
  then show ?case by (simp add: lits_def)
next
  case (Cons a w)
  show ?case using Cons.IH[of "Suc i" "tl s"] unfolding lits_def list.map
    by (cases s) (auto simp: steps_rseq HasPrefix_def)
qed

lemma star_steps: "((i, s), q) \<in> {(x, y). y \<in> rx_steps (RChr P) x}\<^sup>* \<longleftrightarrow> (\<exists>u t. s = u @ t \<and> (\<forall>a \<in> set u. P a) \<and> q = (i + length u, t))"
  (is "?l = ?r i s")
proof
  assume ?l
  then show "?r i s"
  proof (induction "(i, s)" arbitrary: i s rule: converse_rtrancl_induct)
    case (step z)
    then obtain a where a: "s = a # tl s" "P a" "z = (Suc i, tl s)" by (cases s) (auto split: if_splits)
    from step.hyps(3)[OF a(3)] obtain u t where "tl s = u @ t" "\<forall>a \<in> set u. P a" "q = (Suc i + length u, t)" by blast
    then have "s = (a # u) @ t" "\<forall>b \<in> set (a # u). P b" "q = (i + length (a # u), t)" using a(1,2) by simp_all
    then show ?case by blast
  qed auto
next
  assume "?r i s"
  then obtain u t where u: "s = u @ t" "\<forall>a \<in> set u. P a" "q = (i + length u, t)" by blast
  then show ?l
  proof (induction u arbitrary: i s)
    case (Cons a u)
    have "((i, s), (Suc i, u @ t)) \<in> {(x, y). y \<in> rx_steps (RChr P) x}" using Cons.prems by simp
    moreover have "((Suc i, u @ t), q) \<in> {(x, y). y \<in> rx_steps (RChr P) x}\<^sup>*" using Cons.prems by (intro Cons.IH) auto
    ultimately show ?case by (rule converse_rtrancl_into_rtrancl)
  qed simp
qed

lemma steps_space1: "rx_steps space1 (i, s) = {(i + length u, t) | u t. s = u @ t \<and> u \<noteq> [] \<and> (\<forall>a \<in> set u. space_char a)}"
proof (cases s)
  case (Cons a r)
  have "rx_steps space1 (i, s) = (if space_char a then {q. \<exists>u t. r = u @ t \<and> (\<forall>a \<in> set u. space_char a) \<and> q = (Suc i + length u, t)} else {})"
    unfolding Cons rx_steps.simps(5,8) by (simp add: star_steps[unfolded rx_steps.simps])
  also have "\<dots> = {(i + length u, t) | u t. s = u @ t \<and> u \<noteq> [] \<and> (\<forall>a \<in> set u. space_char a)}"
    unfolding Cons by (auto simp: Cons_eq_append_conv)
  finally show ?thesis .
qed auto

text \<open>A line matches when the word and the community stand in it, wherever that is.\<close>

lemma match_from_ne: "match_from re s i n \<noteq> None \<longleftrightarrow> (\<exists>j \<ge> i. j \<le> i + n \<and> match_at re s j \<noteq> None)"
proof (induction n arbitrary: i)
  case 0
  have "(\<exists>j \<ge> i. j \<le> i + 0 \<and> P j) \<longleftrightarrow> P i" for P using le_antisym by auto
  then show ?case by simp
next
  case (Suc n)
  have "(\<exists>j \<ge> i. j \<le> i + Suc n \<and> P j) \<longleftrightarrow> P i \<or> (\<exists>j \<ge> Suc i. j \<le> Suc i + n \<and> P j)" for P
  proof
    assume "\<exists>j \<ge> i. j \<le> i + Suc n \<and> P j"
    then obtain j where "i \<le> j" "j \<le> i + Suc n" "P j" by blast
    then show "P i \<or> (\<exists>j \<ge> Suc i. j \<le> Suc i + n \<and> P j)" by (cases "j = i") auto
  qed (auto intro: exI[of _ i] Suc_leD)
  then show ?case unfolding match_from.simps or_else_ne Suc.IH by simp
qed

lemma match_at_steps: "match_at re s i \<noteq> None \<longleftrightarrow> rx_steps (re_prog re) (i, drop i s) \<noteq> {}"
proof -
  have k: "blind (\<lambda>(j, t, c). Some (c, j))" by (simp add: blind_def)
  show ?thesis unfolding match_at_def findsD[OF rx_match_finds k] by (auto simp: passes_def)
qed

definition comm_line :: "bytes \<Rightarrow> bytes \<Rightarrow> bool" where
  "comm_line community line \<longleftrightarrow> (\<exists>pre sec sp rest. line = pre @ ''comm'' @ sec @ sp @ community @ rest \<and> sec \<in> {[], ''sec''} \<and>
     sp \<noteq> [] \<and> (\<forall>a \<in> set sp. space_char a) \<and> (rest = [] \<or> space_char (hd rest)))"

lemma steps_seq_ne: "rx_steps (rseq (r # rs)) p \<noteq> {} \<longleftrightarrow> (\<exists>q \<in> rx_steps r p. rx_steps (rseq rs) q \<noteq> {})"
  by (auto simp: steps_rseq)

lemma steps_lits_ne: "(\<exists>q \<in> rx_steps (lits w) (i, s). P q) \<longleftrightarrow> (\<exists>r. s = w @ r \<and> P (i + length w, r))"
  by (auto simp: steps_lits HasPrefix_iff)

lemma steps_space1_ne: "(\<exists>q \<in> rx_steps space1 (i, s). P q) \<longleftrightarrow> (\<exists>u t. s = u @ t \<and> u \<noteq> [] \<and> (\<forall>a \<in> set u. space_char a) \<and> P (i + length u, t))"
  unfolding steps_space1 by auto

lemma steps_end_ne: "rx_steps (rseq [RGroup 2 (RAlt REnd space1)]) (i, s) \<noteq> {} \<longleftrightarrow> s = [] \<or> space_char (hd s)"
proof -
  have "(\<exists>u t. s = u @ t \<and> u \<noteq> [] \<and> (\<forall>a \<in> set u. space_char a)) \<longleftrightarrow> s \<noteq> [] \<and> space_char (hd s)"
  proof
    assume "s \<noteq> [] \<and> space_char (hd s)"
    then have "s = [hd s] @ tl s" "\<forall>a \<in> set [hd s]. space_char a" by simp_all
    then show "\<exists>u t. s = u @ t \<and> u \<noteq> [] \<and> (\<forall>a \<in> set u. space_char a)" by blast
  qed auto
  moreover have "rx_steps space1 (i, s) \<noteq> {} \<longleftrightarrow> (\<exists>u t. s = u @ t \<and> u \<noteq> [] \<and> (\<forall>a \<in> set u. space_char a))"
    unfolding steps_space1 by auto
  ultimately show ?thesis by (auto simp del: rx_steps.simps(5))
qed

lemma steps_comm: "rx_steps (re_prog (commRegexp community)) (i, s) \<noteq> {} \<longleftrightarrow>
  (\<exists>sec sp rest. s = ''comm'' @ sec @ sp @ community @ rest \<and> sec \<in> {[], ''sec''} \<and> sp \<noteq> [] \<and> (\<forall>a \<in> set sp. space_char a) \<and>
     (rest = [] \<or> space_char (hd rest)))"
proof -
  have opt: "(\<exists>q \<in> rx_steps (ROpt (RGroup 1 (lits ''sec''))) (j, t). P q) \<longleftrightarrow> (\<exists>sec r. t = sec @ r \<and> sec \<in> {[], ''sec''} \<and> P (j + length sec, r))" for j t P
  proof -
    have "(\<exists>q \<in> rx_steps (ROpt (RGroup 1 (lits ''sec''))) (j, t). P q) \<longleftrightarrow> P (j, t) \<or> (\<exists>q \<in> rx_steps (lits ''sec'') (j, t). P q)"
      by auto
    also have "\<dots> \<longleftrightarrow> P (j, t) \<or> (\<exists>r. t = ''sec'' @ r \<and> P (j + length ''sec'', r))" unfolding steps_lits_ne ..
    also have "\<dots> \<longleftrightarrow> (\<exists>sec r. t = sec @ r \<and> sec \<in> {[], ''sec''} \<and> P (j + length sec, r))"
      by (metis add.right_neutral append_Nil insert_iff list.size(3) singletonD)
    finally show ?thesis .
  qed
  show ?thesis
    unfolding commRegexp_def Regexp.simps steps_seq_ne[of _ "_ # _"] steps_lits_ne opt steps_space1_ne steps_end_ne by blast
qed

lemma line_matches_comm:
  assumes "compile (comm_pattern community) = Inr (commRegexp community)"
  shows "line_matches compile (comm_pattern community) line \<longleftrightarrow> comm_line community line"
proof -
  have "line_matches compile (comm_pattern community) line \<longleftrightarrow> (\<exists>j \<le> length line. rx_steps (re_prog (commRegexp community)) (j, drop j line) \<noteq> {})"
    unfolding line_matches_def assms sum.case leftmost_def using match_from_ne[of "commRegexp community" line 0 "length line"]
    by (simp add: match_at_steps del: not_None_eq)
  also have "\<dots> \<longleftrightarrow> comm_line community line"
  proof
    assume "\<exists>j \<le> length line. rx_steps (re_prog (commRegexp community)) (j, drop j line) \<noteq> {}"
    then obtain j where "rx_steps (re_prog (commRegexp community)) (j, drop j line) \<noteq> {}" by blast
    then show "comm_line community line"
      unfolding steps_comm comm_line_def using append_take_drop_id[of j line] by metis
  next
    assume "comm_line community line"
    then obtain pre sec sp rest where l: "line = pre @ ''comm'' @ sec @ sp @ community @ rest" "sec \<in> {[], ''sec''}" "sp \<noteq> []"
        "\<forall>a \<in> set sp. space_char a" "rest = [] \<or> space_char (hd rest)"
      unfolding comm_line_def by blast
    then have "drop (length pre) line = ''comm'' @ sec @ sp @ community @ rest" "length pre \<le> length line" by simp_all
    then have "rx_steps (re_prog (commRegexp community)) (length pre, drop (length pre) line) \<noteq> {}" "length pre \<le> length line"
      unfolding steps_comm using l(2-5) by blast+
    then show "\<exists>j \<le> length line. rx_steps (re_prog (commRegexp community)) (j, drop j line) \<noteq> {}" by blast
  qed
  finally show ?thesis .
qed

section \<open>A file of credentials\<close>

text \<open>The file a user writes: a line for every community, with the passwords encrypted where the line says so.\<close>

record credential =
  cr_sec :: bool
  cr_data :: SecurityData

definition stored :: "(bytes \<Rightarrow> bytes option) \<Rightarrow> bool \<Rightarrow> bytes \<Rightarrow> bytes" where
  "stored LookupEnv sec p = (if sec then case nedi_Encrypt LookupEnv p of Done t \<Rightarrow> t | Panic _ \<Rightarrow> [] else p)"

definition cr_columns :: "(bytes \<Rightarrow> bytes option) \<Rightarrow> credential \<Rightarrow> bytes list" where
  "cr_columns LookupEnv e =
     (let d = cr_data e in
      sd_Name d # (if sd_AuthProtocol d = [] then [] else [sd_AuthProtocol d, stored LookupEnv (cr_sec e) (sd_AuthPassword d)] @
        (if sd_PrivacyProtocol d = [] then [] else [sd_PrivacyProtocol d, stored LookupEnv (cr_sec e) (sd_PrivacyPassword d)])))"

definition cr_line :: "(bytes \<Rightarrow> bytes option) \<Rightarrow> credential \<Rightarrow> bytes" where
  "cr_line LookupEnv e = Join ((if cr_sec e then ''commsec'' else ''comm'') # cr_columns LookupEnv e) [CHR 0x09]"

definition conf_text :: "(bytes \<Rightarrow> bytes option) \<Rightarrow> credential list \<Rightarrow> bytes" where
  "conf_text LookupEnv es = concat (map (\<lambda>e. cr_line LookupEnv e @ [CHR 0x0A]) es)"

definition solid :: "bytes \<Rightarrow> bool" where
  "solid s \<longleftrightarrow> s \<noteq> [] \<and> (\<forall>a \<in> set s. \<not> space_char a)"

definition credential_ok :: "(bytes \<Rightarrow> bytes option) \<Rightarrow> credential \<Rightarrow> bool" where
  "credential_ok LookupEnv e \<longleftrightarrow>
     (let d = cr_data e in
      (sd_AuthProtocol d = [] \<longrightarrow> sd_AuthPassword d = [] \<and> sd_PrivacyProtocol d = []) \<and>
      (sd_PrivacyProtocol d = [] \<longrightarrow> sd_PrivacyPassword d = []) \<and>
      (\<forall>c \<in> set (cr_columns LookupEnv e). solid c) \<and> \<not> Contains (Join (cr_columns LookupEnv e) [CHR 0x09]) ''comm'' \<and>
      length (cr_line LookupEnv e) < MaxScanTokenSize)"

subsection \<open>The lines\<close>

lemma tab_space: "space_char (CHR 0x09)" "space_char (CHR 0x0A)" "space_char (CHR 0x0D)" "space_char (CHR '' '')"
  by (simp_all add: space_char_def)

lemma solid_no_tab: "solid s \<Longrightarrow> CHR 0x09 \<notin> set s" "solid s \<Longrightarrow> CHR '' '' \<notin> set s"
  using tab_space by (auto simp: solid_def)

lemma cr_columns_ne: "cr_columns LookupEnv e \<noteq> []"
  by (simp add: cr_columns_def Let_def)

definition cr_word :: "credential \<Rightarrow> bytes" where
  "cr_word e = (if cr_sec e then ''commsec'' else ''comm'')"

lemma cr_word_solid: "solid (cr_word e)"
  by (simp add: cr_word_def solid_def space_char_def)

lemma cr_line_shape: "cr_line LookupEnv e = cr_word e @ CHR 0x09 # Join (cr_columns LookupEnv e) [CHR 0x09]"
  by (simp add: cr_line_def cr_word_def Join_Cons cr_columns_ne)

lemma cr_line_columns:
  assumes "credential_ok LookupEnv e" "\<forall>a \<in> set pre. \<not> space_char a"
  shows "line_columns (pre @ cr_line LookupEnv e) = (pre @ cr_word e) # cr_columns LookupEnv e"
proof -
  let ?cs = "(pre @ cr_word e) # cr_columns LookupEnv e"
  have ok: "\<forall>c \<in> set ?cs. solid c"
    using assms cr_word_solid[of e] by (auto simp: credential_ok_def Let_def solid_def)
  have "pre @ cr_line LookupEnv e = Join ?cs [CHR 0x09]" by (simp add: cr_line_shape Join_Cons cr_columns_ne)
  then have "Split (pre @ cr_line LookupEnv e) (CHR 0x09) = ?cs" using ok solid_no_tab(1) by (metis Split_Join list.distinct(1))
  moreover have "map (\<lambda>v. ReplaceAll v '' '' []) ?cs = ?cs" using ok solid_no_tab(2) ReplaceAll_no_char by (intro map_idI) blast
  ultimately show ?thesis using ok unfolding line_columns_def by (simp add: solid_def filter_id_conv)
qed

lemma stored_decrypts:
  assumes "nedi_key LookupEnv \<noteq> []"
  shows "nedi_Decrypt LookupEnv (stored LookupEnv True p) = Done (Some p)" "stored LookupEnv True p = [] \<longleftrightarrow> p = []"
  using nedi_roundtrip[OF assms, of p] by (auto simp: stored_def)

lemma stored_Nil: "nedi_key LookupEnv \<noteq> [] \<Longrightarrow> stored LookupEnv sec [] = []"
  using stored_decrypts(2) by (cases sec) (simp_all add: stored_def)

lemma commDataMap_line:
  assumes ok: "credential_ok LookupEnv e" and key: "nedi_key LookupEnv \<noteq> []" and pre: "\<forall>a \<in> set pre. \<not> space_char a"
  shows "commDataMap (pre @ cr_line LookupEnv e) ''comm'' = pre @ cr_word e"
    "commDataMap (pre @ cr_line LookupEnv e) ''name'' = sd_Name (cr_data e)"
    "commDataMap (pre @ cr_line LookupEnv e) ''aprot'' = sd_AuthProtocol (cr_data e)"
    "commDataMap (pre @ cr_line LookupEnv e) ''apass'' = stored LookupEnv (cr_sec e) (sd_AuthPassword (cr_data e))"
    "commDataMap (pre @ cr_line LookupEnv e) ''pprot'' = sd_PrivacyProtocol (cr_data e)"
    "commDataMap (pre @ cr_line LookupEnv e) ''ppass'' = stored LookupEnv (cr_sec e) (sd_PrivacyPassword (cr_data e))"
  using ok stored_Nil[OF key] unfolding commDataMap_def cr_line_columns[OF ok pre] credential_ok_def cr_columns_def comm_cols_def Let_def by auto

lemma cr_line_data:
  assumes ok: "credential_ok LookupEnv e" and key: "nedi_key LookupEnv \<noteq> []"
  shows "line_data LookupEnv (cr_line LookupEnv e) = Done (Inr (cr_data e))"
proof -
  note m = commDataMap_line[OF ok key, of "[]", simplified]
  have dec: "decrypt_column LookupEnv err (stored LookupEnv True p) = Done (Inr p)" for err p
    using stored_decrypts[OF key, of p] stored_Nil[OF key] by (simp add: decrypt_column_def)
  show ?thesis
    unfolding line_data_def Let_def m by (cases "cr_sec e") (simp_all add: cr_word_def dec, simp add: stored_def)
qed

lemma append_tab_split:
  assumes "w @ t # r = x @ t # y" "t \<notin> set w"
  obtains "x = w" "y = r" | x' where "x = w @ t # x'" "r = x' @ t # y"
proof -
  from assms(1) obtain us where "w = x @ us \<and> us @ t # r = t # y \<or> w @ us = x \<and> t # r = us @ t # y"
    by (auto simp: append_eq_append_conv2)
  then show thesis using that assms(2) by (cases us) auto
qed

lemma word_after_tab:
  assumes "pre @ u = w @ t # x" "t \<notin> set u"
  obtains us where "x = us @ u"
proof -
  from assms(1) obtain us where "pre = w @ us \<and> us @ u = t # x \<or> pre @ us = w \<and> u = us @ t # x"
    by (auto simp: append_eq_append_conv2)
  then show thesis using that assms(2) by (cases us) auto
qed

lemma solid_prefix_unique:
  assumes "solid c" "solid n" "c @ rest = n @ rest'" "rest = [] \<or> space_char (hd rest)" "rest' = [] \<or> space_char (hd rest')"
  shows "c = n"
proof -
  have "takeWhile (\<lambda>a. \<not> space_char a) (u @ v) = u" if "solid u" "v = [] \<or> space_char (hd v)" for u v
    using that by (cases v) (auto simp: solid_def takeWhile_append2)
  then show ?thesis using assms by metis
qed

lemma cr_line_tail:
  assumes "credential_ok LookupEnv e"
  obtains rest where "Join (cr_columns LookupEnv e) [CHR 0x09] = sd_Name (cr_data e) @ rest" "rest = [] \<or> space_char (hd rest)" "solid (sd_Name (cr_data e))"
proof -
  obtain cs where cs: "cr_columns LookupEnv e = sd_Name (cr_data e) # cs" by (simp add: cr_columns_def Let_def)
  have "solid (sd_Name (cr_data e))" using assms cs by (simp add: credential_ok_def Let_def)
  then show thesis using that cs tab_space(1) by (cases cs) (simp_all add: Join_Cons)
qed

lemma cr_line_comm:
  assumes "Join (cr_columns LookupEnv e) [CHR 0x09] = community @ rest" "rest = [] \<or> space_char (hd rest)"
  shows "comm_line community (pre @ cr_line LookupEnv e)"
proof -
  let ?sec = "if cr_sec e then ''sec'' else []"
  have "pre @ cr_line LookupEnv e = pre @ ''comm'' @ ?sec @ [CHR 0x09] @ community @ rest"
    by (simp add: cr_line_shape assms(1) cr_word_def)
  moreover have "?sec \<in> {[], ''sec''}" "[CHR 0x09] \<noteq> []" "\<forall>a \<in> set [CHR 0x09]. space_char a" using tab_space(1) by simp_all
  ultimately show ?thesis unfolding comm_line_def using assms(2) by blast
qed

lemma cr_line_matches:
  assumes ok: "credential_ok LookupEnv e" and c: "solid community"
  shows "comm_line community (cr_line LookupEnv e) \<longleftrightarrow> sd_Name (cr_data e) = community"
proof -
  obtain rest' where r: "Join (cr_columns LookupEnv e) [CHR 0x09] = sd_Name (cr_data e) @ rest'" "rest' = [] \<or> space_char (hd rest')"
      "solid (sd_Name (cr_data e))"
    by (rule cr_line_tail[OF ok])
  show ?thesis
  proof
    assume "comm_line community (cr_line LookupEnv e)"
    then obtain pre sec sp rest where l: "cr_line LookupEnv e = pre @ ''comm'' @ sec @ sp @ community @ rest" "sec \<in> {[], ''sec''}" "sp \<noteq> []"
        "\<forall>a \<in> set sp. space_char a" "rest = [] \<or> space_char (hd rest)"
      unfolding comm_line_def by blast
    obtain s0 sp' where sp: "sp = s0 # sp'" using l(3) by (cases sp) auto
    have "s0 \<in> set (cr_line LookupEnv e)" unfolding l(1) sp by simp
    moreover have "\<forall>a \<in> set (cr_line LookupEnv e). space_char a \<longrightarrow> a = CHR 0x09"
      using set_Join[of "cr_word e # cr_columns LookupEnv e" "[CHR 0x09]"] ok cr_word_solid[of e]
      unfolding cr_line_def cr_word_def[symmetric] by (auto simp: credential_ok_def Let_def solid_def)
    ultimately have "s0 = CHR 0x09" using l(4) sp by simp
    then have eq: "cr_word e @ CHR 0x09 # Join (cr_columns LookupEnv e) [CHR 0x09] = (pre @ ''comm'' @ sec) @ CHR 0x09 # (sp' @ community @ rest)"
      using l(1) sp by (simp add: cr_line_shape)
    show "sd_Name (cr_data e) = community"
      using eq solid_no_tab(1)[OF cr_word_solid]
    proof (cases rule: append_tab_split)
      case 1
      have "sp' = []"
      proof (rule ccontr)
        assume "sp' \<noteq> []"
        then have "space_char (hd (Join (cr_columns LookupEnv e) [CHR 0x09]))" using 1(2)[symmetric] l(4) sp by simp
        then show False using r(1,3) by (simp add: solid_def hd_append)
      qed
      then show ?thesis using solid_prefix_unique[OF c r(3) _ l(5) r(2)] 1(2) r(1) by simp
    next
      case (2 x')
      have "CHR 0x09 \<notin> set (''comm'' @ sec)" using l(2) by auto
      then obtain us where "x' = us @ ''comm'' @ sec" by (rule word_after_tab[OF 2(1)])
      then have "Join (cr_columns LookupEnv e) [CHR 0x09] = us @ ''comm'' @ (sec @ CHR 0x09 # sp' @ community @ rest)" using 2(2) by simp
      then have "Contains (Join (cr_columns LookupEnv e) [CHR 0x09]) ''comm''" unfolding Contains_iff by blast
      then show ?thesis using ok by (simp add: credential_ok_def Let_def)
    qed
  next
    assume "sd_Name (cr_data e) = community"
    then show "comm_line community (cr_line LookupEnv e)"
      using cr_line_comm[OF r(1,2), of "[]"] by simp
  qed
qed

subsection \<open>Reading the file\<close>

lemma cr_line_chars:
  assumes "credential_ok LookupEnv e"
  shows "CHR 0x0A \<notin> set (cr_line LookupEnv e)" "CHR 0x0D \<notin> set (cr_line LookupEnv e)" "cr_line LookupEnv e \<noteq> []"
proof -
  have "\<forall>a \<in> set (cr_line LookupEnv e). space_char a \<longrightarrow> a = CHR 0x09"
    using set_Join[of "cr_word e # cr_columns LookupEnv e" "[CHR 0x09]"] assms cr_word_solid[of e]
    unfolding cr_line_def cr_word_def[symmetric] by (auto simp: credential_ok_def Let_def solid_def)
  then show "CHR 0x0A \<notin> set (cr_line LookupEnv e)" "CHR 0x0D \<notin> set (cr_line LookupEnv e)" using tab_space by auto
  show "cr_line LookupEnv e \<noteq> []" by (simp add: cr_line_shape)
qed

lemma cr_line_last: "credential_ok LookupEnv e \<Longrightarrow> last (cr_line LookupEnv e) \<noteq> CHR 0x0D"
  using cr_line_chars(2) last_in_set[OF cr_line_chars(3)] by (metis (full_types))

lemma text_lines_Cons:
  assumes "CHR 0x0A \<notin> set l"
  shows "text_lines (l @ CHR 0x0A # s) = l # text_lines s"
  using assms by (simp add: text_lines_def Split_append Let_def)

lemma text_lines_conf:
  assumes "\<forall>e \<in> set es. credential_ok LookupEnv e"
  shows "text_lines (conf_text LookupEnv es @ s) = map (cr_line LookupEnv) es @ text_lines s"
  using assms
proof (induction es)
  case (Cons e es)
  then have "text_lines (conf_text LookupEnv (e # es) @ s) = cr_line LookupEnv e # text_lines (conf_text LookupEnv es @ s)"
    using text_lines_Cons[OF cr_line_chars(1), of LookupEnv e] by (simp add: conf_text_def)
  then show ?case using Cons by simp
qed (simp add: conf_text_def)

lemma scan_lines_conf:
  assumes "\<forall>e \<in> set es. credential_ok LookupEnv e"
  shows "scan_lines (conf_text LookupEnv es) = (map (cr_line LookupEnv) es, True)"
proof -
  have lines: "text_lines (conf_text LookupEnv es) = map (cr_line LookupEnv) es"
    using text_lines_conf[OF assms, of "[]"] by (simp add: text_lines_def)
  have len: "\<forall>l \<in> set (map (cr_line LookupEnv) es). length l < MaxScanTokenSize"
    using assms by (auto simp: credential_ok_def Let_def)
  have cr: "drop_cr (cr_line LookupEnv e) = cr_line LookupEnv e" if "e \<in> set es" for e
    using cr_line_last[of LookupEnv e] assms that by (simp add: drop_cr_def)
  then have "map drop_cr (map (cr_line LookupEnv) es) = map (cr_line LookupEnv) es" by simp
  then show ?thesis using len unfolding scan_lines_def lines Let_def by (simp add: takeWhile_eq_all_conv[THEN iffD2])
qed

lemma find_map: "List.find P (map f xs) = map_option f (List.find (P \<circ> f) xs)"
  by (induction xs) simp_all

lemma find_cong_on: "\<forall>x \<in> set xs. P x = Q x \<Longrightarrow> List.find P xs = List.find Q xs"
  by (induction xs) simp_all

text \<open>
  C36. A configuration file of credentials is read back: the credentials of a community are those of its first line, with the
  passwords as they were before they were encrypted; there are none exactly when no line has the community.
\<close>

theorem credentials_roundtrip:
  assumes "\<forall>e \<in> set es. credential_ok LookupEnv e" "nedi_key LookupEnv \<noteq> []" "solid community"
    and "compile (comm_pattern community) = Inr (commRegexp community)"
    and "files (confFilepath @ ''nedi.conf'') = Some (conf_text LookupEnv es, True)"
  shows "GetSecurityData compile LookupEnv files confFilepath community =
    Done (case List.find (\<lambda>e. sd_Name (cr_data e) = community) es of None \<Rightarrow> Inl NoInfo | Some e \<Rightarrow> Inr (cr_data e))"
proof -
  have "List.find (line_matches compile (comm_pattern community)) (map (cr_line LookupEnv) es) =
      map_option (cr_line LookupEnv) (List.find (\<lambda>e. sd_Name (cr_data e) = community) es)"
    unfolding find_map comp_def line_matches_comm[where compile = compile, OF assms(4)]
    using assms(1,3) cr_line_matches by (intro arg_cong[where f = "map_option (cr_line LookupEnv)"] find_cong_on) blast
  then have "GetSecurityData compile LookupEnv files confFilepath community =
      (case List.find (\<lambda>e. sd_Name (cr_data e) = community) es of None \<Rightarrow> Done (Inl NoInfo) | Some e \<Rightarrow> line_data LookupEnv (cr_line LookupEnv e))"
    by (simp add: GetSecurityData_def assms(5) scan_lines_conf[OF assms(1)] split: option.split)
  moreover have "line_data LookupEnv (cr_line LookupEnv e) = Done (Inr (cr_data e))"
    if "List.find (\<lambda>e. sd_Name (cr_data e) = community) es = Some e" for e
    using that assms(1,2) cr_line_data nth_mem unfolding find_Some_iff by metis
  ultimately show ?thesis by (simp split: option.split)
qed

text \<open>
  A line that is commented out is used all the same, and its encrypted passwords are taken as they stand.
\<close>

theorem commented_line_used:
  assumes "credential_ok LookupEnv e" "Suc (length (cr_line LookupEnv e)) < MaxScanTokenSize" "solid (sd_Name (cr_data e))"
    and "compile (comm_pattern (sd_Name (cr_data e))) = Inr (commRegexp (sd_Name (cr_data e)))"
    and "files (confFilepath @ ''nedi.conf'') = Some (CHR ''#'' # cr_line LookupEnv e @ CHR 0x0A # others, ok)"
    and "nedi_key LookupEnv \<noteq> []"
  shows "GetSecurityData compile LookupEnv files confFilepath (sd_Name (cr_data e)) = Done (Inr ((cr_data e)
    \<lparr>sd_AuthPassword := stored LookupEnv (cr_sec e) (sd_AuthPassword (cr_data e)),
     sd_PrivacyPassword := stored LookupEnv (cr_sec e) (sd_PrivacyPassword (cr_data e))\<rparr>))"
proof -
  let ?c = "sd_Name (cr_data e)" and ?l = "CHR ''#'' # cr_line LookupEnv e"
  obtain rest where r: "Join (cr_columns LookupEnv e) [CHR 0x09] = ?c @ rest" "rest = [] \<or> space_char (hd rest)"
    by (rule cr_line_tail[OF assms(1)])
  have m: "line_matches compile (comm_pattern ?c) ?l"
    unfolding line_matches_comm[where compile = compile, OF assms(4)] using cr_line_comm[OF r, of "''#''"] by simp
  have "drop_cr ?l = ?l" using cr_line_last[OF assms(1)] cr_line_chars(3)[OF assms(1)] by (simp add: drop_cr_def)
  then obtain ls sok where sc: "scan_lines (?l @ CHR 0x0A # others) = (?l # ls, sok)"
    using text_lines_Cons[of ?l others] cr_line_chars(1)[OF assms(1)] assms(2) by (simp add: scan_lines_def Let_def)
  have "\<forall>a \<in> set ''#''. \<not> space_char a" by (simp add: space_char_def)
  note d = commDataMap_line[OF assms(1,6) this, simplified]
  have "GetSecurityData compile LookupEnv files confFilepath ?c = line_data LookupEnv ?l"
    using m sc assms(5) by (simp add: GetSecurityData_def)
  also have "\<dots> = Done (Inr ((cr_data e)\<lparr>sd_AuthPassword := stored LookupEnv (cr_sec e) (sd_AuthPassword (cr_data e)),
     sd_PrivacyPassword := stored LookupEnv (cr_sec e) (sd_PrivacyPassword (cr_data e))\<rparr>))"
    unfolding line_data_def Let_def d by (simp add: cr_word_def)
  finally show ?thesis .
qed

text \<open>An empty key in the environment makes every password that is not empty panic.\<close>

lemma empty_key_panics: "nedi_key LookupEnv = [] \<Longrightarrow> s \<noteq> [] \<Longrightarrow> nedi_Encrypt LookupEnv s = Panic IndexOutOfRange"
  by (cases s) (simp_all add: nedi_Encrypt_def XORpass_def nedi_key_def)

section \<open>Witnesses\<close>

definition demo_credentials :: "credential list" where
  "demo_credentials =
     [\<lparr>cr_sec = False, cr_data = \<lparr>sd_Name = ''pub'', sd_AuthProtocol = [], sd_AuthPassword = [], sd_PrivacyProtocol = [], sd_PrivacyPassword = []\<rparr>\<rparr>,
      \<lparr>cr_sec = True, cr_data = \<lparr>sd_Name = ''v3'', sd_AuthProtocol = ''md5'', sd_AuthPassword = ''pw'', sd_PrivacyProtocol = [], sd_PrivacyPassword = []\<rparr>\<rparr>]"

definition demo_compile :: "bytes \<Rightarrow> unit + Regexp" where
  "demo_compile p = (if p = comm_pattern ''v3'' then Inr (commRegexp ''v3'') else Inl ())"

lemma demo_stored: "stored (\<lambda>_. None) True ''pw'' = ''0903''"
  by code_simp

lemma demo_credentials_ok: "\<forall>e \<in> set demo_credentials. credential_ok (\<lambda>_. None) e"
  by (simp add: demo_credentials_def credential_ok_def cr_columns_def cr_line_def demo_stored solid_def space_char_def HasPrefix_def MaxScanTokenSize_def)

theorem credentials_roundtrip_witness:
  "GetSecurityData demo_compile (\<lambda>_. None) (\<lambda>_. Some (conf_text (\<lambda>_. None) demo_credentials, True)) [] ''v3'' =
     Done (Inr \<lparr>sd_Name = ''v3'', sd_AuthProtocol = ''md5'', sd_AuthPassword = ''pw'', sd_PrivacyProtocol = [], sd_PrivacyPassword = []\<rparr>)"
  using credentials_roundtrip[OF demo_credentials_ok, of "''v3''" demo_compile "\<lambda>_. Some (conf_text (\<lambda>_. None) demo_credentials, True)" "[]"]
  by (simp add: nedi_key_def solid_def space_char_def demo_compile_def demo_credentials_def)

theorem commented_line_used_witness:
  "GetSecurityData demo_compile (\<lambda>_. None) (\<lambda>_. Some (CHR ''#'' # cr_line (\<lambda>_. None) (demo_credentials ! 1) @ [CHR 0x0A], True)) [] ''v3'' =
     Done (Inr \<lparr>sd_Name = ''v3'', sd_AuthProtocol = ''md5'', sd_AuthPassword = ''0903'', sd_PrivacyProtocol = [], sd_PrivacyPassword = []\<rparr>)"
proof -
  have ok: "credential_ok (\<lambda>_. None) (demo_credentials ! 1)" using demo_credentials_ok by (simp add: demo_credentials_def)
  have "stored (\<lambda>_. None) True [] = []" by (simp add: stored_Nil nedi_key_def)
  then show ?thesis
    using commented_line_used[OF ok, of demo_compile "\<lambda>_. Some (CHR ''#'' # cr_line (\<lambda>_. None) (demo_credentials ! 1) @ [CHR 0x0A], True)" "[]" "[]" True]
    by (simp add: demo_credentials_def cr_line_def cr_columns_def demo_stored nedi_key_def solid_def space_char_def demo_compile_def MaxScanTokenSize_def)
qed

end
