(* ===== verification/Snmp_Client.thy ===== *)
theory Snmp_Client
  imports Snmp_Conf Transit_Model
begin

text \<open>
  The SNMP client, \<^verbatim>\<open>connectors/snmp/clients/snmpClient.go\<close>.  The package \<^verbatim>\<open>gosnmp\<close> is outside: what connecting gives and what a walk
  over a subtree delivers are functions on a world state.  A connection is a number; the model keeps which ones were opened and
  closed.  Names and descriptions of metrics, which nothing reads, are left out.
\<close>

section \<open>Metrics\<close>

record SnmpMetric =
  sm_Key :: bytes
  sm_Mib :: bytes
  sm_Oid :: bytes

definition IfInOctets :: bytes where "IfInOctets = ''ifInOctets''"
definition IfOutOctets :: bytes where "IfOutOctets = ''ifOutOctets''"
definition IfHCInOctets :: bytes where "IfHCInOctets = ''ifHCInOctets''"
definition IfHCOutOctets :: bytes where "IfHCOutOctets = ''ifHCOutOctets''"
definition BytesPerSecondIn :: bytes where "BytesPerSecondIn = ''bytesPerSecondIn''"
definition BytesPerSecondOut :: bytes where "BytesPerSecondOut = ''bytesPerSecondOut''"

definition AvailableMetrics :: "(bytes \<times> SnmpMetric) list" where
  "AvailableMetrics =
     [(''ifSpeed'', \<lparr>sm_Key = ''ifSpeed'', sm_Mib = ''ifSpeed'', sm_Oid = ''1.3.6.1.2.1.2.2.1.5''\<rparr>),
      (''ifInErrors'', \<lparr>sm_Key = ''ifInErrors'', sm_Mib = ''ifInErrors'', sm_Oid = ''1.3.6.1.2.1.2.2.1.14''\<rparr>),
      (''ifOutErrors'', \<lparr>sm_Key = ''ifOutErrors'', sm_Mib = ''ifOutErrors'', sm_Oid = ''1.3.6.1.2.1.2.2.1.20''\<rparr>),
      (''ifInDiscards'', \<lparr>sm_Key = ''ifInDiscards'', sm_Mib = ''ifInDiscards'', sm_Oid = ''1.3.6.1.2.1.2.2.1.13''\<rparr>),
      (''ifOutDiscards'', \<lparr>sm_Key = ''ifOutDiscards'', sm_Mib = ''ifOutDiscards'', sm_Oid = ''1.3.6.1.2.1.2.2.1.19''\<rparr>),
      (IfInOctets, \<lparr>sm_Key = ''bytesIn'', sm_Mib = ''ifInOctets'', sm_Oid = ''1.3.6.1.2.1.2.2.1.10''\<rparr>),
      (IfOutOctets, \<lparr>sm_Key = ''bytesOut'', sm_Mib = ''ifOutOctets'', sm_Oid = ''1.3.6.1.2.1.2.2.1.16''\<rparr>),
      (IfHCInOctets, \<lparr>sm_Key = ''bytesInX64'', sm_Mib = ''ifHCInOctets'', sm_Oid = ''1.3.6.1.2.1.31.1.1.1.6''\<rparr>),
      (IfHCOutOctets, \<lparr>sm_Key = ''bytesOutX64'', sm_Mib = ''ifHCOutOctets'', sm_Oid = ''1.3.6.1.2.1.31.1.1.1.10''\<rparr>)]"

definition NonMibMetrics :: "(bytes \<times> SnmpMetric) list" where
  "NonMibMetrics =
     [(BytesPerSecondIn, \<lparr>sm_Key = ''bytesPerSecondIn'', sm_Mib = ''-'', sm_Oid = []\<rparr>),
      (BytesPerSecondOut, \<lparr>sm_Key = ''bytesPerSecondOut'', sm_Mib = ''-'', sm_Oid = []\<rparr>)]"

record SnmpValue =
  sv_Name :: bytes
  sv_Value :: int

record SnmpMetricData =
  sx_SnmpMetric :: SnmpMetric
  sx_Values :: "SnmpValue list"

section \<open>Setting up\<close>

datatype snmp_version = Version2c | Version3
datatype auth_protocol = MD5 | SHA
datatype priv_protocol = PrivUnset | AES | DES
datatype msg_flags = AuthNoPriv | AuthPriv

record UsmSecurityParameters =
  us_UserName :: bytes
  us_AuthenticationProtocol :: auth_protocol
  us_AuthenticationPassphrase :: bytes
  us_PrivacyProtocol :: priv_protocol
  us_PrivacyPassphrase :: bytes

record GoSNMP =
  gs_Target :: bytes
  gs_Port :: int
  gs_Community :: bytes
  gs_Version :: snmp_version
  gs_Timeout :: duration
  gs_MaxRepetitions :: nat
  gs_MaxOids :: nat
  gs_SecurityParameters :: "(msg_flags \<times> UsmSecurityParameters) option"

datatype snmp_error =
    NoMibs | ValidationFailed | UnknownAuthProtocol | UnknownPrivProtocol | ConnectFailed
  | MissingMib | UnsupportedMetric bytes | NotConnected | WalkFailed

definition validate :: "bytes \<Rightarrow> SecurityData option \<Rightarrow> bool" where
  "validate target secData \<longleftrightarrow>
     target \<noteq> [] \<and>
     (case secData of
        None \<Rightarrow> False
      | Some d \<Rightarrow> sd_Name d \<noteq> [] \<and> \<not> (sd_AuthProtocol d \<noteq> [] \<and> sd_AuthPassword d = []) \<and>
                  \<not> (sd_PrivacyProtocol d \<noteq> [] \<and> sd_PrivacyPassword d = []))"

definition snmp_timeout :: duration where "snmp_timeout = 2000000000"

definition setupV2c :: "bytes \<Rightarrow> SecurityData \<Rightarrow> snmp_error + GoSNMP" where
  "setupV2c target community =
     (if \<not> validate target (Some community) then Inl ValidationFailed
      else Inr \<lparr>gs_Target = target, gs_Port = 161, gs_Community = sd_Name community, gs_Version = Version2c, gs_Timeout = snmp_timeout,
                gs_MaxRepetitions = 2, gs_MaxOids = 1, gs_SecurityParameters = None\<rparr>)"

definition auth_of :: "bytes \<Rightarrow> auth_protocol option" where
  "auth_of s = (if ToLower s = ''md5'' then Some MD5 else if ToLower s = ''sha'' then Some SHA else None)"

definition priv_of :: "bytes \<Rightarrow> priv_protocol option" where
  "priv_of s = (if ToLower s = ''aes'' then Some AES else if ToLower s = ''des'' then Some DES else None)"

definition setupV3 :: "bytes \<Rightarrow> SecurityData \<Rightarrow> snmp_error + GoSNMP" where
  "setupV3 target community =
     (if \<not> validate target (Some community) then Inl ValidationFailed
      else case auth_of (sd_AuthProtocol community) of
        None \<Rightarrow> Inl UnknownAuthProtocol
      | Some authProtocol \<Rightarrow>
          (let usm = (\<lambda>flags priv. Inr \<lparr>gs_Target = target, gs_Port = 161, gs_Community = [], gs_Version = Version3, gs_Timeout = snmp_timeout,
                 gs_MaxRepetitions = 0, gs_MaxOids = 0,
                 gs_SecurityParameters = Some (flags, \<lparr>us_UserName = sd_Name community, us_AuthenticationProtocol = authProtocol,
                    us_AuthenticationPassphrase = sd_AuthPassword community, us_PrivacyProtocol = priv,
                    us_PrivacyPassphrase = sd_PrivacyPassword community\<rparr>)\<rparr>)
           in if sd_PrivacyProtocol community \<noteq> []
              then (case priv_of (sd_PrivacyProtocol community) of None \<Rightarrow> Inl UnknownPrivProtocol | Some p \<Rightarrow> usm AuthPriv p)
              else usm AuthNoPriv PrivUnset))"

definition snmp_setup :: "bytes \<Rightarrow> SecurityData option \<Rightarrow> (snmp_error + GoSNMP) exec" where
  "snmp_setup target secData =
     bind_exec (deref secData) (\<lambda>d. Done (if sd_AuthProtocol d \<noteq> [] then setupV3 target d else setupV2c target d))"

section \<open>Getting data\<close>

text \<open>A value of a walk: unsigned numbers are read as 64-bit ones, every other type is not supported.\<close>

datatype pdu_value = PUint "64 word" | PUint64 "64 word" | POther

type_synonym pdu = "bytes \<times> pdu_value"

record 'w snmp_lib =
  lib_Connect :: "GoSNMP \<Rightarrow> 'w \<Rightarrow> 'w \<times> nat option \<times> bool" \<comment> \<open>the connection afterwards, nil or not, and whether it worked\<close>
  lib_Walk :: "GoSNMP \<Rightarrow> nat \<Rightarrow> bytes \<Rightarrow> 'w \<Rightarrow> 'w \<times> pdu list \<times> bool"

record 'w snmp_state =
  ss_world :: 'w
  ss_Conn :: "nat option"
  ss_opened :: "nat list"
  ss_closed :: "nat list"

definition snmp_Connect :: "'w snmp_lib \<Rightarrow> GoSNMP \<Rightarrow> 'w snmp_state \<Rightarrow> 'w snmp_state \<times> bool" where
  "snmp_Connect lib g s =
     (case lib_Connect lib g (ss_world s) of
        (w, conn, ok) \<Rightarrow> (s\<lparr>ss_world := w, ss_Conn := conn, ss_opened := ss_opened s @ (case conn of None \<Rightarrow> [] | Some c \<Rightarrow> [c])\<rparr>, ok))"

definition Conn_Close :: "nat option \<Rightarrow> 'w snmp_state \<Rightarrow> 'w snmp_state exec" where
  "Conn_Close conn s = bind_exec (deref conn) (\<lambda>c. Done (s\<lparr>ss_closed := ss_closed s @ [c]\<rparr>))"

definition walkHandler :: "pdu \<Rightarrow> SnmpValue" where
  "walkHandler dataUnit =
     \<lparr>sv_Name = fst dataUnit, sv_Value = (case snd dataUnit of PUint v \<Rightarrow> sint v | PUint64 v \<Rightarrow> sint v | POther \<Rightarrow> 0)\<rparr>"

definition getSnmpData :: "'w snmp_lib \<Rightarrow> bytes \<Rightarrow> GoSNMP \<Rightarrow> 'w snmp_state \<Rightarrow> 'w snmp_state \<times> (snmp_error + SnmpMetricData)" where
  "getSnmpData lib mib g s =
     (if mib = [] then (s, Inl MissingMib)
      else case map_of AvailableMetrics mib of
        None \<Rightarrow> (s, Inl (UnsupportedMetric mib))
      | Some m \<Rightarrow>
          (case ss_Conn s of
             None \<Rightarrow> (s, Inl NotConnected)
           | Some c \<Rightarrow>
               (case lib_Walk lib g c (sm_Oid m) (ss_world s) of
                  (w, pdus, ok) \<Rightarrow>
                    (s\<lparr>ss_world := w\<rparr>, if ok then Inr \<lparr>sx_SnmpMetric = m, sx_Values = map walkHandler pdus\<rparr> else Inl WalkFailed))))"

fun snmp_loop :: "'w snmp_lib \<Rightarrow> GoSNMP \<Rightarrow> bytes list \<Rightarrow> 'w snmp_state \<Rightarrow> SnmpMetricData list \<Rightarrow> ('w snmp_state \<times> SnmpMetricData list) exec" where
  "snmp_loop lib g [] s data = Done (s, data)"
| "snmp_loop lib g (mib # mibs) s data =
     (case getSnmpData lib mib g s of
        (s1, Inl _) \<Rightarrow>
          bind_exec (Conn_Close (ss_Conn s1) s1) (\<lambda>s2.
            case snmp_Connect lib g s2 of (s3, _) \<Rightarrow> snmp_loop lib g mibs s3 data)
      | (s1, Inr mibData) \<Rightarrow> snmp_loop lib g mibs s1 (data @ [mibData]))"

text \<open>The connection that is closed at the end is the one of the time the deferred call is made, the first one.\<close>

definition GetSnmpData :: "'w snmp_lib \<Rightarrow> bytes list \<Rightarrow> bytes \<Rightarrow> SecurityData option \<Rightarrow> 'w snmp_state \<Rightarrow>
    ('w snmp_state \<times> (snmp_error + SnmpMetricData list)) exec" where
  "GetSnmpData lib mibs target secData s =
     (if mibs = [] then Done (s, Inl NoMibs)
      else bind_exec (snmp_setup target secData) (\<lambda>r.
        case r of
          Inl e \<Rightarrow> Done (s, Inl e)
        | Inr g \<Rightarrow>
            (case snmp_Connect lib g s of
               (s1, ok) \<Rightarrow>
                 if \<not> ok then Done (s1, Inl ConnectFailed)
                 else bind_exec (deref (ss_Conn s1)) (\<lambda>first.
                      bind_exec (snmp_loop lib g mibs s1 []) (\<lambda>(s2, data).
                      bind_exec (Conn_Close (Some first) s2) (\<lambda>s3. Done (s3, Inr data)))))))"

section \<open>Properties\<close>

text \<open>The first walk that fails leaves a connection that is never closed; without one, all connections are closed.\<close>

lemma getSnmpData_conn:
  assumes "getSnmpData lib mib g s = (s', r)"
  shows "ss_Conn s' = ss_Conn s \<and> ss_opened s' = ss_opened s \<and> ss_closed s' = ss_closed s"
  using assms by (auto simp: getSnmpData_def split: if_splits option.splits prod.splits)

lemma snmp_loop_not_connected:
  assumes "ss_Conn s = None" "mibs \<noteq> []"
  shows "snmp_loop lib g mibs s data = Panic NilDereference"
proof -
  obtain m ms where m: "mibs = m # ms" using assms(2) by (cases mibs) auto
  have "\<exists>e. getSnmpData lib m g s = (s, Inl e)" using assms(1) by (auto simp: getSnmpData_def split: option.split)
  then show ?thesis using m assms(1) by (auto simp: Conn_Close_def)
qed

lemma snmp_loop_reconnects:
  assumes "getSnmpData lib mib g s = (s1, Inl e)" "ss_Conn s = Some c"
  obtains s3 ok where "snmp_Connect lib g (s1\<lparr>ss_closed := ss_closed s @ [c]\<rparr>) = (s3, ok)"
    "snmp_loop lib g (mib # mibs) s data = snmp_loop lib g mibs s3 data" "ss_closed s3 = ss_closed s @ [c]"
    "ss_opened s3 = ss_opened s @ (case ss_Conn s3 of None \<Rightarrow> [] | Some c \<Rightarrow> [c])"
proof -
  note k = getSnmpData_conn[OF assms(1)]
  let ?s2 = "s1\<lparr>ss_closed := ss_closed s @ [c]\<rparr>"
  obtain s3 ok where c: "snmp_Connect lib g ?s2 = (s3, ok)" by (cases "snmp_Connect lib g ?s2")
  then have "ss_closed s3 = ss_closed s @ [c]" "ss_opened s3 = ss_opened s @ (case ss_Conn s3 of None \<Rightarrow> [] | Some c \<Rightarrow> [c])"
    using k by (auto simp: snmp_Connect_def split: prod.splits)
  moreover have "snmp_loop lib g (mib # mibs) s data = snmp_loop lib g mibs s3 data"
    using assms k c by (simp add: Conn_Close_def)
  ultimately show thesis using that c by blast
qed

text \<open>While a connection is open, it is the last one opened, and all others are closed.\<close>

lemma snmp_loop_conns:
  assumes "snmp_loop lib g mibs s data = Done (s', data')" "ss_opened s \<noteq> []" "ss_Conn s = Some (last (ss_opened s))"
    and "ss_closed s = butlast (ss_opened s)"
  shows "\<exists>more. ss_opened s' = ss_opened s @ more \<and>
    (case ss_Conn s' of None \<Rightarrow> ss_closed s' = ss_opened s' | Some c \<Rightarrow> c = last (ss_opened s') \<and> ss_closed s' = butlast (ss_opened s'))"
  using assms
proof (induction mibs arbitrary: s data)
  case (Cons mib mibs)
  obtain s1 r where g: "getSnmpData lib mib g s = (s1, r)" by (cases "getSnmpData lib mib g s")
  show ?case
  proof (cases r)
    case (Inr d)
    then have "snmp_loop lib g mibs s1 (data @ [d]) = Done (s', data')" using Cons.prems(1) g by simp
    then show ?thesis using Cons.IH[of s1 "data @ [d]"] Cons.prems(2-4) getSnmpData_conn[OF g] by simp
  next
    case (Inl e)
    obtain s3 ok where s3: "snmp_loop lib g (mib # mibs) s data = snmp_loop lib g mibs s3 data" "ss_closed s3 = ss_closed s @ [last (ss_opened s)]"
        "ss_opened s3 = ss_opened s @ (case ss_Conn s3 of None \<Rightarrow> [] | Some c \<Rightarrow> [c])"
      by (rule snmp_loop_reconnects[OF g[unfolded Inl] Cons.prems(3)])
    have clo: "ss_closed s3 = ss_opened s" using s3(2) Cons.prems(2,4) by simp
    show ?thesis
    proof (cases "ss_Conn s3")
      case None
      have "snmp_loop lib g mibs s3 data = Done (s', data')" using s3(1) Cons.prems(1) by (rule trans[OF sym])
      then have "mibs = []" using snmp_loop_not_connected[OF None, of mibs lib g data] by (cases "mibs = []") simp_all
      then show ?thesis using Cons.prems(1) s3 None clo by simp
    next
      case (Some c)
      then show ?thesis using Cons.IH[of s3 data] Cons.prems(1) s3 clo by auto
    qed
  qed
qed simp

lemma GetSnmpData_DoneE:
  assumes "GetSnmpData lib mibs target secData s = Done (s', Inr data)"
  obtains g s1 first s2 where "snmp_Connect lib g s = (s1, True)" "ss_Conn s1 = Some first"
    "snmp_loop lib g mibs s1 [] = Done (s2, data)" "s' = s2\<lparr>ss_closed := ss_closed s2 @ [first]\<rparr>"
proof -
  from assms obtain r where "snmp_setup target secData = Done r" "mibs \<noteq> []" by (auto simp: GetSnmpData_def split: if_splits)
  moreover obtain g where "r = Inr g" using assms calculation by (cases r) (simp_all add: GetSnmpData_def)
  moreover obtain s1 ok where "snmp_Connect lib g s = (s1, ok)" by (cases "snmp_Connect lib g s")
  ultimately show thesis using assms that by (auto simp: GetSnmpData_def Conn_Close_def split: if_splits)
qed

lemma last_of_distinct:
  assumes "distinct (x # xs)" "xs \<noteq> []"
  shows "set (x # xs) - set (butlast (x # xs)) = {last (x # xs)}" "x \<in> set (butlast (x # xs))"
proof -
  obtain ys y where l: "x # xs = ys @ [y]" by (metis append_butlast_last_id list.distinct(1))
  have "set (ys @ [y]) - set ys = {y}" using assms(1) unfolding l by auto
  then show "set (x # xs) - set (butlast (x # xs)) = {last (x # xs)}" unfolding l by simp
  show "x \<in> set (butlast (x # xs))" using assms(2) by simp
qed

text \<open>
  When a walk has failed, the connection made in its place is still open at the end: what is closed then is the first connection,
  which is closed already.  When no walk fails, every connection is closed.
\<close>

theorem snmp_connection_left_open:
  assumes "GetSnmpData lib mibs target secData \<lparr>ss_world = w, ss_Conn = None, ss_opened = [], ss_closed = []\<rparr> = Done (s', Inr data)"
    and "distinct (ss_opened s')"
  shows "set (ss_opened s') - set (ss_closed s') = (if length (ss_opened s') = 1 then {} else set_option (ss_Conn s'))"
proof -
  let ?s = "\<lparr>ss_world = w, ss_Conn = None, ss_opened = [], ss_closed = []\<rparr>"
  from assms(1) obtain g s1 first s2 where r: "snmp_Connect lib g ?s = (s1, True)" "ss_Conn s1 = Some first"
      "snmp_loop lib g mibs s1 [] = Done (s2, data)" "s' = s2\<lparr>ss_closed := ss_closed s2 @ [first]\<rparr>"
    by (rule GetSnmpData_DoneE)
  then have s1: "ss_opened s1 = [first]" "ss_closed s1 = []" by (auto simp: snmp_Connect_def split: prod.splits)
  obtain more where m: "ss_opened s2 = first # more"
      "case ss_Conn s2 of None \<Rightarrow> ss_closed s2 = ss_opened s2 | Some c \<Rightarrow> c = last (ss_opened s2) \<and> ss_closed s2 = butlast (ss_opened s2)"
    using snmp_loop_conns[OF r(3)] r(2) s1 by auto
  have d: "distinct (first # more)" using assms(2) m(1) r(4) by simp
  show ?thesis
  proof (cases "ss_Conn s2")
    case None
    then show ?thesis using m r(4) by auto
  next
    case (Some c)
    then have c: "c = last (first # more)" "ss_closed s2 = butlast (first # more)" using m by simp_all
    show ?thesis
    proof (cases "more = []")
      case False
      note l = last_of_distinct[OF d False]
      have "set (ss_opened s') = set (first # more)" "set (ss_closed s') = set (butlast (first # more))"
        using m(1) r(4) c(2) l(2) by (simp_all del: butlast.simps add: insert_absorb)
      then show ?thesis using l(1) Some c(1) m(1) r(4) False by (simp del: butlast.simps last.simps)
    qed (use m(1) r(4) in auto)
  qed
qed

text \<open>When the connection cannot be made again, the next metric makes the collection panic.\<close>

theorem failed_reconnect_panics:
  assumes "snmp_setup target secData = Done (Inr g)" "lib_Connect lib g w = (w1, Some c, True)" "mibs = m1 # m2 # rest"
    and "map_of AvailableMetrics m1 = Some metric" "m1 \<noteq> []" "lib_Walk lib g c (sm_Oid metric) w1 = (w2, pdus, False)"
    and "lib_Connect lib g w2 = (w3, None, False)"
  shows "GetSnmpData lib mibs target secData \<lparr>ss_world = w, ss_Conn = None, ss_opened = [], ss_closed = []\<rparr> = Panic NilDereference"
proof -
  let ?s3 = "\<lparr>ss_world = w3, ss_Conn = None, ss_opened = [c], ss_closed = [c]\<rparr>"
  have "snmp_loop lib g mibs \<lparr>ss_world = w1, ss_Conn = Some c, ss_opened = [c], ss_closed = []\<rparr> [] = snmp_loop lib g (m2 # rest) ?s3 []"
    using assms(3-7) by (simp add: getSnmpData_def Conn_Close_def snmp_Connect_def)
  also have "\<dots> = Panic NilDereference" by (rule snmp_loop_not_connected) simp_all
  finally show ?thesis using assms(1-3) by (simp add: GetSnmpData_def snmp_Connect_def del: snmp_loop.simps)
qed

section \<open>Witnesses\<close>

definition demo_sec :: SecurityData where
  "demo_sec = \<lparr>sd_Name = ''pub'', sd_AuthProtocol = [], sd_AuthPassword = [], sd_PrivacyProtocol = [], sd_PrivacyPassword = []\<rparr>"

text \<open>A device that does not answer for speeds, with a network that loses the connection after \<open>n\<close> attempts.\<close>

definition demo_lib :: "nat \<Rightarrow> nat snmp_lib" where
  "demo_lib n = \<lparr>lib_Connect = (\<lambda>g w. if w < n then (Suc w, Some w, True) else (w, None, False)),
     lib_Walk = (\<lambda>g c oid w. if oid = ''1.3.6.1.2.1.2.2.1.5'' then (w, [], False) else (w, [(''1'', PUint 7)], True))\<rparr>"

definition demo_snmp :: "nat snmp_state" where
  "demo_snmp = \<lparr>ss_world = 0, ss_Conn = None, ss_opened = [], ss_closed = []\<rparr>"

theorem snmp_connection_left_open_witness:
  "\<exists>s' data. GetSnmpData (demo_lib 5) [''ifSpeed'', ''ifInErrors''] ''10.0.0.1'' (Some demo_sec) demo_snmp = Done (s', Inr data) \<and>
     set (ss_opened s') - set (ss_closed s') = {1}"
proof -
  have "\<exists>data. GetSnmpData (demo_lib 5) [''ifSpeed'', ''ifInErrors''] ''10.0.0.1'' (Some demo_sec) demo_snmp =
      Done (\<lparr>ss_world = 2, ss_Conn = Some 1, ss_opened = [0, 1], ss_closed = [0, 0]\<rparr>, Inr data)"
    by (simp add: GetSnmpData_def snmp_setup_def setupV2c_def validate_def demo_sec_def snmp_Connect_def demo_lib_def demo_snmp_def
        getSnmpData_def AvailableMetrics_def Conn_Close_def)
  then obtain data where r: "GetSnmpData (demo_lib 5) [''ifSpeed'', ''ifInErrors''] ''10.0.0.1'' (Some demo_sec) demo_snmp =
      Done (\<lparr>ss_world = 2, ss_Conn = Some 1, ss_opened = [0, 1], ss_closed = [0, 0]\<rparr>, Inr data)" ..
  show ?thesis using r snmp_connection_left_open[OF r[unfolded demo_snmp_def]] by simp
qed

theorem failed_reconnect_panics_witness:
  "GetSnmpData (demo_lib 1) [''ifSpeed'', ''ifInErrors''] ''10.0.0.1'' (Some demo_sec) demo_snmp = Panic NilDereference"
proof -
  obtain g where g: "snmp_setup ''10.0.0.1'' (Some demo_sec) = Done (Inr g)"
    by (simp add: snmp_setup_def setupV2c_def validate_def demo_sec_def)
  show ?thesis unfolding demo_snmp_def
    by (rule failed_reconnect_panics[OF g, of "demo_lib 1" 0 1 0 _ "''ifSpeed''" "''ifInErrors''" "[]"
          "\<lparr>sm_Key = ''ifSpeed'', sm_Mib = ''ifSpeed'', sm_Oid = ''1.3.6.1.2.1.2.2.1.5''\<rparr>" 1 "[]" 1])
      (simp_all add: demo_lib_def AvailableMetrics_def)
qed

end
