(* ===== verification/Snmp_Model.thy ===== *)
theory Snmp_Model
  imports Snmp_Nedi Snmp_Client Transit_Profile Connector_Build
begin

text \<open>
  Monitored devices and what is sent of them, \<^verbatim>\<open>connectors/snmp/model.go\<close>.  The cache of the values of the last collection is a map that
  is passed along.  A map the code ranges over is an association list with different keys; the order of the iteration is an argument.
  The clock, an argument in nanoseconds, is read once for a collection.
\<close>

section \<open>Devices\<close>

record InterfaceMetric =
  im_Key :: bytes
  im_Mib :: bytes
  im_Value :: int

record cachedMetric = InterfaceMetric +
  cm_ts :: int

record InterfaceExt =
  ie_Interface :: Interface
  ie_Metrics :: "(bytes \<times> InterfaceMetric) list"

record DeviceExt =
  de_Device :: Device
  de_SecData :: "SecurityData option"
  de_Interfaces :: "(int \<times> InterfaceExt) list"

type_synonym value_cache = "bytes \<rightharpoonup> cachedMetric"
type_synonym metric_definitions = "bytes \<rightharpoonup> MetricDefinition"

record snmp_orders =
  od_devices :: "(bytes \<times> DeviceExt) list \<Rightarrow> (bytes \<times> DeviceExt) list"
  od_interfaces :: "(int \<times> InterfaceExt) list \<Rightarrow> (int \<times> InterfaceExt) list"
  od_metrics :: "(bytes \<times> InterfaceMetric) list \<Rightarrow> (bytes \<times> InterfaceMetric) list"
  od_known :: "(bytes \<times> SnmpMetric) list \<Rightarrow> (bytes \<times> SnmpMetric) list"

definition HostUnreachable :: bytes where "HostUnreachable = ''HOST_UNREACHABLE''"

definition FiveMinutes :: int where "FiveMinutes = 300"

definition Unix :: "timestamp \<Rightarrow> int" where
  "Unix t = t div 1000000000"

definition calculateHostStatus :: "timestamp \<Rightarrow> int \<Rightarrow> bytes" where
  "calculateHostStatus now lastOk = (if wrap64 (Unix now - lastOk) < FiveMinutes then HostUp else HostUnreachable)"

definition isDelta :: "bytes \<Rightarrow> bool" where
  "isDelta k = EqualFold k Delta"

definition makeCK :: "bytes \<Rightarrow> bytes \<Rightarrow> bytes \<Rightarrow> bytes" where
  "makeCK deviceName iFaceName mib = deviceName @ '':'' @ iFaceName @ '':'' @ mib"

definition makeMetricBuilder :: "MetricDefinition \<Rightarrow> bytes \<Rightarrow> timestamp \<Rightarrow> MetricBuilder" where
  "makeMetricBuilder d metricName t =
     \<lparr>mb_Name = metricName, mb_CustomName = md_CustomName d, mb_ComputeType = md_ComputeType d, mb_Expression = md_Expression d,
      mb_Value = A_other, mb_UnitType = Some (MA_UnitType UnitCounter), mb_Warning = Some (A_int (word_of_int (md_WarningThreshold d))),
      mb_Critical = Some (A_int (word_of_int (md_CriticalThreshold d))), mb_StartTimestamp = Some t, mb_EndTimestamp = Some t,
      mb_Graphed = md_Graphed d, mb_Tags = Map.empty\<rparr>"

section \<open>Metrics of an interface\<close>

definition metric_value :: "(bytes \<times> InterfaceMetric) list \<Rightarrow> bytes \<Rightarrow> int" where
  "metric_value ms mib = (case map_of ms mib of None \<Rightarrow> 0 | Some m \<Rightarrow> im_Value m)"

definition rate :: "int \<Rightarrow> cachedMetric \<Rightarrow> int \<Rightarrow> int exec" where
  "rate v prev ts = bind_exec (go_div (wrap64 (v - im_Value prev)) (wrap64 (ts - cm_ts prev))) (\<lambda>q. Done (wrap64 q))"

text \<open>The counter of 64 bits when the cache has one, else the one of 32 bits, else nothing.\<close>

definition per_second :: "value_cache \<Rightarrow> bytes \<Rightarrow> bytes \<Rightarrow> (bytes \<times> InterfaceMetric) list \<Rightarrow> int \<Rightarrow> bytes \<Rightarrow> bytes \<Rightarrow> int option exec" where
  "per_second cache device iFace ms ts hc lo =
     (case cache (makeCK device iFace hc) of
        Some prev \<Rightarrow> bind_exec (rate (metric_value ms hc) prev ts) (\<lambda>v. Done (Some v))
      | None \<Rightarrow>
          (case cache (makeCK device iFace lo) of
             Some prev \<Rightarrow> bind_exec (rate (metric_value ms lo) prev ts) (\<lambda>v. Done (Some v))
           | None \<Rightarrow> Done None))"

definition non_mib_builder :: "metric_definitions \<Rightarrow> timestamp \<Rightarrow> value_cache \<Rightarrow> bytes \<Rightarrow> bytes \<Rightarrow> (bytes \<times> InterfaceMetric) list \<Rightarrow> bytes \<Rightarrow>
    MetricBuilder list exec" where
  "non_mib_builder defs t cache device iFace ms key =
     (case defs key of
        None \<Rightarrow> Done []
      | Some d \<Rightarrow>
          bind_exec (if key = BytesPerSecondIn then per_second cache device iFace ms (Unix t) IfHCInOctets IfInOctets
                     else if key = BytesPerSecondOut then per_second cache device iFace ms (Unix t) IfHCOutOctets IfOutOctets
                     else Done None) (\<lambda>v.
            Done (case v of None \<Rightarrow> [] | Some x \<Rightarrow> [(makeMetricBuilder d key t)\<lparr>mb_Value := A_int64 (word_of_int x)\<rparr>])))"

definition to_cached :: "InterfaceMetric \<Rightarrow> int \<Rightarrow> cachedMetric" where
  "to_cached m ts = \<lparr>im_Key = im_Key m, im_Mib = im_Mib m, im_Value = im_Value m, cm_ts = ts\<rparr>"

fun mib_builders :: "metric_definitions \<Rightarrow> timestamp \<Rightarrow> bytes \<Rightarrow> bytes \<Rightarrow> (bytes \<times> InterfaceMetric) list \<Rightarrow> value_cache \<Rightarrow>
    value_cache \<times> MetricBuilder list" where
  "mib_builders defs t device iFace [] cache = (cache, [])"
| "mib_builders defs t device iFace ((mib, metric) # ms) cache =
     (case defs (im_Mib metric) of
        None \<Rightarrow> mib_builders defs t device iFace ms cache
      | Some d \<Rightarrow>
          (let ck = makeCK device iFace mib;
               b = makeMetricBuilder d (im_Key metric) t;
               bs = (if isDelta (md_MetricType d)
                     then (case cache ck of
                             None \<Rightarrow> []
                           | Some prev \<Rightarrow> [b\<lparr>mb_Value := A_int64 (word_of_int (im_Value metric - im_Value prev))\<rparr>])
                     else [b\<lparr>mb_Value := A_int64 (word_of_int (im_Value metric))\<rparr>])
           in case mib_builders defs t device iFace ms (cache(ck \<mapsto> to_cached metric (Unix t))) of
                (cache', rest) \<Rightarrow> (cache', bs @ rest)))"

definition interface_builders :: "snmp_orders \<Rightarrow> metric_definitions \<Rightarrow> timestamp \<Rightarrow> bytes \<Rightarrow> InterfaceExt \<Rightarrow> value_cache \<Rightarrow>
    (value_cache \<times> MetricBuilder list) exec" where
  "interface_builders ord defs t device i cache =
     (let name = if_Name (ie_Interface i) in
      bind_exec (map_exec (non_mib_builder defs t cache device name (ie_Metrics i)) (map fst (od_known ord NonMibMetrics))) (\<lambda>rates.
        case mib_builders defs t device name (od_metrics ord (ie_Metrics i)) cache of
          (cache', bs) \<Rightarrow> Done (cache', concat rates @ bs)))"

section \<open>Services and resources\<close>

text \<open>The state of an interface decides the text and may raise the status; a text about thresholds is appended.\<close>

definition interface_text :: "int \<Rightarrow> bytes option" where
  "interface_text status =
     (if status = 0 then Some ''Interface Operational State is DOWN, Administrative state is DOWN''
      else if status = 1 then Some ''Interface Operational State is DOWN, Administrative state is UP''
      else if status = 2 then Some ''Administrative state is DOWN''
      else if status = 3 then Some ''Interface Operational State is UP, Administrative state is UP''
      else if status = -1 then Some ''Interface Operational and Administrative states are UNKNOWN''
      else None)"

definition interface_status :: "int \<Rightarrow> bytes \<Rightarrow> bytes" where
  "interface_status status st =
     (if status = 1 then ServiceUnscheduledCritical
      else if (status = 0 \<or> status = 2) \<and> st = ServiceOk then ServiceWarning
      else st)"

definition apply_interface :: "int \<Rightarrow> MonitoredService \<Rightarrow> MonitoredService" where
  "apply_interface status s =
     (let info = ms_MonitoredInfo s;
          thresholdMessage = mi_LastPluginOutput info;
          output = (case interface_text status of Some out \<Rightarrow> out | None \<Rightarrow> thresholdMessage);
          output' = (if thresholdMessage = [] then output
                     else if output \<noteq> [] then output @ '' | '' @ thresholdMessage else thresholdMessage)
      in s\<lparr>ms_MonitoredInfo := info\<lparr>mi_Status := interface_status status (mi_Status info), mi_LastPluginOutput := output'\<rparr>\<rparr>)"

definition interface_service :: "(bytes \<Rightarrow> f64 option) \<Rightarrow> duration \<Rightarrow> snmp_orders \<Rightarrow> metric_definitions \<Rightarrow> timestamp \<Rightarrow> bytes \<Rightarrow> InterfaceExt \<Rightarrow>
    value_cache \<Rightarrow> (value_cache \<times> MonitoredService list) exec" where
  "interface_service hex ci ord defs t device i cache =
     bind_exec (interface_builders ord defs t device i cache) (\<lambda>(cache', bs).
     bind_exec (BuildServiceForMetrics hex t ci (if_Name (ie_Interface i)) device bs) (\<lambda>r.
       Done (cache', case r of Inr (Some s) \<Rightarrow> [apply_interface (if_Status (ie_Interface i)) s] | _ \<Rightarrow> [])))"

fun interface_services :: "(bytes \<Rightarrow> f64 option) \<Rightarrow> duration \<Rightarrow> snmp_orders \<Rightarrow> metric_definitions \<Rightarrow> timestamp \<Rightarrow> bytes \<Rightarrow> (int \<times> InterfaceExt) list \<Rightarrow>
    value_cache \<Rightarrow> (value_cache \<times> MonitoredService list) exec" where
  "interface_services hex ci ord defs t device [] cache = Done (cache, [])"
| "interface_services hex ci ord defs t device ((_, i) # is) cache =
     bind_exec (interface_service hex ci ord defs t device i cache) (\<lambda>(c1, s1).
     bind_exec (interface_services hex ci ord defs t device is c1) (\<lambda>(c2, s2). Done (c2, s1 @ s2)))"

definition retrieveMonitoredServices :: "(bytes \<Rightarrow> f64 option) \<Rightarrow> duration \<Rightarrow> snmp_orders \<Rightarrow> metric_definitions option \<Rightarrow> timestamp \<Rightarrow> DeviceExt \<Rightarrow>
    value_cache \<Rightarrow> (value_cache \<times> MonitoredService list) exec" where
  "retrieveMonitoredServices hex ci ord metricDefinitions t device cache =
     (case metricDefinitions of
        None \<Rightarrow> Done (cache, [])
      | Some defs \<Rightarrow> interface_services hex ci ord defs t (dv_Name (de_Device device)) (od_interfaces ord (de_Interfaces device)) cache)"

fun retrieve_resources :: "(bytes \<Rightarrow> f64 option) \<Rightarrow> duration \<Rightarrow> snmp_orders \<Rightarrow> metric_definitions option \<Rightarrow> timestamp \<Rightarrow> (bytes \<times> DeviceExt) list \<Rightarrow>
    value_cache \<Rightarrow> (value_cache \<times> MonitoredResource list) exec" where
  "retrieve_resources hex ci ord defs t [] cache = Done (cache, [])"
| "retrieve_resources hex ci ord defs t ((_, device) # ds) cache =
     bind_exec (retrieveMonitoredServices hex ci ord defs t device cache) (\<lambda>(c1, mServices).
     bind_exec (retrieve_resources hex ci ord defs t ds c1) (\<lambda>(c2, rs).
       Done (c2, (case CreateResource t ci (dv_Name (de_Device device)) [RA_Services mServices] of
                    Inl _ \<Rightarrow> []
                  | Inr r \<Rightarrow> [r\<lparr>mr_MonitoredInfo := (mr_MonitoredInfo r)\<lparr>mi_Status := calculateHostStatus t (dv_LastOK (de_Device device))\<rparr>\<rparr>]) @ rs)))"

definition retrieveMonitoredResources :: "(bytes \<Rightarrow> f64 option) \<Rightarrow> duration \<Rightarrow> snmp_orders \<Rightarrow> metric_definitions option \<Rightarrow> timestamp \<Rightarrow>
    (bytes \<times> DeviceExt) list \<Rightarrow> value_cache \<Rightarrow> (value_cache \<times> MonitoredResource list) exec" where
  "retrieveMonitoredResources hex ci ord defs t devices cache = retrieve_resources hex ci ord defs t (od_devices ord devices) cache"

section \<open>A collection compares with the one before\<close>

subsection \<open>Keys of the cache\<close>

definition no_colon :: "bytes \<Rightarrow> bool" where
  "no_colon s \<longleftrightarrow> CHR '':'' \<notin> set s"

lemma colon_split: "x @ CHR '':'' # r = y @ CHR '':'' # q \<Longrightarrow> no_colon x \<Longrightarrow> no_colon y \<Longrightarrow> x = y \<and> r = q"
  unfolding no_colon_def by (erule append_tab_split) auto

lemma makeCK_inj:
  assumes "makeCK d i m = makeCK d' i' m'" "no_colon d" "no_colon d'" "no_colon i" "no_colon i'"
  shows "d = d' \<and> i = i' \<and> m = m'"
  using colon_split[of d "i @ CHR '':'' # m" d' "i' @ CHR '':'' # m'"] colon_split[of i m i' m'] assms by (simp add: makeCK_def)

lemma makeCK_mib: "makeCK d i m = makeCK d i m' \<longleftrightarrow> m = m'"
  by (simp add: makeCK_def)

subsection \<open>What a collection reads and writes\<close>

type_synonym cache_updates = "(bytes \<times> cachedMetric) list"

definition put :: "cache_updates \<Rightarrow> value_cache \<Rightarrow> value_cache" where
  "put us cache = fold (\<lambda>(k, v) c. c(k \<mapsto> v)) us cache"

lemma put_append: "put (us @ vs) cache = put vs (put us cache)"
  by (simp add: put_def)

lemma put_other: "k \<notin> fst ` set us \<Longrightarrow> put us cache k = cache k"
  by (induction us arbitrary: cache) (auto simp: put_def)

lemma put_distinct: "distinct (map fst us) \<Longrightarrow> (k, v) \<in> set us \<Longrightarrow> put us cache k = Some v"
proof (induction us arbitrary: cache)
  case (Cons u us)
  have step: "put (u # us) cache = put us (cache(fst u \<mapsto> snd u))" by (cases u) (simp add: put_def)
  show ?case
  proof (cases "(k, v) = u")
    case True
    then show ?thesis using Cons.prems(1) put_other[of k us] unfolding step by force
  qed (use Cons step in auto)
qed simp

definition own_updates :: "metric_definitions \<Rightarrow> timestamp \<Rightarrow> bytes \<Rightarrow> bytes \<Rightarrow> (bytes \<times> InterfaceMetric) list \<Rightarrow> cache_updates" where
  "own_updates defs t device iFace ms =
     map (\<lambda>(mib, m). (makeCK device iFace mib, to_cached m (Unix t))) (filter (\<lambda>(mib, m). defs (im_Mib m) \<noteq> None) ms)"

definition mib_builder_of :: "metric_definitions \<Rightarrow> timestamp \<Rightarrow> value_cache \<Rightarrow> bytes \<Rightarrow> bytes \<Rightarrow> bytes \<times> InterfaceMetric \<Rightarrow> MetricBuilder list" where
  "mib_builder_of defs t cache device iFace p =
     (case defs (im_Mib (snd p)) of
        None \<Rightarrow> []
      | Some d \<Rightarrow>
          (let b = makeMetricBuilder d (im_Key (snd p)) t
           in if isDelta (md_MetricType d)
              then (case cache (makeCK device iFace (fst p)) of
                      None \<Rightarrow> []
                    | Some prev \<Rightarrow> [b\<lparr>mb_Value := A_int64 (word_of_int (im_Value (snd p) - im_Value prev))\<rparr>])
              else [b\<lparr>mb_Value := A_int64 (word_of_int (im_Value (snd p)))\<rparr>]))"

lemma mib_builders_reads:
  assumes "distinct (map fst ms)" "\<forall>mib \<in> fst ` set ms. c (makeCK device iFace mib) = cache (makeCK device iFace mib)"
  shows "mib_builders defs t device iFace ms c =
    (put (own_updates defs t device iFace ms) c, concat (map (mib_builder_of defs t cache device iFace) ms))"
  using assms
proof (induction ms arbitrary: c)
  case (Cons p ms)
  obtain mib m where p: "p = (mib, m)" by (cases p)
  show ?case
  proof (cases "defs (im_Mib m)")
    case None
    then show ?thesis using Cons by (simp add: p own_updates_def mib_builder_of_def)
  next
    case (Some d)
    let ?c = "c(makeCK device iFace mib \<mapsto> to_cached m (Unix t))"
    have "\<forall>x \<in> fst ` set ms. ?c (makeCK device iFace x) = cache (makeCK device iFace x)"
      using Cons.prems by (auto simp: p makeCK_mib)
    then have "mib_builders defs t device iFace ms ?c =
        (put (own_updates defs t device iFace ms) ?c, concat (map (mib_builder_of defs t cache device iFace) ms))"
      by (rule Cons.IH[rotated]) (use Cons.prems(1) in simp)
    then show ?thesis using Some Cons.prems(2)
      by (simp add: p own_updates_def mib_builder_of_def[of defs t cache device iFace "(mib, m)"] put_def Let_def cong: option.case_cong)
  qed
qed (simp add: own_updates_def put_def)

text \<open>The same with the values of the cache before the collection throughout.\<close>

definition snapshot_builders :: "snmp_orders \<Rightarrow> metric_definitions \<Rightarrow> timestamp \<Rightarrow> value_cache \<Rightarrow> bytes \<Rightarrow> InterfaceExt \<Rightarrow> MetricBuilder list exec" where
  "snapshot_builders ord defs t cache device i =
     (let name = if_Name (ie_Interface i) in
      bind_exec (map_exec (non_mib_builder defs t cache device name (ie_Metrics i)) (map fst (od_known ord NonMibMetrics))) (\<lambda>rates.
        Done (concat rates @ concat (map (mib_builder_of defs t cache device name) (od_metrics ord (ie_Metrics i))))))"

definition interface_updates :: "snmp_orders \<Rightarrow> metric_definitions \<Rightarrow> timestamp \<Rightarrow> bytes \<Rightarrow> InterfaceExt \<Rightarrow> cache_updates" where
  "interface_updates ord defs t device i = own_updates defs t device (if_Name (ie_Interface i)) (od_metrics ord (ie_Metrics i))"

definition same_entries :: "bytes \<Rightarrow> bytes \<Rightarrow> value_cache \<Rightarrow> value_cache \<Rightarrow> bool" where
  "same_entries device iFace c c' \<longleftrightarrow> (\<forall>mib. c (makeCK device iFace mib) = c' (makeCK device iFace mib))"

lemma interface_builders_snapshot:
  assumes "distinct (map fst (od_metrics ord (ie_Metrics i)))" "same_entries device (if_Name (ie_Interface i)) c cache"
  shows "interface_builders ord defs t device i c =
    bind_exec (snapshot_builders ord defs t cache device i) (\<lambda>bs. Done (put (interface_updates ord defs t device i) c, bs))"
proof -
  have "c (makeCK device (if_Name (ie_Interface i)) mib) = cache (makeCK device (if_Name (ie_Interface i)) mib)" for mib
    using assms(2) by (simp add: same_entries_def)
  then have "per_second c device (if_Name (ie_Interface i)) = per_second cache device (if_Name (ie_Interface i))"
    by (simp add: fun_eq_iff per_second_def cong: option.case_cong)
  then have "non_mib_builder defs t c device (if_Name (ie_Interface i)) ms = non_mib_builder defs t cache device (if_Name (ie_Interface i)) ms" for ms
    by (simp only: non_mib_builder_def[abs_def])
  moreover have "mib_builders defs t device (if_Name (ie_Interface i)) (od_metrics ord (ie_Metrics i)) c =
      (put (interface_updates ord defs t device i) c,
       concat (map (mib_builder_of defs t cache device (if_Name (ie_Interface i))) (od_metrics ord (ie_Metrics i))))"
    using mib_builders_reads[OF assms(1)] assms(2) by (simp add: same_entries_def interface_updates_def)
  ultimately show ?thesis by (simp add: interface_builders_def snapshot_builders_def Let_def)
qed

definition snapshot_service :: "(bytes \<Rightarrow> f64 option) \<Rightarrow> duration \<Rightarrow> snmp_orders \<Rightarrow> metric_definitions \<Rightarrow> timestamp \<Rightarrow> value_cache \<Rightarrow> bytes \<Rightarrow>
    InterfaceExt \<Rightarrow> MonitoredService list exec" where
  "snapshot_service hex ci ord defs t cache device i =
     bind_exec (snapshot_builders ord defs t cache device i) (\<lambda>bs.
     bind_exec (BuildServiceForMetrics hex t ci (if_Name (ie_Interface i)) device bs) (\<lambda>r.
       Done (case r of Inr (Some s) \<Rightarrow> [apply_interface (if_Status (ie_Interface i)) s] | _ \<Rightarrow> [])))"

definition interfaces_ok :: "snmp_orders \<Rightarrow> (int \<times> InterfaceExt) list \<Rightarrow> bool" where
  "interfaces_ok ord is \<longleftrightarrow> distinct (map (\<lambda>(_, i). if_Name (ie_Interface i)) is) \<and>
     (\<forall>(_, i) \<in> set is. no_colon (if_Name (ie_Interface i)) \<and> distinct (map fst (od_metrics ord (ie_Metrics i))))"

definition device_updates :: "snmp_orders \<Rightarrow> metric_definitions \<Rightarrow> timestamp \<Rightarrow> bytes \<Rightarrow> (int \<times> InterfaceExt) list \<Rightarrow> cache_updates" where
  "device_updates ord defs t device is = concat (map (\<lambda>(_, i). interface_updates ord defs t device i) is)"

lemma interface_updates_keys:
  "k \<in> fst ` set (interface_updates ord defs t device i) \<Longrightarrow> \<exists>mib. k = makeCK device (if_Name (ie_Interface i)) mib"
  by (auto simp: interface_updates_def own_updates_def)

lemma same_entries_put:
  assumes "\<And>k. k \<in> fst ` set us \<Longrightarrow> \<exists>i mib. k = makeCK d i mib \<and> no_colon i \<and> (d, i) \<noteq> (device, iFace)"
    and "no_colon d" "no_colon device" "no_colon iFace"
  shows "same_entries device iFace (put us c) cache = same_entries device iFace c cache"
proof -
  have "makeCK device iFace mib \<notin> fst ` set us" for mib
  proof
    assume "makeCK device iFace mib \<in> fst ` set us"
    then obtain i m where "makeCK device iFace mib = makeCK d i m" "no_colon i" "(d, i) \<noteq> (device, iFace)" using assms(1) by blast
    then show False using makeCK_inj assms(2-4) by blast
  qed
  then show ?thesis by (simp add: same_entries_def put_other)
qed

lemma interface_service_snapshot:
  assumes "distinct (map fst (od_metrics ord (ie_Metrics i)))" "same_entries device (if_Name (ie_Interface i)) c cache"
  shows "interface_service hex ci ord defs t device i c =
    bind_exec (snapshot_service hex ci ord defs t cache device i) (\<lambda>ss. Done (put (interface_updates ord defs t device i) c, ss))"
  by (simp add: interface_service_def snapshot_service_def interface_builders_snapshot[OF assms])

lemma interface_services_snapshot:
  assumes "interfaces_ok ord is" "no_colon device" "\<forall>(_, i) \<in> set is. same_entries device (if_Name (ie_Interface i)) c cache"
  shows "interface_services hex ci ord defs t device is c =
    bind_exec (map_exec (\<lambda>(_, i). snapshot_service hex ci ord defs t cache device i) is) (\<lambda>ss.
      Done (put (device_updates ord defs t device is) c, concat ss))"
  using assms
proof (induction "is" arbitrary: c)
  case (Cons p "is")
  obtain x i where p: "p = (x, i)" by (cases p)
  let ?c = "put (interface_updates ord defs t device i) c"
  have ok: "interfaces_ok ord is" "no_colon (if_Name (ie_Interface i))" "distinct (map fst (od_metrics ord (ie_Metrics i)))"
      "\<forall>(_, j) \<in> set is. if_Name (ie_Interface j) \<noteq> if_Name (ie_Interface i) \<and> no_colon (if_Name (ie_Interface j))"
    using Cons.prems(1) by (auto simp: interfaces_ok_def p image_iff split_beta)
  have "same_entries device (if_Name (ie_Interface j)) ?c cache" if "(y, j) \<in> set is" for y j
    using same_entries_put[of "interface_updates ord defs t device i" device device "if_Name (ie_Interface j)" c cache]
      interface_updates_keys[of _ ord defs t device i] ok(2,4) that Cons.prems(2,3) by fastforce
  then have "interface_services hex ci ord defs t device is ?c =
      bind_exec (map_exec (\<lambda>(_, i). snapshot_service hex ci ord defs t cache device i) is) (\<lambda>ss. Done (put (device_updates ord defs t device is) ?c, concat ss))"
    using Cons.IH[OF ok(1) Cons.prems(2), of ?c] by (auto split: prod.split)
  moreover have "same_entries device (if_Name (ie_Interface i)) c cache" using Cons.prems(3) p by simp
  ultimately show ?case by (simp add: p interface_service_snapshot[OF ok(3)] device_updates_def put_append)
qed (simp add: device_updates_def put_def)

definition snapshot_resource :: "(bytes \<Rightarrow> f64 option) \<Rightarrow> duration \<Rightarrow> snmp_orders \<Rightarrow> metric_definitions \<Rightarrow> timestamp \<Rightarrow> value_cache \<Rightarrow> DeviceExt \<Rightarrow>
    MonitoredResource list exec" where
  "snapshot_resource hex ci ord defs t cache device =
     bind_exec (map_exec (\<lambda>(_, i). snapshot_service hex ci ord defs t cache (dv_Name (de_Device device)) i) (od_interfaces ord (de_Interfaces device))) (\<lambda>ss.
       Done (case CreateResource t ci (dv_Name (de_Device device)) [RA_Services (concat ss)] of
               Inl _ \<Rightarrow> []
             | Inr r \<Rightarrow> [r\<lparr>mr_MonitoredInfo := (mr_MonitoredInfo r)\<lparr>mi_Status := calculateHostStatus t (dv_LastOK (de_Device device))\<rparr>\<rparr>]))"

text \<open>Different device names without colons, and on every device different interface names without colons.\<close>

definition devices_ok :: "snmp_orders \<Rightarrow> (bytes \<times> DeviceExt) list \<Rightarrow> bool" where
  "devices_ok ord ds \<longleftrightarrow> distinct (map (\<lambda>(_, d). dv_Name (de_Device d)) ds) \<and>
     (\<forall>(_, d) \<in> set ds. no_colon (dv_Name (de_Device d)) \<and> interfaces_ok ord (od_interfaces ord (de_Interfaces d)))"

definition collected :: "snmp_orders \<Rightarrow> metric_definitions \<Rightarrow> timestamp \<Rightarrow> (bytes \<times> DeviceExt) list \<Rightarrow> cache_updates" where
  "collected ord defs t ds = concat (map (\<lambda>(_, d). device_updates ord defs t (dv_Name (de_Device d)) (od_interfaces ord (de_Interfaces d))) ds)"

lemma device_updates_keys:
  assumes "k \<in> fst ` set (device_updates ord defs t device is)" "interfaces_ok ord is"
  shows "\<exists>i mib. k = makeCK device i mib \<and> no_colon i"
proof -
  from assms(1) obtain x i where "(x, i) \<in> set is" "k \<in> fst ` set (interface_updates ord defs t device i)"
    by (auto simp: device_updates_def)
  moreover have "no_colon (if_Name (ie_Interface i))" using calculation(1) assms(2) by (auto simp: interfaces_ok_def)
  ultimately show ?thesis using interface_updates_keys by blast
qed

lemma retrieve_resources_snapshot:
  assumes "devices_ok ord ds"
    and "\<And>x d i. (x, d) \<in> set ds \<Longrightarrow> no_colon i \<Longrightarrow> same_entries (dv_Name (de_Device d)) i c cache"
  shows "retrieve_resources hex ci ord (Some defs) t ds c =
    bind_exec (map_exec (\<lambda>(_, d). snapshot_resource hex ci ord defs t cache d) ds) (\<lambda>rs. Done (put (collected ord defs t ds) c, concat rs))"
  using assms
proof (induction ds arbitrary: c)
  case (Cons p ds)
  obtain x d where p: "p = (x, d)" by (cases p)
  let ?n = "dv_Name (de_Device d)" and ?is = "od_interfaces ord (de_Interfaces d)"
  let ?c = "put (device_updates ord defs t ?n ?is) c"
  have ok: "devices_ok ord ds" "no_colon ?n" "interfaces_ok ord ?is"
      "\<forall>(_, e) \<in> set ds. dv_Name (de_Device e) \<noteq> ?n \<and> no_colon (dv_Name (de_Device e))"
    using Cons.prems(1) by (auto simp: devices_ok_def p image_iff split_beta)
  have here: "\<forall>(_, i) \<in> set ?is. same_entries ?n (if_Name (ie_Interface i)) c cache"
    using Cons.prems(2)[of x d] ok(3) by (auto simp: p interfaces_ok_def)
  have "same_entries (dv_Name (de_Device e)) i ?c cache" if "(y, e) \<in> set ds" "no_colon i" for y e i
    using same_entries_put[of "device_updates ord defs t ?n ?is" ?n "dv_Name (de_Device e)" i c cache]
      device_updates_keys[OF _ ok(3)] ok(2,4) that Cons.prems(2)[of y e i] by (fastforce simp: p)
  then have "retrieve_resources hex ci ord (Some defs) t ds ?c =
      bind_exec (map_exec (\<lambda>(_, d). snapshot_resource hex ci ord defs t cache d) ds) (\<lambda>rs. Done (put (collected ord defs t ds) ?c, concat rs))"
    using Cons.IH[OF ok(1), of ?c] by blast
  then show ?case
    by (simp add: p retrieveMonitoredServices_def interface_services_snapshot[OF ok(3,2) here] snapshot_resource_def collected_def put_append)
qed (simp add: collected_def put_def)


subsection \<open>What the next collection reports\<close>

lemma put_unique:
  assumes "(k, v) \<in> set us" "\<And>v'. (k, v') \<in> set us \<Longrightarrow> v' = v"
  shows "put us cache k = Some v"
  using assms
proof (induction us arbitrary: cache)
  case (Cons u us)
  obtain a b where u: "u = (a, b)" by (cases u)
  have step: "put (u # us) cache = put us (cache(a \<mapsto> b))" by (simp add: put_def u)
  show ?case
  proof (cases "k \<in> fst ` set us")
    case True
    then obtain v' where "(k, v') \<in> set us" by force
    then have "(k, v) \<in> set us" using Cons.prems(2)[of v'] by simp
    then show ?thesis unfolding step by (rule Cons.IH) (use Cons.prems(2) in simp)
  next
    case False
    then have "a = k" "b = v" using Cons.prems(1) u by force+
    then show ?thesis unfolding step using put_other[OF False] by simp
  qed
qed simp

definition has_metric :: "snmp_orders \<Rightarrow> (bytes \<times> DeviceExt) list \<Rightarrow> bytes \<Rightarrow> bytes \<Rightarrow> bytes \<Rightarrow> InterfaceMetric \<Rightarrow> bool" where
  "has_metric ord ds device iFace mib m \<longleftrightarrow>
     (\<exists>x d y i. (x, d) \<in> set ds \<and> dv_Name (de_Device d) = device \<and> (y, i) \<in> set (od_interfaces ord (de_Interfaces d)) \<and>
        if_Name (ie_Interface i) = iFace \<and> (mib, m) \<in> set (od_metrics ord (ie_Metrics i)))"

lemma collected_iff:
  "(k, v) \<in> set (collected ord defs t ds) \<longleftrightarrow>
     (\<exists>device iFace mib m. has_metric ord ds device iFace mib m \<and> defs (im_Mib m) \<noteq> None \<and> k = makeCK device iFace mib \<and> v = to_cached m (Unix t))"
  unfolding collected_def device_updates_def interface_updates_def own_updates_def has_metric_def by fastforce

lemma distinct_by: "distinct (map f xs) \<Longrightarrow> x \<in> set xs \<Longrightarrow> y \<in> set xs \<Longrightarrow> f x = f y \<Longrightarrow> x = y"
  by (auto simp: distinct_map inj_on_def)

lemma has_metric_unique:
  assumes ok: "devices_ok ord ds" and m: "has_metric ord ds device iFace mib m" "has_metric ord ds device iFace mib m'"
  shows "m' = m"
proof -
  obtain x d y i where 1: "(x, d) \<in> set ds" "dv_Name (de_Device d) = device" "(y, i) \<in> set (od_interfaces ord (de_Interfaces d))"
      "if_Name (ie_Interface i) = iFace" "(mib, m) \<in> set (od_metrics ord (ie_Metrics i))"
    using m(1) unfolding has_metric_def by blast
  obtain x' d' y' i' where 2: "(x', d') \<in> set ds" "dv_Name (de_Device d') = device" "(y', i') \<in> set (od_interfaces ord (de_Interfaces d'))"
      "if_Name (ie_Interface i') = iFace" "(mib, m') \<in> set (od_metrics ord (ie_Metrics i'))"
    using m(2) unfolding has_metric_def by blast
  have "(x, d) = (x', d')" using ok 1(1,2) 2(1,2) by (intro distinct_by[of "\<lambda>(_, d). dv_Name (de_Device d)" ds]) (auto simp: devices_ok_def)
  then have d: "d' = d" by simp
  have io: "interfaces_ok ord (od_interfaces ord (de_Interfaces d))" using ok 1(1) by (auto simp: devices_ok_def)
  have "(y, i) = (y', i')" using io 1(3,4) 2(3,4) d
    by (intro distinct_by[of "\<lambda>(_, i). if_Name (ie_Interface i)" "od_interfaces ord (de_Interfaces d)"]) (auto simp: interfaces_ok_def)
  then have "(mib, m) = (mib, m')" using io 1(3,5) 2(5)
    by (intro distinct_by[of fst "od_metrics ord (ie_Metrics i)"]) (auto simp: interfaces_ok_def)
  then show ?thesis by simp
qed

lemma has_metric_names: "devices_ok ord ds \<Longrightarrow> has_metric ord ds device iFace mib m \<Longrightarrow> no_colon device \<and> no_colon iFace"
  unfolding has_metric_def devices_ok_def interfaces_ok_def by fastforce

lemma cache_after:
  assumes "devices_ok ord ds" "has_metric ord ds device iFace mib m" "defs (im_Mib m) \<noteq> None"
  shows "put (collected ord defs t ds) cache (makeCK device iFace mib) = Some (to_cached m (Unix t))"
proof (rule put_unique)
  show "(makeCK device iFace mib, to_cached m (Unix t)) \<in> set (collected ord defs t ds)" using assms(2,3) collected_iff by blast
  fix v assume "(makeCK device iFace mib, v) \<in> set (collected ord defs t ds)"
  then obtain d i b n where h: "has_metric ord ds d i b n" "makeCK device iFace mib = makeCK d i b" "v = to_cached n (Unix t)"
    unfolding collected_iff by blast
  then have "d = device" "i = iFace" "b = mib" using makeCK_inj has_metric_names[OF assms(1)] assms(2) by metis+
  then show "v = to_cached m (Unix t)" using h has_metric_unique[OF assms(1,2)] by blast
qed

lemma quot_bounds:
  fixes x y :: int
  assumes "- (2 ^ 63) \<le> x" "x < 2 ^ 63" "0 < y"
  shows "- (2 ^ 63) \<le> sgn x * (\<bar>x\<bar> div y)" "sgn x * (\<bar>x\<bar> div y) < 2 ^ 63"
proof -
  define q where "q = \<bar>x\<bar> div y"
  have q: "0 \<le> q" "q \<le> \<bar>x\<bar>" using assms(3) int_div_le_self[of "\<bar>x\<bar>" y] by (simp_all add: q_def pos_imp_zdiv_nonneg_iff) (cases "x = 0", simp_all)
  consider "x < 0" "sgn x = -1" | "x = 0" "sgn x = 0" | "0 < x" "sgn x = 1" by (cases x "0 :: int" rule: linorder_cases) auto
  then have "- (2 ^ 63) \<le> sgn x * q \<and> sgn x * q < 2 ^ 63" by cases (use q assms in auto)
  then show "- (2 ^ 63) \<le> sgn x * (\<bar>x\<bar> div y)" "sgn x * (\<bar>x\<bar> div y) < 2 ^ 63" unfolding q_def by blast+
qed

lemma rate_value:
  assumes "- (2 ^ 63) \<le> v - im_Value prev" "v - im_Value prev < 2 ^ 63" "0 < ts - cm_ts prev" "ts - cm_ts prev < 2 ^ 63"
  shows "rate v prev ts = Done (sgn (v - im_Value prev) * (\<bar>v - im_Value prev\<bar> div (ts - cm_ts prev)))"
proof -
  have "wrap64 (v - im_Value prev) = v - im_Value prev" "wrap64 (ts - cm_ts prev) = ts - cm_ts prev"
    using assms by (simp_all add: wrap64_small)
  moreover note wrap64_small[OF quot_bounds[OF assms(1-3)]]
  ultimately show ?thesis using assms(3) by (simp add: rate_def go_div_def)
qed

lemma known_rates:
  assumes "set (od_known ord NonMibMetrics) = set NonMibMetrics" "interface_builders ord defs t device i cache = Done (cache', bs)"
    and "key \<in> {BytesPerSecondIn, BytesPerSecondOut}"
  obtains rs where "non_mib_builder defs t cache device (if_Name (ie_Interface i)) (ie_Metrics i) key = Done rs" "set rs \<subseteq> set bs"
proof -
  let ?f = "non_mib_builder defs t cache device (if_Name (ie_Interface i)) (ie_Metrics i)"
  obtain rates rest where r: "map_exec ?f (map fst (od_known ord NonMibMetrics)) = Done rates" "bs = concat rates @ rest"
    using assms(2) by (cases "mib_builders defs t device (if_Name (ie_Interface i)) (od_metrics ord (ie_Metrics i)) cache")
      (auto simp: interface_builders_def Let_def)
  have in_rates: "\<exists>rs. ?f x = Done rs \<and> rs \<in> set rates" if "x \<in> set xs" "map_exec ?f xs = Done rates" for x xs rates
    using that by (induction xs arbitrary: rates) auto
  have "fst ` set NonMibMetrics = {BytesPerSecondIn, BytesPerSecondOut}" by (simp add: NonMibMetrics_def)
  then have "key \<in> set (map fst (od_known ord NonMibMetrics))" using assms(1,3) by simp
  then show thesis using in_rates[OF _ r(1)] r(2) that by auto
qed

text \<open>
  C27. After a collection, the next one reports the inbound bytes per second of an interface as the difference of the counter divided by
  the seconds between the two collections.
\<close>

theorem next_rate:
  assumes "devices_ok ord (od_devices ord devices)" "set (od_known ord NonMibMetrics) = set NonMibMetrics"
    and "retrieveMonitoredResources hex ci ord (Some defs) t1 devices cache = Done (cache1, rs)"
    and "has_metric ord (od_devices ord devices) device (if_Name (ie_Interface i)) IfHCInOctets m1" "defs (im_Mib m1) \<noteq> None"
    and "map_of (ie_Metrics i) IfHCInOctets = Some m2" "defs BytesPerSecondIn = Some d"
    and "interface_builders ord defs t2 device i cache1 = Done (cache2, bs)"
    and "im_Value m1 \<le> im_Value m2" "im_Value m2 - im_Value m1 < 2 ^ 63" "Unix t1 < Unix t2" "Unix t2 - Unix t1 < 2 ^ 63"
  shows "(makeMetricBuilder d BytesPerSecondIn t2)\<lparr>mb_Value := A_int64 (word_of_int ((im_Value m2 - im_Value m1) div (Unix t2 - Unix t1)))\<rparr> \<in> set bs"
proof -
  have "cache1 = put (collected ord defs t1 (od_devices ord devices)) cache"
    using assms(3) retrieve_resources_snapshot[OF assms(1), of cache cache hex ci defs t1]
    by (auto simp: retrieveMonitoredResources_def same_entries_def)
  then have prev: "cache1 (makeCK device (if_Name (ie_Interface i)) IfHCInOctets) = Some (to_cached m1 (Unix t1))"
    using cache_after[where defs = defs, OF assms(1,4,5)] by simp
  have "rate (im_Value m2) (to_cached m1 (Unix t1)) (Unix t2) = Done ((im_Value m2 - im_Value m1) div (Unix t2 - Unix t1))"
    using rate_value[of "im_Value m2" "to_cached m1 (Unix t1)" "Unix t2"] assms(9-12)
    by (cases "im_Value m2 = im_Value m1") (simp_all add: to_cached_def)
  then have "non_mib_builder defs t2 cache1 device (if_Name (ie_Interface i)) (ie_Metrics i) BytesPerSecondIn =
      Done [(makeMetricBuilder d BytesPerSecondIn t2)\<lparr>mb_Value := A_int64 (word_of_int ((im_Value m2 - im_Value m1) div (Unix t2 - Unix t1)))\<rparr>]"
    using prev assms(6,7) by (simp add: non_mib_builder_def per_second_def metric_value_def)
  then show ?thesis by (rule_tac known_rates[OF assms(2,8), of BytesPerSecondIn]) auto
qed

text \<open>A counter that a device does not deliver this time counts as zero, and the rate is negative.\<close>

lemma missing_counter_negative:
  assumes "cache (makeCK device iFace IfHCInOctets) = Some prev" "map_of ms IfHCInOctets = None"
    and "0 < im_Value prev" "im_Value prev < 2 ^ 63" "0 < ts - cm_ts prev" "ts - cm_ts prev < 2 ^ 63"
  shows "per_second cache device iFace ms ts IfHCInOctets IfInOctets = Done (Some (- (im_Value prev div (ts - cm_ts prev))))"
  using assms rate_value[of 0 prev ts] by (simp add: per_second_def metric_value_def)

section \<open>Interfaces with the same name\<close>

text \<open>What a collection puts into the cache has its own time, so an entry it has written keeps that time.\<close>

definition fresh :: "timestamp \<Rightarrow> bytes \<Rightarrow> value_cache \<Rightarrow> bool" where
  "fresh t k cache \<longleftrightarrow> (\<exists>prev. cache k = Some prev \<and> cm_ts prev = Unix t)"

lemma mib_builders_cache:
  "fst (mib_builders defs t device iFace ((mib, m) # ms) cache) = fst (mib_builders defs t device iFace ms
     (if defs (im_Mib m) = None then cache else cache(makeCK device iFace mib \<mapsto> to_cached m (Unix t))))"
  by (auto simp: Let_def split: option.split prod.split)

lemma mib_builders_fresh:
  "fresh t k cache \<Longrightarrow> fresh t k (fst (mib_builders defs t device iFace ms cache))"
proof (induction ms arbitrary: cache)
  case (Cons p ms)
  have "fresh t k (cache(ck \<mapsto> to_cached m (Unix t)))" for ck m using Cons.prems by (auto simp: fresh_def to_cached_def)
  then show ?case using Cons by (cases p) (simp add: mib_builders_cache del: mib_builders.simps)
qed simp

lemma mib_builders_writes:
  assumes "(mib, m) \<in> set ms" "defs (im_Mib m) \<noteq> None"
  shows "fresh t (makeCK device iFace mib) (fst (mib_builders defs t device iFace ms cache))"
  using assms
proof (induction ms arbitrary: cache)
  case (Cons p ms)
  show ?case
  proof (cases "p = (mib, m)")
    case True
    have "fresh t (makeCK device iFace mib) (cache(makeCK device iFace mib \<mapsto> to_cached m (Unix t)))" by (simp add: fresh_def to_cached_def)
    then show ?thesis using True Cons.prems(2) mib_builders_fresh by (auto simp: mib_builders_cache simp del: mib_builders.simps)
  next
    case False
    then have "fresh t (makeCK device iFace mib) (fst (mib_builders defs t device iFace ms c))" for c using Cons by auto
    then show ?thesis by (cases p) (simp add: mib_builders_cache del: mib_builders.simps)
  qed
qed simp

lemma interface_service_cache:
  assumes "interface_service hex ci ord defs t device i cache = Done (cache', ss)"
  shows "cache' = fst (mib_builders defs t device (if_Name (ie_Interface i)) (od_metrics ord (ie_Metrics i)) cache)"
  using assms by (cases "mib_builders defs t device (if_Name (ie_Interface i)) (od_metrics ord (ie_Metrics i)) cache")
    (auto simp: interface_service_def interface_builders_def Let_def)

lemma interface_services_fresh:
  "fresh t k cache \<Longrightarrow> interface_services hex ci ord defs t device is cache = Done (cache', ss) \<Longrightarrow> fresh t k cache'"
proof (induction "is" arbitrary: cache ss)
  case (Cons p "is")
  obtain x i where p: "p = (x, i)" by (cases p)
  obtain c1 s1 s2 where "interface_service hex ci ord defs t device i cache = Done (c1, s1)" "interface_services hex ci ord defs t device is c1 = Done (cache', s2)"
    using Cons.prems(2) by (auto simp: p)
  then show ?case using Cons.IH Cons.prems(1) mib_builders_fresh interface_service_cache by metis
qed simp

lemma interface_services_append:
  "interface_services hex ci ord defs t device (xs @ ys) cache =
     bind_exec (interface_services hex ci ord defs t device xs cache) (\<lambda>(c1, s1).
     bind_exec (interface_services hex ci ord defs t device ys c1) (\<lambda>(c2, s2). Done (c2, s1 @ s2)))"
proof (induction xs arbitrary: cache)
  case Nil
  then show ?case by (cases "interface_services hex ci ord defs t device ys cache") (auto split: prod.split)
next
  case (Cons p xs)
  then show ?case by (cases p) (simp add: split_def)
qed

lemma fresh_rate_panics:
  assumes "fresh t (makeCK device (if_Name (ie_Interface i)) IfHCInOctets) cache" "defs BytesPerSecondIn \<noteq> None"
    and "set (od_known ord NonMibMetrics) = set NonMibMetrics"
  shows "interface_builders ord defs t device i cache \<noteq> Done r"
proof
  assume "interface_builders ord defs t device i cache = Done r"
  then have "interface_builders ord defs t device i cache = Done (fst r, snd r)" by simp
  then obtain rs where "non_mib_builder defs t cache device (if_Name (ie_Interface i)) (ie_Metrics i) BytesPerSecondIn = Done rs"
    by (rule known_rates[OF assms(3)]) auto
  then show False using assms(1,2) by (auto simp: fresh_def non_mib_builder_def per_second_def rate_def go_div_def wrap64_def)
qed

text \<open>
  A device with two interfaces of the same name is never reported when the bytes per second and the counter are monitored: the second
  interface finds the value of the first one in the cache, with the same time, and the division by zero seconds panics.
\<close>

theorem same_name_panics:
  assumes "od_interfaces ord (de_Interfaces device) = pre @ (x, i1) # mid @ (y, i2) # post"
    and "if_Name (ie_Interface i1) = if_Name (ie_Interface i2)" "(IfHCInOctets, m) \<in> set (od_metrics ord (ie_Metrics i1))"
    and "defs (im_Mib m) \<noteq> None" "defs BytesPerSecondIn \<noteq> None" "set (od_known ord NonMibMetrics) = set NonMibMetrics"
  shows "\<exists>p. retrieveMonitoredServices hex ci ord (Some defs) t device cache = Panic p"
proof (rule ccontr)
  let ?d = "dv_Name (de_Device device)" and ?k = "makeCK (dv_Name (de_Device device)) (if_Name (ie_Interface i1)) IfHCInOctets"
  assume "\<nexists>p. retrieveMonitoredServices hex ci ord (Some defs) t device cache = Panic p"
  then obtain c ss where "interface_services hex ci ord defs t ?d (pre @ [(x, i1)] @ mid @ (y, i2) # post) cache = Done (c, ss)"
    using assms(1) by (cases "retrieveMonitoredServices hex ci ord (Some defs) t device cache") (auto simp: retrieveMonitoredServices_def)
  then obtain c0 c1 s1 c2 s2 c3 s3 where r: "interface_service hex ci ord defs t ?d i1 c0 = Done (c1, s1)"
      "interface_services hex ci ord defs t ?d mid c1 = Done (c2, s2)" "interface_service hex ci ord defs t ?d i2 c2 = Done (c3, s3)"
    unfolding interface_services_append by auto
  have "fresh t ?k c1" using mib_builders_writes[where defs = defs, OF assms(3,4)] interface_service_cache[OF r(1)] by simp
  then have "fresh t (makeCK ?d (if_Name (ie_Interface i2)) IfHCInOctets) c2" using interface_services_fresh[OF _ r(2)] assms(2) by simp
  then show False using fresh_rate_panics[where defs = defs, OF _ assms(5,6)] r(3) by (auto simp: interface_service_def)
qed

section \<open>Witnesses\<close>

definition id_orders :: snmp_orders where
  "id_orders = \<lparr>od_devices = id, od_interfaces = id, od_metrics = id, od_known = id\<rparr>"

definition demo_interface :: "int \<Rightarrow> InterfaceExt" where
  "demo_interface v = \<lparr>ie_Interface = \<lparr>if_Name = ''e0'', if_Device = ''r1'', if_Index = 1, if_Status = 3\<rparr>,
     ie_Metrics = [(IfHCInOctets, \<lparr>im_Key = ''bytesInX64'', im_Mib = IfHCInOctets, im_Value = v\<rparr>)]\<rparr>"

definition demo_device :: "(int \<times> InterfaceExt) list \<Rightarrow> DeviceExt" where
  "demo_device is = \<lparr>de_Device = \<lparr>dv_Name = ''r1'', dv_IP = ''10.0.0.1'', dv_Community = ''pub'', dv_LastOK = 0\<rparr>, de_SecData = None, de_Interfaces = is\<rparr>"

definition demo_defs :: metric_definitions where
  "demo_defs = [IfHCInOctets \<mapsto> zero_MetricDefinition\<lparr>md_MetricType := Delta\<rparr>, BytesPerSecondIn \<mapsto> zero_MetricDefinition]"

lemma demo_devices_ok: "devices_ok id_orders (od_devices id_orders [(''r1'', demo_device [(1, demo_interface v)])])"
  by (simp add: devices_ok_def interfaces_ok_def id_orders_def demo_device_def demo_interface_def no_colon_def)

text \<open>A first collection has no metrics of the interface, since all of them compare.\<close>

lemma demo_snmp_first: "\<exists>rs. retrieveMonitoredResources hex ci id_orders (Some demo_defs) t [(''r1'', demo_device [(1, demo_interface v)])] Map.empty =
    Done ([makeCK ''r1'' ''e0'' IfHCInOctets \<mapsto> to_cached \<lparr>im_Key = ''bytesInX64'', im_Mib = IfHCInOctets, im_Value = v\<rparr> (Unix t)], rs)"
proof -
  have ne: "BytesPerSecondIn \<noteq> IfHCInOctets" "BytesPerSecondOut \<noteq> IfHCInOctets" "BytesPerSecondOut \<noteq> BytesPerSecondIn"
    by (simp_all add: BytesPerSecondIn_def IfHCInOctets_def BytesPerSecondOut_def)
  have d: "isDelta Delta" by (simp add: isDelta_def EqualFold_def)
  show ?thesis
    using ne d by (simp add: retrieveMonitoredResources_def id_orders_def demo_device_def demo_interface_def demo_defs_def retrieveMonitoredServices_def
        interface_service_def interface_builders_def NonMibMetrics_def non_mib_builder_def per_second_def BuildServiceForMetrics_def CreateService_def
        CalculateServiceStatus_def addServiceStatusText_def addThresholdsToStatusText_def)
qed

abbreviation demo_cache :: "int \<Rightarrow> value_cache" where
  "demo_cache v \<equiv> [makeCK ''r1'' ''e0'' IfHCInOctets \<mapsto> to_cached \<lparr>im_Key = ''bytesInX64'', im_Mib = IfHCInOctets, im_Value = v\<rparr> (Unix 0)]"


lemma demo_second: "\<exists>cache2 bs. interface_builders id_orders demo_defs 60000000000 ''r1'' (demo_interface 700) (demo_cache 100) = Done (cache2, bs)"
proof -
  have ne: "BytesPerSecondIn \<noteq> IfHCInOctets" "BytesPerSecondOut \<noteq> IfHCInOctets" "BytesPerSecondOut \<noteq> BytesPerSecondIn"
    by (simp_all add: BytesPerSecondIn_def IfHCInOctets_def BytesPerSecondOut_def)
  have "rate 700 (to_cached \<lparr>im_Key = ''bytesInX64'', im_Mib = IfHCInOctets, im_Value = 100\<rparr> (Unix 0)) (Unix 60000000000) = Done 10"
    by (subst rate_value) (simp_all add: to_cached_def Unix_def)
  then show ?thesis
    using ne by (simp add: interface_builders_def demo_interface_def id_orders_def NonMibMetrics_def non_mib_builder_def demo_defs_def per_second_def
        metric_value_def split: prod.split)
qed

theorem next_rate_witness:
  "\<exists>cache2 bs. interface_builders id_orders demo_defs 60000000000 ''r1'' (demo_interface 700) (demo_cache 100) = Done (cache2, bs) \<and>
     (makeMetricBuilder zero_MetricDefinition BytesPerSecondIn 60000000000)\<lparr>mb_Value := A_int64 (word_of_int 10)\<rparr> \<in> set bs"
proof -
  have ne: "BytesPerSecondIn \<noteq> IfHCInOctets" by (simp add: BytesPerSecondIn_def IfHCInOctets_def)
  obtain rs where r: "retrieveMonitoredResources (\<lambda>_. None) 60 id_orders (Some demo_defs) 0 [(''r1'', demo_device [(1, demo_interface 100)])] Map.empty =
      Done (demo_cache 100, rs)"
    using demo_snmp_first[of "\<lambda>_. None" 60 0 100] by auto
  obtain cache2 bs where b: "interface_builders id_orders demo_defs 60000000000 ''r1'' (demo_interface 700) (demo_cache 100) = Done (cache2, bs)"
    using demo_second by blast
  have k: "set (od_known id_orders NonMibMetrics) = set NonMibMetrics" by (simp add: id_orders_def)
  have h: "has_metric id_orders (od_devices id_orders [(''r1'', demo_device [(1, demo_interface 100)])]) ''r1'' (if_Name (ie_Interface (demo_interface 700)))
      IfHCInOctets \<lparr>im_Key = ''bytesInX64'', im_Mib = IfHCInOctets, im_Value = 100\<rparr>"
    by (simp add: has_metric_def id_orders_def demo_device_def demo_interface_def)
  show ?thesis
    using next_rate[OF demo_devices_ok k r h _ _ _ b, of "\<lparr>im_Key = ''bytesInX64'', im_Mib = IfHCInOctets, im_Value = 700\<rparr>" zero_MetricDefinition] b ne
    by (simp add: demo_defs_def demo_interface_def Unix_def)
qed

theorem same_name_panics_witness:
  "\<exists>p. retrieveMonitoredServices (\<lambda>_. None) 60 id_orders (Some demo_defs) 0 (demo_device [(1, demo_interface 1), (2, demo_interface 2)]) Map.empty = Panic p"
  using same_name_panics[of id_orders "demo_device [(1, demo_interface 1), (2, demo_interface 2)]" "[]" 1 "demo_interface 1" "[]" 2 "demo_interface 2" "[]"
      "\<lparr>im_Key = ''bytesInX64'', im_Mib = IfHCInOctets, im_Value = 1\<rparr>" demo_defs "\<lambda>_. None" 60 0 Map.empty]
  by (simp add: id_orders_def demo_device_def demo_interface_def demo_defs_def)

end
