(* ===== verification/Connector_Periodic.thy ===== *)
theory Connector_Periodic
  imports Connector_Build
begin

text \<open>
  Periodic collection, \<open>StartPeriodic\<close> of \<^verbatim>\<open>connectors/connectors.go\<close>, and how the commands of the connectors restart it.  A context is
  a number; the model keeps which loops run, each with its context and the interval of its ticker, and how often a handler was
  called at once.  What a handler does when it is called is modelled with each connector; a panic in it is recovered.
\<close>

record periodic =
  pe_ctx :: nat
  pe_next :: nat
  pe_loops :: "(nat \<times> duration) list"
  pe_calls :: nat
  pe_exit :: nat \<comment> \<open>the context the registered exit handler cancels\<close>

text \<open>The value "notOften" of the context is an argument; no connector sets it.\<close>

definition StartPeriodic :: "duration option \<Rightarrow> nat \<Rightarrow> duration \<Rightarrow> periodic \<Rightarrow> periodic exec" where
  "StartPeriodic notOften ctx t p =
     (let d = MaxDuration t [case notOften of None \<Rightarrow> Minute | Some n \<Rightarrow> n]
      in if d \<le> 0 then Panic NonPositiveInterval
         else Done (p\<lparr>pe_loops := pe_loops p @ [(ctx, d)], pe_calls := Suc (pe_calls p)\<rparr>))"

definition cancel :: "nat \<Rightarrow> periodic \<Rightarrow> periodic" where
  "cancel ctx p = p\<lparr>pe_loops := filter (\<lambda>(c, _). c \<noteq> ctx) (pe_loops p)\<rparr>"

text \<open>The end of every configuration handler: cancel, make a new context, register it for the exit, start the loop.\<close>

definition restart_periodic :: "duration \<Rightarrow> periodic \<Rightarrow> periodic exec" where
  "restart_periodic t p =
     (let p1 = cancel (pe_ctx p) p; ctx = pe_next p1
      in StartPeriodic None ctx t (p1\<lparr>pe_ctx := ctx, pe_next := Suc ctx, pe_exit := ctx\<rparr>))"

text \<open>The start of a connector, after the configuration was asked for.\<close>

definition run_periodic :: "duration \<Rightarrow> periodic \<Rightarrow> periodic exec" where
  "run_periodic t p = StartPeriodic None (pe_ctx p) t p"

definition periodic_init :: periodic where
  "periodic_init = \<lparr>pe_ctx = 0, pe_next = 1, pe_loops = [], pe_calls = 0, pe_exit = 0\<rparr>"

section \<open>Which loops run\<close>

definition periodic_ok :: "periodic \<Rightarrow> bool" where
  "periodic_ok p \<longleftrightarrow> pe_ctx p < pe_next p \<and> pe_exit p = pe_ctx p \<and> (\<forall>(c, d) \<in> set (pe_loops p). c = pe_ctx p \<and> d \<ge> Minute)"

inductive periodic_step :: "periodic \<Rightarrow> periodic \<Rightarrow> bool" where
  configured: "restart_periodic t p = Done p' \<Longrightarrow> periodic_step p p'"
| started: "run_periodic t p = Done p' \<Longrightarrow> periodic_step p p'"
| exited: "periodic_step p (cancel (pe_exit p) p)"

lemma Minute_pos: "0 < Minute"
  by (simp add: unit_defs)

lemma MaxDuration_ge: "MaxDuration t [d] \<ge> d"
  by (simp add: MaxDuration_def)

lemma StartPeriodic_default:
  "StartPeriodic None ctx t p = Done (p\<lparr>pe_loops := pe_loops p @ [(ctx, MaxDuration t [Minute])], pe_calls := Suc (pe_calls p)\<rparr>)"
  using MaxDuration_ge[of Minute t] Minute_pos by (simp add: StartPeriodic_def)

lemma periodic_ok_step: "periodic_step p p' \<Longrightarrow> periodic_ok p \<Longrightarrow> periodic_ok p'"
  by (induction rule: periodic_step.induct)
    (auto simp: periodic_ok_def restart_periodic_def run_periodic_def StartPeriodic_default cancel_def Let_def intro: MaxDuration_ge)

lemma periodic_ok_init: "periodic_ok periodic_init"
  by (simp add: periodic_ok_def periodic_init_def)

lemma periodic_ok_reach: "periodic_step\<^sup>*\<^sup>* periodic_init p \<Longrightarrow> periodic_ok p"
  by (induction rule: rtranclp_induct) (auto intro: periodic_ok_init periodic_ok_step)

lemma restart_one_loop:
  assumes "periodic_ok p"
  obtains p' where "restart_periodic t p = Done p'" "periodic_ok p'" "pe_loops p' = [(pe_ctx p', MaxDuration t [Minute])]"
proof -
  have "filter (\<lambda>(c, _). c \<noteq> pe_ctx p) (pe_loops p) = []" using assms by (auto simp: periodic_ok_def filter_empty_conv)
  then obtain p' where p': "restart_periodic t p = Done p'" "pe_loops p' = [(pe_ctx p', MaxDuration t [Minute])]"
    by (simp add: cancel_def restart_periodic_def StartPeriodic_default Let_def)
  show thesis by (rule that[OF p'(1) periodic_ok_step[OF configured[OF p'(1)] assms] p'(2)])
qed

text \<open>
  C25. After any sequence of configurations, starts and exits, no loop runs more often than once a minute, all loops belong to the current
  context, a new configuration leaves exactly one loop, and an exit leaves none.
\<close>

theorem periodic_loops:
  assumes "periodic_step\<^sup>*\<^sup>* periodic_init p"
  shows "(\<forall>(c, d) \<in> set (pe_loops p). c = pe_ctx p \<and> d \<ge> Minute) \<and> pe_loops (cancel (pe_exit p) p) = [] \<and>
    (\<exists>p'. restart_periodic t p = Done p' \<and> pe_loops p' = [(pe_ctx p', MaxDuration t [Minute])])"
proof -
  have ok: "periodic_ok p" by (rule periodic_ok_reach[OF assms])
  obtain p' where "restart_periodic t p = Done p'" "pe_loops p' = [(pe_ctx p', MaxDuration t [Minute])]" by (rule restart_one_loop[OF ok])
  then show ?thesis using ok by (auto simp: periodic_ok_def cancel_def filter_empty_conv)
qed

text \<open>When the configuration arrives before the connector has started, two loops run beside each other until the next configuration.\<close>

theorem start_after_config_doubles:
  assumes "restart_periodic t p = Done p1" "run_periodic u p1 = Done p2" "periodic_ok p"
  shows "pe_loops p2 = [(pe_ctx p1, MaxDuration t [Minute]), (pe_ctx p1, MaxDuration u [Minute])] \<and> pe_calls p2 = pe_calls p + 2"
proof -
  have "filter (\<lambda>(c, _). c \<noteq> pe_ctx p) (pe_loops p) = []" using assms(3) by (auto simp: periodic_ok_def filter_empty_conv)
  then show ?thesis using assms(1,2) by (auto simp: restart_periodic_def run_periodic_def StartPeriodic_default cancel_def Let_def)
qed

section \<open>Witnesses\<close>

lemma demo_periodic: "periodic_step\<^sup>*\<^sup>* periodic_init (periodic_init\<lparr>pe_loops := [(0, Minute)], pe_calls := 1\<rparr>)"
proof (rule r_into_rtranclp, rule periodic_step.started)
  show "run_periodic 0 periodic_init = Done (periodic_init\<lparr>pe_loops := [(0, Minute)], pe_calls := 1\<rparr>)"
    by (simp add: run_periodic_def StartPeriodic_default periodic_init_def MaxDuration_def unit_defs)
qed

theorem periodic_loops_witness:
  "\<exists>p'. restart_periodic (3 * Minute) (periodic_init\<lparr>pe_loops := [(0, Minute)], pe_calls := 1\<rparr>) = Done p' \<and> pe_loops p' = [(pe_ctx p', 3 * Minute)]"
  using periodic_loops[OF demo_periodic, of "3 * Minute"] by (simp add: MaxDuration_def unit_defs)

theorem start_after_config_doubles_witness:
  "\<exists>p1 p2. restart_periodic (3 * Minute) periodic_init = Done p1 \<and> run_periodic 0 p1 = Done p2 \<and> pe_loops p2 = [(1, 3 * Minute), (1, Minute)]"
proof -
  obtain p1 where p1: "restart_periodic (3 * Minute) periodic_init = Done p1" "pe_ctx p1 = 1"
    by (simp add: restart_periodic_def StartPeriodic_default cancel_def periodic_init_def)
  obtain p2 where p2: "run_periodic 0 p1 = Done p2" by (simp add: run_periodic_def StartPeriodic_default)
  show ?thesis using start_after_config_doubles[OF p1(1) p2 periodic_ok_init] p1 p2 by (auto simp: MaxDuration_def unit_defs)
qed

end
