(* ===== verification/Snmp_Connector.thy ===== *)
theory Snmp_Connector
  imports Snmp_Model Connector_Periodic "HOL-Library.List_Lexorder" "HOL-Library.Char_ord"
begin

text \<open>
  The SNMP connector, \<^verbatim>\<open>connectors/snmp/snmp.go\<close> and \<^verbatim>\<open>connectors/snmp/cmd.go\<close>: its configuration, the collection from NeDi and the
  devices, and what is sent.  One world state stands for the servers the HTTP and SNMP clients talk to.  Decoding of configurations,
  checksums, and the iteration order of maps are arguments.
\<close>

section \<open>Configuration\<close>

record snmp_ExtConfig =
  xc_NediServer :: bytes
  xc_CheckInterval :: duration
  xc_AppType :: bytes
  xc_AgentID :: bytes
  xc_GWConnections :: "GWConnection list"
  xc_Ownership :: bytes
  xc_Views :: "(bytes \<times> (bytes \<times> MetricDefinition) list) list"

text \<open>\<open>None\<close> is an error of the decoder; the argument decodes into a copy of the configuration.\<close>

definition snmp_UnmarshalJSON :: "(bytes \<Rightarrow> snmp_ExtConfig \<Rightarrow> snmp_ExtConfig option) \<Rightarrow> bytes \<Rightarrow> snmp_ExtConfig \<Rightarrow> snmp_ExtConfig option" where
  "snmp_UnmarshalJSON um input cfg =
     (case um input cfg of
        None \<Rightarrow> None
      | Some c \<Rightarrow> Some (if xc_CheckInterval c \<noteq> xc_CheckInterval cfg
                        then c\<lparr>xc_CheckInterval := wrap64 (xc_CheckInterval c * Minute)\<rparr> else c))"

record SnmpConnector =
  sc_config :: snmp_ExtConfig
  sc_nediClient :: NediClient
  sc_devices :: "(bytes \<times> DeviceExt) list"

definition LoadConfig :: "snmp_ExtConfig \<Rightarrow> SnmpConnector \<Rightarrow> SnmpConnector \<times> nedi_error option" where
  "LoadConfig config c =
     (case NediClient_Init (sc_nediClient c) (xc_NediServer config) of
        (client, Some e) \<Rightarrow> (c\<lparr>sc_config := config, sc_nediClient := client\<rparr>, Some e)
      | (client, None) \<Rightarrow> (c\<lparr>sc_config := config, sc_nediClient := client, sc_devices := []\<rparr>, None))"

section \<open>Collecting\<close>

record 'w snmp_env =
  se_sys :: sys_env
  se_http :: "'w http"
  se_um :: "bytes \<Rightarrow> jval list option"
  se_conv :: "f64 \<Rightarrow> int"
  se_lib :: "'w snmp_lib"
  se_compile :: "bytes \<Rightarrow> error + Regexp"
  se_LookupEnv :: "bytes \<Rightarrow> bytes option"
  se_files :: "bytes \<Rightarrow> (bytes \<times> bool) option"
  se_confFilepath :: bytes
  se_orders :: snmp_orders
  se_views :: "(bytes \<times> (bytes \<times> MetricDefinition) list) list \<Rightarrow> (bytes \<times> (bytes \<times> MetricDefinition) list) list"
  se_hex :: "bytes \<Rightarrow> f64 option"

text \<open>A device gets credentials when there are some; it replaces what was known of it before.\<close>

fun add_devices :: "'w snmp_env \<Rightarrow> Device list \<Rightarrow> (bytes \<times> DeviceExt) list \<Rightarrow> (bytes \<times> DeviceExt) list exec" where
  "add_devices env [] ds = Done ds"
| "add_devices env (device # rest) ds =
     bind_exec (GetSecurityData (se_compile env) (se_LookupEnv env) (se_files env) (se_confFilepath env) (dv_Community device)) (\<lambda>r.
       add_devices env rest (AList.update (dv_Name device)
         \<lparr>de_Device = device, de_SecData = (case r of Inl _ \<Rightarrow> None | Inr d \<Rightarrow> Some d), de_Interfaces = []\<rparr> ds))"

text \<open>A value belongs to the interface whose index is the last part of its name; others are ignored.\<close>

definition value_index :: "SnmpValue \<Rightarrow> int option" where
  "value_index v = ParseInt (last (Split (sv_Name v) (CHR ''.'')))"

definition put_value :: "SnmpMetric \<Rightarrow> SnmpValue \<Rightarrow> (int \<times> InterfaceExt) list \<Rightarrow> (int \<times> InterfaceExt) list" where
  "put_value metric v interfacesMap =
     (case value_index v of
        None \<Rightarrow> interfacesMap
      | Some idx \<Rightarrow>
          (case map_of interfacesMap idx of
             None \<Rightarrow> interfacesMap
           | Some iFace \<Rightarrow>
               AList.update idx (iFace\<lparr>ie_Metrics := AList.update (sm_Mib metric)
                 \<lparr>im_Key = sm_Key metric, im_Mib = sm_Mib metric, im_Value = sv_Value v\<rparr> (ie_Metrics iFace)\<rparr>) interfacesMap))"

definition put_data :: "SnmpMetricData list \<Rightarrow> (int \<times> InterfaceExt) list \<Rightarrow> (int \<times> InterfaceExt) list" where
  "put_data snmpData m = fold (\<lambda>data. fold (put_value (sx_SnmpMetric data)) (sx_Values data)) snmpData m"

definition interfaces_map :: "Interface list \<Rightarrow> (int \<times> InterfaceExt) list" where
  "interfaces_map is = fold (\<lambda>i. AList.update (if_Index i) \<lparr>ie_Interface = i, ie_Metrics = []\<rparr>) is []"

definition collect_device :: "'w snmp_env \<Rightarrow> NediClient \<Rightarrow> bytes list \<Rightarrow> bytes \<Rightarrow> DeviceExt \<Rightarrow> 'w \<Rightarrow> ('w \<times> DeviceExt option) exec" where
  "collect_device env client mibs deviceName device w =
     bind_exec (GetDeviceInterfaces (se_sys env) (se_http env) (se_um env) (se_conv env) client deviceName w) (\<lambda>(w1, r).
       case r of
         Inl _ \<Rightarrow> Done (w1, None)
       | Inr interfaces \<Rightarrow>
           if interfaces = [] then Done (w1, None)
           else if de_SecData device = None then Done (w1, None)
           else bind_exec (GetSnmpData (se_lib env) mibs (dv_IP (de_Device device)) (de_SecData device)
                   \<lparr>ss_world = w1, ss_Conn = None, ss_opened = [], ss_closed = []\<rparr>) (\<lambda>(s, r2).
                Done (ss_world s, case r2 of
                                    Inl _ \<Rightarrow> None
                                  | Inr snmpData \<Rightarrow> Some (device\<lparr>de_Interfaces := put_data snmpData (interfaces_map interfaces)\<rparr>))))"

fun collect_devices :: "'w snmp_env \<Rightarrow> NediClient \<Rightarrow> bytes list \<Rightarrow> (bytes \<times> DeviceExt) list \<Rightarrow> (bytes \<times> DeviceExt) list \<Rightarrow> 'w \<Rightarrow>
    ('w \<times> (bytes \<times> DeviceExt) list) exec" where
  "collect_devices env client mibs [] ds w = Done (w, ds)"
| "collect_devices env client mibs ((name, device) # rest) ds w =
     bind_exec (collect_device env client mibs name device w) (\<lambda>(w1, r).
       collect_devices env client mibs rest (case r of None \<Rightarrow> ds | Some d \<Rightarrow> AList.update name d ds) w1)"

definition collectInterfacesMetrics :: "'w snmp_env \<Rightarrow> bytes list \<Rightarrow> SnmpConnector \<Rightarrow> 'w \<Rightarrow> ('w \<times> SnmpConnector) exec" where
  "collectInterfacesMetrics env mibs c w =
     bind_exec (collect_devices env (sc_nediClient c) mibs (od_devices (se_orders env) (sc_devices c)) (sc_devices c) w) (\<lambda>(w1, ds).
       Done (w1, c\<lparr>sc_devices := ds\<rparr>))"

definition Interfaces :: bytes where "Interfaces = ''interfaces''"
definition hostGroup :: bytes where "hostGroup = ''NEDI-M''"

fun collect_views :: "'w snmp_env \<Rightarrow> (bytes \<times> (bytes \<times> MetricDefinition) list) list \<Rightarrow> metric_definitions \<Rightarrow> SnmpConnector \<Rightarrow> 'w \<Rightarrow>
    ('w \<times> SnmpConnector \<times> metric_definitions) exec" where
  "collect_views env [] defs c w = Done (w, c, defs)"
| "collect_views env ((view, metrics) # views) defs c w =
     (if view = Interfaces
      then bind_exec (collectInterfacesMetrics env (map (sm_Mib \<circ> snd) (od_known (se_orders env) AvailableMetrics)) c w) (\<lambda>(w1, c1).
             collect_views env views (defs ++ map_of metrics) c1 w1)
      else collect_views env views defs c w)"

datatype collect_error = CouldNotGetDevices

definition CollectMetrics :: "'w snmp_env \<Rightarrow> duration \<Rightarrow> timestamp \<Rightarrow> SnmpConnector \<Rightarrow> value_cache \<Rightarrow> 'w \<Rightarrow>
    ('w \<times> SnmpConnector \<times> value_cache \<times> (collect_error + MonitoredResource list \<times> InventoryResource list \<times> ResourceGroup list)) exec" where
  "CollectMetrics env ci now c cache w =
     bind_exec
       (if xc_Views (sc_config c) = [] then Done (w, Inr c)
        else bind_exec (GetDevices (se_sys env) (se_http env) (se_um env) (se_conv env) (sc_nediClient c) w) (\<lambda>(w1, r).
               case r of
                 Inl _ \<Rightarrow> Done (w1, Inl CouldNotGetDevices)
               | Inr devices \<Rightarrow> bind_exec (add_devices env devices (sc_devices c)) (\<lambda>ds. Done (w1, Inr (c\<lparr>sc_devices := ds\<rparr>))))) (\<lambda>(w1, r).
       case r of
         Inl e \<Rightarrow> Done (w1, c, cache, Inl e)
       | Inr c1 \<Rightarrow>
           bind_exec (collect_views env (se_views env (xc_Views (sc_config c1))) Map.empty c1 w1) (\<lambda>(w2, c2, metricDefinitions).
           bind_exec (retrieveMonitoredResources (se_hex env) ci (se_orders env) (Some metricDefinitions) now (sc_devices c2) cache) (\<lambda>(cache2, mrs).
             Done (w2, c2, cache2, Inr (mrs, map ToInventoryResource mrs,
               [\<lparr>rg_GroupName = hostGroup, rg_Type = ''HostGroup'', rg_Description = [], rg_Resources = map (ToResourceRef \<circ> mr_BaseResource) mrs\<rparr>])))))"

section \<open>Suggestions and checksums\<close>

definition snmp_listSuggestions :: "snmp_orders \<Rightarrow> bytes \<Rightarrow> bytes \<Rightarrow> bytes list" where
  "snmp_listSuggestions ord view name =
     (if view = Interfaces
      then filter (\<lambda>k. name = [] \<or> Contains k name) (map fst (od_known ord AvailableMetrics)) @
           filter (\<lambda>k. name = [] \<or> Contains k name) (map fst (od_known ord NonMibMetrics))
      else [])"

definition host_services :: "(bytes \<times> DeviceExt) list \<Rightarrow> bytes list" where
  "host_services ds =
     concat (map (\<lambda>host.
       let is = (case map_of ds host of None \<Rightarrow> [] | Some d \<Rightarrow> de_Interfaces d)
       in map (\<lambda>service. host @ '':'' @ service) (sort (map (\<lambda>(_, i). if_Name (ie_Interface i)) is))) (sort (map fst ds)))"

definition getInventoryHashSum :: "(bytes list \<Rightarrow> bytes option) \<Rightarrow> SnmpConnector \<Rightarrow> bytes option" where
  "getInventoryHashSum hashsum c = hashsum (host_services (sc_devices c))"

section \<open>The command\<close>

text \<open>The variables of the package; a nil checksum is the empty one.\<close>

record snmp_cmd =
  sg_extConfig :: snmp_ExtConfig
  sg_cfgChksum :: bytes
  sg_invChksum :: bytes
  sg_connector :: SnmpConnector
  sg_cache :: value_cache
  sg_CheckInterval :: duration
  sg_periodic :: periodic

definition templateMetricName :: bytes where "templateMetricName = ''$view_Template#''"

definition add_view :: "MetricDefinition \<Rightarrow> (bytes \<times> (bytes \<times> MetricDefinition) list) list \<Rightarrow> (bytes \<times> (bytes \<times> MetricDefinition) list) list" where
  "add_view metric views =
     (if md_Name metric = templateMetricName \<or> \<not> md_Monitored metric then views
      else case map_of views (md_ServiceType metric) of
             Some metrics \<Rightarrow> AList.update (md_ServiceType metric) (AList.update (md_Name metric) metric metrics) views
           | None \<Rightarrow> AList.update (md_ServiceType metric) [(md_Name metric, metric)] views)"

text \<open>The loop over the connections looks at the first one in every round.\<close>

fun defer_ownership :: "GWConnection list \<Rightarrow> GWConnection list \<Rightarrow> bytes \<Rightarrow> bytes" where
  "defer_ownership conns [] ownership = ownership"
| "defer_ownership conns (conn # rest) ownership =
     (if gw_DeferOwnership conn \<noteq> [] \<and> gw_DeferOwnership (hd conns) \<noteq> [] then gw_DeferOwnership (hd conns)
      else defer_ownership conns rest ownership)"

definition snmp_defaults :: "Config \<Rightarrow> snmp_ExtConfig" where
  "snmp_defaults cfg =
     \<lparr>xc_NediServer = ''nedi:8092'', xc_CheckInterval = DefaultCheckInterval, xc_AppType = c_AppType (cfg_Connector cfg),
      xc_AgentID = c_AgentID (cfg_Connector cfg), xc_GWConnections = cfg_GWConnections cfg, xc_Ownership = Yield, xc_Views = []\<rparr>"

type_synonym snmp_decoder = "bytes \<Rightarrow> MetricsProfile \<times> snmp_ExtConfig MonitorConnection \<Rightarrow> (MetricsProfile \<times> snmp_ExtConfig MonitorConnection) \<times> error option"

definition snmp_configHandler :: "(bytes \<Rightarrow> int option) \<Rightarrow> snmp_decoder \<Rightarrow> (snmp_ExtConfig \<Rightarrow> bytes option) \<Rightarrow> Config \<Rightarrow> bytes \<Rightarrow> snmp_cmd \<Rightarrow> snmp_cmd exec" where
  "snmp_configHandler um_timer um hashsum cfg data g =
     (case UnmarshalConfig um_timer um data (sg_CheckInterval g) (zero_MetricsProfile, new_MonitorConnection (snmp_defaults cfg)) of
        (interval, (_, _), Some _) \<Rightarrow> Done (g\<lparr>sg_CheckInterval := interval\<rparr>)
      | (interval, (tMetProf, tMonConn), None) \<Rightarrow>
          (let e0 = mc_Extensions tMonConn;
               e1 = (if mc_Server tMonConn \<noteq> [] then e0\<lparr>xc_NediServer := mc_Server tMonConn\<rparr> else e0);
               e2 = e1\<lparr>xc_Views := fold add_view (mp_Metrics tMetProf) (xc_Views e1)\<rparr>;
               tExt = e2\<lparr>xc_Ownership := defer_ownership (xc_GWConnections e2) (xc_GWConnections e2) (xc_Ownership e2)\<rparr>;
               chk = hashsum tExt;
               g1 = g\<lparr>sg_CheckInterval := interval, sg_extConfig := tExt\<rparr>;
               g2 = (if chk = None \<or> Some (sg_cfgChksum g) \<noteq> chk then g1\<lparr>sg_connector := fst (LoadConfig tExt (sg_connector g1))\<rparr> else g1);
               g3 = (case chk of None \<Rightarrow> g2 | Some c \<Rightarrow> g2\<lparr>sg_cfgChksum := c\<rparr>);
               g4 = g3\<lparr>sg_invChksum := []\<rparr>
           in bind_exec (restart_periodic (xc_CheckInterval tExt) (sg_periodic g4)) (\<lambda>p. Done (g4\<lparr>sg_periodic := p\<rparr>))))"

definition has_metrics :: "snmp_ExtConfig \<Rightarrow> bool" where
  "has_metrics config \<longleftrightarrow> (\<exists>(_, v) \<in> set (xc_Views config). v \<noteq> [])"

text \<open>Errors of sending are only logged.\<close>

definition snmp_periodicHandler :: "'w snmp_env \<Rightarrow> svc_env \<Rightarrow> expr_env \<Rightarrow> nat \<Rightarrow> (InventoryRequest \<Rightarrow> bytes option) \<Rightarrow> (bytes list \<Rightarrow> bytes option) \<Rightarrow>
    timestamp \<Rightarrow> snmp_cmd \<Rightarrow> Agent \<Rightarrow> 'w \<Rightarrow> (snmp_cmd \<times> Agent \<times> 'w) exec" where
  "snmp_periodicHandler env svc xenv fuel iq_ma hashsum now g a w =
     (if \<not> has_metrics (sc_config (sg_connector g)) then Done (g, a, w)
      else bind_exec (CollectMetrics env (sg_CheckInterval g) now (sg_connector g) (sg_cache g) w) (\<lambda>(w1, c1, cache1, r).
        let g1 = g\<lparr>sg_connector := c1, sg_cache := cache1\<rparr> in
        case r of
          Inl _ \<Rightarrow> Done (g1, a, w1)
        | Inr (metrics, inventory, groups) \<Rightarrow>
            (let chk = getInventoryHashSum hashsum c1 in
             bind_exec (if chk = None \<or> Some (sg_invChksum g1) \<noteq> chk
                        then bind_exec (SendInventory svc iq_ma None inventory groups (xc_Ownership (sc_config c1)) a) (\<lambda>(a1, _). Done a1)
                        else Done a) (\<lambda>a1.
             let g2 = (case chk of None \<Rightarrow> g1 | Some c \<Rightarrow> g1\<lparr>sg_invChksum := c\<rparr>) in
             bind_exec (SendMetrics svc xenv fuel (sg_CheckInterval g2) None metrics None a1) (\<lambda>(a2, _). Done (g2, a2, w1))))))"

section \<open>Which metrics are collected\<close>

text \<open>The definition of a metric in the views.\<close>

definition view_metric :: "(bytes \<times> (bytes \<times> MetricDefinition) list) list \<Rightarrow> bytes \<Rightarrow> bytes \<Rightarrow> MetricDefinition option" where
  "view_metric views view name = Option.bind (map_of views view) (\<lambda>metrics. map_of metrics name)"

lemma view_metric_add:
  "view_metric (add_view m views) view name =
     (if md_ServiceType m = view \<and> md_Name m = name \<and> name \<noteq> templateMetricName \<and> md_Monitored m then Some m else view_metric views view name)"
  by (auto simp: view_metric_def add_view_def update_conv' split: option.split)

lemma view_metric_fold:
  "view_metric (fold add_view metrics views) view name =
     (case find (\<lambda>m. md_ServiceType m = view \<and> md_Name m = name \<and> name \<noteq> templateMetricName \<and> md_Monitored m) (rev metrics) of
        Some m \<Rightarrow> Some m | None \<Rightarrow> view_metric views view name)"
  by (induction metrics rule: rev_induct) (auto simp: view_metric_add)

text \<open>
  Of the definitions of a profile with the same service type and name, the last monitored one is collected, and definitions that are
  not monitored, and the template, never are.
\<close>

theorem views_of_profile:
  "view_metric (fold add_view metrics []) view name =
     find (\<lambda>m. md_ServiceType m = view \<and> md_Name m = name \<and> name \<noteq> templateMetricName \<and> md_Monitored m) (rev metrics)"
  by (simp add: view_metric_fold split: option.split) (simp add: view_metric_def)

text \<open>Only the first connection decides about the ownership, though the loop looks for any connection that has one.\<close>

theorem ownership_of_first:
  "defer_ownership conns conns ownership =
     (if conns \<noteq> [] \<and> gw_DeferOwnership (hd conns) \<noteq> [] then gw_DeferOwnership (hd conns) else ownership)"
proof -
  have "defer_ownership conns rest ownership =
      (if gw_DeferOwnership (hd conns) \<noteq> [] \<and> (\<exists>c \<in> set rest. gw_DeferOwnership c \<noteq> []) then gw_DeferOwnership (hd conns) else ownership)" for rest
    by (induction rest) auto
  then show ?thesis by (cases conns) auto
qed

section \<open>Values of interfaces\<close>

definition interface_metric :: "(int \<times> InterfaceExt) list \<Rightarrow> int \<Rightarrow> bytes \<Rightarrow> InterfaceMetric option" where
  "interface_metric m idx mib = Option.bind (map_of m idx) (\<lambda>i. map_of (ie_Metrics i) mib)"

lemma interface_metric_put:
  "interface_metric (put_value metric v m) idx mib =
     (if sm_Mib metric = mib \<and> value_index v = Some idx \<and> map_of m idx \<noteq> None
      then Some \<lparr>im_Key = sm_Key metric, im_Mib = mib, im_Value = sv_Value v\<rparr> else interface_metric m idx mib)"
  by (auto simp: interface_metric_def put_value_def update_conv' split: option.split)

lemma put_value_interface:
  "map_option ie_Interface (map_of (put_value metric v m) idx) = map_option ie_Interface (map_of m idx)"
  by (auto simp: put_value_def update_conv' split: option.split)

definition flat_values :: "SnmpMetricData list \<Rightarrow> (SnmpMetric \<times> SnmpValue) list" where
  "flat_values ds = concat (map (\<lambda>d. map (Pair (sx_SnmpMetric d)) (sx_Values d)) ds)"

lemma put_data_flat: "put_data ds m = fold (\<lambda>(metric, v). put_value metric v) (flat_values ds) m"
proof -
  have "fold (put_value k) vs m = fold (\<lambda>(metric, v). put_value metric v) (map (Pair k) vs) m" for k vs m
    by (induction vs arbitrary: m) auto
  then show ?thesis by (induction ds arbitrary: m) (simp_all add: put_data_def flat_values_def)
qed

lemma fold_put_value:
  assumes "map_of m idx \<noteq> None" "interface_metric m idx mib = None"
  shows "map_option ie_Interface (map_of (fold (\<lambda>(metric, v). put_value metric v) vs m) idx) = map_option ie_Interface (map_of m idx) \<and>
    interface_metric (fold (\<lambda>(metric, v). put_value metric v) vs m) idx mib =
      map_option (\<lambda>(metric, v). \<lparr>im_Key = sm_Key metric, im_Mib = mib, im_Value = sv_Value v\<rparr>)
        (find (\<lambda>(metric, v). sm_Mib metric = mib \<and> value_index v = Some idx) (rev vs))"
proof (induction vs rule: rev_induct)
  case (snoc p vs)
  then have "map_of (fold (\<lambda>(metric, v). put_value metric v) vs m) idx \<noteq> None" using assms(1) by (metis option.map_disc_iff)
  then show ?case using snoc by (cases p) (simp add: interface_metric_put put_value_interface)
qed (simp add: assms)

lemma interfaces_map_of:
  "map_of (interfaces_map is) idx = map_option (\<lambda>i. \<lparr>ie_Interface = i, ie_Metrics = []\<rparr>) (find (\<lambda>i. if_Index i = idx) (rev is))"
  by (induction "is" rule: rev_induct) (auto simp: interfaces_map_def update_conv')

text \<open>
  After a device was read, each interface that NeDi knows has, for each object that was walked, the last value whose name ends with
  the index of the interface; of interfaces with the same index, the last one is kept.
\<close>

theorem interface_values:
  assumes "find (\<lambda>i. if_Index i = idx) (rev is) = Some i"
  shows "\<exists>x. map_of (put_data snmpData (interfaces_map is)) idx = Some x \<and> ie_Interface x = i \<and>
    map_of (ie_Metrics x) mib = map_option (\<lambda>(metric, v). \<lparr>im_Key = sm_Key metric, im_Mib = mib, im_Value = sv_Value v\<rparr>)
      (find (\<lambda>(metric, v). sm_Mib metric = mib \<and> value_index v = Some idx) (rev (flat_values snmpData)))"
proof -
  have m: "map_of (interfaces_map is) idx = Some \<lparr>ie_Interface = i, ie_Metrics = []\<rparr>" using assms by (simp add: interfaces_map_of)
  then have "interface_metric (interfaces_map is) idx mib = None" by (simp add: interface_metric_def)
  note f = fold_put_value[OF _ this, of "flat_values snmpData"]
  show ?thesis using f m by (auto simp: put_data_flat interface_metric_def map_option_case split: option.splits)
qed

section \<open>The checksum of the inventory\<close>

text \<open>Two maps of devices with the same content, whatever the order in which the maps are iterated.\<close>

definition same_interfaces :: "DeviceExt \<Rightarrow> DeviceExt \<Rightarrow> bool" where
  "same_interfaces d d' \<longleftrightarrow> mset (map (\<lambda>(_, i). if_Name (ie_Interface i)) (de_Interfaces d)) = mset (map (\<lambda>(_, i). if_Name (ie_Interface i)) (de_Interfaces d'))"

lemma sort_mset_cong: "mset xs = mset ys \<Longrightarrow> sort xs = sort ys"
  by (simp add: properties_for_sort)

text \<open>
  The inventory is sent again only when the devices or the names of their interfaces change: the checksum does not depend on the
  order of iteration, nor on addresses, credentials, states and values.
\<close>

theorem inventory_checksum_stable:
  assumes "mset (map fst (sc_devices c)) = mset (map fst (sc_devices c'))"
    and "\<And>name d d'. map_of (sc_devices c) name = Some d \<Longrightarrow> map_of (sc_devices c') name = Some d' \<Longrightarrow> same_interfaces d d'"
  shows "getInventoryHashSum hashsum c = getInventoryHashSum hashsum c'"
proof -
  have keys: "set (map fst (sc_devices c)) = set (map fst (sc_devices c'))" using assms(1) by (rule mset_eq_setD)
  have "host_services (sc_devices c) = host_services (sc_devices c')"
    unfolding host_services_def sort_mset_cong[OF assms(1)]
  proof (rule arg_cong[where f = concat], rule map_cong[OF refl])
    fix host assume "host \<in> set (sort (map fst (sc_devices c')))"
    then obtain d d' where d: "map_of (sc_devices c) host = Some d" "map_of (sc_devices c') host = Some d'"
      using keys by (auto dest!: weak_map_of_SomeI simp: map_of_eq_None_iff) (metis image_iff map_of_eq_None_iff not_None_eq)
    show "(let is = case map_of (sc_devices c) host of None \<Rightarrow> [] | Some d \<Rightarrow> de_Interfaces d
           in map (\<lambda>service. host @ '':'' @ service) (sort (map (\<lambda>(_, i). if_Name (ie_Interface i)) is))) =
          (let is = case map_of (sc_devices c') host of None \<Rightarrow> [] | Some d \<Rightarrow> de_Interfaces d
           in map (\<lambda>service. host @ '':'' @ service) (sort (map (\<lambda>(_, i). if_Name (ie_Interface i)) is)))"
      using sort_mset_cong[OF assms(2)[OF d, unfolded same_interfaces_def]] by (simp add: d)
  qed
  then show ?thesis by (simp add: getInventoryHashSum_def)
qed

section \<open>A new configuration\<close>

text \<open>
  A configuration that was decoded is followed by exactly one running loop, with the interval of the configuration, the checksum of
  the inventory is forgotten, so that it is sent again, and the views are those of the configuration and of its profile.
\<close>

theorem config_restarts:
  assumes "periodic_ok (sg_periodic g)"
    and "um data (zero_MetricsProfile, new_MonitorConnection (snmp_defaults cfg)) = ((prof, conn), None)"
  shows "\<exists>g'. snmp_configHandler um_timer um hashsum cfg data g = Done g' \<and> sg_invChksum g' = [] \<and> periodic_ok (sg_periodic g') \<and>
    pe_loops (sg_periodic g') = [(pe_ctx (sg_periodic g'), MaxDuration (xc_CheckInterval (mc_Extensions conn)) [Minute])] \<and>
    (\<forall>view name. view_metric (xc_Views (sg_extConfig g')) view name =
       (case find (\<lambda>m. md_ServiceType m = view \<and> md_Name m = name \<and> name \<noteq> templateMetricName \<and> md_Monitored m) (rev (mp_Metrics prof)) of
          Some m \<Rightarrow> Some m | None \<Rightarrow> view_metric (xc_Views (mc_Extensions conn)) view name))"
proof -
  obtain p' where p': "restart_periodic (xc_CheckInterval (mc_Extensions conn)) (sg_periodic g) = Done p'" "periodic_ok p'"
      "pe_loops p' = [(pe_ctx p', MaxDuration (xc_CheckInterval (mc_Extensions conn)) [Minute])]"
    by (rule restart_one_loop[OF assms(1)])
  obtain interval where u: "UnmarshalConfig um_timer um data (sg_CheckInterval g) (zero_MetricsProfile, new_MonitorConnection (snmp_defaults cfg)) =
      (interval, (prof, conn), None)"
    by (simp add: UnmarshalConfig_def assms(2))
  show ?thesis
    unfolding snmp_configHandler_def u
    by (simp add: Let_def p' view_metric_fold split: option.split cong: option.case_cong)
qed

section \<open>Witnesses\<close>

definition demo_data :: "SnmpMetricData list" where
  "demo_data = [\<lparr>sx_SnmpMetric = \<lparr>sm_Key = ''k'', sm_Mib = ''m'', sm_Oid = ''1''\<rparr>, sx_Values = [\<lparr>sv_Name = ''1.7'', sv_Value = 5\<rparr>]\<rparr>]"

definition demo_iface :: Interface where
  "demo_iface = \<lparr>if_Name = ''e0'', if_Device = ''r1'', if_Index = 7, if_Status = 3\<rparr>"

theorem interface_values_witness:
  "\<exists>x. map_of (put_data demo_data (interfaces_map [demo_iface])) 7 = Some x \<and>
   map_of (ie_Metrics x) ''m'' = Some \<lparr>im_Key = ''k'', im_Mib = ''m'', im_Value = 5\<rparr>"
proof -
  have v: "value_index \<lparr>sv_Name = ''1.7'', sv_Value = 5\<rparr> = Some 7" by code_simp
  have "find (\<lambda>i. if_Index i = 7) (rev [demo_iface]) = Some demo_iface" by (simp add: demo_iface_def)
  from interface_values[OF this, of demo_data "''m''"] show ?thesis by (auto simp: flat_values_def demo_data_def v)
qed

definition demo_connector :: "(bytes \<times> DeviceExt) list \<Rightarrow> SnmpConnector" where
  "demo_connector ds = \<lparr>sc_config = snmp_defaults defaults, sc_nediClient = \<lparr>nc_Server = []\<rparr>, sc_devices = ds\<rparr>"

theorem inventory_checksum_stable_witness:
  "getInventoryHashSum (\<lambda>hs. Some (concat hs)) (demo_connector [(''r1'', demo_device [(1, demo_interface 5)]), (''r2'', demo_device [])]) =
   getInventoryHashSum (\<lambda>hs. Some (concat hs)) (demo_connector [(''r2'', demo_device []), (''r1'', demo_device [(3, demo_interface 7)])])"
  by (rule inventory_checksum_stable)
    (auto simp: demo_connector_def same_interfaces_def demo_device_def demo_interface_def split: if_splits)

definition demo_cmd :: snmp_cmd where
  "demo_cmd = \<lparr>sg_extConfig = snmp_defaults defaults, sg_cfgChksum = [], sg_invChksum = ''x'', sg_connector = demo_connector [], sg_cache = Map.empty,
     sg_CheckInterval = DefaultCheckInterval, sg_periodic = periodic_init\<rparr>"

theorem config_restarts_witness:
  "\<exists>g'. snmp_configHandler (\<lambda>_. None) (\<lambda>_ c. (c, None)) (\<lambda>_. None) defaults [] demo_cmd = Done g' \<and> sg_invChksum g' = [] \<and> length (pe_loops (sg_periodic g')) = 1"
  using config_restarts[of demo_cmd "\<lambda>_ c. (c, None)" "[]" defaults zero_MetricsProfile "new_MonitorConnection (snmp_defaults defaults)" "\<lambda>_. None" "\<lambda>_. None"]
  by (auto simp: demo_cmd_def periodic_ok_init)

end
