(* ===== verification/Elastic_Connector.thy ===== *)
theory Elastic_Connector
  imports Elastic_Model Snmp_Connector
begin

text \<open>
  The Elastic connector, \<^verbatim>\<open>connectors/elastic/elastic.go\<close> and \<^verbatim>\<open>connectors/elastic/cmd.go\<close>: its configuration, a collection of the counts of
  stored queries, and what is sent.  The state of a collection shares its maps with the connector, except the groups of hosts, which
  are built in a copy.
\<close>

section \<open>Configuration\<close>

definition elastic_UnmarshalJSON :: "(bytes \<Rightarrow> elastic_ExtConfig \<Rightarrow> elastic_ExtConfig option) \<Rightarrow> bytes \<Rightarrow> elastic_ExtConfig \<Rightarrow> elastic_ExtConfig option" where
  "elastic_UnmarshalJSON um input cfg =
     (case um input cfg of
        None \<Rightarrow> None
      | Some c \<Rightarrow>
          (let c1 = (if ex_CheckInterval c \<noteq> ex_CheckInterval cfg then c\<lparr>ex_CheckInterval := wrap64 (ex_CheckInterval c * Minute)\<rparr> else c)
           in Some (case tf_Override (ex_CustomTimeFilter c1) of
                      None \<Rightarrow> c1
                    | Some b \<Rightarrow> c1\<lparr>ex_OverrideTimeFilter := b, ex_CustomTimeFilter := (ex_CustomTimeFilter c1)\<lparr>tf_Override := None\<rparr>\<rparr>)))"

definition intervalTemplate :: bytes where "intervalTemplate = ''$interval''"

text \<open>The seconds of an interval, as a float and then cut to an integer, which is always in range.\<close>

definition interval_seconds :: "duration \<Rightarrow> int" where
  "interval_seconds d = f64_to_int (\<lambda>_. 0) (duration_units Second d)"

definition replaceIntervalTemplate :: "bytes \<Rightarrow> duration \<Rightarrow> bytes" where
  "replaceIntervalTemplate templateString intervalValue =
     (if Contains templateString intervalTemplate
      then ReplaceAll templateString intervalTemplate (FormatInt (interval_seconds intervalValue) @ ''s'') else templateString)"

definition replaceIntervalTemplates :: "elastic_ExtConfig \<Rightarrow> elastic_ExtConfig" where
  "replaceIntervalTemplates cfg =
     cfg\<lparr>ex_CustomTimeFilter := (ex_CustomTimeFilter cfg)
       \<lparr>tf_From := replaceIntervalTemplate (tf_From (ex_CustomTimeFilter cfg)) (ex_CheckInterval cfg),
        tf_To := replaceIntervalTemplate (tf_To (ex_CustomTimeFilter cfg)) (ex_CheckInterval cfg)\<rparr>\<rparr>"

section \<open>The connector\<close>

record ('w, 'k) elastic_env =
  le_fuel :: nat
  le_kibana :: "'w kibana_env"
  le_es :: "('w, 'k) es_env"
  le_query :: "'k query_env"
  le_gw :: "'w gw_lookup"
  le_orders :: elastic_orders
  le_hex :: "bytes \<Rightarrow> f64 option"

text \<open>With the variable \<open>FilterHostsWithLucene\<close> of the clients and whether the hosts of Groundwork were read.\<close>

record ElasticConnector =
  el_config :: elastic_ExtConfig
  el_kibanaClient :: KibanaClient
  el_esClient :: EsClient
  el_monitoringState :: MonitoringState
  el_lucene :: bytes
  el_once :: bool

definition es_of :: "('w, 'k) elastic_env \<Rightarrow> ElasticConnector \<Rightarrow> ('w, 'k) es_env" where
  "es_of env c = (le_es env)\<lparr>ee_FilterHostsWithLucene := el_lucene c\<rparr>"

definition query_of :: "('w, 'k) elastic_env \<Rightarrow> ElasticConnector \<Rightarrow> 'k query_env" where
  "query_of env c = (le_query env)\<lparr>qe_FilterHostsWithLucene := el_lucene c\<rparr>"

definition empty_state :: MonitoringState where
  "empty_state = \<lparr>mt_Metrics = [], mt_Hosts = [], mt_HostGroups = []\<rparr>"

definition initClients :: "('w, 'k) es_env \<Rightarrow> elastic_ExtConfig \<Rightarrow> KibanaClient \<times> EsClient \<times> error option" where
  "initClients env cfg =
     (case Es_InitClient env \<lparr>ec_Addresses = ex_Servers cfg, ec_Username = ki_Username (ex_Kibana cfg), ec_Password = ki_Password (ex_Kibana cfg),
                              ec_client = False\<rparr> of
        (es, err) \<Rightarrow> (Kibana_InitClient \<lparr>kc_APIRoot = ki_ServerName (ex_Kibana cfg), kc_Username = ki_Username (ex_Kibana cfg),
                         kc_Password = ki_Password (ex_Kibana cfg), kc_headers = []\<rparr>, es, err))"

definition elastic_LoadConfig :: "('w, 'k) elastic_env \<Rightarrow> elastic_ExtConfig \<Rightarrow> ElasticConnector \<Rightarrow> 'w net \<Rightarrow> ('w net \<times> ElasticConnector \<times> error option) exec" where
  "elastic_LoadConfig env config c st =
     (let c0 = c\<lparr>el_lucene := ex_FilterHostsWithLucene config\<rparr>
      in case initClients (es_of env c0) config of
           (_, _, Some err) \<Rightarrow> Done (st, c0, Some err)
         | (kibanaClient, esClient, None) \<Rightarrow>
             bind_exec (initMonitoringState (le_fuel env) (es_of env c0) (le_gw env) (le_orders env) config empty_state esClient (el_once c0) st) (\<lambda>(st1, cfg1, s).
               Done (st1, c0\<lparr>el_config := cfg1, el_kibanaClient := kibanaClient, el_esClient := esClient, el_monitoringState := s, el_once := True\<rparr>, None)))"

section \<open>Collecting\<close>

definition StoredQueries :: bytes where "StoredQueries = ''storedQueries''"

definition retrieveMonitoredServiceNames :: "bytes \<Rightarrow> metric_map \<Rightarrow> bytes list" where
  "retrieveMonitoredServiceNames view metrics =
     map (\<lambda>(_, m). md_Name m) (filter (\<lambda>(_, m). md_ServiceType m = view \<and> md_Monitored m) metrics)"

text \<open>The counts per host go to a new variable that hides the result, so they are lost.\<close>

fun count_hosts :: "('w, 'k) es_env \<Rightarrow> EsClient \<Rightarrow> bytes \<Rightarrow> bytes list \<Rightarrow> 'k EsQuery \<Rightarrow> (bytes \<times> monitoringHost) list \<Rightarrow> 'w net \<Rightarrow> ('w net \<times> error option) exec" where
  "count_hosts env c fld indexes query [] st = Done (st, None)"
| "count_hosts env c fld indexes query ((hostName, _) # rest) st =
     bind_exec (on_world (CountHitsForHost env c hostName fld indexes query) st) (\<lambda>(st1, r).
       case r of Inl e \<Rightarrow> Done (st1, Some e) | Inr _ \<Rightarrow> count_hosts env c fld indexes query rest st1)"

definition count_query :: "('w, 'k) elastic_env \<Rightarrow> ElasticConnector \<Rightarrow> bytes list \<Rightarrow> 'k EsQuery \<Rightarrow> 'w net \<Rightarrow> ('w net \<times> (error + (bytes \<times> int) list)) exec" where
  "count_query env c indexes query st =
     (let fld = ex_HostNameField (el_config c)
      in bind_exec (on_world (IsAggregatable (es_of env c) (el_esClient c) [fld]) st) (\<lambda>(st1, agg, err).
        case err of
          Some e \<Rightarrow> Done (st1, Inl e)
        | None \<Rightarrow>
            if agg fld then on_world (CountHits (le_fuel env) (es_of env c) (el_esClient c) fld indexes query) st1
            else bind_exec (count_hosts (es_of env c) (el_esClient c) fld indexes query (eo_hosts (le_orders env) (mt_Hosts (el_monitoringState c))) st1)
                   (\<lambda>(st2, err2). Done (st2, case err2 of Some e \<Rightarrow> Inl e | None \<Rightarrow> Inr []))))"

definition collect_query :: "('w, 'k) elastic_env \<Rightarrow> timestamp \<Rightarrow> KSavedObject \<Rightarrow> ElasticConnector \<Rightarrow> 'w net \<Rightarrow> ('w net \<times> (error + ElasticConnector)) exec" where
  "collect_query env timeNow storedQuery c st =
     bind_exec (deref (so_Attributes storedQuery)) (\<lambda>a.
     let timeFilter = (case ka_TimeFilter a of Some t \<Rightarrow> if ex_OverrideTimeFilter (el_config c) then ex_CustomTimeFilter (el_config c) else t
                   | None \<Rightarrow> ex_CustomTimeFilter (el_config c));
         sq = storedQuery\<lparr>so_Attributes := Some (a\<lparr>ka_TimeFilter := Some timeFilter\<rparr>)\<rparr>
     in bind_exec (on_world (RetrieveIndexTitles (le_kibana env) (el_kibanaClient c) sq) st) (\<lambda>(st1, indexes).
        bind_exec (BuildEsQuery (query_of env c) timeNow sq) (\<lambda>query.
        bind_exec (ToTimeInterval (qe_loc (le_query env)) timeNow timeFilter) (\<lambda>timeInterval.
        bind_exec (count_query env c indexes query st1) (\<lambda>(st2, r).
          Done (st2, map_sum id (\<lambda>result.
            c\<lparr>el_monitoringState := updateHosts (le_orders env) result (ka_Title a) (Some timeInterval) (el_monitoringState c)\<rparr>) r))))))"

fun collect_queries :: "('w, 'k) elastic_env \<Rightarrow> timestamp \<Rightarrow> KSavedObject list \<Rightarrow> ElasticConnector \<Rightarrow> 'w net \<Rightarrow> ('w net \<times> ElasticConnector \<times> error option) exec" where
  "collect_queries env timeNow [] c st = Done (st, c, None)"
| "collect_queries env timeNow (q # qs) c st =
     bind_exec (collect_query env timeNow q c st) (\<lambda>(st1, r).
       case r of Inl e \<Rightarrow> Done (st1, c, Some e) | Inr c1 \<Rightarrow> collect_queries env timeNow qs c1 st1)"

definition collectStoredQueriesMetrics :: "('w, 'k) elastic_env \<Rightarrow> timestamp \<Rightarrow> bytes list \<Rightarrow> ElasticConnector \<Rightarrow> 'w net \<Rightarrow>
    ('w net \<times> ElasticConnector \<times> error option) exec" where
  "collectStoredQueriesMetrics env timeNow titles c st =
     bind_exec (on_world (RetrieveStoredQueries (le_fuel env) (le_kibana env) (el_kibanaClient c) titles) st) (\<lambda>(st1, storedQueries).
       collect_queries env timeNow storedQueries c st1)"

fun elastic_views :: "('w, 'k) elastic_env \<Rightarrow> timestamp \<Rightarrow> (bytes \<times> metric_map) list \<Rightarrow> ElasticConnector \<Rightarrow> 'w net \<Rightarrow> ('w net \<times> ElasticConnector) exec" where
  "elastic_views env timeNow [] c st = Done (st, c)"
| "elastic_views env timeNow ((view, metrics) # rest) c st =
     (let s = el_monitoringState c;
          c1 = c\<lparr>el_monitoringState := s\<lparr>mt_Metrics := fold (\<lambda>(n, m). AList.update n m) metrics (mt_Metrics s)\<rparr>\<rparr>
      in if view = StoredQueries
         then bind_exec (collectStoredQueriesMetrics env timeNow
                (retrieveMonitoredServiceNames StoredQueries (eo_metrics (le_orders env) metrics)) c1 st) (\<lambda>(st1, c2, err).
                if err \<noteq> None then Done (st1, c2) else elastic_views env timeNow rest c2 st1)
         else elastic_views env timeNow rest c1 st)"

definition elastic_CollectMetrics :: "('w, 'k) elastic_env \<Rightarrow> timestamp \<Rightarrow> duration \<Rightarrow> ElasticConnector \<Rightarrow> 'w net \<Rightarrow>
    ('w net \<times> ElasticConnector \<times> MonitoredResource list \<times> InventoryResource list \<times> ResourceGroup list) exec" where
  "elastic_CollectMetrics env timeNow ci c st =
     bind_exec (initMonitoringState (le_fuel env) (es_of env c) (le_gw env) (le_orders env) (el_config c) (el_monitoringState c) (el_esClient c) (el_once c) st)
       (\<lambda>(st1, cfg1, s).
       bind_exec (elastic_views env timeNow (eo_views (le_orders env) (ex_Views cfg1))
                    (c\<lparr>el_config := cfg1, el_monitoringState := s, el_once := True\<rparr>) st1) (\<lambda>(st2, c2).
       bind_exec (toTransitResources (le_hex env) timeNow ci (le_orders env) (el_monitoringState c2)) (\<lambda>(mrs, irs).
         Done (st2, c2, mrs, irs, snd (toResourceGroups (le_orders env) (el_monitoringState c2))))))"

definition query_titles :: "KSavedObject list \<Rightarrow> bytes list exec" where
  "query_titles qs = map_exec (\<lambda>q. bind_exec (deref (so_Attributes q)) (\<lambda>a. Done (ka_Title a))) qs"

definition ListSuggestions :: "('w, 'k) elastic_env \<Rightarrow> ElasticConnector \<Rightarrow> bytes \<Rightarrow> bytes \<Rightarrow> 'w net \<Rightarrow> ('w net \<times> bytes list) exec" where
  "ListSuggestions env c view name st =
     (if kc_APIRoot (el_kibanaClient c) = [] \<or> view \<noteq> StoredQueries then Done (st, [])
      else bind_exec (on_world (RetrieveStoredQueries (le_fuel env) (le_kibana env) (el_kibanaClient c) []) st) (\<lambda>(st1, qs).
           bind_exec (query_titles qs) (\<lambda>ts. Done (st1, filter (\<lambda>t. name = [] \<or> Contains t name) ts))))"

text \<open>The checksum is one of the sorted names of hosts and metrics and of the groups with their sorted hosts.\<close>

definition elastic_getInventoryHashSum :: "(bytes list \<times> bytes list \<times> (bytes \<times> bytes list) list \<Rightarrow> bytes option) \<Rightarrow> ElasticConnector \<Rightarrow> bytes option" where
  "elastic_getInventoryHashSum hashsum c =
     (let s = el_monitoringState c
      in hashsum (sort (map fst (mt_Hosts s)), sort (map (\<lambda>(n, m). Name n (md_CustomName m)) (mt_Metrics s)),
                  map (\<lambda>(g, hosts). (g, sort hosts)) (sort_key fst (mt_HostGroups s))))"

section \<open>The command\<close>

record elastic_cmd =
  eg_extConfig :: elastic_ExtConfig
  eg_invChksum :: bytes
  eg_connector :: ElasticConnector
  eg_CheckInterval :: duration
  eg_periodic :: periodic

definition with_protocol :: "bytes \<Rightarrow> bytes" where
  "with_protocol server = (if HasPrefix server ''http'' then server else ''http'' @ '':'' @ ''//'' @ server)"

definition kibana_server :: "bytes \<Rightarrow> bytes" where
  "kibana_server n = (let s = with_protocol n in if HasSuffix s ''/'' then s else s @ ''/'')"

definition defaultHostGroupLabel :: bytes where "defaultHostGroupLabel = ''container.labels.com_docker_compose_project.keyword''"
definition defaultHostGroupName :: bytes where "defaultHostGroupName = ''Elastic Search''"

definition elastic_defaults :: "Config \<Rightarrow> elastic_ExtConfig" where
  "elastic_defaults cfg =
     \<lparr>ex_Kibana = \<lparr>ki_ServerName = ''http://localhost:5601/'', ki_Username = [], ki_Password = []\<rparr>, ex_Servers = [''http://localhost:9200''],
      ex_CustomTimeFilter = \<lparr>tf_From = ''now-$interval'', tf_To = ''now'', tf_Override = None\<rparr>, ex_OverrideTimeFilter = False,
      ex_FilterHostsWithLucene = [], ex_HostNameField = ''container.name.keyword'', ex_HostGroupField = defaultHostGroupLabel,
      ex_GroupNameByUser = False, ex_CheckInterval = DefaultCheckInterval, ex_AppName = c_AppName (cfg_Connector cfg),
      ex_AppType = c_AppType (cfg_Connector cfg), ex_AgentID = c_AgentID (cfg_Connector cfg), ex_GWConnections = cfg_GWConnections cfg,
      ex_Ownership = Yield, ex_Views = []\<rparr>"

text \<open>Updating of a decoded configuration.\<close>

definition received_config :: "MetricsProfile \<Rightarrow> elastic_ExtConfig MonitorConnection \<Rightarrow> elastic_ExtConfig" where
  "received_config tMetProf tMonConn =
     (let e0 = mc_Extensions tMonConn;
          e1 = (if mc_Server tMonConn \<noteq> [] then e0\<lparr>ex_Servers := map with_protocol (Split (mc_Server tMonConn) (CHR '',''))\<rparr> else e0);
          e2 = e1\<lparr>ex_Kibana := (ex_Kibana e1)\<lparr>ki_ServerName := kibana_server (ki_ServerName (ex_Kibana e1))\<rparr>\<rparr>;
          e3 = (if ex_GroupNameByUser e2 \<and> ex_HostGroupField e2 = defaultHostGroupLabel then e2\<lparr>ex_HostGroupField := defaultHostGroupName\<rparr> else e2);
          e4 = e3\<lparr>ex_Views := fold add_view (mp_Metrics tMetProf) (ex_Views e3)\<rparr>;
          e5 = e4\<lparr>ex_Ownership := defer_ownership (ex_GWConnections e4) (ex_GWConnections e4) (ex_Ownership e4)\<rparr>
      in replaceIntervalTemplates e5)"

type_synonym elastic_decoder = "bytes \<Rightarrow> MetricsProfile \<times> elastic_ExtConfig MonitorConnection \<Rightarrow> (MetricsProfile \<times> elastic_ExtConfig MonitorConnection) \<times> error option"

definition elastic_configHandler :: "('w, 'k) elastic_env \<Rightarrow> (bytes \<Rightarrow> int option) \<Rightarrow> elastic_decoder \<Rightarrow> Config \<Rightarrow> bytes \<Rightarrow> elastic_cmd \<Rightarrow> 'w net \<Rightarrow>
    ('w net \<times> elastic_cmd) exec" where
  "elastic_configHandler env um_timer um cfg data g st =
     (case UnmarshalConfig um_timer um data (eg_CheckInterval g) (zero_MetricsProfile, new_MonitorConnection (elastic_defaults cfg)) of
        (interval, (_, _), Some _) \<Rightarrow> Done (st, g\<lparr>eg_CheckInterval := interval\<rparr>)
      | (interval, (tMetProf, tMonConn), None) \<Rightarrow>
          (let tExt = received_config tMetProf tMonConn;
               g1 = g\<lparr>eg_CheckInterval := interval, eg_extConfig := tExt\<rparr>
           in bind_exec (elastic_LoadConfig env tExt (eg_connector g1) st) (\<lambda>(st1, c1, _).
              bind_exec (restart_periodic interval (eg_periodic g1)) (\<lambda>p. Done (st1, g1\<lparr>eg_connector := c1, eg_periodic := p\<rparr>)))))"

definition elastic_periodicHandler :: "('w, 'k) elastic_env \<Rightarrow> svc_env \<Rightarrow> expr_env \<Rightarrow> nat \<Rightarrow> (InventoryRequest \<Rightarrow> bytes option) \<Rightarrow>
    (bytes list \<times> bytes list \<times> (bytes \<times> bytes list) list \<Rightarrow> bytes option) \<Rightarrow> timestamp \<Rightarrow> elastic_cmd \<Rightarrow> Agent \<Rightarrow> 'w net \<Rightarrow>
    (elastic_cmd \<times> Agent \<times> 'w net) exec" where
  "elastic_periodicHandler env svc xenv fuel iq_ma hashsum timeNow g a st =
     (if mt_Metrics (el_monitoringState (eg_connector g)) = [] then Done (g, a, st)
      else bind_exec (elastic_CollectMetrics env timeNow (eg_CheckInterval g) (eg_connector g) st) (\<lambda>(st1, c1, metrics, inventory, groups).
        let g1 = g\<lparr>eg_connector := c1\<rparr>; chk = elastic_getInventoryHashSum hashsum c1 in
        bind_exec (if chk = None \<or> Some (eg_invChksum g1) \<noteq> chk
                   then bind_exec (SendInventory svc iq_ma None inventory groups (ex_Ownership (el_config c1)) a) (\<lambda>(a1, _). Done a1)
                   else Done a) (\<lambda>a1.
        let g2 = (case chk of None \<Rightarrow> g1 | Some h \<Rightarrow> g1\<lparr>eg_invChksum := h\<rparr>) in
        bind_exec (SendMetrics svc xenv fuel (eg_CheckInterval g2) None metrics None a1) (\<lambda>(a2, _). Done (g2, a2, st1)))))"

section \<open>Groups of hosts\<close>

lemma map_sum_Inr: "map_sum id f r = Inr y \<longleftrightarrow> (\<exists>x. r = Inr x \<and> y = f x)"
  by (cases r) auto

lemma collect_query_groups:
  "collect_query env timeNow q c st = Done (st', Inr c') \<Longrightarrow> mt_HostGroups (el_monitoringState c') = mt_HostGroups (el_monitoringState c)"
  by (auto simp: collect_query_def Let_def updateHosts_def map_sum_Inr)

lemma collect_queries_groups:
  "collect_queries env timeNow qs c st = Done (st', c', err) \<Longrightarrow> mt_HostGroups (el_monitoringState c') = mt_HostGroups (el_monitoringState c)"
proof (induction qs arbitrary: c st)
  case (Cons q qs)
  obtain st1 r where r: "collect_query env timeNow q c st = Done (st1, r)" using Cons.prems by auto
  show ?case using Cons r by (cases r) (auto dest: collect_query_groups)
qed simp

lemma elastic_views_groups:
  "elastic_views env timeNow vs c st = Done (st', c') \<Longrightarrow> mt_HostGroups (el_monitoringState c') = mt_HostGroups (el_monitoringState c)"
proof (induction vs arbitrary: c st)
  case (Cons p vs)
  obtain view metrics where p: "p = (view, metrics)" by (cases p)
  define c1 where "c1 = c\<lparr>el_monitoringState := (el_monitoringState c)\<lparr>mt_Metrics := fold (\<lambda>(n, m). AList.update n m) metrics (mt_Metrics (el_monitoringState c))\<rparr>\<rparr>"
  have c1: "mt_HostGroups (el_monitoringState c1) = mt_HostGroups (el_monitoringState c)" by (simp add: c1_def)
  show ?case
  proof (cases "view = StoredQueries")
    case True
    then obtain st1 c2 err where r: "collectStoredQueriesMetrics env timeNow (retrieveMonitoredServiceNames StoredQueries (eo_metrics (le_orders env) metrics)) c1 st
        = Done (st1, c2, err)" and rest: "(if err \<noteq> None then Done (st1, c2) else elastic_views env timeNow vs c2 st1) = Done (st', c')"
      using Cons.prems by (auto simp: p Let_def c1_def)
    from r have "mt_HostGroups (el_monitoringState c2) = mt_HostGroups (el_monitoringState c1)"
      by (auto simp: collectStoredQueriesMetrics_def dest: collect_queries_groups)
    then show ?thesis using rest Cons.IH c1 by (cases err) auto
  next
    case False
    then have "elastic_views env timeNow vs c1 st = Done (st', c')" using Cons.prems by (simp add: p Let_def c1_def)
    then show ?thesis using Cons.IH c1 by simp
  qed
qed simp

text \<open>
  The groups are built in a copy of the state, so the checksum after a collection never has any: a change of groups alone does not
  send the inventory.
\<close>

theorem checksum_without_groups:
  assumes "elastic_CollectMetrics env timeNow ci c st = Done (st', c', mrs, irs, rgs)"
  shows "elastic_getInventoryHashSum hashsum c' =
    hashsum (sort (map fst (mt_Hosts (el_monitoringState c'))), sort (map (\<lambda>(n, m). Name n (md_CustomName m)) (mt_Metrics (el_monitoringState c'))), [])"
proof -
  obtain st1 cfg1 s where i: "initMonitoringState (le_fuel env) (es_of env c) (le_gw env) (le_orders env) (el_config c) (el_monitoringState c) (el_esClient c) (el_once c) st
      = Done (st1, cfg1, s)"
    and v: "elastic_views env timeNow (eo_views (le_orders env) (ex_Views cfg1)) (c\<lparr>el_config := cfg1, el_monitoringState := s, el_once := True\<rparr>) st1 = Done (st', c')"
    using assms by (auto simp: elastic_CollectMetrics_def)
  have "mt_HostGroups s = []" using i by (auto simp: initMonitoringState_def Let_def split: prod.splits)
  then have "mt_HostGroups (el_monitoringState c') = []" using elastic_views_groups[OF v] by simp
  then show ?thesis by (simp add: elastic_getInventoryHashSum_def Let_def)
qed

section \<open>A field that cannot be aggregated\<close>

text \<open>A query panics when the field of the host names cannot be aggregated and some host is known.\<close>

theorem unaggregatable_panics:
  assumes "orders_ok (le_orders env)" "mt_Hosts (el_monitoringState c) \<noteq> []" "\<not> agg (ex_HostNameField (el_config c))"
    and "IsAggregatable (es_of env c) (el_esClient c) [ex_HostNameField (el_config c)] (net_world st) = Done (w, agg, None)"
  shows "count_query env c indexes query st = Panic NilDereference"
proof -
  have "mset (eo_hosts (le_orders env) (mt_Hosts (el_monitoringState c))) = mset (mt_Hosts (el_monitoringState c))"
    using assms(1) by (simp add: orders_ok_def)
  then obtain h hs where "eo_hosts (le_orders env) (mt_Hosts (el_monitoringState c)) = h # hs"
    using assms(2) by (cases "eo_hosts (le_orders env) (mt_Hosts (el_monitoringState c))") auto
  then show ?thesis
    using assms(3,4) by (cases h) (simp add: count_query_def on_world_def Let_def CountHitsForHost_panic)
qed

section \<open>The default time filter\<close>

lemma interval_template: "replaceIntervalTemplate ''now-$interval'' d = ''now-'' @ FormatInt (interval_seconds d) @ ''s''"
proof -
  have "Contains ''now-$interval'' intervalTemplate" by (simp add: intervalTemplate_def HasPrefix_def)
  moreover have "ReplaceAll ''now-$interval'' intervalTemplate r = ''now-'' @ r" for r
    by (simp add: intervalTemplate_def HasPrefix_def)
  ultimately show ?thesis by (simp add: replaceIntervalTemplate_def)
qed

text \<open>The queries of the default filter count what was logged since one interval ago.\<close>

theorem default_filter_interval:
  assumes "0 \<le> k" "k < 2 ^ 33"
  shows "toAbsoluteTime loc timeNow (replaceIntervalTemplate ''now-$interval'' (k * Second)) True = Done (timeNow - k * Second, False)"
proof -
  have "duration_units Second (k * Second) = FFin (of_int k)"
    using units_of(2)[of "k * Second" k Second k] assms by (simp add: unit_defs)
  then have s: "interval_seconds (k * Second) = k" using assms by (simp add: interval_seconds_def f64_to_int_def rat_trunc_def)
  have e: "replaceIntervalTemplate ''now-$interval'' (k * Second) = relative_expr (CHR ''-'') (nat k) (CHR ''s'')"
    using assms(1) by (simp add: interval_template s relative_expr_def now_def FormatInt_def)
  have n: "int (nat k) < 2 ^ 63" using assms by simp
  have "wrap64 (- (k * Second)) = - (k * Second)" using assms by (intro wrap64_small) (simp_all add: unit_defs)
  then show ?thesis
    using assms(1) lower_M(2)[of "CHR ''s''"] unfolding e by (simp add: relative_time(1)[OF n] period_time_def ToLower_def)
qed

section \<open>Witnesses\<close>

definition demo_elastic :: "(unit, bytes) elastic_env" where
  "demo_elastic = \<lparr>le_fuel = 2, le_kibana = demo_kibana, le_es = demo_es, le_query = demo_env, le_gw = demo_gl, le_orders = id_elastic_orders,
     le_hex = (\<lambda>_. None)\<rparr>"

definition demo_elastic_connector :: ElasticConnector where
  "demo_elastic_connector = \<lparr>el_config = demo_elastic_config\<lparr>ex_Views := []\<rparr>, el_kibanaClient = demo_kibana_client, el_esClient = demo_client,
     el_monitoringState = demo_elastic_state, el_lucene = [], el_once = True\<rparr>"

definition demo_net :: "unit net" where
  "demo_net = \<lparr>net_world = (), net_tokens = Map.empty\<rparr>"

lemmas demo_elastic_defs = demo_elastic_def demo_elastic_connector_def demo_net_def demo_es_def demo_client_def es_of_def id_elastic_orders_def
  demo_elastic_config_def

theorem checksum_without_groups_witness:
  "\<exists>st' c' mrs irs rgs. elastic_CollectMetrics demo_elastic 0 Minute demo_elastic_connector demo_net = Done (st', c', mrs, irs, rgs) \<and>
     elastic_getInventoryHashSum (\<lambda>(hosts, _, groups). Some (concat hosts @ concat (map fst groups))) c' =
     Some (concat (sort (map fst (mt_Hosts (el_monitoringState c')))))"
proof -
  have "\<exists>st' c' mrs irs rgs. elastic_CollectMetrics demo_elastic 0 Minute demo_elastic_connector demo_net = Done (st', c', mrs, irs, rgs)"
    by (simp add: elastic_CollectMetrics_def demo_elastic_defs initMonitoringState_def initEsHosts_def on_world_def IsAggregatable_def keyword_def HasSuffix_def
        Let_def monitored_metrics_def demo_elastic_state_def demo_host_def put_hosts_def nullify_def toTransitResources_def)
  then obtain st' c' mrs irs rgs where r: "elastic_CollectMetrics demo_elastic 0 Minute demo_elastic_connector demo_net = Done (st', c', mrs, irs, rgs)"
    by blast
  show ?thesis using r checksum_without_groups[OF r, of "\<lambda>(hosts, _, groups). Some (concat hosts @ concat (map fst groups))"] by simp
qed

theorem unaggregatable_panics_witness:
  "count_query demo_elastic demo_elastic_connector [] demo_es_query demo_net = Panic NilDereference"
proof (rule unaggregatable_panics)
  show "orders_ok (le_orders demo_elastic)" using demo_orders_ok by (simp add: demo_elastic_def)
  show "mt_Hosts (el_monitoringState demo_elastic_connector) \<noteq> []" by (simp add: demo_elastic_connector_def demo_elastic_state_def)
  show "IsAggregatable (es_of demo_elastic demo_elastic_connector) (el_esClient demo_elastic_connector)
      [ex_HostNameField (el_config demo_elastic_connector)] (net_world demo_net) = Done ((), \<lambda>_. False, None)"
    by (simp add: IsAggregatable_def demo_elastic_defs)
qed simp

theorem default_filter_interval_witness:
  "toAbsoluteTime UTC 1709210096123456789 (replaceIntervalTemplate ''now-$interval'' (2 * Minute)) True = Done (1709209976123456789, False)"
  using default_filter_interval[of 120 UTC 1709210096123456789] by (simp add: unit_defs)

end
