(* ===== verification/Apm_Parser.thy ===== *)
theory Apm_Parser
  imports Transit_Profile Go_Regexp Go_Maps Connector_Build
begin

text \<open>
  The parsing side of the APM connector: label mappings (\<^verbatim>\<open>connectors/apm/mappings.go\<close>) and samples written remotely by Prometheus
  (\<^verbatim>\<open>connectors/apm/promparser.go\<close>).  The messages are those of the Prometheus packages, records here, a field that may be
  absent as an option.  Decoding of protocol buffers and JSON, the parser of URLs, the syntax of regular expressions, and the
  iteration order of maps are arguments.
\<close>

section \<open>Mappings\<close>

record Mapping =
  mg_Enabled :: bool
  mg_Source :: bytes
  mg_Destination :: bytes
  mg_Regexp :: "Regexp option"

record Mappings =
  mgs_Resource :: "Mapping list"
  mgs_HostLabel :: "Mapping list"
  mgs_ServiceLabel :: "Mapping list"

definition zero_Mappings :: Mappings where
  "zero_Mappings = \<lparr>mgs_Resource = [], mgs_HostLabel = [], mgs_ServiceLabel = []\<rparr>"

text \<open>\<open>regexp.MustCompile\<close> calls panic for a text that is not an expression.\<close>

definition must_compile :: "(bytes \<Rightarrow> Regexp option) \<Rightarrow> Mapping \<Rightarrow> Mapping exec" where
  "must_compile compile m =
     (case compile (mg_Source m) of None \<Rightarrow> Panic CallOfPanic | Some re \<Rightarrow> Done (m\<lparr>mg_Regexp := Some re\<rparr>))"

definition unmarshalMappings :: "(bytes \<Rightarrow> Regexp option) \<Rightarrow> (bytes \<Rightarrow> Mappings option) \<Rightarrow> bytes \<Rightarrow> Mappings option exec" where
  "unmarshalMappings compile um input =
     (case um input of
        None \<Rightarrow> Done None
      | Some c \<Rightarrow>
          bind_exec (map_exec (must_compile compile) (mgs_HostLabel c)) (\<lambda>hs.
          bind_exec (map_exec (must_compile compile) (mgs_ServiceLabel c)) (\<lambda>ss.
            Done (Some (c\<lparr>mgs_HostLabel := hs, mgs_ServiceLabel := ss\<rparr>)))))"

text \<open>\<open>net.SplitHostPort\<close>, of which the host is used; \<open>None\<close> is an error.\<close>

definition SplitHostPort :: "bytes \<Rightarrow> bytes option" where
  "SplitHostPort hostport =
     (let i = LastIndexByte hostport CHR '':'' in
      if i < 0 then None
      else if hd hostport = CHR ''['' then
        (let e = IndexByte hostport CHR '']'' in
         if e < 0 \<or> e + 1 \<noteq> i then None
         else if CHR ''['' \<in> set (drop 1 hostport) \<or> CHR '']'' \<in> set (drop (nat (e + 1)) hostport) then None
         else Some (take (nat (e - 1)) (drop 1 hostport)))
      else
        (let host = take (nat i) hostport in
         if CHR '':'' \<in> set host \<or> CHR ''['' \<in> set hostport \<or> CHR '']'' \<in> set hostport then None else Some host))"

text \<open>The first argument gives the host of a URL, or \<open>None\<close> for a text that is not one.  A nil pointer as mappings panics.\<close>

definition mapped_resource :: "(bytes \<Rightarrow> bytes option) \<Rightarrow> bytes \<Rightarrow> Mapping \<Rightarrow> bytes option" where
  "mapped_resource url_Host resource m =
     (if Contains (mg_Destination m) ''$1'' then
        (case url_Host resource of
           None \<Rightarrow> None
         | Some host \<Rightarrow>
             map_option (ReplaceAll (mg_Destination m) ''$1'') (if CHR '':'' \<in> set host then SplitHostPort host else Some host))
      else Some (mg_Destination m))"

definition applyResourceMapping :: "(bytes \<Rightarrow> bytes option) \<Rightarrow> Mappings option \<Rightarrow> bytes \<Rightarrow> bytes option exec" where
  "applyResourceMapping url_Host mappings resource =
     bind_exec (deref mappings) (\<lambda>ms.
       Done (case List.find (\<lambda>m. mg_Source m = resource \<and> mg_Enabled m) (mgs_Resource ms) of
               None \<Rightarrow> None
             | Some m \<Rightarrow> mapped_resource url_Host resource m))"

text \<open>One mapping against the labels, in the order of their iteration.\<close>

fun match_labels :: "Mapping \<Rightarrow> (bytes \<times> bytes) list \<Rightarrow> bytes option exec" where
  "match_labels m [] = Done None"
| "match_labels m ((key, value) # ls) =
     bind_exec (deref (mg_Regexp m)) (\<lambda>re.
       if leftmost re key 0 \<noteq> None \<and> mg_Enabled m then Done (Some (ReplaceAll (mg_Destination m) ''$1'' value))
       else match_labels m ls)"

fun label_mappings :: "Mapping list \<Rightarrow> (bytes \<times> bytes) list \<Rightarrow> bytes option exec" where
  "label_mappings [] ls = Done None"
| "label_mappings (m # ms) ls =
     bind_exec (match_labels m ls) (\<lambda>r. case r of Some d \<Rightarrow> Done (Some d) | None \<Rightarrow> label_mappings ms ls)"

text \<open>The mappings are visited from the last to the first; the map is iterated over anew for each.\<close>

definition applyLabelMapping :: "((bytes \<times> bytes) list \<Rightarrow> (bytes \<times> bytes) list) \<Rightarrow> Mapping list \<Rightarrow> (bytes \<times> bytes) list \<Rightarrow> bytes option exec" where
  "applyLabelMapping order mappings labels = label_mappings (rev mappings) (order labels)"

section \<open>Messages of Prometheus\<close>

datatype MetricType = COUNTER | GAUGE | SUMMARY | UNTYPED | HISTOGRAM | GAUGE_HISTOGRAM

record LabelPair =
  lp_Name :: "bytes option"
  lp_Value :: "bytes option"

text \<open>Counter, gauge and untyped values are an optional number in an optional message; of a bucket the cumulative count is read.\<close>

record Histogram =
  hg_SampleCount :: "64 word option"
  hg_SampleSum :: "f64 option"
  hg_Bucket :: "64 word option list"

record dto_Metric =
  dm_Label :: "LabelPair list"
  dm_Gauge :: "f64 option option"
  dm_Counter :: "f64 option option"
  dm_Untyped :: "f64 option option"
  dm_Histogram :: "Histogram option"
  dm_TimestampMs :: "int option"

record MetricFamily =
  mf_Name :: "bytes option"
  mf_Type :: "MetricType option"
  mf_Metric :: "dto_Metric list"

record prom_Sample =
  ps_Value :: f64
  ps_Timestamp :: int

record prom_TimeSeries =
  pt_Labels :: "(bytes \<times> bytes) list"
  pt_Samples :: "prom_Sample list"

type_synonym families = "(bytes \<times> MetricFamily) list"

section \<open>Remote writes\<close>

datatype apm_error = SnappyFailed | UnmarshalFailed | NoMetricName | TextFailed | ResourceFailed build_error | ApmSendFailed error

definition MetricNameLabel :: bytes where "MetricNameLabel = ''__name__''"

definition profileContainsMetric :: "MetricsProfile \<Rightarrow> bytes \<Rightarrow> bool" where
  "profileContainsMetric profile metric \<longleftrightarrow> (\<exists>m \<in> set (mp_Metrics profile). md_Name m = metric)"

text \<open>The seconds of now stand in where a sample has no time, although the field has milliseconds.\<close>

definition sample_metric :: "timestamp \<Rightarrow> LabelPair list \<Rightarrow> prom_Sample \<Rightarrow> dto_Metric" where
  "sample_metric now labels s =
     \<lparr>dm_Label = labels, dm_Gauge = None, dm_Counter = Some (Some (ps_Value s)), dm_Untyped = None, dm_Histogram = None,
      dm_TimestampMs = Some (if ps_Timestamp s > 0 then ps_Timestamp s else now div Second)\<rparr>"

text \<open>The samples of one series are appended to the family; without a family the first one that is a number panics.\<close>

fun add_samples :: "timestamp \<Rightarrow> LabelPair list \<Rightarrow> bytes \<Rightarrow> prom_Sample list \<Rightarrow> families \<Rightarrow> families exec" where
  "add_samples now labels name [] fs = Done fs"
| "add_samples now labels name (s # ss) fs =
     (if ps_Value s = FNaN then add_samples now labels name ss fs
      else bind_exec (deref (map_of fs name)) (\<lambda>mf.
        add_samples now labels name ss (AList.update name (mf\<lparr>mf_Metric := mf_Metric mf @ [sample_metric now labels s]\<rparr>) fs)))"

definition new_family :: "bytes \<Rightarrow> MetricFamily" where
  "new_family name = \<lparr>mf_Name = Some name, mf_Type = Some COUNTER, mf_Metric = []\<rparr>"

definition series_name :: "(bytes \<rightharpoonup> bytes) \<Rightarrow> prom_TimeSeries \<Rightarrow> bytes" where
  "series_name DefaultTags ts =
     (case (DefaultTags ++ map_of (rev (pt_Labels ts))) MetricNameLabel of None \<Rightarrow> [] | Some n \<Rightarrow> n)"

definition series_labels :: "prom_TimeSeries \<Rightarrow> LabelPair list" where
  "series_labels ts = map (\<lambda>(n, v). \<lparr>lp_Name = Some n, lp_Value = Some v\<rparr>) (pt_Labels ts)"

fun parse_series :: "MetricsProfile \<Rightarrow> (bytes \<rightharpoonup> bytes) \<Rightarrow> timestamp \<Rightarrow> bool \<Rightarrow> prom_TimeSeries list \<Rightarrow> bytes list \<Rightarrow> families \<Rightarrow>
    (bytes list \<times> (apm_error + families)) exec" where
  "parse_series profile tags now withFilters [] available fs = Done (available, Inr fs)"
| "parse_series profile tags now withFilters (ts # tss) available fs =
     (let name = series_name tags ts in
      if name = [] then Done (available, Inl NoMetricName)
      else
        (let fs1 = (if map_of fs name = None \<and> (withFilters \<and> profileContainsMetric profile name \<or> \<not> withFilters)
                    then AList.update name (new_family name) fs else fs)
         in bind_exec (add_samples now (series_labels ts) name (pt_Samples ts) fs1) (\<lambda>fs2.
              parse_series profile tags now withFilters tss (available @ [name]) fs2)))"

text \<open>
  The metrics available at a resource are a global of the package, returned updated.  They are emptied only after the message was
  decoded.
\<close>

definition PromParser_Parse :: "MetricsProfile \<Rightarrow> (bytes \<Rightarrow> prom_TimeSeries list option) \<Rightarrow> (bytes \<rightharpoonup> bytes) \<Rightarrow> timestamp \<Rightarrow> bytes \<Rightarrow> bool \<Rightarrow> bytes \<Rightarrow>
    (bytes \<times> bytes list) list \<Rightarrow> ((bytes \<times> bytes list) list \<times> (apm_error + families)) exec" where
  "PromParser_Parse profile um tags now buf withFilters resource availableMetrics =
     (case um buf of
        None \<Rightarrow> Done (availableMetrics, Inl UnmarshalFailed)
      | Some req \<Rightarrow>
          bind_exec (parse_series profile tags now withFilters req [] []) (\<lambda>(available, r).
            Done (AList.update resource available availableMetrics, r)))"

section \<open>What a remote write becomes\<close>

text \<open>The samples of a request as metrics of their families, in the order of the request.\<close>

definition written :: "(bytes \<rightharpoonup> bytes) \<Rightarrow> timestamp \<Rightarrow> prom_TimeSeries list \<Rightarrow> (bytes \<times> dto_Metric) list" where
  "written tags now req =
     concat (map (\<lambda>ts. map (\<lambda>s. (series_name tags ts, sample_metric now (series_labels ts) s)) (filter (\<lambda>s. ps_Value s \<noteq> FNaN) (pt_Samples ts))) req)"

definition family_of :: "bytes \<Rightarrow> dto_Metric list \<Rightarrow> MetricFamily" where
  "family_of name ms = (new_family name)\<lparr>mf_Metric := ms\<rparr>"

lemma add_samples_known:
  assumes "map_of fs name = Some (family_of name ms)"
  shows "\<exists>fs'. add_samples now labels name ss fs = Done fs' \<and>
    map_of fs' = (map_of fs)(name \<mapsto> family_of name (ms @ map (sample_metric now labels) (filter (\<lambda>s. ps_Value s \<noteq> FNaN) ss)))"
  using assms
proof (induction ss arbitrary: fs ms)
  case Nil
  then show ?case by (simp add: fun_upd_idem)
next
  case (Cons s ss)
  show ?case
  proof (cases "ps_Value s = FNaN")
    case True
    then show ?thesis using Cons by simp
  next
    case False
    let ?fs = "AList.update name (family_of name (ms @ [sample_metric now labels s])) fs"
    have "map_of ?fs name = Some (family_of name (ms @ [sample_metric now labels s]))" by (simp add: update_conv')
    from Cons.IH [OF this] obtain fs' where fs': "add_samples now labels name ss ?fs = Done fs'"
        "map_of fs' = (map_of ?fs)(name \<mapsto> family_of name ((ms @ [sample_metric now labels s]) @ map (sample_metric now labels) (filter (\<lambda>s. ps_Value s \<noteq> FNaN) ss)))"
      by blast
    have "add_samples now labels name (s # ss) fs = Done fs'" using False Cons.prems fs'(1) by (simp add: family_of_def)
    moreover have "map_of fs' = (map_of fs)(name \<mapsto> family_of name (ms @ map (sample_metric now labels) (filter (\<lambda>s. ps_Value s \<noteq> FNaN) (s # ss))))"
      using False by (simp add: fs'(2) update_conv' fun_eq_iff)
    ultimately show ?thesis by blast
  qed
qed

lemma parse_series_all:
  assumes "\<forall>ts \<in> set req. series_name tags ts \<noteq> []" "\<forall>n. map_of fs n = map_option (family_of n) (old n)"
  shows "\<exists>fs'. parse_series profile tags now False req available fs = Done (available @ map (series_name tags) req, Inr fs') \<and>
    (\<forall>n. map_of fs' n =
       (if n \<in> series_name tags ` set req
        then Some (family_of n ((case old n of None \<Rightarrow> [] | Some ms \<Rightarrow> ms) @ map snd (filter (\<lambda>(k, _). k = n) (written tags now req))))
        else map_of fs n))"
  using assms
proof (induction req arbitrary: fs available old)
  case (Cons ts req)
  let ?n = "series_name tags ts" and ?ms = "map (sample_metric now (series_labels ts)) (filter (\<lambda>s. ps_Value s \<noteq> FNaN) (pt_Samples ts))"
  let ?o = "case old ?n of None \<Rightarrow> [] | Some ms \<Rightarrow> ms"
  define fs1 where "fs1 = (if map_of fs ?n = None then AList.update ?n (new_family ?n) fs else fs)"
  have "map_of fs1 ?n = Some (family_of ?n ?o)"
    using Cons.prems(2) by (cases "old ?n") (simp_all add: fs1_def update_conv' family_of_def new_family_def)
  from add_samples_known [OF this, of now "series_labels ts" "pt_Samples ts"] obtain fs2
    where fs2: "add_samples now (series_labels ts) ?n (pt_Samples ts) fs1 = Done fs2" "map_of fs2 = (map_of fs1)(?n \<mapsto> family_of ?n (?o @ ?ms))" by blast
  define old2 where "old2 = old(?n \<mapsto> ?o @ ?ms)"
  have o2: "\<forall>n. map_of fs2 n = map_option (family_of n) (old2 n)"
    using Cons.prems(2) by (auto simp: fs2(2) old2_def fs1_def update_conv')
  have req: "\<forall>ts \<in> set req. series_name tags ts \<noteq> []" and ne: "?n \<noteq> []" using Cons.prems(1) by auto
  obtain fs' where fs': "parse_series profile tags now False req (available @ [?n]) fs2 = Done ((available @ [?n]) @ map (series_name tags) req, Inr fs')"
      "\<forall>n. map_of fs' n =
       (if n \<in> series_name tags ` set req
        then Some (family_of n ((case old2 n of None \<Rightarrow> [] | Some ms \<Rightarrow> ms) @ map snd (filter (\<lambda>(k, _). k = n) (written tags now req))))
        else map_of fs2 n)"
    using Cons.IH [OF req o2, of "available @ [?n]"] by blast
  have w: "map snd (filter (\<lambda>(k, _). k = n) (written tags now (ts # req))) =
      (if n = ?n then ?ms else []) @ map snd (filter (\<lambda>(k, _). k = n) (written tags now req))" for n
    by (simp add: written_def filter_map comp_def)
  have "map_of fs' n =
       (if n \<in> series_name tags ` set (ts # req)
        then Some (family_of n ((case old n of None \<Rightarrow> [] | Some ms \<Rightarrow> ms) @ map snd (filter (\<lambda>(k, _). k = n) (written tags now (ts # req)))))
        else map_of fs n)" for n
  proof (cases "n \<in> series_name tags ` set req")
    case True
    then show ?thesis unfolding w by (simp add: fs'(2) old2_def)
  next
    case False
    then have "filter (\<lambda>(k, _). k = n) (written tags now req) = []" by (auto simp: written_def filter_empty_conv)
    then show ?thesis unfolding w using False by (cases "n = ?n") (simp_all add: fs'(2) fs2(2) fs1_def update_conv')
  qed
  then show ?case using fs'(1) fs2(1) ne by (simp add: fs1_def Let_def)
qed (simp add: written_def)

text \<open>
  A remote write without filters, of series that all have names, becomes one family of counters for each name, with all samples of
  that name in the order of the request; only samples that are not numbers are left out.  The names are then available at the resource.
\<close>

theorem remote_write_families:
  assumes "um buf = Some req" "\<forall>ts \<in> set req. series_name tags ts \<noteq> []"
  shows "\<exists>fs. PromParser_Parse profile um tags now buf False resource availableMetrics =
      Done (AList.update resource (map (series_name tags) req) availableMetrics, Inr fs) \<and>
    (\<forall>n. map_of fs n =
       (if n \<in> series_name tags ` set req then Some (family_of n (map snd (filter (\<lambda>(k, _). k = n) (written tags now req)))) else None))"
proof -
  have "\<forall>n. map_of [] n = map_option (family_of n) (Map.empty n)" by simp
  from parse_series_all [OF assms(2) this, of profile now "[]"] show ?thesis by (auto simp: PromParser_Parse_def assms(1))
qed

text \<open>
  A sample without a time gets the seconds of the current time where milliseconds are expected: its time is at most a thousandth
  of the time since 1970, a moment in January of that year.
\<close>

theorem sample_without_time:
  assumes "ps_Timestamp s \<le> 0" "0 \<le> now"
  shows "dm_TimestampMs (sample_metric now labels s) = Some (now div Second) \<and> 1000 * (now div Second * 1000000) \<le> now"
  using assms by (simp add: sample_metric_def Second_def)

text \<open>With filters, a series with a sample whose name is not in the profile makes the parser panic instead of being left out.\<close>

theorem filtered_series_panics:
  assumes "um buf = Some (ts # req)" "series_name tags ts \<noteq> []" "\<not> profileContainsMetric profile (series_name tags ts)"
    and "pt_Samples ts = s # ss" "ps_Value s \<noteq> FNaN"
  shows "PromParser_Parse profile um tags now buf True resource availableMetrics = Panic NilDereference"
  using assms by (simp add: PromParser_Parse_def Let_def)

section \<open>Mappings of labels\<close>

definition label_matches :: "Mapping \<Rightarrow> bytes \<Rightarrow> bool" where
  "label_matches m key \<longleftrightarrow> mg_Enabled m \<and> (case mg_Regexp m of None \<Rightarrow> False | Some re \<Rightarrow> leftmost re key 0 \<noteq> None)"

definition compiled_mappings :: "Mapping list \<Rightarrow> bool" where
  "compiled_mappings ms \<longleftrightarrow> (\<forall>m \<in> set ms. mg_Regexp m \<noteq> None)"

lemma must_compile_all: "map_exec (must_compile compile) ms = Done ms' \<Longrightarrow> compiled_mappings ms'"
  by (induction ms arbitrary: ms') (auto simp: compiled_mappings_def must_compile_def split: option.splits)

lemma match_labels_find:
  assumes "mg_Regexp m \<noteq> None"
  shows "match_labels m ls = Done (map_option (\<lambda>(_, v). ReplaceAll (mg_Destination m) ''$1'' v) (List.find (\<lambda>(k, _). label_matches m k) ls))"
  using assms by (induction ls) (auto simp: label_matches_def)

lemma label_mappings_first:
  assumes "compiled_mappings ms"
  shows "label_mappings ms ls =
    Done (case List.find (\<lambda>m. \<exists>l \<in> set ls. label_matches m (fst l)) ms of
            None \<Rightarrow> None
          | Some m \<Rightarrow> map_option (\<lambda>(_, v). ReplaceAll (mg_Destination m) ''$1'' v) (List.find (\<lambda>(k, _). label_matches m k) ls))"
  using assms
proof (induction ms)
  case (Cons m ms)
  then have m: "mg_Regexp m \<noteq> None" and ms: "compiled_mappings ms" by (simp_all add: compiled_mappings_def)
  show ?case
  proof (cases "List.find (\<lambda>(k, _). label_matches m k) ls")
    case None
    then have "\<not> (\<exists>l \<in> set ls. label_matches m (fst l))" by (auto simp: find_None_iff)
    then show ?thesis using None Cons.IH [OF ms] by (simp add: match_labels_find [OF m])
  next
    case (Some l)
    then have "l \<in> set ls" "label_matches m (fst l)" by (auto simp: find_Some_iff in_set_conv_nth)
    then have "\<exists>l \<in> set ls. label_matches m (fst l)" by blast
    then show ?thesis using Some by (cases l) (simp add: match_labels_find [OF m])
  qed
qed simp

lemma find_app: "List.find P (xs @ ys) = (case List.find P xs of None \<Rightarrow> List.find P ys | Some x \<Rightarrow> Some x)"
  by (induction xs) simp_all

text \<open>
  The last enabled mapping that fits any label decides; when it fits only one of them, the iteration order of the labels has no
  influence on the result.
\<close>

theorem label_mapping_decides:
  assumes "compiled_mappings (before @ m # later)" "\<And>ls. mset (order ls) = mset ls"
    and "(key, value) \<in> set labels" "label_matches m key" "\<And>k v. (k, v) \<in> set labels \<Longrightarrow> label_matches m k \<Longrightarrow> (k, v) = (key, value)"
    and "\<And>m' k v. m' \<in> set later \<Longrightarrow> (k, v) \<in> set labels \<Longrightarrow> \<not> label_matches m' k"
  shows "applyLabelMapping order (before @ m # later) labels = Done (Some (ReplaceAll (mg_Destination m) ''$1'' value))"
proof -
  have s: "set (order labels) = set labels" by (rule mset_eq_setD [OF assms(2)])
  have "List.find (\<lambda>m'. \<exists>l \<in> set (order labels). label_matches m' (fst l)) (rev later) = None"
    using assms(6) by (auto simp: find_None_iff s)
  moreover have "\<exists>l \<in> set (order labels). label_matches m (fst l)" using assms(3,4) by (force simp: s)
  ultimately have f: "List.find (\<lambda>m'. \<exists>l \<in> set (order labels). label_matches m' (fst l)) (rev (before @ m # later)) = Some m"
    by (simp add: find_app)
  obtain k v where kv: "List.find (\<lambda>(k, _). label_matches m k) (order labels) = Some (k, v)"
    using assms(3,4) s by (cases "List.find (\<lambda>(k, _). label_matches m k) (order labels)") (auto simp: find_None_iff)
  then have "(k, v) \<in> set (order labels)" "label_matches m k" by (auto simp: find_Some_iff in_set_conv_nth)
  then have "v = value" using assms(5) by (simp add: s)
  moreover have "compiled_mappings (rev (before @ m # later))" using assms(1) by (auto simp: compiled_mappings_def)
  ultimately show ?thesis unfolding applyLabelMapping_def using label_mappings_first f kv by simp
qed

section \<open>Witnesses\<close>

definition demo_series_of :: "bytes \<Rightarrow> f64 \<Rightarrow> prom_TimeSeries" where
  "demo_series_of name v = \<lparr>pt_Labels = [(MetricNameLabel, name), (''job'', ''j'')], pt_Samples = [\<lparr>ps_Value = v, ps_Timestamp = 5000\<rparr>, \<lparr>ps_Value = FNaN, ps_Timestamp = 0\<rparr>]\<rparr>"

lemma demo_series_name: "series_name Map.empty (demo_series_of name v) = name"
  by (simp add: series_name_def demo_series_of_def MetricNameLabel_def)

theorem remote_write_families_witness:
  "\<exists>fs f. PromParser_Parse zero_MetricsProfile (\<lambda>_. Some [demo_series_of ''a'' (FFin 1), demo_series_of ''b'' (FFin 2), demo_series_of ''a'' (FFin 3)]) Map.empty 0 [] False [] [] =
      Done ([([], [''a'', ''b'', ''a''])], Inr fs) \<and> map_of fs ''a'' = Some f \<and> map dm_Counter (mf_Metric f) = [Some (Some (FFin 1)), Some (Some (FFin 3))]"
proof -
  let ?req = "[demo_series_of ''a'' (FFin 1), demo_series_of ''b'' (FFin 2), demo_series_of ''a'' (FFin 3)]"
  have "\<forall>ts \<in> set ?req. series_name Map.empty ts \<noteq> []" by (simp add: demo_series_name)
  from remote_write_families [of "\<lambda>_. Some ?req" "[]", OF refl this, of zero_MetricsProfile 0 "[]" "[]"]
  obtain fs where fs: "PromParser_Parse zero_MetricsProfile (\<lambda>_. Some ?req) Map.empty 0 [] False [] [] =
      Done (AList.update [] (map (series_name Map.empty) ?req) [], Inr fs)"
    "map_of fs ''a'' = Some (family_of ''a'' (map snd (filter (\<lambda>(k, _). k = ''a'') (written Map.empty 0 ?req))))"
    by (auto simp: demo_series_name)
  have "map dm_Counter (map snd (filter (\<lambda>(k, _). k = ''a'') (written Map.empty 0 ?req))) = [Some (Some (FFin 1)), Some (Some (FFin 3))]"
    by (simp add: written_def demo_series_name) (simp add: demo_series_of_def sample_metric_def)
  then show ?thesis using fs by (simp add: demo_series_name family_of_def)
qed

theorem sample_without_time_witness:
  "dm_TimestampMs (sample_metric 1700000000000000000 [] \<lparr>ps_Value = FFin 1, ps_Timestamp = 0\<rparr>) = Some 1700000000"
  using sample_without_time [of "\<lparr>ps_Value = FFin 1, ps_Timestamp = 0\<rparr>" 1700000000000000000 "[]"] by (simp add: Second_def)

theorem filtered_series_panics_witness:
  "PromParser_Parse zero_MetricsProfile (\<lambda>_. Some [demo_series_of ''a'' (FFin 1)]) Map.empty 0 [] True [] [] = Panic NilDereference"
proof -
  have "pt_Samples (demo_series_of ''a'' (FFin 1)) = \<lparr>ps_Value = FFin 1, ps_Timestamp = 5000\<rparr> # [\<lparr>ps_Value = FNaN, ps_Timestamp = 0\<rparr>]"
    by (simp add: demo_series_of_def)
  from filtered_series_panics [where um = "\<lambda>_. Some [demo_series_of ''a'' (FFin 1)]" and buf = "[]", OF refl _ _ this, of Map.empty zero_MetricsProfile]
  show ?thesis by (simp add: demo_series_name profileContainsMetric_def zero_MetricsProfile_def)
qed

definition demo_mapping :: "char \<Rightarrow> bytes \<Rightarrow> Mapping" where
  "demo_mapping c d = \<lparr>mg_Enabled = True, mg_Source = [c], mg_Destination = d, mg_Regexp = Some \<lparr>re_prog = chr c, re_names = [[]]\<rparr>\<rparr>"

lemma demo_mapping_matches: "label_matches (demo_mapping c d) [e] \<longleftrightarrow> c = e"
  by (simp add: label_matches_def demo_mapping_def leftmost_def match_at_def or_else_def)

theorem label_mapping_decides_witness:
  "applyLabelMapping rev [demo_mapping (CHR ''a'') ''x'', demo_mapping (CHR ''a'') ''host-$1'', demo_mapping (CHR ''z'') ''y''] [(''a'', ''7''), (''b'', ''8'')] =
   Done (Some ''host-7'')"
proof -
  have c: "compiled_mappings ([demo_mapping (CHR ''a'') ''x''] @ demo_mapping (CHR ''a'') ''host-$1'' # [demo_mapping (CHR ''z'') ''y''])"
    by (simp add: compiled_mappings_def demo_mapping_def)
  have r: "ReplaceAll (mg_Destination (demo_mapping (CHR ''a'') ''host-$1'')) ''$1'' ''7'' = ''host-7''" by code_simp
  have "applyLabelMapping rev ([demo_mapping (CHR ''a'') ''x''] @ demo_mapping (CHR ''a'') ''host-$1'' # [demo_mapping (CHR ''z'') ''y'']) [(''a'', ''7''), (''b'', ''8'')] =
      Done (Some (ReplaceAll (mg_Destination (demo_mapping (CHR ''a'') ''host-$1'')) ''$1'' ''7''))"
    by (rule label_mapping_decides [OF c, where key = "''a''"]) (auto simp: demo_mapping_matches)
  then show ?thesis unfolding r by simp
qed

end
