(* ===== verification/Apm_Connector.thy ===== *)
theory Apm_Connector
  imports Apm_Parser Connector_Periodic Metric_Types Http_Client "HOL-Library.List_Lexorder" "HOL-Library.Char_ord"
begin

text \<open>
  The APM connector, \<^verbatim>\<open>connectors/apm/apm.go\<close> and \<^verbatim>\<open>connectors/apm/cmd.go\<close>: metrics that Prometheus pushes or that are pulled from
  resources become resources with services.  The maps of the code are association lists, and the order of an iteration over
  a map is a field of the environment.  The tags of a metric are one map that the builder and the built metric share.
\<close>

section \<open>Configuration\<close>

record apm_Resource =
  ar_Headers :: "(bytes \<times> bytes) list"
  ar_URL :: bytes
  ar_DefaultHost :: bytes
  ar_DefaultHostGroup :: bytes

text \<open>The argument decodes the headers, the URL, the default host and the default group; \<open>None\<close> is its error.\<close>

definition Resource_UnmarshalJSON :: "(bytes \<Rightarrow> ((bytes \<times> bytes) list \<times> bytes \<times> bytes \<times> bytes) option) \<Rightarrow> bytes \<Rightarrow> apm_Resource \<Rightarrow> apm_Resource option" where
  "Resource_UnmarshalJSON um input resource =
     (case um input of
        None \<Rightarrow> None
      | Some (headers, url, host, hostGroup) \<Rightarrow>
          Some \<lparr>ar_Headers = fold (\<lambda>(k, v). AList.update k v) headers (ar_Headers resource), ar_URL = url,
                ar_DefaultHost = host, ar_DefaultHostGroup = hostGroup\<rparr>)"

record apm_ExtConfig =
  ax_Groups :: "ResourceGroup list"
  ax_Resources :: "apm_Resource list"
  ax_Services :: "bytes list"
  ax_CheckInterval :: duration
  ax_Ownership :: bytes

definition apm_UnmarshalJSON :: "(bytes \<Rightarrow> apm_ExtConfig \<Rightarrow> apm_ExtConfig option) \<Rightarrow> bytes \<Rightarrow> apm_ExtConfig \<Rightarrow> apm_ExtConfig option" where
  "apm_UnmarshalJSON um input cfg =
     (case um input cfg of
        None \<Rightarrow> None
      | Some c \<Rightarrow> Some (if ax_CheckInterval c \<noteq> ax_CheckInterval cfg
                        then c\<lparr>ax_CheckInterval := wrap64 (ax_CheckInterval c * Minute)\<rparr> else c))"

definition defaultHostName :: bytes where "defaultHostName = ''APM-Host''"
definition defaultHostGroupName :: bytes where "defaultHostGroupName = ''Servers''"

section \<open>Values\<close>

definition get_value :: "f64 option option \<Rightarrow> f64" where
  "get_value x = (case x of Some (Some v) \<Rightarrow> v | _ \<Rightarrow> FFin 0)"

definition get_count :: "64 word option \<Rightarrow> f64" where
  "get_count x = f64_of_int (case x of None \<Rightarrow> 0 | Some n \<Rightarrow> uint n)"

definition histogram_values :: "bytes \<Rightarrow> Histogram \<Rightarrow> (bytes \<times> f64) list" where
  "histogram_values serviceName h =
     (case hg_SampleSum h of None \<Rightarrow> [] | Some s \<Rightarrow> [(serviceName @ ''_sample_sum'', s)]) @
     (case hg_SampleCount h of None \<Rightarrow> [] | Some _ \<Rightarrow> [(serviceName @ ''_sample_count'', get_count (hg_SampleCount h))]) @
     map (\<lambda>(i, b). (serviceName @ ''_bucket_'' @ FormatInt (int i), get_count b)) (enumerate 0 (hg_Bucket h))"

definition makeValue :: "bytes \<Rightarrow> MetricType \<Rightarrow> dto_Metric \<Rightarrow> (bytes \<times> f64) list exec" where
  "makeValue serviceName metricType metric =
     (case metricType of
        COUNTER \<Rightarrow> Done [(serviceName, get_value (dm_Counter metric))]
      | UNTYPED \<Rightarrow> Done [(serviceName, get_value (dm_Untyped metric))]
      | GAUGE \<Rightarrow> Done [(serviceName, get_value (dm_Gauge metric))]
      | HISTOGRAM \<Rightarrow> bind_exec (deref (dm_Histogram metric)) (\<lambda>h. Done (histogram_values serviceName h))
      | _ \<Rightarrow> Done [])"

section \<open>Builders of metrics\<close>

text \<open>The variables of the loop over the metrics of a family; they are reset for each metric, not for each of its values.\<close>

record label_vars =
  lv_group :: bytes
  lv_host :: bytes
  lv_service :: bytes
  lv_device :: bytes

definition zero_vars :: label_vars where
  "zero_vars = \<lparr>lv_group = [], lv_host = [], lv_service = [], lv_device = []\<rparr>"

definition threshold_label :: "(bytes \<Rightarrow> f64 option) \<Rightarrow> bytes \<Rightarrow> go_any" where
  "threshold_label hex v = (case ParseFloat hex v of Some x \<Rightarrow> A_float64 x | None \<Rightarrow> A_int (-1))"

fun apply_labels :: "(bytes \<Rightarrow> f64 option) \<Rightarrow> LabelPair list \<Rightarrow> label_vars \<Rightarrow> MetricBuilder \<Rightarrow> (bytes \<times> bytes) list \<Rightarrow>
    (label_vars \<times> MetricBuilder \<times> (bytes \<times> bytes) list) exec" where
  "apply_labels hex [] vars mb tags = Done (vars, mb, tags)"
| "apply_labels hex (l # ls) vars mb tags =
     bind_exec (deref (lp_Name l)) (\<lambda>name.
     bind_exec (deref (lp_Value l)) (\<lambda>v.
       if name = ''unitType'' then apply_labels hex ls vars (mb\<lparr>mb_UnitType := Some (MA_string v)\<rparr>) tags
       else if name = ''resource'' then apply_labels hex ls (vars\<lparr>lv_host := v\<rparr>) mb tags
       else if name = ''warning'' then apply_labels hex ls vars (mb\<lparr>mb_Warning := Some (threshold_label hex v)\<rparr>) tags
       else if name = ''critical'' then apply_labels hex ls vars (mb\<lparr>mb_Critical := Some (threshold_label hex v)\<rparr>) tags
       else if name = ''service'' then apply_labels hex ls (vars\<lparr>lv_service := v\<rparr>) mb tags
       else if name = ''group'' then apply_labels hex ls (vars\<lparr>lv_group := v\<rparr>) mb tags
       else if name = ''device'' then apply_labels hex ls (vars\<lparr>lv_device := v\<rparr>) mb tags
       else apply_labels hex ls vars mb (AList.update name v tags)))"

definition getOverrides :: "MetricsProfile \<Rightarrow> bytes \<Rightarrow> MetricDefinition option" where
  "getOverrides profile metricName = List.find (\<lambda>d. md_Name d = metricName) (mp_Metrics profile)"

definition apply_overrides :: "MetricsProfile \<Rightarrow> bytes \<Rightarrow> MetricBuilder \<Rightarrow> MetricBuilder" where
  "apply_overrides profile name mb =
     (case getOverrides profile name of
        None \<Rightarrow> mb
      | Some d \<Rightarrow>
          (let m1 = (if md_CustomName d \<noteq> [] then mb\<lparr>mb_Name := md_CustomName d\<rparr> else mb);
               m2 = (if md_WarningThreshold d \<noteq> -1 then m1\<lparr>mb_Warning := Some (A_int (word_of_int (md_WarningThreshold d)))\<rparr> else m1);
               m3 = (if md_CriticalThreshold d \<noteq> -1 then m2\<lparr>mb_Critical := Some (A_int (word_of_int (md_CriticalThreshold d)))\<rparr> else m2)
           in m3\<lparr>mb_Graphed := md_Graphed d\<rparr>))"

text \<open>What the handlers read of the globals, and the code outside of the repository.\<close>

record 'w apm_env =
  ae_hex :: "bytes \<Rightarrow> f64 option"
  ae_url_Host :: "bytes \<Rightarrow> bytes option"
  ae_snappy :: "bytes \<Rightarrow> bytes option"
  ae_um_write :: "bytes \<Rightarrow> prom_TimeSeries list option"
  ae_text :: "bytes \<Rightarrow> families \<times> bool" \<comment> \<open>what the text parser read, and whether there was no error\<close>
  ae_sys :: sys_env
  ae_http :: "'w http"
  ae_values :: "(bytes \<times> f64) list \<Rightarrow> (bytes \<times> f64) list"
  ae_tags :: "(bytes \<times> bytes) list \<Rightarrow> (bytes \<times> bytes) list"
  ae_families :: "families \<Rightarrow> families"
  ae_hosts :: "(bytes \<times> (bytes \<times> MetricBuilder list) list) list \<Rightarrow> (bytes \<times> (bytes \<times> MetricBuilder list) list) list"
  ae_groups :: "(bytes \<times> ResourceRef list) list \<Rightarrow> (bytes \<times> ResourceRef list) list"
  ae_available :: "(bytes \<times> bytes list) list \<Rightarrow> (bytes \<times> bytes list) list"

record apm_globals =
  ap_extConfig :: apm_ExtConfig
  ap_profile :: MetricsProfile
  ap_mappings :: "Mappings option"
  ap_availableMetrics :: "(bytes \<times> bytes list) list"
  ap_inventoryGroups :: "(bytes \<times> (bytes \<times> ResourceRef list) list) list"
  ap_CheckInterval :: duration
  ap_periodic :: periodic

definition map_names :: "'w apm_env \<Rightarrow> Mappings option \<Rightarrow> bytes \<Rightarrow> (bytes \<times> bytes) list \<Rightarrow> label_vars \<Rightarrow> label_vars exec" where
  "map_names env mappings resource tags vars =
     bind_exec (applyResourceMapping (ae_url_Host env) mappings resource) (\<lambda>h1.
     bind_exec (deref mappings) (\<lambda>ms.
     bind_exec (applyLabelMapping (ae_tags env) (mgs_HostLabel ms) tags) (\<lambda>h2.
     bind_exec (applyLabelMapping (ae_tags env) (mgs_ServiceLabel ms) tags) (\<lambda>s.
       let v1 = (case h1 of Some h \<Rightarrow> vars\<lparr>lv_host := h\<rparr> | None \<Rightarrow> vars);
           v2 = (case h2 of Some h \<Rightarrow> v1\<lparr>lv_host := h\<rparr> | None \<Rightarrow> v1)
       in Done (case s of Some n \<Rightarrow> v2\<lparr>lv_service := n\<rparr> | None \<Rightarrow> v2)))))"

definition resource_at :: "apm_Resource list \<Rightarrow> int \<Rightarrow> apm_Resource exec" where
  "resource_at rs i = (if 0 \<le> i \<and> i < int (length rs) then Done (rs ! nat i) else Panic IndexOutOfRange)"

definition configured_default :: "apm_Resource list \<Rightarrow> int \<Rightarrow> (apm_Resource \<Rightarrow> bytes) \<Rightarrow> bytes \<Rightarrow> bytes exec" where
  "configured_default rs resourceIndex f d =
     (if resourceIndex = -1 then Done d
      else bind_exec (resource_at rs resourceIndex) (\<lambda>r. Done (if f r = [] then d else f r)))"

definition default_names :: "apm_Resource list \<Rightarrow> int \<Rightarrow> bytes \<Rightarrow> label_vars \<Rightarrow> label_vars exec" where
  "default_names rs resourceIndex name vars =
     bind_exec (if lv_group vars = [] then configured_default rs resourceIndex ar_DefaultHostGroup defaultHostGroupName else Done (lv_group vars)) (\<lambda>g.
     bind_exec (if lv_host vars = [] then configured_default rs resourceIndex ar_DefaultHost defaultHostName else Done (lv_host vars)) (\<lambda>h.
       Done (vars\<lparr>lv_group := g, lv_host := h, lv_service := if lv_service vars = [] then name else lv_service vars\<rparr>)))"

definition containsRef :: "ResourceRef list \<Rightarrow> bytes \<Rightarrow> bool" where
  "containsRef refs hostName \<longleftrightarrow> (\<exists>r \<in> set refs. rr_Name r = hostName)"

record apm_tree =
  at_groups :: "(bytes \<times> ResourceRef list) list"
  at_hosts :: "(bytes \<times> (bytes \<times> MetricBuilder list) list) list"
  at_devices :: "(bytes \<times> bytes) list"
  at_stored :: "(bytes \<times> (bytes \<times> ResourceRef list) list) list"

definition add_ref :: "bytes \<Rightarrow> bytes \<Rightarrow> (bytes \<times> ResourceRef list) list \<Rightarrow> (bytes \<times> ResourceRef list) list" where
  "add_ref groupName hostName groups =
     (let refs = slice_at groups groupName in
      AList.update groupName (if containsRef refs hostName then refs
                              else refs @ [\<lparr>rr_Name = hostName, rr_Type = ResourceTypeHost, rr_Owner = []\<rparr>]) groups)"

definition add_builder :: "bytes \<Rightarrow> bytes \<Rightarrow> MetricBuilder \<Rightarrow> (bytes \<times> (bytes \<times> MetricBuilder list) list) list \<Rightarrow>
    (bytes \<times> (bytes \<times> MetricBuilder list) list) list" where
  "add_builder hostName serviceName mb hosts =
     AList.update hostName (append_to serviceName mb (slice_at hosts hostName)) hosts"

definition new_builder :: "timestamp \<Rightarrow> bytes \<Rightarrow> f64 \<Rightarrow> MetricBuilder" where
  "new_builder t name v =
     \<lparr>mb_Name = name, mb_CustomName = [], mb_ComputeType = [], mb_Expression = [], mb_Value = A_float64 v, mb_UnitType = None, mb_Warning = None,
      mb_Critical = None, mb_StartTimestamp = Some t, mb_EndTimestamp = Some t, mb_Graphed = True, mb_Tags = Map.empty\<rparr>"

text \<open>The body of the loop over the values of a metric.  The device is stored under the name before it is sanitized.\<close>

definition value_step :: "'w apm_env \<Rightarrow> apm_globals \<Rightarrow> bytes \<Rightarrow> int \<Rightarrow> timestamp \<Rightarrow> LabelPair list \<Rightarrow> bytes \<Rightarrow> f64 \<Rightarrow> label_vars \<Rightarrow> apm_tree \<Rightarrow>
    (label_vars \<times> apm_tree) exec" where
  "value_step env g resource resourceIndex t labels name v vars tree =
     bind_exec (apply_labels (ae_hex env) labels vars (new_builder t name v) []) (\<lambda>(v1, mb, tags).
     bind_exec (map_names env (ap_mappings g) resource tags v1) (\<lambda>v2.
     bind_exec (default_names (ax_Resources (ap_extConfig g)) resourceIndex name v2) (\<lambda>v3.
     bind_exec (SanitizeString (lv_host v3)) (\<lambda>hostName.
     bind_exec (SanitizeString (lv_service v3)) (\<lambda>serviceName.
     let mb1 = (apply_overrides (ap_profile g) name mb)\<lparr>mb_Tags := map_of tags\<rparr>;
         groups = add_ref (lv_group v3) hostName (at_groups tree);
         tree1 = tree\<lparr>at_groups := groups, at_hosts := add_builder hostName serviceName mb1 (at_hosts tree),
                      at_devices := AList.update (lv_host v3) (lv_device v3) (at_devices tree)\<rparr>
     in if resourceIndex = -1 then Done (v3\<lparr>lv_host := hostName, lv_service := serviceName\<rparr>, tree1)
        else bind_exec (resource_at (ax_Resources (ap_extConfig g)) resourceIndex) (\<lambda>r.
          Done (v3\<lparr>lv_host := hostName, lv_service := serviceName\<rparr>, tree1\<lparr>at_stored := AList.update (ar_URL r) groups (at_stored tree)\<rparr>)))))))"

fun value_loop :: "'w apm_env \<Rightarrow> apm_globals \<Rightarrow> bytes \<Rightarrow> int \<Rightarrow> timestamp \<Rightarrow> LabelPair list \<Rightarrow> (bytes \<times> f64) list \<Rightarrow> label_vars \<Rightarrow> apm_tree \<Rightarrow> apm_tree exec" where
  "value_loop env g resource resourceIndex t labels [] vars tree = Done tree"
| "value_loop env g resource resourceIndex t labels ((name, v) # vs) vars tree =
     bind_exec (value_step env g resource resourceIndex t labels name v vars tree) (\<lambda>(vars', tree').
       value_loop env g resource resourceIndex t labels vs vars' tree')"

definition metric_time :: "timestamp \<Rightarrow> dto_Metric \<Rightarrow> timestamp" where
  "metric_time now metric = (case dm_TimestampMs metric of None \<Rightarrow> now | Some ms \<Rightarrow> wrap64 (ms * 1000000))"

fun extract_metrics :: "'w apm_env \<Rightarrow> apm_globals \<Rightarrow> timestamp \<Rightarrow> bytes \<Rightarrow> int \<Rightarrow> bytes \<Rightarrow> MetricType option \<Rightarrow> dto_Metric list \<Rightarrow> apm_tree \<Rightarrow> apm_tree exec" where
  "extract_metrics env g now resource resourceIndex name ty [] tree = Done tree"
| "extract_metrics env g now resource resourceIndex name ty (metric # ms) tree =
     bind_exec (deref ty) (\<lambda>metricType.
     bind_exec (makeValue name metricType metric) (\<lambda>values.
       if values = [] then extract_metrics env g now resource resourceIndex name ty ms tree
       else bind_exec (value_loop env g resource resourceIndex (metric_time now metric) (dm_Label metric) (ae_values env values) zero_vars tree) (\<lambda>tree'.
         extract_metrics env g now resource resourceIndex name ty ms tree')))"

definition extractIntoMetricBuilders :: "'w apm_env \<Rightarrow> apm_globals \<Rightarrow> timestamp \<Rightarrow> MetricFamily \<Rightarrow> bytes \<Rightarrow> int \<Rightarrow> apm_tree \<Rightarrow> apm_tree exec" where
  "extractIntoMetricBuilders env g now family resource resourceIndex tree =
     (if mf_Metric family = [] then Done tree
      else bind_exec (deref (mf_Name family)) (\<lambda>name.
        extract_metrics env g now resource resourceIndex name (mf_Type family) (mf_Metric family) tree))"

section \<open>Resources\<close>

definition constructResourceGroups :: "(bytes \<times> ResourceRef list) list \<Rightarrow> ResourceGroup list" where
  "constructResourceGroups groups =
     map (\<lambda>(groupName, resources). \<lparr>rg_GroupName = groupName, rg_Type = ''HostGroup'', rg_Description = [], rg_Resources = resources\<rparr>) groups"

text \<open>Upper case is that of ASCII letters.\<close>

definition parseStatus :: "bytes \<Rightarrow> bytes option" where
  "parseStatus str =
     (let s = map ToUpper_char str in
      if s \<in> {''OK'', ''SERVICE_OK''} then Some ServiceOk
      else if s \<in> {''WARNING'', ''SERVICE_WARNING''} then Some ServiceWarning
      else if s \<in> {''CRITICAL'', ''UNSCHEDULED_CRITICAL'', ''SERVICE_UNSCHEDULED_CRITICAL''} then Some ServiceUnscheduledCritical
      else if s \<in> {''PENDING'', ''SERVICE_PENDING''} then Some ServicePending
      else if s \<in> {''SCHEDULED_CRITICAL'', ''SERVICE_SCHEDULED_CRITICAL''} then Some ServiceScheduledCritical
      else if s \<in> {''UNKNOWN'', ''SERVICE_UNKNOWN''} then Some ServiceUnknown
      else None)"

text \<open>
  The loop over the builders of a service: the worst status and the last message of the tags, which are deleted from the tags; the
  tags of each builder as they are then.
\<close>

definition worse :: "bytes option \<Rightarrow> bytes \<Rightarrow> bytes option" where
  "worse mStatus status =
     (case mStatus of
        None \<Rightarrow> Some status
      | Some m \<Rightarrow> if MonitorStatusWeightService status > MonitorStatusWeightService m then Some status else mStatus)"

fun tag_loop :: "MetricBuilder list \<Rightarrow> bytes option \<Rightarrow> bytes option \<Rightarrow> bytes option \<times> bytes option \<times> (bytes \<rightharpoonup> bytes) list" where
  "tag_loop [] mStatus output = (mStatus, output, [])"
| "tag_loop (m # ms) mStatus output =
     (let (tags1, st1) = (case Option.bind (mb_Tags m ''status'') parseStatus of
            None \<Rightarrow> (mb_Tags m, mStatus)
          | Some s \<Rightarrow> ((mb_Tags m)(''status'' := None), worse mStatus s));
          (tags2, out1) = (case tags1 ''message'' of None \<Rightarrow> (tags1, output) | Some t \<Rightarrow> (tags1(''message'' := None), Some t));
          (st, out, rest) = tag_loop ms st1 out1
      in (st, out, tags2 # rest))"

definition tag_service :: "MetricBuilder list \<Rightarrow> MonitoredService \<Rightarrow> MonitoredService" where
  "tag_service metrics service =
     (case tag_loop metrics None None of (mStatus, output, tags) \<Rightarrow>
        service\<lparr>ms_MonitoredInfo := (ms_MonitoredInfo service)
            \<lparr>mi_Status := (case mStatus of None \<Rightarrow> mi_Status (ms_MonitoredInfo service) | Some s \<Rightarrow> s),
             mi_LastPluginOutput := (case output of None \<Rightarrow> mi_LastPluginOutput (ms_MonitoredInfo service) | Some t \<Rightarrow> t)\<rparr>,
          ms_Metrics := map (\<lambda>(m, t). m\<lparr>ts_Tags := t\<rparr>) (zip (ms_Metrics service) tags)\<rparr>)"

fun build_host_services :: "'w apm_env \<Rightarrow> timestamp \<Rightarrow> duration \<Rightarrow> bytes \<Rightarrow> (bytes \<times> MetricBuilder list) list \<Rightarrow> bytes list \<Rightarrow> MonitoredService list exec" where
  "build_host_services env now ci hostName host [] = Done []"
| "build_host_services env now ci hostName host (serviceName # names) =
     bind_exec (BuildServiceForMetrics (ae_hex env) now ci serviceName hostName (slice_at host serviceName)) (\<lambda>r.
       case r of
         Inl _ \<Rightarrow> build_host_services env now ci hostName host names
       | Inr None \<Rightarrow> Panic NilDereference
       | Inr (Some service) \<Rightarrow>
           bind_exec (build_host_services env now ci hostName host names) (\<lambda>ss. Done (tag_service (slice_at host serviceName) service # ss)))"

fun build_hosts :: "'w apm_env \<Rightarrow> timestamp \<Rightarrow> duration \<Rightarrow> (bytes \<times> bytes) list \<Rightarrow> (bytes \<times> (bytes \<times> MetricBuilder list) list) list \<Rightarrow>
    (apm_error + MonitoredResource list) exec" where
  "build_hosts env now ci devices [] = Done (Inr [])"
| "build_hosts env now ci devices ((hostName, host) # hs) =
     bind_exec (build_host_services env now ci hostName host (sort (map fst host))) (\<lambda>ss.
       case CreateResource now ci hostName [RA_Device (case map_of devices hostName of None \<Rightarrow> [] | Some d \<Rightarrow> d), RA_Services ss] of
         Inl e \<Rightarrow> Done (Inl (ResourceFailed e))
       | Inr r \<Rightarrow> bind_exec (build_hosts env now ci devices hs) (\<lambda>x.
           Done (case x of Inl e \<Rightarrow> Inl e | Inr rs \<Rightarrow> Inr (r # rs))))"

fun extract_families :: "'w apm_env \<Rightarrow> apm_globals \<Rightarrow> timestamp \<Rightarrow> families \<Rightarrow> bytes \<Rightarrow> int \<Rightarrow> apm_tree \<Rightarrow> apm_tree exec" where
  "extract_families env g now [] resource resourceIndex tree = Done tree"
| "extract_families env g now ((_, family) # fs) resource resourceIndex tree =
     (if mf_Metric family = [] \<or> mf_Name family = None then extract_families env g now fs resource resourceIndex tree
      else bind_exec (extractIntoMetricBuilders env g now family resource resourceIndex tree) (\<lambda>tree'.
        extract_families env g now fs resource resourceIndex tree'))"

definition parsePrometheusServices :: "'w apm_env \<Rightarrow> apm_globals \<Rightarrow> timestamp \<Rightarrow> families \<Rightarrow> bytes \<Rightarrow> int \<Rightarrow>
    (apm_globals \<times> (apm_error + MonitoredResource list \<times> (bytes \<times> ResourceRef list) list)) exec" where
  "parsePrometheusServices env g now fs resource resourceIndex =
     bind_exec (extract_families env g now (ae_families env fs) resource resourceIndex
         \<lparr>at_groups = [], at_hosts = [], at_devices = [], at_stored = ap_inventoryGroups g\<rparr>) (\<lambda>tree.
     bind_exec (build_hosts env now (ap_CheckInterval g) (at_devices tree) (ae_hosts env (at_hosts tree))) (\<lambda>r.
       Done (g\<lparr>ap_inventoryGroups := at_stored tree\<rparr>, map_sum id (\<lambda>rs. (rs, at_groups tree)) r)))"

section \<open>Processing\<close>

record promMetricsData =
  pm_resource :: bytes
  pm_resourceIndex :: int
  pm_data :: bytes
  pm_isStatusDown :: bool
  pm_isProtobuf :: bool
  pm_withFilters :: bool

text \<open>The names of the families that the text parser read, and those that pass the filter.  A family without a name panics.\<close>

fun text_families :: "MetricsProfile \<Rightarrow> bool \<Rightarrow> families \<Rightarrow> (bytes list \<times> families) exec" where
  "text_families profile withFilters [] = Done ([], [])"
| "text_families profile withFilters ((key, family) # fs) =
     bind_exec (deref (mf_Name family)) (\<lambda>name.
     bind_exec (text_families profile withFilters fs) (\<lambda>(names, kept).
       Done (name # names, if withFilters \<and> profileContainsMetric profile name \<or> \<not> withFilters then (key, family) # kept else kept)))"

definition read_families :: "'w apm_env \<Rightarrow> apm_globals \<Rightarrow> timestamp \<Rightarrow> promMetricsData \<Rightarrow> (apm_globals \<times> (apm_error + families)) exec" where
  "read_families env g now mi =
     (if pm_isProtobuf mi then
        (case ae_snappy env (pm_data mi) of
           None \<Rightarrow> Done (g, Inl SnappyFailed)
         | Some dst \<Rightarrow>
             bind_exec (PromParser_Parse (ap_profile g) (ae_um_write env) Map.empty now dst (pm_withFilters mi) (pm_resource mi) (ap_availableMetrics g)) (\<lambda>(av, r).
               Done (g\<lparr>ap_availableMetrics := av\<rparr>, r)))
      else
        (case ae_text env (pm_data mi) of (ps, ok) \<Rightarrow>
           bind_exec (text_families (ap_profile g) (pm_withFilters mi) (ae_families env ps)) (\<lambda>(names, kept).
             Done (g\<lparr>ap_availableMetrics := AList.update (pm_resource mi) names (ap_availableMetrics g)\<rparr>,
                   if ok then Inr kept else Inl TextFailed))))"

definition apm_parse :: "'w apm_env \<Rightarrow> apm_globals \<Rightarrow> timestamp \<Rightarrow> promMetricsData \<Rightarrow>
    (apm_globals \<times> (apm_error + MonitoredResource list \<times> ResourceGroup list)) exec" where
  "apm_parse env g now mi =
     bind_exec (read_families env g now mi) (\<lambda>(g1, r).
       case r of
         Inl e \<Rightarrow> Done (g1, Inl e)
       | Inr fs \<Rightarrow>
           bind_exec (parsePrometheusServices env g1 now fs (pm_resource mi) (pm_resourceIndex mi)) (\<lambda>(g2, r).
             Done (g2, map_sum id (\<lambda>(rs, groups). (rs, constructResourceGroups (ae_groups env groups))) r)))"

definition HostUnscheduledDown :: bytes where "HostUnscheduledDown = ''HOST_UNSCHEDULED_DOWN''"

definition down :: "MonitoredResource \<Rightarrow> MonitoredResource" where
  "down r = r\<lparr>mr_MonitoredInfo := (mr_MonitoredInfo r)\<lparr>mi_Status := HostUnscheduledDown\<rparr>\<rparr>"

definition apm_process :: "'w apm_env \<Rightarrow> svc_env \<Rightarrow> expr_env \<Rightarrow> nat \<Rightarrow> timestamp \<Rightarrow> promMetricsData \<Rightarrow> apm_globals \<Rightarrow> Agent \<Rightarrow>
    (apm_globals \<times> Agent \<times> apm_error option) exec" where
  "apm_process env svc xenv fuel now mi g a =
     bind_exec (apm_parse env g now mi) (\<lambda>(g1, r).
       case r of
         Inl e \<Rightarrow> Done (g1, a, Some e)
       | Inr (rs, groups) \<Rightarrow>
           bind_exec (SendMetrics svc xenv fuel (ap_CheckInterval g1) None (if pm_isStatusDown mi then map down rs else rs) (Some groups) a) (\<lambda>(a', err).
             Done (g1, a', map_option ApmSendFailed err)))"

section \<open>Entry points\<close>

text \<open>The body is \<open>None\<close> when it could not be read; the result is the status of the answer.\<close>

definition receiverHandler :: "'w apm_env \<Rightarrow> svc_env \<Rightarrow> expr_env \<Rightarrow> nat \<Rightarrow> timestamp \<Rightarrow> bytes \<Rightarrow> bytes option \<Rightarrow> apm_globals \<Rightarrow> Agent \<Rightarrow>
    (apm_globals \<times> Agent \<times> int) exec" where
  "receiverHandler env svc xenv fuel now contentType body g a =
     (case body of
        None \<Rightarrow> Done (g, a, 400)
      | Some data \<Rightarrow>
          if length data < 2 then Done (g, a, 200)
          else bind_exec (apm_process env svc xenv fuel now
                 \<lparr>pm_resource = [], pm_resourceIndex = -1, pm_data = data, pm_isStatusDown = False,
                  pm_isProtobuf = contentType = ''application/x-protobuf'', pm_withFilters = False\<rparr> g a) (\<lambda>(g', a', err).
               Done (g', a', if err = None then 200 else 400)))"

definition available_metrics :: "'w apm_env \<Rightarrow> apm_globals \<Rightarrow> bytes list" where
  "available_metrics env g = concat (map snd (ae_available env (ap_availableMetrics g)))"

fun pull :: "'w apm_env \<Rightarrow> svc_env \<Rightarrow> expr_env \<Rightarrow> nat \<Rightarrow> timestamp \<Rightarrow> int \<Rightarrow> apm_Resource list \<Rightarrow> apm_globals \<Rightarrow> Agent \<Rightarrow> 'w \<Rightarrow>
    (apm_globals \<times> Agent \<times> 'w) exec" where
  "pull env svc xenv fuel now index [] g a w = Done (g, a, w)"
| "pull env svc xenv fuel now index (r # rs) g a w =
     (case SendWithContext (ae_sys env) (ae_http env) None
             (zero_Req\<lparr>hq_URL := ar_URL r, hq_Method := ''GET'', hq_Headers := ar_Headers r\<rparr>) w of
        (w1, req, err) \<Rightarrow>
          if err \<noteq> None \<or> hq_Status req \<notin> {200, 201, 220} then pull env svc xenv fuel now (index + 1) rs g a w1
          else bind_exec (apm_process env svc xenv fuel now
                 \<lparr>pm_resource = ar_URL r, pm_resourceIndex = index, pm_data = hq_Response req, pm_isStatusDown = hq_Status req = 220,
                  pm_isProtobuf = False, pm_withFilters = True\<rparr> g a) (\<lambda>(g1, a1, _).
               pull env svc xenv fuel now (index + 1) rs g1 a1 w1))"

definition apm_periodicHandler :: "'w apm_env \<Rightarrow> svc_env \<Rightarrow> expr_env \<Rightarrow> nat \<Rightarrow> timestamp \<Rightarrow> apm_globals \<Rightarrow> Agent \<Rightarrow> 'w \<Rightarrow> (apm_globals \<times> Agent \<times> 'w) exec" where
  "apm_periodicHandler env svc xenv fuel now g a w = pull env svc xenv fuel now 0 (ax_Resources (ap_extConfig g)) g a w"

definition Yield :: bytes where "Yield = ''Yield''"

definition apm_defaults :: apm_ExtConfig where
  "apm_defaults = \<lparr>ax_Groups = [], ax_Resources = [], ax_Services = [], ax_CheckInterval = DefaultCheckInterval, ax_Ownership = Yield\<rparr>"

type_synonym apm_decoder = "bytes \<Rightarrow> MetricsProfile \<times> apm_ExtConfig MonitorConnection \<Rightarrow> (MetricsProfile \<times> apm_ExtConfig MonitorConnection) \<times> error option"

text \<open>The mappings are assigned also when they could not be decoded: then they are nil, and the loop is not restarted.\<close>

definition apm_configHandler :: "(bytes \<Rightarrow> int option) \<Rightarrow> apm_decoder \<Rightarrow> (bytes \<Rightarrow> Regexp option) \<Rightarrow> (bytes \<Rightarrow> Mappings option) \<Rightarrow> Config \<Rightarrow> bytes \<Rightarrow> apm_globals \<Rightarrow> apm_globals exec" where
  "apm_configHandler um_timer um compile um_mappings cfg data g =
     (case UnmarshalConfig um_timer um data (ap_CheckInterval g) (zero_MetricsProfile, new_MonitorConnection apm_defaults) of
        (interval, (_, _), Some _) \<Rightarrow> Done (g\<lparr>ap_CheckInterval := interval\<rparr>)
      | (interval, (tMetProf, tMonConn), None) \<Rightarrow>
          (let e0 = mc_Extensions tMonConn;
               tExt = (case cfg_GWConnections cfg of [] \<Rightarrow> e0 | c # _ \<Rightarrow> e0\<lparr>ax_Ownership := gw_DeferOwnership c\<rparr>);
               g1 = g\<lparr>ap_CheckInterval := interval, ap_extConfig := tExt, ap_profile := tMetProf\<rparr>
           in bind_exec (unmarshalMappings compile um_mappings data) (\<lambda>m.
                case m of
                  None \<Rightarrow> Done (g1\<lparr>ap_mappings := None\<rparr>)
                | Some ms \<Rightarrow>
                    bind_exec (restart_periodic (ap_CheckInterval g1) (ap_periodic g1)) (\<lambda>p.
                      Done (g1\<lparr>ap_mappings := Some ms, ap_periodic := p\<rparr>)))))"

section \<open>Every value becomes a metric\<close>

text \<open>What is known of a builder: a float64 value, thresholds that are numbers, a unit that is a text.\<close>

definition apm_builder :: "f64 \<Rightarrow> MetricBuilder \<Rightarrow> bool" where
  "apm_builder v mb \<longleftrightarrow> mb_Value mb = A_float64 v \<and> typed_builder mb"

definition all_builders :: "(bytes \<times> (bytes \<times> MetricBuilder list) list) list \<Rightarrow> MetricBuilder list" where
  "all_builders hosts = concat (map (\<lambda>(_, host). concat (map snd host)) hosts)"

definition builders_ok :: "(bytes \<times> (bytes \<times> MetricBuilder list) list) list \<Rightarrow> bool" where
  "builders_ok hosts \<longleftrightarrow> distinct (map fst hosts) \<and> (\<forall>(_, host) \<in> set hosts. distinct (map fst host)) \<and>
     (\<forall>mb \<in> set (all_builders hosts). \<exists>v. apm_builder v mb)"

definition groups_ok :: "(bytes \<times> ResourceRef list) list \<Rightarrow> bytes set \<Rightarrow> bool" where
  "groups_ok groups hosts \<longleftrightarrow> distinct (map fst groups) \<and> (\<forall>(_, refs) \<in> set groups. distinct (map rr_Name refs)) \<and>
     (\<Union>(_, refs) \<in> set groups. rr_Name ` set refs) = hosts"

definition tree_ok :: "apm_tree \<Rightarrow> bool" where
  "tree_ok tree \<longleftrightarrow> builders_ok (at_hosts tree) \<and> groups_ok (at_groups tree) (fst ` set (at_hosts tree))"

lemma map_default_mset:
  "mset (concat (map snd (append_to k x m))) = add_mset x (mset (concat (map snd m)))"
  unfolding append_to_def by (induction m) auto

lemma slice_at_Cons: "slice_at ((k', v) # m) k = (if k = k' then v else slice_at m k)"
  by (simp add: slice_at_def)

lemma add_builder_mset: "mset (all_builders (add_builder h s mb hosts)) = add_mset mb (mset (all_builders hosts))"
proof (induction hosts)
  case Nil
  then show ?case using map_default_mset [of s mb "[]"] by (simp add: add_builder_def all_builders_def slice_at_def)
next
  case (Cons x hosts)
  obtain k host where x: "x = (k, host)" by (cases x)
  show ?case
  proof (cases "k = h")
    case True
    then show ?thesis using map_default_mset [of s mb host] by (simp add: x add_builder_def all_builders_def slice_at_Cons)
  next
    case False
    then have "add_builder h s mb (x # hosts) = x # add_builder h s mb hosts" by (simp add: x add_builder_def slice_at_Cons)
    then show ?thesis using Cons.IH by (simp add: all_builders_def)
  qed
qed

lemma set_update_sub: "x \<in> set (AList.update k v m) \<Longrightarrow> x = (k, v) \<or> x \<in> set m"
  by (induction m) (auto split: if_splits)

lemma slice_at_distinct: "\<forall>(_, host) \<in> set m. distinct (map fst host) \<Longrightarrow> distinct (map fst (slice_at m k))"
  unfolding slice_at_def by (auto split: option.split dest: map_of_SomeD)

lemma builders_ok_add:
  assumes "builders_ok hosts" "apm_builder v mb"
  shows "builders_ok (add_builder h s mb hosts)" "fst ` set (add_builder h s mb hosts) = insert h (fst ` set hosts)"
proof -
  have "set (all_builders (add_builder h s mb hosts)) = insert mb (set (all_builders hosts))"
    using arg_cong [OF add_builder_mset, of set_mset h s mb hosts] by simp
  moreover have "\<forall>(_, host) \<in> set (add_builder h s mb hosts). distinct (map fst host)"
    using assms(1) slice_at_distinct [of hosts h] append_to_distinct
    unfolding add_builder_def builders_ok_def by (auto dest!: set_update_sub)
  moreover have "distinct (map fst (add_builder h s mb hosts))" using assms(1) by (simp add: builders_ok_def add_builder_def distinct_update)
  ultimately show "builders_ok (add_builder h s mb hosts)" using assms by (auto simp: builders_ok_def)
  show "fst ` set (add_builder h s mb hosts) = insert h (fst ` set hosts)" by (simp add: add_builder_def dom_update)
qed

lemma names_update:
  assumes "distinct (map fst m)" "rr_Name ` set (slice_at m k) \<subseteq> rr_Name ` set v"
  shows "(\<Union>(_, refs) \<in> set (AList.update k v m). rr_Name ` set refs) = (\<Union>(_, refs) \<in> set m. rr_Name ` set refs) \<union> rr_Name ` set v"
  using assms
proof (induction m)
  case (Cons x m)
  then show ?case by (cases x) (auto simp: slice_at_Cons split: if_splits)
qed simp

lemma groups_ok_add:
  assumes "groups_ok groups hosts"
  shows "groups_ok (add_ref g h groups) (insert h hosts)"
proof -
  define refs where "refs = slice_at groups g"
  define v where "v = (if containsRef refs h then refs else refs @ [\<lparr>rr_Name = h, rr_Type = ResourceTypeHost, rr_Owner = []\<rparr>])"
  have d: "distinct (map fst groups)" "\<forall>(_, refs) \<in> set groups. distinct (map rr_Name refs)" "(\<Union>(_, refs) \<in> set groups. rr_Name ` set refs) = hosts"
    using assms by (simp_all add: groups_ok_def)
  have r: "distinct (map rr_Name refs)" "rr_Name ` set refs \<subseteq> hosts"
  proof (atomize (full), cases "map_of groups g")
    case (Some xs)
    then have "(g, xs) \<in> set groups" by (rule map_of_SomeD)
    then show "distinct (map rr_Name refs) \<and> rr_Name ` set refs \<subseteq> hosts" using d(2,3) Some by (force simp: refs_def slice_at_def)
  qed (simp add: refs_def slice_at_def)
  have v: "rr_Name ` set v = insert h (rr_Name ` set refs)" "distinct (map rr_Name v)"
    using r(1) by (auto simp: v_def containsRef_def image_iff)
  have a: "add_ref g h groups = AList.update g v groups" by (simp add: add_ref_def v_def refs_def Let_def)
  have "(\<Union>(_, refs) \<in> set (AList.update g v groups). rr_Name ` set refs) = hosts \<union> insert h (rr_Name ` set refs)"
    using names_update [OF d(1), of g v, unfolded refs_def[symmetric] v(1) d(3)] by blast
  moreover have "\<forall>(_, refs) \<in> set (AList.update g v groups). distinct (map rr_Name refs)"
    using d(2) v(2) by (auto dest!: set_update_sub)
  ultimately show ?thesis using d(1) r(2) unfolding groups_ok_def a by (auto simp: distinct_update)
qed

lemma threshold_label_typed: "typed_any (threshold_label hex v)"
  by (simp add: threshold_label_def split: option.split)

lemma apply_labels_builder:
  "apply_labels hex ls vars mb tags = Done (vars', mb', tags') \<Longrightarrow> apm_builder v mb \<Longrightarrow> apm_builder v mb'"
proof (induction ls arbitrary: vars mb tags)
  case (Cons l ls)
  have set: "apm_builder v (mb\<lparr>mb_UnitType := Some (MA_string x)\<rparr>)" "apm_builder v (mb\<lparr>mb_Warning := Some (threshold_label hex x)\<rparr>)"
      "apm_builder v (mb\<lparr>mb_Critical := Some (threshold_label hex x)\<rparr>)" for x
    using Cons.prems(2) by (simp_all add: apm_builder_def typed_builder_def threshold_label_typed)
  obtain n x where "lp_Name l = Some n" "lp_Value l = Some x" using Cons.prems(1) by (cases "lp_Name l"; cases "lp_Value l") auto
  then show ?case using Cons.IH Cons.prems set by (simp split: if_splits)
qed simp

lemma apply_overrides_builder: "apm_builder v mb \<Longrightarrow> apm_builder v (apply_overrides profile name mb)"
  by (simp add: apply_overrides_def apm_builder_def typed_builder_def Let_def split: option.split)

lemma value_step_adds:
  assumes "value_step env g resource i t labels name v vars tree = Done (vars', tree')" "tree_ok tree"
  shows "tree_ok tree'"
    "image_mset mb_Value (mset (all_builders (at_hosts tree'))) = add_mset (A_float64 v) (image_mset mb_Value (mset (all_builders (at_hosts tree))))"
proof -
  obtain v1 mb tags where l: "apply_labels (ae_hex env) labels vars (new_builder t name v) [] = Done (v1, mb, tags)"
    using assms(1) by (cases "apply_labels (ae_hex env) labels vars (new_builder t name v) []") (auto simp: value_step_def)
  define mb1 where "mb1 = (apply_overrides (ap_profile g) name mb)\<lparr>mb_Tags := map_of tags\<rparr>"
  have "apm_builder v (new_builder t name v)" by (simp add: apm_builder_def new_builder_def typed_builder_def)
  from apply_overrides_builder [OF apply_labels_builder [OF l this], of "ap_profile g" name]
  have b: "apm_builder v mb1" by (simp add: mb1_def apm_builder_def typed_builder_def)
  from assms(1) obtain grp h s where t: "at_groups tree' = add_ref grp h (at_groups tree)" "at_hosts tree' = add_builder h s mb1 (at_hosts tree)"
    unfolding value_step_def l mb1_def Let_def by (auto split: if_splits)
  show "tree_ok tree'"
    using assms(2) builders_ok_add [OF _ b, of "at_hosts tree" h s] groups_ok_add unfolding tree_ok_def t by simp
  show "image_mset mb_Value (mset (all_builders (at_hosts tree'))) = add_mset (A_float64 v) (image_mset mb_Value (mset (all_builders (at_hosts tree))))"
    using b by (simp add: t add_builder_mset apm_builder_def)
qed

lemma value_loop_adds:
  assumes "value_loop env g resource i t labels vs vars tree = Done tree'" "tree_ok tree"
  shows "tree_ok tree' \<and> image_mset mb_Value (mset (all_builders (at_hosts tree'))) =
    image_mset mb_Value (mset (all_builders (at_hosts tree))) + image_mset A_float64 (mset (map snd vs))"
  using assms
proof (induction vs arbitrary: vars tree)
  case (Cons x vs)
  obtain n v where x: "x = (n, v)" by (cases x)
  obtain vars1 tree1 where s: "value_step env g resource i t labels n v vars tree = Done (vars1, tree1)"
      and l: "value_loop env g resource i t labels vs vars1 tree1 = Done tree'"
    using Cons.prems(1) by (auto simp: x)
  show ?case using Cons.IH [OF l value_step_adds(1) [OF s Cons.prems(2)]] value_step_adds(2) [OF s Cons.prems(2)] by (simp add: x)
qed simp

definition metric_values :: "bytes \<Rightarrow> MetricType \<Rightarrow> dto_Metric \<Rightarrow> f64 list" where
  "metric_values name ty m = (case makeValue name ty m of Done vs \<Rightarrow> map snd vs | Panic _ \<Rightarrow> [])"

definition family_values :: "MetricFamily \<Rightarrow> f64 list" where
  "family_values f =
     (case (mf_Name f, mf_Type f) of (Some name, Some ty) \<Rightarrow> concat (map (metric_values name ty) (mf_Metric f)) | _ \<Rightarrow> [])"

definition apm_orders_ok :: "'w apm_env \<Rightarrow> bool" where
  "apm_orders_ok env \<longleftrightarrow> (\<forall>x. mset (ae_values env x) = mset x) \<and> (\<forall>x. mset (ae_families env x) = mset x) \<and> (\<forall>x. mset (ae_hosts env x) = mset x)"

lemma extract_metrics_adds:
  assumes "apm_orders_ok env" "extract_metrics env g now resource i name (Some ty) ms tree = Done tree'" "tree_ok tree"
  shows "tree_ok tree' \<and> image_mset mb_Value (mset (all_builders (at_hosts tree'))) =
    image_mset mb_Value (mset (all_builders (at_hosts tree))) + image_mset A_float64 (mset (concat (map (metric_values name ty) ms)))"
  using assms(2,3)
proof (induction ms arbitrary: tree)
  case (Cons m ms)
  obtain vs where vs: "makeValue name ty m = Done vs" using Cons.prems(1) by (cases "makeValue name ty m") auto
  have "mset (ae_values env vs) = mset vs" using assms(1) by (simp add: apm_orders_ok_def)
  then have o: "mset (map snd (ae_values env vs)) = mset (map snd vs)" by simp
  show ?case
  proof (cases "vs = []")
    case True
    then show ?thesis using Cons vs by (simp add: metric_values_def)
  next
    case False
    then obtain tree1 where t: "value_loop env g resource i (metric_time now m) (dm_Label m) (ae_values env vs) zero_vars tree = Done tree1"
        "extract_metrics env g now resource i name (Some ty) ms tree1 = Done tree'"
      using Cons.prems(1) vs by auto
    note l = value_loop_adds [OF t(1) Cons.prems(2)]
    show ?thesis using Cons.IH [OF t(2)] l o vs by (simp add: metric_values_def ac_simps)
  qed
qed simp

lemma extract_families_adds:
  assumes "apm_orders_ok env" "extract_families env g now fs resource i tree = Done tree'" "tree_ok tree"
  shows "tree_ok tree' \<and> image_mset mb_Value (mset (all_builders (at_hosts tree'))) =
    image_mset mb_Value (mset (all_builders (at_hosts tree))) + image_mset A_float64 (mset (concat (map (family_values \<circ> snd) fs)))"
  using assms(2,3)
proof (induction fs arbitrary: tree)
  case (Cons x fs)
  obtain k f where x: "x = (k, f)" by (cases x)
  show ?case
  proof (cases "mf_Metric f = [] \<or> mf_Name f = None")
    case True
    then have "family_values f = []" by (auto simp: family_values_def split: option.split)
    then show ?thesis using True Cons x by simp
  next
    case False
    then obtain m ms name where f: "mf_Metric f = m # ms" "mf_Name f = Some name" by (cases "mf_Metric f") auto
    obtain tree1 where t: "extract_metrics env g now resource i name (mf_Type f) (m # ms) tree = Done tree1"
        "extract_families env g now fs resource i tree1 = Done tree'"
      using Cons.prems(1) f by (auto simp: x extractIntoMetricBuilders_def)
    then obtain ty where ty: "mf_Type f = Some ty" by (cases "mf_Type f") auto
    note l = extract_metrics_adds [OF assms(1) t(1)[unfolded ty] Cons.prems(2)]
    show ?thesis using Cons.IH [OF t(2)] l by (simp add: x family_values_def f ty ac_simps)
  qed
qed simp

subsection \<open>From builders to resources\<close>

lemma getValueText_typed: "well_typed v \<Longrightarrow> \<exists>r. getValueText (Some v) = Done r"
  by (auto simp: well_typed_def getValueText_def Let_def split: if_splits)

lemma threshold_texts_typed:
  assumes "list_all (\<lambda>t. th_SampleType t \<in> {SampleWarning, SampleCritical} \<and> (case th_Value t of None \<Rightarrow> False | Some v \<Rightarrow> well_typed v)) ts"
  shows "\<exists>r. threshold_texts ts wt crt = Done r"
  using assms
proof (induction ts arbitrary: wt crt)
  case (Cons t ts)
  then obtain v where v: "th_Value t = Some v" "well_typed v" by (auto split: option.splits)
  obtain r where "getValueText (th_Value t) = Done r" using getValueText_typed [OF v(2)] v(1) by auto
  then show ?case using Cons by (cases r) auto
qed simp

lemma thresholds_loop_typed:
  assumes "list_all typed_metric ms"
  shows "\<exists>t. thresholds_loop hex ms out = Done t"
  using assms
proof (induction ms arbitrary: out)
  case (Cons m ms)
  then obtain v where v: "ts_Value m = Some v" "well_typed v" by (auto simp: typed_metric_def split: option.splits)
  obtain r where r: "getValueText (ts_Value m) = Done r" using getValueText_typed [OF v(2)] v(1) by auto
  have "typed_metric m" using Cons.prems by simp
  then obtain wt crt where th: "threshold_texts (ts_Thresholds m) noneThresholdText noneThresholdText = Done (wt, crt)"
    using threshold_texts_typed [of "ts_Thresholds m"] by (fastforce simp: typed_metric_def)
  show ?case using Cons r th by (cases r) (auto split: option.split)
qed simp

definition as_double :: "go_any \<Rightarrow> TypedValue option" where
  "as_double x = (case x of A_float64 v \<Rightarrow> Some (tv_double v) | _ \<Rightarrow> None)"

definition builders_typed :: "MetricBuilder list \<Rightarrow> bool" where
  "builders_typed mbs \<longleftrightarrow> (\<forall>mb \<in> set mbs. \<exists>v. apm_builder v mb)"

lemma metric_args_value: "metric_args as m = Inr m' \<Longrightarrow> ts_Value m' = ts_Value m"
  by (induction as arbitrary: m) (auto split: metric_arg.splits)

lemma BuildMetric_value:
  assumes "BuildMetric now mb = Done (Inr m)" "apm_builder v mb"
  shows "ts_Value m = as_double (mb_Value mb)"
proof -
  let ?n = "Name (mb_Name mb) (mb_CustomName mb)"
  obtain m1 where m1: "CreateMetric now ?n (mb_Value mb) (builder_args mb) = Done (Inr m1)"
    using CreateMetric_typed [of mb now ?n] assms(2) by (auto simp: apm_builder_def)
  have "ts_Value m1 = Some (tv_double v)"
    using m1 assms(2) by (auto simp: CreateMetric_def apm_builder_def Let_def split: sum.splits if_splits dest!: metric_args_value)
  moreover have "ts_Value m = ts_Value m1" using assms(1) m1 by (auto simp: BuildMetric_def Let_def)
  ultimately show ?thesis using assms(2) by (simp add: as_double_def apm_builder_def)
qed

lemma build_metrics_all:
  assumes "builders_typed mbs"
  shows "\<exists>ms. build_metrics now mbs = Done (Inr ms) \<and> list_all typed_metric ms \<and> map ts_Value ms = map (as_double \<circ> mb_Value) mbs"
  using assms
proof (induction mbs)
  case (Cons mb mbs)
  then obtain v where v: "apm_builder v mb" by (auto simp: builders_typed_def)
  then obtain m where m: "BuildMetric now mb = Done (Inr m)" "typed_metric m" using BuildMetric_typed by (auto simp: apm_builder_def)
  show ?case using Cons m BuildMetric_value [OF m(1) v] by (auto simp: builders_typed_def)
qed simp

lemma build_service_all:
  assumes "builders_typed mbs"
  shows "\<exists>s. BuildServiceForMetrics hex now ci sn hn mbs = Done (Inr (Some s)) \<and> map ts_Value (ms_Metrics s) = map (as_double \<circ> mb_Value) mbs"
proof -
  obtain ms where ms: "build_metrics now mbs = Done (Inr ms)" "list_all typed_metric ms" "map ts_Value ms = map (as_double \<circ> mb_Value) mbs"
    using build_metrics_all [OF assms] by blast
  have "\<exists>s. CreateService now ci sn hn [SA_Metrics ms] = Done (Inr s) \<and> ms_Metrics s = ms"
  proof (cases "ms = []")
    case True
    then show ?thesis by (simp add: CreateService_def CalculateServiceStatus_def)
  next
    case False
    then show ?thesis using CreateService_typed [OF ms(2)] by blast
  qed
  then obtain s where s: "CreateService now ci sn hn [SA_Metrics ms] = Done (Inr s)" "ms_Metrics s = ms" by blast
  obtain t where "thresholds_loop hex ms [] = Done t" using thresholds_loop_typed [OF ms(2)] by blast
  then show ?thesis using ms s by (simp add: BuildServiceForMetrics_def addServiceStatusText_def addThresholdsToStatusText_def)
qed

lemma tag_loop_length: "length (snd (snd (tag_loop ms st out))) = length ms"
  by (induction ms arbitrary: st out) (simp_all add: Let_def case_prod_beta split: option.split)

lemma tag_service_values:
  assumes "length (ms_Metrics s) = length mbs"
  shows "map ts_Value (ms_Metrics (tag_service mbs s)) = map ts_Value (ms_Metrics s)"
proof -
  obtain st out tags where t: "tag_loop mbs None None = (st, out, tags)" by (cases "tag_loop mbs None None")
  have "length tags = length (ms_Metrics s)" using tag_loop_length [of mbs None None] assms by (simp add: t)
  then show ?thesis by (auto simp: tag_service_def t intro: nth_equalityI)
qed

definition service_values :: "MonitoredService list \<Rightarrow> TypedValue option list" where
  "service_values ss = concat (map (\<lambda>s. map ts_Value (ms_Metrics s)) ss)"

lemma build_host_services_all:
  assumes "\<forall>n \<in> set names. builders_typed (slice_at host n)"
  shows "\<exists>ss. build_host_services env now ci hn host names = Done ss \<and>
    service_values ss = concat (map (\<lambda>n. map (as_double \<circ> mb_Value) (slice_at host n)) names)"
  using assms
proof (induction names)
  case (Cons n names)
  obtain s where s: "BuildServiceForMetrics (ae_hex env) now ci n hn (slice_at host n) = Done (Inr (Some s))"
      "map ts_Value (ms_Metrics s) = map (as_double \<circ> mb_Value) (slice_at host n)"
    using build_service_all [of "slice_at host n" "ae_hex env" now ci n hn] Cons.prems by auto
  have "length (ms_Metrics s) = length (slice_at host n)" using arg_cong [OF s(2), of length] by simp
  note t = tag_service_values [OF this]
  show ?case using Cons s t by (auto simp: service_values_def)
qed (simp add: service_values_def)

lemma mset_concat_map: "mset (concat (map f xs)) = (\<Sum>x\<in>#mset xs. mset (f x))"
  by (induction xs) simp_all

lemma slice_at_same: "distinct (map fst m) \<Longrightarrow> (k, v) \<in> set m \<Longrightarrow> slice_at m k = v"
  by (simp add: slice_at_def)

lemma host_values:
  assumes "distinct (map fst host)" "builders_typed (concat (map snd host))"
  shows "\<exists>ss. build_host_services env now ci hn host (sort (map fst host)) = Done ss \<and>
    mset (service_values ss) = image_mset (as_double \<circ> mb_Value) (mset (concat (map snd host)))"
proof -
  let ?f = "\<lambda>n. map (as_double \<circ> mb_Value) (slice_at host n)"
  have "\<forall>n \<in> set (sort (map fst host)). builders_typed (slice_at host n)"
    using assms(2) slice_at_same [OF assms(1)] by (fastforce simp: builders_typed_def)
  from build_host_services_all [OF this, of env now ci hn] obtain ss where ss: "build_host_services env now ci hn host (sort (map fst host)) = Done ss"
      "service_values ss = concat (map ?f (sort (map fst host)))" by blast
  have "mset (concat (map ?f (sort (map fst host)))) = mset (concat (map ?f (map fst host)))" unfolding mset_concat_map by simp
  also have "map ?f (map fst host) = map (\<lambda>p. map (as_double \<circ> mb_Value) (snd p)) host"
    using slice_at_same [OF assms(1)] by auto
  also have "mset (concat (map (\<lambda>p. map (as_double \<circ> mb_Value) (snd p)) host)) = image_mset (as_double \<circ> mb_Value) (mset (concat (map snd host)))"
    by (simp add: map_concat comp_def flip: mset_map)
  finally show ?thesis using ss by (simp add: comp_def)
qed

definition resource_values :: "MonitoredResource list \<Rightarrow> TypedValue option list" where
  "resource_values rs = concat (map (\<lambda>r. service_values (mr_Services r)) rs)"

abbreviation resource_name :: "MonitoredResource \<Rightarrow> bytes" where
  "resource_name r \<equiv> bi_Name (br_BaseInfo (mr_BaseResource r))"

lemma CreateResource_services:
  "\<exists>r. CreateResource now ci h [RA_Device d, RA_Services ss] = Inr r \<and> mr_Services r = ss \<and> resource_name r = h"
  by (cases ss) (simp_all add: CreateResource_def new_BaseInfo_def)

lemma build_hosts_all:
  assumes "\<forall>(_, host) \<in> set hs. distinct (map fst host)" "builders_typed (all_builders hs)"
  shows "\<exists>rs. build_hosts env now ci devices hs = Done (Inr rs) \<and> map resource_name rs = map fst hs \<and>
    mset (resource_values rs) = image_mset (as_double \<circ> mb_Value) (mset (all_builders hs))"
  using assms
proof (induction hs)
  case (Cons x hs)
  obtain h host where x: "x = (h, host)" by (cases x)
  have "all_builders (x # hs) = concat (map snd host) @ all_builders hs" by (simp add: x all_builders_def)
  then have b: "builders_typed (concat (map snd host))" "builders_typed (all_builders hs)"
    using Cons.prems(2) unfolding builders_typed_def by (simp_all only: set_append) blast+
  obtain ss where ss: "build_host_services env now ci h host (sort (map fst host)) = Done ss"
      "mset (service_values ss) = image_mset (as_double \<circ> mb_Value) (mset (concat (map snd host)))"
    using host_values [of host env now ci h] Cons.prems b(1) by (auto simp: x)
  obtain r where r: "CreateResource now ci h [RA_Device (case map_of devices h of None \<Rightarrow> [] | Some d \<Rightarrow> d), RA_Services ss] = Inr r"
      "mr_Services r = ss" "resource_name r = h" using CreateResource_services by blast
  have d: "\<forall>(_, host) \<in> set hs. distinct (map fst host)" using Cons.prems(1) by simp
  obtain rs where rs: "build_hosts env now ci devices hs = Done (Inr rs)" "map resource_name rs = map fst hs"
      "mset (resource_values rs) = image_mset (as_double \<circ> mb_Value) (mset (all_builders hs))"
    using Cons.IH [OF d b(2)] by blast
  show ?case using ss r rs by (simp add: x resource_values_def all_builders_def comp_def)
qed (simp add: resource_values_def all_builders_def)

definition zero_tree :: "(bytes \<times> (bytes \<times> ResourceRef list) list) list \<Rightarrow> apm_tree" where
  "zero_tree stored = \<lparr>at_groups = [], at_hosts = [], at_devices = [], at_stored = stored\<rparr>"

lemma zero_tree_ok: "tree_ok (zero_tree stored)"
  by (simp add: tree_ok_def zero_tree_def builders_ok_def all_builders_def groups_ok_def)

lemma built_from_tree:
  assumes "apm_orders_ok env" "extract_families env g now (ae_families env fs) resource i (zero_tree (ap_inventoryGroups g)) = Done tree"
  shows "\<exists>rs. parsePrometheusServices env g now fs resource i = Done (g\<lparr>ap_inventoryGroups := at_stored tree\<rparr>, Inr (rs, at_groups tree)) \<and>
    distinct (map resource_name rs) \<and> groups_ok (at_groups tree) (resource_name ` set rs) \<and>
    mset (resource_values rs) = image_mset (Some \<circ> tv_double) (mset (concat (map (family_values \<circ> snd) fs)))"
proof -
  note e = extract_families_adds [OF assms zero_tree_ok]
  let ?hs = "ae_hosts env (at_hosts tree)"
  have o: "mset ?hs = mset (at_hosts tree)" "mset (ae_families env fs) = mset fs" using assms(1) by (simp_all add: apm_orders_ok_def)
  have all: "mset (all_builders ?hs) = mset (all_builders (at_hosts tree))" unfolding all_builders_def mset_concat_map o(1) ..
  have ok: "builders_ok (at_hosts tree)" "groups_ok (at_groups tree) (fst ` set (at_hosts tree))" using e by (simp_all add: tree_ok_def)
  have "\<forall>(_, host) \<in> set ?hs. distinct (map fst host)" using ok(1) mset_eq_setD [OF o(1)] by (simp add: builders_ok_def)
  moreover have "builders_typed (all_builders ?hs)" using ok(1) mset_eq_setD [OF all] by (simp add: builders_ok_def builders_typed_def)
  ultimately obtain rs where rs: "build_hosts env now (ap_CheckInterval g) (at_devices tree) ?hs = Done (Inr rs)" "map resource_name rs = map fst ?hs"
      "mset (resource_values rs) = image_mset (as_double \<circ> mb_Value) (mset (all_builders ?hs))"
    using build_hosts_all by blast
  have names: "mset (map resource_name rs) = mset (map fst (at_hosts tree))" unfolding rs(2) using o(1) by simp
  have "distinct (map resource_name rs)" using mset_eq_imp_distinct_iff [OF names] ok(1) by (simp add: builders_ok_def)
  moreover have "resource_name ` set rs = fst ` set (at_hosts tree)" using mset_eq_setD [OF names] by simp
  moreover have "mset (concat (map (family_values \<circ> snd) (ae_families env fs))) = mset (concat (map (family_values \<circ> snd) fs))"
    unfolding mset_concat_map o(2) ..
  then have "image_mset mb_Value (mset (all_builders (at_hosts tree))) = image_mset A_float64 (mset (concat (map (family_values \<circ> snd) fs)))"
    using e by (simp add: zero_tree_def all_builders_def)
  then have "image_mset as_double (image_mset mb_Value (mset (all_builders (at_hosts tree)))) =
      image_mset as_double (image_mset A_float64 (mset (concat (map (family_values \<circ> snd) fs))))" by (rule arg_cong)
  then have "mset (resource_values rs) = image_mset (Some \<circ> tv_double) (mset (concat (map (family_values \<circ> snd) fs)))"
    unfolding rs(3) all by (simp add: multiset.map_comp comp_def as_double_def)
  ultimately show ?thesis using rs(1) ok(2) assms(2)
    by (simp add: parsePrometheusServices_def zero_tree_def)
qed

subsection \<open>The loop over the families returns\<close>

definition labels_complete :: "LabelPair list \<Rightarrow> bool" where
  "labels_complete ls \<longleftrightarrow> (\<forall>l \<in> set ls. lp_Name l \<noteq> None \<and> lp_Value l \<noteq> None)"

definition family_complete :: "MetricFamily \<Rightarrow> bool" where
  "family_complete f \<longleftrightarrow> mf_Name f \<noteq> Some [] \<and> mf_Type f \<noteq> None \<and>
     (\<forall>m \<in> set (mf_Metric f). labels_complete (dm_Label m) \<and> (mf_Type f = Some HISTOGRAM \<longrightarrow> dm_Histogram m \<noteq> None))"

definition mappings_ok :: "Mappings option \<Rightarrow> bool" where
  "mappings_ok ms = (case ms of None \<Rightarrow> False | Some m \<Rightarrow> compiled_mappings (mgs_HostLabel m) \<and> compiled_mappings (mgs_ServiceLabel m))"

lemma SanitizeString_returns: "s \<noteq> [] \<Longrightarrow> \<exists>t. SanitizeString s = Done t"
  by (cases s) (simp_all add: SanitizeString_def removeUnderscoreDuplicates_def Let_def)

lemma apply_labels_returns: "labels_complete ls \<Longrightarrow> \<exists>r. apply_labels hex ls vars mb tags = Done r"
proof (induction ls arbitrary: vars mb tags)
  case (Cons l ls)
  then have IH: "\<exists>r. apply_labels hex ls vars mb tags = Done r" for vars mb tags by (simp add: labels_complete_def)
  obtain n x where "lp_Name l = Some n" "lp_Value l = Some x" using Cons.prems by (auto simp: labels_complete_def)
  then show ?case by (simp add: IH del: split_paired_Ex split: if_split)
qed simp

lemma applyLabelMapping_returns: "compiled_mappings ms \<Longrightarrow> \<exists>r. applyLabelMapping order ms labels = Done r"
  using label_mappings_first [of "rev ms"] by (auto simp: applyLabelMapping_def compiled_mappings_def)

lemma value_step_returns:
  assumes "mappings_ok (ap_mappings g)" "labels_complete labels" "name \<noteq> []"
  shows "\<exists>r. value_step env g resource (-1) t labels name v vars tree = Done r"
proof -
  obtain v1 mb tags where l: "apply_labels (ae_hex env) labels vars (new_builder t name v) [] = Done (v1, mb, tags)"
    using apply_labels_returns [OF assms(2), of "ae_hex env" vars "new_builder t name v" "[]"] by auto
  obtain ms where ms: "ap_mappings g = Some ms" "compiled_mappings (mgs_HostLabel ms)" "compiled_mappings (mgs_ServiceLabel ms)"
    using assms(1) by (auto simp: mappings_ok_def split: option.splits)
  obtain h2 s2 where "applyLabelMapping (ae_tags env) (mgs_HostLabel ms) tags = Done h2"
      "applyLabelMapping (ae_tags env) (mgs_ServiceLabel ms) tags = Done s2"
    using applyLabelMapping_returns ms(2,3) by meson
  then obtain v2 where v2: "map_names env (ap_mappings g) resource tags v1 = Done v2"
    by (auto simp: map_names_def ms(1) applyResourceMapping_def Let_def)
  have "\<exists>v3. default_names (ax_Resources (ap_extConfig g)) (-1) name v2 = Done v3 \<and> lv_host v3 \<noteq> [] \<and> lv_service v3 \<noteq> []"
    using assms(3) by (simp add: default_names_def configured_default_def defaultHostName_def)
  then obtain v3 where v3: "default_names (ax_Resources (ap_extConfig g)) (-1) name v2 = Done v3" "lv_host v3 \<noteq> []" "lv_service v3 \<noteq> []" by blast
  obtain h s where "SanitizeString (lv_host v3) = Done h" "SanitizeString (lv_service v3) = Done s"
    using SanitizeString_returns v3(2,3) by meson
  then show ?thesis by (simp add: value_step_def l v2 v3(1) Let_def)
qed

lemma value_loop_returns:
  assumes "mappings_ok (ap_mappings g)" "labels_complete labels" "\<forall>(n, _) \<in> set vs. n \<noteq> []"
  shows "\<exists>r. value_loop env g resource (-1) t labels vs vars tree = Done r"
  using assms(3)
proof (induction vs arbitrary: vars tree)
  case (Cons x vs)
  obtain n v where x: "x = (n, v)" by (cases x)
  obtain vars1 tree1 where "value_step env g resource (-1) t labels n v vars tree = Done (vars1, tree1)"
    using value_step_returns [OF assms(1,2), of n env resource t v vars tree] Cons.prems by (auto simp: x)
  then show ?case using Cons.IH [of vars1 tree1] Cons.prems by (auto simp: x)
qed simp

lemma makeValue_names: "makeValue name ty m = Done vs \<Longrightarrow> name \<noteq> [] \<Longrightarrow> \<forall>(n, _) \<in> set vs. n \<noteq> []"
  by (cases ty; cases "dm_Histogram m") (auto simp: makeValue_def histogram_values_def split: option.splits)

lemma extract_metrics_returns:
  assumes "apm_orders_ok env" "mappings_ok (ap_mappings g)" "name \<noteq> []"
    and "\<forall>m \<in> set ms. labels_complete (dm_Label m) \<and> (ty = HISTOGRAM \<longrightarrow> dm_Histogram m \<noteq> None)"
  shows "\<exists>r. extract_metrics env g now resource (-1) name (Some ty) ms tree = Done r"
  using assms(4)
proof (induction ms arbitrary: tree)
  case (Cons m ms)
  obtain vs where vs: "makeValue name ty m = Done vs" using Cons.prems by (cases ty) (auto simp: makeValue_def)
  have "mset (ae_values env vs) = mset vs" using assms(1) by (simp add: apm_orders_ok_def)
  then have names: "\<forall>(n, _) \<in> set (ae_values env vs). n \<noteq> []" using makeValue_names [OF vs assms(3)] mset_eq_setD by metis
  have "labels_complete (dm_Label m)" using Cons.prems by simp
  from value_loop_returns [OF assms(2) this names] obtain tree1
    where "value_loop env g resource (-1) (metric_time now m) (dm_Label m) (ae_values env vs) zero_vars tree = Done tree1" by blast
  then show ?case using vs Cons.IH Cons.prems by simp
qed simp

lemma extract_families_returns:
  assumes "apm_orders_ok env" "mappings_ok (ap_mappings g)" "\<forall>(_, f) \<in> set fs. family_complete f"
  shows "\<exists>tree'. extract_families env g now fs resource (-1) tree = Done tree'"
  using assms(3)
proof (induction fs arbitrary: tree)
  case (Cons x fs)
  obtain k f where x: "x = (k, f)" by (cases x)
  show ?case
  proof (cases "mf_Metric f = [] \<or> mf_Name f = None")
    case False
    then obtain name ty where f: "mf_Name f = Some name" "name \<noteq> []" "mf_Type f = Some ty" "mf_Metric f \<noteq> []"
      using Cons.prems by (auto simp: x family_complete_def)
    have "\<forall>m \<in> set (mf_Metric f). labels_complete (dm_Label m) \<and> (ty = HISTOGRAM \<longrightarrow> dm_Histogram m \<noteq> None)"
      using Cons.prems f by (simp add: x family_complete_def)
    from extract_metrics_returns [OF assms(1,2) f(2) this] obtain tree1
      where "extract_metrics env g now resource (-1) name (Some ty) (mf_Metric f) tree = Done tree1" by blast
    then show ?thesis using Cons.IH Cons.prems f by (simp add: x extractIntoMetricBuilders_def)
  qed (use Cons in \<open>simp add: x\<close>)
qed simp

text \<open>
  C13. From pushed families whose metrics have complete labels and names, resources are built, without an error and without a panic: one
  for each host, every value of every metric is the value of exactly one metric of the resources, and the groups name exactly these
  hosts.
\<close>

theorem push_values_sent:
  assumes "apm_orders_ok env" "mappings_ok (ap_mappings g)" "\<forall>(_, f) \<in> set fs. family_complete f"
  shows "\<exists>g' rs groups. parsePrometheusServices env g now fs resource (-1) = Done (g', Inr (rs, groups)) \<and>
    distinct (map resource_name rs) \<and> groups_ok groups (resource_name ` set rs) \<and>
    mset (resource_values rs) = image_mset (Some \<circ> tv_double) (mset (concat (map (family_values \<circ> snd) fs)))"
proof -
  have fs: "mset (ae_families env fs) = mset fs" using assms(1) by (simp add: apm_orders_ok_def)
  have "\<forall>(_, f) \<in> set (ae_families env fs). family_complete f" using assms(3) mset_eq_setD [OF fs] by simp
  from extract_families_returns [OF assms(1,2) this] obtain tree
    where t: "extract_families env g now (ae_families env fs) resource (-1) (zero_tree (ap_inventoryGroups g)) = Done tree" by blast
  from built_from_tree [OF assms(1) t] show ?thesis by blast
qed

section \<open>Statuses of tags\<close>

definition tag_statuses :: "MetricBuilder list \<Rightarrow> bytes list" where
  "tag_statuses ms = List.map_filter (\<lambda>m. Option.bind (mb_Tags m ''status'') parseStatus) ms"

lemma tag_loop_status: "fst (tag_loop ms st out) = fold (\<lambda>s st. worse st s) (tag_statuses ms) st"
  by (induction ms arbitrary: st out)
    (simp_all add: tag_statuses_def map_filter_simps Let_def case_prod_beta split: option.split)

lemma fold_worse:
  "\<exists>w. fold (\<lambda>s st. worse st s) ss (Some s) = Some w \<and> w \<in> set (s # ss) \<and>
    (\<forall>x \<in> set (s # ss). MonitorStatusWeightService x \<le> MonitorStatusWeightService w)"
proof (induction ss arbitrary: s)
  case (Cons t ss)
  show ?case
  proof (cases "MonitorStatusWeightService t > MonitorStatusWeightService s")
    case True
    then show ?thesis using Cons.IH [of t] by (force simp: worse_def)
  next
    case False
    then show ?thesis using Cons.IH [of s] by (force simp: worse_def)
  qed
qed simp

text \<open>
  A status in the tags takes the place of the status the thresholds give: the worst of those that are known, by weight.  Without one
  the status stays.
\<close>

theorem tag_status_wins:
  "(tag_statuses mbs = [] \<longrightarrow> mi_Status (ms_MonitoredInfo (tag_service mbs s)) = mi_Status (ms_MonitoredInfo s)) \<and>
   (tag_statuses mbs \<noteq> [] \<longrightarrow> mi_Status (ms_MonitoredInfo (tag_service mbs s)) \<in> set (tag_statuses mbs) \<and>
     (\<forall>x \<in> set (tag_statuses mbs). MonitorStatusWeightService x \<le> MonitorStatusWeightService (mi_Status (ms_MonitoredInfo (tag_service mbs s)))))"
proof -
  obtain st out tags where t: "tag_loop mbs None None = (st, out, tags)" by (cases "tag_loop mbs None None")
  have st: "st = fold (\<lambda>s st. worse st s) (tag_statuses mbs) None" using tag_loop_status [of mbs None None] by (simp add: t)
  show ?thesis
  proof (cases "tag_statuses mbs")
    case Nil
    then show ?thesis using st by (simp add: tag_service_def t)
  next
    case (Cons x xs)
    obtain w where "st = Some w" "w \<in> set (x # xs)" "\<forall>y \<in> set (x # xs). MonitorStatusWeightService y \<le> MonitorStatusWeightService w"
      using fold_worse [of xs x] st unfolding Cons by (auto simp: worse_def)
    then show ?thesis using Cons by (simp add: tag_service_def t)
  qed
qed

section \<open>Histograms\<close>

definition in_service :: "bytes \<Rightarrow> bytes \<Rightarrow> bytes \<Rightarrow> label_vars" where
  "in_service g h s = \<lparr>lv_group = g, lv_host = h, lv_service = s, lv_device = []\<rparr>"

lemma default_host_clean: "SanitizeString defaultHostName = Done defaultHostName"
  by code_simp

lemma plain_step:
  assumes "ap_mappings g = Some zero_Mappings" "mp_Metrics (ap_profile g) = []" "lv_host vars \<in> {[], defaultHostName}" "lv_device vars = []"
    and "service = (if lv_service vars = [] then name else lv_service vars)" "SanitizeString service = Done service"
  shows "\<exists>tree'. value_step env g resource (-1) t [] name v vars tree =
      Done (in_service (if lv_group vars = [] then defaultHostGroupName else lv_group vars) defaultHostName service, tree') \<and>
    at_hosts tree' = add_builder defaultHostName service (new_builder t name v) (at_hosts tree)"
proof -
  have m: "map_names env (Some zero_Mappings) resource [] vars = Done vars"
    by (simp add: map_names_def applyResourceMapping_def applyLabelMapping_def zero_Mappings_def)
  have o: "(apply_overrides (ap_profile g) name (new_builder t name v))\<lparr>mb_Tags := Map.empty\<rparr> = new_builder t name v"
    using assms(2) by (simp add: apply_overrides_def getOverrides_def new_builder_def)
  let ?g = "if lv_group vars = [] then defaultHostGroupName else lv_group vars"
  have d: "default_names rs (-1) name vars = Done (in_service ?g defaultHostName service)" for rs
    using assms(3-5) by (cases vars) (auto simp: default_names_def configured_default_def in_service_def)
  show ?thesis
    by (simp add: value_step_def assms(1) m d Let_def in_service_def default_host_clean assms(6) o)
qed

lemma plain_loop:
  assumes "ap_mappings g = Some zero_Mappings" "mp_Metrics (ap_profile g) = []" "SanitizeString service = Done service" "service \<noteq> []" "grp \<noteq> []"
    and "at_hosts tree = [(defaultHostName, [(service, mbs)])]"
  shows "\<exists>tree'. value_loop env g resource (-1) t [] vs (in_service grp defaultHostName service) tree = Done tree' \<and>
    at_hosts tree' = [(defaultHostName, [(service, mbs @ map (\<lambda>(n, v). new_builder t n v) vs)])]"
  using assms(6)
proof (induction vs arbitrary: tree mbs)
  case (Cons x vs)
  obtain n v where x: "x = (n, v)" by (cases x)
  let ?vars = "in_service grp defaultHostName service"
  from plain_step [OF assms(1,2), of ?vars service n env resource t v tree] assms(3-5) obtain tree1
    where s: "value_step env g resource (-1) t [] n v ?vars tree = Done (?vars, tree1)"
      "at_hosts tree1 = add_builder defaultHostName service (new_builder t n v) (at_hosts tree)"
    by (auto simp: in_service_def)
  have "at_hosts tree1 = [(defaultHostName, [(service, mbs @ [new_builder t n v])])]"
    by (simp add: s(2) Cons.prems add_builder_def slice_at_def append_to_def)
  from Cons.IH [OF this] show ?case by (simp add: x s(1))
qed simp

text \<open>
  The names of a metric are reset for each metric, not for each of its values: without a label that names the service, all values of a
  histogram are put into the service of the value that the iteration over the map gives first.
\<close>

theorem histogram_one_service:
  assumes "ap_mappings g = Some zero_Mappings" "mp_Metrics (ap_profile g) = []" "ae_values env values = (name, v) # vs" "SanitizeString name = Done name" "name \<noteq> []"
  shows "\<exists>tree. value_loop env g resource (-1) t [] (ae_values env values) zero_vars (zero_tree stored) = Done tree \<and>
    at_hosts tree = [(defaultHostName, [(name, map (\<lambda>(n, v). new_builder t n v) (ae_values env values))])]"
proof -
  have "defaultHostGroupName \<noteq> []" by (simp add: defaultHostGroupName_def)
  note l = plain_loop [OF assms(1,2,4,5) this]
  obtain tree1 where s: "value_step env g resource (-1) t [] name v zero_vars (zero_tree stored) = Done (in_service defaultHostGroupName defaultHostName name, tree1)"
      "at_hosts tree1 = add_builder defaultHostName name (new_builder t name v) []"
    using plain_step [OF assms(1,2), of zero_vars name name env resource t v "zero_tree stored"] assms(4) by (auto simp: zero_vars_def zero_tree_def)
  have "at_hosts tree1 = [(defaultHostName, [(name, [new_builder t name v])])]" by (simp add: s(2) add_builder_def slice_at_def append_to_def)
  from l [OF this] show ?thesis by (simp add: assms(3) s(1))
qed

section \<open>Configurations\<close>

text \<open>
  A configuration that is accepted but for its mappings replaces the configuration and leaves nil mappings: the loop is not restarted, and
  from then on every value that is pushed or pulled makes the handler panic.
\<close>

theorem mappings_lost:
  assumes "um data (zero_MetricsProfile, new_MonitorConnection apm_defaults) = ((prof, conn), None)" "um_mappings data = None"
  shows "\<exists>g'. apm_configHandler um_timer um compile um_mappings cfg data g = Done g' \<and> ap_profile g' = prof \<and> ap_periodic g' = ap_periodic g \<and>
    (\<forall>labels. labels_complete labels \<longrightarrow> value_step env g' resource i t labels name v vars tree = Panic NilDereference)"
proof -
  obtain interval where u: "UnmarshalConfig um_timer um data (ap_CheckInterval g) (zero_MetricsProfile, new_MonitorConnection apm_defaults) =
      (interval, (prof, conn), None)"
    by (simp add: UnmarshalConfig_def assms(1))
  obtain g' where g': "apm_configHandler um_timer um compile um_mappings cfg data g = Done g'" "ap_profile g' = prof" "ap_periodic g' = ap_periodic g" "ap_mappings g' = None"
    unfolding apm_configHandler_def u by (simp add: Let_def unmarshalMappings_def assms(2))
  have "value_step env g' resource i t labels name v vars tree = Panic NilDereference" if "labels_complete labels" for labels
    using apply_labels_returns [OF that, of "ae_hex env" vars "new_builder t name v" "[]"]
    by (auto simp: value_step_def map_names_def applyResourceMapping_def g'(4))
  then show ?thesis using g' by blast
qed

text \<open>With filters, the families whose names are in the profile are kept, and all names are available.\<close>

lemma text_families_filter:
  assumes "\<forall>(_, f) \<in> set fs. mf_Name f \<noteq> None"
  shows "text_families profile True fs =
    Done (map (\<lambda>(_, f). the (mf_Name f)) fs, filter (\<lambda>(_, f). profileContainsMetric profile (the (mf_Name f))) fs)"
  using assms by (induction fs) auto

section \<open>Witnesses\<close>

definition demo_apm_env :: "unit apm_env" where
  "demo_apm_env = \<lparr>ae_hex = \<lambda>_. None, ae_url_Host = Some, ae_snappy = Some, ae_um_write = \<lambda>_. None, ae_text = \<lambda>_. ([], True), ae_sys = undefined,
     ae_http = \<lambda>w _. (w, Inl (Other [])), ae_values = rev, ae_tags = id, ae_families = id, ae_hosts = rev, ae_groups = id, ae_available = id\<rparr>"

definition demo_apm :: apm_globals where
  "demo_apm = \<lparr>ap_extConfig = apm_defaults, ap_profile = zero_MetricsProfile, ap_mappings = Some zero_Mappings, ap_availableMetrics = [],
     ap_inventoryGroups = [], ap_CheckInterval = DefaultCheckInterval, ap_periodic = periodic_init\<rparr>"

definition demo_gauge :: "bytes \<Rightarrow> bytes \<Rightarrow> f64 \<Rightarrow> dto_Metric" where
  "demo_gauge host status v = \<lparr>dm_Label = [\<lparr>lp_Name = Some ''resource'', lp_Value = Some host\<rparr>, \<lparr>lp_Name = Some ''status'', lp_Value = Some status\<rparr>],
     dm_Gauge = Some (Some v), dm_Counter = None, dm_Untyped = None, dm_Histogram = None, dm_TimestampMs = None\<rparr>"

lemma demo_orders: "apm_orders_ok demo_apm_env"
  by (simp add: apm_orders_ok_def demo_apm_env_def)

theorem push_values_sent_witness:
  "\<exists>g' rs groups. parsePrometheusServices demo_apm_env demo_apm 0
      [(''cpu'', \<lparr>mf_Name = Some ''cpu'', mf_Type = Some GAUGE, mf_Metric = [demo_gauge ''a'' ''ok'' (FFin 1), demo_gauge ''b'' ''critical'' (FFin 2)]\<rparr>)] [] (-1) =
      Done (g', Inr (rs, groups)) \<and> mset (resource_values rs) = {#Some (tv_double (FFin 1)), Some (tv_double (FFin 2))#}"
proof -
  let ?fs = "[(''cpu'', \<lparr>mf_Name = Some ''cpu'', mf_Type = Some GAUGE, mf_Metric = [demo_gauge ''a'' ''ok'' (FFin 1), demo_gauge ''b'' ''critical'' (FFin 2)]\<rparr>)] :: families"
  have m: "mappings_ok (ap_mappings demo_apm)" by (simp add: demo_apm_def mappings_ok_def zero_Mappings_def compiled_mappings_def)
  have f: "\<forall>(_, f) \<in> set ?fs. family_complete f" by (simp add: family_complete_def labels_complete_def demo_gauge_def)
  have v: "concat (map (family_values \<circ> snd) ?fs) = [FFin 1, FFin 2]"
    by (simp add: family_values_def metric_values_def makeValue_def get_value_def demo_gauge_def)
  from push_values_sent [OF demo_orders m f, of 0 "[]", unfolded v] show ?thesis by auto
qed

theorem tag_status_wins_witness:
  "mi_Status (ms_MonitoredInfo (tag_service [(new_builder 0 ''m'' (FFin 1))\<lparr>mb_Tags := [''status'' \<mapsto> ''critical'']\<rparr>] demo_text_service)) = ServiceUnscheduledCritical"
proof -
  let ?m = "(new_builder 0 ''m'' (FFin 1))\<lparr>mb_Tags := [''status'' \<mapsto> ''critical'']\<rparr>"
  have "parseStatus ''critical'' = Some ServiceUnscheduledCritical" by code_simp
  then have "tag_statuses [?m] = [ServiceUnscheduledCritical]" by (simp add: tag_statuses_def map_filter_simps)
  then show ?thesis using tag_status_wins [of "[?m]" demo_text_service] by simp
qed

theorem histogram_one_service_witness:
  "\<exists>tree. value_loop demo_apm_env demo_apm [] (-1) 0 [] (ae_values demo_apm_env [(''h_bucket_0'', FFin 1), (''h_bucket_1'', FFin 2)]) zero_vars (zero_tree []) = Done tree \<and>
     at_hosts tree = [(''APM-Host'', [(''h_bucket_1'', [new_builder 0 ''h_bucket_1'' (FFin 2), new_builder 0 ''h_bucket_0'' (FFin 1)])])]"
proof -
  have s: "SanitizeString ''h_bucket_1'' = Done ''h_bucket_1''" by code_simp
  have "ae_values demo_apm_env [(''h_bucket_0'', FFin 1), (''h_bucket_1'', FFin 2)] = (''h_bucket_1'', FFin 2) # [(''h_bucket_0'', FFin 1)]"
    by (simp add: demo_apm_env_def)
  from histogram_one_service [OF _ _ this s, of demo_apm "[]" 0 "[]"] show ?thesis
    by (simp add: demo_apm_def zero_MetricsProfile_def defaultHostName_def demo_apm_env_def)
qed

theorem mappings_lost_witness:
  "\<exists>g'. apm_configHandler (\<lambda>_. None) (\<lambda>_ c. (c, None)) (\<lambda>_. None) (\<lambda>_. None) defaults [] demo_apm = Done g' \<and>
     value_step demo_apm_env g' [] (-1) 0 [] ''m'' (FFin 1) zero_vars (zero_tree []) = Panic NilDereference"
proof -
  have "labels_complete []" by (simp add: labels_complete_def)
  then show ?thesis
    using mappings_lost [of "\<lambda>_ c. (c, None)" "[]" zero_MetricsProfile "new_MonitorConnection apm_defaults" "\<lambda>_. None" "\<lambda>_. None" "\<lambda>_. None" defaults demo_apm demo_apm_env "[]" "-1" 0 "''m''" "FFin 1" zero_vars "zero_tree []"]
    by blast
qed

end
