(* ===== verification/Server_Connector.thy ===== *)
theory Server_Connector
  imports Connector_Periodic Metric_Types Transit_Profile Go_Float_Arith "HOL-Library.AList"
begin

text \<open>
  The server connector, \<^verbatim>\<open>connectors/server/server.go\<close> and \<^verbatim>\<open>connectors/server/cmd.go\<close>: disk, memory, CPU and processes of the
  machine.  What the package gopsutil reads is one record; a reading that may fail is an option.  The checksum of a
  configuration, the decoder, and the iteration order of maps are arguments.
\<close>

section \<open>Readings\<close>

text \<open>
  The name of the host and the number of its processes; total, used and free bytes of the disk and of the memory; the percentages of
  the CPUs; names and usage of the processes, empty and 0 where they could not be read.
\<close>

record server_stats =
  ss_host :: "(bytes \<times> 64 word) option"
  ss_disk :: "(64 word \<times> 64 word \<times> 64 word) option"
  ss_memory :: "(64 word \<times> 64 word \<times> 64 word) option"
  ss_cpu :: "f64 list"
  ss_processes :: "(bytes \<times> f64) list"
  ss_HostNameEnv :: bytes
  ss_unfit :: "f64 \<Rightarrow> int" \<comment> \<open>the conversion to an integer of a number that does not fit\<close>

definition MB_bytes :: "64 word" where "MB_bytes = 1048576"

definition TotalDiskAllocatedServiceName :: bytes where "TotalDiskAllocatedServiceName = ''total.disk.allocated''"
definition TotalMemoryUsageAllocatedName :: bytes where "TotalMemoryUsageAllocatedName = ''total.memory.allocated''"
definition TotalCPUUsageServiceName :: bytes where "TotalCPUUsageServiceName = ''total.cpu.usage''"
definition DiskUsedServiceName :: bytes where "DiskUsedServiceName = ''disk.used''"
definition MemoryUsedServiceName :: bytes where "MemoryUsedServiceName = ''memory.used''"
definition DiskFreeServiceName :: bytes where "DiskFreeServiceName = ''disk.free''"
definition MemoryFreeServiceName :: bytes where "MemoryFreeServiceName = ''memory.free''"
definition ProcessesNumberServiceName :: bytes where "ProcessesNumberServiceName = ''processes.number''"

lemmas service_names = TotalDiskAllocatedServiceName_def TotalMemoryUsageAllocatedName_def TotalCPUUsageServiceName_def
  DiskUsedServiceName_def MemoryUsedServiceName_def DiskFreeServiceName_def MemoryFreeServiceName_def ProcessesNumberServiceName_def

definition PercentCPU :: bytes where "PercentCPU = ''%{cpu}''"
definition UnitMB :: bytes where "UnitMB = ''MB''"
definition Query :: bytes where "Query = ''Query''"

section \<open>Services of the machine\<close>

definition server_builder :: "timestamp \<Rightarrow> bytes \<Rightarrow> bytes \<Rightarrow> 64 word \<Rightarrow> bytes \<Rightarrow> int \<Rightarrow> int \<Rightarrow> bool \<Rightarrow> MetricBuilder" where
  "server_builder now name customName v unit_name w c graphed =
     \<lparr>mb_Name = name, mb_CustomName = customName, mb_ComputeType = Query, mb_Expression = [], mb_Value = A_int64 v,
      mb_UnitType = Some (MA_UnitType unit_name), mb_Warning = Some (A_int64 (word_of_int w)), mb_Critical = Some (A_int64 (word_of_int c)),
      mb_StartTimestamp = Some now, mb_EndTimestamp = Some now, mb_Graphed = graphed, mb_Tags = Map.empty\<rparr>"

text \<open>An error of building is logged, and there is no service.\<close>

definition service_of_builder :: "timestamp \<Rightarrow> duration \<Rightarrow> bytes \<Rightarrow> MetricBuilder \<Rightarrow> MonitoredService option exec" where
  "service_of_builder now ci hostName mb =
     bind_exec (BuildServiceForMetric now ci hostName mb) (\<lambda>r. Done (case r of Inl _ \<Rightarrow> None | Inr s \<Rightarrow> Some s))"

type_synonym service_fun = "server_stats \<Rightarrow> timestamp \<Rightarrow> duration \<Rightarrow> bytes \<Rightarrow> int \<Rightarrow> int \<Rightarrow> bytes \<Rightarrow> bool \<Rightarrow> MonitoredService option exec"

definition getTotalDiskUsageService :: service_fun where
  "getTotalDiskUsageService st now ci hostName w c customName graphed =
     (case ss_disk st of
        None \<Rightarrow> Done None
      | Some (all, used, free) \<Rightarrow>
          service_of_builder now ci hostName (server_builder now TotalDiskAllocatedServiceName customName (all div MB_bytes) UnitMB w c graphed))"

definition getDiskUsedService :: service_fun where
  "getDiskUsedService st now ci hostName w c customName graphed =
     (case ss_disk st of
        None \<Rightarrow> Done None
      | Some (all, used, free) \<Rightarrow>
          service_of_builder now ci hostName (server_builder now DiskUsedServiceName customName (used div MB_bytes) UnitMB w c graphed))"

definition getDiskFreeService :: service_fun where
  "getDiskFreeService st now ci hostName w c customName graphed =
     (case ss_disk st of
        None \<Rightarrow> Done None
      | Some (all, used, free) \<Rightarrow>
          service_of_builder now ci hostName (server_builder now DiskFreeServiceName customName (free div MB_bytes) UnitMB w c graphed))"

definition getTotalMemoryUsageService :: service_fun where
  "getTotalMemoryUsageService st now ci hostName w c customName graphed =
     (case ss_memory st of
        None \<Rightarrow> Done None
      | Some (all, used, free) \<Rightarrow>
          service_of_builder now ci hostName (server_builder now TotalMemoryUsageAllocatedName customName (all div MB_bytes) UnitMB w c graphed))"

definition getMemoryUsedService :: service_fun where
  "getMemoryUsedService st now ci hostName w c customName graphed =
     (case ss_memory st of
        None \<Rightarrow> Done None
      | Some (all, used, free) \<Rightarrow>
          service_of_builder now ci hostName (server_builder now MemoryUsedServiceName customName (used div MB_bytes) UnitMB w c graphed))"

definition getMemoryFreeService :: service_fun where
  "getMemoryFreeService st now ci hostName w c customName graphed =
     (case ss_memory st of
        None \<Rightarrow> Done None
      | Some (all, used, free) \<Rightarrow>
          service_of_builder now ci hostName (server_builder now MemoryFreeServiceName customName (free div MB_bytes) UnitMB w c graphed))"

definition getNumberOfProcessesService :: service_fun where
  "getNumberOfProcessesService st now ci hostName w c customName graphed =
     (case ss_host st of
        None \<Rightarrow> Done None
      | Some (_, procs) \<Rightarrow>
          service_of_builder now ci hostName (server_builder now ProcessesNumberServiceName customName procs UnitCounter w c graphed))"

text \<open>The error of the reading is dropped; without a percentage the index is out of range.\<close>

definition getCPUUsage :: "server_stats \<Rightarrow> 64 word exec" where
  "getCPUUsage st = (case ss_cpu st of [] \<Rightarrow> Panic IndexOutOfRange | p # _ \<Rightarrow> Done (word_of_int (f64_to_int (ss_unfit st) p)))"

definition getTotalCPUUsage :: service_fun where
  "getTotalCPUUsage st now ci hostName w c customName graphed =
     bind_exec (getCPUUsage st) (\<lambda>v.
       service_of_builder now ci hostName (server_builder now TotalCPUUsageServiceName customName v PercentCPU w c graphed))"

definition processToFuncMap :: "(bytes \<times> service_fun) list" where
  "processToFuncMap =
     [(TotalDiskAllocatedServiceName, getTotalDiskUsageService), (TotalMemoryUsageAllocatedName, getTotalMemoryUsageService),
      (TotalCPUUsageServiceName, getTotalCPUUsage), (DiskUsedServiceName, getDiskUsedService), (MemoryUsedServiceName, getMemoryUsedService),
      (DiskFreeServiceName, getDiskFreeService), (MemoryFreeServiceName, getMemoryFreeService),
      (ProcessesNumberServiceName, getNumberOfProcessesService)]"

section \<open>Processes\<close>

record process_values =
  pv_value :: f64
  pv_computeType :: bytes
  pv_expression :: bytes
  pv_criticalValue :: int
  pv_warningValue :: int
  pv_graphed :: bool

definition add_usage :: "bytes \<times> f64 \<Rightarrow> (bytes \<times> f64) list \<Rightarrow> (bytes \<times> f64) list" where
  "add_usage p m = AList.update (fst p) (case map_of m (fst p) of None \<Rightarrow> snd p | Some x \<Rightarrow> f64_add x (snd p)) m"

definition process_entry :: "(bytes \<times> f64) list \<Rightarrow> MetricDefinition \<Rightarrow> process_values" where
  "process_entry m pr =
     (case map_of m (md_Name pr) of
        Some x \<Rightarrow>
          if md_ComputeType pr \<noteq> Synthetic
          then \<lparr>pv_value = x, pv_computeType = md_ComputeType pr, pv_expression = [], pv_criticalValue = md_CriticalThreshold pr,
                pv_warningValue = md_WarningThreshold pr, pv_graphed = md_Graphed pr\<rparr>
          else \<lparr>pv_value = FFin (-1), pv_computeType = Synthetic, pv_expression = md_Expression pr, pv_criticalValue = md_CriticalThreshold pr,
                pv_warningValue = md_WarningThreshold pr, pv_graphed = md_Graphed pr\<rparr>
      | None \<Rightarrow>
          \<lparr>pv_value = FFin (-1), pv_computeType = Synthetic, pv_expression = md_Expression pr, pv_criticalValue = md_CriticalThreshold pr,
           pv_warningValue = md_WarningThreshold pr, pv_graphed = md_Graphed pr\<rparr>)"

definition process_name :: "MetricDefinition \<Rightarrow> bytes" where
  "process_name pr = (if md_CustomName pr \<noteq> [] then md_CustomName pr else md_Name pr)"

definition collectMonitoredProcesses :: "server_stats \<Rightarrow> MetricDefinition list \<Rightarrow> (bytes \<times> process_values) list" where
  "collectMonitoredProcesses st monitoredProcesses =
     (if monitoredProcesses = [] then []
      else
        (let m = fold add_usage (ss_processes st) []
         in fold (\<lambda>pr pm. if \<not> md_Monitored pr then pm else AList.update (process_name pr) (process_entry m pr) pm) monitoredProcesses []))"

definition process_builder :: "timestamp \<Rightarrow> bytes \<Rightarrow> process_values \<Rightarrow> MetricBuilder" where
  "process_builder now processName v =
     \<lparr>mb_Name = processName, mb_CustomName = [], mb_ComputeType = pv_computeType v, mb_Expression = pv_expression v, mb_Value = A_float64 (pv_value v),
      mb_UnitType = Some (MA_UnitType PercentCPU), mb_Warning = Some (A_float64 (f64_of_int (pv_warningValue v))),
      mb_Critical = Some (A_float64 (f64_of_int (pv_criticalValue v))), mb_StartTimestamp = Some now, mb_EndTimestamp = Some now,
      mb_Graphed = pv_graphed v, mb_Tags = Map.empty\<rparr>"

fun process_services :: "timestamp \<Rightarrow> duration \<Rightarrow> bytes \<Rightarrow> (bytes \<times> process_values) list \<Rightarrow> MonitoredService list exec" where
  "process_services now ci hostName [] = Done []"
| "process_services now ci hostName ((n, v) # ps) =
     bind_exec (BuildServiceForMetric now ci hostName (process_builder now n v)) (\<lambda>r.
     bind_exec (process_services now ci hostName ps) (\<lambda>ss.
       Done (case r of
               Inl _ \<Rightarrow> ss
             | Inr s \<Rightarrow>
                 (if f64_eq (pv_value v) minus_one then s\<lparr>ms_MonitoredInfo := (ms_MonitoredInfo s)\<lparr>mi_Status := ServicePending\<rparr>\<rparr> else s) # ss)))"

text \<open>
  What expressions see of the processes: each process overwrites an earlier one of its name, and then come the services of the
  machine.  The metrics of a service are not empty.
\<close>

definition service_value :: "MonitoredService \<Rightarrow> f64 option exec" where
  "service_value s =
     (case ms_Metrics s of
        [] \<Rightarrow> Panic IndexOutOfRange
      | m # _ \<Rightarrow>
          bind_exec (deref (ts_Value m)) (\<lambda>v.
            if tv_ValueType v = DoubleType then bind_exec (deref (tv_DoubleValue v)) (\<lambda>d. Done (Some d))
            else if tv_ValueType v = IntegerType then bind_exec (deref (tv_IntegerValue v)) (\<lambda>i. Done (Some (f64_of_int i)))
            else Done None))"

definition cache_name :: "bytes \<Rightarrow> bytes" where "cache_name name = ReplaceAll name ''.'' ''_''"

fun cache_services :: "server_stats \<Rightarrow> timestamp \<Rightarrow> duration \<Rightarrow> bytes \<Rightarrow> (bytes \<times> service_fun) list \<Rightarrow> (bytes \<times> f64) list \<Rightarrow> (bytes \<times> f64) list exec" where
  "cache_services st now ci hostName [] ps = Done ps"
| "cache_services st now ci hostName ((name, f) # fs) ps =
     bind_exec (f st now ci hostName (-1) (-1) [] True) (\<lambda>r.
       case r of
         None \<Rightarrow> cache_services st now ci hostName fs ps
       | Some s \<Rightarrow> bind_exec (service_value s) (\<lambda>v.
           cache_services st now ci hostName fs (case v of None \<Rightarrow> ps | Some x \<Rightarrow> AList.update (cache_name name) x ps)))"

definition collectProcesses :: "server_stats \<Rightarrow> timestamp \<Rightarrow> duration \<Rightarrow> bytes \<Rightarrow> ((bytes \<times> service_fun) list \<Rightarrow> (bytes \<times> service_fun) list) \<Rightarrow>
    (bytes \<times> f64) list exec" where
  "collectProcesses st now ci hostName order =
     cache_services st now ci hostName (order processToFuncMap) (fold (\<lambda>(n, c). AList.update (cache_name n) c) (ss_processes st) [])"

text \<open>The cache is \<open>None\<close> when nothing was stored or it is too old.\<close>

definition listSuggestions :: "((bytes \<times> f64) list \<Rightarrow> (bytes \<times> f64) list) \<Rightarrow> (bytes \<times> f64) list option \<Rightarrow> bytes \<Rightarrow> bytes list exec" where
  "listSuggestions order cache name =
     (case cache of
        None \<Rightarrow> Panic TypeAssertion
      | Some ps \<Rightarrow> Done (filter (\<lambda>n. name = [] \<or> Contains n name) (map fst (order ps))))"

section \<open>Inventory and metrics\<close>

definition server_templateMetricName :: bytes where "server_templateMetricName = ''$view_Template#''"

definition used_metric :: "MetricDefinition \<Rightarrow> bool" where
  "used_metric pr \<longleftrightarrow> md_Monitored pr \<and> md_Name pr \<noteq> server_templateMetricName"

definition server_hostName :: "server_stats \<Rightarrow> bytes option" where
  "server_hostName st = map_option (\<lambda>(h, _). if ss_HostNameEnv st = [] then h else ss_HostNameEnv st) (ss_host st)"

definition Synchronize :: "server_stats \<Rightarrow> MetricDefinition list \<Rightarrow> InventoryResource option" where
  "Synchronize st processes =
     map_option (\<lambda>hostName. CreateInventoryResource hostName
         (map (\<lambda>pr. CreateInventoryService (Name (md_Name pr) (md_CustomName pr)) hostName) (filter used_metric processes)))
       (server_hostName st)"

text \<open>The services of the machine in the order of the profile, and the definitions of processes.\<close>

fun default_services :: "server_stats \<Rightarrow> timestamp \<Rightarrow> duration \<Rightarrow> bytes \<Rightarrow> MetricDefinition list \<Rightarrow> (MonitoredService list \<times> MetricDefinition list) exec" where
  "default_services st now ci hostName [] = Done ([], [])"
| "default_services st now ci hostName (pr # prs) =
     (if \<not> used_metric pr then default_services st now ci hostName prs
      else case map_of processToFuncMap (md_Name pr) of
        Some f \<Rightarrow>
          bind_exec (f st now ci hostName (md_WarningThreshold pr) (md_CriticalThreshold pr) (md_CustomName pr) (md_Graphed pr)) (\<lambda>r.
          bind_exec (default_services st now ci hostName prs) (\<lambda>(ss, rest).
            Done (case r of None \<Rightarrow> ss | Some s \<Rightarrow> s # ss, rest)))
      | None \<Rightarrow> bind_exec (default_services st now ci hostName prs) (\<lambda>(ss, rest). Done (ss, pr # rest)))"

record server_orders =
  so_processes :: "(bytes \<times> process_values) list \<Rightarrow> (bytes \<times> process_values) list"
  so_functions :: "(bytes \<times> service_fun) list \<Rightarrow> (bytes \<times> service_fun) list"

text \<open>The resource, and the cache of processes after the collection, which is left alone when there is no host.\<close>

definition server_CollectMetrics :: "server_orders \<Rightarrow> server_stats \<Rightarrow> timestamp \<Rightarrow> duration \<Rightarrow> MetricDefinition list \<Rightarrow> (bytes \<times> f64) list option \<Rightarrow>
    (MonitoredResource option \<times> (bytes \<times> f64) list option) exec" where
  "server_CollectMetrics ord st now ci processes cache =
     (case server_hostName st of
        None \<Rightarrow> Done (None, cache)
      | Some hostName \<Rightarrow>
          (case CreateResource now ci hostName [] of
             Inl _ \<Rightarrow> Panic NilDereference
           | Inr r \<Rightarrow>
               bind_exec (default_services st now ci hostName processes) (\<lambda>(ss, notDefaultProcesses).
               bind_exec (process_services now ci hostName (so_processes ord (collectMonitoredProcesses st notDefaultProcesses))) (\<lambda>ps.
               bind_exec (collectProcesses st now ci hostName (so_functions ord)) (\<lambda>c.
                 Done (Some (r\<lparr>mr_Services := mr_Services r @ ss @ ps\<rparr>), Some c))))))"

section \<open>Configuration and handlers\<close>

record server_ExtConfig =
  vx_Groups :: "ResourceGroup list"
  vx_Processes :: "bytes list"
  vx_CheckInterval :: duration
  vx_Ownership :: bytes

definition server_UnmarshalJSON :: "(bytes \<Rightarrow> server_ExtConfig \<Rightarrow> server_ExtConfig option) \<Rightarrow> bytes \<Rightarrow> server_ExtConfig \<Rightarrow> server_ExtConfig option" where
  "server_UnmarshalJSON um input cfg =
     (case um input cfg of
        None \<Rightarrow> None
      | Some c \<Rightarrow> Some (if vx_CheckInterval c \<noteq> vx_CheckInterval cfg
                        then c\<lparr>vx_CheckInterval := wrap64 (vx_CheckInterval c * Minute)\<rparr> else c))"

definition server_defaults :: server_ExtConfig where
  "server_defaults = \<lparr>vx_Groups = [\<lparr>rg_GroupName = ''Servers'', rg_Type = ''HostGroup'', rg_Description = [], rg_Resources = []\<rparr>],
     vx_Processes = [], vx_CheckInterval = DefaultCheckInterval, vx_Ownership = ''Yield''\<rparr>"

record server_globals =
  vg_extConfig :: server_ExtConfig
  vg_profile :: MetricsProfile
  vg_chksum :: bytes
  vg_cache :: "(bytes \<times> f64) list option"
  vg_CheckInterval :: duration
  vg_periodic :: periodic

type_synonym server_decoder =
  "bytes \<Rightarrow> MetricsProfile \<times> server_ExtConfig MonitorConnection \<Rightarrow> (MetricsProfile \<times> server_ExtConfig MonitorConnection) \<times> error option"

text \<open>
  The inventory is sent when the checksum is another one; its error is dropped.  A nil inventory is dereferenced.  The groups of the
  configuration are filled in place.
\<close>

definition server_configHandler :: "(bytes \<Rightarrow> int option) \<Rightarrow> server_decoder \<Rightarrow> (Config \<Rightarrow> MetricsProfile \<Rightarrow> server_ExtConfig \<Rightarrow> bytes option) \<Rightarrow>
    svc_env \<Rightarrow> (InventoryRequest \<Rightarrow> bytes option) \<Rightarrow> server_stats \<Rightarrow> Config \<Rightarrow> bytes \<Rightarrow> server_globals \<Rightarrow> Agent \<Rightarrow> (server_globals \<times> Agent) exec" where
  "server_configHandler um_timer um hashsum svc iq_ma st cfg data g a =
     (case UnmarshalConfig um_timer um data (vg_CheckInterval g) (zero_MetricsProfile, new_MonitorConnection server_defaults) of
        (interval, (_, _), Some _) \<Rightarrow> Done (g\<lparr>vg_CheckInterval := interval\<rparr>, a)
      | (interval, (tMetProf, tMonConn), None) \<Rightarrow>
          (let e0 = mc_Extensions tMonConn;
               tExt = (case cfg_GWConnections cfg of [] \<Rightarrow> e0 | c # _ \<Rightarrow> e0\<lparr>vx_Ownership := gw_DeferOwnership c\<rparr>);
               g1 = g\<lparr>vg_CheckInterval := interval, vg_extConfig := tExt, vg_profile := tMetProf\<rparr>;
               chk = hashsum cfg tMetProf tExt
           in bind_exec
                (if chk = None \<or> Some (vg_chksum g) \<noteq> chk
                 then bind_exec (deref (Synchronize st (mp_Metrics tMetProf))) (\<lambda>r.
                        let groups = map (\<lambda>grp. FillGroupWithResources grp [r]) (vx_Groups tExt)
                        in bind_exec (SendInventory svc iq_ma None [r] groups (vx_Ownership tExt) a) (\<lambda>(a', _).
                             Done (g1\<lparr>vg_extConfig := tExt\<lparr>vx_Groups := groups\<rparr>\<rparr>, a')))
                 else Done (g1, a)) (\<lambda>(g2, a2).
              let g3 = (case chk of None \<Rightarrow> g2 | Some c \<Rightarrow> g2\<lparr>vg_chksum := c\<rparr>)
              in bind_exec (restart_periodic (vg_CheckInterval g3) (vg_periodic g3)) (\<lambda>p. Done (g3\<lparr>vg_periodic := p\<rparr>, a2)))))"

definition server_periodicHandler :: "server_orders \<Rightarrow> svc_env \<Rightarrow> expr_env \<Rightarrow> nat \<Rightarrow> server_stats \<Rightarrow> timestamp \<Rightarrow> server_globals \<Rightarrow> Agent \<Rightarrow>
    (server_globals \<times> Agent) exec" where
  "server_periodicHandler ord svc xenv fuel st now g a =
     (if mp_Metrics (vg_profile g) = [] then Done (g, a)
      else bind_exec (server_CollectMetrics ord st now (vg_CheckInterval g) (mp_Metrics (vg_profile g)) (vg_cache g)) (\<lambda>(r, cache).
           bind_exec (deref r) (\<lambda>resource.
           bind_exec (SendMetrics svc xenv fuel (vg_CheckInterval g) None [resource] None a) (\<lambda>(a', _).
             Done (g\<lparr>vg_cache := cache\<rparr>, a')))))"

section \<open>Processes by name\<close>

definition usage_of :: "bytes \<Rightarrow> (bytes \<times> f64) list \<Rightarrow> f64 option" where
  "usage_of n ps = (case map snd (filter (\<lambda>p. fst p = n) ps) of [] \<Rightarrow> None | c # cs \<Rightarrow> Some (foldl f64_add c cs))"

lemma usage_total:
  "map_of (fold add_usage ps m) n =
     (case map_of m n of None \<Rightarrow> usage_of n ps | Some x \<Rightarrow> Some (foldl f64_add x (map snd (filter (\<lambda>p. fst p = n) ps))))"
  by (induction ps arbitrary: m) (auto simp: usage_of_def add_usage_def update_conv' split: option.split)

lemma entries_last:
  "map_of (fold (\<lambda>pr pm. if \<not> md_Monitored pr then pm else AList.update (process_name pr) (process_entry m pr) pm) prs pm) n =
     (case List.find (\<lambda>pr. md_Monitored pr \<and> process_name pr = n) (rev prs) of None \<Rightarrow> map_of pm n | Some pr \<Rightarrow> Some (process_entry m pr))"
proof (induction prs rule: rev_induct)
  case (snoc pr prs)
  then show ?case by (simp add: update_conv')
qed simp

text \<open>
  The usage of a monitored process is the sum over all processes of its name, in the order in which they are read, under its custom name
  if it has one; a process that does not run, and one that is synthetic, has the value -1 and is computed from its expression.
\<close>

theorem process_usage:
  "map_of (collectMonitoredProcesses st prs) n =
     (case List.find (\<lambda>pr. md_Monitored pr \<and> process_name pr = n) (rev prs) of
        None \<Rightarrow> None
      | Some pr \<Rightarrow> Some
         (let usage = (if md_ComputeType pr = Synthetic then None else usage_of (md_Name pr) (ss_processes st))
          in \<lparr>pv_value = (case usage of Some x \<Rightarrow> x | None \<Rightarrow> FFin (-1)),
              pv_computeType = (if usage = None then Synthetic else md_ComputeType pr),
              pv_expression = (if usage = None then md_Expression pr else []),
              pv_criticalValue = md_CriticalThreshold pr, pv_warningValue = md_WarningThreshold pr, pv_graphed = md_Graphed pr\<rparr>))"
proof -
  have u: "map_of (fold add_usage (ss_processes st) []) k = usage_of k (ss_processes st)" for k by (simp add: usage_total)
  show ?thesis
  proof (cases "List.find (\<lambda>pr. md_Monitored pr \<and> process_name pr = n) (rev prs)")
    case None
    then show ?thesis by (simp add: collectMonitoredProcesses_def entries_last Let_def)
  next
    case (Some pr)
    then have "prs \<noteq> []" by auto
    then have "map_of (collectMonitoredProcesses st prs) n = Some (process_entry (fold add_usage (ss_processes st) []) pr)"
      by (simp add: collectMonitoredProcesses_def entries_last Let_def Some)
    then show ?thesis by (cases "usage_of (md_Name pr) (ss_processes st)") (simp_all add: Some process_entry_def u Let_def)
  qed
qed

text \<open>The cache that expressions read does not have the sum but the usage of the last process of the name.\<close>

lemma cached_last:
  "map_of (fold (\<lambda>(n, c). AList.update (cache_name n) c) ps m) k =
     (case List.find (\<lambda>p. cache_name (fst p) = k) (rev ps) of None \<Rightarrow> map_of m k | Some p \<Rightarrow> Some (snd p))"
proof (induction ps rule: rev_induct)
  case (snoc p ps)
  then show ?case by (cases p) (simp add: update_conv')
qed simp

section \<open>Services of the machine\<close>

lemma server_builder_service:
  assumes "f64_eq (f64_of_int (sint (word_of_int w :: 64 word))) minus_one = False" "f64_eq (f64_of_int (sint (word_of_int c :: 64 word))) minus_one = False"
  shows "\<exists>s m. service_of_builder now ci hostName (server_builder now name customName v u w c graphed) = Done (Some s) \<and> ms_Metrics s = [m] \<and>
    ts_Value m = Some (tv_integer (sint v)) \<and> bi_Name (ms_BaseInfo s) = Name name customName \<and> bi_Owner (ms_BaseInfo s) = hostName \<and>
    mi_Status (ms_MonitoredInfo s) = threshold_rule (f64_of_int (sint v)) (f64_of_int (sint (word_of_int w :: 64 word))) (f64_of_int (sint (word_of_int c :: 64 word)))"
proof -
  let ?b = "server_builder now name customName v u w c graphed"
  have n: "number_of (tv_integer i) = Some (f64_of_int i)" for i by (simp add: number_of_def tv_defs)
  obtain m i where m: "BuildMetric now ?b = Done (Inr m)" "ts_Value m = Some (tv_integer (sint v))"
      "pick_thresholds (ts_Thresholds m) None None = Inr (Some (tv_integer (sint (word_of_int w :: 64 word))), Some (tv_integer (sint (word_of_int c :: 64 word))))"
      "ts_Interval m = Some i" "ti_EndTime i = Some now"
    using build_metric_ok [of ?b "tv_integer (sint v)" "A_int64 (word_of_int w)" "tv_integer (sint (word_of_int w :: 64 word))"
        "A_int64 (word_of_int c)" "tv_integer (sint (word_of_int c :: 64 word))" now]
    by (auto simp: server_builder_def)
  have "CalculateServiceStatus (Some [m]) = Done (threshold_rule (f64_of_int (sint v)) (f64_of_int (sint (word_of_int w :: 64 word))) (f64_of_int (sint (word_of_int c :: 64 word))), None)"
    by (rule one_metric_status [OF m(3,2)]) (use assms n in auto)
  then show ?thesis using m
    by (simp add: service_of_builder_def BuildServiceForMetric_def CreateService_def last_end_time_def check_times_def Timestamp_Add_def new_BaseInfo_def server_builder_def)
qed

text \<open>
  The services of a disk that could be read: whole megabytes of what is allocated, used and free, each with the status of its
  thresholds.
\<close>

theorem disk_services:
  fixes w c :: int and wl cl :: f64
  defines "wl \<equiv> f64_of_int (sint (word_of_int w :: 64 word))" and "cl \<equiv> f64_of_int (sint (word_of_int c :: 64 word))"
  assumes "ss_disk st = Some (all, used, free)" "\<not> f64_eq wl minus_one" "\<not> f64_eq cl minus_one"
    and "(f, name, v) \<in> {(getTotalDiskUsageService, TotalDiskAllocatedServiceName, all), (getDiskUsedService, DiskUsedServiceName, used),
      (getDiskFreeService, DiskFreeServiceName, free)}"
  shows "\<exists>s m. f st now ci hostName w c customName graphed = Done (Some s) \<and> ms_Metrics s = [m] \<and>
    ts_Value m = Some (tv_integer (uint v div 1048576)) \<and> bi_Name (ms_BaseInfo s) = Name name customName \<and>
    mi_Status (ms_MonitoredInfo s) = threshold_rule (f64_of_int (uint v div 1048576)) wl cl"
proof -
  have "uint (v div MB_bytes) = uint v div 1048576" by (simp add: MB_bytes_def uint_div)
  moreover have "uint v div 1048576 \<le> 2 ^ 64 div 1048576" using uint_bounded [of v] by (intro zdiv_mono1) auto
  ultimately have "uint (v div MB_bytes) < 2 ^ 63" by simp
  moreover have low: "- (2 ^ 63) \<le> uint v div 1048576" by (rule order_trans [of _ 0]) (simp_all add: pos_imp_zdiv_nonneg_iff)
  ultimately have i: "sint (v div MB_bytes) = uint v div 1048576"
    using low \<open>uint (v div MB_bytes) = _\<close> by (simp add: sint_uint signed_take_bit_int_eq_self_iff)
  have "f st now ci hostName w c customName graphed =
      service_of_builder now ci hostName (server_builder now name customName (v div MB_bytes) UnitMB w c graphed)"
    using assms(3,6) by (auto simp: getTotalDiskUsageService_def getDiskUsedService_def getDiskFreeService_def)
  then show ?thesis
    using server_builder_service [of w c now ci hostName name customName "v div MB_bytes" UnitMB graphed] assms(4,5)
    by (auto simp: i wl_def cl_def)
qed

section \<open>Without a host\<close>

text \<open>
  When the host cannot be read, a collection panics, and so does a new configuration: its checksum is not stored and the loop is not
  restarted.
\<close>

theorem no_host_panics:
  assumes "ss_host st = None" "mp_Metrics (vg_profile g) \<noteq> []"
    and "um data (zero_MetricsProfile, new_MonitorConnection server_defaults) = ((prof, conn), None)" "\<And>p e. hashsum cfg p e \<noteq> Some (vg_chksum g)"
  shows "server_periodicHandler ord svc xenv fuel st now g a = Panic NilDereference \<and>
    server_configHandler um_timer um hashsum svc iq_ma st cfg data g a = Panic NilDereference"
proof -
  obtain interval where u: "UnmarshalConfig um_timer um data (vg_CheckInterval g) (zero_MetricsProfile, new_MonitorConnection server_defaults) =
      (interval, (prof, conn), None)"
    by (simp add: UnmarshalConfig_def assms(3))
  have "Synchronize st ms = None" for ms using assms(1) by (simp add: Synchronize_def server_hostName_def)
  moreover have "Some (vg_chksum g) \<noteq> hashsum cfg p e" for p e using assms(4) by metis
  ultimately show ?thesis
    unfolding server_configHandler_def u using assms(1,2)
    by (simp add: Let_def server_periodicHandler_def server_CollectMetrics_def server_hostName_def)
qed

section \<open>Witnesses\<close>

definition demo_stats :: server_stats where
  "demo_stats = \<lparr>ss_host = Some (''h'', 7), ss_disk = Some (10485760, 8388608, 2097152), ss_memory = None, ss_cpu = [FFin 3],
     ss_processes = [(''p'', FFin 1), (''q'', FFin 5), (''p'', FFin 2)], ss_HostNameEnv = [], ss_unfit = \<lambda>_. 0\<rparr>"

text \<open>The sum for the metric, the last value for expressions.\<close>

lemma sum_and_last:
  "map_of (fold add_usage (ss_processes demo_stats) []) ''p'' = Some (FFin 3) \<and>
   map_of (fold (\<lambda>(n, c). AList.update (cache_name n) c) (ss_processes demo_stats) []) ''p'' = Some (FFin 2)"
proof -
  have c: "cache_name ''p'' = ''p''" "cache_name ''q'' = ''q''" by code_simp+
  have a: "f64_add (FFin 1) (FFin 2) = FFin 3" by code_simp
  show ?thesis unfolding usage_total cached_last by (simp add: usage_of_def c a demo_stats_def)
qed

theorem disk_services_witness:
  "\<exists>s. getDiskUsedService demo_stats 0 60 ''h'' 5 9 [] True = Done (Some s) \<and> mi_Status (ms_MonitoredInfo s) = ServiceWarning"
proof -
  have n: "f64_of_int (sint (word_of_int 5 :: 64 word)) = FFin 5" "f64_of_int (sint (word_of_int 9 :: 64 word)) = FFin 9"
      "f64_of_int (uint (8388608 :: 64 word) div 1048576) = FFin 8" by (simp_all add: f64_of_int_exact)
  have m: "\<not> f64_eq (FFin 5) minus_one" "\<not> f64_eq (FFin 9) minus_one" by (simp_all add: f64_eq_def)
  have "threshold_rule (FFin 8) (FFin 5) (FFin 9) = ServiceWarning" by (simp add: threshold_rule_def)
  then show ?thesis
    using disk_services [of demo_stats 10485760 8388608 2097152 5 9 getDiskUsedService DiskUsedServiceName 8388608 0 60 "''h''" "[]" True, unfolded n] m
    by (auto simp: demo_stats_def)
qed

definition demo_server :: server_globals where
  "demo_server = \<lparr>vg_extConfig = server_defaults, vg_profile = zero_MetricsProfile\<lparr>mp_Metrics := [zero_MetricDefinition]\<rparr>, vg_chksum = [],
     vg_cache = None, vg_CheckInterval = DefaultCheckInterval, vg_periodic = periodic_init\<rparr>"

theorem no_host_panics_witness:
  "server_configHandler (\<lambda>_. None) (\<lambda>_ c. (c, None)) (\<lambda>_ _ _. None) undefined undefined (demo_stats\<lparr>ss_host := None\<rparr>) defaults [] demo_server undefined = Panic NilDereference"
proof -
  have "mp_Metrics (vg_profile demo_server) \<noteq> []" by (simp add: demo_server_def)
  then show ?thesis
    using no_host_panics [of "demo_stats\<lparr>ss_host := None\<rparr>" demo_server "\<lambda>_ c. (c, None)" "[]" zero_MetricsProfile "new_MonitorConnection server_defaults"
        "\<lambda>_ _ _. None" defaults] by simp
qed

end
