(* ===== verification/Spec2Isabelle.thy ===== *)
theory Spec2Isabelle
  imports Transit_Status Controller Metric_Types Nsca_Connector Events_Connector Elastic_Connector Apm_Connector Server_Connector
begin

text \<open>
  A verification of the TCG agent, a Go program that collects monitoring data from connectors, batches it, stores
  it in an embedded NATS server and forwards it to Groundwork servers.

  \<^bold>\<open>How the program works.\<close>  A connector calls an operation of the transit service (\<^verbatim>\<open>services/transit.go\<close>).  Events
  and metrics pass a batcher (\<^verbatim>\<open>batcher/\<close>) that combines small payloads and splits large ones; the result gets a
  header and goes to the publisher of \<^verbatim>\<open>nats/nats.go\<close>.  The dispatcher (\<^verbatim>\<open>nats/dispatcher.go\<close>) fetches stored
  messages for each configured Groundwork connection and gives them to the handlers of \<^verbatim>\<open>services/nats.go\<close>, which
  call the HTTP clients of \<^verbatim>\<open>sdk/clients\<close>.  Configuration, exit, and starting and stopping of the parts are tasks of
  one queue (\<^verbatim>\<open>taskqueue/\<close>), pushed by \<^verbatim>\<open>services/agent.go\<close> and by the HTTP API of \<^verbatim>\<open>services/controller.go\<close>.

  \<^bold>\<open>Theories and what they model.\<close>
  \<^item> \<open>Go_Prelude\<close>: outcomes of Go code (\<open>exec\<close>: a value, or a panic, or a wait that never ends), byte strings and the
    functions of \<^verbatim>\<open>strings\<close> and \<^verbatim>\<open>strconv\<close> in use, headers, shared lemmas.  \<open>Go_Float\<close>: the float64 values that are
    compared and printed, as a datatype with NaN, infinities and finite rationals.
  \<^item> \<open>Task_Queue\<close> (\<^verbatim>\<open>taskqueue/taskqueue.go\<close>): the queue as a record, pushing with its critical section, one iteration
    of the worker, and the concurrent system as a step relation.  FIFO order, results on the channels, index
    wrap-around at 8 bits; the contract of handlers is the locale \<open>task_handlers\<close>.
  \<^item> \<open>Batcher\<close> (\<^verbatim>\<open>batcher/batcher.go\<close>), \<open>Events_Builder\<close> and \<open>Metrics_Builder\<close> (\<^verbatim>\<open>batcher/events\<close>, \<^verbatim>\<open>batcher/metrics\<close>): the
    batcher is proved once for a builder that keeps a multiset of items (the locale \<open>batch_builder\<close>), and the builders
    are its interpretations.  JSON decoding and encoding are parameters with a round-trip hypothesis.
  \<^item> \<open>Transit_Model\<close>, \<open>Transit_Status\<close> (\<^verbatim>\<open>sdk/transit\<close>): data types with the source's fields, constructors, timestamps,
    typed values; status of metrics, services and resources against one threshold rule.
  \<^item> \<open>Sdk_Errors\<close>, \<open>Http_Client\<close>, \<open>Gw_Client\<close> (\<^verbatim>\<open>sdk/errors\<close>, \<^verbatim>\<open>sdk/clients\<close>): errors and their wrapping, requests,
    login with the shared token, retry, every operation of the API.  The network is a function on a world state.
  \<^item> \<open>Nats_Payload\<close>, \<open>Nats_Dispatcher\<close>, \<open>Nats_Server\<close>, \<open>Nats_Handlers\<close>: wire formats of stored payloads, a turn of the
    fetching loop with acknowledgement and retries (its handler is the locale \<open>durable_handler\<close>), server, stream and
    publisher with their goroutines, and the program's own handlers.
  \<^item> \<open>Config\<close> (\<^verbatim>\<open>config/config.go\<close>, \<^verbatim>\<open>config/crypt.go\<close>): defaults, pushed configurations, passwords.
  \<^item> \<open>Agent_State\<close>, \<open>Transit_Service\<close>, \<open>Agent_Tasks\<close>, \<open>Controller\<close> (\<^verbatim>\<open>services/\<close>): the agent as one record, the
    operations that publish, the tasks and the queue they run in, the routes with the check of credentials and its
    cache over sequences of requests.
  \<^item> \<open>Go_Float_Arith\<close>, \<open>Expressions\<close>, \<open>Status_Text\<close>, \<open>Connector_Build\<close> (\<^verbatim>\<open>connectors/groundworkFunctions.go\<close>,
    \<^verbatim>\<open>connectors/connectors.go\<close>): float64 arithmetic with rounding to nearest even, the evaluator that rewrites
    expression texts call by call, the texts of statuses, and the code every connector uses to build and send metrics,
    services and resources.  The evaluator takes fuel: more than the number of calls and four suffices on every nested
    call of functions on numeric variables, and \<open>None\<close> stands for a recursion that never ends.
  \<^item> \<open>Go_Regexp\<close>, \<open>Go_Maps\<close>: the regular expressions in use as a datatype with a leftmost-first matcher, and maps with the
    order of their iteration as association lists.
  \<^item> \<open>Nsca_Parser\<close>, \<open>Nsca_Checks\<close>, \<open>Nsca_Connector\<close> (\<^verbatim>\<open>connectors/nsca\<close>): packets, the two line formats with performance
    data, and the path from a packet to the sent resources; the line formats are interpretations of the locale
    \<open>check_lines\<close>.
  \<^item> \<open>Sdk_Mapping\<close> (\<^verbatim>\<open>sdk/mapping/mapping.go\<close>) and \<open>Events_Connector\<close> (\<^verbatim>\<open>connectors/events\<close>): rules that make names from
    labels by templates, and alerts that become events by these rules.
  \<^item> \<open>Metric_Types\<close>: the typing of metric values (a value's tag names a field that is set) and the type safety of the
    builders.  \<open>Connector_Periodic\<close>: the collection loops that \<open>StartPeriodic\<close> starts and a new configuration replaces, as a
    step relation.  \<open>Transit_Profile\<close> (\<^verbatim>\<open>sdk/transit/transit.go\<close>): the profile of metrics a pushed configuration brings.
  \<^item> \<open>Go_Json\<close>, \<open>Go_Time\<close>, \<open>Go_Regexp_Steps\<close>: decoded JSON values of type \<open>any\<close>, the calendar of package \<^verbatim>\<open>time\<close>, and
    rules to compute matches of regular expressions.
  \<^item> \<open>Snmp_Conf\<close>, \<open>Snmp_Nedi\<close>, \<open>Snmp_Client\<close>, \<open>Snmp_Model\<close>, \<open>Snmp_Connector\<close> (\<^verbatim>\<open>connectors/snmp\<close>): credentials in
    \<^verbatim>\<open>nedi.conf\<close> with the cipher of NeDi, the answers of the NeDi server, walks over an SNMP connection, devices and
    interfaces with the cache of previous counters, rates and deltas, and the connector with its configuration and
    periodic handler.
  \<^item> \<open>Elastic_Time\<close>, \<open>Elastic_Query\<close>, \<open>Elastic_Clients\<close>, \<open>Elastic_Model\<close>, \<open>Elastic_Connector\<close> (\<^verbatim>\<open>connectors/elastic\<close>):
    relative times, the translation of stored queries with a meaning for both sides, the two clients with their loops
    over pages, the hosts and counts of a collection, and the connector with its configuration and entry points.  The loops
    over pages take fuel, running out of it is a wait that never ends, and the theorems say how much is enough: more than
    the number of buckets, or of full pages.
  \<^item> \<open>Apm_Parser\<close>, \<open>Apm_Connector\<close> (\<^verbatim>\<open>connectors/apm\<close>): label mappings, remote writes of Prometheus, and the way of every
    value of a pushed or pulled metric family to a metric of a resource; the trees of builders are association lists.
  \<^item> \<open>Server_Connector\<close> (\<^verbatim>\<open>connectors/server\<close>): the services of the machine, the processes by name, the cache that expressions
    read, and the connector with its configuration and handlers.

  \<^bold>\<open>What is shown.\<close>  A published payload reaches the API operation of its type unchanged; batches are acknowledged in
  order and retried a bounded number of times; the queue is first in first out and every result arrives; no event
  and no metric within the split limit is lost or duplicated by the batchers; statuses follow one rule; the agent
  keeps its invariant over all tasks; private routes need credentials; wire formats, timestamps and passwords
  round trip; loops end; synthetic metrics have the value of their expression; metrics built from typed values are
  well typed; alerts, NSCA packets, metrics of Prometheus and SNMP counters become exactly the resources that are sent; a translated query means
  what the stored query says.  Where the code does something else than it means to, a theorem says what it does.

  \<^bold>\<open>Parameters.\<close>  Code outside the repository is an argument of the definitions: JSON, YAML and gzip codecs, the NATS
  library (results of connecting, of creating a stream or a consumer, of publishing), HTTP exchanges, the clock, the
  environment, hashes and ciphers, the expression package gval, hexadecimal number texts, the syntax of regular expressions,
  decoded alerts, decryption and checksum of NSCA packets, the readings of gopsutil, the SNMP and Elasticsearch libraries, protocol buffers and
  the text format of Prometheus, the parser of URLs, the parser of KQL, time zones, the iteration order of maps, registered handlers of connectors.  What is assumed of them is named in each
  statement and has a concrete instance in its witness.  Loops over finite data are recursive functions; the loop
  that asks for a configuration is a partial function whose termination is proved under the condition that the
  server answers.

  \<^bold>\<open>Not modelled.\<close>  The remaining connectors (\<^verbatim>\<open>azure\<close>, \<^verbatim>\<open>checker\<close>, \<^verbatim>\<open>k8s\<close>, \<^verbatim>\<open>office\<close>, \<^verbatim>\<open>oracle\<close>, which read
  their data through third-party packages), the TCP listener, the \<^verbatim>\<open>Run\<close> functions that wait for the quit signal, statistics, telemetry, logging, exports to disk,
  profiling pages, cgo bindings, the code generator \<^verbatim>\<open>gotocjson\<close>, and deprecated copies.
\<close>

end
